(* ===== verification/Prelude.thy ===== *)
theory Prelude imports Complex_Main "HOL-Library.AList" begin

text \<open>
  The vocabulary shared by every component: type synonyms for the Python types the program
  uses, Python's dynamic values (\<open>Any\<close>, the result dictionaries of the executors), the few
  string and dictionary operations the sources call, and the generic lemmas about them.

  Conventions of the whole development. A Python \<open>str\<close> is a HOL \<open>string\<close>, one character
  per code point below 256 (Latin-1); the accented letters of messages that no code inspects
  are written without their accents. A Python \<open>float\<close> amount of money is an exact rational:
  IEEE rounding is not modelled. A \<open>datetime\<close> is a number of microseconds. A Python
  \<open>dict\<close> whose iteration order is observed is an association list in insertion order.
\<close>

type_synonym uuid = nat
type_synonym usd = rat
type_synonym timestamp = int
type_synonym ('k, 'v) pydict = "('k \<times> 'v) list"

named_theorems record_eqs \<open>field equations of the model's update functions\<close>
named_theorems frames \<open>fields an operation leaves alone\<close>

section \<open>Exceptions and results\<close>

text \<open>The exceptions the modelled code tells apart, with the text \<open>str(exc)\<close>.\<close>

datatype exc_kind =
    TimeoutError
  | BudgetAdmissionError
  | CircuitOpenError
  | RetryableProviderError
  | NonRetryableProviderError
  | StructuredOutputError
  | ValueError
  | TypeError
  | LookupError
  | WorkflowDispatchConflict
  | AssertionError
  | CancelledError
  | OtherError string

datatype exc = Exc (exc_kind: exc_kind) (exc_text: string)

primrec exc_type_name :: "exc_kind \<Rightarrow> string" where
  "exc_type_name TimeoutError = ''TimeoutError''"
| "exc_type_name BudgetAdmissionError = ''BudgetAdmissionError''"
| "exc_type_name CircuitOpenError = ''CircuitOpenError''"
| "exc_type_name RetryableProviderError = ''RetryableProviderError''"
| "exc_type_name NonRetryableProviderError = ''NonRetryableProviderError''"
| "exc_type_name StructuredOutputError = ''StructuredOutputError''"
| "exc_type_name ValueError = ''ValueError''"
| "exc_type_name TypeError = ''TypeError''"
| "exc_type_name LookupError = ''LookupError''"
| "exc_type_name WorkflowDispatchConflict = ''WorkflowDispatchConflict''"
| "exc_type_name AssertionError = ''AssertionError''"
| "exc_type_name CancelledError = ''CancelledError''"
| "exc_type_name (OtherError n) = n"

type_synonym 'a result = "exc + 'a"

text \<open>\<open>f"{type(exc).__name__}: {exc}"\<close>.\<close>

definition exc_repr :: "exc \<Rightarrow> string" where
  "exc_repr e = exc_type_name (exc_kind e) @ '': '' @ exc_text e"

section \<open>Strings\<close>

primrec join :: "string \<Rightarrow> string list \<Rightarrow> string" where
  "join sep [] = []"
| "join sep (x # xs) = (case xs of [] \<Rightarrow> x | _ \<Rightarrow> x @ sep @ join sep xs)"

definition starts_with :: "string \<Rightarrow> string \<Rightarrow> bool" where
  "starts_with s p \<longleftrightarrow> take (length p) s = p"

primrec contains :: "string \<Rightarrow> string \<Rightarrow> bool" where
  "contains [] p \<longleftrightarrow> p = []"
| "contains (c # s) p \<longleftrightarrow> starts_with (c # s) p \<or> contains s p"

text \<open>\<open>str.lower\<close> on the Latin-1 range: the capital letters A-Z, and the accented capitals
  (code points 192 to 222) but the multiplication sign (215).\<close>

definition lower_char :: "char \<Rightarrow> char" where
  "lower_char c =
     (let n = (of_char c :: nat)
      in if (65 \<le> n \<and> n \<le> 90) \<or> (192 \<le> n \<and> n \<le> 222 \<and> n \<noteq> 215) then char_of (n + 32) else c)"

definition str_lower :: "string \<Rightarrow> string" where
  "str_lower s = map lower_char s"

text \<open>\<open>str.isspace\<close> on the Latin-1 range.\<close>

definition is_space :: "char \<Rightarrow> bool" where
  "is_space c =
     (let n = (of_char c :: nat)
      in (9 \<le> n \<and> n \<le> 13) \<or> (28 \<le> n \<and> n \<le> 32) \<or> n = 133 \<or> n = 160)"

definition strip :: "string \<Rightarrow> string" where
  "strip s = rev (dropWhile is_space (rev (dropWhile is_space s)))"

primrec split_on_aux :: "char \<Rightarrow> string \<Rightarrow> string \<Rightarrow> string list" where
  "split_on_aux d acc [] = [rev acc]"
| "split_on_aux d acc (c # s) =
     (if c = d then rev acc # split_on_aux d [] s else split_on_aux d (c # acc) s)"

text \<open>\<open>s.split(d)\<close> for a one-character separator.\<close>

definition split_on :: "char \<Rightarrow> string \<Rightarrow> string list" where
  "split_on d s = split_on_aux d [] s"

definition digit_char :: "nat \<Rightarrow> char" where
  "digit_char n = char_of (48 + n mod 10)"

fun show_nat :: "nat \<Rightarrow> string" where
  "show_nat n = (if n < 10 then [digit_char n] else show_nat (n div 10) @ [digit_char (n mod 10)])"

declare show_nat.simps [simp del]

definition show_int :: "int \<Rightarrow> string" where
  "show_int i = (if i < 0 then ''-'' @ show_nat (nat (- i)) else show_nat (nat i))"

definition show_bool :: "bool \<Rightarrow> string" where
  "show_bool b = (if b then ''True'' else ''False'')"

text \<open>\<open>f"{x:.kf}"\<close>: round half to even at \<open>k\<close> decimals, pad the fraction with zeros.\<close>

definition round_half_even :: "rat \<Rightarrow> int" where
  "round_half_even x =
     (let f = \<lfloor>x\<rfloor>; d = x - of_int f
      in if d < 1/2 then f else if d > 1/2 then f + 1 else if even f then f else f + 1)"

definition fmt_fixed :: "nat \<Rightarrow> rat \<Rightarrow> string" where
  "fmt_fixed k x =
     (let m = nat (round_half_even (\<bar>x\<bar> * 10 ^ k));
          frac = show_nat (m mod 10 ^ k)
      in (if x < 0 then ''-'' else '''') @ show_nat (m div 10 ^ k)
         @ (if k = 0 then '''' else ''.'' @ replicate (k - length frac) (CHR ''0'') @ frac))"

text \<open>\<open>s or t\<close> and \<open>bool(s)\<close> for an optional string.\<close>

definition truthy_str :: "string option \<Rightarrow> bool" where
  "truthy_str s \<longleftrightarrow> (case s of None \<Rightarrow> False | Some x \<Rightarrow> x \<noteq> [])"

definition or_str :: "string option \<Rightarrow> string \<Rightarrow> string" where
  "or_str s t = (case s of None \<Rightarrow> t | Some x \<Rightarrow> if x = [] then t else x)"

text \<open>\<open>str(x)\<close> of an optional string.\<close>

definition show_opt :: "string option \<Rightarrow> string" where
  "show_opt s = (case s of None \<Rightarrow> ''None'' | Some x \<Rightarrow> x)"

section \<open>Lists and dictionaries\<close>

text \<open>\<open>list(dict.fromkeys(xs))\<close>: duplicates removed, the first occurrence kept.\<close>

definition unique :: "'a list \<Rightarrow> 'a list" where
  "unique xs = rev (foldl (\<lambda>acc x. if x \<in> set acc then acc else x # acc) [] xs)"

text \<open>A dictionary built from pairs in order: a later pair overwrites the value and keeps the
  position of the first.\<close>

definition dict_of :: "('k \<times> 'v) list \<Rightarrow> ('k, 'v) pydict" where
  "dict_of ps = foldl (\<lambda>d (k, v). AList.update k v d) [] ps"

abbreviation dict_get :: "('k, 'v) pydict \<Rightarrow> 'k \<Rightarrow> 'v option" where
  "dict_get \<equiv> map_of"

definition dict_get_or :: "('k, 'v) pydict \<Rightarrow> 'k \<Rightarrow> 'v \<Rightarrow> 'v" where
  "dict_get_or d k v = (case map_of d k of None \<Rightarrow> v | Some x \<Rightarrow> x)"

text \<open>\<open>next((x for x in xs if p(x)), None)\<close> is the library's \<open>List.find\<close>.\<close>

definition last_opt :: "'a list \<Rightarrow> 'a option" where
  "last_opt xs = (if xs = [] then None else Some (last xs))"

section \<open>Dynamic values\<close>

text \<open>The JSON-shaped values that executors return and that travel in the workflow context.\<close>

datatype pyval =
    PNone
  | PBool bool
  | PInt int
  | PFloat rat
  | PStr string
  | PList "pyval list"
  | PDict "(string \<times> pyval) list"

primrec as_dict :: "pyval \<Rightarrow> (string \<times> pyval) list option" where
  "as_dict PNone = None"
| "as_dict (PBool b) = None"
| "as_dict (PInt i) = None"
| "as_dict (PFloat r) = None"
| "as_dict (PStr s) = None"
| "as_dict (PList xs) = None"
| "as_dict (PDict d) = Some d"

primrec as_list :: "pyval \<Rightarrow> pyval list option" where
  "as_list PNone = None"
| "as_list (PBool b) = None"
| "as_list (PInt i) = None"
| "as_list (PFloat r) = None"
| "as_list (PStr s) = None"
| "as_list (PList xs) = Some xs"
| "as_list (PDict d) = None"

primrec as_str :: "pyval \<Rightarrow> string option" where
  "as_str PNone = None"
| "as_str (PBool b) = None"
| "as_str (PInt i) = None"
| "as_str (PFloat r) = None"
| "as_str (PStr s) = Some s"
| "as_str (PList xs) = None"
| "as_str (PDict d) = None"

text \<open>\<open>bool(v)\<close>.\<close>

primrec truthy :: "pyval \<Rightarrow> bool" where
  "truthy PNone \<longleftrightarrow> False"
| "truthy (PBool b) \<longleftrightarrow> b"
| "truthy (PInt i) \<longleftrightarrow> i \<noteq> 0"
| "truthy (PFloat r) \<longleftrightarrow> r \<noteq> 0"
| "truthy (PStr s) \<longleftrightarrow> s \<noteq> []"
| "truthy (PList xs) \<longleftrightarrow> xs \<noteq> []"
| "truthy (PDict d) \<longleftrightarrow> d \<noteq> []"

text \<open>\<open>d.get(k)\<close>: \<open>None\<close> when the key is absent.\<close>

definition pget :: "(string \<times> pyval) list \<Rightarrow> string \<Rightarrow> pyval" where
  "pget d k = dict_get_or d k PNone"

text \<open>\<open>value.get(k)\<close> where \<open>value\<close> is kept only if it is a dictionary.\<close>

definition dict_field :: "pyval \<Rightarrow> string \<Rightarrow> pyval" where
  "dict_field v k = (case as_dict v of None \<Rightarrow> PNone | Some d \<Rightarrow> pget d k)"

definition list_or_empty :: "pyval \<Rightarrow> pyval list" where
  "list_or_empty v = (case as_list v of None \<Rightarrow> [] | Some xs \<Rightarrow> xs)"

definition opt_str_val :: "string option \<Rightarrow> pyval" where
  "opt_str_val s = (case s of None \<Rightarrow> PNone | Some x \<Rightarrow> PStr x)"

definition opt_int_val :: "int option \<Rightarrow> pyval" where
  "opt_int_val s = (case s of None \<Rightarrow> PNone | Some x \<Rightarrow> PInt x)"

section \<open>Generic lemmas\<close>

lemma map_of_update [simp]: "map_of (AList.update k v d) = (map_of d)(k \<mapsto> v)"
  by (rule ext) (simp add: update_conv)

lemma foldl_update_map_of:
  "map_of (foldl (\<lambda>d (k, v). AList.update k v d) d ps) k =
     (case map_of (rev ps) k of None \<Rightarrow> map_of d k | Some v \<Rightarrow> Some v)"
  by (induction ps arbitrary: d) (auto simp: map_add_def split: option.splits)

lemma map_of_dict_of: "map_of (dict_of ps) = map_of (rev ps)"
  by (rule ext) (simp add: dict_of_def foldl_update_map_of split: option.splits)

lemma map_of_rev_distinct: "distinct (map fst xs) \<Longrightarrow> map_of (rev xs) = map_of xs"
  by (rule map_of_inject_set [THEN iffD2]) (simp_all add: rev_map [symmetric])

lemma distinct_dict_of: "distinct (map fst (dict_of ps))"
proof -
  have "distinct (map fst d) \<Longrightarrow> distinct (map fst (foldl (\<lambda>d (k, v). AList.update k v d) d ps))"
    for d
    by (induction ps arbitrary: d) (auto simp: distinct_update)
  then show ?thesis by (simp add: dict_of_def)
qed

lemma dict_of_distinct: "distinct (map fst ps) \<Longrightarrow> dict_of ps = ps"
proof -
  have upd: "k \<notin> fst ` set d \<Longrightarrow> AList.update k v d = d @ [(k, v)]" for k :: 'a and v :: 'b and d
    by (induction d) auto
  have "distinct (map fst (d @ ps)) \<Longrightarrow> foldl (\<lambda>d (k, v). AList.update k v d) d ps = d @ ps" for d
    by (induction ps arbitrary: d) (auto simp: upd)
  from this [of "[]"] show "distinct (map fst ps) \<Longrightarrow> dict_of ps = ps" by (simp add: dict_of_def)
qed

lemma dict_of_keys: "set (map fst (dict_of ps)) = set (map fst ps)"
proof -
  have "set (map fst (foldl (\<lambda>d (k, v). AList.update k v d) d ps)) = set (map fst d) \<union> set (map fst ps)"
    for d
  proof (induction ps arbitrary: d)
    case (Cons p ps)
    obtain k v where p: "p = (k, v)" by (cases p)
    show ?case using Cons.IH [of "AList.update k v d"] by (simp add: p dom_update)
  qed simp
  from this [of "[]"] show ?thesis by (simp add: dict_of_def)
qed

text \<open>A dictionary as long as the list it is built from is that list: no key occurs twice.\<close>

lemma dict_of_same_length:
  assumes "length (dict_of ps) = length ps"
  shows "distinct (map fst ps)" and "dict_of ps = ps"
proof -
  have "card (set (map fst ps)) = length (map fst (dict_of ps))"
    using distinct_card [OF distinct_dict_of, of ps] dict_of_keys [of ps] by simp
  then show d: "distinct (map fst ps)" using assms by (simp add: card_distinct)
  then show "dict_of ps = ps" by (rule dict_of_distinct)
qed

lemma dict_get_or_simps [simp]:
  "map_of d k = None \<Longrightarrow> dict_get_or d k v = v"
  "map_of d k = Some x \<Longrightarrow> dict_get_or d k v = x"
  by (simp_all add: dict_get_or_def)

lemma set_unique_aux:
  "set (foldl (\<lambda>acc x. if x \<in> set acc then acc else x # acc) acc xs) = set acc \<union> set xs"
  by (induction xs arbitrary: acc) auto

lemma set_unique [simp]: "set (unique xs) = set xs"
  by (simp add: unique_def set_unique_aux)

lemma distinct_unique_aux:
  "distinct acc \<Longrightarrow> distinct (foldl (\<lambda>acc x. if x \<in> set acc then acc else x # acc) acc xs)"
  by (induction xs arbitrary: acc) auto

lemma distinct_unique [simp]: "distinct (unique xs)"
  by (simp add: unique_def distinct_unique_aux)

lemma starts_with_append [simp]: "starts_with (p @ s) p"
  by (simp add: starts_with_def)

lemma starts_with_iff: "starts_with s p \<longleftrightarrow> (\<exists>t. s = p @ t)"
  by (metis append_take_drop_id starts_with_append starts_with_def)

lemma show_nat_nonempty [simp]: "show_nat n \<noteq> []"
  by (subst show_nat.simps) simp

end
