(* ===== verification/Call_Budget.thy ===== *)
theory Call_Budget imports Transition begin

text \<open>
  Call admission and metering (\<open>app/infrastructure/llm_budget.py\<close>). Budgets are mutable
  objects shared by concurrent calls, so they live in a store indexed by identity; a budget's
  chain of enclosing budgets (its \<open>parent\<close> links) is the list of their identities, innermost
  first, and \<open>ContextVar _active\<close> is the head of such a list. A reservation points to the
  budget it was taken from and to the reservation it took from the parent.
\<close>

record call_budget =
  cb_max_tokens :: int
  cb_max_cost_usd :: usd
  cb_tokens :: int
  cb_cost_usd :: usd
  cb_unconfirmed_tokens :: int
  cb_unconfirmed_cost_usd :: usd
  cb_reserved_tokens :: int
  cb_reserved_cost_usd :: usd
  cb_blocked_reason :: "string option"

definition fresh_budget :: "int \<Rightarrow> usd \<Rightarrow> call_budget" where
  "fresh_budget mt mc =
     \<lparr>cb_max_tokens = mt, cb_max_cost_usd = mc, cb_tokens = 0, cb_cost_usd = 0,
      cb_unconfirmed_tokens = 0, cb_unconfirmed_cost_usd = 0, cb_reserved_tokens = 0,
      cb_reserved_cost_usd = 0, cb_blocked_reason = None\<rparr>"

type_synonym budget_store = "nat \<Rightarrow> call_budget"

datatype reservation =
  Reservation (rv_budget: nat) (rv_tokens: int) (rv_cost_usd: usd) (rv_parent: "reservation option")

definition available_tokens :: "call_budget \<Rightarrow> int" where
  "available_tokens b =
     cb_max_tokens b - cb_tokens b - cb_unconfirmed_tokens b - cb_reserved_tokens b"

definition available_cost :: "call_budget \<Rightarrow> usd" where
  "available_cost b =
     cb_max_cost_usd b - cb_cost_usd b - cb_unconfirmed_cost_usd b - cb_reserved_cost_usd b"

primrec remaining_allowance :: "budget_store \<Rightarrow> nat \<Rightarrow> nat list \<Rightarrow> int \<times> usd" where
  "remaining_allowance \<sigma> i [] = (available_tokens (\<sigma> i), available_cost (\<sigma> i))"
| "remaining_allowance \<sigma> i (p # ps) =
     (case remaining_allowance \<sigma> p ps of
        (pt, pc) \<Rightarrow> (min (available_tokens (\<sigma> i)) pt, min (available_cost (\<sigma> i)) pc))"

definition admission_message :: "int \<Rightarrow> usd \<Rightarrow> call_budget \<Rightarrow> string" where
  "admission_message tokens cost b =
     ''llm_budget_admission: proximo pedido exige reserva de '' @ show_int tokens
     @ '' tokens / US$ '' @ fmt_fixed 6 cost @ ''; saldo disponivel ''
     @ show_int (max 0 (available_tokens b)) @ '' tokens / US$ ''
     @ fmt_fixed 6 (max 0 (available_cost b))"

definition add_reserved :: "int \<Rightarrow> usd \<Rightarrow> call_budget \<Rightarrow> call_budget" where
  "add_reserved t c b =
     b\<lparr>cb_reserved_tokens := cb_reserved_tokens b + t,
       cb_reserved_cost_usd := cb_reserved_cost_usd b + c\<rparr>"

text \<open>\<open>CallBudget.reserve\<close>: the own check, then the parent's reservation, then the own one.\<close>

fun reserve ::
  "budget_store \<Rightarrow> nat \<Rightarrow> nat list \<Rightarrow> int \<Rightarrow> usd \<Rightarrow> reservation result \<times> budget_store"
where
  "reserve \<sigma> i ps tokens cost =
     (case cb_blocked_reason (\<sigma> i) of
        Some reason \<Rightarrow> (Inl (Exc BudgetAdmissionError reason), \<sigma>)
      | None \<Rightarrow>
          if tokens > available_tokens (\<sigma> i) \<or> cost > available_cost (\<sigma> i)
          then let reason = admission_message tokens cost (\<sigma> i)
               in (Inl (Exc BudgetAdmissionError reason),
                   \<sigma>(i := (\<sigma> i)\<lparr>cb_blocked_reason := Some reason\<rparr>))
          else (case ps of
              [] \<Rightarrow> (Inr (Reservation i tokens cost None),
                     \<sigma>(i := add_reserved tokens cost (\<sigma> i)))
            | p # qs \<Rightarrow>
                (case reserve \<sigma> p qs tokens cost of
                   (Inl e, \<sigma>1) \<Rightarrow> (Inl e, \<sigma>1)
                 | (Inr r, \<sigma>1) \<Rightarrow>
                     (Inr (Reservation i tokens cost (Some r)),
                      \<sigma>1(i := add_reserved tokens cost (\<sigma>1 i))))))"

declare reserve.simps [simp del]

definition budget_usage :: "call_budget \<Rightarrow> (string, rat) pydict" where
  "budget_usage b =
     [(''tokens'', of_int (cb_tokens b)), (''cost_usd'', cb_cost_usd b)]
     @ (if cb_unconfirmed_tokens b \<noteq> 0 \<or> cb_unconfirmed_cost_usd b \<noteq> 0
        then [(''unconfirmed_tokens'', of_int (cb_unconfirmed_tokens b)),
              (''unconfirmed_cost_usd'', cb_unconfirmed_cost_usd b)]
        else [])"

fun release :: "budget_store \<Rightarrow> reservation \<Rightarrow> budget_store" where
  "release \<sigma> (Reservation i t c p) =
     (let \<sigma>1 = \<sigma>(i := add_reserved (- t) (- c) (\<sigma> i))
      in case p of None \<Rightarrow> \<sigma>1 | Some q \<Rightarrow> release \<sigma>1 q)"

definition estimate_exceeded :: string where
  "estimate_exceeded = ''llm_budget_estimate_exceeded: consumo medido excedeu a reserva''"

text \<open>What \<open>settle\<close> writes to one budget once the parent has been settled.\<close>

definition book_usage :: "int \<Rightarrow> usd \<Rightarrow> int option \<Rightarrow> usd option \<Rightarrow> call_budget \<Rightarrow> call_budget" where
  "book_usage t c tokens cost b =
     (case (tokens, cost) of
        (Some t', Some c') \<Rightarrow>
          (let b1 = b\<lparr>cb_tokens := cb_tokens b + t', cb_cost_usd := cb_cost_usd b + c'\<rparr>
           in if t' > t \<or> c' > c then b1\<lparr>cb_blocked_reason := Some estimate_exceeded\<rparr> else b1)
      | _ \<Rightarrow> b\<lparr>cb_unconfirmed_tokens := cb_unconfirmed_tokens b + t,
               cb_unconfirmed_cost_usd := cb_unconfirmed_cost_usd b + c\<rparr>)"

fun settle :: "budget_store \<Rightarrow> reservation \<Rightarrow> int option \<Rightarrow> usd option \<Rightarrow> budget_store" where
  "settle \<sigma> (Reservation i t c p) tokens cost =
     (let \<sigma>1 = \<sigma>(i := add_reserved (- t) (- c) (\<sigma> i));
          \<sigma>2 = (case p of None \<Rightarrow> \<sigma>1 | Some q \<Rightarrow> settle \<sigma>1 q tokens cost)
      in \<sigma>2(i := book_usage t c tokens cost (\<sigma>2 i)))"

text \<open>\<open>call_budget_scope\<close>: the chain of the entered budget, and the propagation of its block
  to the parent on exit.\<close>

definition enter_scope :: "nat list \<Rightarrow> nat \<Rightarrow> nat list" where
  "enter_scope stk i = (case stk of [] \<Rightarrow> [i] | p # _ \<Rightarrow> if p = i then stk else i # stk)"

definition exit_scope :: "budget_store \<Rightarrow> nat list \<Rightarrow> budget_store" where
  "exit_scope \<sigma> path =
     (case path of
        i # p # _ \<Rightarrow> (case cb_blocked_reason (\<sigma> i) of
            None \<Rightarrow> \<sigma>
          | Some reason \<Rightarrow> \<sigma>(p := (\<sigma> p)\<lparr>cb_blocked_reason := Some reason\<rparr>))
      | _ \<Rightarrow> \<sigma>)"

definition active_call_budget :: "budget_store \<Rightarrow> nat list \<Rightarrow> call_budget option" where
  "active_call_budget \<sigma> stk = (case stk of [] \<Rightarrow> None | i # _ \<Rightarrow> Some (\<sigma> i))"

section \<open>Closed forms of the chain operations\<close>

primrec chain_reservation :: "nat \<Rightarrow> nat list \<Rightarrow> int \<Rightarrow> usd \<Rightarrow> reservation" where
  "chain_reservation i [] t c = Reservation i t c None"
| "chain_reservation i (p # ps) t c = Reservation i t c (Some (chain_reservation p ps t c))"

definition on_chain :: "nat list \<Rightarrow> (call_budget \<Rightarrow> call_budget) \<Rightarrow> budget_store \<Rightarrow> budget_store" where
  "on_chain ids f \<sigma> = (\<lambda>j. if j \<in> set ids then f (\<sigma> j) else \<sigma> j)"

lemma on_chain_apply: "on_chain ids f \<sigma> j = (if j \<in> set ids then f (\<sigma> j) else \<sigma> j)"
  by (simp add: on_chain_def)

definition committed_tokens :: "call_budget \<Rightarrow> int" where
  "committed_tokens b = cb_tokens b + cb_unconfirmed_tokens b + cb_reserved_tokens b"

definition committed_cost :: "call_budget \<Rightarrow> usd" where
  "committed_cost b = cb_cost_usd b + cb_unconfirmed_cost_usd b + cb_reserved_cost_usd b"

lemma add_reserved_fields [simp]:
  "cb_max_tokens (add_reserved t c b) = cb_max_tokens b"
  "cb_max_cost_usd (add_reserved t c b) = cb_max_cost_usd b"
  "cb_tokens (add_reserved t c b) = cb_tokens b"
  "cb_cost_usd (add_reserved t c b) = cb_cost_usd b"
  "cb_unconfirmed_tokens (add_reserved t c b) = cb_unconfirmed_tokens b"
  "cb_unconfirmed_cost_usd (add_reserved t c b) = cb_unconfirmed_cost_usd b"
  "cb_reserved_tokens (add_reserved t c b) = cb_reserved_tokens b + t"
  "cb_reserved_cost_usd (add_reserved t c b) = cb_reserved_cost_usd b + c"
  "cb_blocked_reason (add_reserved t c b) = cb_blocked_reason b"
  by (simp_all add: add_reserved_def)

lemma add_reserved_inverse [simp]: "add_reserved (- t) (- c) (add_reserved t c b) = b"
  by (cases b) (simp add: add_reserved_def)

lemma book_usage_fields [simp]:
  "cb_max_tokens (book_usage t c x y b) = cb_max_tokens b"
  "cb_max_cost_usd (book_usage t c x y b) = cb_max_cost_usd b"
  "cb_reserved_tokens (book_usage t c x y b) = cb_reserved_tokens b"
  "cb_reserved_cost_usd (book_usage t c x y b) = cb_reserved_cost_usd b"
  by (auto simp: book_usage_def Let_def split: option.splits)

lemma reserve_Inr_closed:
  "reserve \<sigma> i ps t c = (Inr r, \<sigma>') \<Longrightarrow> distinct (i # ps) \<Longrightarrow>
     r = chain_reservation i ps t c \<and> \<sigma>' = on_chain (i # ps) (add_reserved t c) \<sigma>
     \<and> (\<forall>j \<in> set (i # ps). cb_blocked_reason (\<sigma> j) = None
          \<and> t \<le> available_tokens (\<sigma> j) \<and> c \<le> available_cost (\<sigma> j))"
proof (induction ps arbitrary: i r \<sigma>')
  case Nil
  then show ?case
    by (subst (asm) reserve.simps)
       (auto simp: on_chain_def fun_eq_iff Let_def split: option.splits if_splits)
next
  case (Cons p ps)
  from Cons.prems obtain q \<sigma>1 where
      own: "cb_blocked_reason (\<sigma> i) = None" "t \<le> available_tokens (\<sigma> i)" "c \<le> available_cost (\<sigma> i)"
      and rec: "reserve \<sigma> p ps t c = (Inr q, \<sigma>1)"
      and r: "r = Reservation i t c (Some q)" "\<sigma>' = \<sigma>1(i := add_reserved t c (\<sigma>1 i))"
    by (subst (asm) reserve.simps)
       (auto simp: Let_def split: option.splits if_splits prod.splits sum.splits)
  from Cons.prems(2) have dist: "distinct (p # ps)" and notin: "i \<notin> set (p # ps)"
    by auto
  from Cons.IH [OF rec dist] notin own r show ?case
    by (auto simp: on_chain_def fun_eq_iff)
qed

lemma blocked_idem [simp]: "cb_blocked_reason b = Some x \<Longrightarrow> b\<lparr>cb_blocked_reason := Some x\<rparr> = b"
  by (cases b) simp

lemma reserve_Inl_closed:
  assumes "reserve \<sigma> i ps t c = (Inl e, \<sigma>')"
  shows "\<exists>k \<in> set (i # ps). exc_kind e = BudgetAdmissionError \<and> cb_blocked_reason (\<sigma>' k) = Some (exc_text e)
           \<and> \<sigma>' = \<sigma>(k := (\<sigma> k)\<lparr>cb_blocked_reason := Some (exc_text e)\<rparr>)"
  using assms
proof (induction ps arbitrary: i e \<sigma>')
  case Nil
  then show ?case
    by (subst (asm) reserve.simps)
       (auto simp: Let_def split: option.splits if_splits)
next
  case (Cons p ps)
  show ?case
  proof (cases "cb_blocked_reason (\<sigma> i) = None \<and> t \<le> available_tokens (\<sigma> i) \<and> c \<le> available_cost (\<sigma> i)")
    case True
    with Cons.prems have "reserve \<sigma> p ps t c = (Inl e, \<sigma>')"
      by (subst (asm) reserve.simps)
         (auto simp: Let_def split: option.splits if_splits prod.splits sum.splits)
    from Cons.IH [OF this] show ?thesis by (auto simp: Let_def)
  next
    case False
    with Cons.prems show ?thesis
      by (subst (asm) reserve.simps)
         (auto simp: Let_def split: option.splits if_splits)
  qed
qed

lemma release_closed:
  "distinct (i # ps) \<Longrightarrow>
     release \<sigma> (chain_reservation i ps t c) = on_chain (i # ps) (add_reserved (- t) (- c)) \<sigma>"
proof (induction ps arbitrary: i \<sigma>)
  case Nil
  then show ?case by (auto simp: on_chain_def fun_eq_iff Let_def)
next
  case (Cons p ps)
  then have "distinct (p # ps)" and "i \<notin> set (p # ps)" by auto
  then show ?case
    by (auto simp: Cons.IH Let_def on_chain_def fun_eq_iff)
qed

lemma settle_closed:
  "distinct (i # ps) \<Longrightarrow>
     settle \<sigma> (chain_reservation i ps t c) x y =
       on_chain (i # ps) (\<lambda>b. book_usage t c x y (add_reserved (- t) (- c) b)) \<sigma>"
proof (induction ps arbitrary: i \<sigma>)
  case Nil
  then show ?case by (auto simp: on_chain_def fun_eq_iff Let_def)
next
  case (Cons p ps)
  then have "distinct (p # ps)" and "i \<notin> set (p # ps)" by auto
  then show ?case
    by (auto simp: Cons.IH Let_def on_chain_def fun_eq_iff)
qed

text \<open>A released reservation leaves no trace; a failed admission books nothing.\<close>

lemma release_undoes_reserve:
  "reserve \<sigma> i ps t c = (Inr r, \<sigma>') \<Longrightarrow> distinct (i # ps) \<Longrightarrow> release \<sigma>' r = \<sigma>"
  by (drule (1) reserve_Inr_closed) (auto simp: release_closed on_chain_def fun_eq_iff)

lemma reserve_Inl_frame:
  assumes "reserve \<sigma> i ps t c = (Inl e, \<sigma>')"
  shows "(\<sigma>' j)\<lparr>cb_blocked_reason := None\<rparr> = (\<sigma> j)\<lparr>cb_blocked_reason := None\<rparr>"
  using reserve_Inl_closed [OF assms] by auto

lemma reserve_raises_admission:
  "reserve \<sigma> i ps t c = (Inl e, \<sigma>') \<Longrightarrow> exc_kind e = BudgetAdmissionError"
  by (drule reserve_Inl_closed) auto

section \<open>Concurrent calls over shared budgets\<close>

definition within_budget :: "call_budget \<Rightarrow> bool" where
  "within_budget b \<longleftrightarrow>
     (cb_blocked_reason b = None \<longrightarrow>
        committed_tokens b \<le> cb_max_tokens b \<and> committed_cost b \<le> cb_max_cost_usd b)"

lemma within_add_reserved:
  "cb_blocked_reason b = None \<Longrightarrow> t \<le> available_tokens b \<Longrightarrow> c \<le> available_cost b \<Longrightarrow>
     within_budget (add_reserved t c b)"
  by (simp add: within_budget_def committed_tokens_def committed_cost_def available_tokens_def
      available_cost_def)

lemma within_release: "within_budget b \<Longrightarrow> 0 \<le> t \<Longrightarrow> 0 \<le> c \<Longrightarrow> within_budget (add_reserved (- t) (- c) b)"
  by (auto simp: within_budget_def committed_tokens_def committed_cost_def)

lemma within_settle:
  "within_budget b \<Longrightarrow> within_budget (book_usage t c x y (add_reserved (- t) (- c) b))"
  by (auto simp: within_budget_def committed_tokens_def committed_cost_def book_usage_def Let_def
      split: option.splits)

text \<open>The calls in flight: each holds the reservation of its whole chain. Any number of calls
  are admitted, refused, released and settled in any order, and scopes end at any time.\<close>

record metering =
  m_store :: budget_store
  m_open :: "reservation list"

fun reservation_ids :: "reservation \<Rightarrow> nat list" where
  "reservation_ids (Reservation i t c p) =
     i # (case p of None \<Rightarrow> [] | Some q \<Rightarrow> reservation_ids q)"

inductive metering_step :: "metering \<Rightarrow> metering \<Rightarrow> bool" where
  admit: "distinct (i # ps) \<Longrightarrow> 0 \<le> t \<Longrightarrow> 0 \<le> c \<Longrightarrow> reserve (m_store m) i ps t c = (Inr r, \<sigma>) \<Longrightarrow>
     metering_step m \<lparr>m_store = \<sigma>, m_open = r # m_open m\<rparr>"
| refuse: "distinct (i # ps) \<Longrightarrow> reserve (m_store m) i ps t c = (Inl e, \<sigma>) \<Longrightarrow>
     metering_step m \<lparr>m_store = \<sigma>, m_open = m_open m\<rparr>"
| give_back: "r \<in> set (m_open m) \<Longrightarrow>
     metering_step m \<lparr>m_store = release (m_store m) r, m_open = remove1 r (m_open m)\<rparr>"
| settled: "r \<in> set (m_open m) \<Longrightarrow>
     metering_step m \<lparr>m_store = settle (m_store m) r x y, m_open = remove1 r (m_open m)\<rparr>"
| scope_end: "metering_step m \<lparr>m_store = exit_scope (m_store m) path, m_open = m_open m\<rparr>"

definition metering_init :: "metering \<Rightarrow> bool" where
  "metering_init m \<longleftrightarrow> m_open m = []
     \<and> (\<forall>j. within_budget (m_store m j) \<and> cb_reserved_tokens (m_store m j) = 0
            \<and> cb_reserved_cost_usd (m_store m j) = 0)"

definition held_by :: "nat \<Rightarrow> reservation \<Rightarrow> bool" where
  "held_by j r \<longleftrightarrow> j \<in> set (reservation_ids r)"

definition well_formed :: "reservation \<Rightarrow> bool" where
  "well_formed r \<longleftrightarrow> (\<exists>i ps t c. r = chain_reservation i ps t c \<and> distinct (i # ps) \<and> 0 \<le> t \<and> 0 \<le> c)"

definition metering_inv :: "metering \<Rightarrow> bool" where
  "metering_inv m \<longleftrightarrow>
     (\<forall>r \<in> set (m_open m). well_formed r)
     \<and> (\<forall>j. within_budget (m_store m j))
     \<and> (\<forall>j. cb_reserved_tokens (m_store m j) =
              sum_list (map (\<lambda>r. if held_by j r then rv_tokens r else 0) (m_open m)))
     \<and> (\<forall>j. cb_reserved_cost_usd (m_store m j) =
              sum_list (map (\<lambda>r. if held_by j r then rv_cost_usd r else 0) (m_open m)))"

lemma chain_reservation_fields [simp]:
  "reservation_ids (chain_reservation i ps t c) = i # ps"
  "rv_tokens (chain_reservation i ps t c) = t"
  "rv_cost_usd (chain_reservation i ps t c) = c"
  by (induction ps arbitrary: i) simp_all

lemma sum_list_remove1:
  fixes f :: "'a \<Rightarrow> 'b::ab_group_add"
  shows "x \<in> set xs \<Longrightarrow> sum_list (map f (remove1 x xs)) = sum_list (map f xs) - f x"
  by (induction xs) auto

lemma metering_inv_remove:
  assumes inv: "metering_inv m" and r: "r \<in> set (m_open m)"
    and store: "\<And>j. \<sigma> j = (if held_by j r then f (m_store m j) else m_store m j)"
    and res: "\<And>j. held_by j r \<Longrightarrow> cb_reserved_tokens (f (m_store m j)) = cb_reserved_tokens (m_store m j) - rv_tokens r
                \<and> cb_reserved_cost_usd (f (m_store m j)) = cb_reserved_cost_usd (m_store m j) - rv_cost_usd r
                \<and> within_budget (f (m_store m j))"
  shows "metering_inv \<lparr>m_store = \<sigma>, m_open = remove1 r (m_open m)\<rparr>"
  using inv res set_remove1_subset [of r "m_open m"]
  by (auto simp: metering_inv_def store sum_list_remove1 [OF r])

lemma held_by_chain [simp]: "held_by j (chain_reservation i ps t c) \<longleftrightarrow> j \<in> set (i # ps)"
  by (simp add: held_by_def)

lemma metering_inv_admit:
  assumes inv: "metering_inv m" and dist: "distinct (i # ps)" and pos: "0 \<le> t" "0 \<le> c"
    and res: "reserve (m_store m) i ps t c = (Inr r, \<sigma>)"
  shows "metering_inv \<lparr>m_store = \<sigma>, m_open = r # m_open m\<rparr>"
proof -
  from reserve_Inr_closed [OF res dist] have r: "r = chain_reservation i ps t c"
    and s: "\<sigma> = on_chain (i # ps) (add_reserved t c) (m_store m)"
    and adm: "\<And>j. j \<in> set (i # ps) \<Longrightarrow> within_budget (add_reserved t c (m_store m j))"
    by (auto intro: within_add_reserved)
  have "well_formed r" using r dist pos by (auto simp: well_formed_def)
  then show ?thesis
    using inv adm unfolding metering_inv_def r s
    by (simp add: on_chain_apply)
qed

lemma metering_inv_refuse:
  assumes inv: "metering_inv m" and res: "reserve (m_store m) i ps t c = (Inl e, \<sigma>)"
  shows "metering_inv \<lparr>m_store = \<sigma>, m_open = m_open m\<rparr>"
proof -
  from reserve_Inl_closed [OF res] obtain k
    where "\<sigma> = (m_store m)(k := (m_store m k)\<lparr>cb_blocked_reason := Some (exc_text e)\<rparr>)"
    by blast
  with inv show ?thesis by (simp add: metering_inv_def within_budget_def)
qed

lemma metering_inv_exit:
  assumes "metering_inv m"
  shows "metering_inv \<lparr>m_store = exit_scope (m_store m) path, m_open = m_open m\<rparr>"
  using assms
  by (auto simp: metering_inv_def within_budget_def exit_scope_def split: list.splits option.splits)

lemma metering_inv_give_back:
  assumes inv: "metering_inv m" and r: "r \<in> set (m_open m)"
  shows "metering_inv \<lparr>m_store = release (m_store m) r, m_open = remove1 r (m_open m)\<rparr>"
proof -
  from inv r obtain i ps t c where rc: "r = chain_reservation i ps t c" and d: "distinct (i # ps)"
      and pos: "0 \<le> t" "0 \<le> c"
    by (auto simp: metering_inv_def well_formed_def)
  show ?thesis
    by (rule metering_inv_remove [OF inv r, where f = "add_reserved (- t) (- c)"])
       (use inv rc d pos in \<open>auto simp: release_closed on_chain_apply metering_inv_def intro: within_release\<close>)
qed

lemma metering_inv_settled:
  assumes inv: "metering_inv m" and r: "r \<in> set (m_open m)"
  shows "metering_inv \<lparr>m_store = settle (m_store m) r x y, m_open = remove1 r (m_open m)\<rparr>"
proof -
  from inv r obtain i ps t c where rc: "r = chain_reservation i ps t c" and d: "distinct (i # ps)"
    by (auto simp: metering_inv_def well_formed_def)
  show ?thesis
    by (rule metering_inv_remove [OF inv r, where f = "\<lambda>b. book_usage t c x y (add_reserved (- t) (- c) b)"])
       (use inv rc d in \<open>auto simp: settle_closed on_chain_apply metering_inv_def intro: within_settle\<close>)
qed

lemma metering_inv_step: "metering_inv m \<Longrightarrow> metering_step m m' \<Longrightarrow> metering_inv m'"
  by (erule metering_step.cases)
     (auto simp del: distinct.simps intro: metering_inv_admit metering_inv_refuse metering_inv_exit
       metering_inv_give_back metering_inv_settled)

lemma metering_inv_init: "metering_init m \<Longrightarrow> metering_inv m"
  by (simp add: metering_init_def metering_inv_def)

interpretation metering: invariant_system metering_init metering_step metering_inv
  by unfold_locales (fact metering_inv_init, fact metering_inv_step)

section \<open>Properties\<close>

text \<open>C2. Admission control holds under concurrency: after any interleaving of admissions,
  refusals, releases, settlements and scope ends of calls over shared, nested budgets, a budget
  that is not blocked has not committed (measured, unconfirmed and reserved together) more than
  its token and cost ceilings, and what it has reserved is exactly what the calls in flight
  hold of it.\<close>

theorem metering_no_overcommit:
  assumes "reach metering_init metering_step m"
  shows "(cb_blocked_reason (m_store m j) = None \<longrightarrow>
            committed_tokens (m_store m j) \<le> cb_max_tokens (m_store m j)
            \<and> committed_cost (m_store m j) \<le> cb_max_cost_usd (m_store m j))
         \<and> cb_reserved_tokens (m_store m j) =
             sum_list (map rv_tokens (filter (held_by j) (m_open m)))"
  using metering.reach_inv [OF assms]
  by (auto simp: metering_inv_def within_budget_def sum_list_map_filter')

definition two_level_metering :: metering where
  "two_level_metering =
     \<lparr>m_store = (\<lambda>j. fresh_budget (if j = 2 then 60 else 100) 5), m_open = []\<rparr>"

theorem metering_no_overcommit_witness:
  "\<exists>m :: metering. m_open m = [chain_reservation 2 [3] 40 2]
     \<and> committed_tokens (m_store m 3) \<le> 100
     \<and> cb_reserved_tokens (m_store m 3) = 40"
proof -
  let ?\<sigma> = "m_store two_level_metering"
  let ?\<sigma>' = "on_chain [2, 3] (add_reserved 40 2) ?\<sigma>"
  let ?m = "\<lparr>m_store = ?\<sigma>', m_open = [chain_reservation 2 [3] 40 2]\<rparr>"
  have "metering_init two_level_metering"
    by (simp add: metering_init_def two_level_metering_def within_budget_def committed_tokens_def
        committed_cost_def fresh_budget_def)
  moreover have "reserve ?\<sigma> 2 [3] 40 2 = (Inr (chain_reservation 2 [3] 40 2), ?\<sigma>')"
    by (simp add: reserve.simps two_level_metering_def fresh_budget_def available_tokens_def
        available_cost_def on_chain_def fun_eq_iff add_reserved_def)
  then have "metering_step two_level_metering ?m"
    using metering_step.admit [of 2 "[3]" 40 2 two_level_metering "chain_reservation 2 [3] 40 2" ?\<sigma>']
    by (simp add: two_level_metering_def)
  ultimately have r: "reach metering_init metering_step ?m"
    by (blast intro: reach.intros)
  have "cb_blocked_reason (m_store ?m 3) = None" and "cb_max_tokens (m_store ?m 3) = 100"
    and "sum_list (map rv_tokens (filter (held_by 3) (m_open ?m))) = 40"
    by (simp_all add: two_level_metering_def fresh_budget_def on_chain_def held_by_def)
  with metering_no_overcommit [OF r, of 3] have
    "committed_tokens (m_store ?m 3) \<le> 100 \<and> cb_reserved_tokens (m_store ?m 3) = 40"
    by simp
  moreover have "m_open ?m = [chain_reservation 2 [3] 40 2]" by simp
  ultimately show ?thesis by blast
qed

text \<open>A refused admission books nothing anywhere in the chain: every budget keeps its
  ceilings, its measured, unconfirmed and reserved amounts, and only the refusing budget
  records the reason, which is the text of the exception.\<close>

lemma refused_admission_books_nothing:
  assumes "reserve \<sigma> i ps t c = (Inl e, \<sigma>')"
  shows "exc_kind e = BudgetAdmissionError
    \<and> (\<exists>k \<in> set (i # ps). \<sigma>' = \<sigma>(k := (\<sigma> k)\<lparr>cb_blocked_reason := Some (exc_text e)\<rparr>))"
  using reserve_Inl_closed [OF assms] by blast

lemma refused_admission_books_nothing_witness:
  "fst (reserve (\<lambda>_. fresh_budget 10 1) 0 [1] 11 0) =
     Inl (Exc BudgetAdmissionError (admission_message 11 0 (fresh_budget 10 1)))
   \<and> cb_reserved_tokens (snd (reserve (\<lambda>_. fresh_budget 10 1) 0 [1] 11 0) 1) = 0"
proof -
  let ?r = "reserve (\<lambda>_. fresh_budget 10 1) 0 [1] 11 0"
  let ?e = "Exc BudgetAdmissionError (admission_message 11 0 (fresh_budget 10 1))"
  have eq: "?r = (Inl ?e, snd ?r)"
    by (simp add: reserve.simps fresh_budget_def available_tokens_def Let_def)
  from refused_admission_books_nothing [OF eq] obtain k
    where "snd ?r = (\<lambda>_. fresh_budget 10 1)
             (k := (fresh_budget 10 1)\<lparr>cb_blocked_reason := Some (exc_text ?e)\<rparr>)"
    by blast
  then have "cb_reserved_tokens (snd ?r 1) = 0"
    by (simp add: fresh_budget_def)
  with eq show ?thesis by (metis fst_conv)
qed

text \<open>Releasing an admitted reservation (the circuit breaker refused the call) restores
  every budget of the chain exactly, and settling it with a measured use no larger than the
  estimate moves the measured part from reserved to consumed and frees the rest.\<close>

lemma reservation_accounting:
  assumes "reserve \<sigma> i ps t c = (Inr r, \<sigma>')" and "distinct (i # ps)" and "j \<in> set (i # ps)"
    and "t' \<le> t" and "c' \<le> c"
  shows "release \<sigma>' r = \<sigma>
    \<and> cb_tokens (settle \<sigma>' r (Some t') (Some c') j) = cb_tokens (\<sigma> j) + t'
    \<and> cb_cost_usd (settle \<sigma>' r (Some t') (Some c') j) = cb_cost_usd (\<sigma> j) + c'
    \<and> cb_reserved_tokens (settle \<sigma>' r (Some t') (Some c') j) = cb_reserved_tokens (\<sigma> j)
    \<and> cb_blocked_reason (settle \<sigma>' r (Some t') (Some c') j) = None"
  using reserve_Inr_closed [OF assms(1,2)] assms(2-) release_undoes_reserve [OF assms(1,2)]
  by (auto simp: settle_closed on_chain_apply book_usage_def Let_def)

lemma reservation_accounting_witness:
  "\<exists>r \<sigma>'. reserve (\<lambda>_. fresh_budget 100 5) 2 [3] 40 2 = (Inr r, \<sigma>')
     \<and> release \<sigma>' r = (\<lambda>_. fresh_budget 100 5)
     \<and> cb_tokens (settle \<sigma>' r (Some 30) (Some 1) 3) = 30"
proof -
  let ?\<sigma> = "\<lambda>_. fresh_budget 100 5"
  have eq: "reserve ?\<sigma> 2 [3] 40 2 =
     (Inr (chain_reservation 2 [3] 40 2), on_chain [2, 3] (add_reserved 40 2) ?\<sigma>)"
    by (simp add: reserve.simps fresh_budget_def available_tokens_def available_cost_def
        on_chain_def fun_eq_iff add_reserved_def)
  from reservation_accounting [OF eq, of 3 30 1] eq show ?thesis
    by (simp add: fresh_budget_def)
qed

end
