(* ===== verification/Circuit_Breaker.thy ===== *)
theory Circuit_Breaker imports Transition begin

text \<open>
  The circuit breaker of \<open>app/providers/base.py\<close>, one per provider. Its operations run under
  an asyncio lock, so each is one atomic function of the breaker and of a reading of the
  monotonic clock (seconds). \<open>before_call\<close> evaluates the \<open>state\<close> property twice without
  suspending; \<open>state_stable\<close> shows that a later second reading takes the same branch, so one
  reading stands for both.
\<close>

datatype circuit_state = CLOSED | OPEN | HALF_OPEN

record circuit_breaker =
  bk_failure_threshold :: int
  bk_recovery_timeout :: rat
  bk_failures :: int
  bk_opened_at :: "rat option"
  bk_state :: circuit_state
  bk_probe_in_flight :: bool

definition new_breaker :: "int \<Rightarrow> rat \<Rightarrow> circuit_breaker" where
  "new_breaker threshold recovery =
     \<lparr>bk_failure_threshold = threshold, bk_recovery_timeout = recovery, bk_failures = 0,
      bk_opened_at = None, bk_state = CLOSED, bk_probe_in_flight = False\<rparr>"

definition breaker_state :: "circuit_breaker \<Rightarrow> rat \<Rightarrow> circuit_state" where
  "breaker_state b now =
     (if bk_state b = OPEN
         \<and> (case bk_opened_at b of None \<Rightarrow> False | Some t \<Rightarrow> now - t \<ge> bk_recovery_timeout b)
      then HALF_OPEN else bk_state b)"

definition before_call :: "string \<Rightarrow> rat \<Rightarrow> circuit_breaker \<Rightarrow> circuit_breaker result" where
  "before_call provider now b =
     (if breaker_state b now = OPEN
      then Inl (Exc CircuitOpenError (''Circuit breaker aberto para '' @ provider @ ''; retry em ''
             @ fmt_fixed 1 (bk_recovery_timeout b) @ ''s.''))
      else if breaker_state b now = HALF_OPEN
      then if bk_probe_in_flight b
           then Inl (Exc CircuitOpenError (''Circuit breaker em recuperacao para '' @ provider
                  @ ''; sonda ja em andamento.''))
           else Inr (b\<lparr>bk_state := HALF_OPEN, bk_probe_in_flight := True\<rparr>)
      else Inr b)"

definition on_success :: "circuit_breaker \<Rightarrow> circuit_breaker" where
  "on_success b = b\<lparr>bk_failures := 0, bk_opened_at := None, bk_state := CLOSED, bk_probe_in_flight := False\<rparr>"

definition on_failure :: "rat \<Rightarrow> circuit_breaker \<Rightarrow> circuit_breaker" where
  "on_failure now b =
     (let b1 = b\<lparr>bk_failures := bk_failures b + 1\<rparr>;
          b2 = (if bk_state b1 = HALF_OPEN \<or> bk_failures b1 \<ge> bk_failure_threshold b1
                then b1\<lparr>bk_state := OPEN, bk_opened_at := Some now\<rparr> else b1)
      in b2\<lparr>bk_probe_in_flight := False\<rparr>)"

lemma state_stable:
  "breaker_state b n1 \<noteq> OPEN \<Longrightarrow> n1 \<le> n2 \<Longrightarrow> breaker_state b n2 = breaker_state b n1"
  by (auto simp: breaker_state_def split: option.splits if_splits)

section \<open>The breaker as a state machine\<close>

text \<open>A breaker shared by many calls: each step admits or refuses a call or records the end of
  one, at some clock reading.\<close>

inductive breaker_step :: "circuit_breaker \<Rightarrow> circuit_breaker \<Rightarrow> bool" where
  call_admitted: "before_call p now b = Inr b' \<Longrightarrow> breaker_step b b'"
| call_succeeded: "breaker_step b (on_success b)"
| call_failed: "breaker_step b (on_failure now b)"

inductive_cases breaker_stepE: "breaker_step b b'"

definition breaker_init :: "circuit_breaker \<Rightarrow> bool" where
  "breaker_init b \<longleftrightarrow> (\<exists>n r. b = new_breaker n r \<and> n \<ge> 1)"

definition breaker_inv :: "circuit_breaker \<Rightarrow> bool" where
  "breaker_inv b \<longleftrightarrow>
     bk_failure_threshold b \<ge> 1 \<and> bk_failures b \<ge> 0
     \<and> (bk_state b = CLOSED \<longrightarrow> bk_failures b < bk_failure_threshold b
          \<and> bk_opened_at b = None \<and> \<not> bk_probe_in_flight b)
     \<and> (bk_state b = OPEN \<longrightarrow> bk_opened_at b \<noteq> None \<and> \<not> bk_probe_in_flight b)
     \<and> (bk_state b = HALF_OPEN \<longrightarrow> bk_opened_at b \<noteq> None \<and> bk_probe_in_flight b)"

lemma breaker_inv_init: "breaker_init b \<Longrightarrow> breaker_inv b"
  by (auto simp: breaker_init_def breaker_inv_def new_breaker_def)

lemma breaker_inv_before_call: "breaker_inv b \<Longrightarrow> before_call p now b = Inr b' \<Longrightarrow> breaker_inv b'"
  by (auto simp: before_call_def breaker_inv_def breaker_state_def split: if_splits option.splits)

lemma breaker_inv_on_success: "breaker_inv b \<Longrightarrow> breaker_inv (on_success b)"
  by (simp add: on_success_def breaker_inv_def)

lemma breaker_inv_on_failure: "breaker_inv b \<Longrightarrow> breaker_inv (on_failure now b)"
  by (cases "bk_state b") (auto simp: on_failure_def breaker_inv_def Let_def)

lemma breaker_inv_step: "breaker_inv b \<Longrightarrow> breaker_step b b' \<Longrightarrow> breaker_inv b'"
  by (erule breaker_stepE)
     (auto intro: breaker_inv_before_call breaker_inv_on_success breaker_inv_on_failure)

interpretation breaker: invariant_system breaker_init breaker_step breaker_inv
  by unfold_locales (fact breaker_inv_init, fact breaker_inv_step)

primrec failures_in_a_row :: "rat list \<Rightarrow> circuit_breaker \<Rightarrow> circuit_breaker" where
  "failures_in_a_row [] b = b"
| "failures_in_a_row (t # ts) b = failures_in_a_row ts (on_failure t b)"

lemma failures_keep_threshold [simp]:
  "bk_failure_threshold (on_failure t b) = bk_failure_threshold b"
  "bk_failures (on_failure t b) = bk_failures b + 1"
  "bk_recovery_timeout (on_failure t b) = bk_recovery_timeout b"
  by (simp_all add: on_failure_def Let_def)

lemma failures_in_a_row_snoc:
  "failures_in_a_row (ts @ [t]) b = on_failure t (failures_in_a_row ts b)"
  by (induction ts arbitrary: b) simp_all

lemma failures_in_a_row_fields:
  "bk_failures (failures_in_a_row ts b) = bk_failures b + int (length ts)"
  "bk_failure_threshold (failures_in_a_row ts b) = bk_failure_threshold b"
  "bk_recovery_timeout (failures_in_a_row ts b) = bk_recovery_timeout b"
  by (induction ts arbitrary: b) simp_all

section \<open>Properties\<close>



text \<open>Opening and recovery: \<open>threshold\<close> failures in a row open the breaker; until the
  recovery timeout has passed since the last of them every call is refused without touching
  the provider, and from then on exactly one probe is admitted, whose failure opens the breaker
  again and whose success closes it with the failure count reset.\<close>

lemma breaker_opens_and_recovers:
  assumes "int (length ts) + 1 \<ge> n" and "1 \<le> n"
  shows "let b = failures_in_a_row (ts @ [t]) (new_breaker n r) in
     bk_state b = OPEN
     \<and> (now - t < r \<longrightarrow> (\<exists>m. before_call p now b = Inl (Exc CircuitOpenError m)))
     \<and> (now - t \<ge> r \<longrightarrow>
          (\<exists>b'. before_call p now b = Inr b' \<and> bk_state b' = HALF_OPEN
             \<and> (\<exists>m. before_call p' now' b' = Inl (Exc CircuitOpenError m))
             \<and> bk_state (on_failure now' b') = OPEN
             \<and> bk_state (on_success b') = CLOSED \<and> bk_failures (on_success b') = 0))"
proof -
  let ?b1 = "failures_in_a_row ts (new_breaker n r)"
  let ?b = "on_failure t ?b1"
  have f: "bk_failures ?b1 = int (length ts)" "bk_failure_threshold ?b1 = n"
      "bk_recovery_timeout ?b1 = r"
    by (simp_all add: failures_in_a_row_fields new_breaker_def)
  then have o: "bk_state ?b = OPEN" "bk_opened_at ?b = Some t" "\<not> bk_probe_in_flight ?b"
      "bk_recovery_timeout ?b = r"
    using assms(1) by (auto simp: on_failure_def Let_def)
  show ?thesis
    unfolding Let_def failures_in_a_row_snoc
    using o by (auto simp: before_call_def breaker_state_def on_failure_def on_success_def Let_def)
qed

lemma breaker_opens_and_recovers_witness:
  "\<exists>m. before_call ''p'' 10 (failures_in_a_row ([1, 2] @ [3]) (new_breaker 3 30))
        = Inl (Exc CircuitOpenError m)"
  using breaker_opens_and_recovers [of 3 "[1, 2]" 3 30 10 "''p''" "''p''" 40]
  by (simp add: Let_def)

end
