(* ===== verification/Provider.thy ===== *)
theory Provider imports Call_Budget Circuit_Breaker begin

text \<open>
  The provider layer (\<open>app/providers/base.py\<close>): token usage and prices, the estimate a call
  reserves, the search for the largest output ceiling the budgets can pay, and the template
  method \<open>LLMProvider.complete\<close> with admission, breaker, retries and metering.

  Outside the model and so parameters of it: the JSON rendering of a request whose byte length
  is the input estimate (pydantic schemas and dumps), the vendor call \<open>_do_complete\<close>, and the
  clock. Backoff sleeps only pass time. \<open>complete\<close> runs alone here; interleaved calls on the
  same budgets are the steps of \<open>Call_Budget\<close>.
\<close>

record token_usage =
  us_input_tokens :: int
  us_output_tokens :: int
  us_cache_read_tokens :: int
  us_cache_write_tokens :: int

definition total_tokens :: "token_usage \<Rightarrow> int" where
  "total_tokens u =
     us_input_tokens u + us_cache_read_tokens u + us_cache_write_tokens u + us_output_tokens u"

record model_pricing =
  pr_input_per_mtok :: rat
  pr_output_per_mtok :: rat
  pr_cache_read_per_mtok :: rat
  pr_cache_write_per_mtok :: rat

definition pricing_cost :: "model_pricing \<Rightarrow> token_usage \<Rightarrow> usd" where
  "pricing_cost p u =
     (of_int (us_input_tokens u) * pr_input_per_mtok p
      + of_int (us_output_tokens u) * pr_output_per_mtok p
      + of_int (us_cache_read_tokens u) * pr_cache_read_per_mtok p
      + of_int (us_cache_write_tokens u) * pr_cache_write_per_mtok p) / 1000000"

record tool_call =
  tc_id :: string
  tc_name :: string
  tc_arguments :: "(string \<times> pyval) list"

record tool_result =
  tl_tool_call_id :: string
  tl_name :: string
  tl_content :: string
  tl_is_error :: bool

record chat_message =
  ms_role :: string
  ms_content :: string
  ms_tool_calls :: "tool_call list"
  ms_tool_results :: "tool_result list"

record tool_spec =
  ts_name :: string
  ts_description :: string
  ts_input_schema :: "(string \<times> pyval) list"

record completion_request =
  cq_model :: string
  cq_messages :: "chat_message list"
  cq_system :: "string option"
  cq_max_tokens :: int
  cq_temperature :: "rat option"
  cq_timeout_seconds :: rat
  cq_response_schema :: "pyval option"
  cq_cache_prefix :: "string option"
  cq_tools :: "tool_spec list"
  cq_force_final :: bool
  cq_role :: "string option"
  cq_avoid_models :: "string list"

record completion_result =
  co_text :: string
  co_parsed :: "(string \<times> pyval) list option"
  co_tool_calls :: "tool_call list"
  co_model :: string
  co_provider :: string
  co_usage :: token_usage
  co_cost_usd :: usd
  co_latency_ms :: rat
  co_stop_reason :: "string option"

text \<open>What the estimate serializes: exactly these parts of the request, never \<open>max_tokens\<close>.\<close>

type_synonym prompt_bytes =
  "pyval option \<Rightarrow> string option \<Rightarrow> string option \<Rightarrow> chat_message list \<Rightarrow> tool_spec list \<Rightarrow> nat"

record provider_config =
  pc_name :: string
  pc_pricing :: "string \<rightharpoonup> model_pricing"
  pc_max_retries :: nat
  pc_prompt_bytes :: prompt_bytes

section \<open>Prices and estimates\<close>

definition unknown_pricing :: model_pricing where
  "unknown_pricing =
     \<lparr>pr_input_per_mtok = 30, pr_output_per_mtok = 150, pr_cache_read_per_mtok = 0,
      pr_cache_write_per_mtok = 0\<rparr>"

definition cost_for :: "provider_config \<Rightarrow> string \<Rightarrow> token_usage \<Rightarrow> usd" where
  "cost_for P model u =
     (case pc_pricing P model of
        None \<Rightarrow> pricing_cost unknown_pricing u
      | Some p \<Rightarrow> pricing_cost p u)"

definition reservation_cost_for :: "provider_config \<Rightarrow> string \<Rightarrow> token_usage \<Rightarrow> usd" where
  "reservation_cost_for P model u =
     (case pc_pricing P model of
        None \<Rightarrow> cost_for P model u
      | Some p \<Rightarrow>
          (let input_rate = max (max (pr_input_per_mtok p) (pr_cache_read_per_mtok p))
                                (pr_cache_write_per_mtok p)
           in (of_int (us_input_tokens u) * input_rate
               + of_int (us_output_tokens u) * pr_output_per_mtok p) / 1000000))"

definition estimate_request_usage :: "provider_config \<Rightarrow> completion_request \<Rightarrow> token_usage" where
  "estimate_request_usage P q =
     \<lparr>us_input_tokens = int (pc_prompt_bytes P (cq_response_schema q) (cq_system q)
          (cq_cache_prefix q) (cq_messages q) (cq_tools q)) + 4096,
      us_output_tokens = cq_max_tokens q, us_cache_read_tokens = 0, us_cache_write_tokens = 0\<rparr>"

definition estimate_request_cost :: "provider_config \<Rightarrow> string \<Rightarrow> completion_request \<Rightarrow> usd" where
  "estimate_request_cost P model q =
     reservation_cost_for P model (estimate_request_usage P q) * of_nat (pc_max_retries P + 1)"

text \<open>The binary search of \<open>_fit_output_to_budget\<close> over an affordability test.\<close>

function fit_search :: "(int \<Rightarrow> bool) \<Rightarrow> int \<Rightarrow> int \<Rightarrow> int" where
  "fit_search affordable lower upper =
     (if lower < upper
      then let candidate = (lower + upper + 1) div 2
           in if affordable candidate then fit_search affordable candidate upper
              else fit_search affordable lower (candidate - 1)
      else lower)"
  by pat_completeness auto
termination
  by (relation "measure (\<lambda>(f, lower, upper). nat (upper - lower))") auto

declare fit_search.simps [simp del]

definition output_affordable ::
  "provider_config \<Rightarrow> completion_request \<Rightarrow> usd \<Rightarrow> int \<Rightarrow> bool" where
  "output_affordable P q cost_left candidate \<longleftrightarrow>
     reservation_cost_for P (cq_model q)
       ((estimate_request_usage P q)\<lparr>us_output_tokens := candidate\<rparr>) \<le> cost_left"

definition fit_output_to_budget ::
  "provider_config \<Rightarrow> completion_request \<Rightarrow> (int \<times> usd) option \<Rightarrow> completion_request" where
  "fit_output_to_budget P q allowance =
     (case allowance of
        None \<Rightarrow> q
      | Some (tokens, cost) \<Rightarrow>
          (let upper = min (cq_max_tokens q) (tokens - us_input_tokens (estimate_request_usage P q));
               lower = fit_search (output_affordable P q cost) 0 upper
           in if lower < 1 \<or> lower = cq_max_tokens q then q else q\<lparr>cq_max_tokens := lower\<rparr>))"

section \<open>The call: admission, breaker, attempts\<close>

record llm_world =
  lw_store :: budget_store
  lw_breaker :: circuit_breaker
  lw_calls :: "completion_request list"

text \<open>The environment of one \<open>complete\<close>: what attempt number \<open>k\<close> of the vendor call returns or
  raises, its measured latency, and the clock at the breaker check and at the end of attempt \<open>k\<close>.\<close>

record vendor =
  vn_do_complete :: "nat \<Rightarrow> completion_request \<Rightarrow> completion_result result"
  vn_latency_ms :: "nat \<Rightarrow> rat"
  vn_before :: "nat \<Rightarrow> rat"
  vn_after :: "nat \<Rightarrow> rat"

definition path_allowance :: "budget_store \<Rightarrow> nat list \<Rightarrow> (int \<times> usd) option" where
  "path_allowance \<sigma> path = (case path of [] \<Rightarrow> None | i # ps \<Rightarrow> Some (remaining_allowance \<sigma> i ps))"

definition admit_call ::
  "budget_store \<Rightarrow> nat list \<Rightarrow> int \<Rightarrow> usd \<Rightarrow> reservation option result \<times> budget_store" where
  "admit_call \<sigma> path tokens cost =
     (case path of
        [] \<Rightarrow> (Inr None, \<sigma>)
      | i # ps \<Rightarrow> (case reserve \<sigma> i ps tokens cost of
            (Inl e, \<sigma>1) \<Rightarrow> (Inl e, \<sigma>1)
          | (Inr r, \<sigma>1) \<Rightarrow> (Inr (Some r), \<sigma>1)))"

definition release_opt :: "budget_store \<Rightarrow> reservation option \<Rightarrow> budget_store" where
  "release_opt \<sigma> r = (case r of None \<Rightarrow> \<sigma> | Some x \<Rightarrow> release \<sigma> x)"

definition settle_opt ::
  "budget_store \<Rightarrow> reservation option \<Rightarrow> int option \<Rightarrow> usd option \<Rightarrow> budget_store" where
  "settle_opt \<sigma> r t c = (case r of None \<Rightarrow> \<sigma> | Some x \<Rightarrow> settle \<sigma> x t c)"

definition timeout_error :: "completion_request \<Rightarrow> exc" where
  "timeout_error q = Exc RetryableProviderError (''Timeout de '' @ fmt_fixed 1 (cq_timeout_seconds q) @ ''s.'')"

text \<open>One attempt: \<open>Inl (Inl e)\<close> raises \<open>e\<close> out of \<open>complete\<close>, \<open>Inl (Inr e)\<close> records it as
  \<open>last_error\<close> and lets the loop go on, \<open>Inr r\<close> returns.\<close>

definition attempt_once ::
  "provider_config \<Rightarrow> vendor \<Rightarrow> nat list \<Rightarrow> completion_request \<Rightarrow> nat \<Rightarrow> llm_world
     \<Rightarrow> ((exc + exc) + completion_result) \<times> llm_world" where
  "attempt_once P V path q k w =
     (let attempt_request = fit_output_to_budget P q (path_allowance (lw_store w) path);
          estimate = estimate_request_usage P attempt_request
      in case admit_call (lw_store w) path (total_tokens estimate)
                (reservation_cost_for P (cq_model attempt_request) estimate) of
        (Inl e, \<sigma>1) \<Rightarrow> (Inl (Inl e), w\<lparr>lw_store := \<sigma>1\<rparr>)
      | (Inr r, \<sigma>1) \<Rightarrow>
         (case before_call (pc_name P) (vn_before V k) (lw_breaker w) of
            Inl e \<Rightarrow> (Inl (Inl e), w\<lparr>lw_store := release_opt \<sigma>1 r\<rparr>)
          | Inr b1 \<Rightarrow>
             (let w1 = w\<lparr>lw_store := \<sigma>1, lw_breaker := b1, lw_calls := lw_calls w @ [attempt_request]\<rparr>
              in case vn_do_complete V k attempt_request of
                   Inr res \<Rightarrow>
                     (Inr (res\<lparr>co_latency_ms := vn_latency_ms V k\<rparr>),
                      w1\<lparr>lw_store := settle_opt \<sigma>1 r (Some (total_tokens (co_usage res))) (Some (co_cost_usd res)),
                         lw_breaker := on_success b1\<rparr>)
                 | Inl e \<Rightarrow>
                     (let w2 = w1\<lparr>lw_store := settle_opt \<sigma>1 r None None\<rparr>;
                          failed = w2\<lparr>lw_breaker := on_failure (vn_after V k) b1\<rparr>
                      in case exc_kind e of
                           TimeoutError \<Rightarrow> (Inl (Inr (timeout_error q)), failed)
                         | RetryableProviderError \<Rightarrow> (Inl (Inr e), failed)
                         | StructuredOutputError \<Rightarrow> (Inl (Inr e), w2)
                         | _ \<Rightarrow> (Inl (Inl e), w2)))))"

primrec attempt_loop ::
  "provider_config \<Rightarrow> vendor \<Rightarrow> nat list \<Rightarrow> completion_request \<Rightarrow> nat \<Rightarrow> nat \<Rightarrow> llm_world
     \<Rightarrow> completion_result result \<times> llm_world" where
  "attempt_loop P V path q k 0 w =
     (case attempt_once P V path q k w of
        (Inr res, w1) \<Rightarrow> (Inr res, w1)
      | (Inl (Inl e), w1) \<Rightarrow> (Inl e, w1)
      | (Inl (Inr e), w1) \<Rightarrow> (Inl e, w1))"
| "attempt_loop P V path q k (Suc n) w =
     (case attempt_once P V path q k w of
        (Inr res, w1) \<Rightarrow> (Inr res, w1)
      | (Inl (Inl e), w1) \<Rightarrow> (Inl e, w1)
      | (Inl (Inr e), w1) \<Rightarrow> attempt_loop P V path q (Suc k) n w1)"

definition provider_complete ::
  "provider_config \<Rightarrow> vendor \<Rightarrow> nat list \<Rightarrow> completion_request \<Rightarrow> llm_world
     \<Rightarrow> completion_result result \<times> llm_world" where
  "provider_complete P V path q w = attempt_loop P V path q 0 (pc_max_retries P) w"

section \<open>The search finds the largest affordable output\<close>

lemma fit_search_correct:
  assumes mono: "\<forall>x y. affordable x \<longrightarrow> y \<le> x \<longrightarrow> affordable y" and "lower \<le> upper"
  shows "lower \<le> fit_search affordable lower upper \<and> fit_search affordable lower upper \<le> upper
    \<and> (fit_search affordable lower upper = lower \<or> affordable (fit_search affordable lower upper))
    \<and> (\<forall>c. fit_search affordable lower upper < c \<and> c \<le> upper \<longrightarrow> \<not> affordable c)"
  using assms
proof (induction affordable lower upper rule: fit_search.induct)
  case (1 affordable lower upper)
  let ?c = "(lower + upper + 1) div 2"
  show ?case
  proof (cases "lower < upper")
    case False
    then have "fit_search affordable lower upper = lower" by (subst fit_search.simps) simp
    with False "1.prems"(2) show ?thesis by auto
  next
    case True
    then have c: "lower < ?c" "?c \<le> upper" by auto
    show ?thesis
    proof (cases "affordable ?c")
      case True
      with \<open>lower < upper\<close> have eq: "fit_search affordable lower upper = fit_search affordable ?c upper"
        by (subst fit_search.simps) simp
      let ?r = "fit_search affordable ?c upper"
      from "1.IH"(1) [OF \<open>lower < upper\<close> refl True "1.prems"(1) c(2)]
      have IH: "?c \<le> ?r" "?r \<le> upper" "?r = ?c \<or> affordable ?r"
          "\<forall>c. ?r < c \<and> c \<le> upper \<longrightarrow> \<not> affordable c"
        by blast+
      have "affordable ?r" using IH(3) True by metis
      moreover have "lower \<le> ?r" using IH(1) c(1) by linarith
      ultimately show ?thesis unfolding eq using IH(2,4) by blast
    next
      case False
      with \<open>lower < upper\<close> have eq: "fit_search affordable lower upper = fit_search affordable lower (?c - 1)"
        by (subst fit_search.simps) simp
      let ?r = "fit_search affordable lower (?c - 1)"
      have "lower \<le> ?c - 1" using c by linarith
      from "1.IH"(2) [OF \<open>lower < upper\<close> refl False "1.prems"(1) this]
      have IH: "lower \<le> ?r" "?r \<le> ?c - 1" "?r = lower \<or> affordable ?r"
          "\<forall>c. ?r < c \<and> c \<le> ?c - 1 \<longrightarrow> \<not> affordable c"
        by blast+
      have "\<not> affordable c" if "?r < c" "c \<le> upper" for c
      proof (cases "c \<le> ?c - 1")
        case True
        with IH(4) that show ?thesis by blast
      next
        case False
        then have "?c \<le> c" by linarith
        with \<open>\<not> affordable ?c\<close> "1.prems"(1) show ?thesis by blast
      qed
      moreover have "?r \<le> upper" using IH(2) c(2) by linarith
      ultimately show ?thesis unfolding eq using IH(1,3) by blast
    qed
  qed
qed

definition valid_pricing :: "model_pricing \<Rightarrow> bool" where
  "valid_pricing p \<longleftrightarrow> pr_input_per_mtok p > 0 \<and> pr_output_per_mtok p > 0"

definition valid_prices :: "provider_config \<Rightarrow> bool" where
  "valid_prices P \<longleftrightarrow> (\<forall>m p. pc_pricing P m = Some p \<longrightarrow> valid_pricing p)"

lemma reservation_cost_mono:
  assumes "valid_prices P" and "y \<le> x"
  shows "reservation_cost_for P m (u\<lparr>us_output_tokens := y\<rparr>)
           \<le> reservation_cost_for P m (u\<lparr>us_output_tokens := x\<rparr>)"
proof (cases "pc_pricing P m")
  case None
  have "(of_int y :: rat) * 150 \<le> of_int x * 150" using assms(2) by simp
  with None show ?thesis
    by (simp add: reservation_cost_for_def cost_for_def pricing_cost_def unknown_pricing_def)
next
  case (Some p)
  with assms(1) have "pr_output_per_mtok p > 0" by (auto simp: valid_prices_def valid_pricing_def)
  then have "(of_int y :: rat) * pr_output_per_mtok p \<le> of_int x * pr_output_per_mtok p"
    using assms(2) by (intro mult_right_mono) auto
  with Some show ?thesis by (simp add: reservation_cost_for_def Let_def divide_right_mono)
qed

lemma output_affordable_mono:
  "valid_prices P \<Longrightarrow> output_affordable P q a x \<Longrightarrow> y \<le> x \<Longrightarrow> output_affordable P q a y"
  using reservation_cost_mono [of P y x "cq_model q" "estimate_request_usage P q"]
  by (auto simp: output_affordable_def)

section \<open>Metering of a call\<close>

lemma admit_call_Inr:
  assumes "admit_call \<sigma> path t c = (Inr r, \<sigma>1)" and "distinct path"
  shows "release_opt \<sigma>1 r = \<sigma>"
    and "settle_opt \<sigma>1 r x y = on_chain path (book_usage t c x y) \<sigma>"
    and "\<forall>j \<in> set path. cb_blocked_reason (\<sigma> j) = None \<and> t \<le> available_tokens (\<sigma> j)
           \<and> c \<le> available_cost (\<sigma> j)"
proof -
  have "release_opt \<sigma>1 r = \<sigma> \<and> settle_opt \<sigma>1 r x y = on_chain path (book_usage t c x y) \<sigma>
     \<and> (\<forall>j \<in> set path. cb_blocked_reason (\<sigma> j) = None \<and> t \<le> available_tokens (\<sigma> j)
           \<and> c \<le> available_cost (\<sigma> j))"
  proof (cases path)
    case Nil
    with assms show ?thesis
      by (auto simp: admit_call_def release_opt_def settle_opt_def on_chain_def)
  next
    case (Cons i ps)
    with assms(1) obtain q where r: "r = Some q" and res: "reserve \<sigma> i ps t c = (Inr q, \<sigma>1)"
      by (auto simp: admit_call_def split: prod.splits sum.splits)
    from assms(2) Cons have d: "distinct (i # ps)" by simp
    from reserve_Inr_closed [OF res d] release_undoes_reserve [OF res d]
    show ?thesis
      using d Cons r
      by (auto simp: release_opt_def settle_opt_def settle_closed on_chain_def fun_eq_iff)
  qed
  then show "release_opt \<sigma>1 r = \<sigma>"
    and "settle_opt \<sigma>1 r x y = on_chain path (book_usage t c x y) \<sigma>"
    and "\<forall>j \<in> set path. cb_blocked_reason (\<sigma> j) = None \<and> t \<le> available_tokens (\<sigma> j)
           \<and> c \<le> available_cost (\<sigma> j)"
    by simp_all
qed

lemma admit_call_Inl:
  assumes "admit_call \<sigma> path t c = (Inl e, \<sigma>1)"
  shows "exc_kind e = BudgetAdmissionError
    \<and> (\<exists>k \<in> set path. \<sigma>1 = \<sigma>(k := (\<sigma> k)\<lparr>cb_blocked_reason := Some (exc_text e)\<rparr>))"
  using assms reserve_Inl_closed
  by (fastforce simp: admit_call_def split: list.splits prod.splits sum.splits)

definition estimated_tokens :: "provider_config \<Rightarrow> completion_request list \<Rightarrow> int" where
  "estimated_tokens P qs = sum_list (map (\<lambda>q. total_tokens (estimate_request_usage P q)) qs)"

text \<open>What a run of attempts may do to a budget: the calls \<open>cs\<close> reached the vendor; a returned
  result books its measured tokens for the last of them, every other call keeps its whole
  estimate as unconfirmed.\<close>

definition metered ::
  "provider_config \<Rightarrow> completion_request list \<Rightarrow> completion_result option \<Rightarrow> call_budget \<Rightarrow> call_budget \<Rightarrow> bool"
where
  "metered P cs res b b' \<longleftrightarrow>
     cb_reserved_tokens b' = cb_reserved_tokens b
     \<and> cb_reserved_cost_usd b' = cb_reserved_cost_usd b
     \<and> (case res of
          None \<Rightarrow> cb_tokens b' = cb_tokens b
            \<and> cb_unconfirmed_tokens b' = cb_unconfirmed_tokens b + estimated_tokens P cs
        | Some r \<Rightarrow> cs \<noteq> [] \<and> cb_tokens b' = cb_tokens b + total_tokens (co_usage r)
            \<and> cb_unconfirmed_tokens b' = cb_unconfirmed_tokens b + estimated_tokens P (butlast cs))"

definition outcome_result :: "('e + completion_result) \<Rightarrow> completion_result option" where
  "outcome_result out = (case out of Inl e \<Rightarrow> None | Inr r \<Rightarrow> Some r)"

lemma metered_trans:
  "metered P cs None b b1 \<Longrightarrow> metered P ds res b1 b2 \<Longrightarrow> metered P (cs @ ds) res b b2"
  by (auto simp: metered_def estimated_tokens_def butlast_append split: option.splits)

lemma attempt_once_metered:
  assumes "attempt_once P V path q k w = (out, w1)" and d: "distinct path"
  shows "\<exists>cs. lw_calls w1 = lw_calls w @ cs \<and> length cs \<le> 1
    \<and> (\<forall>j \<in> set path. metered P cs (outcome_result out) (lw_store w j) (lw_store w1 j))
    \<and> (\<forall>j. j \<notin> set path \<longrightarrow> lw_store w1 j = lw_store w j)
    \<and> (\<forall>j. within_budget (lw_store w j) \<longrightarrow> within_budget (lw_store w1 j))"
proof -
  let ?q = "fit_output_to_budget P q (path_allowance (lw_store w) path)"
  let ?e = "estimate_request_usage P ?q"
  let ?t = "total_tokens ?e" and ?c = "reservation_cost_for P (cq_model ?q) ?e"
  obtain adm \<sigma>1 where adm: "admit_call (lw_store w) path ?t ?c = (adm, \<sigma>1)" by fastforce
  show ?thesis
  proof (cases adm)
    case (Inl e)
    with admit_call_Inl [of "lw_store w" path ?t ?c] adm assms(1) show ?thesis
      by (auto simp: attempt_once_def Let_def metered_def estimated_tokens_def outcome_result_def
          within_budget_def committed_tokens_def committed_cost_def)
  next
    case (Inr r)
    note closed = admit_call_Inr [OF adm [unfolded Inr] d]
    show ?thesis
    proof (cases "before_call (pc_name P) (vn_before V k) (lw_breaker w)")
      case (Inl e)
      with adm Inr assms(1) closed(1) show ?thesis
        by (auto simp: attempt_once_def Let_def metered_def estimated_tokens_def outcome_result_def)
    next
      case (Inr b1)
      have wb: "within_budget (on_chain path (book_usage ?t ?c x y) (lw_store w) j)"
        if "within_budget (lw_store w j)" for x y j
      proof (cases "j \<in> set path")
        case True
        with closed(3) have "within_budget (add_reserved ?t ?c (lw_store w j))"
          by (auto intro: within_add_reserved)
        from within_settle [OF this, of ?t ?c x y] True show ?thesis by (simp add: on_chain_apply)
      qed (simp add: on_chain_apply that)
      show ?thesis
      proof (cases "vn_do_complete V k ?q")
        case (Inr res)
        with adm \<open>adm = Inr r\<close> \<open>before_call _ _ _ = Inr b1\<close> assms(1) closed(2) wb show ?thesis
          by (intro exI [of _ "[?q]"])
             (auto simp: attempt_once_def Let_def metered_def estimated_tokens_def
               outcome_result_def on_chain_apply book_usage_def)
      next
        case (Inl e)
        have st: "lw_store w1 = on_chain path (book_usage ?t ?c None None) (lw_store w)"
          and cs: "lw_calls w1 = lw_calls w @ [?q]" and out: "outcome_result out = None"
          using adm \<open>adm = Inr r\<close> \<open>before_call _ _ _ = Inr b1\<close> assms(1) closed(2) Inl
          by (auto simp: attempt_once_def Let_def outcome_result_def split: exc_kind.splits)
        then show ?thesis using wb
          by (intro exI [of _ "[?q]"])
             (auto simp: metered_def estimated_tokens_def on_chain_apply book_usage_def)
      qed
    qed
  qed
qed

lemma attempt_loop_metered:
  assumes "attempt_loop P V path q k n w = (out, w')" and d: "distinct path"
  shows "\<exists>cs. lw_calls w' = lw_calls w @ cs \<and> length cs \<le> Suc n
    \<and> (\<forall>j \<in> set path. metered P cs (outcome_result out) (lw_store w j) (lw_store w' j))
    \<and> (\<forall>j. j \<notin> set path \<longrightarrow> lw_store w' j = lw_store w j)
    \<and> (\<forall>j. within_budget (lw_store w j) \<longrightarrow> within_budget (lw_store w' j))"
  using assms(1)
proof (induction n arbitrary: k w)
  case 0
  obtain o1 w1 where once: "attempt_once P V path q k w = (o1, w1)" by fastforce
  with 0 have "w' = w1" and "outcome_result out = outcome_result o1"
    by (auto simp: outcome_result_def split: sum.splits)
  with attempt_once_metered [OF once d] show ?case by simp
next
  case (Suc n)
  obtain o1 w1 where once: "attempt_once P V path q k w = (o1, w1)" by fastforce
  note first = attempt_once_metered [OF once d]
  show ?case
  proof (cases "\<exists>e. o1 = Inl (Inr e)")
    case False
    with Suc.prems once have "w' = w1" and "outcome_result out = outcome_result o1"
      by (auto simp: outcome_result_def split: sum.splits)
    with first obtain cs where "lw_calls w' = lw_calls w @ cs" "length cs \<le> 1"
        "\<forall>j \<in> set path. metered P cs (outcome_result out) (lw_store w j) (lw_store w' j)"
        "\<forall>j. j \<notin> set path \<longrightarrow> lw_store w' j = lw_store w j"
        "\<forall>j. within_budget (lw_store w j) \<longrightarrow> within_budget (lw_store w' j)" by auto
    then show ?thesis by (intro exI [of _ cs]) simp
  next
    case True
    with Suc.prems once have rest: "attempt_loop P V path q (Suc k) n w1 = (out, w')"
      and none: "outcome_result o1 = None"
      by (auto simp: outcome_result_def)
    from first none obtain cs where cs: "lw_calls w1 = lw_calls w @ cs" "length cs \<le> 1"
        "\<forall>j \<in> set path. metered P cs None (lw_store w j) (lw_store w1 j)"
        "\<forall>j. j \<notin> set path \<longrightarrow> lw_store w1 j = lw_store w j"
        "\<forall>j. within_budget (lw_store w j) \<longrightarrow> within_budget (lw_store w1 j)" by auto
    from Suc.IH [OF rest] obtain ds where ds: "lw_calls w' = lw_calls w1 @ ds" "length ds \<le> Suc n"
        "\<forall>j \<in> set path. metered P ds (outcome_result out) (lw_store w1 j) (lw_store w' j)"
        "\<forall>j. j \<notin> set path \<longrightarrow> lw_store w' j = lw_store w1 j"
        "\<forall>j. within_budget (lw_store w1 j) \<longrightarrow> within_budget (lw_store w' j)" by blast
    show ?thesis
      by (intro exI [of _ "cs @ ds"]) (use cs ds in \<open>auto intro: metered_trans\<close>)
  qed
qed

section \<open>Properties\<close>


definition example_provider :: provider_config where
  "example_provider =
     \<lparr>pc_name = ''anthropic'', pc_pricing = (\<lambda>m. None), pc_max_retries = 1,
      pc_prompt_bytes = (\<lambda>_ _ _ _ _. 100)\<rparr>"

definition example_request :: completion_request where
  "example_request =
     \<lparr>cq_model = ''m'', cq_messages = [], cq_system = None, cq_max_tokens = 4096,
      cq_temperature = None, cq_timeout_seconds = 120, cq_response_schema = None,
      cq_cache_prefix = None, cq_tools = [], cq_force_final = False, cq_role = None,
      cq_avoid_models = []\<rparr>"

definition failing_vendor :: "exc_kind \<Rightarrow> vendor" where
  "failing_vendor k =
     \<lparr>vn_do_complete = (\<lambda>_ _. Inl (Exc k ''boom'')), vn_latency_ms = (\<lambda>_. 1),
      vn_before = (\<lambda>n. 100 + of_nat n), vn_after = (\<lambda>n. 100 + of_nat n)\<rparr>"

definition example_world :: "circuit_breaker \<Rightarrow> llm_world" where
  "example_world b = \<lparr>lw_store = (\<lambda>_. fresh_budget 10000 5), lw_breaker = b, lw_calls = []\<rparr>"


text \<open>C36. The output ceiling sent to the vendor is the best the budgets allow: when the request
  is narrowed, the new ceiling is positive, fits the remaining tokens beside the whole input
  estimate, is affordable under the admission price, and no larger ceiling up to the requested
  one is both; nothing else of the request changes.\<close>

theorem fit_output_is_largest_affordable:
  assumes prices: "valid_prices P"
    and narrowed: "fit_output_to_budget P q (Some (tokens, cost)) \<noteq> q"
  defines "q' \<equiv> fit_output_to_budget P q (Some (tokens, cost))"
    and "inp \<equiv> us_input_tokens (estimate_request_usage P q)"
  shows "1 \<le> cq_max_tokens q' \<and> cq_max_tokens q' < cq_max_tokens q
    \<and> inp + cq_max_tokens q' \<le> tokens
    \<and> output_affordable P q cost (cq_max_tokens q')
    \<and> (\<forall>c. cq_max_tokens q' < c \<and> c \<le> cq_max_tokens q \<and> inp + c \<le> tokens
          \<longrightarrow> \<not> output_affordable P q cost c)
    \<and> q' = q\<lparr>cq_max_tokens := cq_max_tokens q'\<rparr>"
proof -
  let ?upper = "min (cq_max_tokens q) (tokens - inp)"
  let ?l = "fit_search (output_affordable P q cost) 0 ?upper"
  have neither: "\<not> (?l < 1 \<or> ?l = cq_max_tokens q)" and q': "q' = q\<lparr>cq_max_tokens := ?l\<rparr>"
    using narrowed by (auto simp: q'_def inp_def fit_output_to_budget_def Let_def split: if_splits)
  have "0 \<le> ?upper"
  proof (rule ccontr)
    assume "\<not> 0 \<le> ?upper"
    then have "\<not> 0 < ?upper" by linarith
    then have "?l = 0" by (subst fit_search.simps) (simp only: if_False)
    with neither show False by simp
  qed
  moreover have "\<forall>x y. output_affordable P q cost x \<longrightarrow> y \<le> x \<longrightarrow> output_affordable P q cost y"
    using output_affordable_mono [OF prices] by blast
  ultimately have "0 \<le> ?l \<and> ?l \<le> ?upper \<and> (?l = 0 \<or> output_affordable P q cost ?l)
      \<and> (\<forall>c. ?l < c \<and> c \<le> ?upper \<longrightarrow> \<not> output_affordable P q cost c)"
    by (intro fit_search_correct)
  then show ?thesis using neither unfolding q' by auto
qed

theorem fit_output_is_largest_affordable_witness:
  "1 \<le> cq_max_tokens (fit_output_to_budget example_provider example_request (Some (4200, 5)))
   \<and> 4196 + cq_max_tokens (fit_output_to_budget example_provider example_request (Some (4200, 5))) \<le> 4200"
proof -
  have "fit_output_to_budget example_provider example_request (Some (4200, 5))
      = example_request\<lparr>cq_max_tokens := 4\<rparr>"
    by (simp add: fit_output_to_budget_def example_provider_def example_request_def
        estimate_request_usage_def output_affordable_def reservation_cost_for_def cost_for_def
        pricing_cost_def unknown_pricing_def fit_search.simps Let_def)
  moreover have "valid_prices example_provider"
    by (simp add: valid_prices_def example_provider_def)
  ultimately show ?thesis
    using fit_output_is_largest_affordable [of example_provider example_request 4200 5]
    by (simp add: example_request_def estimate_request_usage_def example_provider_def)
qed

text \<open>A recovery probe that ends in an error which says nothing about availability (a
  non-retryable error such as HTTP 400) is never reported to the breaker: the call raises, the
  breaker stays HALF_OPEN with its probe flag set, and every later call at any time is refused,
  however healthy the provider is.\<close>

lemma nonretryable_probe_wedges_breaker:
  assumes half: "breaker_state (lw_breaker w) (vn_before V 0) = HALF_OPEN"
    and free: "\<not> bk_probe_in_flight (lw_breaker w)"
    and bad: "\<And>r. vn_do_complete V 0 r = Inl (Exc NonRetryableProviderError m)"
  shows "fst (provider_complete P V [] q w) = Inl (Exc NonRetryableProviderError m)
    \<and> (\<forall>p now. \<exists>msg. before_call p now (lw_breaker (snd (provider_complete P V [] q w)))
          = Inl (Exc CircuitOpenError msg))"
proof -
  let ?b = "(lw_breaker w)\<lparr>bk_state := HALF_OPEN, bk_probe_in_flight := True\<rparr>"
  have "before_call (pc_name P) (vn_before V 0) (lw_breaker w) = Inr ?b"
    using half free by (simp add: before_call_def)
  then have once: "\<exists>w1. attempt_once P V [] q 0 w = (Inl (Inl (Exc NonRetryableProviderError m)), w1)
      \<and> lw_breaker w1 = ?b"
    using bad by (simp add: attempt_once_def admit_call_def Let_def)
  then obtain w1 where w1: "attempt_once P V [] q 0 w = (Inl (Inl (Exc NonRetryableProviderError m)), w1)"
      "lw_breaker w1 = ?b" by blast
  then have "provider_complete P V [] q w = (Inl (Exc NonRetryableProviderError m), w1)"
    by (cases "pc_max_retries P") (simp_all add: provider_complete_def)
  moreover have "\<exists>msg. before_call p now ?b = Inl (Exc CircuitOpenError msg)" for p now
    by (simp add: before_call_def breaker_state_def)
  ultimately show ?thesis using w1(2) by simp
qed

lemma nonretryable_probe_wedges_breaker_witness:
  "\<exists>msg. before_call ''anthropic'' 1000000
     (lw_breaker (snd (provider_complete example_provider (failing_vendor NonRetryableProviderError) []
        example_request (example_world (failures_in_a_row [0] (new_breaker 1 30))))))
     = Inl (Exc CircuitOpenError msg)"
proof -
  let ?w = "example_world (failures_in_a_row [0] (new_breaker 1 30))"
  let ?V = "failing_vendor NonRetryableProviderError"
  have "breaker_state (lw_breaker ?w) (vn_before ?V 0) = HALF_OPEN"
    and "\<not> bk_probe_in_flight (lw_breaker ?w)"
    and "\<And>r. vn_do_complete ?V 0 r = Inl (Exc NonRetryableProviderError ''boom'')"
    by (simp_all add: example_world_def failing_vendor_def breaker_state_def on_failure_def
        new_breaker_def)
  from nonretryable_probe_wedges_breaker [OF this] show ?thesis by blast
qed

end
