(* ===== verification/Provider_Router.thy ===== *)
theory Provider_Router imports Provider begin

text \<open>
  Routing by tier (\<open>app/providers/registry.py\<close>): the checks of \<open>ProviderRouter.__init__\<close>, the
  resolution of a tier to a provider and a model with role overrides and models to avoid,
  escalation, and \<open>complete\<close>, which binds the model and traces the call. Providers are known by
  name; the call to a provider is a parameter.
\<close>

datatype model_tier = FAST | STANDARD | STRONG

primrec tier_int :: "model_tier \<Rightarrow> int" where
  "tier_int FAST = 1"
| "tier_int STANDARD = 2"
| "tier_int STRONG = 3"

text \<open>\<open>ModelTier(n)\<close> raises \<open>ValueError\<close> out of range.\<close>

definition tier_of_int :: "int \<Rightarrow> model_tier option" where
  "tier_of_int n = (if n = 1 then Some FAST else if n = 2 then Some STANDARD
     else if n = 3 then Some STRONG else None)"

lemma tier_of_int_tier_int [simp]: "tier_of_int (tier_int t) = Some t"
  by (cases t) (simp_all add: tier_of_int_def)

record tier_binding =
  bd_provider_name :: string
  bd_model :: string

type_synonym binding_table = "(model_tier, tier_binding) pydict"

record provider_router =
  rr_providers :: "string list"
  rr_bindings :: binding_table
  rr_role_bindings :: "(string, binding_table) pydict"
  rr_default_tier :: model_tier

definition referenced_providers :: "binding_table \<Rightarrow> (string, binding_table) pydict \<Rightarrow> string list" where
  "referenced_providers bindings role_bindings =
     map (\<lambda>(t, b). bd_provider_name b) bindings
     @ concat (map (\<lambda>(r, table). map (\<lambda>(t, b). bd_provider_name b) table) role_bindings)"

definition new_router ::
  "string list \<Rightarrow> binding_table \<Rightarrow> model_tier \<Rightarrow> (string, binding_table) pydict \<Rightarrow> provider_router result"
where
  "new_router providers bindings default_tier role_bindings =
     (let missing = filter (\<lambda>n. n \<notin> set providers) (referenced_providers bindings role_bindings)
      in if missing \<noteq> []
         then Inl (Exc ValueError (''Bindings referenciam providers ausentes: '' @ join '', '' missing))
         else if dict_get bindings STANDARD = None
         then Inl (Exc ValueError ''Binding para STANDARD e obrigatorio.'')
         else Inr \<lparr>rr_providers = providers, rr_bindings = bindings,
                   rr_role_bindings = role_bindings, rr_default_tier = default_tier\<rparr>)"

definition binding_for :: "provider_router \<Rightarrow> model_tier \<Rightarrow> string option \<Rightarrow> tier_binding option" where
  "binding_for R tier role =
     (let table = dict_get_or (rr_role_bindings R) (or_str role []) []
      in case dict_get table tier of Some b \<Rightarrow> Some b | None \<Rightarrow> dict_get (rr_bindings R) tier)"

definition tier_order :: "model_tier \<Rightarrow> model_tier list" where
  "tier_order tier =
     tier # List.map_filter tier_of_int [tier_int tier + 1 .. tier_int STRONG]
          @ List.map_filter tier_of_int (rev [tier_int FAST .. tier_int tier - 1])"

text \<open>The first candidate tier whose binding avoids the given models.\<close>

primrec first_avoiding ::
  "provider_router \<Rightarrow> string option \<Rightarrow> string list \<Rightarrow> model_tier list \<Rightarrow> tier_binding option"
where
  "first_avoiding R role avoid [] = None"
| "first_avoiding R role avoid (t # ts) =
     (case binding_for R t role of
        Some b \<Rightarrow> if bd_model b \<notin> set avoid then Some b else first_avoiding R role avoid ts
      | None \<Rightarrow> first_avoiding R role avoid ts)"

text \<open>The loop \<open>while candidate >= FAST\<close>, downwards from the requested tier.\<close>

primrec first_bound :: "provider_router \<Rightarrow> string option \<Rightarrow> model_tier list \<Rightarrow> tier_binding option" where
  "first_bound R role [] = None"
| "first_bound R role (t # ts) =
     (case binding_for R t role of Some b \<Rightarrow> Some b | None \<Rightarrow> first_bound R role ts)"

definition tiers_down :: "model_tier \<Rightarrow> model_tier list" where
  "tiers_down tier = List.map_filter tier_of_int (rev [tier_int FAST .. tier_int tier])"

definition resolve_binding ::
  "provider_router \<Rightarrow> model_tier \<Rightarrow> string option \<Rightarrow> string list \<Rightarrow> tier_binding result" where
  "resolve_binding R tier role avoid =
     (case (if avoid = [] then None else first_avoiding R role avoid (tier_order tier)) of
        Some b \<Rightarrow> Inr b
      | None \<Rightarrow>
         (case first_bound R role (tiers_down tier) of
            Some b \<Rightarrow> Inr b
          | None \<Rightarrow>
             (case dict_get (rr_bindings R) STANDARD of
                Some b \<Rightarrow> Inr b
              | None \<Rightarrow> Inl (Exc LookupError ''STANDARD''))))"

text \<open>\<open>self._providers[name]\<close> raises \<open>KeyError\<close> for an unknown provider.\<close>

definition resolve ::
  "provider_router \<Rightarrow> model_tier \<Rightarrow> string option \<Rightarrow> string list \<Rightarrow> (string \<times> string) result" where
  "resolve R tier role avoid =
     (case resolve_binding R tier role avoid of
        Inl e \<Rightarrow> Inl e
      | Inr b \<Rightarrow> if bd_provider_name b \<in> set (rr_providers R)
                 then Inr (bd_provider_name b, bd_model b)
                 else Inl (Exc LookupError (bd_provider_name b)))"

definition escalate :: "model_tier \<Rightarrow> model_tier" where
  "escalate current = the (tier_of_int (min (tier_int current + 1) (tier_int STRONG)))"

text \<open>What the tracer records of one call.\<close>

record generation =
  gn_provider :: string
  gn_model :: string
  gn_tier :: int
  gn_error :: "string option"
  gn_usage :: "token_usage option"
  gn_cost_usd :: usd

definition is_provider_error :: "exc_kind \<Rightarrow> bool" where
  "is_provider_error k \<longleftrightarrow>
     k \<in> {RetryableProviderError, NonRetryableProviderError, CircuitOpenError, StructuredOutputError}"

definition router_complete ::
  "provider_router \<Rightarrow> (string \<Rightarrow> completion_request \<Rightarrow> 'w \<Rightarrow> completion_result result \<times> 'w) \<Rightarrow> bool
     \<Rightarrow> model_tier option \<Rightarrow> completion_request \<Rightarrow> 'w
     \<Rightarrow> completion_result result \<times> 'w \<times> generation list" where
  "router_complete R call traced tier q w =
     (let resolved_tier = (case tier of Some t \<Rightarrow> t | None \<Rightarrow> rr_default_tier R)
      in case resolve R resolved_tier (cq_role q) (cq_avoid_models q) of
           Inl e \<Rightarrow> (Inl e, w, [])
         | Inr (provider, model) \<Rightarrow>
            (case call provider (q\<lparr>cq_model := model\<rparr>) w of
               (Inl e, w1) \<Rightarrow>
                 (Inl e, w1,
                  if traced \<and> is_provider_error (exc_kind e)
                  then [\<lparr>gn_provider = provider, gn_model = model, gn_tier = tier_int resolved_tier,
                         gn_error = Some (exc_type_name (exc_kind e)), gn_usage = None, gn_cost_usd = 0\<rparr>]
                  else [])
             | (Inr r, w1) \<Rightarrow>
                 (Inr r, w1,
                  if traced
                  then [\<lparr>gn_provider = co_provider r, gn_model = co_model r,
                         gn_tier = tier_int resolved_tier, gn_error = None,
                         gn_usage = Some (co_usage r), gn_cost_usd = co_cost_usd r\<rparr>]
                  else [])))"

section \<open>Lemmas\<close>

definition router_ok :: "provider_router \<Rightarrow> bool" where
  "router_ok R \<longleftrightarrow> dict_get (rr_bindings R) STANDARD \<noteq> None
     \<and> set (referenced_providers (rr_bindings R) (rr_role_bindings R)) \<subseteq> set (rr_providers R)"

lemma new_router_ok: "new_router ps bs d rb = Inr R \<Longrightarrow> router_ok R"
  by (auto simp: new_router_def router_ok_def Let_def filter_empty_conv subset_iff split: if_splits)

lemma binding_for_referenced:
  assumes "binding_for R t role = Some b"
  shows "bd_provider_name b \<in> set (referenced_providers (rr_bindings R) (rr_role_bindings R))"
proof -
  let ?table = "dict_get_or (rr_role_bindings R) (or_str role []) []"
  consider "map_of ?table t = Some b" | "map_of (rr_bindings R) t = Some b"
    using assms by (auto simp: binding_for_def Let_def split: option.splits)
  then show ?thesis
  proof cases
    case 1
    then obtain r where "map_of (rr_role_bindings R) r = Some ?table"
      by (cases "map_of (rr_role_bindings R) (or_str role [])") auto
    then have "(r, ?table) \<in> set (rr_role_bindings R)" by (rule map_of_SomeD)
    with map_of_SomeD [OF 1] show ?thesis
      by (force simp: referenced_providers_def)
  next
    case 2
    from map_of_SomeD [OF 2] show ?thesis
      by (force simp: referenced_providers_def)
  qed
qed

lemma first_avoiding_Some:
  "first_avoiding R role avoid ts = Some b \<Longrightarrow>
     bd_model b \<notin> set avoid \<and> (\<exists>t \<in> set ts. binding_for R t role = Some b)"
  by (induction ts) (auto split: option.splits if_splits)

lemma first_avoiding_None:
  "first_avoiding R role avoid ts = None \<Longrightarrow> t \<in> set ts \<Longrightarrow> binding_for R t role = Some b \<Longrightarrow>
     bd_model b \<in> set avoid"
  by (induction ts) (auto split: option.splits if_splits)

lemma first_bound_Some:
  "first_bound R role ts = Some b \<Longrightarrow> \<exists>t \<in> set ts. binding_for R t role = Some b"
  by (induction ts) (auto split: option.splits)

lemma tier_order_all: "set (tier_order t) = UNIV"
proof -
  have "x \<in> set (tier_order t)" for x
    by (cases t; cases x) (simp_all add: tier_order_def tier_of_int_def List.map_filter_def upto.simps)
  then show ?thesis by blast
qed

lemma tiers_down_le: "x \<in> set (tiers_down t) \<Longrightarrow> tier_int x \<le> tier_int t"
  by (cases t; cases x) (simp_all add: tiers_down_def tier_of_int_def List.map_filter_def upto.simps)

lemma tiers_down_all: "tier_int x \<le> tier_int t \<Longrightarrow> x \<in> set (tiers_down t)"
  by (cases t; cases x) (simp_all add: tiers_down_def tier_of_int_def List.map_filter_def upto.simps)

lemma first_bound_None:
  "first_bound R role ts = None \<Longrightarrow> t \<in> set ts \<Longrightarrow> binding_for R t role = None"
  by (induction ts) (auto split: option.splits)

lemma tiers_down_simps:
  "tiers_down FAST = [FAST]" "tiers_down STANDARD = [STANDARD, FAST]"
  "tiers_down STRONG = [STRONG, STANDARD, FAST]"
  by (simp_all add: tiers_down_def tier_of_int_def List.map_filter_def upto.simps)

lemma all_tiers: "(\<forall>x. Q x) \<longleftrightarrow> Q FAST \<and> Q STANDARD \<and> Q STRONG"
  by (metis model_tier.exhaust)

lemma ex_tiers: "(\<exists>x. Q x) \<longleftrightarrow> Q FAST \<or> Q STANDARD \<or> Q STRONG"
  by (metis model_tier.exhaust)

lemma first_bound_strongest:
  assumes "first_bound R role (tiers_down tier) = Some b"
  shows "\<exists>t. tier_int t \<le> tier_int tier \<and> binding_for R t role = Some b
    \<and> (\<forall>x. tier_int t < tier_int x \<and> tier_int x \<le> tier_int tier \<longrightarrow> binding_for R x role = None)"
  using assms
  by (cases tier) (auto simp: tiers_down_simps all_tiers ex_tiers split: option.splits)

lemma escalate_tier_int: "tier_int (escalate t) = min (tier_int t + 1) 3"
  by (cases t) (simp_all add: escalate_def tier_of_int_def)

lemma resolve_binding_referenced:
  assumes "router_ok R"
  shows "\<exists>b. resolve_binding R tier role avoid = Inr b \<and> bd_provider_name b \<in> set (rr_providers R)"
proof -
  have ref: "bd_provider_name b \<in> set (rr_providers R)" if "binding_for R t role = Some b" for t b
    using binding_for_referenced [OF that] assms by (auto simp: router_ok_def)
  have std: "bd_provider_name b \<in> set (rr_providers R)" if "map_of (rr_bindings R) STANDARD = Some b" for b
    using map_of_SomeD [OF that] assms by (force simp: router_ok_def referenced_providers_def)
  show ?thesis
    using assms ref std first_avoiding_Some [of R role avoid] first_bound_Some [of R role]
    by (auto simp: resolve_binding_def router_ok_def split: option.splits if_splits) blast+
qed

section \<open>Properties\<close>

text \<open>C39. A router that passed its construction checks resolves every tier, role and list of
  models to avoid, to a provider it holds.\<close>

theorem resolve_total:
  assumes "new_router ps bs d rb = Inr R"
  shows "\<exists>provider model. resolve R tier role avoid = Inr (provider, model) \<and> provider \<in> set ps"
proof -
  from assms have ps: "rr_providers R = ps"
    by (auto simp: new_router_def Let_def split: if_splits)
  from resolve_binding_referenced [OF new_router_ok [OF assms], of tier role avoid] ps
  show ?thesis by (auto simp: resolve_def)
qed

theorem resolve_total_witness:
  "\<exists>provider model R. new_router [''a''] [(STANDARD, \<lparr>bd_provider_name = ''a'', bd_model = ''m''\<rparr>)] STANDARD [] = Inr R
     \<and> resolve R FAST None [''m''] = Inr (provider, model) \<and> provider \<in> set [''a'']"
proof -
  let ?R = "\<lparr>rr_providers = [''a''], rr_bindings = [(STANDARD, \<lparr>bd_provider_name = ''a'', bd_model = ''m''\<rparr>)],
     rr_role_bindings = [], rr_default_tier = STANDARD\<rparr>"
  have eq: "new_router [''a''] [(STANDARD, \<lparr>bd_provider_name = ''a'', bd_model = ''m''\<rparr>)] STANDARD [] = Inr ?R"
    by (simp add: new_router_def referenced_providers_def)
  from resolve_total [OF eq, of FAST None "[''m'']"] eq show ?thesis by blast
qed

text \<open>Independence of the judge is best effort but complete: if any tier has a binding for
  the role whose model is not to be avoided, the resolved model is not one to avoid.\<close>

lemma resolve_avoids_when_possible:
  assumes "resolve R tier role avoid = Inr (provider, model)"
    and "binding_for R t role = Some b" and "bd_model b \<notin> set avoid"
  shows "model \<notin> set avoid"
proof (cases "avoid = []")
  case False
  have "t \<in> set (tier_order tier)" by (simp add: tier_order_all)
  with first_avoiding_None assms(2,3) obtain b'
    where "first_avoiding R role avoid (tier_order tier) = Some b'" by fastforce
  with first_avoiding_Some [OF this] False assms(1) show ?thesis
    by (auto simp: resolve_def resolve_binding_def split: if_splits)
qed simp

definition two_model_router :: provider_router where
  "two_model_router =
     \<lparr>rr_providers = [''a''],
      rr_bindings = [(STANDARD, \<lparr>bd_provider_name = ''a'', bd_model = ''m''\<rparr>),
                     (STRONG, \<lparr>bd_provider_name = ''a'', bd_model = ''n''\<rparr>)],
      rr_role_bindings = [], rr_default_tier = STANDARD\<rparr>"

lemma resolve_avoids_when_possible_witness:
  "resolve two_model_router STANDARD (Some ''judge'') [''m''] = Inr (''a'', ''n'') \<and> ''n'' \<notin> set [''m'']"
proof -
  have eq: "resolve two_model_router STANDARD (Some ''judge'') [''m''] = Inr (''a'', ''n'')"
    by (simp add: resolve_def resolve_binding_def tier_order_def tier_of_int_def List.map_filter_def
        upto.simps binding_for_def two_model_router_def Let_def or_str_def dict_get_or_def)
  have "binding_for two_model_router STRONG (Some ''judge'') = Some \<lparr>bd_provider_name = ''a'', bd_model = ''n''\<rparr>"
    by (simp add: binding_for_def two_model_router_def Let_def or_str_def dict_get_or_def)
  from resolve_avoids_when_possible [OF eq this] eq show ?thesis by simp
qed

text \<open>Without models to avoid, resolution degrades downwards: where some tier up to the
  requested one is bound, the resolved binding is that of the strongest such tier.\<close>

lemma resolve_never_escalates_when_bound:
  assumes "router_ok R" and "tier_int t \<le> tier_int tier" and "binding_for R t role \<noteq> None"
  shows "\<exists>t' b. tier_int t' \<le> tier_int tier \<and> binding_for R t' role = Some b
    \<and> (\<forall>x. tier_int t' < tier_int x \<and> tier_int x \<le> tier_int tier \<longrightarrow> binding_for R x role = None)
    \<and> resolve R tier role [] = Inr (bd_provider_name b, bd_model b)"
proof -
  from assms(2,3) obtain b where b: "first_bound R role (tiers_down tier) = Some b"
    using first_bound_None [of R role "tiers_down tier" t] tiers_down_all by fastforce
  from resolve_binding_referenced [OF assms(1), of tier role "[]"] b
  have "resolve R tier role [] = Inr (bd_provider_name b, bd_model b)"
    by (auto simp: resolve_def resolve_binding_def)
  with first_bound_strongest [OF b] show ?thesis by blast
qed

lemma resolve_never_escalates_when_bound_witness:
  "\<exists>t' b. tier_int t' \<le> 2 \<and> binding_for two_model_router t' None = Some b
    \<and> resolve two_model_router STANDARD None [] = Inr (bd_provider_name b, bd_model b)"
proof -
  have "router_ok two_model_router"
    by (simp add: router_ok_def two_model_router_def referenced_providers_def)
  moreover have "binding_for two_model_router STANDARD None \<noteq> None"
    by (simp add: binding_for_def two_model_router_def Let_def or_str_def dict_get_or_def)
  ultimately show ?thesis
    using resolve_never_escalates_when_bound [of two_model_router STANDARD STANDARD None] by auto
qed

text \<open>The documented promise that an unbound tier never escalates by itself fails for the
  lowest tier: on a router bound at STANDARD only, a FAST request is served by STANDARD.\<close>

lemma fast_request_escalates_to_standard:
  "\<exists>R. new_router [''a''] [(STANDARD, \<lparr>bd_provider_name = ''a'', bd_model = ''big''\<rparr>)] STANDARD [] = Inr R
     \<and> binding_for R FAST None = None \<and> resolve R FAST None [] = Inr (''a'', ''big'')"
  by (simp add: new_router_def referenced_providers_def binding_for_def resolve_def resolve_binding_def
      tiers_down_def tier_of_int_def List.map_filter_def upto.simps Let_def or_str_def dict_get_or_def)

end
