(* ===== verification/Build_Evidence_Model.thy ===== *)
theory Build_Evidence_Model imports Prelude begin

text \<open>
  The persistable build results (\<open>app/models/build_execution.py\<close>) and the scan evidence of
  \<open>app/models/architecture.py\<close>: the phases a sandboxed build ran, their outcomes, the
  architecture report and the independent acceptance report, with the derived \<open>passed\<close>
  properties the graph's gates rest on. Field names carry a prefix per record.
\<close>

datatype build_phase_name = PREPARE | BUILD | TEST | LINT | TYPES

primrec phase_value :: "build_phase_name \<Rightarrow> string" where
  "phase_value PREPARE = ''prepare''"
| "phase_value BUILD = ''build''"
| "phase_value TEST = ''test''"
| "phase_value LINT = ''lint''"
| "phase_value TYPES = ''types''"

datatype build_outcome =
    SUCCESS
  | COMMAND_FAILURE
  | POLICY_REJECTION
  | TIMEOUT
  | RESOURCE_LIMIT
  | OUTCOME_CANCELLED
  | INFRASTRUCTURE_ERROR

primrec outcome_value :: "build_outcome \<Rightarrow> string" where
  "outcome_value SUCCESS = ''success''"
| "outcome_value COMMAND_FAILURE = ''command_failure''"
| "outcome_value POLICY_REJECTION = ''policy_rejection''"
| "outcome_value TIMEOUT = ''timeout''"
| "outcome_value RESOURCE_LIMIT = ''resource_limit''"
| "outcome_value OUTCOME_CANCELLED = ''cancelled''"
| "outcome_value INFRASTRUCTURE_ERROR = ''infrastructure_error''"

record build_phase_result =
  ph_phase :: build_phase_name
  ph_outcome :: build_outcome
  ph_command :: "string list"
  ph_image :: string
  ph_cwd :: string
  ph_duration_seconds :: rat
  ph_exit_code :: "int option"
  ph_stdout :: string
  ph_stdout_sha256 :: "string option"
  ph_stderr :: string
  ph_output_truncated :: bool
  ph_network_enabled :: bool
  ph_workspace_read_only :: bool
  ph_cleanup_failed :: bool
  ph_container_name :: "string option"
  ph_error_code :: "string option"

record acceptance_case_result =
  ac_case_id :: string
  ac_case_digest :: string
  ac_criterion :: string
  ac_expected_stdout_sha256 :: string
  ac_execution :: build_phase_result

definition case_passed :: "acceptance_case_result \<Rightarrow> bool" where
  "case_passed c \<longleftrightarrow>
     (let run = ac_execution c in
        ph_outcome run = SUCCESS \<and> ph_exit_code run = Some 0
        \<and> \<not> truthy_str (ph_error_code run) \<and> \<not> ph_cleanup_failed run
        \<and> \<not> ph_output_truncated run \<and> \<not> ph_network_enabled run
        \<and> ph_workspace_read_only run
        \<and> ph_stdout_sha256 run = Some (ac_expected_stdout_sha256 c))"

record acceptance_report =
  rp_suite_digest :: string
  rp_required_criteria :: "string list"
  rp_complete :: bool
  rp_cases :: "acceptance_case_result list"

definition report_passed :: "acceptance_report \<Rightarrow> bool" where
  "report_passed r \<longleftrightarrow>
     rp_complete r \<and> rp_cases r \<noteq> [] \<and> rp_required_criteria r \<noteq> []
     \<and> card (set (map ac_case_id (rp_cases r))) = length (rp_cases r)
     \<and> (\<forall>c \<in> set (rp_cases r). case_passed c)
     \<and> set (rp_required_criteria r) \<subseteq> set (map ac_criterion (rp_cases r))"

record architecture_finding =
  af_rule_id :: string
  af_code :: string
  af_path :: string
  af_line :: int
  af_dependency :: string
  af_message :: string
  af_remediation :: string

record architecture_report =
  ar_policy_digest :: string
  ar_complete :: bool
  ar_files_checked :: int
  ar_findings :: "architecture_finding list"

definition architecture_passed :: "architecture_report \<Rightarrow> bool" where
  "architecture_passed r \<longleftrightarrow> ar_complete r \<and> ar_files_checked r > 0 \<and> ar_findings r = []"

record build_run_result =
  br_profile_name :: "string option"
  br_profile_digest :: "string option"
  br_outcome :: build_outcome
  br_phases :: "build_phase_result list"
  br_error_code :: "string option"
  br_architecture :: "architecture_report option"
  br_acceptance :: "acceptance_report option"

section \<open>What a passing report proves\<close>

lemma report_passed_distinct: "report_passed r \<Longrightarrow> distinct (map ac_case_id (rp_cases r))"
  by (simp add: report_passed_def card_distinct)

lemma report_passed_covers:
  assumes "report_passed r" and "k \<in> set (rp_required_criteria r)"
  shows "\<exists>c \<in> set (rp_cases r). ac_criterion c = k \<and> case_passed c"
  using assms by (auto simp: report_passed_def subset_iff)

lemma case_passed_run:
  assumes "case_passed c"
  shows "ph_outcome (ac_execution c) = SUCCESS" and "ph_exit_code (ac_execution c) = Some 0"
    and "ph_stdout_sha256 (ac_execution c) = Some (ac_expected_stdout_sha256 c)"
  using assms by (simp_all add: case_passed_def Let_def)

end
