(* ===== verification/Factory_Model.thy ===== *)
theory Factory_Model imports Build_Evidence_Model begin

text \<open>
  The persistent contracts of factory mode (\<open>app/models/factory.py\<close>): work orders, build
  profile selections, delivery policies and workspace leases, with the validators pydantic
  runs after construction. A validator is a function that returns the value or raises.
\<close>

datatype work_order_source_kind = DIRECT | GITHUB_ISSUE

record github_issue_snapshot =
  is_url_host :: "string option"
  is_number :: int
  is_title :: string
  is_body :: string
  is_labels :: "string list"
  is_repository :: string
  is_author :: string
  is_updated_at :: timestamp
  is_retrieved_at :: timestamp

datatype work_order_source = DirectSource | GitHubIssueSource github_issue_snapshot

primrec source_kind :: "work_order_source \<Rightarrow> work_order_source_kind" where
  "source_kind DirectSource = DIRECT"
| "source_kind (GitHubIssueSource s) = GITHUB_ISSUE"

record repository_target =
  rt_full_name :: string
  rt_base_ref :: string
  rt_scm_host :: string
  rt_expected_base_sha :: "string option"

text \<open>\<open>str.rstrip(".")\<close> and the host validator of \<open>RepositoryTarget\<close>.\<close>

definition rstrip_dots :: "string \<Rightarrow> string" where
  "rstrip_dots s = rev (dropWhile (\<lambda>c. c = CHR ''.'') (rev s))"

definition normalize_host :: "string \<Rightarrow> string result" where
  "normalize_host v =
     (let host = rstrip_dots (str_lower (strip v))
      in if contains host ''://'' \<or> CHR ''/'' \<in> set host \<or> host = []
         then Inl (Exc ValueError ''scm_host deve ser somente um hostname.'')
         else Inr host)"

record work_order_limits =
  wl_max_tokens :: int
  wl_max_cost_usd :: usd
  wl_max_iterations :: int
  wl_max_wall_clock_seconds :: int

datatype selection_reason = Explicit | RepositoryMapping | Detected | Unsupported

record build_profile_selection =
  sel_requested_profile :: "string option"
  sel_selected_profile :: "string option"
  sel_selection_reason :: "selection_reason option"
  sel_phases :: "string list"
  sel_profile_digest :: "string option"
  sel_architecture_digest :: "string option"
  sel_acceptance_digest :: "string option"
  sel_acceptance_cases :: "(string, string) pydict"
  sel_acceptance_criteria :: "string list"
  sel_unsupported_reason :: "string option"

definition selection_is_coherent :: "build_profile_selection \<Rightarrow> build_profile_selection result" where
  "selection_is_coherent s =
     (if sel_selection_reason s = Some Unsupported \<and> truthy_str (sel_selected_profile s)
      then Inl (Exc ValueError ''perfil unsupported nao pode ter selected_profile.'')
      else if truthy_str (sel_selected_profile s) \<and> sel_selection_reason s = None
      then Inl (Exc ValueError ''selected_profile exige selection_reason.'')
      else Inr s)"

record delivery_policy =
  dp_create_pull_request :: bool
  dp_wait_for_checks :: bool
  dp_checks_timeout_seconds :: int
  dp_require_human_merge :: bool

definition human_merge_is_mandatory :: "delivery_policy \<Rightarrow> delivery_policy result" where
  "human_merge_is_mandatory p =
     (if \<not> dp_create_pull_request p
      then Inl (Exc ValueError ''o MVP exige entrega por pull request.'')
      else if \<not> dp_require_human_merge p
      then Inl (Exc ValueError ''o MVP exige merge humano.'')
      else Inr p)"

record work_order =
  wo_id :: uuid
  wo_source :: work_order_source
  wo_repository :: repository_target
  wo_requested_outcome :: string
  wo_acceptance_criteria :: "string list"
  wo_limits :: work_order_limits
  wo_build_profile :: build_profile_selection
  wo_delivery_policy :: delivery_policy
  wo_idempotency_key :: "string option"
  wo_created_at :: timestamp

definition issue_repository_matches_target :: "work_order \<Rightarrow> work_order result" where
  "issue_repository_matches_target w =
     (case wo_source w of
        DirectSource \<Rightarrow> Inr w
      | GitHubIssueSource s \<Rightarrow>
          if str_lower (is_repository s) \<noteq> str_lower (rt_full_name (wo_repository w))
          then Inl (Exc ValueError ''issue e work order devem apontar ao mesmo repositorio.'')
          else Inr w)"

datatype workspace_lifecycle =
    WS_REQUESTED | WS_PROVISIONING | WS_READY | WS_ACTIVE | WS_RETAINED | WS_RELEASING
  | WS_RELEASED | WS_FAILED

record workspace_retention =
  re_retain_until :: "timestamp option"
  re_reason :: "string option"

record workspace_lease =
  le_id :: uuid
  le_workflow_id :: string
  le_repository :: repository_target
  le_local_path :: string
  le_branch :: string
  le_base_sha :: string
  le_state :: workspace_lifecycle
  le_created_at :: timestamp
  le_updated_at :: timestamp
  le_retention :: workspace_retention
  le_failure_reason :: "string option"

definition path_must_be_absolute :: "string \<Rightarrow> string result" where
  "path_must_be_absolute v =
     (if starts_with v ''/'' then Inr v
      else Inl (Exc ValueError ''local_path deve ser absoluto.''))"

datatype factory_stage =
    INTAKE | PROVISIONING | STRATEGY_SELECTION | IMPLEMENTATION | VALIDATION | DELIVERY
  | STAGE_READY_FOR_HUMAN_REVIEW | CLEANUP

section \<open>Acceptance evidence\<close>

text \<open>\<open>acceptance_verified\<close> of \<open>app/factory/acceptance.py\<close>: the digest of the dictionary
  comprehension over the cases is compared with the selection's, as dictionaries.\<close>

definition same_dict :: "('k, 'v) pydict \<Rightarrow> ('k, 'v) pydict \<Rightarrow> bool" where
  "same_dict d e \<longleftrightarrow>
     (\<forall>k \<in> set (map fst d) \<union> set (map fst e). map_of d k = map_of e k)"

definition acceptance_verified :: "acceptance_report option \<Rightarrow> build_profile_selection \<Rightarrow> bool" where
  "acceptance_verified report s =
     (case sel_acceptance_digest s of
        None \<Rightarrow> report = None \<and> sel_acceptance_cases s = [] \<and> sel_acceptance_criteria s = []
      | Some digest \<Rightarrow>
          (case report of
             None \<Rightarrow> False
           | Some r \<Rightarrow>
               report_passed r
               \<and> rp_suite_digest r = digest
               \<and> rp_required_criteria r = sel_acceptance_criteria s
               \<and> same_dict (dict_of (map (\<lambda>c. (ac_case_id c, ac_case_digest c)) (rp_cases r)))
                           (sel_acceptance_cases s)
               \<and> length (rp_cases r) = length (sel_acceptance_cases s)))"

lemma same_dict_map_of: "same_dict d e \<longleftrightarrow> map_of d = map_of e"
proof
  assume *: "same_dict d e"
  show "map_of d = map_of e"
  proof
    fix k
    show "map_of d k = map_of e k"
    proof (cases "k \<in> set (map fst d) \<union> set (map fst e)")
      case True
      with * show ?thesis by (simp add: same_dict_def)
    next
      case False
      then have "map_of d k = None" and "map_of e k = None"
        by (auto simp: map_of_eq_None_iff)
      then show ?thesis by simp
    qed
  qed
qed (simp add: same_dict_def)

text \<open>Verified acceptance binds every required criterion of the selection to a passing case
  whose digest is the selection's.\<close>

lemma acceptance_verified_case:
  assumes ver: "acceptance_verified report s" and dig: "sel_acceptance_digest s \<noteq> None"
    and k: "k \<in> set (sel_acceptance_criteria s)"
  shows "\<exists>r c. report = Some r \<and> c \<in> set (rp_cases r) \<and> ac_criterion c = k \<and> case_passed c
           \<and> map_of (sel_acceptance_cases s) (ac_case_id c) = Some (ac_case_digest c)"
proof -
  from dig obtain d where d: "sel_acceptance_digest s = Some d" by blast
  with ver obtain r where r: "report = Some r" "report_passed r"
      "rp_required_criteria r = sel_acceptance_criteria s"
      and same: "same_dict (dict_of (map (\<lambda>c. (ac_case_id c, ac_case_digest c)) (rp_cases r)))
                           (sel_acceptance_cases s)"
    by (auto simp: acceptance_verified_def split: option.splits)
  from report_passed_covers [OF r(2)] k r(3) obtain c
    where c: "c \<in> set (rp_cases r)" "ac_criterion c = k" "case_passed c" by auto
  let ?ps = "map (\<lambda>c. (ac_case_id c, ac_case_digest c)) (rp_cases r)"
  have "distinct (map fst (rev ?ps))"
    using report_passed_distinct [OF r(2)] by (simp add: comp_def rev_map [symmetric])
  then have "map_of (rev ?ps) (ac_case_id c) = Some (ac_case_digest c)"
    by (rule map_of_is_SomeI) (use c(1) in auto)
  then have "map_of (sel_acceptance_cases s) (ac_case_id c) = Some (ac_case_digest c)"
    using same by (simp add: same_dict_map_of map_of_dict_of)
  with r(1) c show ?thesis by blast
qed

end
