(* ===== verification/Task_Model.thy ===== *)
theory Task_Model imports Factory_Model begin

text \<open>
  The task contract (\<open>app/models/task.py\<close>): capabilities, task statuses, typed acceptance
  criteria with their validator, the task budget, attempts, tasks, evaluation results with
  the objective veto, and the advisor's trigger.
\<close>

section \<open>Enumerations\<close>

datatype capability =
    BACKEND | FRONTEND | TESTING | REVIEW | RESEARCH | DOCUMENTATION | DEVOPS | ARCHITECTURE
  | SECURITY

definition all_capabilities :: "capability list" where
  "all_capabilities =
     [BACKEND, FRONTEND, TESTING, REVIEW, RESEARCH, DOCUMENTATION, DEVOPS, ARCHITECTURE, SECURITY]"

lemma all_capabilities_complete: "set all_capabilities = UNIV"
proof -
  have "c \<in> set all_capabilities" for c
    by (cases c) (simp_all add: all_capabilities_def)
  then show ?thesis by blast
qed

datatype task_status =
    PENDING | RUNNING | COMPLETED | FAILED | BLOCKED | REJECTED | ESCALATED | CANCELLED

primrec status_value :: "task_status \<Rightarrow> string" where
  "status_value PENDING = ''pending''"
| "status_value RUNNING = ''running''"
| "status_value COMPLETED = ''completed''"
| "status_value FAILED = ''failed''"
| "status_value BLOCKED = ''blocked''"
| "status_value REJECTED = ''rejected''"
| "status_value ESCALATED = ''escalated''"
| "status_value CANCELLED = ''cancelled''"

definition is_terminal :: "task_status \<Rightarrow> bool" where
  "is_terminal s \<longleftrightarrow> s \<in> {COMPLETED, ESCALATED, CANCELLED}"

definition is_redispatchable :: "task_status \<Rightarrow> bool" where
  "is_redispatchable s \<longleftrightarrow> s \<in> {REJECTED, FAILED, PENDING}"

datatype criterion_kind =
    SUBJECTIVE | TESTS_PASS | LINT_PASS | TYPES_PASS | FILE_CREATED | FILE_MODIFIED
  | FILE_UNCHANGED | NO_EXISTING_FILE_MODIFIED | CHANGES_LIMITED_TO | CONTENT_CONTAINS
  | CITATIONS_VALID | OUTPUT_CONTAINS | OUTPUT_MIN_CHARS

primrec kind_value :: "criterion_kind \<Rightarrow> string" where
  "kind_value SUBJECTIVE = ''subjective''"
| "kind_value TESTS_PASS = ''tests_pass''"
| "kind_value LINT_PASS = ''lint_pass''"
| "kind_value TYPES_PASS = ''types_pass''"
| "kind_value FILE_CREATED = ''file_created''"
| "kind_value FILE_MODIFIED = ''file_modified''"
| "kind_value FILE_UNCHANGED = ''file_unchanged''"
| "kind_value NO_EXISTING_FILE_MODIFIED = ''no_existing_file_modified''"
| "kind_value CHANGES_LIMITED_TO = ''changes_limited_to''"
| "kind_value CONTENT_CONTAINS = ''content_contains''"
| "kind_value CITATIONS_VALID = ''citations_valid''"
| "kind_value OUTPUT_CONTAINS = ''output_contains''"
| "kind_value OUTPUT_MIN_CHARS = ''output_min_chars''"

definition is_objective :: "criterion_kind \<Rightarrow> bool" where
  "is_objective k \<longleftrightarrow> k \<noteq> SUBJECTIVE"

definition kinds_needing_pattern :: "criterion_kind list" where
  "kinds_needing_pattern = [CONTENT_CONTAINS, OUTPUT_CONTAINS]"

definition kinds_needing_path :: "criterion_kind list" where
  "kinds_needing_path = [FILE_CREATED, FILE_MODIFIED, FILE_UNCHANGED, CONTENT_CONTAINS]"

text \<open>\<open>infer_criterion_kind\<close>: its accented markers are spelled with their Latin-1 code points
  (231 is c-cedilla, 227 a-tilde, 237 i-acute, 225 a-acute).\<close>

definition infer_criterion_kind :: "string \<Rightarrow> criterion_kind" where
  "infer_criterion_kind text =
     (let lowered = str_lower text in
      if contains lowered (''altera'' @ [CHR 0xE7, CHR 0xE3] @ ''o m'' @ [CHR 0xED] @ ''nima'')
         \<or> contains lowered ''restrita ao arquivo novo''
         \<or> contains lowered (''n'' @ [CHR 0xE3] @ ''o altere arquivos existentes'')
      then NO_EXISTING_FILE_MODIFIED
      else
        let has_citation = contains lowered ''citation'' \<or> contains lowered (''cita'' @ [CHR 0xE7])
              \<or> contains lowered ''evidence_id'';
            has_validity = (\<exists>m \<in> set [''v'' @ [CHR 0xE1] @ ''lid'', ''valid'', ''exist'', ''grounding''].
              contains lowered m)
        in if has_citation \<and> has_validity then CITATIONS_VALID else SUBJECTIVE)"

section \<open>Acceptance criteria\<close>

record acceptance_criterion =
  cr_text :: string
  cr_kind :: criterion_kind
  cr_path :: "string option"
  cr_paths :: "string list"
  cr_pattern :: "string option"
  cr_min_chars :: "int option"

definition parameters_match_kind :: "acceptance_criterion \<Rightarrow> acceptance_criterion result" where
  "parameters_match_kind c =
     (let k = cr_kind c in
      if k \<in> set kinds_needing_path \<and> \<not> truthy_str (cr_path c)
      then Inl (Exc ValueError (''criterio '' @ kind_value k @ '' exige `path`.''))
      else if k \<in> set kinds_needing_pattern \<and> \<not> truthy_str (cr_pattern c)
      then Inl (Exc ValueError (''criterio '' @ kind_value k @ '' exige `pattern`.''))
      else if k = OUTPUT_MIN_CHARS \<and> (cr_min_chars c = None \<or> cr_min_chars c = Some 0)
      then Inl (Exc ValueError ''criterio output_min_chars exige `min_chars`.'')
      else if k = CHANGES_LIMITED_TO \<and> cr_paths c = []
      then Inl (Exc ValueError ''criterio changes_limited_to exige `paths`.'')
      else Inr c)"

text \<open>\<open>AcceptanceCriterion(text=item, kind=infer_criterion_kind(item))\<close>, the coercion of an old
  string criterion; typed items pass through unchanged.\<close>

definition criterion_of_text :: "string \<Rightarrow> acceptance_criterion" where
  "criterion_of_text item =
     \<lparr>cr_text = item, cr_kind = infer_criterion_kind item, cr_path = None, cr_paths = [],
      cr_pattern = None, cr_min_chars = None\<rparr>"

definition coerce_criteria :: "(string + acceptance_criterion) list \<Rightarrow> acceptance_criterion list" where
  "coerce_criteria items =
     map (\<lambda>item. case item of Inl s \<Rightarrow> criterion_of_text s | Inr c \<Rightarrow> c) items"

text \<open>A criterion's prompt line; \<open>repr\<close> of the pattern is a parameter.\<close>

definition criterion_label :: "(string \<Rightarrow> string) \<Rightarrow> acceptance_criterion \<Rightarrow> string" where
  "criterion_label py_repr c =
     (if \<not> is_objective (cr_kind c) then cr_text c
      else
        let detail = or_str (cr_path c) (if cr_paths c \<noteq> [] then join '', '' (cr_paths c) else []);
            suffix = (if detail \<noteq> [] then kind_value (cr_kind c) @ '': '' @ detail
                      else kind_value (cr_kind c));
            suffix = (if cr_kind c \<in> set kinds_needing_pattern
                      then suffix @ ''; pattern='' @ (case cr_pattern c of None \<Rightarrow> ''None'' | Some p \<Rightarrow> py_repr p)
                      else suffix);
            suffix = (if cr_kind c = OUTPUT_MIN_CHARS
                      then suffix @ ''; min_chars='' @ (case cr_min_chars c of None \<Rightarrow> ''None'' | Some n \<Rightarrow> show_int n)
                      else suffix)
        in cr_text c @ '' ['' @ suffix @ '']'')"

definition format_criteria :: "(string \<Rightarrow> string) \<Rightarrow> acceptance_criterion list \<Rightarrow> string" where
  "format_criteria py_repr cs = join [CHR 0x0A] (map (\<lambda>c. ''- '' @ criterion_label py_repr c) cs)"

section \<open>Task budgets\<close>

record task_budget =
  tb_max_tokens :: int
  tb_max_cost_usd :: usd
  tb_consumed_tokens :: int
  tb_consumed_cost_usd :: usd
  tb_unconfirmed_tokens :: int
  tb_unconfirmed_cost_usd :: usd

definition tb_exhausted :: "task_budget \<Rightarrow> bool" where
  "tb_exhausted b \<longleftrightarrow>
     tb_consumed_tokens b + tb_unconfirmed_tokens b \<ge> tb_max_tokens b
     \<or> tb_consumed_cost_usd b + tb_unconfirmed_cost_usd b \<ge> tb_max_cost_usd b"

definition tb_exceeded :: "task_budget \<Rightarrow> bool" where
  "tb_exceeded b \<longleftrightarrow>
     tb_consumed_tokens b + tb_unconfirmed_tokens b > tb_max_tokens b
     \<or> tb_consumed_cost_usd b + tb_unconfirmed_cost_usd b > tb_max_cost_usd b"

definition charge :: "task_budget \<Rightarrow> int \<Rightarrow> usd \<Rightarrow> int \<Rightarrow> usd \<Rightarrow> task_budget" where
  "charge b tokens cost unconfirmed_tokens unconfirmed_cost =
     b\<lparr>tb_consumed_tokens := tb_consumed_tokens b + tokens,
       tb_consumed_cost_usd := tb_consumed_cost_usd b + cost,
       tb_unconfirmed_tokens := tb_unconfirmed_tokens b + unconfirmed_tokens,
       tb_unconfirmed_cost_usd := tb_unconfirmed_cost_usd b + unconfirmed_cost\<rparr>"

text \<open>The field constraints pydantic checks when a budget is constructed.\<close>

definition tb_valid :: "task_budget \<Rightarrow> bool" where
  "tb_valid b \<longleftrightarrow> tb_max_tokens b > 0 \<and> tb_max_cost_usd b > 0 \<and> tb_consumed_tokens b \<ge> 0
     \<and> tb_consumed_cost_usd b \<ge> 0 \<and> tb_unconfirmed_tokens b \<ge> 0 \<and> tb_unconfirmed_cost_usd b \<ge> 0"

lemma tb_exceeded_exhausted: "tb_exceeded b \<Longrightarrow> tb_exhausted b"
  by (auto simp: tb_exceeded_def tb_exhausted_def)

lemma charge_valid:
  "tb_valid b \<Longrightarrow> 0 \<le> t \<Longrightarrow> 0 \<le> c \<Longrightarrow> 0 \<le> ut \<Longrightarrow> 0 \<le> uc \<Longrightarrow> tb_valid (charge b t c ut uc)"
  by (simp add: tb_valid_def charge_def)

lemma charge_exhausted_mono:
  "0 \<le> t \<Longrightarrow> 0 \<le> c \<Longrightarrow> 0 \<le> ut \<Longrightarrow> 0 \<le> uc \<Longrightarrow> tb_exhausted b \<Longrightarrow> tb_exhausted (charge b t c ut uc)"
  by (auto simp: tb_exhausted_def charge_def)

lemma charge_add:
  "charge (charge b t c ut uc) t' c' ut' uc' = charge b (t + t') (c + c') (ut + ut') (uc + uc')"
  by (simp add: charge_def)

section \<open>Attempts and tasks\<close>

record task_attempt =
  at_attempt_number :: int
  at_agent_name :: string
  at_model :: string
  at_started_at :: timestamp
  at_finished_at :: "timestamp option"
  at_outcome :: "task_status option"
  at_failure_reason :: "string option"
  at_tokens_used :: int
  at_cost_usd :: usd
  at_trace_id :: "string option"
  at_operational_summary :: "(string \<times> pyval) list option"
  at_factory_stage :: "factory_stage option"
  at_build_strategy :: "build_profile_selection option"
  at_build_validation :: "build_run_result option"

record agent_task =
  t_id :: uuid
  t_title :: string
  t_description :: string
  t_capability :: capability
  t_dependencies :: "uuid list"
  t_acceptance_criteria :: "acceptance_criterion list"
  t_evidence_ids :: "string list"
  t_timeout_seconds :: int
  t_max_attempts :: int
  t_budget :: task_budget
  t_is_critical :: bool
  t_assigned_agent :: "string option"
  t_status :: task_status
  t_tier_escalated :: bool
  t_reopen_reason :: "string option"
  t_attempts :: "task_attempt list"
  t_result :: pyval
  t_updated_at :: timestamp

definition criteria_before_execution :: "agent_task \<Rightarrow> agent_task result" where
  "criteria_before_execution t =
     (if t_status t \<noteq> PENDING \<and> t_acceptance_criteria t = []
      then Inl (Exc ValueError (''Tarefa '' @ show_nat (t_id t) @ '' em '' @ status_value (t_status t)
             @ '' sem acceptance_criteria.''))
      else Inr t)"

definition attempt_count :: "agent_task \<Rightarrow> int" where
  "attempt_count t = int (length (t_attempts t))"

text \<open>The deduplication key: SHA-256 in hexadecimal is a parameter, and so is \<open>str(UUID)\<close>.\<close>

definition idempotency_key ::
  "(string \<Rightarrow> string) \<Rightarrow> (uuid \<Rightarrow> string) \<Rightarrow> agent_task \<Rightarrow> string \<Rightarrow> string" where
  "idempotency_key sha256_hex str_uuid t project_id =
     take 32 (sha256_hex (project_id @ '':'' @ str_uuid (t_id t) @ '':'' @ show_int (attempt_count t)))"

definition next_status_after_failure :: "agent_task \<Rightarrow> task_status" where
  "next_status_after_failure t =
     (if attempt_count t \<ge> t_max_attempts t then ESCALATED else REJECTED)"

lemma next_status_cases: "next_status_after_failure t \<in> {ESCALATED, REJECTED}"
  by (simp add: next_status_after_failure_def)

lemma next_status_not_completed [simp]:
  "next_status_after_failure t \<noteq> COMPLETED" "COMPLETED \<noteq> next_status_after_failure t"
  "next_status_after_failure t \<noteq> RUNNING" "RUNNING \<noteq> next_status_after_failure t"
  by (simp_all add: next_status_after_failure_def)

section \<open>Evaluations\<close>

record evaluation_result =
  ev_task_id :: uuid
  ev_approved :: bool
  ev_score :: rat
  ev_criteria_scores :: "(string, rat) pydict"
  ev_failures :: "string list"
  ev_required_changes :: "string list"
  ev_tests_passed :: "bool option"
  ev_lint_passed :: "bool option"
  ev_type_check_passed :: "bool option"
  ev_validated_by :: "string list"
  ev_judge_models :: "string list"
  ev_independent_judge :: "bool option"

definition objective_failures :: "evaluation_result \<Rightarrow> bool option list" where
  "objective_failures e =
     filter (\<lambda>s. s = Some False) [ev_tests_passed e, ev_lint_passed e, ev_type_check_passed e]"

definition objective_signals_veto :: "evaluation_result \<Rightarrow> evaluation_result result" where
  "objective_signals_veto e =
     (if objective_failures e \<noteq> [] \<and> ev_approved e
      then Inl (Exc ValueError
        ''approved=True com sinal objetivo falhando. O LLM nao pode sobrescrever pytest/lint/mypy.'')
      else Inr e)"

lemma objective_signals_veto_Inr:
  "objective_signals_veto e = Inr e' \<longleftrightarrow> e' = e \<and> (ev_approved e \<longrightarrow> objective_failures e = [])"
  by (auto simp: objective_signals_veto_def)

section \<open>The advisor's trigger\<close>

record advisor_trigger =
  tr_task :: agent_task
  tr_judge_rejections :: int
  tr_repeated_diff_detected :: bool
  tr_self_reported_confidence :: "rat option"

definition should_consult :: "advisor_trigger \<Rightarrow> bool" where
  "should_consult g \<longleftrightarrow>
     t_is_critical (tr_task g)
     \<or> attempt_count (tr_task g) \<ge> 2
     \<or> tr_judge_rejections g \<ge> 1
     \<or> tr_repeated_diff_detected g
     \<or> tb_exhausted (t_budget (tr_task g))
     \<or> (case tr_self_reported_confidence g of None \<Rightarrow> False | Some c \<Rightarrow> c < 1 / 2)"

section \<open>A sample task for the witnesses\<close>

definition sample_budget :: task_budget where
  "sample_budget =
     \<lparr>tb_max_tokens = 100000, tb_max_cost_usd = 3, tb_consumed_tokens = 0, tb_consumed_cost_usd = 0,
      tb_unconfirmed_tokens = 0, tb_unconfirmed_cost_usd = 0\<rparr>"

definition sample_task :: "uuid \<Rightarrow> task_status \<Rightarrow> agent_task" where
  "sample_task i st =
     \<lparr>t_id = i, t_title = ''t'', t_description = ''d'', t_capability = RESEARCH, t_dependencies = [],
      t_acceptance_criteria = [criterion_of_text ''x''], t_evidence_ids = [],
      t_timeout_seconds = 300, t_max_attempts = 3, t_budget = sample_budget, t_is_critical = False,
      t_assigned_agent = None, t_status = st, t_tier_escalated = False, t_reopen_reason = None,
      t_attempts = [], t_result = PNone, t_updated_at = 0\<rparr>"

end
