(* ===== verification/Executor_Registry.thy ===== *)
theory Executor_Registry imports Provider_Router Task_Model begin

text \<open>
  The executor registry (\<open>app/agents/registry.py\<close>): profiles sorted by cost, coverage of every
  capability checked at construction, selection of the cheapest profile for a task, escalated
  executors one tier above, and the per-agent dispatch policy. An executor is what the registry
  decides about it: its agent's name and its tier.

  The interface the graph relies on is the locale \<open>dispatch_registry\<close>; the interpretation at
  the end discharges it for this registry.
\<close>

record agent_profile =
  ap_name :: string
  ap_capabilities :: "capability list"
  ap_tier :: model_tier
  ap_cost_level :: int
  ap_max_parallel_tasks :: int

definition default_profiles :: "agent_profile list" where
  "default_profiles =
     [\<lparr>ap_name = ''backend_executor'', ap_capabilities = [BACKEND, DEVOPS], ap_tier = STANDARD,
       ap_cost_level = 2, ap_max_parallel_tasks = 3\<rparr>,
      \<lparr>ap_name = ''quality_executor'', ap_capabilities = [TESTING, REVIEW, SECURITY], ap_tier = STANDARD,
       ap_cost_level = 2, ap_max_parallel_tasks = 3\<rparr>,
      \<lparr>ap_name = ''docs_executor'', ap_capabilities = [DOCUMENTATION, RESEARCH], ap_tier = FAST,
       ap_cost_level = 1, ap_max_parallel_tasks = 3\<rparr>,
      \<lparr>ap_name = ''architecture_executor'', ap_capabilities = [ARCHITECTURE, FRONTEND], ap_tier = STANDARD,
       ap_cost_level = 3, ap_max_parallel_tasks = 3\<rparr>]"

record llm_executor =
  lx_agent_name :: string
  lx_tier :: model_tier

record executor_registry =
  xr_profiles :: "agent_profile list"
  xr_executors :: "(string, llm_executor) pydict"
  xr_escalated :: "(string, llm_executor) pydict"

definition missing_capabilities :: "agent_profile list \<Rightarrow> capability list" where
  "missing_capabilities profiles =
     filter (\<lambda>c. \<not> (\<exists>p \<in> set profiles. c \<in> set (ap_capabilities p))) all_capabilities"

definition new_registry :: "agent_profile list \<Rightarrow> executor_registry result" where
  "new_registry given =
     (let profiles = sort_key ap_cost_level (if given = [] then default_profiles else given)
      in if missing_capabilities profiles \<noteq> []
         then Inl (Exc ValueError ''Nenhum perfil cobre as capabilities'')
         else Inr \<lparr>xr_profiles = profiles,
                   xr_executors = dict_of (map (\<lambda>p. (ap_name p,
                      \<lparr>lx_agent_name = ap_name p, lx_tier = ap_tier p\<rparr>)) profiles),
                   xr_escalated = dict_of (map (\<lambda>p. (ap_name p,
                      \<lparr>lx_agent_name = ap_name p, lx_tier = escalate (ap_tier p)\<rparr>)) profiles)\<rparr>)"

definition profile_for_task :: "executor_registry \<Rightarrow> agent_task \<Rightarrow> agent_profile result" where
  "profile_for_task reg t =
     (case List.find (\<lambda>p. t_capability t \<in> set (ap_capabilities p)) (xr_profiles reg) of
        Some p \<Rightarrow> Inr p
      | None \<Rightarrow> Inl (Exc LookupError ''Sem executor para a capability''))"

definition select_executor :: "executor_registry \<Rightarrow> agent_task \<Rightarrow> llm_executor result" where
  "select_executor reg t =
     (case profile_for_task reg t of
        Inl e \<Rightarrow> Inl e
      | Inr p \<Rightarrow>
         (case dict_get (if t_tier_escalated t then xr_escalated reg else xr_executors reg) (ap_name p) of
            Some x \<Rightarrow> Inr x
          | None \<Rightarrow> Inl (Exc LookupError (ap_name p))))"

definition dispatch_policy :: "executor_registry \<Rightarrow> agent_task \<Rightarrow> (string \<times> int) result" where
  "dispatch_policy reg t =
     (case profile_for_task reg t of
        Inl e \<Rightarrow> Inl e
      | Inr p \<Rightarrow> Inr (ap_name p, ap_max_parallel_tasks p))"

section \<open>The interface of a registry\<close>

text \<open>What the execution phase relies on: in a well-formed registry every task has a policy
  with room for at least one task, and an executor.\<close>

locale dispatch_registry =
  fixes policy :: "'r \<Rightarrow> agent_task \<Rightarrow> (string \<times> int) result"
    and pick :: "'r \<Rightarrow> agent_task \<Rightarrow> 'x result"
    and reg_ok :: "'r \<Rightarrow> bool"
  assumes policy_total: "reg_ok r \<Longrightarrow> \<exists>name limit. policy r t = Inr (name, limit) \<and> 1 \<le> limit"
    and pick_total: "reg_ok r \<Longrightarrow> \<exists>x. pick r t = Inr x"
begin

lemma policy_no_exception: "reg_ok r \<Longrightarrow> policy r t \<noteq> Inl e"
  using policy_total [of r t] by auto

end

section \<open>This registry provides it\<close>

text \<open>\<open>ap_max_parallel_tasks >= 1\<close> is a pydantic constraint of the profile.\<close>

definition registry_ok :: "executor_registry \<Rightarrow> bool" where
  "registry_ok reg \<longleftrightarrow>
     (\<exists>given. new_registry given = Inr reg \<and> (\<forall>p \<in> set given. 1 \<le> ap_max_parallel_tasks p))"

lemma find_Some_conv:
  "List.find Q xs = Some x \<Longrightarrow> \<exists>ys zs. xs = ys @ x # zs \<and> Q x \<and> (\<forall>y \<in> set ys. \<not> Q y)"
proof (induction xs)
  case (Cons a xs)
  show ?case
  proof (cases "Q a")
    case True
    with Cons.prems show ?thesis by (intro exI [of _ "[]"] exI [of _ xs]) auto
  next
    case False
    with Cons.prems Cons.IH obtain ys zs where "xs = ys @ x # zs" "Q x" "\<forall>y \<in> set ys. \<not> Q y" by auto
    with False show ?thesis by (intro exI [of _ "a # ys"] exI [of _ zs]) auto
  qed
qed simp

lemma profile_for_task_total:
  assumes "new_registry given = Inr reg"
  shows "\<exists>p. profile_for_task reg t = Inr p \<and> p \<in> set (xr_profiles reg)
     \<and> t_capability t \<in> set (ap_capabilities p)
     \<and> (\<forall>p' \<in> set (xr_profiles reg). t_capability t \<in> set (ap_capabilities p') \<longrightarrow>
          ap_cost_level p \<le> ap_cost_level p')"
proof -
  let ?Q = "\<lambda>p. t_capability t \<in> set (ap_capabilities p)"
  from assms have cov: "missing_capabilities (xr_profiles reg) = []"
    and sorted: "sorted (map ap_cost_level (xr_profiles reg))"
    by (auto simp: new_registry_def Let_def split: if_splits)
  have "t_capability t \<in> set all_capabilities" by (simp add: all_capabilities_complete)
  with cov have "\<exists>p \<in> set (xr_profiles reg). ?Q p"
    by (auto simp: missing_capabilities_def filter_empty_conv)
  then obtain p where p: "List.find ?Q (xr_profiles reg) = Some p"
    by (metis find_None_iff not_Some_eq)
  from find_Some_conv [OF p] obtain ys zs where split: "xr_profiles reg = ys @ p # zs" "?Q p"
      "\<forall>y \<in> set ys. \<not> ?Q y" by blast
  with sorted have "\<forall>p' \<in> set (xr_profiles reg). ?Q p' \<longrightarrow> ap_cost_level p \<le> ap_cost_level p'"
    by (auto simp: sorted_append)
  with p split show ?thesis by (auto simp: profile_for_task_def)
qed

lemma new_registry_tables:
  assumes "new_registry given = Inr reg" and "p \<in> set (xr_profiles reg)"
  shows "\<exists>p' \<in> set (xr_profiles reg). ap_name p' = ap_name p
    \<and> map_of (xr_executors reg) (ap_name p) = Some \<lparr>lx_agent_name = ap_name p, lx_tier = ap_tier p'\<rparr>
    \<and> map_of (xr_escalated reg) (ap_name p) = Some \<lparr>lx_agent_name = ap_name p, lx_tier = escalate (ap_tier p')\<rparr>"
proof -
  let ?ps = "xr_profiles reg"
  have last: "\<exists>p' \<in> set ps. ap_name p' = ap_name p
      \<and> map_of (map (\<lambda>p. (ap_name p, f p)) ps) (ap_name p) = Some (f p')
      \<and> map_of (map (\<lambda>p. (ap_name p, g p)) ps) (ap_name p) = Some (g p')"
    if "p \<in> set ps" for ps and f g :: "agent_profile \<Rightarrow> llm_executor"
    using that by (induction ps) auto
  from assms(1) have tables:
    "xr_executors reg = dict_of (map (\<lambda>p. (ap_name p, \<lparr>lx_agent_name = ap_name p, lx_tier = ap_tier p\<rparr>)) ?ps)"
    "xr_escalated reg = dict_of (map (\<lambda>p. (ap_name p, \<lparr>lx_agent_name = ap_name p, lx_tier = escalate (ap_tier p)\<rparr>)) ?ps)"
    by (auto simp: new_registry_def Let_def split: if_splits)
  from last [of "rev ?ps" "\<lambda>p. \<lparr>lx_agent_name = ap_name p, lx_tier = ap_tier p\<rparr>"
      "\<lambda>p. \<lparr>lx_agent_name = ap_name p, lx_tier = escalate (ap_tier p)\<rparr>"] assms(2)
  show ?thesis by (auto simp: tables map_of_dict_of rev_map)
qed

lemma select_executor_total:
  assumes "new_registry given = Inr reg"
  shows "\<exists>p p'. profile_for_task reg t = Inr p \<and> p' \<in> set (xr_profiles reg) \<and> ap_name p' = ap_name p
    \<and> select_executor reg t = Inr \<lparr>lx_agent_name = ap_name p,
         lx_tier = (if t_tier_escalated t then escalate (ap_tier p') else ap_tier p')\<rparr>"
proof -
  from profile_for_task_total [OF assms, of t] obtain p
    where p: "profile_for_task reg t = Inr p" "p \<in> set (xr_profiles reg)" by blast
  from new_registry_tables [OF assms p(2)] p show ?thesis
    by (auto simp: select_executor_def)
qed

lemma registry_ok_policy:
  assumes "registry_ok reg"
  shows "\<exists>name limit. dispatch_policy reg t = Inr (name, limit) \<and> 1 \<le> limit"
proof -
  from assms obtain given where g: "new_registry given = Inr reg"
      "\<forall>p \<in> set given. 1 \<le> ap_max_parallel_tasks p" by (auto simp: registry_ok_def)
  then have "set (xr_profiles reg) = set (if given = [] then default_profiles else given)"
    by (auto simp: new_registry_def Let_def split: if_splits)
  then have "\<forall>p \<in> set (xr_profiles reg). 1 \<le> ap_max_parallel_tasks p"
    using g(2) by (auto simp: default_profiles_def split: if_splits)
  with profile_for_task_total [OF g(1), of t] show ?thesis
    by (auto simp: dispatch_policy_def)
qed

interpretation executors: dispatch_registry dispatch_policy select_executor registry_ok
proof unfold_locales
  show "\<exists>name limit. dispatch_policy r t = Inr (name, limit) \<and> 1 \<le> limit" if "registry_ok r" for r t
    using that by (rule registry_ok_policy)
  show "\<exists>x. select_executor r t = Inr x" if "registry_ok r" for r t
    using that select_executor_total by (fastforce simp: registry_ok_def)
qed

section \<open>Properties\<close>

text \<open>A registry that passed its coverage check serves every task: it picks a profile that
  covers the task's capability and is the cheapest such profile; the executor belongs to that
  profile's agent and runs at the profile's tier, one tier up (at most STRONG) exactly when the
  advisor has escalated the task.\<close>

lemma registry_selects_cheapest:
  assumes "new_registry given = Inr reg"
    and unique_names: "distinct (map ap_name (xr_profiles reg))"
  shows "\<exists>p \<in> set (xr_profiles reg). t_capability t \<in> set (ap_capabilities p)
    \<and> (\<forall>p' \<in> set (xr_profiles reg). t_capability t \<in> set (ap_capabilities p') \<longrightarrow>
          ap_cost_level p \<le> ap_cost_level p')
    \<and> (\<exists>x. select_executor reg t = Inr x \<and> lx_agent_name x = ap_name p
        \<and> tier_int (lx_tier x) =
            (if t_tier_escalated t then min (tier_int (ap_tier p) + 1) 3 else tier_int (ap_tier p)))"
proof -
  from profile_for_task_total [OF assms(1), of t] obtain p where p:
      "profile_for_task reg t = Inr p" "p \<in> set (xr_profiles reg)"
      "t_capability t \<in> set (ap_capabilities p)"
      "\<forall>p' \<in> set (xr_profiles reg). t_capability t \<in> set (ap_capabilities p') \<longrightarrow>
          ap_cost_level p \<le> ap_cost_level p'" by blast
  from select_executor_total [OF assms(1), of t] p(1) obtain p'
    where p': "p' \<in> set (xr_profiles reg)" "ap_name p' = ap_name p"
      and sel: "select_executor reg t = Inr \<lparr>lx_agent_name = ap_name p,
         lx_tier = (if t_tier_escalated t then escalate (ap_tier p') else ap_tier p')\<rparr>"
    by auto
  from unique_names p' p(2) have "p' = p" by (metis distinct_map inj_onD)
  with sel have "\<exists>x. select_executor reg t = Inr x \<and> lx_agent_name x = ap_name p
        \<and> tier_int (lx_tier x) =
            (if t_tier_escalated t then min (tier_int (ap_tier p) + 1) 3 else tier_int (ap_tier p))"
    by (simp add: escalate_tier_int)
  with p(2,3,4) show ?thesis by blast
qed

definition default_registry :: executor_registry where
  "default_registry = (case new_registry [] of Inr reg \<Rightarrow> reg | Inl e \<Rightarrow>
     \<lparr>xr_profiles = [], xr_executors = [], xr_escalated = []\<rparr>)"

lemma default_registry_new: "new_registry [] = Inr default_registry"
  by (simp add: default_registry_def new_registry_def missing_capabilities_def all_capabilities_def
      default_profiles_def Let_def)

lemma registry_selects_cheapest_witness:
  "\<exists>p \<in> set (xr_profiles default_registry). RESEARCH \<in> set (ap_capabilities p)
    \<and> (\<exists>x. select_executor default_registry (sample_task 1 PENDING) = Inr x
         \<and> lx_agent_name x = ap_name p)"
proof -
  have "distinct (map ap_name (xr_profiles default_registry))"
    by (simp add: default_registry_def new_registry_def missing_capabilities_def all_capabilities_def
        default_profiles_def Let_def)
  from registry_selects_cheapest [OF default_registry_new this, of "sample_task 1 PENDING"]
  show ?thesis by (auto simp: sample_task_def)
qed

end
