(* ===== verification/Validation.thy ===== *)
theory Validation imports Task_Model begin

text \<open>
  Objective validation signals (\<open>app/agents/validation.py\<close>): the signals read from the sandbox
  report of the current attempt, the text that feeds them back to the executor, and the
  pipeline of configured validators. A validator is an external command behind a protocol: a
  function from the task to a signal or the exception it raises. Pydantic's parsing of a
  dictionary into a signal is the parameter \<open>parse_signal\<close>.
\<close>

section \<open>Signals\<close>

record validation_signal =
  vs_name :: string
  vs_passed :: "bool option"
  vs_details :: string
  vs_command :: "string option"
  vs_exit_code :: "int option"
  vs_stdout :: string
  vs_stderr :: string

definition plain_signal :: "string \<Rightarrow> bool \<Rightarrow> string \<Rightarrow> validation_signal" where
  "plain_signal name ok details =
     \<lparr>vs_name = name, vs_passed = Some ok, vs_details = details, vs_command = None,
      vs_exit_code = None, vs_stdout = [], vs_stderr = []\<rparr>"

text \<open>\<open>phase.error_code or phase.outcome.value\<close>.\<close>

definition phase_detail :: "build_phase_result \<Rightarrow> string" where
  "phase_detail p = or_str (ph_error_code p) (outcome_value (ph_outcome p))"

definition phase_ok :: "build_phase_result \<Rightarrow> bool" where
  "phase_ok p \<longleftrightarrow> ph_outcome p = SUCCESS \<and> ph_exit_code p = Some 0 \<and> \<not> ph_cleanup_failed p
     \<and> \<not> truthy_str (ph_error_code p)"

definition phases_by_name :: "build_run_result option \<Rightarrow> (string, build_phase_result) pydict" where
  "phases_by_name report =
     (case report of None \<Rightarrow> []
      | Some r \<Rightarrow> dict_of (map (\<lambda>p. (phase_value (ph_phase p), p)) (br_phases r)))"

definition failed_phase_names :: "(string, build_phase_result) pydict \<Rightarrow> string list" where
  "failed_phase_names phases =
     map (\<lambda>p. phase_value (ph_phase p)) (filter (\<lambda>p. \<not> phase_ok p) (map snd phases))"

definition sandbox_detail :: "build_run_result option \<Rightarrow> (string, build_phase_result) pydict \<Rightarrow> string" where
  "sandbox_detail report phases =
     (case report of
        None \<Rightarrow> ''relatorio sandbox ausente na tentativa atual''
      | Some r \<Rightarrow>
          if br_phases r = [] then ''relatorio sandbox sem fases executadas''
          else if length phases \<noteq> length (br_phases r) then ''relatorio sandbox contem fases duplicadas''
          else if failed_phase_names phases \<noteq> []
          then ''fases sandbox sem sucesso: '' @ join '', '' (failed_phase_names phases)
          else if (\<exists>a. br_architecture r = Some a \<and> \<not> architecture_passed a)
          then ''arquitetura reprovada no sandbox''
          else if (\<exists>a. br_acceptance r = Some a \<and> \<not> report_passed a)
          then ''aceitacao independente reprovada no sandbox''
          else or_str (br_error_code r) (outcome_value (br_outcome r)))"

definition sandbox_passed :: "build_run_result option \<Rightarrow> (string, build_phase_result) pydict \<Rightarrow> bool" where
  "sandbox_passed report phases \<longleftrightarrow>
     (case report of
        None \<Rightarrow> False
      | Some r \<Rightarrow> br_outcome r = SUCCESS \<and> \<not> truthy_str (br_error_code r) \<and> br_phases r \<noteq> []
          \<and> length phases = length (br_phases r) \<and> failed_phase_names phases = []
          \<and> (case br_architecture r of None \<Rightarrow> True | Some a \<Rightarrow> architecture_passed a)
          \<and> (case br_acceptance r of None \<Rightarrow> True | Some a \<Rightarrow> report_passed a))"

definition phase_signal_table :: "(criterion_kind \<times> string \<times> string) list" where
  "phase_signal_table =
     [(TESTS_PASS, ''test'', ''pytest''), (LINT_PASS, ''lint'', ''ruff''), (TYPES_PASS, ''types'', ''mypy'')]"

text \<open>The signal of one row of the table, when there is one.\<close>

definition phase_signal ::
  "criterion_kind set \<Rightarrow> (string, build_phase_result) pydict \<Rightarrow> criterion_kind \<times> string \<times> string
     \<Rightarrow> validation_signal option" where
  "phase_signal kinds phases row =
     (case row of (kind, phase_name, signal_name) \<Rightarrow>
        case dict_get phases phase_name of
          None \<Rightarrow>
            if kind \<in> kinds
            then Some (plain_signal signal_name False
                   (''fase sandbox `'' @ phase_name @ ''` ausente na tentativa atual''))
            else None
        | Some p \<Rightarrow>
            Some \<lparr>vs_name = signal_name, vs_passed = Some (phase_ok p),
                  vs_details = ''sandbox:'' @ phase_name @ '': '' @ phase_detail p,
                  vs_command = Some (join '' '' (ph_command p)), vs_exit_code = ph_exit_code p,
                  vs_stdout = ph_stdout p, vs_stderr = ph_stderr p\<rparr>)"

text \<open>\<open>task.attempts[-1].build_validation if task.attempts else None\<close>.\<close>

definition current_build_validation :: "agent_task \<Rightarrow> build_run_result option" where
  "current_build_validation t =
     (case last_opt (t_attempts t) of None \<Rightarrow> None | Some a \<Rightarrow> at_build_validation a)"

definition build_validation_signals :: "agent_task \<Rightarrow> bool \<Rightarrow> validation_signal list" where
  "build_validation_signals task required =
     (let report = current_build_validation task in
      if report = None \<and> \<not> required then []
      else
        let kinds = set (map cr_kind (t_acceptance_criteria task));
            phases = phases_by_name report
        in plain_signal ''sandbox'' (sandbox_passed report phases) (sandbox_detail report phases)
           # List.map_filter (phase_signal kinds phases) phase_signal_table)"

section \<open>Feedback text\<close>

fun words_aux :: "string \<Rightarrow> string \<Rightarrow> string list" where
  "words_aux acc [] = (if acc = [] then [] else [rev acc])"
| "words_aux acc (c # s) =
     (if is_space c then (if acc = [] then words_aux [] s else rev acc # words_aux [] s)
      else words_aux (c # acc) s)"

text \<open>\<open>value.split()\<close> and \<open>s[:i]\<close>.\<close>

definition py_split :: "string \<Rightarrow> string list" where
  "py_split s = words_aux [] s"

definition slice_to :: "int \<Rightarrow> 'a list \<Rightarrow> 'a list" where
  "slice_to i s = (if i \<ge> 0 then take (nat i) s else take (length s - nat (- i)) s)"

definition compact_text :: "string \<Rightarrow> int \<Rightarrow> string" where
  "compact_text value max_chars =
     (let compact = join '' '' (py_split value) in
      if int (length compact) \<le> max_chars then compact
      else slice_to (max_chars - 3) compact @ ''...'')"

definition signal_lines :: "int \<Rightarrow> validation_signal \<Rightarrow> string list" where
  "signal_lines max_chars s =
     (let status = (if vs_passed s = Some True then ''passed''
                    else if vs_passed s = Some False then ''failed'' else ''skipped'');
          header = ''- '' @ vs_name s @ '': '' @ status
            @ (case vs_exit_code s of None \<Rightarrow> [] | Some c \<Rightarrow> '' (exit_code='' @ show_int c @ '')'')
      in [header]
         @ (if truthy_str (vs_command s)
            then [''  command: '' @ compact_text (or_str (vs_command s) []) max_chars] else [])
         @ (if strip (vs_details s) \<noteq> [] then [''  details: '' @ compact_text (vs_details s) max_chars] else [])
         @ (if strip (vs_stdout s) \<noteq> [] then [''  stdout: '' @ compact_text (vs_stdout s) max_chars] else [])
         @ (if strip (vs_stderr s) \<noteq> [] then [''  stderr: '' @ compact_text (vs_stderr s) max_chars] else []))"

text \<open>An item that is neither a signal nor a dictionary is skipped; a dictionary that pydantic
  rejects raises.\<close>

definition coerce_validation_signal ::
  "((string \<times> pyval) list \<Rightarrow> validation_signal result) \<Rightarrow> validation_signal + pyval
     \<Rightarrow> validation_signal option result" where
  "coerce_validation_signal parse_signal item =
     (case item of
        Inl s \<Rightarrow> Inr (Some s)
      | Inr v \<Rightarrow> (case as_dict v of
                  None \<Rightarrow> Inr None
                | Some d \<Rightarrow> (case parse_signal d of Inl e \<Rightarrow> Inl e | Inr s \<Rightarrow> Inr (Some s))))"

fun feedback_lines ::
  "((string \<times> pyval) list \<Rightarrow> validation_signal result) \<Rightarrow> int \<Rightarrow> (validation_signal + pyval) list
     \<Rightarrow> string list result" where
  "feedback_lines parse_signal n [] = Inr []"
| "feedback_lines parse_signal n (item # items) =
     (case coerce_validation_signal parse_signal item of
        Inl e \<Rightarrow> Inl e
      | Inr found \<Rightarrow>
          (case feedback_lines parse_signal n items of
             Inl e \<Rightarrow> Inl e
           | Inr rest \<Rightarrow> Inr ((case found of None \<Rightarrow> [] | Some s \<Rightarrow> signal_lines n s) @ rest)))"

text \<open>\<open>None\<close> stands for a feedback object that is not a list.\<close>

definition format_validation_feedback ::
  "((string \<times> pyval) list \<Rightarrow> validation_signal result) \<Rightarrow> int \<Rightarrow> (validation_signal + pyval) list option
     \<Rightarrow> string result" where
  "format_validation_feedback parse_signal max_field_chars feedback =
     (case feedback of
        None \<Rightarrow> Inr []
      | Some items \<Rightarrow>
          (case feedback_lines parse_signal max_field_chars items of
             Inl e \<Rightarrow> Inl e
           | Inr lines \<Rightarrow> Inr (join [CHR 0x0A] lines)))"

section \<open>The pipeline of validators\<close>

record objective_validator =
  ov_name :: string
  ov_run :: "agent_task \<Rightarrow> validation_signal result"

record validation_pipeline =
  vp_by_name :: "(string, objective_validator) pydict"
  vp_default_order :: "string list"
  vp_capability_pipelines :: "(capability, string list) pydict"

definition new_pipeline ::
  "objective_validator list \<Rightarrow> (capability, string list) pydict option \<Rightarrow> validation_pipeline" where
  "new_pipeline validators capability_pipelines =
     (let by_name = dict_of (map (\<lambda>v. (ov_name v, v)) validators)
      in \<lparr>vp_by_name = by_name, vp_default_order = map fst by_name,
          vp_capability_pipelines = (case capability_pipelines of None \<Rightarrow> [] | Some d \<Rightarrow> d)\<rparr>)"

definition validators_for_capability ::
  "validation_pipeline \<Rightarrow> capability \<Rightarrow> objective_validator list" where
  "validators_for_capability p c =
     List.map_filter (dict_get (vp_by_name p))
       (dict_get_or (vp_capability_pipelines p) c (vp_default_order p))"

fun run_validators :: "objective_validator list \<Rightarrow> agent_task \<Rightarrow> validation_signal list result" where
  "run_validators [] task = Inr []"
| "run_validators (v # vs) task =
     (case ov_run v task of
        Inl e \<Rightarrow> Inl e
      | Inr s \<Rightarrow> (case run_validators vs task of Inl e \<Rightarrow> Inl e | Inr ss \<Rightarrow> Inr (s # ss)))"

definition pipeline_validate :: "validation_pipeline \<Rightarrow> agent_task \<Rightarrow> validation_signal list result" where
  "pipeline_validate p task = run_validators (validators_for_capability p (t_capability task)) task"

section \<open>The sandbox signals fail closed\<close>

lemma phase_value_inject [simp]: "phase_value a = phase_value b \<longleftrightarrow> a = b"
  by (cases a; cases b) simp_all

lemma sandbox_passed_phases:
  assumes "sandbox_passed (Some r) (phases_by_name (Some r))"
  shows "distinct (map ph_phase (br_phases r))" and "\<forall>p \<in> set (br_phases r). phase_ok p"
    and "phases_by_name (Some r) = map (\<lambda>p. (phase_value (ph_phase p), p)) (br_phases r)"
proof -
  let ?ps = "map (\<lambda>p. (phase_value (ph_phase p), p)) (br_phases r)"
  have len: "length (dict_of ?ps) = length ?ps"
    using assms by (simp add: sandbox_passed_def phases_by_name_def)
  from dict_of_same_length(1) [OF len] have "distinct (map phase_value (map ph_phase (br_phases r)))"
    by (simp add: comp_def)
  then show "distinct (map ph_phase (br_phases r))" by (metis distinct_map)
  show eq: "phases_by_name (Some r) = ?ps"
    using dict_of_same_length(2) [OF len] by (simp add: phases_by_name_def)
  show "\<forall>p \<in> set (br_phases r). phase_ok p"
    using assms by (simp add: sandbox_passed_def eq failed_phase_names_def comp_def filter_empty_conv)
qed

text \<open>Sandbox evidence fails closed: when a report is required (or present) and none of the
  signals read from the current attempt is a failure, that attempt has a successful report with at
  least one phase, no phase twice, every phase successful with exit code 0, architecture and
  acceptance passed where reported, and a test, lint or types phase behind every criterion of
  that kind.\<close>

lemma sandbox_signals_fail_closed:
  assumes "required \<or> current_build_validation task \<noteq> None"
    and "\<forall>s \<in> set (build_validation_signals task required). vs_passed s \<noteq> Some False"
  shows "\<exists>r. current_build_validation task = Some r \<and> br_outcome r = SUCCESS
    \<and> br_phases r \<noteq> [] \<and> distinct (map ph_phase (br_phases r))
    \<and> (\<forall>p \<in> set (br_phases r). phase_ok p)
    \<and> (\<forall>a. br_architecture r = Some a \<longrightarrow> architecture_passed a)
    \<and> (\<forall>a. br_acceptance r = Some a \<longrightarrow> report_passed a)
    \<and> (\<forall>(kind, phase, name) \<in> set phase_signal_table.
         kind \<in> cr_kind ` set (t_acceptance_criteria task)
         \<longrightarrow> phase \<in> (phase_value \<circ> ph_phase) ` set (br_phases r))"
proof -
  let ?report = "current_build_validation task" and ?kinds = "set (map cr_kind (t_acceptance_criteria task))"
  let ?phases = "phases_by_name ?report"
  have signals: "build_validation_signals task required =
      plain_signal ''sandbox'' (sandbox_passed ?report ?phases) (sandbox_detail ?report ?phases)
      # List.map_filter (phase_signal ?kinds ?phases) phase_signal_table"
    using assms(1) by (auto simp: build_validation_signals_def Let_def)
  have ok: "sandbox_passed ?report ?phases"
    using assms(2) by (simp add: signals plain_signal_def)
  then obtain r where r: "?report = Some r" by (auto simp: sandbox_passed_def split: option.splits)
  note phases = sandbox_passed_phases [OF ok [unfolded r]]
  have rows: "vs_passed s \<noteq> Some False"
    if "row \<in> set phase_signal_table" "phase_signal ?kinds ?phases row = Some s" for row s
  proof -
    have "s \<in> set (List.map_filter (phase_signal ?kinds ?phases) phase_signal_table)"
      using that by (force simp: List.map_filter_def)
    then show ?thesis using assms(2) by (simp add: signals)
  qed
  have present: "phase \<in> (phase_value \<circ> ph_phase) ` set (br_phases r)"
    if row: "(kind, phase, name) \<in> set phase_signal_table" and kind: "kind \<in> ?kinds" for kind phase name
  proof -
    have "dict_get ?phases phase \<noteq> None"
    proof
      assume "dict_get ?phases phase = None"
      then obtain s where "phase_signal ?kinds ?phases (kind, phase, name) = Some s" "vs_passed s = Some False"
        using kind by (simp add: phase_signal_def plain_signal_def)
      then show False using rows [OF row] by blast
    qed
    then obtain p where "dict_get (map (\<lambda>p. (phase_value (ph_phase p), p)) (br_phases r)) phase = Some p"
      by (auto simp: r phases(3))
    from map_of_SomeD [OF this] show ?thesis by auto
  qed
  from ok have "br_outcome r = SUCCESS" "br_phases r \<noteq> []"
      "\<forall>a. br_architecture r = Some a \<longrightarrow> architecture_passed a"
      "\<forall>a. br_acceptance r = Some a \<longrightarrow> report_passed a"
    by (simp_all add: r sandbox_passed_def split: option.splits)
  moreover have "\<forall>(kind, phase, name) \<in> set phase_signal_table.
      kind \<in> cr_kind ` set (t_acceptance_criteria task)
      \<longrightarrow> phase \<in> (phase_value \<circ> ph_phase) ` set (br_phases r)"
    using present by auto
  ultimately show ?thesis using r phases(1,2) by blast
qed

definition sample_phase :: "build_phase_name \<Rightarrow> build_outcome \<Rightarrow> build_phase_result" where
  "sample_phase name outcome =
     \<lparr>ph_phase = name, ph_outcome = outcome, ph_command = [''make''], ph_image = ''img'', ph_cwd = ''/'',
      ph_duration_seconds = 1, ph_exit_code = (if outcome = SUCCESS then Some 0 else Some 1),
      ph_stdout = [], ph_stdout_sha256 = None, ph_stderr = [], ph_output_truncated = False,
      ph_network_enabled = False, ph_workspace_read_only = True, ph_cleanup_failed = False,
      ph_container_name = None, ph_error_code = None\<rparr>"

definition sample_report :: "build_outcome \<Rightarrow> build_phase_result list \<Rightarrow> build_run_result" where
  "sample_report outcome phases =
     \<lparr>br_profile_name = Some ''p'', br_profile_digest = None, br_outcome = outcome,
      br_phases = phases, br_error_code = None, br_architecture = None, br_acceptance = None\<rparr>"

definition sample_attempt :: "build_run_result option \<Rightarrow> task_attempt" where
  "sample_attempt report =
     \<lparr>at_attempt_number = 1, at_agent_name = ''a'', at_model = ''m'', at_started_at = 0,
      at_finished_at = Some 1, at_outcome = Some RUNNING, at_failure_reason = None,
      at_tokens_used = 10, at_cost_usd = 1, at_trace_id = None, at_operational_summary = None,
      at_factory_stage = None, at_build_strategy = None, at_build_validation = report\<rparr>"

lemma sandbox_signals_fail_closed_witness:
  "\<exists>r. current_build_validation ((sample_task 1 RUNNING)
        \<lparr>t_attempts := [sample_attempt (Some (sample_report SUCCESS [sample_phase TEST SUCCESS]))]\<rparr>) = Some r
     \<and> (\<forall>p \<in> set (br_phases r). phase_ok p)"
proof -
  let ?t = "(sample_task 1 RUNNING)
      \<lparr>t_attempts := [sample_attempt (Some (sample_report SUCCESS [sample_phase TEST SUCCESS]))]\<rparr>"
  have "\<forall>s \<in> set (build_validation_signals ?t True). vs_passed s \<noteq> Some False"
    by (simp add: build_validation_signals_def current_build_validation_def last_opt_def sample_task_def
        sample_attempt_def sample_report_def sample_phase_def phases_by_name_def dict_of_def
        sandbox_passed_def failed_phase_names_def phase_ok_def truthy_str_def plain_signal_def
        phase_signal_table_def phase_signal_def map_filter_simps criterion_of_text_def
        infer_criterion_kind_def str_lower_def lower_char_def starts_with_def Let_def)
  from sandbox_signals_fail_closed [OF _ this] show ?thesis by auto
qed

end
