(* ===== verification/Criteria.thy ===== *)
theory Criteria imports Validation "HOL-Library.List_Lexorder" "HOL-Library.Char_ord" begin

text \<open>
  Grounding and objective criteria: the evidence blocks of the workflow context and the check of
  the citations against them (\<open>app/agents/grounding.py\<close>), and the deterministic verdict on each
  typed acceptance criterion (\<open>app/agents/criteria.py\<close>). The standard library's regular
  expressions and globs, and the text of a dynamic value that is neither \<open>None\<close>, a string, a
  boolean nor an integer, are the fields of \<open>py_env\<close>.
\<close>

section \<open>Library functions the verdicts use\<close>

text \<open>\<open>pe_search ignorecase pattern text\<close> is \<open>re.search(..., MULTILINE [| IGNORECASE]) is not None\<close>;
  \<open>Inl\<close> is \<open>re.error\<close>.\<close>

record py_env =
  pe_search :: "bool \<Rightarrow> string \<Rightarrow> string \<Rightarrow> string + bool"
  pe_fnmatch :: "string \<Rightarrow> string \<Rightarrow> bool"
  pe_repr :: "pyval \<Rightarrow> string"

definition py_str :: "py_env \<Rightarrow> pyval \<Rightarrow> string" where
  "py_str env v =
     (case v of PStr s \<Rightarrow> s | PNone \<Rightarrow> ''None'' | PBool b \<Rightarrow> show_bool b | PInt i \<Rightarrow> show_int i
      | _ \<Rightarrow> pe_repr env v)"

section \<open>Grounding\<close>

type_synonym context_dict = "(string \<times> pyval) list"

definition evidence_block :: "context_dict \<Rightarrow> string \<Rightarrow> (string \<times> pyval) list option" where
  "evidence_block ctx key =
     (case as_dict (pget ctx key) of
        None \<Rightarrow> None
      | Some block \<Rightarrow>
          (case as_list (pget block ''evidence'') of
             None \<Rightarrow> None
           | Some xs \<Rightarrow> if xs = [] then None else Some block))"

definition get_repository_grounding :: "context_dict \<Rightarrow> (string \<times> pyval) list option" where
  "get_repository_grounding ctx = evidence_block ctx ''repository_grounding''"

definition get_web_references :: "context_dict \<Rightarrow> (string \<times> pyval) list option" where
  "get_web_references ctx = evidence_block ctx ''web_references''"

definition evidence_blocks :: "context_dict \<Rightarrow> (string \<times> pyval) list list" where
  "evidence_blocks ctx =
     List.map_filter (\<lambda>b. b) [get_repository_grounding ctx, get_web_references ctx]"

definition evidence_items :: "(string \<times> pyval) list \<Rightarrow> (string \<times> (string \<times> pyval) list) list" where
  "evidence_items block =
     List.map_filter (\<lambda>item. case as_dict item of
          None \<Rightarrow> None
        | Some d \<Rightarrow> (case as_str (pget d ''id'') of None \<Rightarrow> None | Some i \<Rightarrow> Some (i, d)))
       (list_or_empty (pget block ''evidence''))"

definition get_evidence_index :: "context_dict \<Rightarrow> (string, (string \<times> pyval) list) pydict" where
  "get_evidence_index ctx = dict_of (concat (map evidence_items (evidence_blocks ctx)))"

definition grounding_required :: "context_dict \<Rightarrow> bool" where
  "grounding_required ctx \<longleftrightarrow>
     (\<exists>block \<in> set (evidence_blocks ctx). truthy (dict_get_or block ''require_citations'' (PBool True)))"

definition normalize_citations :: "pyval \<Rightarrow> string list" where
  "normalize_citations raw = unique (List.map_filter as_str (list_or_empty raw))"

definition validate_citations :: "context_dict \<Rightarrow> string list \<Rightarrow> string list option \<Rightarrow> string list" where
  "validate_citations ctx citations allowed_ids =
     (if \<not> grounding_required ctx then []
      else if citations = []
      then [''Resultado sem `citations`: cada afirmacao sobre o repositorio deve citar evidence_ids reais.'']
      else
        let unknown = filter (\<lambda>c. dict_get (get_evidence_index ctx) c = None) citations;
            out_of_scope = (case allowed_ids of
                              None \<Rightarrow> []
                            | Some ids \<Rightarrow> if ids = [] then [] else filter (\<lambda>c. c \<notin> set ids) citations)
        in (if unknown = [] then []
            else [''Resultado cita evidence_ids inexistentes no contexto: '' @ join '', '' (sort unknown)])
           @ (if out_of_scope = [] then []
              else [''Resultado cita evidencias fora do escopo da tarefa: '' @ join '', '' (sort out_of_scope)]))"

section \<open>Verdicts\<close>

record objective_verdict =
  vd_criterion :: acceptance_criterion
  vd_passed :: "bool option"
  vd_detail :: string
  vd_required_change :: "string option"

definition verdict_score :: "objective_verdict \<Rightarrow> rat" where
  "verdict_score v = (if vd_passed v = Some True then 1 else 0)"

definition undecided :: "acceptance_criterion \<Rightarrow> string \<Rightarrow> objective_verdict" where
  "undecided c detail = \<lparr>vd_criterion = c, vd_passed = None, vd_detail = detail, vd_required_change = None\<rparr>"

definition met :: "acceptance_criterion \<Rightarrow> string \<Rightarrow> objective_verdict" where
  "met c detail = \<lparr>vd_criterion = c, vd_passed = Some True, vd_detail = detail, vd_required_change = None\<rparr>"

definition unmet :: "acceptance_criterion \<Rightarrow> string \<Rightarrow> string option \<Rightarrow> objective_verdict" where
  "unmet c detail change =
     \<lparr>vd_criterion = c, vd_passed = Some False, vd_detail = detail, vd_required_change = change\<rparr>"

definition signal_by_kind :: "criterion_kind \<Rightarrow> string option" where
  "signal_by_kind k =
     (if k = TESTS_PASS then Some ''pytest'' else if k = LINT_PASS then Some ''ruff''
      else if k = TYPES_PASS then Some ''mypy'' else None)"

definition task_workspace :: "agent_task \<Rightarrow> (string \<times> pyval) list option" where
  "task_workspace t = as_dict (dict_field (t_result t) ''workspace'')"

definition diffs :: "(string \<times> pyval) list \<Rightarrow> (string \<times> pyval) list list" where
  "diffs workspace = List.map_filter as_dict (list_or_empty (pget workspace ''file_diffs''))"

definition changed_diffs :: "(string \<times> pyval) list \<Rightarrow> (string \<times> pyval) list list" where
  "changed_diffs workspace = filter (\<lambda>d. pget d ''changed'' = PBool True) (diffs workspace)"

definition published_content :: "(string \<times> pyval) list \<Rightarrow> string \<Rightarrow> string option" where
  "published_content workspace path =
     (case List.find (\<lambda>d. pget d ''path'' = PStr path)
             (List.map_filter as_dict (list_or_empty (pget workspace ''published_files''))) of
        None \<Rightarrow> None
      | Some d \<Rightarrow> as_str (pget d ''content''))"

definition is_creation :: "(string \<times> pyval) list \<Rightarrow> bool" where
  "is_creation d \<longleftrightarrow> pget d ''change_type'' = PStr ''created''
     \<and> dict_get_or d ''operation'' (PStr ''create'') = PStr ''create''"

text \<open>\<open>None\<close> when the result has no workspace runtime, or the runtime recorded no diffs.\<close>

definition recorded_workspace :: "agent_task \<Rightarrow> (string \<times> pyval) list option" where
  "recorded_workspace t =
     (case task_workspace t of
        None \<Rightarrow> None
      | Some ws \<Rightarrow> if map_of ws ''file_diffs'' = None then None else Some ws)"

definition no_existing_file_modified :: "agent_task \<Rightarrow> bool option" where
  "no_existing_file_modified t =
     (case recorded_workspace t of
        None \<Rightarrow> None
      | Some ws \<Rightarrow>
          if changed_diffs ws = [] then Some False
          else Some (\<forall>d \<in> set (changed_diffs ws). is_creation d))"

definition signal_verdict :: "acceptance_criterion \<Rightarrow> string \<Rightarrow> validation_signal option \<Rightarrow> objective_verdict" where
  "signal_verdict c name sig =
     (case sig of
        None \<Rightarrow> undecided c (''sinal `'' @ name @ ''` indisponivel (validador nao configurado).'')
      | Some s \<Rightarrow>
          (case vs_passed s of
             None \<Rightarrow> undecided c (''sinal `'' @ name @ ''` indisponivel (validador nao configurado).'')
           | Some True \<Rightarrow> met c (name @ '' passou.'')
           | Some False \<Rightarrow>
               (let detail = (if strip (vs_details s) \<noteq> [] then strip (vs_details s)
                              else ''exit_code='' @ (case vs_exit_code s of None \<Rightarrow> ''None'' | Some n \<Rightarrow> show_int n))
                in unmet c (name @ '' falhou: '' @ take 400 detail)
                     (Some (''Faca `'' @ name @ ''` passar: '' @ take 200 detail)))))"

definition citations_verdict :: "acceptance_criterion \<Rightarrow> agent_task \<Rightarrow> context_dict \<Rightarrow> objective_verdict" where
  "citations_verdict c t ctx =
     (if \<not> grounding_required ctx then undecided c ''sem grounding no contexto.''
      else
        let citations = normalize_citations (dict_field (t_result t) ''citations'');
            errors = validate_citations ctx citations (if t_evidence_ids t = [] then None else Some (t_evidence_ids t))
        in if errors \<noteq> []
           then unmet c (join ''; '' errors)
                  (Some ''Inclua `citations` com evidence_ids reais e no escopo da tarefa.'')
           else met c (''citations validas: ''
                  @ (if join '', '' citations = [] then ''nenhuma exigida'' else join '', '' citations)))"

definition diff_at :: "(string \<times> pyval) list list \<Rightarrow> string \<Rightarrow> (string \<times> pyval) list option" where
  "diff_at ds path = List.find (\<lambda>d. pget d ''path'' = PStr path) ds"

text \<open>\<open>entry.get('operation', entry.get('change_type'))\<close>.\<close>

definition diff_operation :: "(string \<times> pyval) list \<Rightarrow> pyval" where
  "diff_operation d = dict_get_or d ''operation'' (pget d ''change_type'')"

definition file_created :: "py_env \<Rightarrow> acceptance_criterion \<Rightarrow> (string \<times> pyval) list \<Rightarrow> objective_verdict" where
  "file_created env c ws =
     (let path = or_str (cr_path c) [] in
      case diff_at (diffs ws) path of
        None \<Rightarrow> unmet c (''`'' @ path @ ''` nao foi tocado pela tarefa.'')
                 (Some (''Crie o arquivo `'' @ path @ ''` (op=create).''))
      | Some d \<Rightarrow>
          if pget d ''change_type'' = PStr ''created'' then met c (''`'' @ path @ ''` criado.'')
          else unmet c (''`'' @ path @ ''` ja existia ('' @ py_str env (pget d ''change_type'')
                        @ ''), nao foi criado.'')
                 (Some (''`'' @ path @ ''` deveria ser um arquivo novo.'')))"

definition file_modified :: "acceptance_criterion \<Rightarrow> (string \<times> pyval) list \<Rightarrow> objective_verdict" where
  "file_modified c ws =
     (let path = or_str (cr_path c) [];
          change = (case diff_at (diffs ws) path of None \<Rightarrow> PNone | Some d \<Rightarrow> pget d ''change_type'')
      in if change = PStr ''modified'' then met c (''`'' @ path @ ''` alterado.'')
         else if change = PStr ''created''
         then unmet c (''`'' @ path @ ''` foi criado, mas o criterio exigia alterar o arquivo existente.'')
                (Some (''Altere `'' @ path @ ''` com op=replace em vez de recria-lo.''))
         else unmet c (''`'' @ path @ ''` nao foi alterado pela tarefa.'')
                (Some (''Altere `'' @ path @ ''` (op=replace no trecho pertinente).'')))"

definition file_unchanged :: "py_env \<Rightarrow> acceptance_criterion \<Rightarrow> (string \<times> pyval) list \<Rightarrow> objective_verdict" where
  "file_unchanged env c ws =
     (let path = or_str (cr_path c) [] in
      case diff_at (changed_diffs ws) path of
        None \<Rightarrow> met c (''`'' @ path @ ''` nao foi alterado.'')
      | Some d \<Rightarrow> unmet c (''`'' @ path @ ''` foi alterado ('' @ py_str env (diff_operation d) @ '').'')
                   (Some (''Nao altere `'' @ path @ ''`; desfaca as mudancas nesse arquivo.'')))"

definition only_creations ::
  "py_env \<Rightarrow> acceptance_criterion \<Rightarrow> agent_task \<Rightarrow> (string \<times> pyval) list \<Rightarrow> objective_verdict" where
  "only_creations env c t ws =
     (case no_existing_file_modified t of
        None \<Rightarrow> undecided c ''sem registro de mudancas.''
      | Some True \<Rightarrow> met c ''apenas arquivos novos foram criados.''
      | Some False \<Rightarrow>
          (let touched = map (\<lambda>d. py_str env (pget d ''path'') @ '' ('' @ py_str env (diff_operation d) @ '')'')
                 (filter (\<lambda>d. \<not> is_creation d) (changed_diffs ws))
           in unmet c (if touched \<noteq> [] then ''arquivos existentes alterados: '' @ join '', '' touched
                       else ''nenhuma mudanca registrada.'')
                (Some ''Restrinja a mudanca a arquivos novos; nao altere existentes.'')))"

definition changes_limited_to :: "py_env \<Rightarrow> acceptance_criterion \<Rightarrow> (string \<times> pyval) list \<Rightarrow> objective_verdict" where
  "changes_limited_to env c ws =
     (let allowed = cr_paths c;
          outside = filter (\<lambda>p. \<not> (\<exists>glob \<in> set allowed. pe_fnmatch env p glob))
            (map (\<lambda>d. py_str env (pget d ''path'')) (changed_diffs ws))
      in if outside \<noteq> []
         then unmet c (''mudancas fora do escopo permitido ('' @ join '', '' allowed @ ''): '' @ join '', '' outside)
                (Some (''Restrinja as mudancas a: '' @ join '', '' allowed @ ''.''))
         else met c (''mudancas restritas a '' @ join '', '' allowed @ ''.''))"

text \<open>\<open>str(result or "")\<close> for a result that is not a dictionary.\<close>

definition task_output_text :: "py_env \<Rightarrow> agent_task \<Rightarrow> string" where
  "task_output_text env t =
     (case as_dict (t_result t) of
        None \<Rightarrow> if truthy (t_result t) then py_str env (t_result t) else []
      | Some d \<Rightarrow>
          join [CHR 0x0A]
            ((case as_str (pget d ''summary'') of None \<Rightarrow> [] | Some s \<Rightarrow> [s])
             @ List.map_filter as_str (list_or_empty (pget d ''notes''))))"

text \<open>The verdict on a search: \<open>re.error\<close> is an unmet criterion with no instruction.\<close>

definition search_verdict ::
  "acceptance_criterion \<Rightarrow> string + bool \<Rightarrow> string \<Rightarrow> string \<Rightarrow> string \<Rightarrow> objective_verdict" where
  "search_verdict c found yes no change =
     (case found of
        Inl err \<Rightarrow> unmet c (''regex invalida no criterio: '' @ err) None
      | Inr b \<Rightarrow> if b then met c yes else unmet c no (Some change))"

definition output_verdict :: "py_env \<Rightarrow> acceptance_criterion \<Rightarrow> agent_task \<Rightarrow> objective_verdict" where
  "output_verdict env c t =
     (let text = task_output_text env t in
      if cr_kind c = OUTPUT_MIN_CHARS
      then
        let minimum = (case cr_min_chars c of None \<Rightarrow> 1 | Some n \<Rightarrow> if n = 0 then 1 else n);
            len = int (length (strip text))
        in if len \<ge> minimum
           then met c (''texto entregue com '' @ show_int len @ '' caracteres (minimo '' @ show_int minimum @ '').'')
           else unmet c (''texto entregue com '' @ show_int len @ '' caracteres; minimo exigido '' @ show_int minimum @ ''.'')
                  (Some (''Entregue em summary/notes um texto com pelo menos '' @ show_int minimum @ '' caracteres.''))
      else
        let pattern = or_str (cr_pattern c) []
        in search_verdict c (pe_search env True pattern text)
             (''texto entregue contem /'' @ pattern @ ''/.'')
             (''texto entregue (summary/notes) nao contem /'' @ pattern @ ''/.'')
             (''Inclua no texto entregue (summary/notes) o conteudo exigido: /'' @ pattern @ ''/.''))"

definition content_contains :: "py_env \<Rightarrow> acceptance_criterion \<Rightarrow> (string \<times> pyval) list \<Rightarrow> objective_verdict" where
  "content_contains env c ws =
     (let path = or_str (cr_path c) []; pattern = or_str (cr_pattern c) [] in
      case published_content ws path of
        None \<Rightarrow> unmet c (''`'' @ path @ ''` nao esta entre os arquivos publicados pela tarefa.'')
                 (Some (''Produza `'' @ path @ ''` contendo /'' @ pattern @ ''/.''))
      | Some content \<Rightarrow>
          search_verdict c (pe_search env False pattern content)
            (''`'' @ path @ ''` contem /'' @ pattern @ ''/.'')
            (''`'' @ path @ ''` nao contem /'' @ pattern @ ''/.'')
            (''Inclua em `'' @ path @ ''` o conteudo exigido: /'' @ pattern @ ''/.''))"

text \<open>The verdict on one criterion.\<close>

definition evaluate_criterion ::
  "py_env \<Rightarrow> agent_task \<Rightarrow> context_dict \<Rightarrow> (string, validation_signal) pydict \<Rightarrow> acceptance_criterion
     \<Rightarrow> objective_verdict" where
  "evaluate_criterion env t ctx signals c =
     (case signal_by_kind (cr_kind c) of
        Some name \<Rightarrow> signal_verdict c name (dict_get signals name)
      | None \<Rightarrow>
          if cr_kind c = CITATIONS_VALID then citations_verdict c t ctx
          else if cr_kind c = OUTPUT_CONTAINS \<or> cr_kind c = OUTPUT_MIN_CHARS then output_verdict env c t
          else
            (case recorded_workspace t of
               None \<Rightarrow> undecided c ''sem workspace runtime: nao ha registro do que a tarefa alterou.''
             | Some ws \<Rightarrow>
                 if cr_kind c = FILE_CREATED then file_created env c ws
                 else if cr_kind c = FILE_MODIFIED then file_modified c ws
                 else if cr_kind c = FILE_UNCHANGED then file_unchanged env c ws
                 else if cr_kind c = NO_EXISTING_FILE_MODIFIED then only_creations env c t ws
                 else if cr_kind c = CHANGES_LIMITED_TO then changes_limited_to env c ws
                 else if cr_kind c = CONTENT_CONTAINS then content_contains env c ws
                 else undecided c (''tipo '' @ kind_value (cr_kind c) @ '' sem avaliador.'')))"

definition evaluate_objective_criteria ::
  "py_env \<Rightarrow> agent_task \<Rightarrow> context_dict \<Rightarrow> (string, validation_signal) pydict \<Rightarrow> objective_verdict list" where
  "evaluate_objective_criteria env t ctx signals =
     map (evaluate_criterion env t ctx signals) (filter (\<lambda>c. is_objective (cr_kind c)) (t_acceptance_criteria t))"

section \<open>What a passed criterion shows\<close>

lemma verdict_passed_simps [simp]:
  "vd_passed (undecided c d) = None" "vd_passed (met c d) = Some True"
  "vd_passed (unmet c d x) = Some False"
  "vd_criterion (undecided c d) = c" "vd_criterion (met c d) = c" "vd_criterion (unmet c d x) = c"
  by (simp_all add: undecided_def met_def unmet_def)

lemma find_Some: "List.find P xs = Some x \<Longrightarrow> x \<in> set xs \<and> P x"
  by (induction xs) (auto split: if_splits)

lemma find_None: "List.find P xs = None \<Longrightarrow> x \<in> set xs \<Longrightarrow> \<not> P x"
  by (induction xs) (auto split: if_splits)

lemma search_verdict_passed:
  "vd_passed (search_verdict c found y n r) = Some True \<longleftrightarrow> found = Inr True"
  by (cases found) (simp_all add: search_verdict_def)

text \<open>The evaluator of a criterion about files.\<close>

lemma evaluate_file_kinds:
  assumes "recorded_workspace t = Some ws"
  shows "cr_kind c = FILE_CREATED \<Longrightarrow> evaluate_criterion env t ctx sigs c = file_created env c ws"
    and "cr_kind c = FILE_UNCHANGED \<Longrightarrow> evaluate_criterion env t ctx sigs c = file_unchanged env c ws"
    and "cr_kind c = NO_EXISTING_FILE_MODIFIED \<Longrightarrow> evaluate_criterion env t ctx sigs c = only_creations env c t ws"
    and "cr_kind c = CHANGES_LIMITED_TO \<Longrightarrow> evaluate_criterion env t ctx sigs c = changes_limited_to env c ws"
    and "cr_kind c = CONTENT_CONTAINS \<Longrightarrow> evaluate_criterion env t ctx sigs c = content_contains env c ws"
  using assms by (simp_all add: evaluate_criterion_def signal_by_kind_def)

lemma file_created_passed:
  "vd_passed (file_created env c ws) = Some True
     \<Longrightarrow> \<exists>d \<in> set (diffs ws). pget d ''path'' = PStr (or_str (cr_path c) []) \<and> pget d ''change_type'' = PStr ''created''"
  by (auto simp: file_created_def diff_at_def Let_def dest!: find_Some split: option.splits if_splits)

lemma file_unchanged_passed:
  "vd_passed (file_unchanged env c ws) = Some True \<Longrightarrow> d \<in> set (changed_diffs ws)
     \<Longrightarrow> pget d ''path'' \<noteq> PStr (or_str (cr_path c) [])"
  by (auto simp: file_unchanged_def diff_at_def Let_def dest: find_None split: option.splits)

lemma only_creations_passed:
  "recorded_workspace t = Some ws \<Longrightarrow> vd_passed (only_creations env c t ws) = Some True
     \<Longrightarrow> changed_diffs ws \<noteq> [] \<and> (\<forall>d \<in> set (changed_diffs ws). is_creation d)"
  by (auto simp: only_creations_def no_existing_file_modified_def Let_def split: option.splits bool.splits if_splits)

lemma changes_limited_to_passed:
  "vd_passed (changes_limited_to env c ws) = Some True \<Longrightarrow> d \<in> set (changed_diffs ws)
     \<Longrightarrow> \<exists>glob \<in> set (cr_paths c). pe_fnmatch env (py_str env (pget d ''path'')) glob"
  by (auto simp: changes_limited_to_def Let_def filter_empty_conv split: if_splits)

lemma content_contains_passed:
  "vd_passed (content_contains env c ws) = Some True
     \<Longrightarrow> \<exists>content. published_content ws (or_str (cr_path c) []) = Some content
           \<and> pe_search env False (or_str (cr_pattern c) []) content = Inr True"
  by (auto simp: content_contains_def search_verdict_passed Let_def split: option.splits)

text \<open>A passed criterion about files is a fact about what the task recorded: a created file
  has a creation diff, an unchanged file has no changed diff, "only new files" means at least one
  change and nothing but creations, limited changes all match an allowed glob, and required content
  is in the published file.\<close>

lemma passed_file_criteria_hold:
  assumes "recorded_workspace t = Some ws"
    and "vd_passed (evaluate_criterion env t ctx signals c) = Some True"
  shows "(cr_kind c = FILE_CREATED \<longrightarrow>
            (\<exists>d \<in> set (diffs ws). pget d ''path'' = PStr (or_str (cr_path c) [])
               \<and> pget d ''change_type'' = PStr ''created''))
    \<and> (cr_kind c = FILE_UNCHANGED \<longrightarrow>
            (\<forall>d \<in> set (changed_diffs ws). pget d ''path'' \<noteq> PStr (or_str (cr_path c) [])))
    \<and> (cr_kind c = NO_EXISTING_FILE_MODIFIED \<longrightarrow>
            changed_diffs ws \<noteq> [] \<and> (\<forall>d \<in> set (changed_diffs ws). is_creation d))
    \<and> (cr_kind c = CHANGES_LIMITED_TO \<longrightarrow>
            (\<forall>d \<in> set (changed_diffs ws). \<exists>glob \<in> set (cr_paths c).
               pe_fnmatch env (py_str env (pget d ''path'')) glob))
    \<and> (cr_kind c = CONTENT_CONTAINS \<longrightarrow>
            (\<exists>content. published_content ws (or_str (cr_path c) []) = Some content
               \<and> pe_search env False (or_str (cr_pattern c) []) content = Inr True))"
proof (intro conjI impI)
  note ev = evaluate_file_kinds [OF assms(1), of c env ctx signals]
  show "\<exists>d \<in> set (diffs ws). pget d ''path'' = PStr (or_str (cr_path c) [])
      \<and> pget d ''change_type'' = PStr ''created''" if "cr_kind c = FILE_CREATED"
    using assms(2) unfolding ev(1) [OF that] by (rule file_created_passed)
  show "\<forall>d \<in> set (changed_diffs ws). pget d ''path'' \<noteq> PStr (or_str (cr_path c) [])"
    if "cr_kind c = FILE_UNCHANGED"
    using file_unchanged_passed assms(2) unfolding ev(2) [OF that] by blast
  show "changed_diffs ws \<noteq> []" "\<forall>d \<in> set (changed_diffs ws). is_creation d"
    if "cr_kind c = NO_EXISTING_FILE_MODIFIED"
    using only_creations_passed [OF assms(1)] assms(2) unfolding ev(3) [OF that] by blast+
  show "\<forall>d \<in> set (changed_diffs ws). \<exists>glob \<in> set (cr_paths c).
      pe_fnmatch env (py_str env (pget d ''path'')) glob" if "cr_kind c = CHANGES_LIMITED_TO"
    using changes_limited_to_passed assms(2) unfolding ev(4) [OF that] by blast
  show "\<exists>content. published_content ws (or_str (cr_path c) []) = Some content
      \<and> pe_search env False (or_str (cr_pattern c) []) content = Inr True"
    if "cr_kind c = CONTENT_CONTAINS"
    using assms(2) unfolding ev(5) [OF that] by (rule content_contains_passed)
qed

text \<open>Sample library functions for the witnesses: plain substring search and equality.\<close>

definition sample_env :: py_env where
  "sample_env = \<lparr>pe_search = (\<lambda>ic p s. Inr (contains s p)), pe_fnmatch = (\<lambda>s g. s = g), pe_repr = (\<lambda>v. [])\<rparr>"

definition sample_criterion :: "string \<Rightarrow> criterion_kind \<Rightarrow> acceptance_criterion" where
  "sample_criterion text kind =
     \<lparr>cr_text = text, cr_kind = kind, cr_path = Some ''a.py'', cr_paths = [''a.py''],
      cr_pattern = Some ''def'', cr_min_chars = Some 1\<rparr>"

definition sample_workspace :: "(string \<times> pyval) list" where
  "sample_workspace =
     [(''file_diffs'', PList [PDict [(''path'', PStr ''a.py''), (''changed'', PBool True),
         (''change_type'', PStr ''created'')]]),
      (''published_files'', PList [PDict [(''path'', PStr ''a.py''), (''content'', PStr ''def f'')]])]"

lemma passed_file_criteria_hold_witness:
  "\<exists>d. changed_diffs sample_workspace = [d] \<and> py_str sample_env (pget d ''path'') = ''a.py''"
proof -
  let ?t = "(sample_task 1 RUNNING)\<lparr>t_result := PDict [(''workspace'', PDict sample_workspace)]\<rparr>"
  let ?c = "sample_criterion ''x'' CHANGES_LIMITED_TO"
  have ws: "recorded_workspace ?t = Some sample_workspace"
    by (simp add: recorded_workspace_def task_workspace_def dict_field_def pget_def dict_get_or_def
        sample_workspace_def)
  have ev: "evaluate_criterion sample_env ?t [] [] ?c = changes_limited_to sample_env ?c sample_workspace"
    by (rule evaluate_file_kinds(4) [OF ws]) (simp add: sample_criterion_def)
  have "vd_passed (evaluate_criterion sample_env ?t [] [] ?c) = Some True"
    unfolding ev
    by (simp add: sample_criterion_def changes_limited_to_def sample_env_def changed_diffs_def diffs_def sample_workspace_def pget_def dict_get_or_def
        list_or_empty_def map_filter_simps py_str_def Let_def)
  from passed_file_criteria_hold [OF ws this]
  have "\<forall>d \<in> set (changed_diffs sample_workspace). py_str sample_env (pget d ''path'') = ''a.py''"
    by (simp add: sample_criterion_def sample_env_def)
  moreover have "\<exists>d. changed_diffs sample_workspace = [d]"
    by (simp add: changed_diffs_def diffs_def sample_workspace_def pget_def dict_get_or_def
        list_or_empty_def map_filter_simps)
  ultimately show ?thesis by auto
qed

end
