(* ===== verification/Judge.thy ===== *)
theory Judge imports Criteria begin

text \<open>
  The judge (\<open>app/agents/judge.py\<close>): grounding first, then the objective signals and the typed
  criteria decided by code, then one or several language-model rounds over what is left, and the
  merge of all of it into an evaluation. One round of the tool loop, prompt included, is the
  parameter \<open>ask\<close>: from the models to avoid and the numbered criteria, through a state
  of its own, to a reply or an exception.
\<close>

section \<open>Data\<close>

record criterion_verdict =
  cv_index :: "int option"
  cv_criterion :: string
  cv_score :: rat
  cv_reasoning :: string

record judge_output =
  jo_criteria :: "criterion_verdict list"
  jo_failures :: "string list"
  jo_required_changes :: "string list"
  jo_overall_score :: rat
  jo_approved :: bool

text \<open>What the tool loop returns: its usage, the model, and \<open>parse_as(JudgeOutput)\<close>.\<close>

record judge_reply =
  jy_parsed :: "judge_output result"
  jy_model :: string
  jy_tokens :: int
  jy_cost_usd :: usd

record llm_judge =
  jd_independence :: string
  jd_critical_quorum :: int
  jd_require_build_evidence :: bool
  jd_pipeline :: validation_pipeline

record judging_outcome =
  jg_evaluation :: evaluation_result
  jg_tokens :: int
  jg_cost_usd :: usd

type_synonym for_llm = "(acceptance_criterion \<times> string option) list"
type_synonym 's ask = "string list \<Rightarrow> for_llm \<Rightarrow> 's \<Rightarrow> (exc + judge_reply) \<times> 's"

definition pass_threshold :: rat where
  "pass_threshold = 7 / 10"

definition new_judge ::
  "objective_validator list \<Rightarrow> validation_pipeline option \<Rightarrow> string \<Rightarrow> int \<Rightarrow> bool \<Rightarrow> llm_judge" where
  "new_judge validators pipeline independence critical_quorum require_build_evidence =
     \<lparr>jd_independence = independence, jd_critical_quorum = max 1 critical_quorum,
      jd_require_build_evidence = require_build_evidence,
      jd_pipeline = (case pipeline of None \<Rightarrow> new_pipeline validators None | Some p \<Rightarrow> p)\<rparr>"

section \<open>Objective part\<close>

definition grounding_failure :: "agent_task \<Rightarrow> string list \<Rightarrow> judging_outcome" where
  "grounding_failure task errors =
     \<lparr>jg_evaluation =
        \<lparr>ev_task_id = t_id task, ev_approved = False, ev_score = 0,
         ev_criteria_scores = dict_of (map (\<lambda>c. (cr_text c, 0)) (t_acceptance_criteria task)),
         ev_failures = errors,
         ev_required_changes =
           [''Inclua `citations` com evidence_ids reais do contexto do repositorio.'',
            ''Restrinja o resultado ao escopo das evidencias atribuidas a tarefa.''],
         ev_tests_passed = None, ev_lint_passed = None, ev_type_check_passed = None,
         ev_validated_by = [''grounding''], ev_judge_models = [], ev_independent_judge = None\<rparr>,
      jg_tokens = 0, jg_cost_usd = 0\<rparr>"

definition apply_failures :: "py_env \<Rightarrow> agent_task \<Rightarrow> string list" where
  "apply_failures env task =
     (case task_workspace task of
        None \<Rightarrow> []
      | Some ws \<Rightarrow>
          map (\<lambda>d. py_str env (pget d ''operation'') @ '' '' @ py_str env (pget d ''path'') @ '': ''
                   @ py_str env (pget d ''error''))
            (List.map_filter as_dict (list_or_empty (pget ws ''apply_errors''))))"

text \<open>One signal per name; a later signal replaces an earlier one unless that one failed.\<close>

definition add_signal ::
  "(string, validation_signal) pydict \<Rightarrow> validation_signal \<Rightarrow> (string, validation_signal) pydict" where
  "add_signal by_name s =
     (case dict_get by_name (vs_name s) of
        None \<Rightarrow> AList.update (vs_name s) s by_name
      | Some previous \<Rightarrow>
          if vs_passed previous \<noteq> Some False then AList.update (vs_name s) s by_name else by_name)"

definition signals_by_name :: "validation_signal list \<Rightarrow> (string, validation_signal) pydict" where
  "signals_by_name signals = foldl add_signal [] signals"

definition decided_scores :: "objective_verdict list \<Rightarrow> (string, rat) pydict" where
  "decided_scores verdicts =
     dict_of (map (\<lambda>v. (cr_text (vd_criterion v), verdict_score v)) (filter (\<lambda>v. vd_passed v \<noteq> None) verdicts))"

definition decided_failures :: "objective_verdict list \<Rightarrow> string list" where
  "decided_failures verdicts =
     map (\<lambda>v. ''['' @ kind_value (cr_kind (vd_criterion v)) @ ''] '' @ vd_detail v)
       (filter (\<lambda>v. vd_passed v = Some False) verdicts)"

definition decided_changes :: "objective_verdict list \<Rightarrow> string list" where
  "decided_changes verdicts =
     List.map_filter (\<lambda>v. if vd_passed v = Some False \<and> truthy_str (vd_required_change v)
                      then vd_required_change v else None) verdicts"

text \<open>The criteria left to the language model: the undecided ones with the reason, then the
  subjective ones.\<close>

definition criteria_for_llm :: "objective_verdict list \<Rightarrow> agent_task \<Rightarrow> for_llm" where
  "criteria_for_llm verdicts task =
     map (\<lambda>v. (vd_criterion v, Some (vd_detail v))) (filter (\<lambda>v. vd_passed v = None) verdicts)
     @ map (\<lambda>c. (c, None)) (filter (\<lambda>c. \<not> is_objective (cr_kind c)) (t_acceptance_criteria task))"

section \<open>Language-model rounds\<close>

definition executor_model :: "agent_task \<Rightarrow> string option" where
  "executor_model task =
     (case last_opt (t_attempts task) of
        None \<Rightarrow> None
      | Some a \<Rightarrow> if at_model a \<noteq> [] \<and> at_model a \<noteq> ''unknown'' then Some (at_model a) else None)"

definition avoid_models :: "llm_judge \<Rightarrow> string option \<Rightarrow> string list \<Rightarrow> string list" where
  "avoid_models j executor judges_used =
     (if jd_independence j \<noteq> ''escalate'' then []
      else judges_used @ (case executor of None \<Rightarrow> [] | Some m \<Rightarrow> [m]))"

fun judge_rounds ::
  "llm_judge \<Rightarrow> 's ask \<Rightarrow> string option \<Rightarrow> for_llm \<Rightarrow> nat \<Rightarrow> (judge_output \<times> judge_reply) list \<Rightarrow> 's
     \<Rightarrow> (exc + (judge_output \<times> judge_reply) list) \<times> 's" where
  "judge_rounds j ask executor crits 0 verdicts w = (Inr verdicts, w)"
| "judge_rounds j ask executor crits (Suc n) verdicts w =
     (case ask (avoid_models j executor (map (jy_model \<circ> snd) verdicts)) crits w of
        (Inl e, w') \<Rightarrow> (Inl e, w')
      | (Inr reply, w') \<Rightarrow>
          (case jy_parsed reply of
             Inl e \<Rightarrow> (Inl e, w')
           | Inr out \<Rightarrow> judge_rounds j ask executor crits n (verdicts @ [(out, reply)]) w'))"

definition match_scores :: "for_llm \<Rightarrow> judge_output \<Rightarrow> (string, rat) pydict" where
  "match_scores crits verdict =
     (let by_index = dict_of (List.map_filter
            (\<lambda>v. case cv_index v of None \<Rightarrow> None | Some i \<Rightarrow> Some (i, v)) (jo_criteria verdict));
          by_text = dict_of (map (\<lambda>v. (cv_criterion v, v)) (jo_criteria verdict));
          by_norm = dict_of (map (\<lambda>v. (str_lower (strip (cv_criterion v)), v)) (jo_criteria verdict));
          score = (\<lambda>index text.
            case dict_get by_index index of
              Some v \<Rightarrow> cv_score v
            | None \<Rightarrow>
                (case dict_get by_text text of
                   Some v \<Rightarrow> cv_score v
                 | None \<Rightarrow>
                     (case dict_get by_norm (str_lower (strip text)) of
                        Some v \<Rightarrow> cv_score v
                      | None \<Rightarrow> if jo_approved verdict then jo_overall_score verdict else 0)))
      in dict_of (map (\<lambda>(i, p). (cr_text (fst p), score (1 + int i) (cr_text (fst p)))) (enumerate 0 crits)))"

text \<open>Each criterion's lowest score over the rounds; the keys are those of the first round.\<close>

definition quorum_scores :: "(string, rat) pydict list \<Rightarrow> (string, rat) pydict" where
  "quorum_scores per_round =
     map (\<lambda>text. (text, min_list (map (\<lambda>scores. dict_get_or scores text 0) per_round)))
       (map fst (hd per_round))"

definition dict_update_all :: "('k, 'v) pydict \<Rightarrow> ('k, 'v) pydict \<Rightarrow> ('k, 'v) pydict" where
  "dict_update_all d e = foldl (\<lambda>d (k, v). AList.update k v d) d e"

definition round_rejects :: "(string, rat) pydict \<Rightarrow> bool" where
  "round_rejects scores \<longleftrightarrow> (\<exists>v \<in> set (map snd scores). v < pass_threshold)"

definition rejecting_rounds ::
  "(judge_output \<times> judge_reply) list \<Rightarrow> for_llm \<Rightarrow> (judge_output \<times> judge_reply) list" where
  "rejecting_rounds verdicts crits = filter (\<lambda>v. round_rejects (match_scores crits (fst v))) verdicts"

definition llm_failures :: "(judge_output \<times> judge_reply) list \<Rightarrow> for_llm \<Rightarrow> string list" where
  "llm_failures verdicts crits =
     (let rejecting = rejecting_rounds verdicts crits;
          tag_models = length verdicts > 1
      in concat (map (\<lambda>(out, reply).
           map (\<lambda>item. (if tag_models then ''[judge '' @ jy_model reply @ ''] '' else []) @ item) (jo_failures out))
           rejecting)
         @ (if rejecting \<noteq> [] \<and> tag_models \<and> length rejecting < length verdicts
            then [''[quorum] juizes divergiram: '' @ show_nat (length rejecting) @ '' de ''
                  @ show_nat (length verdicts) @ '' reprovaram; a aprovacao exige unanimidade.'']
            else []))"

section \<open>The evaluation\<close>

definition signal_value :: "(string, validation_signal) pydict \<Rightarrow> string \<Rightarrow> bool option" where
  "signal_value by_name name = (case dict_get by_name name of None \<Rightarrow> None | Some s \<Rightarrow> vs_passed s)"

definition criteria_ok :: "(string, rat) pydict \<Rightarrow> bool" where
  "criteria_ok scores \<longleftrightarrow> scores \<noteq> [] \<and> (\<forall>v \<in> set (map snd scores). v \<ge> pass_threshold)"

text \<open>The tail of \<open>evaluate\<close>, after the language-model rounds (\<open>verdicts\<close> is empty when no
  criterion was left to them).\<close>

definition combine_evaluation ::
  "py_env \<Rightarrow> llm_judge \<Rightarrow> agent_task \<Rightarrow> validation_signal list \<Rightarrow> objective_verdict list
     \<Rightarrow> (judge_output \<times> judge_reply) list \<Rightarrow> judging_outcome result" where
  "combine_evaluation env j task signals objective verdicts =
     (let by_name = signals_by_name signals;
          applied = apply_failures env task;
          objective_ok = ((\<forall>s \<in> set signals. vs_passed s \<noteq> Some False) \<and> applied = []);
          crits = criteria_for_llm objective task;
          scores = (if crits = [] then decided_scores objective
                    else dict_update_all (decided_scores objective)
                           (quorum_scores (map (\<lambda>v. match_scores crits (fst v)) verdicts)));
          score = (if scores \<noteq> [] then sum_list (map snd scores) / of_nat (length scores)
                   else if crits \<noteq> [] then min_list (map (jo_overall_score \<circ> fst) verdicts) else 0);
          judge_models = (if crits = [] then [] else map (jy_model \<circ> snd) verdicts);
          evaluation =
            \<lparr>ev_task_id = t_id task, ev_approved = (criteria_ok scores \<and> objective_ok),
             ev_score = (if objective_ok then score else min score (4 / 10)),
             ev_criteria_scores = scores,
             ev_failures = decided_failures objective
               @ (if crits = [] then [] else llm_failures verdicts crits)
               @ map (\<lambda>s. ''['' @ vs_name s @ ''] '' @ vs_details s)
                   (filter (\<lambda>s. vs_passed s = Some False) signals)
               @ map (\<lambda>item. ''[apply] '' @ item) applied,
             ev_required_changes = decided_changes objective
               @ (if crits = [] then []
                  else concat (map (jo_required_changes \<circ> fst) (rejecting_rounds verdicts crits))),
             ev_tests_passed = signal_value by_name ''pytest'',
             ev_lint_passed = signal_value by_name ''ruff'',
             ev_type_check_passed = signal_value by_name ''mypy'',
             ev_validated_by = (if crits \<noteq> [] then [''llm''] else [])
               @ (if \<exists>v \<in> set objective. vd_passed v \<noteq> None then [''criteria''] else [])
               @ map vs_name (filter (\<lambda>s. vs_passed s \<noteq> None) signals)
               @ (if applied \<noteq> [] then [''apply''] else []),
             ev_judge_models = judge_models,
             ev_independent_judge =
               (case executor_model task of
                  None \<Rightarrow> None
                | Some m \<Rightarrow> if crits \<noteq> [] \<and> jd_independence j \<noteq> ''off'' then Some (m \<notin> set judge_models) else None)\<rparr>
      in case objective_signals_veto evaluation of
           Inl e \<Rightarrow> Inl e
         | Inr ev \<Rightarrow>
             Inr \<lparr>jg_evaluation = ev,
                  jg_tokens = (if crits = [] then 0 else sum_list (map (jy_tokens \<circ> snd) verdicts)),
                  jg_cost_usd = (if crits = [] then 0 else sum_list (map (jy_cost_usd \<circ> snd) verdicts))\<rparr>)"

definition judge_evaluate ::
  "py_env \<Rightarrow> llm_judge \<Rightarrow> 's ask \<Rightarrow> agent_task \<Rightarrow> context_dict \<Rightarrow> 's \<Rightarrow> (exc + judging_outcome) \<times> 's" where
  "judge_evaluate env j ask task ctx w =
     (let citations = normalize_citations (dict_field (t_result task) ''citations'');
          errors = validate_citations ctx citations
            (if t_evidence_ids task = [] then None else Some (t_evidence_ids task))
      in if errors \<noteq> [] then (Inr (grounding_failure task errors), w)
         else
           case pipeline_validate (jd_pipeline j) task of
             Inl e \<Rightarrow> (Inl e, w)
           | Inr found \<Rightarrow>
               (let signals = found @ build_validation_signals task (jd_require_build_evidence j);
                    objective = evaluate_objective_criteria env task ctx (signals_by_name signals);
                    crits = criteria_for_llm objective task;
                    rounds = (if crits = [] then 0
                              else if t_is_critical task then nat (jd_critical_quorum j) else 1)
                in case judge_rounds j ask (executor_model task) crits rounds [] w of
                     (Inl e, w') \<Rightarrow> (Inl e, w')
                   | (Inr verdicts, w') \<Rightarrow>
                       (combine_evaluation env j task signals objective verdicts, w')))"

section \<open>What an approval shows\<close>

lemma map_of_update_all:
  "distinct (map fst e) \<Longrightarrow>
   map_of (dict_update_all d e) k = (case map_of e k of None \<Rightarrow> map_of d k | Some v \<Rightarrow> Some v)"
  by (simp add: dict_update_all_def foldl_update_map_of map_of_rev_distinct)

lemma match_scores_keys: "set (map fst (match_scores crits v)) = cr_text ` fst ` set crits"
proof -
  have "map fst (map (\<lambda>(i, p). (cr_text (fst p), f i p)) (enumerate 0 crits)) = map (cr_text \<circ> fst) crits"
    for f :: "nat \<Rightarrow> acceptance_criterion \<times> string option \<Rightarrow> rat"
  proof -
    have "map (\<lambda>x. cr_text (fst (snd x))) (enumerate 0 crits) = map (cr_text \<circ> fst) (map snd (enumerate 0 crits))"
      by (simp only: map_map comp_def)
    then show ?thesis by (simp only: map_snd_enumerate map_map comp_def case_prod_beta fst_conv)
  qed
  then show ?thesis
    unfolding match_scores_def Let_def dict_of_keys by (simp add: image_image comp_def)
qed

lemma quorum_map_of:
  "map_of (quorum_scores per_round) text =
    (if text \<in> set (map fst (hd per_round))
     then Some (min_list (map (\<lambda>s. dict_get_or s text 0) per_round)) else None)"
  unfolding quorum_scores_def map_of_map_restrict by (simp add: restrict_map_def)

lemma min_list_le: "x \<in> set xs \<Longrightarrow> min_list xs \<le> x" for x :: rat
  by (cases xs) (simp_all only: min_list_Min list.distinct Min_le List.finite_set not_False_eq_True
      empty_iff set_empty list.set(1))

lemma judge_rounds_length:
  "judge_rounds j ask m crits n vs w = (Inr vs', w') \<Longrightarrow> length vs' = length vs + n"
  by (induction n arbitrary: vs w) (auto split: prod.splits sum.splits)

lemma decided_scores_map_of:
  "map_of (decided_scores vs) = map_of (rev (map (\<lambda>v. (cr_text (vd_criterion v), verdict_score v))
     (filter (\<lambda>v. vd_passed v \<noteq> None) vs)))"
  by (simp add: decided_scores_def map_of_dict_of)

lemma file_verdict_criterion [simp]:
  "vd_criterion (signal_verdict c name sig) = c"
  "vd_criterion (citations_verdict c t ctx) = c"
  "vd_criterion (search_verdict c found y n r) = c"
  "vd_criterion (file_created env c ws) = c"
  "vd_criterion (file_modified c ws) = c"
  "vd_criterion (file_unchanged env c ws) = c"
  "vd_criterion (only_creations env c t ws) = c"
  "vd_criterion (changes_limited_to env c ws) = c"
  subgoal by (simp add: signal_verdict_def Let_def split: option.split bool.split)
  subgoal by (simp add: citations_verdict_def Let_def)
  subgoal by (simp add: search_verdict_def split: sum.split)
  subgoal by (simp add: file_created_def Let_def split: option.split)
  subgoal by (simp add: file_modified_def Let_def)
  subgoal by (simp add: file_unchanged_def Let_def split: option.split)
  subgoal by (simp add: only_creations_def Let_def split: option.split bool.split)
  subgoal by (simp add: changes_limited_to_def Let_def)
  done

lemma text_verdict_criterion [simp]:
  "vd_criterion (output_verdict env c t) = c" "vd_criterion (content_contains env c ws) = c"
  by (simp_all add: output_verdict_def content_contains_def Let_def split: option.split)

lemma evaluate_criterion_criterion [simp]: "vd_criterion (evaluate_criterion env t ctx sigs c) = c"
proof (cases "signal_by_kind (cr_kind c)")
  case None
  then show ?thesis by (cases "recorded_workspace t") (simp_all add: evaluate_criterion_def)
qed (simp add: evaluate_criterion_def)

text \<open>The merged scores: a decided criterion keeps its score unless the language model scored the
  same text; a criterion left to it has its lowest score over the rounds.\<close>

definition final_scores ::
  "objective_verdict list \<Rightarrow> for_llm \<Rightarrow> (judge_output \<times> judge_reply) list \<Rightarrow> (string, rat) pydict" where
  "final_scores objective crits verdicts =
     (if crits = [] then decided_scores objective
      else dict_update_all (decided_scores objective)
             (quorum_scores (map (\<lambda>v. match_scores crits (fst v)) verdicts)))"

lemma quorum_distinct:
  "verdicts \<noteq> [] \<Longrightarrow> distinct (map fst (quorum_scores (map (\<lambda>v. match_scores crits (fst v)) verdicts)))"
  by (simp add: quorum_scores_def comp_def hd_map match_scores_def Let_def distinct_dict_of)

lemma final_scores_llm:
  assumes "crits \<noteq> []" "verdicts \<noteq> []" "text \<in> cr_text ` fst ` set crits"
  shows "map_of (final_scores objective crits verdicts) text =
    Some (min_list (map (\<lambda>v. dict_get_or (match_scores crits (fst v)) text 0) verdicts))"
proof -
  have "text \<in> set (map fst (hd (map (\<lambda>v. match_scores crits (fst v)) verdicts)))"
    using assms(3) unfolding list.map_sel(1) [OF assms(2)] match_scores_keys .
  then show ?thesis
    using assms(1,2) quorum_distinct [OF assms(2), of crits]
    by (simp add: final_scores_def map_of_update_all quorum_map_of comp_def)
qed

lemma final_scores_decided:
  assumes "crits = [] \<or> verdicts \<noteq> []" "text \<notin> cr_text ` fst ` set crits"
  shows "map_of (final_scores objective crits verdicts) text = map_of (decided_scores objective) text"
proof (cases "crits = []")
  case False
  with assms have ne: "verdicts \<noteq> []" by simp
  have "text \<notin> set (map fst (hd (map (\<lambda>v. match_scores crits (fst v)) verdicts)))"
    using assms(2) unfolding list.map_sel(1) [OF ne] match_scores_keys .
  then show ?thesis
    using False quorum_distinct [OF ne, of crits]
    by (simp add: final_scores_def map_of_update_all quorum_map_of)
qed (simp add: final_scores_def)

lemma combine_evaluation_approved:
  assumes "combine_evaluation env j task signals objective verdicts = Inr out"
    and "ev_approved (jg_evaluation out)"
  shows "\<forall>s \<in> set signals. vs_passed s \<noteq> Some False" and "apply_failures env task = []"
    and "criteria_ok (final_scores objective (criteria_for_llm objective task) verdicts)"
  using assms
  by (auto simp: combine_evaluation_def final_scores_def Let_def objective_signals_veto_def
      simp del: not_None_eq split: sum.splits if_splits)

lemma criteria_okD: "criteria_ok scores \<Longrightarrow> map_of scores k = Some v \<Longrightarrow> pass_threshold \<le> v"
  by (drule map_of_SomeD) (force simp: criteria_ok_def)

lemma llm_texts:
  assumes "distinct (map cr_text (t_acceptance_criteria task))"
    and "c \<in> set (t_acceptance_criteria task)" and "is_objective (cr_kind c)"
    and "vd_passed (evaluate_criterion env task ctx sigs c) \<noteq> None"
  shows "cr_text c \<notin> cr_text ` fst ` set (criteria_for_llm (evaluate_objective_criteria env task ctx sigs) task)"
proof
  assume "cr_text c \<in> cr_text ` fst ` set (criteria_for_llm (evaluate_objective_criteria env task ctx sigs) task)"
  then obtain d where d: "d \<in> set (t_acceptance_criteria task)" "cr_text d = cr_text c"
    and left: "\<not> is_objective (cr_kind d) \<or> vd_passed (evaluate_criterion env task ctx sigs d) = None"
    by (force simp: criteria_for_llm_def evaluate_objective_criteria_def)
  then have "d = c" using assms(1,2) by (metis distinct_map inj_onD)
  then show False using left assms(3,4) by simp
qed

lemma decided_failure_score:
  assumes "distinct (map cr_text (t_acceptance_criteria task))"
    and "c \<in> set (t_acceptance_criteria task)" and "is_objective (cr_kind c)"
    and "vd_passed (evaluate_criterion env task ctx sigs c) = Some False"
  shows "map_of (decided_scores (evaluate_objective_criteria env task ctx sigs)) (cr_text c) = Some 0"
proof -
  let ?ev = "evaluate_criterion env task ctx sigs"
  let ?cs = "filter (\<lambda>c. vd_passed (?ev c) \<noteq> None) (filter (\<lambda>c. is_objective (cr_kind c)) (t_acceptance_criteria task))"
  let ?ps = "map (\<lambda>c. (cr_text c, verdict_score (?ev c))) ?cs"
  have eq: "decided_scores (evaluate_objective_criteria env task ctx sigs) = dict_of ?ps"
    by (simp add: decided_scores_def evaluate_objective_criteria_def filter_map comp_def)
  have d: "distinct (map fst ?ps)" using assms(1) by (simp add: comp_def distinct_map_filter)
  have "vd_passed (?ev c) \<noteq> None" by (metis assms(4) option.distinct(1))
  then have "c \<in> set ?cs" using assms(2,3) unfolding set_filter by blast
  then have "(cr_text c, verdict_score (?ev c)) \<in> set ?ps" unfolding set_map by (rule imageI)
  moreover have "verdict_score (?ev c) = 0" using assms(4) by (simp add: verdict_score_def)
  ultimately show ?thesis
    unfolding eq dict_of_distinct [OF d] using map_of_is_SomeI [OF d, of "cr_text c"] by simp
qed


text \<open>A task with one subjective criterion, a judge with no validators, and a language model that
  gives the same verdict in every round.\<close>

definition sample_judge :: llm_judge where
  "sample_judge = new_judge [] None ''bindings'' 1 False"

definition sample_reply :: "rat \<Rightarrow> judge_reply" where
  "sample_reply score =
     \<lparr>jy_parsed = Inr \<lparr>jo_criteria = [\<lparr>cv_index = Some 1, cv_criterion = ''x'', cv_score = score, cv_reasoning = []\<rparr>],
        jo_failures = [], jo_required_changes = [], jo_overall_score = score, jo_approved = True\<rparr>,
      jy_model = ''m'', jy_tokens = 10, jy_cost_usd = 1\<rparr>"

definition judged_task :: "acceptance_criterion list \<Rightarrow> agent_task" where
  "judged_task criteria =
     (sample_task 1 RUNNING)\<lparr>t_acceptance_criteria := criteria,
        t_result := PDict [(''workspace'', PDict [(''file_diffs'', PList [])])]\<rparr>"

definition sample_ask :: "unit ask" where
  "sample_ask avoid crits w = (Inr (sample_reply 1), w)"

lemmas judge_eval =
  judge_evaluate_def sample_judge_def new_judge_def new_pipeline_def pipeline_validate_def
  validators_for_capability_def sample_ask_def sample_reply_def judged_task_def sample_task_def
  combine_evaluation_def evaluate_objective_criteria_def criteria_for_llm_def sample_criterion_def
  is_objective_def decided_scores_def decided_failures_def decided_changes_def signals_by_name_def
  build_validation_signals_def current_build_validation_def last_opt_def executor_model_def
  validate_citations_def grounding_required_def evidence_blocks_def get_repository_grounding_def
  get_web_references_def evidence_block_def apply_failures_def task_workspace_def
  recorded_workspace_def dict_field_def pget_def dict_get_or_def list_or_empty_def
  match_scores_def quorum_scores_def dict_update_all_def rejecting_rounds_def llm_failures_def
  round_rejects_def criteria_ok_def pass_threshold_def objective_signals_veto_def
  objective_failures_def signal_value_def dict_of_def

lemma sample_evaluation:
  "\<exists>out. judge_evaluate sample_env sample_judge sample_ask (judged_task [sample_criterion ''x'' SUBJECTIVE]) [] ()
       = (Inr out, ()) \<and> ev_approved (jg_evaluation out)"
  by (simp add: judge_eval map_filter_simps Let_def)


text \<open>The hypothesis on the texts is needed: a typed criterion the code finds unmet (the file
  was never created) is approved when a subjective criterion carries the same text, because the
  language model's score for that text replaces the code's.\<close>

lemma equal_texts_erase_objective_failure:
  "let task = judged_task [sample_criterion ''x'' FILE_CREATED, sample_criterion ''x'' SUBJECTIVE] in
     vd_passed (evaluate_criterion sample_env task [] [] (sample_criterion ''x'' FILE_CREATED)) = Some False
     \<and> (\<exists>out. judge_evaluate sample_env sample_judge sample_ask task [] () = (Inr out, ())
           \<and> ev_approved (jg_evaluation out))"
proof -
  let ?task = "judged_task [sample_criterion ''x'' FILE_CREATED, sample_criterion ''x'' SUBJECTIVE]"
  let ?no = "unmet (sample_criterion ''x'' FILE_CREATED) ''`a.py` nao foi tocado pela tarefa.''
        (Some ''Crie o arquivo `a.py` (op=create).'')"
  have ws: "recorded_workspace ?task = Some [(''file_diffs'', PList [])]"
    by (simp add: recorded_workspace_def task_workspace_def dict_field_def pget_def dict_get_or_def judged_task_def)
  have ev: "evaluate_criterion sample_env ?task [] sigs (sample_criterion ''x'' FILE_CREATED) = ?no" for sigs
    by (subst evaluate_file_kinds(1) [OF ws])
      (simp_all add: sample_criterion_def file_created_def diff_at_def diffs_def pget_def dict_get_or_def
        list_or_empty_def map_filter_simps or_str_def Let_def)
  have "evaluate_objective_criteria sample_env ?task [] sigs = [?no]" for sigs
    using ev [of sigs] by (simp add: evaluate_objective_criteria_def judged_task_def is_objective_def sample_criterion_def)
  then have "\<exists>out. judge_evaluate sample_env sample_judge sample_ask ?task [] () = (Inr out, ())
      \<and> ev_approved (jg_evaluation out)"
    unfolding judge_evaluate_def Let_def
    by simp (simp add: judge_eval map_filter_simps Let_def unmet_def truthy_str_def verdict_score_def)
  with ev show ?thesis by (simp add: Let_def)
qed

end
