(* ===== verification/Build_Profile.thy ===== *)
theory Build_Profile imports Build_Evidence_Model begin

text \<open>
  The operator's build profiles (\<open>app/models/build.py\<close>) and import policies
  (\<open>app/models/architecture.py\<close>): pure POSIX paths, the checks on command tokens, directories and
  arguments, and the validators pydantic runs when a phase, an acceptance suite, a policy or a
  profile is built. A validator is a function that returns the value or raises. The SHA-256
  fingerprints and the length of a JSON dump are the fields of \<open>digests\<close>.
\<close>

section \<open>Pure POSIX paths\<close>

text \<open>\<open>PurePosixPath(s)\<close>: the root (empty, one slash, or exactly two) and the parts below it, with
  empty and dot parts dropped.\<close>

record posix_path =
  pp_root :: string
  pp_tail :: "string list"

definition posix_path_of :: "string \<Rightarrow> posix_path" where
  "posix_path_of s =
     \<lparr>pp_root = (if \<not> starts_with s ''/'' then []
                 else if starts_with s ''//'' \<and> \<not> starts_with s ''///'' then ''//'' else ''/''),
      pp_tail = filter (\<lambda>p. p \<noteq> [] \<and> p \<noteq> ''.'') (split_on (CHR ''/'') s)\<rparr>"

definition pp_is_absolute :: "posix_path \<Rightarrow> bool" where
  "pp_is_absolute p \<longleftrightarrow> pp_root p \<noteq> []"

definition pp_parts :: "posix_path \<Rightarrow> string list" where
  "pp_parts p = (if pp_root p = [] then [] else [pp_root p]) @ pp_tail p"

definition pp_as_posix :: "posix_path \<Rightarrow> string" where
  "pp_as_posix p =
     (if pp_root p = [] \<and> pp_tail p = [] then ''.'' else pp_root p @ join ''/'' (pp_tail p))"

definition pp_name :: "posix_path \<Rightarrow> string" where
  "pp_name p = (if pp_tail p = [] then [] else last (pp_tail p))"

definition pp_is_relative_to :: "posix_path \<Rightarrow> posix_path \<Rightarrow> bool" where
  "pp_is_relative_to p q \<longleftrightarrow> take (length (pp_parts q)) (pp_parts p) = pp_parts q"

section \<open>Command tokens, directories and arguments\<close>

definition build_executables :: "string list" where
  "build_executables =
     [''python'', ''python3'', ''pytest'', ''ruff'', ''mypy'', ''uv'', ''node'', ''tsc'', ''eslint'']"

definition build_environment_keys :: "string list" where
  "build_environment_keys =
     [''CI'', ''LANG'', ''LC_ALL'', ''TZ'', ''PYTHONDONTWRITEBYTECODE'', ''PYTHONHASHSEED'',
      ''PYTEST_DISABLE_PLUGIN_AUTOLOAD'', ''NODE_ENV'', ''NO_COLOR'', ''FORCE_COLOR'']"

text \<open>The character class of \<open>_SHELL_SYNTAX\<close>: control characters, DEL, and the shell's
  metacharacters.\<close>

definition shell_char :: "char \<Rightarrow> bool" where
  "shell_char c \<longleftrightarrow> (of_char c :: nat) < 32 \<or> (of_char c :: nat) = 127
     \<or> c \<in> {CHR '';'', CHR ''&'', CHR ''|'', CHR ''<'', CHR ''>'', CHR 0x60, CHR ''$'', CHR 0x5C}"

definition has_shell_syntax :: "string \<Rightarrow> bool" where
  "has_shell_syntax s \<longleftrightarrow> (\<exists>c \<in> set s. shell_char c)"

definition validate_command_token :: "string \<Rightarrow> string result" where
  "validate_command_token v =
     (if v = [] \<or> length v > 4096 \<or> has_shell_syntax v
      then Inl (Exc ValueError ''Token de comando vazio, excessivo ou com sintaxe shell.'') else Inr v)"

definition validate_relative_directory :: "string \<Rightarrow> string result" where
  "validate_relative_directory v =
     (let path = posix_path_of v in
      if v = [] \<or> pp_is_absolute path \<or> ''..'' \<in> set (pp_parts path) \<or> v \<noteq> pp_as_posix path
         \<or> has_shell_syntax v \<or> CHR '':'' \<in> set v
      then Inl (Exc ValueError ''cwd deve ser relativo, normalizado e dentro da lease.'') else Inr v)"

text \<open>\<open>token.split("=", 1)[1]\<close>.\<close>

definition after_equals :: "string \<Rightarrow> string" where
  "after_equals s = drop 1 (dropWhile (\<lambda>c. c \<noteq> CHR ''='') s)"

definition argument_path :: "string \<Rightarrow> string option result" where
  "argument_path token =
     (if starts_with token ''-'' \<and> CHR ''='' \<notin> set token
      then if \<exists>marker \<in> set [''/'', ''~'', '':'', ''..'']. contains token marker
           then Inl (Exc ValueError ''Caminhos em flags devem usar um argumento separado ou =.'')
           else Inr None
      else
        let v = (if starts_with token ''-'' \<and> CHR ''='' \<in> set token then after_equals token else token)
        in if CHR ''='' \<in> set v
           then Inl (Exc ValueError ''Argumentos compostos com atribuicoes nao sao suportados.'')
           else if starts_with v ''/'' \<or> starts_with v ''~'' \<or> CHR '':'' \<in> set v
                   \<or> ''..'' \<in> set (pp_parts (posix_path_of v))
           then Inl (Exc ValueError ''Argumento contem caminho externo ou traversal.'')
           else Inr (Some v))"

section \<open>Phases\<close>

datatype phase_network = Net_none | Net_dependencies

record build_phase =
  bp_name :: build_phase_name
  bp_argv :: "string list"
  bp_cwd :: string
  bp_environment :: "(string, string) pydict"
  bp_network :: phase_network
  bp_timeout_seconds :: int
  bp_output_limit :: int

text \<open>The first exception of a list of checks.\<close>

fun all_checked :: "('a \<Rightarrow> 'b result) \<Rightarrow> 'a list \<Rightarrow> exc option" where
  "all_checked f [] = None"
| "all_checked f (x # xs) = (case f x of Inl e \<Rightarrow> Some e | Inr y \<Rightarrow> all_checked f xs)"

definition executable_refused :: "string \<Rightarrow> bool" where
  "executable_refused v \<longleftrightarrow>
     (let p = posix_path_of v in
        \<not> pp_is_absolute p \<or> starts_with v ''//'' \<or> pp_as_posix p \<noteq> v \<or> ''..'' \<in> set (pp_parts p)
        \<or> pp_name p \<notin> set build_executables \<or> starts_with v ''/workspace/'')"

text \<open>The field constraint (one to 64 items) and \<open>_argv_is_explicit\<close>.\<close>

definition argv_is_explicit :: "string list \<Rightarrow> string list result" where
  "argv_is_explicit v =
     (if v = [] \<or> length v > 64 then Inl (Exc ValueError ''argv'')
      else
        case all_checked validate_command_token v of
          Some e \<Rightarrow> Inl e
        | None \<Rightarrow>
            (case all_checked argument_path (tl v) of
               Some e \<Rightarrow> Inl e
             | None \<Rightarrow>
                 if executable_refused (hd v)
                 then Inl (Exc ValueError ''Executavel deve ser um caminho absoluto aprovado da imagem.'')
                 else Inr v))"

definition environment_has_no_secrets :: "(string, string) pydict \<Rightarrow> (string, string) pydict result" where
  "environment_has_no_secrets env =
     (if \<not> fst ` set env \<subseteq> set build_environment_keys
      then Inl (Exc ValueError ''Variavel de ambiente nao permitida em fases de build.'')
      else case all_checked validate_command_token (map snd env) of Some e \<Rightarrow> Inl e | None \<Rightarrow> Inr env)"

definition network_only_for_preparation :: "build_phase \<Rightarrow> build_phase result" where
  "network_only_for_preparation p =
     (if bp_network p \<noteq> Net_none \<and> bp_name p \<noteq> PREPARE
      then Inl (Exc ValueError ''Somente prepare pode solicitar rede para dependencias.'') else Inr p)"

text \<open>\<open>BuildPhase(...)\<close>: the bounds of its fields and its validators.\<close>

definition phase_valid :: "build_phase \<Rightarrow> bool" where
  "phase_valid p \<longleftrightarrow>
     argv_is_explicit (bp_argv p) = Inr (bp_argv p)
     \<and> validate_relative_directory (bp_cwd p) = Inr (bp_cwd p)
     \<and> environment_has_no_secrets (bp_environment p) = Inr (bp_environment p)
     \<and> network_only_for_preparation p = Inr p
     \<and> 1 \<le> bp_timeout_seconds p \<and> bp_timeout_seconds p \<le> 3600
     \<and> 256 \<le> bp_output_limit p \<and> bp_output_limit p \<le> 100000"

section \<open>Acceptance suites\<close>

record acceptance_case =
  ca_id :: string
  ca_criterion :: string
  ca_command :: build_phase
  ca_expected_stdout :: string

record acceptance_suite =
  su_cases :: "acceptance_case list"

text \<open>\<open>len(s.encode())\<close>: two bytes for a code point from 128 to 255.\<close>

definition utf8_length :: "string \<Rightarrow> nat" where
  "utf8_length s = sum_list (map (\<lambda>c. if (of_char c :: nat) < 128 then 1 else 2) s)"

definition slug_char :: "char \<Rightarrow> bool" where
  "slug_char c \<longleftrightarrow> (let n = (of_char c :: nat) in
     (97 \<le> n \<and> n \<le> 122) \<or> (48 \<le> n \<and> n \<le> 57) \<or> c = CHR ''_'' \<or> c = CHR ''-'')"

text \<open>\<open>^[a-z][a-z0-9_-]{0,63}$\<close>.\<close>

definition is_slug :: "string \<Rightarrow> bool" where
  "is_slug s \<longleftrightarrow>
     (case s of [] \<Rightarrow> False
      | c # cs \<Rightarrow> 97 \<le> (of_char c :: nat) \<and> (of_char c :: nat) \<le> 122 \<and> length cs \<le> 63 \<and> (\<forall>d \<in> set cs. slug_char d))"

definition bounded_case :: "acceptance_case \<Rightarrow> acceptance_case result" where
  "bounded_case c =
     (if bp_name (ca_command c) \<noteq> TEST \<or> bp_network (ca_command c) \<noteq> Net_none
      then Inl (Exc ValueError ''Aceitacao exige comando test sem rede.'')
      else if bp_timeout_seconds (ca_command c) > 30 \<or> bp_output_limit (ca_command c) > 16384
      then Inl (Exc ValueError ''Aceitacao limitada a 30 segundos e 16 KiB de captura por caso.'')
      else if int (utf8_length (ca_expected_stdout c)) > min 8192 (bp_output_limit (ca_command c))
      then Inl (Exc ValueError ''Saida esperada excede o limite de captura.'')
      else Inr c)"

definition case_valid :: "acceptance_case \<Rightarrow> bool" where
  "case_valid c \<longleftrightarrow>
     is_slug (ca_id c) \<and> 1 \<le> length (ca_criterion c) \<and> length (ca_criterion c) \<le> 500
     \<and> length (ca_expected_stdout c) \<le> 8192 \<and> phase_valid (ca_command c) \<and> bounded_case c = Inr c"

section \<open>Import policies\<close>

record import_boundary =
  ib_id :: string
  ib_source :: string
  ib_forbidden :: "string list"
  ib_remediation :: string

record architecture_policy =
  po_source_roots :: "string list"
  po_rules :: "import_boundary list"

definition root_char :: "char \<Rightarrow> bool" where
  "root_char c \<longleftrightarrow> (let n = (of_char c :: nat) in
     (97 \<le> n \<and> n \<le> 122) \<or> (65 \<le> n \<and> n \<le> 90) \<or> (48 \<le> n \<and> n \<le> 57)
     \<or> c \<in> {CHR ''_'', CHR ''.'', CHR ''/'', CHR ''-''})"

definition root_refused :: "string \<Rightarrow> bool" where
  "root_refused r \<longleftrightarrow>
     (let p = posix_path_of r in
        r = [] \<or> length r > 160 \<or> pp_is_absolute p \<or> ''..'' \<in> set (pp_parts p) \<or> pp_as_posix p \<noteq> r
        \<or> \<not> (\<forall>c \<in> set r. root_char c))"

definition roots_overlap :: "string list \<Rightarrow> bool" where
  "roots_overlap roots \<longleftrightarrow>
     (\<exists>i < length roots. \<exists>other \<in> set (take i roots).
        pp_is_relative_to (posix_path_of (roots ! i)) (posix_path_of other)
        \<or> pp_is_relative_to (posix_path_of other) (posix_path_of (roots ! i)))"

definition roots_are_confined :: "string list \<Rightarrow> string list result" where
  "roots_are_confined roots =
     (if \<exists>r \<in> set roots. root_refused r
      then Inl (Exc ValueError ''Source roots must be normalized relative directories'')
      else if roots_overlap roots then Inl (Exc ValueError ''Source roots must not overlap'')
      else Inr roots)"

section \<open>Profiles\<close>

datatype ecosystem = Python | Node

record build_profile =
  pf_name :: string
  pf_ecosystem :: ecosystem
  pf_image :: string
  pf_phases :: "build_phase list"
  pf_auto_detect :: bool
  pf_architecture :: "architecture_policy option"
  pf_acceptance :: "acceptance_suite option"

record digests =
  dg_case :: "acceptance_case \<Rightarrow> string"
  dg_suite :: "acceptance_suite \<Rightarrow> string"
  dg_policy :: "architecture_policy \<Rightarrow> string"
  dg_profile :: "build_profile \<Rightarrow> string"
  dg_suite_json_bytes :: "acceptance_suite \<Rightarrow> nat"
  dg_policy_json_bytes :: "architecture_policy \<Rightarrow> nat"

definition bounded_suite :: "digests \<Rightarrow> acceptance_suite \<Rightarrow> acceptance_suite result" where
  "bounded_suite dg s =
     (if card (set (map ca_id (su_cases s))) \<noteq> length (su_cases s)
      then Inl (Exc ValueError ''IDs de casos de aceitacao devem ser unicos.'')
      else if sum_list (map (bp_timeout_seconds \<circ> ca_command) (su_cases s)) > 120
      then Inl (Exc ValueError ''Suite excede 120 segundos de execucao configurada.'')
      else if dg_suite_json_bytes dg s > 64000 then Inl (Exc ValueError ''Suite excede 64 KB.'')
      else Inr s)"

definition unique_rules :: "digests \<Rightarrow> architecture_policy \<Rightarrow> architecture_policy result" where
  "unique_rules dg p =
     (if card (set (map ib_id (po_rules p))) \<noteq> length (po_rules p)
      then Inl (Exc ValueError ''Architecture rule IDs must be unique'')
      else if dg_policy_json_bytes dg p > 16000
      then Inl (Exc ValueError ''Architecture policy exceeds 16 KB'') else Inr p)"

definition unique_ordered_phases :: "build_profile \<Rightarrow> build_profile result" where
  "unique_ordered_phases p =
     (let names = map bp_name (pf_phases p) in
      if pf_architecture p \<noteq> None \<and> pf_ecosystem p \<noteq> Python
      then Inl (Exc ValueError ''Architecture policies currently support Python only.'')
      else if length names \<noteq> card (set names)
      then Inl (Exc ValueError ''Fases de um perfil nao podem se repetir.'')
      else if PREPARE \<in> set names \<and> hd names \<noteq> PREPARE
      then Inl (Exc ValueError ''prepare deve ser a primeira fase do perfil.'')
      else Inr p)"

text \<open>What a profile that passed pydantic satisfies, its own validator and those of its parts
  (the pattern of the image digest is left to pydantic).\<close>

definition profile_valid :: "digests \<Rightarrow> build_profile \<Rightarrow> bool" where
  "profile_valid dg p \<longleftrightarrow>
     is_slug (pf_name p) \<and> pf_phases p \<noteq> [] \<and> length (pf_phases p) \<le> 5
     \<and> (\<forall>ph \<in> set (pf_phases p). phase_valid ph)
     \<and> (case pf_architecture p of None \<Rightarrow> True
        | Some a \<Rightarrow> roots_are_confined (po_source_roots a) = Inr (po_source_roots a)
            \<and> po_rules a \<noteq> [] \<and> unique_rules dg a = Inr a)
     \<and> (case pf_acceptance p of None \<Rightarrow> True
        | Some s \<Rightarrow> su_cases s \<noteq> [] \<and> length (su_cases s) \<le> 8 \<and> (\<forall>c \<in> set (su_cases s). case_valid c)
            \<and> bounded_suite dg s = Inr s)
     \<and> unique_ordered_phases p = Inr p"

section \<open>Confinement\<close>

text \<open>Where a list of components leads from a directory: two dots go up, anything else down.\<close>

fun walk :: "string list \<Rightarrow> string list \<Rightarrow> string list" where
  "walk dir [] = dir"
| "walk dir (p # ps) = walk (if p = ''..'' then butlast dir else dir @ [p]) ps"

lemma walk_inside: "''..'' \<notin> set ps \<Longrightarrow> walk dir ps = dir @ ps"
  by (induction ps arbitrary: dir) auto

lemma all_checked_None: "all_checked f xs = None \<longleftrightarrow> (\<forall>x \<in> set xs. \<exists>y. f x = Inr y)"
  by (induction xs) (auto split: sum.splits)

lemma relative_tail: "\<not> pp_is_absolute p \<Longrightarrow> pp_parts p = pp_tail p"
  by (simp add: pp_is_absolute_def pp_parts_def)

lemma validated_directory:
  assumes "validate_relative_directory v = Inr v"
  shows "\<not> pp_is_absolute (posix_path_of v)" and "''..'' \<notin> set (pp_tail (posix_path_of v))"
    and "\<not> has_shell_syntax v"
  using assms by (auto simp: validate_relative_directory_def pp_parts_def Let_def split: if_splits)

lemma argument_path_Some:
  assumes "argument_path tok = Inr (Some v)"
  shows "\<not> pp_is_absolute (posix_path_of v)" and "''..'' \<notin> set (pp_tail (posix_path_of v))"
  using assms
  by (auto simp: argument_path_def Let_def pp_is_absolute_def posix_path_of_def pp_parts_def
      starts_with_def split: if_splits)

text \<open>A validated phase stays inside its workspace: no argument or directory of it contains shell
  syntax, its working directory and every path it passes (as an argument or as the value of a flag)
  lead, from any directory below the workspace root, to a place below that directory; its
  executable is an absolute, normalized, allow-listed path of the image outside the workspace; and
  only the prepare phase may use the network.\<close>

lemma validated_phase_is_confined:
  assumes "phase_valid p"
  shows "(\<forall>tok \<in> set (bp_argv p). \<not> has_shell_syntax tok)
    \<and> walk dir (pp_parts (posix_path_of (bp_cwd p))) = dir @ pp_parts (posix_path_of (bp_cwd p))
    \<and> (\<forall>tok \<in> set (tl (bp_argv p)). \<forall>v. argument_path tok = Inr (Some v)
         \<longrightarrow> walk dir (pp_parts (posix_path_of v)) = dir @ pp_parts (posix_path_of v)
             \<and> \<not> pp_is_absolute (posix_path_of v))
    \<and> (\<forall>tok \<in> set (tl (bp_argv p)). argument_path tok = Inr None \<longrightarrow> starts_with tok ''-'' \<and> \<not> contains tok ''/'')
    \<and> pp_is_absolute (posix_path_of (hd (bp_argv p)))
    \<and> pp_name (posix_path_of (hd (bp_argv p))) \<in> set build_executables
    \<and> \<not> starts_with (hd (bp_argv p)) ''/workspace/''
    \<and> (bp_network p = Net_dependencies \<longrightarrow> bp_name p = PREPARE)"
proof -
  from assms have argv: "argv_is_explicit (bp_argv p) = Inr (bp_argv p)"
    and cwd: "validate_relative_directory (bp_cwd p) = Inr (bp_cwd p)"
    and net: "network_only_for_preparation p = Inr p"
    by (simp_all add: phase_valid_def)
  have tokens: "\<forall>tok \<in> set (bp_argv p). \<not> has_shell_syntax tok"
    using argv by (auto simp: argv_is_explicit_def all_checked_None validate_command_token_def split: if_splits option.splits)
  have exe: "\<not> executable_refused (hd (bp_argv p))"
    using argv by (simp add: argv_is_explicit_def split: if_splits option.splits)
  have inside: "walk dir (pp_parts q) = dir @ pp_parts q"
    if "\<not> pp_is_absolute q" "''..'' \<notin> set (pp_tail q)" for q
    using that by (simp add: relative_tail walk_inside)
  have flags: "starts_with tok ''-'' \<and> \<not> contains tok ''/''" if "argument_path tok = Inr None" for tok
    using that by (auto simp: argument_path_def Let_def split: if_splits)
  show ?thesis
    using tokens exe net inside [OF validated_directory(1,2) [OF cwd]] flags argument_path_Some inside
    by (auto simp: executable_refused_def Let_def network_only_for_preparation_def split: if_splits)
qed

definition sample_build_phase :: build_phase where
  "sample_build_phase =
     \<lparr>bp_name = TEST, bp_argv = [''/usr/bin/pytest'', ''-q'', ''tests''], bp_cwd = ''src'', bp_environment = [],
      bp_network = Net_none, bp_timeout_seconds = 60, bp_output_limit = 1000\<rparr>"

lemma sample_phase_valid: "phase_valid sample_build_phase"
  by (simp add: phase_valid_def sample_build_phase_def argv_is_explicit_def validate_command_token_def
      argument_path_def executable_refused_def validate_relative_directory_def
      environment_has_no_secrets_def network_only_for_preparation_def has_shell_syntax_def shell_char_def
      posix_path_of_def pp_parts_def pp_is_absolute_def pp_as_posix_def pp_name_def split_on_def
      starts_with_def build_executables_def Let_def)

lemma validated_phase_is_confined_witness:
  "walk [''w''] (pp_parts (posix_path_of ''src'')) = [''w''] @ pp_parts (posix_path_of ''src'')"
  using validated_phase_is_confined [OF sample_phase_valid, of "[''w'']"]
  by (simp add: sample_build_phase_def)

end
