(* ===== verification/Build_Strategy.thy ===== *)
theory Build_Strategy imports Build_Profile Factory_Model begin

text \<open>
  The registry of approved build profiles (\<open>app/factory/build_strategy.py\<close>): its construction from
  the operator's profiles and repository mappings, the selection for a work order (explicit name,
  then mapping, then safe detection, with no fallback), and the reconstruction of the exact profile
  a persisted selection recorded. What the operating system answers about the workspace (lstat,
  bounded read, parse) is the parameter \<open>fs\<close>; fingerprints are the parameter \<open>dg\<close>.
\<close>

section \<open>The file system's answers\<close>

datatype lstat_answer = Missing | Stat_error | Stat (stat_regular: bool) (stat_size: nat)
datatype parse_answer = Parse_invalid | Parse_object | Parse_other

text \<open>A bounded read: refused, not a regular file, or the number of bytes read (at most one more
  than asked for) with what the parser makes of them.\<close>

datatype read_answer = Read_error | Read_irregular | Read_bytes nat parse_answer

record workspace_fs =
  wf_root_is_dir :: "string \<Rightarrow> bool option"
  wf_lstat :: "string \<Rightarrow> string \<Rightarrow> lstat_answer"
  wf_read :: "string \<Rightarrow> string \<Rightarrow> read_answer"

section \<open>The registry\<close>

record profile_registry =
  pr_profiles :: "(string, build_profile) pydict"
  pr_repository_profiles :: "(string, string) pydict"

text \<open>\<open>str.casefold\<close> on the Latin-1 range: lower case, and sharp s (223) as two letters.\<close>

definition casefold :: "string \<Rightarrow> string" where
  "casefold s = concat (map (\<lambda>c. if c = CHR 0xDF then ''ss'' else [lower_char c]) s)"

fun add_profiles :: "(string \<times> build_profile) list \<Rightarrow> (string, build_profile) pydict
    \<Rightarrow> (string, build_profile) pydict result" where
  "add_profiles [] d = Inr d"
| "add_profiles ((name, p) # ps) d =
     (if name \<noteq> pf_name p
      then Inl (Exc ValueError ''a chave do perfil deve corresponder ao seu nome.'')
      else add_profiles ps (AList.update name p d))"

definition repository_key_refused :: "string \<Rightarrow> bool" where
  "repository_key_refused repository \<longleftrightarrow>
     (let parts = split_on (CHR ''/'') repository
      in length parts \<noteq> 2 \<or> (\<exists>part \<in> set parts. part = [] \<or> (\<exists>c \<in> set part. is_space c)))"

fun add_mappings :: "(string, build_profile) pydict \<Rightarrow> (string \<times> string) list \<Rightarrow> (string, string) pydict
    \<Rightarrow> (string, string) pydict result" where
  "add_mappings profiles [] d = Inr d"
| "add_mappings profiles ((repository, name) # ms) d =
     (if repository_key_refused repository
      then Inl (Exc ValueError ''o mapeamento deve usar repositorios owner/repo.'')
      else if map_of profiles name = None
      then Inl (Exc ValueError (''perfil mapeado desconhecido: '' @ name @ ''.''))
      else if map_of d (casefold repository) \<notin> {None, Some name}
      then Inl (Exc ValueError ''mapeamentos conflitantes para o mesmo repositorio.'')
      else add_mappings profiles ms (AList.update (casefold repository) name d))"

definition new_profile_registry ::
  "(string \<times> build_profile) list \<Rightarrow> (string \<times> string) list \<Rightarrow> profile_registry result" where
  "new_profile_registry profiles mappings =
     (case add_profiles profiles [] of
        Inl e \<Rightarrow> Inl e
      | Inr ps \<Rightarrow>
          (case add_mappings ps mappings [] of
             Inl e \<Rightarrow> Inl e
           | Inr ms \<Rightarrow> Inr \<lparr>pr_profiles = ps, pr_repository_profiles = ms\<rparr>))"

definition get_profile :: "profile_registry \<Rightarrow> string \<Rightarrow> build_profile result" where
  "get_profile reg name =
     (case dict_get (pr_profiles reg) name of
        None \<Rightarrow> Inl (Exc ValueError (''perfil de build desconhecido: '' @ name @ ''.''))
      | Some p \<Rightarrow> Inr p)"

section \<open>Reconstruction\<close>

definition case_digests :: "digests \<Rightarrow> acceptance_suite option \<Rightarrow> (string, string) pydict" where
  "case_digests dg suite =
     (case suite of None \<Rightarrow> [] | Some s \<Rightarrow> dict_of (map (\<lambda>c. (ca_id c, dg_case dg c)) (su_cases s)))"

definition acceptance_diverges :: "digests \<Rightarrow> build_profile_selection \<Rightarrow> acceptance_suite option \<Rightarrow> bool" where
  "acceptance_diverges dg sel suite \<longleftrightarrow>
     sel_acceptance_digest sel \<noteq> map_option (dg_suite dg) suite
     \<or> \<not> same_dict (sel_acceptance_cases sel) (case_digests dg suite)
     \<or> (case suite of
          None \<Rightarrow> sel_acceptance_criteria sel \<noteq> []
        | Some s \<Rightarrow> sel_acceptance_criteria sel = []
            \<or> \<not> set (sel_acceptance_criteria sel) \<subseteq> set (map ca_criterion (su_cases s)))"

definition profile_for :: "digests \<Rightarrow> profile_registry \<Rightarrow> build_profile_selection \<Rightarrow> build_profile result" where
  "profile_for dg reg sel =
     (case sel_selected_profile sel of
        None \<Rightarrow> Inl (Exc ValueError ''a selecao nao contem um perfil de build suportado.'')
      | Some name \<Rightarrow>
          if sel_selection_reason sel \<notin> {Some Explicit, Some RepositoryMapping, Some Detected}
          then Inl (Exc ValueError ''a selecao nao contem um perfil de build suportado.'')
          else
            case get_profile reg name of
              Inl e \<Rightarrow> Inl e
            | Inr p \<Rightarrow>
                if sel_profile_digest sel \<noteq> Some (dg_profile dg p)
                then Inl (Exc ValueError ''o fingerprint do perfil mudou; uma nova selecao e necessaria.'')
                else if sel_architecture_digest sel \<noteq> map_option (dg_policy dg) (pf_architecture p)
                then Inl (Exc ValueError ''O fingerprint da politica de arquitetura diverge da selecao.'')
                else if acceptance_diverges dg sel (pf_acceptance p)
                then Inl (Exc ValueError ''Contrato de aceitacao diverge da selecao ou nao cobre os criterios.'')
                else if sel_phases sel \<noteq> map (phase_value \<circ> bp_name) (pf_phases p)
                then Inl (Exc ValueError ''as fases registradas nao correspondem ao perfil aprovado.'')
                else Inr p)"

section \<open>Selection\<close>

definition empty_selection :: build_profile_selection where
  "empty_selection =
     \<lparr>sel_requested_profile = None, sel_selected_profile = None, sel_selection_reason = None,
      sel_phases = [], sel_profile_digest = None, sel_architecture_digest = None,
      sel_acceptance_digest = None, sel_acceptance_cases = [], sel_acceptance_criteria = [],
      sel_unsupported_reason = None\<rparr>"

definition unsupported :: "string option \<Rightarrow> string \<Rightarrow> build_profile_selection" where
  "unsupported requested reason = empty_selection
     \<lparr>sel_requested_profile := requested, sel_selection_reason := Some Unsupported,
      sel_unsupported_reason := Some reason\<rparr>"

definition named_selection ::
  "digests \<Rightarrow> profile_registry \<Rightarrow> string \<Rightarrow> string option \<Rightarrow> selection_reason \<Rightarrow> build_profile_selection" where
  "named_selection dg reg name requested reason =
     (case dict_get (pr_profiles reg) name of
        None \<Rightarrow> unsupported requested (''perfil de build desconhecido: '' @ name @ ''.'')
      | Some p \<Rightarrow> empty_selection
          \<lparr>sel_requested_profile := requested, sel_selected_profile := Some (pf_name p),
           sel_selection_reason := Some reason, sel_profile_digest := Some (dg_profile dg p),
           sel_architecture_digest := map_option (dg_policy dg) (pf_architecture p),
           sel_phases := map (phase_value \<circ> bp_name) (pf_phases p)\<rparr>)"

definition max_manifest_bytes :: nat where
  "max_manifest_bytes = 128 * 1024"

record manifest =
  mf_present :: bool
  mf_error :: "string option"

definition refused_manifest :: "string \<Rightarrow> manifest" where
  "refused_manifest e = \<lparr>mf_present = True, mf_error = Some e\<rparr>"

definition inspect_manifest :: "workspace_fs \<Rightarrow> string \<Rightarrow> string \<Rightarrow> manifest" where
  "inspect_manifest fs dir name =
     (case wf_lstat fs dir name of
        Missing \<Rightarrow> \<lparr>mf_present = False, mf_error = None\<rparr>
      | Stat_error \<Rightarrow> refused_manifest (''nao foi possivel inspecionar '' @ name @ '' com seguranca.'')
      | Stat regular bytes \<Rightarrow>
          if \<not> regular then refused_manifest (name @ '' deve ser um arquivo regular, sem link simbolico.'')
          else if bytes > max_manifest_bytes then refused_manifest (name @ '' excede o limite de 128 KiB.'')
          else
            case wf_read fs dir name of
              Read_error \<Rightarrow> refused_manifest (''nao foi possivel ler '' @ name @ '' com seguranca.'')
            | Read_irregular \<Rightarrow> refused_manifest (name @ '' nao e um arquivo regular.'')
            | Read_bytes n parsed \<Rightarrow>
                if n > max_manifest_bytes then refused_manifest (name @ '' excede o limite de 128 KiB.'')
                else if parsed = Parse_invalid then refused_manifest (name @ '' contem TOML/JSON invalido.'')
                else if name \<noteq> ''pyproject.toml'' \<and> parsed \<noteq> Parse_object
                then refused_manifest (name @ '' deve conter um objeto JSON.'')
                else \<lparr>mf_present = True, mf_error = None\<rparr>)"

definition ecosystem_name :: "ecosystem \<Rightarrow> string" where
  "ecosystem_name e = (case e of Python \<Rightarrow> ''python'' | Node \<Rightarrow> ''node'')"

definition detect_selection ::
  "digests \<Rightarrow> profile_registry \<Rightarrow> workspace_fs \<Rightarrow> string \<Rightarrow> string option \<Rightarrow> build_profile_selection" where
  "detect_selection dg reg fs dir requested =
     (let py = inspect_manifest fs dir ''pyproject.toml'';
          nd = inspect_manifest fs dir ''package.json''
      in if mf_present py \<and> mf_present nd
         then unsupported requested (''deteccao ambigua: pyproject.toml e package.json estao presentes; ''
                @ ''configure um perfil explicito ou um mapeamento de operador.'')
         else case mf_error py of Some e \<Rightarrow> unsupported requested e
         | None \<Rightarrow>
        (case mf_error nd of Some e \<Rightarrow> unsupported requested e
         | None \<Rightarrow>
             if \<not> mf_present py \<and> \<not> mf_present nd
             then unsupported requested ''nenhum manifesto pyproject.toml ou package.json foi encontrado.''
             else
               let eco = (if mf_present py then Python else Node);
                   candidates = filter (\<lambda>p. pf_auto_detect p \<and> pf_ecosystem p = eco) (map snd (pr_profiles reg))
               in case candidates of
                    [] \<Rightarrow> unsupported requested (''nenhum perfil auto_detect aprovado para '' @ ecosystem_name eco @ ''.'')
                  | [p] \<Rightarrow> named_selection dg reg (pf_name p) requested Detected
                  | _ \<Rightarrow> unsupported requested (''mais de um perfil auto_detect para '' @ ecosystem_name eco
                           @ ''; configure um perfil explicito ou um mapeamento de operador.'')))"

definition repository_differs :: "repository_target \<Rightarrow> repository_target \<Rightarrow> bool" where
  "repository_differs target provisioned \<longleftrightarrow>
     casefold (rt_scm_host target) \<noteq> casefold (rt_scm_host provisioned)
     \<or> casefold (rt_full_name target) \<noteq> casefold (rt_full_name provisioned)
     \<or> rt_base_ref target \<noteq> rt_base_ref provisioned"

definition select_unchecked ::
  "digests \<Rightarrow> profile_registry \<Rightarrow> workspace_fs \<Rightarrow> work_order \<Rightarrow> workspace_lease \<Rightarrow> build_profile_selection" where
  "select_unchecked dg reg fs order lease =
     (let requested = sel_requested_profile (wo_build_profile order);
          target = wo_repository order
      in if repository_differs target (le_repository lease)
         then unsupported requested ''o repositorio da workspace lease nao corresponde a ordem.''
         else case wf_root_is_dir fs (le_local_path lease) of
           None \<Rightarrow> unsupported requested ''o diretorio do workspace nao esta disponivel.''
         | Some False \<Rightarrow> unsupported requested ''o workspace deve ser um diretorio real, nao um link simbolico.''
         | Some True \<Rightarrow>
             (case requested of
                Some name \<Rightarrow> named_selection dg reg name requested Explicit
              | None \<Rightarrow>
                  (case dict_get (pr_repository_profiles reg) (casefold (rt_full_name target)) of
                     Some mapped \<Rightarrow> named_selection dg reg mapped requested RepositoryMapping
                   | None \<Rightarrow> detect_selection dg reg fs (le_local_path lease) requested)))"

definition select_strategy ::
  "digests \<Rightarrow> profile_registry \<Rightarrow> workspace_fs \<Rightarrow> work_order \<Rightarrow> workspace_lease
     \<Rightarrow> build_profile_selection result" where
  "select_strategy dg reg fs order lease =
     (let selected = select_unchecked dg reg fs order lease in
      case sel_selected_profile selected of
        None \<Rightarrow> Inr selected
      | Some name \<Rightarrow>
          (case get_profile reg name of
             Inl e \<Rightarrow> Inl e
           | Inr p \<Rightarrow>
               (case pf_acceptance p of
                  None \<Rightarrow> Inr selected
                | Some suite \<Rightarrow>
                    if \<not> set (wo_acceptance_criteria order) \<subseteq> set (map ca_criterion (su_cases suite))
                    then Inr (unsupported (sel_requested_profile selected)
                      ''A suite de aceitacao nao cobre todos os criterios aprovados da ordem.'')
                    else Inr (selected
                      \<lparr>sel_acceptance_digest := Some (dg_suite dg suite),
                       sel_acceptance_cases := case_digests dg (Some suite),
                       sel_acceptance_criteria := wo_acceptance_criteria order\<rparr>))))"

section \<open>The interface the workflow relies on\<close>

text \<open>What a caller may assume of a strategy registry: a selection is unsupported or names a profile
  that can be reconstructed from it, and reconstruction never succeeds on an unsupported one.\<close>

locale strategy_registry =
  fixes pick :: "'r \<Rightarrow> work_order \<Rightarrow> workspace_lease \<Rightarrow> build_profile_selection result"
    and rebuild :: "'r \<Rightarrow> build_profile_selection \<Rightarrow> 'p result"
    and reg_ok :: "'r \<Rightarrow> bool"
  assumes pick_total: "reg_ok r \<Longrightarrow> \<exists>sel. pick r order lease = Inr sel"
    and pick_rebuild: "reg_ok r \<Longrightarrow> wo_acceptance_criteria order \<noteq> [] \<Longrightarrow> pick r order lease = Inr sel
        \<Longrightarrow> sel_selection_reason sel \<noteq> Some Unsupported \<Longrightarrow> \<exists>p. rebuild r sel = Inr p"
    and rebuild_supported: "rebuild r sel = Inr p \<Longrightarrow> sel_selection_reason sel \<noteq> Some Unsupported"
begin

text \<open>A fresh selection is supported exactly when it can be rebuilt.\<close>

lemma pick_supported_iff:
  assumes "reg_ok r" "wo_acceptance_criteria order \<noteq> []" "pick r order lease = Inr sel"
  shows "sel_selection_reason sel \<noteq> Some Unsupported \<longleftrightarrow> (\<exists>p. rebuild r sel = Inr p)"
  using assms pick_rebuild rebuild_supported by metis

end

section \<open>This registry provides it\<close>

definition profile_registry_ok :: "profile_registry \<Rightarrow> bool" where
  "profile_registry_ok reg \<longleftrightarrow> (\<exists>profiles mappings. new_profile_registry profiles mappings = Inr reg)"

definition names_ok :: "(string, build_profile) pydict \<Rightarrow> bool" where
  "names_ok d \<longleftrightarrow> (\<forall>n. map_of d n \<noteq> None \<longrightarrow> pf_name (the (map_of d n)) = n)"

lemma add_profiles_names: "add_profiles ps d = Inr d' \<Longrightarrow> names_ok d \<Longrightarrow> names_ok d'"
proof (induction ps d rule: add_profiles.induct)
  case (2 name p ps d)
  then have "name = pf_name p" "add_profiles ps (AList.update name p d) = Inr d'" by (simp_all split: if_splits)
  moreover have "names_ok (AList.update name p d)" using 2(3) \<open>name = pf_name p\<close> by (simp add: names_ok_def)
  ultimately show ?case using "2.IH" by simp
qed simp

lemma registry_names:
  assumes "profile_registry_ok reg" and "map_of (pr_profiles reg) n = Some p"
  shows "pf_name p = n"
proof -
  from assms(1) obtain profiles mappings where "new_profile_registry profiles mappings = Inr reg"
    by (auto simp: profile_registry_ok_def)
  then have "add_profiles profiles [] = Inr (pr_profiles reg)"
    by (auto simp: new_profile_registry_def split: sum.splits)
  from add_profiles_names [OF this] have "names_ok (pr_profiles reg)" by (simp add: names_ok_def)
  then have "map_of (pr_profiles reg) n \<noteq> None \<longrightarrow> pf_name (the (map_of (pr_profiles reg) n)) = n"
    unfolding names_ok_def by (rule spec)
  then show ?thesis using assms(2) by simp
qed

text \<open>A selection before the acceptance contract is added: unsupported, or exactly a profile's.\<close>

definition plain_selection :: "digests \<Rightarrow> profile_registry \<Rightarrow> build_profile_selection \<Rightarrow> bool" where
  "plain_selection dg reg sel \<longleftrightarrow>
     (sel_selected_profile sel = None \<and> sel_selection_reason sel = Some Unsupported)
     \<or> (\<exists>p reason requested. map_of (pr_profiles reg) (pf_name p) = Some p \<and> reason \<noteq> Unsupported
          \<and> sel = named_selection dg reg (pf_name p) requested reason)"

lemma unsupported_plain: "plain_selection dg reg (unsupported requested reason)"
  by (simp add: plain_selection_def unsupported_def empty_selection_def)

lemma named_selection_plain:
  assumes "profile_registry_ok reg" and "reason \<noteq> Unsupported"
  shows "plain_selection dg reg (named_selection dg reg name requested reason)"
proof (cases "map_of (pr_profiles reg) name")
  case None
  then show ?thesis using unsupported_plain by (simp add: named_selection_def)
next
  case (Some p)
  with registry_names [OF assms(1) Some] assms(2) show ?thesis
    unfolding plain_selection_def by blast
qed

lemma detect_selection_plain:
  assumes "profile_registry_ok reg"
  shows "plain_selection dg reg (detect_selection dg reg fs dir requested)"
proof -
  let ?P = "plain_selection dg reg"
  have candidates: "?P (case cs of [] \<Rightarrow> unsupported requested a
      | p # rest \<Rightarrow> (case rest of [] \<Rightarrow> named_selection dg reg (pf_name p) requested Detected
                    | x # y \<Rightarrow> unsupported requested b))" for cs a b
    using unsupported_plain named_selection_plain [OF assms]
    by (cases cs; cases "tl cs") simp_all
  have errors: "?P (case e of None \<Rightarrow> s | Some x \<Rightarrow> unsupported requested x)" if "?P s" for e s
    using that unsupported_plain by (cases e) simp_all
  show ?thesis
    unfolding detect_selection_def Let_def
    by (intro if_split [where P = ?P, THEN iffD2] conjI impI errors candidates unsupported_plain)
qed

lemma select_unchecked_plain:
  assumes "profile_registry_ok reg"
  shows "plain_selection dg reg (select_unchecked dg reg fs order lease)"
proof (cases "wf_root_is_dir fs (le_local_path lease)")
  case (Some b)
  have named: "plain_selection dg reg (named_selection dg reg n rq Explicit)"
    "plain_selection dg reg (named_selection dg reg n rq RepositoryMapping)" for n rq
    using named_selection_plain [OF assms] by simp_all
  show ?thesis
    unfolding select_unchecked_def Let_def Some
    by (cases b; cases "sel_requested_profile (wo_build_profile order)";
        cases "dict_get (pr_repository_profiles reg) (casefold (rt_full_name (wo_repository order)))")
      (simp_all add: unsupported_plain named detect_selection_plain [OF assms])
qed (simp add: select_unchecked_def Let_def unsupported_plain)

lemma named_selection_fields:
  assumes "map_of (pr_profiles reg) (pf_name p) = Some p"
  shows "named_selection dg reg (pf_name p) requested reason =
    empty_selection\<lparr>sel_requested_profile := requested, sel_selected_profile := Some (pf_name p),
      sel_selection_reason := Some reason, sel_profile_digest := Some (dg_profile dg p),
      sel_architecture_digest := map_option (dg_policy dg) (pf_architecture p),
      sel_phases := map (phase_value \<circ> bp_name) (pf_phases p)\<rparr>"
  using assms by (simp add: named_selection_def)

lemma select_strategy_cases:
  assumes "profile_registry_ok reg" and "select_strategy dg reg fs order lease = Inr sel"
    and "sel_selection_reason sel \<noteq> Some Unsupported" and "wo_acceptance_criteria order \<noteq> []"
  shows "\<exists>p. map_of (pr_profiles reg) (pf_name p) = Some p \<and> profile_for dg reg sel = Inr p
     \<and> sel_selected_profile sel = Some (pf_name p)"
proof -
  from select_unchecked_plain [OF assms(1), of dg fs order lease] assms(2,3)
  obtain p reason requested where p: "map_of (pr_profiles reg) (pf_name p) = Some p" "reason \<noteq> Unsupported"
    "select_unchecked dg reg fs order lease = named_selection dg reg (pf_name p) requested reason"
    by (auto simp: plain_selection_def select_strategy_def)
  have get: "get_profile reg (pf_name p) = Inr p" using p(1) by (simp add: get_profile_def)
  have reason: "Some reason \<in> {Some Explicit, Some RepositoryMapping, Some Detected}"
    using p(2) by (cases reason) simp_all
  show ?thesis
  proof (cases "pf_acceptance p")
    case None
    with assms(2) have sel: "sel = named_selection dg reg (pf_name p) requested reason"
      by (simp add: select_strategy_def Let_def p(3) named_selection_fields [OF p(1)] get)
    have "profile_for dg reg sel = Inr p"
      using reason None unfolding sel named_selection_fields [OF p(1)]
      by (simp add: profile_for_def get acceptance_diverges_def case_digests_def same_dict_def empty_selection_def)
    with p(1) show ?thesis by (simp add: sel named_selection_fields)
  next
    case (Some suite)
    from assms(2,3) have sub: "set (wo_acceptance_criteria order) \<subseteq> set (map ca_criterion (su_cases suite))"
      by (auto simp: select_strategy_def Let_def p(3) named_selection_fields [OF p(1)] get Some unsupported_def split: if_splits)
    with assms(2) have sel: "sel = (named_selection dg reg (pf_name p) requested reason)
        \<lparr>sel_acceptance_digest := Some (dg_suite dg suite), sel_acceptance_cases := case_digests dg (Some suite),
         sel_acceptance_criteria := wo_acceptance_criteria order\<rparr>"
      by (simp add: select_strategy_def Let_def p(3) named_selection_fields [OF p(1)] get Some)
    have "profile_for dg reg sel = Inr p"
      using reason Some sub assms(4) unfolding sel named_selection_fields [OF p(1)]
      by (simp add: profile_for_def get acceptance_diverges_def same_dict_def)
    with p(1) show ?thesis by (simp add: sel named_selection_fields)
  qed
qed

lemma select_strategy_total:
  assumes "profile_registry_ok reg"
  shows "\<exists>sel. select_strategy dg reg fs order lease = Inr sel"
proof -
  have "sel_selected_profile (select_unchecked dg reg fs order lease) = None
     \<or> (\<exists>p. map_of (pr_profiles reg) (pf_name p) = Some p
          \<and> sel_selected_profile (select_unchecked dg reg fs order lease) = Some (pf_name p))"
    using select_unchecked_plain [OF assms, of dg fs order lease]
    by (auto simp: plain_selection_def named_selection_fields)
  then show ?thesis
    by (auto simp: select_strategy_def get_profile_def Let_def split: option.split)
qed

interpretation strategies: strategy_registry "\<lambda>(dg, reg, fs). select_strategy dg reg fs"
  "\<lambda>(dg, reg, fs). profile_for dg reg" "\<lambda>(dg, reg, fs). profile_registry_ok reg"
proof unfold_locales
  fix r :: "digests \<times> profile_registry \<times> workspace_fs" and order lease sel p
  obtain dg reg fs where r: "r = (dg, reg, fs)" by (cases r)
  show "\<exists>sel. (case r of (dg, reg, fs) \<Rightarrow> select_strategy dg reg fs) order lease = Inr sel"
    if "case r of (dg, reg, fs) \<Rightarrow> profile_registry_ok reg"
    using that select_strategy_total by (simp add: r)
  show "\<exists>p. (case r of (dg, reg, fs) \<Rightarrow> profile_for dg reg) sel = Inr p"
    if "case r of (dg, reg, fs) \<Rightarrow> profile_registry_ok reg" "wo_acceptance_criteria order \<noteq> []"
      "(case r of (dg, reg, fs) \<Rightarrow> select_strategy dg reg fs) order lease = Inr sel"
      "sel_selection_reason sel \<noteq> Some Unsupported"
    using that select_strategy_cases by (fastforce simp: r)
  show "sel_selection_reason sel \<noteq> Some Unsupported"
    if "(case r of (dg, reg, fs) \<Rightarrow> profile_for dg reg) sel = Inr p"
    using that by (auto simp: r profile_for_def split: option.splits if_splits)
qed

text \<open>Selection and reconstruction agree: for a registry its constructor accepted and an order
  with at least one criterion, a selection is supported exactly when the profile can be rebuilt from
  it, and then the rebuilt profile is the registered one of that name with the selection's digest
  and phases; with a suite, every criterion of the order is covered by one of its cases.\<close>

lemma selection_rebuilds_the_approved_profile:
  assumes "profile_registry_ok reg" and "wo_acceptance_criteria order \<noteq> []"
    and "select_strategy dg reg fs order lease = Inr sel"
  shows "(sel_selection_reason sel \<noteq> Some Unsupported \<longleftrightarrow> (\<exists>p. profile_for dg reg sel = Inr p))
    \<and> (\<forall>p. profile_for dg reg sel = Inr p \<longrightarrow>
         map_of (pr_profiles reg) (pf_name p) = Some p \<and> sel_selected_profile sel = Some (pf_name p)
         \<and> sel_profile_digest sel = Some (dg_profile dg p)
         \<and> sel_phases sel = map (phase_value \<circ> bp_name) (pf_phases p)
         \<and> (\<forall>suite. pf_acceptance p = Some suite \<longrightarrow>
              set (sel_acceptance_criteria sel) \<subseteq> ca_criterion ` set (su_cases suite)))"
proof (intro conjI allI impI)
  show "sel_selection_reason sel \<noteq> Some Unsupported \<longleftrightarrow> (\<exists>p. profile_for dg reg sel = Inr p)"
    using strategies.pick_supported_iff [of "(dg, reg, fs)" order lease sel] assms by simp
  fix p assume p: "profile_for dg reg sel = Inr p"
  then obtain n where n: "sel_selected_profile sel = Some n" "map_of (pr_profiles reg) n = Some p"
    by (auto simp: profile_for_def get_profile_def split: option.splits if_splits)
  have name: "pf_name p = n" by (rule registry_names [OF assms(1) n(2)])
  show "map_of (pr_profiles reg) (pf_name p) = Some p" "sel_selected_profile sel = Some (pf_name p)"
    using n name by simp_all
  show "sel_profile_digest sel = Some (dg_profile dg p)"
    "sel_phases sel = map (phase_value \<circ> bp_name) (pf_phases p)"
    using p by (auto simp: profile_for_def split: option.splits if_splits sum.splits)
  show "set (sel_acceptance_criteria sel) \<subseteq> ca_criterion ` set (su_cases suite)"
    if "pf_acceptance p = Some suite" for suite
    using p that by (auto simp: profile_for_def acceptance_diverges_def split: option.splits if_splits sum.splits)
qed

text \<open>One auto-detected profile, a repository mapped to it, and an order for that repository.\<close>

definition sample_profile :: build_profile where
  "sample_profile =
     \<lparr>pf_name = ''py'', pf_ecosystem = Python, pf_image = ''i'', pf_phases = [sample_build_phase],
      pf_auto_detect = True, pf_architecture = None, pf_acceptance = None\<rparr>"

definition sample_digests :: digests where
  "sample_digests =
     \<lparr>dg_case = ca_id, dg_suite = (\<lambda>s. ''s''), dg_policy = (\<lambda>p. ''a''), dg_profile = pf_name,
      dg_suite_json_bytes = (\<lambda>s. 1), dg_policy_json_bytes = (\<lambda>p. 1)\<rparr>"

definition sample_fs :: workspace_fs where
  "sample_fs =
     \<lparr>wf_root_is_dir = (\<lambda>d. Some True),
      wf_lstat = (\<lambda>d n. if n = ''pyproject.toml'' then Stat True 10 else Missing),
      wf_read = (\<lambda>d n. Read_bytes 10 Parse_object)\<rparr>"

definition order_for :: "repository_target \<Rightarrow> work_order" where
  "order_for target =
     \<lparr>wo_id = 1, wo_source = DirectSource, wo_repository = target, wo_requested_outcome = ''x'',
      wo_acceptance_criteria = [''c''],
      wo_limits = \<lparr>wl_max_tokens = 1, wl_max_cost_usd = 1, wl_max_iterations = 1, wl_max_wall_clock_seconds = 1\<rparr>,
      wo_build_profile = empty_selection,
      wo_delivery_policy = \<lparr>dp_create_pull_request = True, dp_wait_for_checks = True,
        dp_checks_timeout_seconds = 60, dp_require_human_merge = True\<rparr>,
      wo_idempotency_key = None, wo_created_at = 0\<rparr>"

definition lease_for :: "repository_target \<Rightarrow> workspace_lease" where
  "lease_for target =
     \<lparr>le_id = 1, le_workflow_id = ''w'', le_repository = target, le_local_path = ''/w'',
      le_branch = ''b'', le_base_sha = ''s'', le_state = WS_READY, le_created_at = 0, le_updated_at = 0,
      le_retention = \<lparr>re_retain_until = None, re_reason = None\<rparr>, le_failure_reason = None\<rparr>"

definition one_target :: repository_target where
  "one_target =
     \<lparr>rt_full_name = ''o/r'', rt_base_ref = ''main'', rt_scm_host = ''github.com'', rt_expected_base_sha = None\<rparr>"

definition sample_profile_registry :: profile_registry where
  "sample_profile_registry = \<lparr>pr_profiles = [(''py'', sample_profile)], pr_repository_profiles = []\<rparr>"

lemma sample_profile_registry_ok: "profile_registry_ok sample_profile_registry"
  unfolding profile_registry_ok_def
  by (intro exI [of _ "[(''py'', sample_profile)]"] exI [of _ "[]"])
    (simp add: new_profile_registry_def sample_profile_registry_def sample_profile_def)

lemma selection_rebuilds_the_approved_profile_witness:
  "\<exists>sel. select_strategy sample_digests sample_profile_registry sample_fs (order_for one_target) (lease_for one_target) = Inr sel
     \<and> (\<exists>p. profile_for sample_digests sample_profile_registry sel = Inr p)"
proof -
  let ?sel = "named_selection sample_digests sample_profile_registry ''py'' None Detected"
  have chosen: "select_unchecked sample_digests sample_profile_registry sample_fs (order_for one_target) (lease_for one_target) = ?sel"
    by (simp add: select_unchecked_def order_for_def lease_for_def repository_differs_def empty_selection_def
        sample_fs_def sample_profile_registry_def detect_selection_def inspect_manifest_def
        max_manifest_bytes_def sample_profile_def Let_def)
  have sel: "select_strategy sample_digests sample_profile_registry sample_fs (order_for one_target) (lease_for one_target) = Inr ?sel"
    unfolding select_strategy_def chosen
    by (simp add: named_selection_def sample_profile_registry_def sample_profile_def get_profile_def empty_selection_def)
  have "sel_selection_reason ?sel \<noteq> Some Unsupported"
    by (simp add: named_selection_def sample_profile_registry_def empty_selection_def)
  moreover have "wo_acceptance_criteria (order_for one_target) \<noteq> []" by (simp add: order_for_def)
  ultimately show ?thesis
    using selection_rebuilds_the_approved_profile [OF sample_profile_registry_ok _ sel] sel by blast
qed

end
