(* ===== verification/Workflow_State.thy ===== *)
theory Workflow_State imports Task_Model begin

text \<open>
  The shared workflow state (\<open>app/graph/state.py\<close>): budgets, delivery configuration and result,
  the state itself, the reducers of its channels, the derived views and the judge's router. A
  node's return value is a \<open>state_update\<close>: one optional field per channel it may write, absent
  when the node does not return the key. \<open>apply_update\<close> is what the graph runtime does with it,
  the documented behaviour of annotated channels: the reducer where there is one, the last
  value otherwise.
\<close>

section \<open>Budgets, delivery and phases\<close>

record workflow_budget =
  wb_max_tokens :: int
  wb_max_cost_usd :: usd
  wb_max_iterations :: int
  wb_max_wall_clock_seconds :: int

definition wb_valid :: "workflow_budget \<Rightarrow> bool" where
  "wb_valid b \<longleftrightarrow> wb_max_tokens b > 0 \<and> wb_max_cost_usd b > 0 \<and> wb_max_iterations b \<ge> 1
     \<and> wb_max_wall_clock_seconds b > 0"

datatype workflow_phase =
    PH_QUEUED | PH_LOADING_CONTEXT | PH_UNSUPPORTED_BUILD_STRATEGY | PH_PLANNING | PH_EXECUTING
  | PH_EVALUATING | PH_REPLANNING | PH_AWAITING_HUMAN | PH_SYNTHESIZING | PH_DELIVERING
  | PH_PERSISTING | PH_COMPLETED | PH_READY_FOR_HUMAN_REVIEW | PH_FAILED | PH_CANCELLED

record delivery_config =
  dc_repository :: string
  dc_base_branch :: string
  dc_head_branch :: "string option"
  dc_pinned_base_sha :: "string option"
  dc_expected_head_sha :: "string option"
  dc_title :: "string option"
  dc_wait_for_checks :: bool
  dc_checks_timeout_seconds :: int

record delivery_result =
  dr_pull_request_number :: "int option"
  dr_url :: "string option"
  dr_branch :: "string option"
  dr_commit_sha :: "string option"
  dr_ci_state :: string
  dr_checks :: "pyval list"
  dr_failures :: "string list"
  dr_failure_paths :: "string list"
  dr_files :: int
  dr_deletions :: int
  dr_attempts :: int
  dr_error :: "string option"
  dr_note :: "string option"

definition empty_delivery_result :: delivery_result where
  "empty_delivery_result =
     \<lparr>dr_pull_request_number = None, dr_url = None, dr_branch = None, dr_commit_sha = None,
      dr_ci_state = ''skipped'', dr_checks = [], dr_failures = [], dr_failure_paths = [],
      dr_files = 0, dr_deletions = 0, dr_attempts = 0, dr_error = None, dr_note = None\<rparr>"

definition ci_failed :: "delivery_result \<Rightarrow> bool" where
  "ci_failed r \<longleftrightarrow> dr_ci_state r = ''failure''"

section \<open>Reducers\<close>

text \<open>What the loop body of \<open>merge_tasks_by_id\<close> does with one incoming task.\<close>

definition merge_task :: "(uuid, agent_task) pydict \<Rightarrow> agent_task \<Rightarrow> (uuid, agent_task) pydict" where
  "merge_task merged task =
     (case dict_get merged (t_id task) of
        None \<Rightarrow> AList.update (t_id task) task merged
      | Some current \<Rightarrow>
          if t_status current = COMPLETED \<and> t_status task \<noteq> COMPLETED
          then if truthy_str (t_reopen_reason task) \<and> t_reopen_reason task \<noteq> t_reopen_reason current
               then AList.update (t_id task) task merged
               else merged
          else if t_status current = ESCALATED
                  \<and> t_status task \<notin> {ESCALATED, REJECTED, CANCELLED}
          then merged
          else if t_updated_at task \<ge> t_updated_at current
          then AList.update (t_id task) task merged
          else merged)"

definition merge_tasks_by_id :: "agent_task list \<Rightarrow> agent_task list \<Rightarrow> agent_task list" where
  "merge_tasks_by_id existing incoming =
     map snd (foldl merge_task (dict_of (map (\<lambda>t. (t_id t, t)) existing)) incoming)"

definition keep_latest :: "'a \<Rightarrow> 'a \<Rightarrow> 'a" where
  "keep_latest existing incoming = incoming"

type_synonym usage_dict = "(string, rat) pydict"

definition add_usage :: "usage_dict \<Rightarrow> usage_dict \<Rightarrow> usage_dict" where
  "add_usage existing incoming =
     [(''tokens'', dict_get_or existing ''tokens'' 0 + dict_get_or incoming ''tokens'' 0),
      (''cost_usd'', dict_get_or existing ''cost_usd'' 0 + dict_get_or incoming ''cost_usd'' 0)]
     @ List.map_filter (\<lambda>key.
          if dict_get existing key \<noteq> None \<or> dict_get incoming key \<noteq> None
          then Some (key, dict_get_or existing key 0 + dict_get_or incoming key 0)
          else None) [''unconfirmed_tokens'', ''unconfirmed_cost_usd'']"

section \<open>The state\<close>

record workflow_state =
  w_request :: string
  w_project_id :: string
  w_workflow_id :: string
  w_owner_client_id :: string
  w_budget :: workflow_budget
  w_started_at :: timestamp
  w_delivery :: "delivery_config option"
  w_work_order :: "work_order option"
  w_plan :: "agent_task list"
  w_usage :: usage_dict
  w_evaluations :: "evaluation_result list"
  w_phase :: workflow_phase
  w_iteration :: int
  w_context :: "(string \<times> pyval) list"
  w_final_output :: "string option"
  w_error :: "string option"
  w_budget_blocked_reason :: "string option"
  w_human_decision :: "string option"
  w_delivery_result :: "delivery_result option"
  w_workspace :: "workspace_lease option"
  w_build_strategy :: "build_profile_selection option"
  w_factory_stage :: "factory_stage option"

record state_update =
  u_budget :: "workflow_budget option"
  u_plan :: "agent_task list option"
  u_usage :: "usage_dict option"
  u_evaluations :: "evaluation_result list option"
  u_phase :: "workflow_phase option"
  u_iteration :: "int option"
  u_context :: "(string \<times> pyval) list option"
  u_final_output :: "string option option"
  u_error :: "string option option"
  u_budget_blocked_reason :: "string option option"
  u_human_decision :: "string option option"
  u_delivery_result :: "delivery_result option option"
  u_workspace :: "workspace_lease option option"
  u_build_strategy :: "build_profile_selection option option"
  u_factory_stage :: "factory_stage option option"

definition no_update :: state_update where
  "no_update =
     \<lparr>u_budget = None, u_plan = None, u_usage = None, u_evaluations = None, u_phase = None,
      u_iteration = None, u_context = None, u_final_output = None, u_error = None,
      u_budget_blocked_reason = None, u_human_decision = None, u_delivery_result = None,
      u_workspace = None, u_build_strategy = None, u_factory_stage = None\<rparr>"

definition reduced :: "('a \<Rightarrow> 'a \<Rightarrow> 'a) \<Rightarrow> 'a \<Rightarrow> 'a option \<Rightarrow> 'a" where
  "reduced f old new = (case new of None \<Rightarrow> old | Some v \<Rightarrow> f old v)"

definition apply_update :: "workflow_state \<Rightarrow> state_update \<Rightarrow> workflow_state" where
  "apply_update s u =
     s\<lparr>w_budget := reduced keep_latest (w_budget s) (u_budget u),
       w_plan := reduced merge_tasks_by_id (w_plan s) (u_plan u),
       w_usage := reduced add_usage (w_usage s) (u_usage u),
       w_evaluations := reduced (@) (w_evaluations s) (u_evaluations u),
       w_phase := reduced keep_latest (w_phase s) (u_phase u),
       w_iteration := reduced keep_latest (w_iteration s) (u_iteration u),
       w_context := reduced keep_latest (w_context s) (u_context u),
       w_final_output := reduced keep_latest (w_final_output s) (u_final_output u),
       w_error := reduced keep_latest (w_error s) (u_error u),
       w_budget_blocked_reason := reduced keep_latest (w_budget_blocked_reason s) (u_budget_blocked_reason u),
       w_human_decision := reduced keep_latest (w_human_decision s) (u_human_decision u),
       w_delivery_result := reduced keep_latest (w_delivery_result s) (u_delivery_result u),
       w_workspace := reduced keep_latest (w_workspace s) (u_workspace u),
       w_build_strategy := reduced keep_latest (w_build_strategy s) (u_build_strategy u),
       w_factory_stage := reduced keep_latest (w_factory_stage s) (u_factory_stage u)\<rparr>"

section \<open>Derived views\<close>

definition completed_tasks :: "workflow_state \<Rightarrow> agent_task list" where
  "completed_tasks s = filter (\<lambda>t. t_status t = COMPLETED) (w_plan s)"

definition escalated_tasks :: "workflow_state \<Rightarrow> agent_task list" where
  "escalated_tasks s = filter (\<lambda>t. t_status t = ESCALATED) (w_plan s)"

definition incomplete_tasks :: "workflow_state \<Rightarrow> agent_task list" where
  "incomplete_tasks s = filter (\<lambda>t. t_status t \<noteq> COMPLETED) (w_plan s)"

definition tasks_needing_replan :: "workflow_state \<Rightarrow> agent_task list" where
  "tasks_needing_replan s = filter (\<lambda>t. t_status t \<in> {REJECTED, FAILED}) (w_plan s)"

definition redispatchable_tasks :: "workflow_state \<Rightarrow> agent_task list" where
  "redispatchable_tasks s = filter (\<lambda>t. is_redispatchable (t_status t)) (w_plan s)"

definition ready_tasks :: "workflow_state \<Rightarrow> agent_task list" where
  "ready_tasks s =
     (let finished = set (map t_id (completed_tasks s))
      in filter (\<lambda>t. \<forall>dep \<in> set (t_dependencies t). dep \<in> finished) (redispatchable_tasks s))"

definition all_approved :: "workflow_state \<Rightarrow> bool" where
  "all_approved s \<longleftrightarrow> w_plan s \<noteq> [] \<and> (\<forall>t \<in> set (w_plan s). t_status t = COMPLETED)"

definition elapsed_seconds :: "timestamp \<Rightarrow> workflow_state \<Rightarrow> rat" where
  "elapsed_seconds now s = of_int (now - w_started_at s) / 1000000"

definition used_tokens :: "workflow_state \<Rightarrow> rat" where
  "used_tokens s = dict_get_or (w_usage s) ''tokens'' 0 + dict_get_or (w_usage s) ''unconfirmed_tokens'' 0"

definition used_cost :: "workflow_state \<Rightarrow> rat" where
  "used_cost s = dict_get_or (w_usage s) ''cost_usd'' 0 + dict_get_or (w_usage s) ''unconfirmed_cost_usd'' 0"

definition budget_exhausted :: "timestamp \<Rightarrow> workflow_state \<Rightarrow> bool" where
  "budget_exhausted now s \<longleftrightarrow>
     w_budget_blocked_reason s \<noteq> None
     \<or> used_tokens s \<ge> of_int (wb_max_tokens (w_budget s))
     \<or> used_cost s \<ge> wb_max_cost_usd (w_budget s)
     \<or> elapsed_seconds now s \<ge> of_int (wb_max_wall_clock_seconds (w_budget s))"

definition iterations_exhausted :: "workflow_state \<Rightarrow> bool" where
  "iterations_exhausted s \<longleftrightarrow> w_iteration s \<ge> wb_max_iterations (w_budget s)"

datatype judge_route = Route_synthesize | Route_replan | Route_human_gate | Route_continue_execution

definition judge_router :: "timestamp \<Rightarrow> workflow_state \<Rightarrow> judge_route" where
  "judge_router now s =
     (if w_budget_blocked_reason s \<noteq> None then Route_human_gate
      else if all_approved s then Route_synthesize
      else if escalated_tasks s \<noteq> [] \<or> budget_exhausted now s then Route_human_gate
      else if tasks_needing_replan s \<noteq> []
      then (if iterations_exhausted s then Route_human_gate else Route_replan)
      else if ready_tasks s \<noteq> [] then Route_continue_execution
      else if incomplete_tasks s \<noteq> [] then Route_human_gate
      else Route_replan)"

section \<open>The task reducer, per task\<close>

text \<open>What the reducer keeps for one id: the incoming task or the current one.\<close>

definition merge_one :: "agent_task option \<Rightarrow> agent_task \<Rightarrow> agent_task" where
  "merge_one c task =
     (case c of
        None \<Rightarrow> task
      | Some current \<Rightarrow>
          if t_status current = COMPLETED \<and> t_status task \<noteq> COMPLETED
          then if truthy_str (t_reopen_reason task) \<and> t_reopen_reason task \<noteq> t_reopen_reason current
               then task else current
          else if t_status current = ESCALATED \<and> t_status task \<notin> {ESCALATED, REJECTED, CANCELLED}
          then current
          else if t_updated_at task \<ge> t_updated_at current then task else current)"

lemma update_same: "map_of d k = Some v \<Longrightarrow> AList.update k v d = d"
  by (induction d) (auto split: if_splits)

lemma merge_task_update: "merge_task d t = AList.update (t_id t) (merge_one (map_of d (t_id t)) t) d"
  by (auto simp: merge_task_def merge_one_def update_same split: option.splits)

lemma foldl_merge_task_map_of:
  "map_of (foldl merge_task d ts) k =
     foldl (\<lambda>c t. Some (merge_one c t)) (map_of d k) (filter (\<lambda>t. t_id t = k) ts)"
  by (induction ts arbitrary: d) (auto simp: merge_task_update)

definition keys_ok :: "(uuid, agent_task) pydict \<Rightarrow> bool" where
  "keys_ok d \<longleftrightarrow> distinct (map fst d) \<and> (\<forall>p \<in> set d. t_id (snd p) = fst p)"

lemma merge_one_id: "(\<forall>c'. c = Some c' \<longrightarrow> t_id c' = t_id t) \<Longrightarrow> t_id (merge_one c t) = t_id t"
  by (cases c) (simp_all add: merge_one_def)

lemma set_update_subset: "set (AList.update k v d) \<subseteq> insert (k, v) (set d)"
  by (induction d) auto

lemma keys_ok_update: "keys_ok d \<Longrightarrow> t_id v = k \<Longrightarrow> keys_ok (AList.update k v d)"
  unfolding keys_ok_def
proof (intro conjI ballI)
  fix p assume ok: "distinct (map fst d) \<and> (\<forall>p \<in> set d. t_id (snd p) = fst p)" and v: "t_id v = k"
    and p: "p \<in> set (AList.update k v d)"
  from p have "p = (k, v) \<or> p \<in> set d" using set_update_subset [of k v d] by blast
  then show "t_id (snd p) = fst p" using ok v by (metis fst_conv snd_conv)
qed (simp add: distinct_update)

lemma keys_ok_lookup: "keys_ok d \<Longrightarrow> map_of d k = Some t \<Longrightarrow> t_id t = k"
  by (auto simp: keys_ok_def dest: map_of_SomeD)

lemma keys_ok_merge_task: "keys_ok d \<Longrightarrow> keys_ok (merge_task d t)"
  unfolding merge_task_update by (intro keys_ok_update merge_one_id) (auto dest: keys_ok_lookup)

lemma keys_ok_foldl: "keys_ok d \<Longrightarrow> keys_ok (foldl merge_task d ts)"
  by (induction ts arbitrary: d) (auto intro: keys_ok_merge_task)

lemma keys_ok_dict_of: "keys_ok (dict_of (map (\<lambda>t. (t_id t, t)) ts))"
proof -
  have "keys_ok d \<Longrightarrow> keys_ok (foldl (\<lambda>d (k, v). AList.update k v d) d (map (\<lambda>t. (t_id t, t)) ts))" for d
    by (induction ts arbitrary: d) (auto intro: keys_ok_update)
  moreover have "keys_ok []" by (simp add: keys_ok_def)
  ultimately show ?thesis unfolding dict_of_def .
qed

lemma keys_ok_snd_ids: "keys_ok d \<Longrightarrow> map t_id (map snd d) = map fst d"
  by (auto simp: keys_ok_def)

text \<open>The task with an id in a plan.\<close>

definition task_in :: "agent_task list \<Rightarrow> uuid \<Rightarrow> agent_task option" where
  "task_in plan i = map_of (map (\<lambda>t. (t_id t, t)) plan) i"

lemma task_in_Some: "task_in plan i = Some t \<Longrightarrow> t \<in> set plan \<and> t_id t = i"
  by (auto simp: task_in_def dest: map_of_SomeD)

lemma task_in_distinct:
  "distinct (map t_id plan) \<Longrightarrow> t \<in> set plan \<Longrightarrow> task_in plan (t_id t) = Some t"
  by (auto simp: task_in_def comp_def intro!: map_of_is_SomeI)

lemma filter_task_in:
  "distinct (map t_id plan) \<Longrightarrow>
     filter (\<lambda>t. t_id t = i) plan = (case task_in plan i of None \<Rightarrow> [] | Some t \<Rightarrow> [t])"
proof (induction plan)
  case (Cons t plan)
  show ?case
  proof (cases "t_id t = i")
    case True
    with Cons.prems have "filter (\<lambda>t. t_id t = i) plan = []"
      by (simp add: filter_empty_conv) (metis image_eqI)
    with True show ?thesis by (simp add: task_in_def)
  qed (use Cons in \<open>simp add: task_in_def\<close>)
qed (simp add: task_in_def)

lemma task_in_snd: "keys_ok d \<Longrightarrow> task_in (map snd d) i = map_of d i"
proof -
  assume "keys_ok d"
  then have "map (\<lambda>t. (t_id t, t)) (map snd d) = d"
    by (auto simp: keys_ok_def intro!: map_idI)
  then show ?thesis by (simp add: task_in_def)
qed

lemma task_in_rev: "distinct (map t_id plan) \<Longrightarrow> task_in (rev plan) i = task_in plan i"
  by (simp add: task_in_def rev_map [symmetric] map_of_rev_distinct comp_def)

text \<open>The reducer's plan, one id at a time.\<close>

lemma task_in_merge:
  assumes "distinct (map t_id existing)"
  shows "task_in (merge_tasks_by_id existing incoming) i =
     foldl (\<lambda>c t. Some (merge_one c t)) (task_in existing i) (filter (\<lambda>t. t_id t = i) incoming)"
proof -
  let ?d = "dict_of (map (\<lambda>t. (t_id t, t)) existing)"
  have "map_of ?d i = task_in existing i"
    using task_in_rev [OF assms] by (simp add: map_of_dict_of task_in_def rev_map)
  then show ?thesis
    by (simp add: merge_tasks_by_id_def task_in_snd keys_ok_foldl keys_ok_dict_of foldl_merge_task_map_of)
qed

lemma distinct_merge: "distinct (map t_id (merge_tasks_by_id existing incoming))"
proof -
  let ?d = "foldl merge_task (dict_of (map (\<lambda>t. (t_id t, t)) existing)) incoming"
  have ok: "keys_ok ?d" by (rule keys_ok_foldl [OF keys_ok_dict_of])
  show ?thesis
    unfolding merge_tasks_by_id_def keys_ok_snd_ids [OF ok] using ok by (simp add: keys_ok_def)
qed

section \<open>Properties of the reducers\<close>

lemma merge_fold_Some:
  "\<exists>c'. foldl (\<lambda>c t. Some (merge_one c t)) (Some c) ts = Some c' \<and> (c' = c \<or> c' \<in> set ts)"
proof (induction ts arbitrary: c)
  case (Cons t ts)
  have "merge_one (Some c) t = c \<or> merge_one (Some c) t = t" by (simp add: merge_one_def)
  moreover obtain c' where "foldl (\<lambda>c t. Some (merge_one c t)) (Some (merge_one (Some c) t)) ts = Some c'"
      "c' = merge_one (Some c) t \<or> c' \<in> set ts"
    using Cons.IH by metis
  ultimately show ?case by (metis foldl_Cons insert_iff list.set(2))
qed simp

text \<open>A status that every offered version keeps is kept.\<close>

lemma merge_fold_status:
  assumes "\<And>c t. t \<in> set ts \<Longrightarrow> t_status c = st \<Longrightarrow> t_status (merge_one (Some c) t) = st"
  shows "t_status c = st \<Longrightarrow> foldl (\<lambda>c t. Some (merge_one c t)) (Some c) ts = Some c' \<Longrightarrow> t_status c' = st"
  using assms
proof (induction ts arbitrary: c)
  case (Cons t ts)
  have "t_status (merge_one (Some c) t) = st" using Cons.prems(1,3) by simp
  moreover have "foldl (\<lambda>c t. Some (merge_one c t)) (Some (merge_one (Some c) t)) ts = Some c'"
    using Cons.prems(2) by simp
  ultimately show ?case using Cons.prems(3) by (intro Cons.IH) simp_all
qed simp

lemma merge_one_completed:
  "t_status t \<noteq> COMPLETED \<longrightarrow> \<not> truthy_str (t_reopen_reason t) \<Longrightarrow> t_status c = COMPLETED
     \<Longrightarrow> t_status (merge_one (Some c) t) = COMPLETED"
  by (simp add: merge_one_def)

lemma merge_one_escalated:
  "t_status t \<noteq> REJECTED \<Longrightarrow> t_status t \<noteq> CANCELLED \<Longrightarrow> t_status c = ESCALATED
     \<Longrightarrow> t_status (merge_one (Some c) t) = ESCALATED"
  by (simp add: merge_one_def)

lemma merge_task_fst:
  "map fst (merge_task d t) = (if t_id t \<in> set (map fst d) then map fst d else map fst d @ [t_id t])"
  unfolding merge_task_update by (induction d) auto

lemma foldl_merge_fst:
  "t_id ` set ts \<subseteq> set (map fst d) \<Longrightarrow> map fst (foldl merge_task d ts) = map fst d"
proof (induction ts arbitrary: d)
  case (Cons t ts)
  then have "map fst (merge_task d t) = map fst d" by (simp add: merge_task_fst)
  with Cons show ?case by (metis foldl_Cons image_subset_iff list.set_intros(2))
qed simp

lemma merge_ids:
  assumes d: "distinct (map t_id existing)" and sub: "t_id ` set incoming \<subseteq> t_id ` set existing"
  shows "map t_id (merge_tasks_by_id existing incoming) = map t_id existing"
proof -
  let ?e = "map (\<lambda>t. (t_id t, t)) existing"
  have "dict_of ?e = ?e" using d by (intro dict_of_distinct) (simp add: comp_def)
  moreover have "map fst (foldl merge_task ?e incoming) = map fst ?e"
    using sub by (intro foldl_merge_fst) (simp add: image_image)
  moreover have "keys_ok (foldl merge_task (dict_of ?e) incoming)"
    by (rule keys_ok_foldl [OF keys_ok_dict_of])
  ultimately show ?thesis
    unfolding merge_tasks_by_id_def by (simp only: keys_ok_snd_ids) (simp add: comp_def)
qed

lemma plan_eqI:
  assumes "map t_id p = map t_id q" and d: "distinct (map t_id p)"
    and eq: "\<And>i. task_in p i = task_in q i"
  shows "p = q"
proof (rule nth_equalityI)
  show len: "length p = length q" using assms(1) by (metis length_map)
  fix n assume n: "n < length p"
  have "t_id (p ! n) = t_id (q ! n)" using assms(1) n len by (metis nth_map)
  moreover have "task_in p (t_id (p ! n)) = Some (p ! n)" using d n by (simp add: task_in_distinct)
  moreover have "task_in q (t_id (q ! n)) = Some (q ! n)"
    using d n len assms(1) by (metis task_in_distinct nth_mem)
  ultimately show "p ! n = q ! n" using eq by (metis option.inject)
qed

text \<open>The reducer on one rewritten version of some tasks of the plan.\<close>

lemma task_in_merge_map:
  assumes d: "distinct (map t_id plan)" and f: "\<And>t. t_id (f t) = t_id t"
  shows "task_in (merge_tasks_by_id plan (map f (filter P plan))) i =
     map_option (\<lambda>c. if P c then merge_one (Some c) (f c) else c) (task_in plan i)"
proof -
  have "filter (\<lambda>t. t_id t = i) (map f (filter P plan)) = map f (filter P (filter (\<lambda>t. t_id t = i) plan))"
    by (simp add: filter_map comp_def f conj_commute)
  then show ?thesis
    by (cases "task_in plan i") (simp_all add: task_in_merge [OF d] filter_task_in [OF d])
qed

lemma merge_map_unchanged:
  assumes d: "distinct (map t_id plan)" and f: "\<And>t. t_id (f t) = t_id t"
    and same: "\<And>t. t \<in> set plan \<Longrightarrow> P t \<Longrightarrow> merge_one (Some t) (f t) = t"
  shows "merge_tasks_by_id plan (map f (filter P plan)) = plan"
proof (rule plan_eqI)
  show "map t_id (merge_tasks_by_id plan (map f (filter P plan))) = map t_id plan"
    by (rule merge_ids [OF d]) (auto simp: f)
  fix i show "task_in (merge_tasks_by_id plan (map f (filter P plan))) i = task_in plan i"
    unfolding task_in_merge_map [OF d f]
    by (cases "task_in plan i") (auto dest: task_in_Some simp: same)
qed (rule distinct_merge)



text \<open>Parallel branches never collide: two updates that touch disjoint sets of tasks of the
  plan give the same plan, order included, whichever is merged first.\<close>

lemma disjoint_branches_commute:
  assumes "distinct (map t_id plan)"
    and "t_id ` set a \<subseteq> t_id ` set plan" and "t_id ` set b \<subseteq> t_id ` set plan"
    and "t_id ` set a \<inter> t_id ` set b = {}"
  shows "merge_tasks_by_id (merge_tasks_by_id plan a) b = merge_tasks_by_id (merge_tasks_by_id plan b) a"
proof (rule plan_eqI)
  have ids: "map t_id (merge_tasks_by_id (merge_tasks_by_id plan x) y) = map t_id plan"
    if "t_id ` set x \<subseteq> t_id ` set plan" "t_id ` set y \<subseteq> t_id ` set plan" for x y
  proof -
    have "map t_id (merge_tasks_by_id plan x) = map t_id plan" using assms(1) that(1) by (rule merge_ids)
    then show ?thesis using that(2) assms(1) by (metis merge_ids set_map)
  qed
  show "map t_id (merge_tasks_by_id (merge_tasks_by_id plan a) b) =
      map t_id (merge_tasks_by_id (merge_tasks_by_id plan b) a)"
    using ids assms by metis
  show "distinct (map t_id (merge_tasks_by_id (merge_tasks_by_id plan a) b))" by (rule distinct_merge)
  fix i
  have "filter (\<lambda>t. t_id t = i) a = [] \<or> filter (\<lambda>t. t_id t = i) b = []"
    using assms(4) unfolding filter_empty_conv by blast
  then show "task_in (merge_tasks_by_id (merge_tasks_by_id plan a) b) i =
      task_in (merge_tasks_by_id (merge_tasks_by_id plan b) a) i"
    using assms(1) by (elim disjE) (simp_all add: task_in_merge distinct_merge)
qed

lemma disjoint_branches_commute_witness:
  "merge_tasks_by_id (merge_tasks_by_id [sample_task 1 PENDING, sample_task 2 PENDING]
       [sample_task 1 COMPLETED]) [sample_task 2 FAILED]
   = merge_tasks_by_id (merge_tasks_by_id [sample_task 1 PENDING, sample_task 2 PENDING]
       [sample_task 2 FAILED]) [sample_task 1 COMPLETED]"
  by (rule disjoint_branches_commute) (simp_all add: sample_task_def)

definition usage_keys :: "string list" where
  "usage_keys = [''tokens'', ''cost_usd'', ''unconfirmed_tokens'', ''unconfirmed_cost_usd'']"

lemma add_usage_get:
  "k \<in> set usage_keys \<Longrightarrow> dict_get_or (add_usage a b) k 0 = dict_get_or a k 0 + dict_get_or b k 0"
proof -
  assume "k \<in> set usage_keys"
  then consider "k = ''tokens''" | "k = ''cost_usd''" | "k = ''unconfirmed_tokens''"
    | "k = ''unconfirmed_cost_usd''"
    by (auto simp: usage_keys_def)
  then show ?thesis
    by cases (simp_all add: add_usage_def List.map_filter_simps dict_get_or_def split: option.split)
qed

text \<open>The usage reducer is a sum: after any number of updates, each of the four counters is
  the initial value plus the sum of what the updates reported, so the order in which parallel
  branches report cannot matter.\<close>

lemma usage_updates_are_summed:
  "map (\<lambda>k. dict_get_or (foldl add_usage u us) k 0) usage_keys =
   map (\<lambda>k. dict_get_or u k 0 + sum_list (map (\<lambda>v. dict_get_or v k 0) us)) usage_keys"
proof (rule map_cong [OF refl])
  fix k assume "k \<in> set usage_keys"
  then show "dict_get_or (foldl add_usage u us) k 0 =
      dict_get_or u k 0 + sum_list (map (\<lambda>v. dict_get_or v k 0) us)"
    by (induction us arbitrary: u) (simp_all add: add_usage_get)
qed

section \<open>Properties of the judge's router\<close>

lemma router_views:
  "all_approved s \<longleftrightarrow> w_plan s \<noteq> [] \<and> incomplete_tasks s = []"
  by (auto simp: all_approved_def incomplete_tasks_def filter_empty_conv)

text \<open>The router after the judge: synthesis exactly when every task of a non-empty plan is
  approved and no call was refused by the budget; an unapproved plan goes to the human as soon as
  a task is escalated or the budget is spent; the planner is called again for a non-empty plan
  only with a rejected or failed task, iterations left and budget left; execution goes on only
  with a ready task and budget left.\<close>

lemma judge_router_never_settles_for_less:
  "(judge_router now s = Route_synthesize \<longleftrightarrow> w_budget_blocked_reason s = None \<and> all_approved s)
   \<and> (\<not> all_approved s \<and> (escalated_tasks s \<noteq> [] \<or> budget_exhausted now s)
        \<longrightarrow> judge_router now s = Route_human_gate)
   \<and> (judge_router now s = Route_replan \<and> w_plan s \<noteq> []
        \<longrightarrow> tasks_needing_replan s \<noteq> [] \<and> \<not> iterations_exhausted s \<and> \<not> budget_exhausted now s)
   \<and> (judge_router now s = Route_continue_execution
        \<longrightarrow> ready_tasks s \<noteq> [] \<and> tasks_needing_replan s = [] \<and> \<not> budget_exhausted now s)"
  by (simp add: judge_router_def router_views)

definition sample_workflow_budget :: workflow_budget where
  "sample_workflow_budget =
     \<lparr>wb_max_tokens = 500000, wb_max_cost_usd = 5, wb_max_iterations = 3,
      wb_max_wall_clock_seconds = 1800\<rparr>"

definition sample_state :: "agent_task list \<Rightarrow> workflow_state" where
  "sample_state plan =
     \<lparr>w_request = ''r'', w_project_id = ''p'', w_workflow_id = ''w'', w_owner_client_id = ''o'',
      w_budget = sample_workflow_budget, w_started_at = 0, w_delivery = None, w_work_order = None,
      w_plan = plan, w_usage = [], w_evaluations = [], w_phase = PH_EVALUATING, w_iteration = 1,
      w_context = [], w_final_output = None, w_error = None, w_budget_blocked_reason = None,
      w_human_decision = None, w_delivery_result = None, w_workspace = None,
      w_build_strategy = None, w_factory_stage = None\<rparr>"

lemma judge_router_never_settles_for_less_witness:
  "judge_router 10 (sample_state [sample_task 1 COMPLETED, sample_task 2 ESCALATED]) = Route_human_gate"
proof -
  let ?s = "sample_state [sample_task 1 COMPLETED, sample_task 2 ESCALATED]"
  have "\<not> all_approved ?s" "escalated_tasks ?s \<noteq> []"
    by (simp_all add: sample_state_def sample_task_def all_approved_def escalated_tasks_def)
  then show ?thesis using judge_router_never_settles_for_less [of 10 ?s] by blast
qed

end
