(* ===== verification/Build_Evidence.thy ===== *)
theory Build_Evidence imports Judge Workflow_State begin

text \<open>
  Objective evidence on tasks (\<open>app/graph/build_evidence.py\<close>, the feedback functions of
  \<open>app/factory/architecture.py\<close> and \<open>app/factory/acceptance.py\<close>) and the collection of publishable
  changes (\<open>collect_publishable_changes\<close> and \<open>task_publishes_changes\<close> of
  \<open>app/infrastructure/scm.py\<close>). JSON text, pydantic's dump and validation of a report, and the text of a
  UUID are the fields of \<open>codec\<close>.
\<close>

record codec =
  cd_env :: py_env
  cd_parse_signal :: "(string \<times> pyval) list \<Rightarrow> validation_signal result"
  cd_json :: "pyval \<Rightarrow> string"
  cd_json_indented :: "pyval \<Rightarrow> string"
  cd_dump_report :: "build_run_result \<Rightarrow> pyval"
  cd_validate_report :: "pyval \<Rightarrow> build_run_result option"
  cd_uuid :: "uuid \<Rightarrow> string"

section \<open>Summaries and reports\<close>

definition only_dict :: "pyval \<Rightarrow> pyval" where
  "only_dict v = (if as_dict v = None then PNone else v)"

definition str_fields :: "string \<Rightarrow> pyval list \<Rightarrow> pyval list" where
  "str_fields key items =
     map PStr (List.map_filter (\<lambda>item. case as_dict item of None \<Rightarrow> None | Some d \<Rightarrow> as_str (pget d key)) items)"

definition attempt_operational_summary :: "codec \<Rightarrow> pyval \<Rightarrow> (string \<times> pyval) list option result" where
  "attempt_operational_summary cd res =
     (case as_dict (dict_field res ''workspace'') of
        None \<Rightarrow> Inr None
      | Some ws \<Rightarrow>
          (let feedback = list_or_empty (pget ws ''command_feedback'') in
           case format_validation_feedback (cd_parse_signal cd) 240 (Some (map Inr feedback)) of
             Inl e \<Rightarrow> Inl e
           | Inr text \<Rightarrow> Inr (Some
               [(''applied_files'', dict_get_or ws ''applied_files'' (PList [])),
                (''diff_paths'', PList (str_fields ''path'' (list_or_empty (pget ws ''file_diffs'')))),
                (''command_feedback'', PList feedback),
                (''validation_feedback_text'', PStr text),
                (''executed_commands'', PList (str_fields ''command'' feedback)),
                (''operation_steps'', PInt (int (length (list_or_empty (pget ws ''operation_history''))))),
                (''git_status'', dict_field (pget ws ''git_snapshot'') ''status''),
                (''strategy'', only_dict (pget ws ''strategy'')),
                (''autocorrect'', only_dict (pget ws ''autocorrect'')),
                (''build_validation'', pget ws ''build_validation'')])))"

definition build_report_from_task :: "codec \<Rightarrow> agent_task \<Rightarrow> build_run_result option" where
  "build_report_from_task cd task =
     (case current_build_validation task of
        Some r \<Rightarrow> Some r
      | None \<Rightarrow>
          (case task_workspace task of
             None \<Rightarrow> None
           | Some ws \<Rightarrow> if pget ws ''build_validation'' = PNone then None
                       else cd_validate_report cd (pget ws ''build_validation'')))"

definition latest_build_report :: "codec \<Rightarrow> agent_task list \<Rightarrow> build_run_result option" where
  "latest_build_report cd tasks =
     (case List.map_filter (build_report_from_task cd) (rev tasks) of [] \<Rightarrow> None | r # _ \<Rightarrow> Some r)"

section \<open>Feedback\<close>

definition architecture_feedback :: "architecture_report \<Rightarrow> pyval list" where
  "architecture_feedback r =
     (if ar_findings r \<noteq> []
      then map (\<lambda>f. PDict
             [(''name'', PStr (''architecture:'' @ af_rule_id f @ '':'' @ af_code f)),
              (''passed'', PBool False),
              (''details'', PStr (af_path f @ '':'' @ show_int (af_line f) @ '' dependency='' @ af_dependency f)),
              (''stderr'', PStr (af_message f)), (''stdout'', PStr (af_remediation f))]) (ar_findings r)
      else [PDict [(''name'', PStr ''architecture''), (''passed'', PBool (architecture_passed r)),
              (''details'', PStr (''files='' @ show_int (ar_files_checked r) @ ''; complete=''
                 @ show_bool (ar_complete r)))]])"

definition acceptance_feedback :: "acceptance_report \<Rightarrow> pyval list" where
  "acceptance_feedback r =
     map (\<lambda>c. let run = ac_execution c in PDict
        [(''name'', PStr (''acceptance:'' @ ac_case_id c)), (''passed'', PBool (case_passed c)),
         (''command'', PStr (join '' '' (ph_command run))), (''exit_code'', opt_int_val (ph_exit_code run)),
         (''details'', PStr (ac_criterion c)), (''stdout'', PStr (ph_stdout run)),
         (''stderr'', PStr (or_str (ph_error_code run)
            (if case_passed c then []
             else ''Comportamento divergente do contrato aprovado; saida deve corresponder exatamente.''))),
         (''duration_seconds'', PFloat (ph_duration_seconds run)),
         (''output_truncated'', PBool (ph_output_truncated run))]) (rp_cases r)"

definition build_feedback :: "codec \<Rightarrow> build_run_result \<Rightarrow> pyval list" where
  "build_feedback cd r =
     (let phases = map (\<lambda>p. PDict
            [(''name'', PStr (''sandbox:'' @ phase_value (ph_phase p))),
             (''passed'', PBool (ph_outcome p = SUCCESS)),
             (''command'', PStr (cd_json cd (PList (map PStr (ph_command p))))),
             (''exit_code'', opt_int_val (ph_exit_code p)),
             (''details'', PStr (phase_detail p)), (''stdout'', PStr (ph_stdout p)),
             (''stderr'', PStr (ph_stderr p)), (''duration_seconds'', PFloat (ph_duration_seconds p)),
             (''output_truncated'', PBool (ph_output_truncated p))]) (br_phases r);
          base = (if phases = [] \<and> br_outcome r \<noteq> SUCCESS
                  then [PDict
                    [(''name'', PStr ''sandbox''), (''passed'', PBool False), (''command'', PStr []),
                     (''exit_code'', PNone),
                     (''details'', PStr (or_str (br_error_code r) (outcome_value (br_outcome r)))),
                     (''stdout'', PStr []), (''stderr'', PStr []), (''duration_seconds'', PFloat 0),
                     (''output_truncated'', PBool False)]]
                  else phases)
      in base
         @ (case br_architecture r of None \<Rightarrow> [] | Some a \<Rightarrow> architecture_feedback a)
         @ (case br_acceptance r of None \<Rightarrow> [] | Some a \<Rightarrow> acceptance_feedback a))"

definition dict_or_empty :: "pyval \<Rightarrow> (string \<times> pyval) list" where
  "dict_or_empty v = (case as_dict v of None \<Rightarrow> [] | Some d \<Rightarrow> d)"

definition attach_build_report :: "codec \<Rightarrow> pyval \<Rightarrow> build_run_result \<Rightarrow> pyval" where
  "attach_build_report cd res r =
     (let attached = dict_or_empty res;
          ws = AList.update ''build_validation'' (cd_dump_report cd r)
                 (dict_or_empty (pget attached ''workspace''));
          feedback = list_or_empty (pget ws ''command_feedback'') @ build_feedback cd r
      in PDict (AList.update ''workspace''
           (PDict (AList.update ''command_feedback'' (PList feedback) ws)) attached))"

section \<open>The veto of the sandbox\<close>

definition combine_signal :: "(string, build_phase_result) pydict \<Rightarrow> string \<Rightarrow> bool option \<Rightarrow> bool option" where
  "combine_signal phases name current =
     (case dict_get phases name of
        None \<Rightarrow> current
      | Some p \<Rightarrow>
          (let passed = (ph_outcome p = SUCCESS)
           in Some (case current of None \<Rightarrow> passed | Some c \<Rightarrow> c \<and> passed)))"

definition evidence_rejected :: "build_run_result \<Rightarrow> bool" where
  "evidence_rejected r \<longleftrightarrow>
     br_outcome r \<noteq> SUCCESS
     \<or> (\<exists>a. br_architecture r = Some a \<and> \<not> architecture_passed a)
     \<or> (\<exists>a. br_acceptance r = Some a \<and> \<not> report_passed a)"

definition veto_failures :: "build_run_result \<Rightarrow> string list" where
  "veto_failures r =
     (let phases = map (\<lambda>p. ''[sandbox:'' @ phase_value (ph_phase p) @ ''] '' @ phase_detail p)
            (filter (\<lambda>p. ph_outcome p \<noteq> SUCCESS) (br_phases r))
      in (if phases \<noteq> [] then phases
          else [''[sandbox] '' @ or_str (br_error_code r) (outcome_value (br_outcome r))])
         @ (case br_architecture r of None \<Rightarrow> []
            | Some a \<Rightarrow> map (\<lambda>f. ''[architecture:'' @ af_rule_id f @ ''] '' @ af_path f @ '':''
                 @ show_int (af_line f) @ '' -> '' @ af_dependency f @ ''; '' @ af_remediation f)
                (take 10 (ar_findings a)))
         @ (case br_acceptance r of None \<Rightarrow> []
            | Some a \<Rightarrow> map (\<lambda>c. ''[acceptance:'' @ ac_case_id c @ ''] '' @ ac_criterion c
                 @ '': saida ou execucao nao atende ao contrato.'')
                (filter (\<lambda>c. \<not> case_passed c) (rp_cases a))))"

text \<open>\<open>model_copy(update=...)\<close> does not run the validator of the evaluation again.\<close>

definition apply_build_veto :: "evaluation_result \<Rightarrow> build_run_result option \<Rightarrow> evaluation_result" where
  "apply_build_veto e report =
     (case report of
        None \<Rightarrow> e
      | Some r \<Rightarrow>
          (let v1 = unique (ev_validated_by e @ [''sandbox'']);
               v2 = (if br_architecture r = None then v1 else unique (v1 @ [''architecture'']));
               v3 = (if br_acceptance r = None then v2 else unique (v2 @ [''independent_acceptance'']));
               phases = dict_of (map (\<lambda>p. (phase_value (ph_phase p), p)) (br_phases r));
               signalled = e\<lparr>ev_validated_by := v3,
                 ev_tests_passed := combine_signal phases ''test'' (ev_tests_passed e),
                 ev_lint_passed := combine_signal phases ''lint'' (ev_lint_passed e),
                 ev_type_check_passed := combine_signal phases ''types'' (ev_type_check_passed e)\<rparr>
           in if evidence_rejected r
              then signalled\<lparr>ev_approved := False, ev_score := min (ev_score e) (4 / 10),
                     ev_failures := ev_failures e @ veto_failures r,
                     ev_required_changes := ev_required_changes e
                       @ [''As fases obrigatorias do perfil de build reprovaram. ''
                          @ ''Corrija a causa usando a evidencia sanitizada abaixo:'']
                       @ veto_failures r\<rparr>
              else signalled))"

section \<open>Rendering\<close>

definition render_task_result :: "codec \<Rightarrow> pyval \<Rightarrow> string" where
  "render_task_result cd res =
     (case as_dict res of
        None \<Rightarrow> if res = PNone then [] else py_str (cd_env cd) res
      | Some d \<Rightarrow>
          (let summary = (case as_str (pget d ''summary'') of
                            None \<Rightarrow> [] | Some s \<Rightarrow> if strip s = [] then [] else [strip s]);
               notes = filter (\<lambda>s. s \<noteq> []) (map strip (List.map_filter as_str (list_or_empty (pget d ''notes''))));
               ws = dict_or_empty (pget d ''workspace'');
               applied = List.map_filter as_str (list_or_empty (pget ws ''applied_files''));
               published = List.map_filter (\<lambda>item. case as_dict item of None \<Rightarrow> None | Some x \<Rightarrow> as_str (pget x ''path''))
                 (list_or_empty (pget ws ''published_files''));
               deleted = unique (List.map_filter as_str (list_or_empty (pget ws ''deleted_paths'')));
               lines = map (\<lambda>p. ''- `'' @ p @ ''`'') (unique (applied @ published))
                 @ map (\<lambda>p. ''- `'' @ p @ ''` (removido)'') deleted;
               parts = summary @ notes
                 @ (if lines = [] then [] else [''Arquivos:'' @ [CHR 0x0A] @ join [CHR 0x0A] lines])
           in if parts \<noteq> [] then join [CHR 0x0A, CHR 0x0A] parts
              else let visible = filter (\<lambda>(k, v). k \<notin> {''exploration'', ''citations''}) d
                   in if visible = [] then [] else cd_json_indented cd (PDict visible)))"

definition with_delivery_section :: "string option \<Rightarrow> delivery_result \<Rightarrow> string" where
  "with_delivery_section final_output r =
     strip (join [CHR 0x0A]
       ([or_str final_output [], [], ''## Entrega'']
        @ (if truthy_str (dr_url r)
           then [''Pull request: '' @ show_opt (dr_url r) @ '' (branch `'' @ show_opt (dr_branch r) @ ''`)''] else [])
        @ (if truthy_str (dr_commit_sha r)
           then [''Commit: `'' @ take 12 (show_opt (dr_commit_sha r)) @ ''`''] else [])
        @ [''CI: '' @ dr_ci_state r]
        @ (if truthy_str (dr_error r) then [''Erro: '' @ show_opt (dr_error r)] else [])
        @ map (\<lambda>line. ''- '' @ line) (take 10 (dr_failures r))))"

definition build_validation_section :: "build_run_result \<Rightarrow> string" where
  "build_validation_section r =
     join [CHR 0x0A]
       ([''## Validacao em sandbox'', ''Resultado: '' @ outcome_value (br_outcome r)]
        @ (case br_acceptance r of
             None \<Rightarrow> [''Aceitacao independente: sem evidencia; testes do repositorio nao comprovam os requisitos por si so.'']
           | Some a \<Rightarrow>
               [''Aceitacao independente: '' @ (if report_passed a then ''aprovada'' else ''reprovada'')
                @ ''; casos='' @ show_nat (length (rp_cases a)) @ ''; criterios declarados=''
                @ show_nat (card (set (rp_required_criteria a))) @ ''; suite='' @ rp_suite_digest a]
               @ map (\<lambda>c. ''- '' @ ac_case_id c @ '': '' @ (if case_passed c then ''passou'' else ''falhou'')
                    @ '' - '' @ ac_criterion c) (rp_cases a))
        @ (case br_architecture r of
             None \<Rightarrow> []
           | Some a \<Rightarrow>
               [''Arquitetura: '' @ (if architecture_passed a then ''aprovada'' else ''reprovada'')
                @ ''; arquivos='' @ show_int (ar_files_checked a)]
               @ map (\<lambda>f. ''- '' @ af_rule_id f @ '': '' @ af_path f @ '':'' @ show_int (af_line f) @ '' -> ''
                    @ af_dependency f @ ''; '' @ af_remediation f) (take 10 (ar_findings a)))
        @ map (\<lambda>p. ''- '' @ phase_value (ph_phase p) @ '': '' @ outcome_value (ph_outcome p) @ '' (''
             @ fmt_fixed 3 (ph_duration_seconds p) @ ''s; '' @ phase_detail p @ '')'') (br_phases r)
        @ (if truthy_str (br_error_code r) \<and> br_phases r = []
           then [''- erro: '' @ show_opt (br_error_code r)] else []))"

section \<open>Publishable changes\<close>

text \<open>What one task's result writes, in order: a path with its content, or its removal.\<close>

definition result_writes :: "pyval \<Rightarrow> (string \<times> string option) list" where
  "result_writes res =
     (case as_dict res of
        None \<Rightarrow> []
      | Some d \<Rightarrow>
          (let ws = dict_or_empty (pget d ''workspace'');
               from_workspace = (as_list (pget ws ''published_files'') \<noteq> None);
               source = (if from_workspace then list_or_empty (pget ws ''published_files'')
                         else list_or_empty (pget d ''files''));
               deleted = (if from_workspace then list_or_empty (pget ws ''deleted_paths'') else [])
           in List.map_filter (\<lambda>item. case as_dict item of
                  None \<Rightarrow> None
                | Some x \<Rightarrow> (case (as_str (pget x ''path''), as_str (pget x ''content'')) of
                              (Some p, Some c) \<Rightarrow> Some (p, Some c) | _ \<Rightarrow> None)) source
              @ map (\<lambda>p. (p, None)) (List.map_filter as_str deleted)))"

definition latest_writes :: "pyval list \<Rightarrow> (string, string option) pydict" where
  "latest_writes results = dict_of (concat (map result_writes results))"

definition collect_publishable_changes :: "pyval list \<Rightarrow> (string \<times> string) list \<times> string list" where
  "collect_publishable_changes results =
     (List.map_filter (\<lambda>(p, c). case c of None \<Rightarrow> None | Some x \<Rightarrow> Some (p, x)) (latest_writes results),
      List.map_filter (\<lambda>(p, c). case c of None \<Rightarrow> Some p | Some x \<Rightarrow> None) (latest_writes results))"

definition task_publishes_changes :: "pyval \<Rightarrow> bool" where
  "task_publishes_changes res =
     (let (files, deletions) = collect_publishable_changes [res] in files \<noteq> [] \<or> deletions \<noteq> [])"

section \<open>Properties\<close>

lemma combine_signal_False: "combine_signal phases n (Some False) = Some False"
  by (simp add: combine_signal_def Let_def split: option.split)


definition sample_evaluation_result :: "bool \<Rightarrow> evaluation_result" where
  "sample_evaluation_result ok =
     \<lparr>ev_task_id = 1, ev_approved = ok, ev_score = 1, ev_criteria_scores = [(''x'', 1)], ev_failures = [],
      ev_required_changes = [], ev_tests_passed = None, ev_lint_passed = None,
      ev_type_check_passed = None, ev_validated_by = [''llm''], ev_judge_models = [],
      ev_independent_judge = None\<rparr>"


lemma combine_signal_SUCCESS:
  assumes "\<forall>p \<in> set ps. ph_outcome p = SUCCESS" and "current \<noteq> Some False"
  shows "combine_signal (dict_of (map (\<lambda>p. (phase_value (ph_phase p), p)) ps)) n current \<noteq> Some False"
proof (cases "dict_get (dict_of (map (\<lambda>p. (phase_value (ph_phase p), p)) ps)) n")
  case (Some p)
  then have "p \<in> set ps" by (auto simp: map_of_dict_of dest!: map_of_SomeD)
  then show ?thesis using assms Some by (cases current) (auto simp: combine_signal_def)
qed (use assms in \<open>simp add: combine_signal_def\<close>)

text \<open>The evaluation contract (no approval with a failing objective signal) survives the sandbox
  veto when the report is consistent, that is when an overall success means that every phase
  succeeded. The validator of the evaluation does not run again on the copy, so this is what keeps
  the contract.\<close>

lemma build_veto_keeps_contract:
  assumes "objective_signals_veto e = Inr e"
    and consistent: "br_outcome r = SUCCESS \<longrightarrow> (\<forall>p \<in> set (br_phases r). ph_outcome p = SUCCESS)"
  shows "objective_signals_veto (apply_build_veto e (Some r)) = Inr (apply_build_veto e (Some r))"
proof (cases "ev_approved e \<and> \<not> evidence_rejected r")
  case True
  then have "\<forall>p \<in> set (br_phases r). ph_outcome p = SUCCESS"
    using consistent by (simp add: evidence_rejected_def)
  from combine_signal_SUCCESS [OF this] True assms(1) show ?thesis
    by (simp add: objective_signals_veto_def objective_failures_def apply_build_veto_def Let_def
        split: if_splits)
next
  case False
  then have "\<not> ev_approved (apply_build_veto e (Some r))" by (auto simp: apply_build_veto_def Let_def)
  then show ?thesis by (simp add: objective_signals_veto_def)
qed

lemma build_veto_keeps_contract_witness:
  "objective_signals_veto (apply_build_veto (sample_evaluation_result True)
      (Some (sample_report SUCCESS [sample_phase TEST SUCCESS])))
   = Inr (apply_build_veto (sample_evaluation_result True) (Some (sample_report SUCCESS [sample_phase TEST SUCCESS])))"
  by (rule build_veto_keeps_contract)
    (simp_all add: objective_signals_veto_def objective_failures_def sample_evaluation_result_def
      sample_report_def sample_phase_def)

text \<open>Without consistency it does not: a report whose outcome is success but whose test phase
  failed leaves the approval in place next to \<open>tests_passed = False\<close>.\<close>

lemma inconsistent_report_escapes_veto:
  "let e' = apply_build_veto (sample_evaluation_result True)
       (Some (sample_report SUCCESS [sample_phase TEST COMMAND_FAILURE]))
   in ev_approved e' \<and> ev_tests_passed e' = Some False"
  by (simp add: apply_build_veto_def sample_evaluation_result_def sample_report_def sample_phase_def
      evidence_rejected_def combine_signal_def dict_of_def Let_def)

lemma latest_writes_map_of:
  "map_of (latest_writes results) p = map_of (rev (concat (map result_writes results))) p"
  by (simp add: latest_writes_def map_of_dict_of)

lemma in_dict_iff: "distinct (map fst d) \<Longrightarrow> (k, v) \<in> set d \<longleftrightarrow> map_of d k = Some v"
  by (metis map_of_SomeD map_of_is_SomeI)

text \<open>The last write of a path wins: each published path has exactly the content of the last
  write to it over all results in order, a deleted path is one whose last write is a removal, and no
  path is published twice or both published and deleted.\<close>

lemma publish_last_write_wins:
  "let writes = rev (concat (map result_writes results));
       (files, deletions) = collect_publishable_changes results
   in distinct (map fst files @ deletions)
    \<and> (\<forall>p c. (p, c) \<in> set files \<longleftrightarrow> map_of writes p = Some (Some c))
    \<and> (\<forall>p. p \<in> set deletions \<longleftrightarrow> map_of writes p = Some None)"
proof -
  let ?d = "latest_writes results"
  let ?files = "List.map_filter (\<lambda>(p, c). case c of None \<Rightarrow> None | Some x \<Rightarrow> Some (p, x)) ?d"
  let ?dels = "List.map_filter (\<lambda>(p, c). case c of None \<Rightarrow> Some p | Some x \<Rightarrow> None) ?d"
  have d: "distinct (map fst ?d)" unfolding latest_writes_def by (rule distinct_dict_of)
  have files: "(p, c) \<in> set ?files \<longleftrightarrow> (p, Some c) \<in> set ?d" for p c
    by (force simp: List.map_filter_def split: option.splits prod.splits)
  have dels: "p \<in> set ?dels \<longleftrightarrow> (p, None) \<in> set ?d" for p
    by (force simp: List.map_filter_def split: option.splits prod.splits)
  have keys: "distinct (map fst e) \<Longrightarrow>
      distinct (map fst (List.map_filter (\<lambda>(p, c). case c of None \<Rightarrow> None | Some x \<Rightarrow> Some (p, x)) e)
        @ List.map_filter (\<lambda>(p, c). case c of None \<Rightarrow> Some p | Some x \<Rightarrow> None) e)"
    for e :: "(string, string option) pydict"
  proof (induction e)
    case (Cons x e)
    obtain p c where x: "x = (p, c)" by (cases x)
    have "set (map fst (List.map_filter (\<lambda>(p, c). case c of None \<Rightarrow> None | Some x \<Rightarrow> Some (p, x)) e))
        \<union> set (List.map_filter (\<lambda>(p, c). case c of None \<Rightarrow> Some p | Some x \<Rightarrow> None) e) \<subseteq> set (map fst e)"
      by (force simp: List.map_filter_def split: option.splits)
    with Cons show ?case by (cases c) (auto simp: x map_filter_simps)
  qed (simp add: map_filter_simps)
  show ?thesis
    using keys [OF d] files dels in_dict_iff [OF d]
    by (simp add: collect_publishable_changes_def Let_def latest_writes_map_of)
qed

end
