(* ===== verification/Factory_Delivery.thy ===== *)
theory Factory_Delivery imports Build_Evidence begin

text \<open>
  The publication contract of the factory (\<open>app/factory/delivery.py\<close>): the delivery
  configuration derived from the checkpointed state alone, refused with a \<open>ValueError\<close> when any
  piece of evidence is missing, and the test for "ready for human review".
\<close>

definition refuse :: "string \<Rightarrow> 'a result" where
  "refuse code = Inl (Exc ValueError code)"

definition lease_mismatch :: "workflow_state \<Rightarrow> work_order \<Rightarrow> workspace_lease \<Rightarrow> bool" where
  "lease_mismatch s order lease \<longleftrightarrow>
     le_workflow_id lease \<noteq> w_workflow_id s
     \<or> le_repository lease \<noteq> wo_repository order
     \<or> le_branch lease \<noteq> ''forgehand/'' @ w_workflow_id s
     \<or> le_state lease \<notin> {WS_READY, WS_ACTIVE}
     \<or> rt_scm_host (wo_repository order) \<noteq> ''github.com''"

text \<open>The test on the build evidence of one task, negated.\<close>

definition validation_missing :: "build_profile_selection \<Rightarrow> agent_task \<Rightarrow> bool" where
  "validation_missing sel task \<longleftrightarrow>
     (case current_build_validation task of
        None \<Rightarrow> True
      | Some r \<Rightarrow>
          br_profile_name r \<noteq> sel_selected_profile sel
          \<or> br_profile_digest r \<noteq> sel_profile_digest sel
          \<or> br_outcome r \<noteq> SUCCESS
          \<or> br_error_code r \<noteq> None
          \<or> \<not> acceptance_verified (br_acceptance r) sel
          \<or> (\<exists>a. br_architecture r = Some a \<and> \<not> architecture_passed a)
          \<or> (sel_architecture_digest sel \<noteq> None
             \<and> (case br_architecture r of
                  None \<Rightarrow> True
                | Some a \<Rightarrow> Some (ar_policy_digest a) \<noteq> sel_architecture_digest sel))
          \<or> map (phase_value \<circ> ph_phase) (br_phases r) \<noteq> sel_phases sel
          \<or> (\<exists>p \<in> set (br_phases r). ph_outcome p \<noteq> SUCCESS \<or> ph_exit_code p \<noteq> Some 0
                \<or> ph_cleanup_failed p \<or> ph_error_code p \<noteq> None))"

definition destination_mismatch :: "workflow_state \<Rightarrow> work_order \<Rightarrow> workspace_lease \<Rightarrow> bool" where
  "destination_mismatch s order lease \<longleftrightarrow>
     (case w_delivery s of
        None \<Rightarrow> False
      | Some c \<Rightarrow>
          dc_repository c \<noteq> rt_full_name (wo_repository order)
          \<or> dc_base_branch c \<noteq> rt_base_ref (wo_repository order)
          \<or> dc_head_branch c \<notin> {None, Some (le_branch lease)}
          \<or> dc_pinned_base_sha c \<notin> {None, Some (str_lower (le_base_sha lease))})"

definition factory_delivery_config :: "workflow_state \<Rightarrow> delivery_config result" where
  "factory_delivery_config s =
     (case (w_work_order s, w_workspace s, w_build_strategy s) of
        (Some order, Some lease, Some sel) \<Rightarrow>
          if lease_mismatch s order lease then refuse ''factory_delivery_lease_mismatch''
          else if \<not> all_approved s \<or> w_human_decision s = Some ''accept_partial''
          then refuse ''factory_delivery_requires_all_tasks_approved''
          else if \<not> truthy_str (sel_selected_profile sel) \<or> \<not> truthy_str (sel_profile_digest sel)
            \<or> sel_phases sel = [] \<or> sel_selection_reason sel = Some Unsupported
          then refuse ''factory_delivery_strategy_missing''
          else if sel_acceptance_digest sel \<noteq> None
            \<and> sel_acceptance_criteria sel \<noteq> wo_acceptance_criteria order
          then refuse ''factory_delivery_acceptance_criteria_mismatch''
          else if \<exists>task \<in> set (w_plan s). validation_missing sel task
          then refuse ''factory_delivery_validation_missing_or_failed''
          else if destination_mismatch s order lease
          then refuse ''factory_delivery_destination_mismatch''
          else if (case w_delivery_result s of
                     None \<Rightarrow> False
                   | Some previous \<Rightarrow> dr_branch previous \<notin> {None, Some (le_branch lease)})
          then refuse ''factory_delivery_previous_branch_mismatch''
          else Inr
            \<lparr>dc_repository = rt_full_name (wo_repository order),
             dc_base_branch = rt_base_ref (wo_repository order),
             dc_head_branch = Some (le_branch lease),
             dc_pinned_base_sha = Some (str_lower (le_base_sha lease)),
             dc_expected_head_sha = (case w_delivery_result s of None \<Rightarrow> None | Some p \<Rightarrow> dr_commit_sha p),
             dc_title = (case w_delivery s of None \<Rightarrow> None | Some c \<Rightarrow> dc_title c),
             dc_wait_for_checks = dp_wait_for_checks (wo_delivery_policy order),
             dc_checks_timeout_seconds = dp_checks_timeout_seconds (wo_delivery_policy order)\<rparr>
      | _ \<Rightarrow> refuse ''factory_delivery_context_missing'')"

definition factory_ready_for_review :: "workflow_state \<Rightarrow> bool" where
  "factory_ready_for_review s \<longleftrightarrow>
     (case factory_delivery_config s of
        Inl e \<Rightarrow> False
      | Inr config \<Rightarrow>
          (case w_delivery_result s of
             None \<Rightarrow> False
           | Some r \<Rightarrow>
               dr_ci_state r = ''success''
               \<and> (case dr_pull_request_number r of None \<Rightarrow> False | Some n \<Rightarrow> n \<noteq> 0)
               \<and> truthy_str (dr_url r) \<and> truthy_str (dr_commit_sha r)
               \<and> dr_branch r = dc_head_branch config
               \<and> \<not> truthy_str (dr_error r) \<and> dr_failures r = []))"

section \<open>What a delivery configuration proves\<close>

lemma factory_delivery_config_evidence:
  assumes "factory_delivery_config s = Inr config"
  shows "\<exists>order lease sel. w_work_order s = Some order \<and> w_workspace s = Some lease
    \<and> w_build_strategy s = Some sel \<and> \<not> lease_mismatch s order lease \<and> all_approved s
    \<and> w_human_decision s \<noteq> Some ''accept_partial'' \<and> sel_selection_reason sel \<noteq> Some Unsupported
    \<and> (\<forall>task \<in> set (w_plan s). \<not> validation_missing sel task)
    \<and> dc_repository config = rt_full_name (wo_repository order)
    \<and> dc_base_branch config = rt_base_ref (wo_repository order)
    \<and> dc_head_branch config = Some (le_branch lease)
    \<and> dc_pinned_base_sha config = Some (str_lower (le_base_sha lease))"
proof -
  obtain order lease sel where "w_work_order s = Some order" "w_workspace s = Some lease"
      "w_build_strategy s = Some sel"
    using assms by (simp add: factory_delivery_config_def refuse_def split: option.splits)
  with assms show ?thesis
    unfolding factory_delivery_config_def by (auto simp: refuse_def split: if_split_asm)
qed

lemma validation_present:
  assumes "\<not> validation_missing sel task"
  shows "\<exists>r. current_build_validation task = Some r \<and> br_profile_digest r = sel_profile_digest sel
    \<and> br_outcome r = SUCCESS \<and> acceptance_verified (br_acceptance r) sel
    \<and> map (phase_value \<circ> ph_phase) (br_phases r) = sel_phases sel
    \<and> (\<forall>p \<in> set (br_phases r). phase_ok p)"
proof -
  obtain r where "current_build_validation task = Some r"
    using assms by (cases "current_build_validation task") (simp_all add: validation_missing_def)
  with assms show ?thesis
    by (auto simp: validation_missing_def phase_ok_def truthy_str_def split: option.splits)
qed


text \<open>A work order that went all the way, for the witnesses.\<close>

definition sample_target :: repository_target where
  "sample_target =
     \<lparr>rt_full_name = ''o/r'', rt_base_ref = ''main'', rt_scm_host = ''github.com'', rt_expected_base_sha = None\<rparr>"

definition sample_selection :: build_profile_selection where
  "sample_selection =
     \<lparr>sel_requested_profile = None, sel_selected_profile = Some ''p'', sel_selection_reason = Some Detected,
      sel_phases = [''test''], sel_profile_digest = Some ''d'', sel_architecture_digest = None,
      sel_acceptance_digest = None, sel_acceptance_cases = [], sel_acceptance_criteria = [],
      sel_unsupported_reason = None\<rparr>"

definition sample_order :: work_order where
  "sample_order =
     \<lparr>wo_id = 1, wo_source = DirectSource, wo_repository = sample_target, wo_requested_outcome = ''x'',
      wo_acceptance_criteria = [''c''],
      wo_limits = \<lparr>wl_max_tokens = 1, wl_max_cost_usd = 1, wl_max_iterations = 1, wl_max_wall_clock_seconds = 1\<rparr>,
      wo_build_profile = sample_selection,
      wo_delivery_policy = \<lparr>dp_create_pull_request = True, dp_wait_for_checks = True,
        dp_checks_timeout_seconds = 60, dp_require_human_merge = True\<rparr>,
      wo_idempotency_key = None, wo_created_at = 0\<rparr>"

definition sample_lease :: workspace_lease where
  "sample_lease =
     \<lparr>le_id = 1, le_workflow_id = ''w'', le_repository = sample_target, le_local_path = ''/w'',
      le_branch = ''forgehand/w'', le_base_sha = ''abc'', le_state = WS_READY, le_created_at = 0,
      le_updated_at = 0, le_retention = \<lparr>re_retain_until = None, re_reason = None\<rparr>, le_failure_reason = None\<rparr>"

definition delivered_task :: agent_task where
  "delivered_task = (sample_task 1 COMPLETED)\<lparr>t_attempts :=
     [sample_attempt (Some ((sample_report SUCCESS [sample_phase TEST SUCCESS])\<lparr>br_profile_digest := Some ''d''\<rparr>))]\<rparr>"

definition delivered_state :: workflow_state where
  "delivered_state = (sample_state [delivered_task])
     \<lparr>w_work_order := Some sample_order, w_workspace := Some sample_lease,
      w_build_strategy := Some sample_selection,
      w_delivery_result := Some (empty_delivery_result
        \<lparr>dr_pull_request_number := Some 7, dr_url := Some ''u'', dr_branch := Some ''forgehand/w'',
         dr_commit_sha := Some ''s'', dr_ci_state := ''success''\<rparr>)\<rparr>"

lemma delivered_task_validated: "\<not> validation_missing sample_selection delivered_task"
  by (simp add: validation_missing_def delivered_task_def sample_attempt_def current_build_validation_def
      last_opt_def sample_report_def sample_selection_def sample_phase_def acceptance_verified_def sample_task_def)

lemma delivered_state_config: "\<exists>c. factory_delivery_config delivered_state = Inr c \<and> dc_head_branch c = Some ''forgehand/w''"
proof -
  have fields: "w_work_order delivered_state = Some sample_order" "w_workspace delivered_state = Some sample_lease"
      "w_build_strategy delivered_state = Some sample_selection" "w_plan delivered_state = [delivered_task]"
      "w_delivery delivered_state = None" "w_human_decision delivered_state = None"
      "w_delivery_result delivered_state = Some (empty_delivery_result
        \<lparr>dr_pull_request_number := Some 7, dr_url := Some ''u'', dr_branch := Some ''forgehand/w'',
         dr_commit_sha := Some ''s'', dr_ci_state := ''success''\<rparr>)"
    by (simp_all add: delivered_state_def sample_state_def)
  have "\<not> lease_mismatch delivered_state sample_order sample_lease"
    by (simp add: lease_mismatch_def sample_lease_def sample_order_def sample_target_def delivered_state_def sample_state_def)
  moreover have "all_approved delivered_state"
    by (simp add: all_approved_def fields delivered_task_def sample_task_def)
  moreover have "\<not> destination_mismatch delivered_state sample_order sample_lease"
    by (simp add: destination_mismatch_def fields)
  moreover have "truthy_str (sel_selected_profile sample_selection)" "truthy_str (sel_profile_digest sample_selection)"
      "sel_phases sample_selection \<noteq> []" "sel_selection_reason sample_selection \<noteq> Some Unsupported"
      "sel_acceptance_digest sample_selection = None"
    by (simp_all add: sample_selection_def truthy_str_def)
  ultimately show ?thesis
    unfolding factory_delivery_config_def
    by (simp add: fields delivered_task_validated sample_lease_def empty_delivery_result_def)
qed

lemma delivered_state_ready: "factory_ready_for_review delivered_state"
proof -
  obtain c where c: "factory_delivery_config delivered_state = Inr c" "dc_head_branch c = Some ''forgehand/w''"
    using delivered_state_config by blast
  have "w_delivery_result delivered_state = Some (empty_delivery_result
        \<lparr>dr_pull_request_number := Some 7, dr_url := Some ''u'', dr_branch := Some ''forgehand/w'',
         dr_commit_sha := Some ''s'', dr_ci_state := ''success''\<rparr>)"
    by (simp add: delivered_state_def)
  with c show ?thesis
    by (simp add: factory_ready_for_review_def empty_delivery_result_def truthy_str_def)
qed


end
