(* ===== verification/Node_Deps.thy ===== *)
theory Node_Deps imports Factory_Delivery Build_Strategy Call_Budget begin

text \<open>
  The boundary of the graph (\<open>app/graph/contracts.py\<close>) and the metering wrapper of its nodes
  (\<open>app/graph/call_budget.py\<close>). A call across a protocol (planner, executor, judge, advisor,
  publisher, memory, build runner, recorders) is an effect: from the ambient stack of call budgets
  and the store of budgets to a result and the store. The protocols' implementations are fields
  of \<open>node_deps\<close>. Reading the clock is an argument: \<open>clk n\<close> is the n-th reading of a node.
\<close>

section \<open>Effects\<close>

type_synonym 'r eff = "nat list \<Rightarrow> budget_store \<Rightarrow> 'r result \<times> budget_store"
type_synonym clock = "nat \<Rightarrow> timestamp"

definition eff_return :: "'r \<Rightarrow> 'r eff" where
  "eff_return x stk \<sigma> = (Inr x, \<sigma>)"

definition eff_raise :: "exc \<Rightarrow> 'r eff" where
  "eff_raise e stk \<sigma> = (Inl e, \<sigma>)"

definition eff_bind :: "'a eff \<Rightarrow> ('a \<Rightarrow> 'b eff) \<Rightarrow> 'b eff" where
  "eff_bind m f stk \<sigma> =
     (case m stk \<sigma> of (Inl e, \<sigma>') \<Rightarrow> (Inl e, \<sigma>') | (Inr x, \<sigma>') \<Rightarrow> f x stk \<sigma>')"

lemma eff_bind_simps [simp]:
  "eff_bind (eff_return x) f = f x" "eff_bind (eff_raise e) f = eff_raise e"
  by (simp_all add: eff_bind_def eff_return_def eff_raise_def fun_eq_iff)

text \<open>\<open>except Exception\<close> catches everything but a cancellation.\<close>

definition is_exception :: "exc \<Rightarrow> bool" where
  "is_exception e \<longleftrightarrow> exc_kind e \<noteq> CancelledError"

section \<open>Protocol values\<close>

record usage_report =
  ug_tokens :: int
  ug_cost_usd :: usd

definition no_usage :: usage_report where
  "no_usage = \<lparr>ug_tokens = 0, ug_cost_usd = 0\<rparr>"

definition usage_of :: "int \<Rightarrow> usd \<Rightarrow> usage_dict" where
  "usage_of tokens cost = [(''tokens'', of_int tokens), (''cost_usd'', cost)]"

record execution_payload =
  pl_task :: agent_task
  pl_project_id :: string
  pl_context :: context_dict
  pl_workspace :: "workspace_lease option"
  pl_factory_stage :: "factory_stage option"
  pl_build_strategy :: "build_profile_selection option"
  pl_owner_client_id :: string
  pl_token_allowance :: "int option"
  pl_cost_allowance_usd :: "usd option"

record execution_outcome =
  eo_result :: pyval
  eo_agent :: string
  eo_model :: string
  eo_tokens :: int
  eo_cost_usd :: usd
  eo_budget_blocked_reason :: "string option"

text \<open>What an executor may return: an outcome, or the protocol's dictionary, each key optional.\<close>

record raw_execution =
  rx_result :: "pyval option"
  rx_agent :: "string option"
  rx_model :: "string option"
  rx_tokens :: "int option"
  rx_cost_usd :: "usd option"
  rx_budget_blocked_reason :: "string option"

definition from_executor :: "execution_outcome + raw_execution \<Rightarrow> execution_outcome" where
  "from_executor raw =
     (case raw of
        Inl out \<Rightarrow> out
      | Inr d \<Rightarrow>
          \<lparr>eo_result = (case rx_result d of None \<Rightarrow> PNone | Some v \<Rightarrow> v),
           eo_agent = (case rx_agent d of None \<Rightarrow> ''unknown'' | Some v \<Rightarrow> v),
           eo_model = (case rx_model d of None \<Rightarrow> ''unknown'' | Some v \<Rightarrow> v),
           eo_tokens = (case rx_tokens d of None \<Rightarrow> 0 | Some v \<Rightarrow> v),
           eo_cost_usd = (case rx_cost_usd d of None \<Rightarrow> 0 | Some v \<Rightarrow> v),
           eo_budget_blocked_reason =
             (if truthy_str (rx_budget_blocked_reason d) then rx_budget_blocked_reason d else None)\<rparr>)"

record planning_outcome =
  pn_plan :: "agent_task list"
  pn_usage :: usage_report

record advising_outcome =
  ad_diagnosis :: string
  ad_guidance :: "string list"
  ad_escalate_tier :: bool
  ad_usage :: usage_report

text \<open>A finished build, or \<open>BuildRunCancelled\<close> with the report collected so far.\<close>

datatype run_end = Run_finished build_run_result | Run_cancelled build_run_result

type_synonym planner = "string \<Rightarrow> context_dict \<Rightarrow> (planning_outcome + agent_task list) eff"
type_synonym executor = "int \<Rightarrow> agent_task \<Rightarrow> context_dict \<Rightarrow> (execution_outcome + raw_execution) eff"
type_synonym graph_judge = "agent_task \<Rightarrow> context_dict \<Rightarrow> (judging_outcome + evaluation_result) eff"

text \<open>A registry: \<open>select\<close>, and \<open>dispatch_policy\<close> when it has one. An executor's first argument
  is the timeout \<open>asyncio.wait_for\<close> puts on it.\<close>

record graph_registry =
  gr_select :: "agent_task \<Rightarrow> executor result"
  gr_dispatch_policy :: "(agent_task \<Rightarrow> (string \<times> int) result) option"

record strategy_selector =
  ss_select :: "work_order \<Rightarrow> workspace_lease \<Rightarrow> build_profile_selection result"
  ss_profile_for :: "build_profile_selection \<Rightarrow> build_profile result"

record workspace_manager =
  wm_reconstruct :: "workspace_lease \<Rightarrow> workspace_lease eff"
  wm_provision :: "string \<Rightarrow> work_order \<Rightarrow> workspace_lease eff"

record runtime_factory =
  rf_build_planner :: "workspace_lease \<Rightarrow> planner"
  rf_build_registry :: "workspace_lease \<Rightarrow> graph_registry"
  rf_build_judge :: "workspace_lease \<Rightarrow> graph_judge"
  rf_build_grounding :: "workspace_lease \<Rightarrow> string \<Rightarrow> pyval result"

record memory_store =
  ms_load_context :: "string \<Rightarrow> string \<Rightarrow> context_dict eff"
  ms_load_project_context :: "(string \<Rightarrow> string \<Rightarrow> context_dict eff) option"
  ms_persist :: "workflow_state \<Rightarrow> unit eff"

type_synonym publisher =
  "delivery_config \<Rightarrow> string \<Rightarrow> string \<Rightarrow> (string \<times> string) list \<Rightarrow> string list \<Rightarrow> string \<Rightarrow> string
     \<Rightarrow> delivery_result eff"

record node_deps =
  nd_planner :: planner
  nd_registry :: graph_registry
  nd_judge :: graph_judge
  nd_memory :: memory_store
  nd_advisor :: "(advisor_trigger \<Rightarrow> evaluation_result list \<Rightarrow> context_dict \<Rightarrow> advising_outcome eff) option"
  nd_delivery :: "publisher option"
  nd_workspace_manager :: "workspace_manager option"
  nd_runtime_factory :: "runtime_factory option"
  nd_build_strategy_selector :: "strategy_selector option"
  nd_strategy_audit_recorder ::
    "(string \<Rightarrow> string \<Rightarrow> string \<Rightarrow> string \<Rightarrow> build_profile_selection \<Rightarrow> unit eff) option"
  nd_build_runner :: "(workspace_lease \<Rightarrow> build_profile_selection \<Rightarrow> run_end eff) option"
  nd_build_audit_recorder ::
    "(string \<Rightarrow> string \<Rightarrow> workspace_lease \<Rightarrow> build_profile_selection \<Rightarrow> build_run_result \<Rightarrow> unit eff) option"

definition active_planner :: "node_deps \<Rightarrow> workflow_state \<Rightarrow> planner" where
  "active_planner deps s =
     (case (w_workspace s, nd_runtime_factory deps) of
        (Some lease, Some f) \<Rightarrow> rf_build_planner f lease | _ \<Rightarrow> nd_planner deps)"

definition active_registry :: "node_deps \<Rightarrow> workspace_lease option \<Rightarrow> graph_registry" where
  "active_registry deps lease =
     (case (lease, nd_runtime_factory deps) of
        (Some l, Some f) \<Rightarrow> rf_build_registry f l | _ \<Rightarrow> nd_registry deps)"

definition active_judge :: "node_deps \<Rightarrow> workspace_lease option \<Rightarrow> graph_judge" where
  "active_judge deps lease =
     (case (lease, nd_runtime_factory deps) of
        (Some l, Some f) \<Rightarrow> rf_build_judge f l | _ \<Rightarrow> nd_judge deps)"

text \<open>The nodes of the graph; routers return these names too, and \<open>N_end\<close> is its end.\<close>

datatype graph_node =
    N_provision_workspace | N_select_build_strategy | N_load_context | N_create_plan
  | N_execute_task | N_evaluate_results | N_replan | N_continue_execution | N_human_gate
  | N_authorize_retry | N_synthesize | N_abort | N_publish_delivery | N_persist_memory | N_end

section \<open>Metering a node\<close>

text \<open>\<open>int(x)\<close> of a number: truncation toward zero.\<close>

definition py_trunc :: "rat \<Rightarrow> int" where
  "py_trunc x = (if x \<ge> 0 then \<lfloor>x\<rfloor> else \<lceil>x\<rceil>)"

lemma py_trunc_of_int [simp]: "py_trunc (of_int i) = i"
  by (simp add: py_trunc_def)

definition payload_limits :: "execution_payload \<Rightarrow> int \<times> usd" where
  "payload_limits p =
     (let b = t_budget (pl_task p) in
      (min (case pl_token_allowance p of None \<Rightarrow> 0 | Some n \<Rightarrow> n)
           (tb_max_tokens b - tb_consumed_tokens b - tb_unconfirmed_tokens b),
       min (case pl_cost_allowance_usd p of None \<Rightarrow> 0 | Some c \<Rightarrow> c)
           (tb_max_cost_usd b - tb_consumed_cost_usd b - tb_unconfirmed_cost_usd b)))"

definition state_limits :: "workflow_state \<Rightarrow> int \<times> usd" where
  "state_limits s =
     (wb_max_tokens (w_budget s) - py_trunc (dict_get_or (w_usage s) ''tokens'' 0)
        - py_trunc (dict_get_or (w_usage s) ''unconfirmed_tokens'' 0),
      wb_max_cost_usd (w_budget s) - dict_get_or (w_usage s) ''cost_usd'' 0
        - dict_get_or (w_usage s) ''unconfirmed_cost_usd'' 0)"

definition any_usage :: "call_budget \<Rightarrow> bool" where
  "any_usage b \<longleftrightarrow> (\<exists>v \<in> set (map snd (budget_usage b)). v \<noteq> 0)"

definition merge_usage :: "usage_dict \<Rightarrow> usage_dict \<Rightarrow> usage_dict" where
  "merge_usage reported measured =
     map (\<lambda>k. (k, max (dict_get_or reported k 0) (dict_get_or measured k 0)))
       (unique (map fst reported @ map fst measured))"

text \<open>The scope: a fresh budget \<open>i\<close> below the ambient one, the node inside it, and what the two
  \<open>except\<close> clauses make of an exception. The inner budget's block reaches its parent on exit.\<close>

definition run_in_scope ::
  "state_update eff \<Rightarrow> nat \<Rightarrow> int \<times> usd \<Rightarrow> nat list \<Rightarrow> budget_store \<Rightarrow> state_update result \<times> budget_store" where
  "run_in_scope node i limits stk \<sigma> =
     (let path = enter_scope stk i;
          (r, \<sigma>1) = node path (\<sigma>(i := fresh_budget (max 0 (fst limits)) (max 0 (snd limits))))
      in case r of
           Inr u \<Rightarrow> (Inr u, exit_scope \<sigma>1 path)
         | Inl e \<Rightarrow>
             if exc_kind e = BudgetAdmissionError
             then (Inr (no_update\<lparr>u_error := Some (Some (exc_text e))\<rparr>), exit_scope \<sigma>1 path)
             else if \<not> is_exception e \<or> \<not> any_usage (\<sigma>1 i) then (Inl e, exit_scope \<sigma>1 path)
             else
               let reason = ''llm_call_failed: '' @ exc_repr e;
                   \<sigma>2 = \<sigma>1(i := (\<sigma>1 i)\<lparr>cb_blocked_reason := Some reason\<rparr>)
               in (Inr (no_update\<lparr>u_error := Some (Some reason)\<rparr>), exit_scope \<sigma>2 path))"

definition add_measured :: "call_budget \<Rightarrow> state_update \<Rightarrow> state_update" where
  "add_measured b u =
     (let u1 = (if any_usage b
                then u\<lparr>u_usage := Some (merge_usage (case u_usage u of None \<Rightarrow> [] | Some d \<Rightarrow> d) (budget_usage b))\<rparr>
                else u)
      in if cb_blocked_reason b \<noteq> None then u1\<lparr>u_budget_blocked_reason := Some (cb_blocked_reason b)\<rparr> else u1)"

text \<open>The task of the payload is charged at least what was measured, and escalated on a block.\<close>

definition charge_task :: "call_budget \<Rightarrow> agent_task \<Rightarrow> agent_task \<Rightarrow> agent_task" where
  "charge_task b own task =
     (if t_id task \<noteq> t_id own then task
      else
        let charged = charge (t_budget own) (cb_tokens b) (cb_cost_usd b)
              (cb_unconfirmed_tokens b) (cb_unconfirmed_cost_usd b);
            tb = t_budget task;
            task1 = task\<lparr>t_budget := tb
              \<lparr>tb_consumed_tokens := max (tb_consumed_tokens tb) (tb_consumed_tokens charged),
               tb_consumed_cost_usd := max (tb_consumed_cost_usd tb) (tb_consumed_cost_usd charged),
               tb_unconfirmed_tokens := max (tb_unconfirmed_tokens tb) (tb_unconfirmed_tokens charged),
               tb_unconfirmed_cost_usd := max (tb_unconfirmed_cost_usd tb) (tb_unconfirmed_cost_usd charged)\<rparr>\<rparr>
        in if cb_blocked_reason b \<noteq> None then task1\<lparr>t_status := ESCALATED\<rparr> else task1)"

definition bounded_state_node ::
  "(workflow_state \<Rightarrow> state_update eff) \<Rightarrow> nat \<Rightarrow> workflow_state \<Rightarrow> state_update eff" where
  "bounded_state_node node i s stk \<sigma> =
     (case run_in_scope (node s) i (state_limits s) stk \<sigma> of
        (Inl e, \<sigma>1) \<Rightarrow> (Inl e, \<sigma>1)
      | (Inr u, \<sigma>1) \<Rightarrow> (Inr (add_measured (\<sigma>1 i) u), \<sigma>1))"

definition bounded_worker ::
  "(execution_payload \<Rightarrow> state_update eff) \<Rightarrow> nat \<Rightarrow> execution_payload \<Rightarrow> state_update eff" where
  "bounded_worker node i p stk \<sigma> =
     (case run_in_scope (node p) i (payload_limits p) stk \<sigma> of
        (Inl e, \<sigma>1) \<Rightarrow> (Inl e, \<sigma>1)
      | (Inr u, \<sigma>1) \<Rightarrow>
          (let u1 = add_measured (\<sigma>1 i) u
           in (Inr (case u_plan u1 of
                      None \<Rightarrow> u1
                    | Some tasks \<Rightarrow> u1\<lparr>u_plan := Some (map (charge_task (\<sigma>1 i) (pl_task p)) tasks)\<rparr>), \<sigma>1)))"

section \<open>Properties\<close>

lemma merge_usage_get:
  "dict_get_or (merge_usage a b) k 0 = (if k \<in> fst ` set a \<union> fst ` set b
     then max (dict_get_or a k 0) (dict_get_or b k 0) else 0)"
  unfolding merge_usage_def dict_get_or_def [of "map _ _"] map_of_map_restrict
  by (simp add: restrict_map_def image_Un)

lemma budget_usage_get:
  "dict_get_or (budget_usage b) ''tokens'' 0 = of_int (cb_tokens b)"
  "dict_get_or (budget_usage b) ''cost_usd'' 0 = cb_cost_usd b"
  "dict_get_or (budget_usage b) ''unconfirmed_tokens'' 0 = of_int (cb_unconfirmed_tokens b)"
  "dict_get_or (budget_usage b) ''unconfirmed_cost_usd'' 0 = cb_unconfirmed_cost_usd b"
  by (auto simp: budget_usage_def dict_get_or_def)

lemma merged_covers:
  assumes "k \<in> fst ` set m"
  shows "dict_get_or m k 0 \<le> dict_get_or (merge_usage r m) k 0"
  using assms by (simp add: merge_usage_get)

lemma exit_scope_own:
  assumes "i \<notin> set stk"
  shows "(exit_scope \<sigma> (enter_scope stk i)) i = \<sigma> i"
proof (cases stk)
  case (Cons p ps)
  with assms have "p \<noteq> i" by auto
  then show ?thesis by (simp add: exit_scope_def enter_scope_def Cons split: option.split)
qed (simp add: exit_scope_def enter_scope_def)

text \<open>An exception that leaves the wrapper is a cancellation, or nothing was spent before it.\<close>

lemma run_in_scope_raises:
  assumes "i \<notin> set stk" and "run_in_scope node i limits stk \<sigma> = (Inl e, \<sigma>')"
  shows "\<not> is_exception e \<or> \<not> any_usage (\<sigma>' i)"
  using assms(2) exit_scope_own [OF assms(1)]
  by (auto simp: run_in_scope_def Let_def split: prod.splits sum.splits if_splits)

lemma add_measured_usage:
  assumes "any_usage b"
  shows "\<exists>d. u_usage (add_measured b u) = Some d
    \<and> of_int (cb_tokens b) \<le> dict_get_or d ''tokens'' 0 \<and> cb_cost_usd b \<le> dict_get_or d ''cost_usd'' 0"
proof -
  let ?d = "merge_usage (case u_usage u of None \<Rightarrow> [] | Some d \<Rightarrow> d) (budget_usage b)"
  have "u_usage (add_measured b u) = Some ?d" using assms by (simp add: add_measured_def Let_def)
  moreover have "''tokens'' \<in> fst ` set (budget_usage b)" "''cost_usd'' \<in> fst ` set (budget_usage b)"
    by (simp_all add: budget_usage_def)
  then have "of_int (cb_tokens b) \<le> dict_get_or ?d ''tokens'' 0" "cb_cost_usd b \<le> dict_get_or ?d ''cost_usd'' 0"
    using merged_covers budget_usage_get by metis+
  ultimately show ?thesis by blast
qed

lemma add_measured_simps [simp]:
  "u_plan (add_measured b u) = u_plan u"
  "cb_blocked_reason b = Some r \<Longrightarrow> u_budget_blocked_reason (add_measured b u) = Some (Some r)"
  by (simp_all add: add_measured_def Let_def)

lemma charge_task_own:
  assumes "t_id task = t_id own"
  shows "tb_consumed_tokens (t_budget own) + cb_tokens b \<le> tb_consumed_tokens (t_budget (charge_task b own task))"
    and "tb_consumed_cost_usd (t_budget own) + cb_cost_usd b \<le> tb_consumed_cost_usd (t_budget (charge_task b own task))"
    and "cb_blocked_reason b \<noteq> None \<Longrightarrow> t_status (charge_task b own task) = ESCALATED"
  using assms by (simp_all add: charge_task_def charge_def Let_def)

lemma charge_task_id [simp]: "t_id (charge_task b own task) = t_id task"
  by (simp add: charge_task_def Let_def)

lemma bounded_worker_Inr:
  assumes "bounded_worker node i p stk \<sigma> = (Inr u, \<sigma>')"
  shows "\<exists>u0. u_usage u = u_usage (add_measured (\<sigma>' i) u0)
    \<and> u_budget_blocked_reason u = u_budget_blocked_reason (add_measured (\<sigma>' i) u0)
    \<and> u_plan u = map_option (map (charge_task (\<sigma>' i) (pl_task p))) (u_plan u0)"
proof -
  from assms obtain u0 where u0: "run_in_scope (node p) i (payload_limits p) stk \<sigma> = (Inr u0, \<sigma>')"
    "u = (case u_plan (add_measured (\<sigma>' i) u0) of None \<Rightarrow> add_measured (\<sigma>' i) u0
        | Some tasks \<Rightarrow> (add_measured (\<sigma>' i) u0)\<lparr>u_plan := Some (map (charge_task (\<sigma>' i) (pl_task p)) tasks)\<rparr>)"
    by (simp add: bounded_worker_def Let_def split: prod.splits sum.splits)
  show ?thesis by (rule exI [of _ u0]) (simp add: u0(2) split: option.split)
qed

text \<open>No paid call is lost: when a worker returns, what its own budget measured is in the usage
  of its update and charged to its task, and a block of that budget is reported and escalates the
  task; and an exception can leave the worker only as a cancellation or when nothing was spent.\<close>

lemma worker_metering_is_persisted:
  assumes fresh: "i \<notin> set stk" and run: "bounded_worker node i p stk \<sigma> = (r, \<sigma>')"
  shows "case r of
      Inl e \<Rightarrow> \<not> is_exception e \<or> \<not> any_usage (\<sigma>' i)
    | Inr u \<Rightarrow>
        (any_usage (\<sigma>' i) \<longrightarrow> (\<exists>d. u_usage u = Some d
           \<and> of_int (cb_tokens (\<sigma>' i)) \<le> dict_get_or d ''tokens'' 0
           \<and> cb_cost_usd (\<sigma>' i) \<le> dict_get_or d ''cost_usd'' 0))
        \<and> (\<forall>why. cb_blocked_reason (\<sigma>' i) = Some why \<longrightarrow> u_budget_blocked_reason u = Some (Some why))
        \<and> (\<forall>tasks t. u_plan u = Some tasks \<and> t \<in> set tasks \<and> t_id t = t_id (pl_task p) \<longrightarrow>
             tb_consumed_tokens (t_budget (pl_task p)) + cb_tokens (\<sigma>' i) \<le> tb_consumed_tokens (t_budget t)
             \<and> tb_consumed_cost_usd (t_budget (pl_task p)) + cb_cost_usd (\<sigma>' i) \<le> tb_consumed_cost_usd (t_budget t)
             \<and> (cb_blocked_reason (\<sigma>' i) \<noteq> None \<longrightarrow> t_status t = ESCALATED))"
proof (cases r)
  case (Inl e)
  then have "run_in_scope (node p) i (payload_limits p) stk \<sigma> = (Inl e, \<sigma>')"
    using run by (simp add: bounded_worker_def Let_def split: prod.splits sum.splits)
  with Inl run_in_scope_raises [OF fresh] show ?thesis by simp
next
  case (Inr u)
  obtain u0 where u0: "u_usage u = u_usage (add_measured (\<sigma>' i) u0)"
    "u_budget_blocked_reason u = u_budget_blocked_reason (add_measured (\<sigma>' i) u0)"
    "u_plan u = map_option (map (charge_task (\<sigma>' i) (pl_task p))) (u_plan u0)"
    using bounded_worker_Inr run Inr by blast
  have charged: "tb_consumed_tokens (t_budget (pl_task p)) + cb_tokens (\<sigma>' i) \<le> tb_consumed_tokens (t_budget t)
      \<and> tb_consumed_cost_usd (t_budget (pl_task p)) + cb_cost_usd (\<sigma>' i) \<le> tb_consumed_cost_usd (t_budget t)
      \<and> (cb_blocked_reason (\<sigma>' i) \<noteq> None \<longrightarrow> t_status t = ESCALATED)"
    if t: "u_plan u = Some tasks" "t \<in> set tasks" "t_id t = t_id (pl_task p)" for tasks t
  proof -
    from t(1,2) u0(3) obtain t0 where t0: "t = charge_task (\<sigma>' i) (pl_task p) t0" by auto
    with t(3) have "t_id t0 = t_id (pl_task p)" by simp
    then show ?thesis unfolding t0 using charge_task_own by blast
  qed
  show ?thesis
    unfolding Inr sum.case using add_measured_usage charged by (intro conjI impI allI) (simp_all add: u0(1,2))
qed

text \<open>A worker that spends ten tokens and then fails.\<close>

definition failing_worker :: "execution_payload \<Rightarrow> state_update eff" where
  "failing_worker p stk \<sigma> =
     (Inl (Exc ValueError ''x''), \<sigma>(hd stk := (\<sigma> (hd stk))\<lparr>cb_tokens := 10, cb_cost_usd := 1\<rparr>))"

definition sample_payload :: "agent_task \<Rightarrow> execution_payload" where
  "sample_payload t =
     \<lparr>pl_task = t, pl_project_id = ''p'', pl_context = [], pl_workspace = None, pl_factory_stage = None,
      pl_build_strategy = None, pl_owner_client_id = ''c'', pl_token_allowance = Some 100,
      pl_cost_allowance_usd = Some 1\<rparr>"

definition sample_store :: budget_store where
  "sample_store n = fresh_budget 1000 10"

lemma worker_metering_is_persisted_witness:
  "\<exists>u d. fst (bounded_worker failing_worker 1 (sample_payload (sample_task 1 PENDING)) [] sample_store) = Inr u
     \<and> u_usage u = Some d \<and> 10 \<le> dict_get_or d ''tokens'' 0"
proof -
  let ?run = "bounded_worker failing_worker 1 (sample_payload (sample_task 1 PENDING)) [] sample_store"
  have run: "\<exists>u \<sigma>'. ?run = (Inr u, \<sigma>') \<and> cb_tokens (\<sigma>' 1) = 10 \<and> cb_cost_usd (\<sigma>' 1) = 1"
    by (simp add: bounded_worker_def run_in_scope_def failing_worker_def enter_scope_def exit_scope_def
        fresh_budget_def is_exception_def any_usage_def budget_usage_def Let_def)
  then obtain u \<sigma>' where u: "?run = (Inr u, \<sigma>')" "cb_tokens (\<sigma>' 1) = 10" "cb_cost_usd (\<sigma>' 1) = 1" by blast
  then have "any_usage (\<sigma>' 1)" by (simp add: any_usage_def budget_usage_def)
  with worker_metering_is_persisted [OF _ u(1)] u show ?thesis by auto
qed

text \<open>Dependencies for the witnesses: an executor that answers at once, a judge that approves.\<close>

definition sample_outcome :: execution_outcome where
  "sample_outcome = \<lparr>eo_result = PNone, eo_agent = ''a'', eo_model = ''m'', eo_tokens = 10, eo_cost_usd = 1,
     eo_budget_blocked_reason = None\<rparr>"

definition sample_deps :: node_deps where
  "sample_deps =
     \<lparr>nd_planner = (\<lambda>r c. eff_return (Inr [sample_task 1 PENDING])),
      nd_registry = \<lparr>gr_select = (\<lambda>t. Inr (\<lambda>n t c. eff_return (Inl sample_outcome))), gr_dispatch_policy = None\<rparr>,
      nd_judge = (\<lambda>t c. eff_return (Inr (sample_evaluation_result True))),
      nd_memory = \<lparr>ms_load_context = (\<lambda>p r. eff_return []), ms_load_project_context = None,
        ms_persist = (\<lambda>s. eff_return ())\<rparr>,
      nd_advisor = None, nd_delivery = None, nd_workspace_manager = None, nd_runtime_factory = None,
      nd_build_strategy_selector = None, nd_strategy_audit_recorder = None, nd_build_runner = None,
      nd_build_audit_recorder = None\<rparr>"

definition sample_codec :: codec where
  "sample_codec =
     \<lparr>cd_env = sample_env, cd_parse_signal = (\<lambda>d. Inl (Exc ValueError [])), cd_json = (\<lambda>v. []),
      cd_json_indented = (\<lambda>v. []), cd_dump_report = (\<lambda>r. PNone), cd_validate_report = (\<lambda>v. None),
      cd_uuid = show_nat\<rparr>"

end
