(* ===== verification/Setup_Phase.thy ===== *)
theory Setup_Phase imports Node_Deps begin

text \<open>
  The setup phase (\<open>app/graph/phase_setup.py\<close>): the workspace is provisioned or reconstructed, the
  build strategy is selected or checked against its recorded fingerprint, the context is loaded
  and the plan is created once.
\<close>

section \<open>Workspace\<close>

definition provisioning_failed :: "string \<Rightarrow> state_update" where
  "provisioning_failed message = no_update
     \<lparr>u_error := Some (Some message), u_phase := Some PH_FAILED, u_factory_stage := Some (Some PROVISIONING)\<rparr>"

definition provision_workspace :: "node_deps \<Rightarrow> workflow_state \<Rightarrow> state_update eff" where
  "provision_workspace deps s stk \<sigma> =
     (case w_work_order s of
        None \<Rightarrow> (Inr (no_update\<lparr>u_phase := Some PH_LOADING_CONTEXT\<rparr>), \<sigma>)
      | Some order \<Rightarrow>
          (case (nd_workspace_manager deps, nd_runtime_factory deps) of
             (Some manager, Some factory) \<Rightarrow>
               (case (case w_workspace s of
                        Some lease \<Rightarrow> wm_reconstruct manager lease
                      | None \<Rightarrow> wm_provision manager (w_workflow_id s) order) stk \<sigma> of
                  (Inl e, \<sigma>1) \<Rightarrow>
                    if is_exception e
                    then (Inr (provisioning_failed (''workspace provisioning failed: '' @ exc_repr e)), \<sigma>1)
                    else (Inl e, \<sigma>1)
                | (Inr lease, \<sigma>1) \<Rightarrow>
                    (Inr (no_update\<lparr>u_workspace := Some (Some lease), u_phase := Some PH_LOADING_CONTEXT,
                       u_factory_stage := Some (Some PROVISIONING)\<rparr>), \<sigma>1))
           | _ \<Rightarrow> (Inr (provisioning_failed ''factory runtime nao configurado''), \<sigma>)))"

definition provision_router :: "workflow_state \<Rightarrow> graph_node" where
  "provision_router s = (if w_phase s = PH_FAILED then N_persist_memory else N_load_context)"

section \<open>Build strategy\<close>

text \<open>The body of the \<open>try\<close>: a recorded, supported selection is checked and reused; otherwise a
  new one is made.\<close>

definition checked_selection ::
  "strategy_selector option \<Rightarrow> work_order \<Rightarrow> workspace_lease \<Rightarrow> build_profile_selection option
     \<Rightarrow> build_profile_selection result" where
  "checked_selection selector order lease current =
     (case selector of
        None \<Rightarrow> Inl (Exc ValueError ''nenhum registro de perfis foi configurado.'')
      | Some reg \<Rightarrow>
          (case current of
             None \<Rightarrow> ss_select reg order lease
           | Some sel \<Rightarrow>
               if sel_selection_reason sel = Some Unsupported then ss_select reg order lease
               else case ss_profile_for reg sel of
                      Inl e \<Rightarrow> Inl e
                    | Inr profile \<Rightarrow>
                        if sel_acceptance_digest sel \<noteq> None
                           \<and> sel_acceptance_criteria sel \<noteq> wo_acceptance_criteria order
                        then Inl (Exc ValueError ''Criterios de aceitacao mudaram apos selecao.'')
                        else Inr sel))"

definition selection_update :: "build_profile_selection \<Rightarrow> state_update" where
  "selection_update sel =
     (let unsup = (sel_selection_reason sel = Some Unsupported) in
      no_update\<lparr>u_build_strategy := Some (Some sel), u_factory_stage := Some (Some STRATEGY_SELECTION),
        u_phase := Some (if unsup then PH_UNSUPPORTED_BUILD_STRATEGY else PH_LOADING_CONTEXT),
        u_error := Some (if unsup then Some (''unsupported_build_strategy: '' @ show_opt (sel_unsupported_reason sel))
                         else None)\<rparr>)"

definition select_build_strategy :: "node_deps \<Rightarrow> workflow_state \<Rightarrow> state_update eff" where
  "select_build_strategy deps s =
     (case (w_work_order s, w_workspace s) of
        (None, _) \<Rightarrow> eff_return (no_update\<lparr>u_phase := Some PH_LOADING_CONTEXT\<rparr>)
      | (Some order, None) \<Rightarrow> eff_return (no_update
          \<lparr>u_error := Some (Some ''build strategy selection requires a workspace lease''),
           u_phase := Some PH_FAILED, u_factory_stage := Some (Some STRATEGY_SELECTION)\<rparr>)
      | (Some order, Some lease) \<Rightarrow>
          (let answer = checked_selection (nd_build_strategy_selector deps) order lease (w_build_strategy s);
               record_selection = (\<lambda>sel. case nd_strategy_audit_recorder deps of
                 None \<Rightarrow> eff_return ()
               | Some recorder \<Rightarrow> recorder (w_workflow_id s) (w_project_id s) (w_owner_client_id s)
                                     (rt_full_name (wo_repository order)) sel);
               persist = (\<lambda>sel. eff_bind (record_selection sel) (\<lambda>_. eff_return (selection_update sel)))
           in case answer of
                Inr sel \<Rightarrow> persist sel
              | Inl e \<Rightarrow>
                  if exc_kind e \<in> {TypeError, ValueError}
                  then persist (unsupported (sel_requested_profile (wo_build_profile order))
                         (''selecao persistida invalida: '' @ exc_text e))
                  else eff_raise e))"

definition strategy_router :: "workflow_state \<Rightarrow> graph_node" where
  "strategy_router s =
     (if w_phase s = PH_FAILED then N_persist_memory
      else if w_work_order s = None then N_load_context
      else case w_build_strategy s of
             None \<Rightarrow> N_human_gate
           | Some sel \<Rightarrow> if sel_selection_reason sel = Some Unsupported then N_human_gate else N_load_context)"

section \<open>Context\<close>

definition policy_guidance :: "build_profile \<Rightarrow> context_dict \<Rightarrow> context_dict" where
  "policy_guidance profile ctx =
     (let ctx1 = (case pf_acceptance profile of
            None \<Rightarrow> ctx
          | Some suite \<Rightarrow> AList.update ''acceptance_policy_guidance''
              (PStr (''Aceitacao independente definida pelo operador; implemente o comportamento, nao altere os criterios.''
                @ [CHR 0x0A]
                @ join [CHR 0x0A] (map (\<lambda>c. ca_id c @ '': '' @ ca_criterion c) (su_cases suite)))) ctx)
      in case pf_architecture profile of
           None \<Rightarrow> ctx1
         | Some policy \<Rightarrow> AList.update ''architecture_policy_guidance''
             (PStr (''Politica de arquitetura aprovada pelo operador. Nao altere nem contorne as regras.'' @ [CHR 0x0A]
               @ join [CHR 0x0A] (map (\<lambda>r. ib_id r @ '': '' @ ib_source r @ '' nao pode importar ''
                    @ join '', '' (ib_forbidden r) @ ''. '' @ ib_remediation r) (po_rules policy)))) ctx1)"

definition base_context :: "node_deps \<Rightarrow> workflow_state \<Rightarrow> context_dict eff" where
  "base_context deps s =
     (case (w_workspace s, nd_runtime_factory deps) of
        (Some lease, Some factory) \<Rightarrow>
          eff_bind
            (case ms_load_project_context (nd_memory deps) of
               Some loader \<Rightarrow> loader (w_project_id s) (w_request s)
             | None \<Rightarrow> ms_load_context (nd_memory deps) (w_project_id s) (w_request s))
            (\<lambda>ctx. case rf_build_grounding factory lease (w_request s) of
               Inl e \<Rightarrow> eff_raise e
             | Inr grounding \<Rightarrow> eff_return
                 (AList.update ''repository_grounding'' grounding (AList.delete ''repository_grounding'' ctx)))
      | _ \<Rightarrow> ms_load_context (nd_memory deps) (w_project_id s) (w_request s))"

definition load_context :: "node_deps \<Rightarrow> workflow_state \<Rightarrow> state_update eff" where
  "load_context deps s =
     eff_bind (base_context deps s)
       (\<lambda>raw.
          let ctx = AList.delete ''acceptance_policy_guidance'' (AList.delete ''architecture_policy_guidance'' raw);
              done = (\<lambda>c. eff_return (no_update\<lparr>u_context := Some c, u_phase := Some PH_PLANNING\<rparr>))
          in case (w_build_strategy s, nd_build_strategy_selector deps) of
               (Some sel, Some reg) \<Rightarrow>
                 (case ss_profile_for reg sel of Inl e \<Rightarrow> eff_raise e | Inr profile \<Rightarrow> done (policy_guidance profile ctx))
             | _ \<Rightarrow> done ctx)"

section \<open>Plan\<close>

definition create_plan :: "node_deps \<Rightarrow> workflow_state \<Rightarrow> state_update eff" where
  "create_plan deps s =
     (if w_plan s \<noteq> []
      then eff_return (no_update\<lparr>u_plan := Some (w_plan s), u_usage := Some (usage_of 0 0),
             u_phase := Some PH_EXECUTING\<rparr>)
      else
        eff_bind (active_planner deps s (w_request s) (w_context s))
          (\<lambda>raw.
             let (plan, usage) = (case raw of
                   Inl out \<Rightarrow> (pn_plan out, usage_of (ug_tokens (pn_usage out)) (ug_cost_usd (pn_usage out)))
                 | Inr tasks \<Rightarrow> (tasks, usage_of 0 0))
             in if plan = [] then eff_raise (Exc ValueError ''Planner retornou plano vazio.'')
                else
                  let u = no_update\<lparr>u_plan := Some plan, u_usage := Some usage, u_phase := Some PH_EXECUTING\<rparr>
                  in eff_return (if w_work_order s \<noteq> None
                       then u\<lparr>u_factory_stage := Some (Some IMPLEMENTATION)\<rparr> else u)))"

section \<open>Properties\<close>

lemma bind_return_Inr: "eff_bind m (\<lambda>_. eff_return x) stk \<sigma> = (Inr u, \<sigma>') \<Longrightarrow> u = x"
  by (auto simp: eff_bind_def eff_return_def split: prod.splits sum.splits)

lemma recorded_selection_reused:
  assumes "checked_selection selector order lease (Some sel) = Inr sel'"
    and "sel_selection_reason sel \<noteq> Some Unsupported"
  shows "sel' = sel \<and> (\<exists>reg profile. selector = Some reg \<and> ss_profile_for reg sel = Inr profile)"
  using assms by (auto simp: checked_selection_def split: option.splits sum.splits if_splits)

text \<open>A resumed work order builds with the recorded profile or not at all: once a supported
  selection is in the state, the node keeps exactly that selection, and then its profile can still
  be rebuilt and the acceptance criteria have not moved; or it records an unsupported selection, and
  then the router sends the workflow to the human gate.\<close>

lemma recorded_strategy_is_kept_or_refused:
  assumes state: "w_work_order s = Some order" "w_workspace s = Some lease" "w_build_strategy s = Some sel"
    and supported: "sel_selection_reason sel \<noteq> Some Unsupported"
    and node: "select_build_strategy deps s stk \<sigma> = (Inr u, \<sigma>')"
  shows "(u_build_strategy u = Some (Some sel) \<and> strategy_router (apply_update s u) = N_load_context
       \<and> (\<exists>reg profile. nd_build_strategy_selector deps = Some reg \<and> ss_profile_for reg sel = Inr profile)
       \<and> (sel_acceptance_digest sel \<noteq> None \<longrightarrow> sel_acceptance_criteria sel = wo_acceptance_criteria order))
    \<or> (\<exists>bad. u_build_strategy u = Some (Some bad) \<and> sel_selection_reason bad = Some Unsupported
       \<and> strategy_router (apply_update s u) = N_human_gate)"
proof -
  let ?answer = "checked_selection (nd_build_strategy_selector deps) order lease (Some sel)"
  have routed: "strategy_router (apply_update s (selection_update x)) =
      (if sel_selection_reason x = Some Unsupported then N_human_gate else N_load_context)" for x
    by (simp add: strategy_router_def apply_update_def selection_update_def reduced_def keep_latest_def
        no_update_def state Let_def)
  have strategy: "u_build_strategy (selection_update x) = Some (Some x)" for x
    by (simp add: selection_update_def Let_def)
  show ?thesis
  proof (cases ?answer)
    case (Inr sel')
    note kept = recorded_selection_reused [OF Inr supported]
    have "u = selection_update sel"
      using node kept by (auto simp: select_build_strategy_def state Inr Let_def dest: bind_return_Inr)
    moreover have "sel_acceptance_digest sel \<noteq> None \<longrightarrow> sel_acceptance_criteria sel = wo_acceptance_criteria order"
      using Inr supported by (auto simp: checked_selection_def split: option.splits sum.splits if_splits)
    ultimately show ?thesis using kept supported routed [of sel] strategy [of sel] by auto
  next
    case (Inl e)
    let ?bad = "unsupported (sel_requested_profile (wo_build_profile order)) (''selecao persistida invalida: '' @ exc_text e)"
    have "u = selection_update ?bad"
      using node by (auto simp: select_build_strategy_def state Inl eff_raise_def Let_def
          split: if_splits dest!: bind_return_Inr)
    moreover have "sel_selection_reason ?bad = Some Unsupported" by (simp add: unsupported_def)
    ultimately show ?thesis using routed [of ?bad] strategy [of ?bad] by (intro disjI2 exI [of _ ?bad]) simp
  qed
qed

definition strategy_deps :: node_deps where
  "strategy_deps = sample_deps\<lparr>nd_build_strategy_selector := Some
     \<lparr>ss_select = (\<lambda>order lease. Inr sample_selection), ss_profile_for = (\<lambda>sel. Inr sample_profile)\<rparr>\<rparr>"

lemma recorded_strategy_is_kept_or_refused_witness:
  "\<exists>u. select_build_strategy strategy_deps delivered_state [] sample_store = (Inr u, sample_store)
     \<and> (u_build_strategy u = Some (Some sample_selection)
        \<or> (\<exists>bad. u_build_strategy u = Some (Some bad) \<and> sel_selection_reason bad = Some Unsupported))"
proof -
  have fields: "w_work_order delivered_state = Some sample_order" "w_workspace delivered_state = Some sample_lease"
      "w_build_strategy delivered_state = Some sample_selection"
    by (simp_all add: delivered_state_def)
  have supported: "sel_selection_reason sample_selection \<noteq> Some Unsupported" by (simp add: sample_selection_def)
  have "\<exists>u. select_build_strategy strategy_deps delivered_state [] sample_store = (Inr u, sample_store)"
    by (simp add: select_build_strategy_def fields checked_selection_def strategy_deps_def sample_deps_def
        sample_selection_def eff_return_def)
  then obtain u where u: "select_build_strategy strategy_deps delivered_state [] sample_store = (Inr u, sample_store)" by blast
  from recorded_strategy_is_kept_or_refused [OF fields supported u] u show ?thesis by blast
qed

text \<open>Planning happens once: with a plan in the state the node returns that very plan without
  calling the planner or spending anything, and merging its update leaves the plan as it is; without
  one it never stores an empty plan.\<close>

lemma planning_is_idempotent:
  assumes "distinct (map t_id (w_plan s))"
  shows "(w_plan s \<noteq> [] \<longrightarrow>
      (\<exists>u. create_plan deps s stk \<sigma> = (Inr u, \<sigma>) \<and> u_usage u = Some (usage_of 0 0)
         \<and> w_plan (apply_update s u) = w_plan s))
    \<and> (w_plan s = [] \<longrightarrow> (\<forall>u \<sigma>'. create_plan deps s stk \<sigma> = (Inr u, \<sigma>') \<longrightarrow> u_plan u \<noteq> Some [] \<and> u_plan u \<noteq> None))"
proof (intro conjI impI allI)
  assume plan: "w_plan s \<noteq> []"
  have "merge_tasks_by_id (w_plan s) (w_plan s) = w_plan s"
  proof (rule plan_eqI)
    show ids: "map t_id (merge_tasks_by_id (w_plan s) (w_plan s)) = map t_id (w_plan s)"
      by (rule merge_ids [OF assms]) simp
    show "distinct (map t_id (merge_tasks_by_id (w_plan s) (w_plan s)))" using ids assms by simp
    fix i
    have "filter (\<lambda>t. t_id t = i) (w_plan s) = (case task_in (w_plan s) i of None \<Rightarrow> [] | Some t \<Rightarrow> [t])"
      using assms by (rule filter_task_in)
    then show "task_in (merge_tasks_by_id (w_plan s) (w_plan s)) i = task_in (w_plan s) i"
      by (cases "task_in (w_plan s) i") (simp_all add: task_in_merge [OF assms] merge_one_def)
  qed
  then show "\<exists>u. create_plan deps s stk \<sigma> = (Inr u, \<sigma>) \<and> u_usage u = Some (usage_of 0 0)
         \<and> w_plan (apply_update s u) = w_plan s"
    using plan by (simp add: create_plan_def eff_return_def apply_update_def reduced_def no_update_def)
next
  fix u \<sigma>' assume "w_plan s = []" "create_plan deps s stk \<sigma> = (Inr u, \<sigma>')"
  then show "u_plan u \<noteq> Some []" "u_plan u \<noteq> None"
    by (auto simp: create_plan_def eff_bind_def eff_return_def eff_raise_def Let_def no_update_def
        split: prod.splits sum.splits if_splits)
qed

lemma planning_is_idempotent_witness:
  "\<exists>u. create_plan sample_deps (sample_state [sample_task 2 PENDING]) [] sample_store = (Inr u, sample_store)
     \<and> w_plan (apply_update (sample_state [sample_task 2 PENDING]) u) = [sample_task 2 PENDING]"
proof -
  have "w_plan (sample_state [sample_task 2 PENDING]) = [sample_task 2 PENDING]" by (simp add: sample_state_def)
  with planning_is_idempotent [of "sample_state [sample_task 2 PENDING]" sample_deps "[]" sample_store]
  show ?thesis by auto
qed

end
