(* ===== verification/Execution_Phase.thy ===== *)
theory Execution_Phase imports Node_Deps Executor_Registry "HOL-Library.Sublist" begin

text \<open>
  The execution phase (\<open>app/graph/phase_execution.py\<close>): the fan-out of ready tasks under the
  registry's dispatch policy, the worker that executes, validates and judges one task, and the
  join. Readings of the clock in a node are \<open>clk 0\<close> (the attempt starts), \<open>clk 1\<close> (it has been
  executed or has failed), \<open>clk 2\<close> (the executed task is updated), \<open>clk 3\<close> (the build report is
  attached), \<open>clk 4\<close> (it has been judged), \<open>clk 5\<close> (a later failure).
\<close>

section \<open>Fan-out\<close>

fun take_dispatchable ::
  "(agent_task \<Rightarrow> (string \<times> int) result) option \<Rightarrow> (string, int) pydict \<Rightarrow> agent_task list
     \<Rightarrow> agent_task list result" where
  "take_dispatchable policy counts [] = Inr []"
| "take_dispatchable policy counts (t # ts) =
     (case policy of
        None \<Rightarrow> (case take_dispatchable policy counts ts of Inl e \<Rightarrow> Inl e | Inr sel \<Rightarrow> Inr (t # sel))
      | Some dispatch \<Rightarrow>
          (case dispatch t of
             Inl e \<Rightarrow> Inl e
           | Inr (agent, limit) \<Rightarrow>
               (let current = dict_get_or counts agent 0 in
                if current \<ge> limit then take_dispatchable policy counts ts
                else
                  case take_dispatchable policy (AList.update agent (current + 1) counts) ts of
                    Inl e \<Rightarrow> Inl e
                  | Inr sel \<Rightarrow> Inr (t # sel))))"

definition select_dispatchable ::
  "node_deps \<Rightarrow> workflow_state \<Rightarrow> agent_task list \<Rightarrow> agent_task list result" where
  "select_dispatchable deps s ready =
     take_dispatchable (gr_dispatch_policy (active_registry deps (w_workspace s))) []
       (if w_work_order s \<noteq> None then take 1 ready else ready)"

definition per_task_allowances :: "workflow_state \<Rightarrow> int \<Rightarrow> int \<times> usd" where
  "per_task_allowances s count =
     (max 0 (fst (state_limits s)) div count, max 0 (snd (state_limits s)) / of_int count)"

datatype route = To_execute "execution_payload list" | To_evaluate_results | To_human_gate

definition dependency_results :: "codec \<Rightarrow> workflow_state \<Rightarrow> agent_task \<Rightarrow> (string \<times> pyval) list" where
  "dependency_results cd s t =
     (let by_id = dict_of (map (\<lambda>p. (t_id p, t_result p)) (filter (\<lambda>p. t_result p \<noteq> PNone) (w_plan s)))
      in dict_of (List.map_filter (\<lambda>d. case dict_get by_id d of None \<Rightarrow> None | Some v \<Rightarrow> Some (cd_uuid cd d, v))
           (t_dependencies t)))"

definition task_payload :: "codec \<Rightarrow> workflow_state \<Rightarrow> int \<times> usd \<Rightarrow> agent_task \<Rightarrow> execution_payload" where
  "task_payload cd s allowance t =
     (let deps = dependency_results cd s t;
          ctx1 = (if deps \<noteq> [] then AList.update ''dependency_results'' (PDict deps) (w_context s) else w_context s);
          ctx2 = (if t_evidence_ids t \<noteq> []
                  then AList.update ''task_evidence_ids'' (PList (map PStr (t_evidence_ids t))) ctx1 else ctx1)
      in \<lparr>pl_task = t, pl_project_id = w_project_id s, pl_context = ctx2, pl_workspace = w_workspace s,
          pl_factory_stage = w_factory_stage s, pl_build_strategy = w_build_strategy s,
          pl_owner_client_id = w_owner_client_id s, pl_token_allowance = Some (fst allowance),
          pl_cost_allowance_usd = Some (snd allowance)\<rparr>)"

definition route_ready_tasks ::
  "codec \<Rightarrow> node_deps \<Rightarrow> timestamp \<Rightarrow> workflow_state \<Rightarrow> route result" where
  "route_ready_tasks cd deps now s =
     (if budget_exhausted now s then Inr To_human_gate
      else if ready_tasks s = [] then Inr To_evaluate_results
      else
        case select_dispatchable deps s (ready_tasks s) of
          Inl e \<Rightarrow> Inl e
        | Inr selected \<Rightarrow>
            if selected = [] then Inr To_human_gate
            else Inr (To_execute (map (task_payload cd s (per_task_allowances s (int (length selected)))) selected)))"

section \<open>Judging\<close>

text \<open>Replaces the last element, when there is one.\<close>

definition update_last :: "('a \<Rightarrow> 'a) \<Rightarrow> 'a list \<Rightarrow> 'a list" where
  "update_last f xs = (if xs = [] then [] else butlast xs @ [f (last xs)])"

definition judge_verdict :: "codec \<Rightarrow> timestamp \<Rightarrow> agent_task \<Rightarrow> evaluation_result \<Rightarrow> agent_task" where
  "judge_verdict cd now task evaluation =
     (let new_status = (if ev_approved evaluation then COMPLETED else next_status_after_failure task);
          reason = (if ev_approved evaluation then None
                    else let text = join ''; '' (take 3 (ev_failures evaluation))
                         in Some (if text = [] then ''reprovado pelo judge'' else text));
          attempts = (case last_opt (t_attempts task) of
                        None \<Rightarrow> t_attempts task
                      | Some a \<Rightarrow> if at_outcome a = Some RUNNING
                          then update_last (\<lambda>a. a\<lparr>at_outcome := Some new_status, at_failure_reason := reason\<rparr>)
                                 (t_attempts task)
                          else t_attempts task)
      in task\<lparr>t_status := new_status, t_attempts := attempts, t_updated_at := now\<rparr>)"

definition judge_failure :: "timestamp \<Rightarrow> exc \<Rightarrow> agent_task \<Rightarrow> agent_task" where
  "judge_failure now e task =
     task\<lparr>t_status := ESCALATED,
       t_attempts := update_last (\<lambda>a. a\<lparr>at_outcome := Some FAILED,
          at_failure_reason := Some (''judge '' @ exc_repr e), at_finished_at := Some now\<rparr>) (t_attempts task),
       t_updated_at := now\<rparr>"

definition judge_task ::
  "codec \<Rightarrow> timestamp \<Rightarrow> agent_task \<Rightarrow> context_dict \<Rightarrow> graph_judge
     \<Rightarrow> (agent_task \<times> evaluation_result option \<times> usage_report) eff" where
  "judge_task cd now task ctx judge stk \<sigma> =
     (case judge task ctx stk \<sigma> of
        (Inl e, \<sigma>1) \<Rightarrow>
          if is_exception e then (Inr (judge_failure now e task, None, no_usage), \<sigma>1) else (Inl e, \<sigma>1)
      | (Inr raw, \<sigma>1) \<Rightarrow>
          (let (evaluation, usage) =
                 (case raw of
                    Inl out \<Rightarrow> (jg_evaluation out, \<lparr>ug_tokens = jg_tokens out, ug_cost_usd = jg_cost_usd out\<rparr>)
                  | Inr ev \<Rightarrow> (ev, no_usage));
               vetoed = apply_build_veto evaluation (build_report_from_task cd task)
           in (Inr (judge_verdict cd now task vetoed, Some vetoed, usage), \<sigma>1)))"

section \<open>Build validation\<close>

definition record_build_report :: "node_deps \<Rightarrow> execution_payload \<Rightarrow> build_run_result \<Rightarrow> unit eff" where
  "record_build_report deps p report =
     (case (nd_build_audit_recorder deps, pl_workspace p, pl_build_strategy p) of
        (Some recorder, Some lease, Some sel) \<Rightarrow>
          recorder (pl_project_id p) (pl_owner_client_id p) lease sel report
      | _ \<Rightarrow> eff_return ())"

definition reject_report :: "string \<Rightarrow> build_run_result \<Rightarrow> build_run_result" where
  "reject_report code r = r\<lparr>br_outcome := POLICY_REJECTION, br_error_code := Some code\<rparr>"

text \<open>The two policy rejections applied to the runner's report.\<close>

definition enforce_evidence :: "build_profile_selection \<Rightarrow> build_run_result \<Rightarrow> build_run_result" where
  "enforce_evidence sel r =
     (let r1 = (if br_outcome r = SUCCESS \<and> sel_architecture_digest sel \<noteq> None
                   \<and> (case br_architecture r of
                        None \<Rightarrow> True
                      | Some a \<Rightarrow> \<not> architecture_passed a \<or> Some (ar_policy_digest a) \<noteq> sel_architecture_digest sel)
                then reject_report ''architecture_evidence_missing_or_failed'' r else r)
      in if \<not> acceptance_verified (br_acceptance r1) sel
         then reject_report ''acceptance_evidence_missing_or_failed'' r1 else r1)"

definition runner_unavailable :: "build_profile_selection \<Rightarrow> build_run_result" where
  "runner_unavailable sel =
     \<lparr>br_profile_name = sel_selected_profile sel, br_profile_digest = sel_profile_digest sel,
      br_outcome = INFRASTRUCTURE_ERROR, br_phases = [], br_error_code = Some ''sandbox_runner_unavailable'',
      br_architecture = None, br_acceptance = None\<rparr>"

definition run_build_validation ::
  "node_deps \<Rightarrow> execution_payload \<Rightarrow> workspace_lease \<Rightarrow> build_profile_selection \<Rightarrow> build_run_result eff" where
  "run_build_validation deps p lease sel =
     eff_bind
       (case nd_build_runner deps of
          None \<Rightarrow> eff_return (runner_unavailable sel)
        | Some run \<Rightarrow>
            eff_bind (run lease sel) (\<lambda>fin. case fin of
              Run_finished r \<Rightarrow> eff_return r
            | Run_cancelled r \<Rightarrow>
                eff_bind (record_build_report deps p r) (\<lambda>_. eff_raise (Exc CancelledError ''factory_build_cancelled''))))
       (\<lambda>r. let report = enforce_evidence sel r
            in eff_bind (record_build_report deps p report) (\<lambda>_. eff_return report))"

section \<open>The worker\<close>

definition failed_attempt ::
  "execution_payload \<Rightarrow> string option \<Rightarrow> clock \<Rightarrow> string \<Rightarrow> call_budget option \<Rightarrow> state_update" where
  "failed_attempt p trace clk reason meter =
     (let task = pl_task p;
          tokens = (case meter of None \<Rightarrow> 0 | Some b \<Rightarrow> cb_tokens b);
          cost = (case meter of None \<Rightarrow> 0 | Some b \<Rightarrow> cb_cost_usd b);
          attempt =
            \<lparr>at_attempt_number = attempt_count task + 1, at_agent_name = or_str (t_assigned_agent task) ''unknown'',
             at_model = ''unknown'', at_started_at = clk 0, at_finished_at = Some (clk 1),
             at_outcome = Some FAILED, at_failure_reason = Some reason, at_tokens_used = tokens,
             at_cost_usd = cost, at_trace_id = trace, at_operational_summary = None,
             at_factory_stage = pl_factory_stage p, at_build_strategy = pl_build_strategy p,
             at_build_validation = None\<rparr>;
          failed = task\<lparr>t_attempts := t_attempts task @ [attempt],
                        t_budget := charge (t_budget task) tokens cost 0 0, t_updated_at := clk 2\<rparr>
      in no_update\<lparr>u_plan := Some [failed\<lparr>t_status := next_status_after_failure failed\<rparr>]\<rparr>)"

definition blocked_reason :: "execution_outcome \<Rightarrow> call_budget option \<Rightarrow> string option" where
  "blocked_reason out meter =
     (if truthy_str (eo_budget_blocked_reason out) then eo_budget_blocked_reason out
      else case meter of
             None \<Rightarrow> None
           | Some b \<Rightarrow> if truthy_str (cb_blocked_reason b) then cb_blocked_reason b else None)"

definition executed_task ::
  "execution_payload \<Rightarrow> string option \<Rightarrow> clock \<Rightarrow> execution_outcome \<Rightarrow> (string \<times> pyval) list option
     \<Rightarrow> task_budget \<Rightarrow> string option \<Rightarrow> agent_task" where
  "executed_task p trace clk out summary charged blocked =
     (let task = pl_task p;
          attempt =
            \<lparr>at_attempt_number = attempt_count task + 1, at_agent_name = eo_agent out, at_model = eo_model out,
             at_started_at = clk 0, at_finished_at = Some (clk 1),
             at_outcome = Some (if tb_exceeded charged \<or> blocked \<noteq> None then FAILED else RUNNING),
             at_failure_reason =
               (if blocked \<noteq> None then blocked
                else if tb_exceeded charged then Some ''execucao ultrapassou o budget da tarefa'' else None),
             at_tokens_used = eo_tokens out, at_cost_usd = eo_cost_usd out, at_trace_id = trace,
             at_operational_summary = summary, at_factory_stage = pl_factory_stage p,
             at_build_strategy = pl_build_strategy p, at_build_validation = None\<rparr>
      in task\<lparr>t_status := RUNNING, t_result := eo_result out, t_attempts := t_attempts task @ [attempt],
              t_budget := charged, t_updated_at := clk 2\<rparr>)"

definition budget_stop_update :: "agent_task \<Rightarrow> string option \<Rightarrow> int \<Rightarrow> usd \<Rightarrow> state_update" where
  "budget_stop_update updated blocked tokens cost =
     (let stopped = updated\<lparr>t_status := (if blocked \<noteq> None then ESCALATED else next_status_after_failure updated)\<rparr>;
          u = no_update\<lparr>u_plan := Some [stopped], u_usage := Some (usage_of tokens cost)\<rparr>
      in if blocked \<noteq> None then u\<lparr>u_budget_blocked_reason := Some blocked\<rparr> else u)"

definition with_build_validation ::
  "codec \<Rightarrow> execution_payload \<Rightarrow> clock \<Rightarrow> agent_task \<Rightarrow> build_run_result \<Rightarrow> agent_task result" where
  "with_build_validation cd p clk updated report =
     (let res = attach_build_report cd (t_result updated) report in
      case attempt_operational_summary cd res of
        Inl e \<Rightarrow> Inl e
      | Inr summary \<Rightarrow>
          (let attempt = (last (t_attempts updated))
                 \<lparr>at_operational_summary := summary, at_finished_at := Some (clk 3),
                  at_factory_stage := Some VALIDATION, at_build_validation := Some report\<rparr>
           in Inr (updated\<lparr>t_result := res, t_attempts := t_attempts (pl_task p) @ [attempt]\<rparr>)))"

definition judge_executed_task ::
  "codec \<Rightarrow> node_deps \<Rightarrow> execution_payload \<Rightarrow> clock \<Rightarrow> agent_task \<Rightarrow> build_run_result option \<Rightarrow> int \<Rightarrow> usd
     \<Rightarrow> state_update eff" where
  "judge_executed_task cd deps p clk updated report tokens cost =
     eff_bind
       (judge_task cd (clk 4) updated
          (case report of None \<Rightarrow> pl_context p
           | Some r \<Rightarrow> AList.update ''build_validation'' (cd_dump_report cd r) (pl_context p))
          (active_judge deps (pl_workspace p)))
       (\<lambda>(judged, evaluation, usage).
          let u = no_update\<lparr>u_plan := Some [judged],
                    u_usage := Some (usage_of (tokens + ug_tokens usage) (cost + ug_cost_usd usage))\<rparr>;
              u1 = (case evaluation of None \<Rightarrow> u | Some ev \<Rightarrow> u\<lparr>u_evaluations := Some [ev]\<rparr>)
          in eff_return (if report \<noteq> None then u1\<lparr>u_factory_stage := Some (Some VALIDATION)\<rparr> else u1))"

text \<open>A failure after the executor returned keeps the applied result.\<close>

definition failure_reason :: "agent_task \<Rightarrow> exc \<Rightarrow> string" where
  "failure_reason task e =
     (if exc_kind e = TimeoutError then ''timeout apos '' @ show_int (t_timeout_seconds task) @ ''s''
      else exc_repr e)"

definition late_failure :: "execution_payload \<Rightarrow> clock \<Rightarrow> agent_task \<Rightarrow> exc \<Rightarrow> int \<Rightarrow> usd \<Rightarrow> state_update" where
  "late_failure p clk updated e tokens cost =
     (let reason = failure_reason (pl_task p) e;
          attempt = (last (t_attempts updated))
            \<lparr>at_outcome := Some FAILED, at_failure_reason := Some reason, at_finished_at := Some (clk 5)\<rparr>;
          blocked = (exc_kind e = BudgetAdmissionError);
          failed = updated\<lparr>t_attempts := butlast (t_attempts updated) @ [attempt],
                           t_status := (if blocked then ESCALATED else next_status_after_failure updated)\<rparr>;
          u = no_update\<lparr>u_plan := Some [failed], u_usage := Some (usage_of tokens cost)\<rparr>;
          u1 = (if blocked then u\<lparr>u_budget_blocked_reason := Some (Some reason)\<rparr> else u)
      in if at_build_validation attempt \<noteq> None then u1\<lparr>u_factory_stage := Some (at_factory_stage attempt)\<rparr> else u1)"

text \<open>\<open>_failure_update\<close>, when the exception is one the worker catches.\<close>

definition recover ::
  "execution_payload \<Rightarrow> string option \<Rightarrow> clock \<Rightarrow> agent_task option \<Rightarrow> int \<Rightarrow> usd
     \<Rightarrow> state_update result \<times> budget_store \<Rightarrow> nat list \<Rightarrow> state_update result \<times> budget_store" where
  "recover p trace clk updated tokens cost outcome stk =
     (case outcome of
        (Inr u, \<sigma>) \<Rightarrow> (Inr u, \<sigma>)
      | (Inl e, \<sigma>) \<Rightarrow>
          if \<not> is_exception e then (Inl e, \<sigma>)
          else case updated of
                 None \<Rightarrow> (Inr (failed_attempt p trace clk (failure_reason (pl_task p) e) (active_call_budget \<sigma> stk)), \<sigma>)
               | Some t \<Rightarrow> (Inr (late_failure p clk t e tokens cost), \<sigma>))"

text \<open>What follows the executor's return, once the attempt is on the task.\<close>

definition validate_and_judge ::
  "codec \<Rightarrow> node_deps \<Rightarrow> execution_payload \<Rightarrow> string option \<Rightarrow> clock \<Rightarrow> agent_task \<Rightarrow> int \<Rightarrow> usd
     \<Rightarrow> state_update eff" where
  "validate_and_judge cd deps p trace clk updated tokens cost stk \<sigma> =
     (case (pl_workspace p, pl_build_strategy p) of
        (Some lease, Some sel) \<Rightarrow>
          (case run_build_validation deps p lease sel stk \<sigma> of
             (Inl e, \<sigma>1) \<Rightarrow> recover p trace clk (Some updated) tokens cost (Inl e, \<sigma>1) stk
           | (Inr report, \<sigma>1) \<Rightarrow>
               (case with_build_validation cd p clk updated report of
                  Inl e \<Rightarrow> recover p trace clk (Some updated) tokens cost (Inl e, \<sigma>1) stk
                | Inr validated \<Rightarrow>
                    recover p trace clk (Some validated) tokens cost
                      (judge_executed_task cd deps p clk validated (Some report) tokens cost stk \<sigma>1) stk))
      | _ \<Rightarrow>
          recover p trace clk (Some updated) tokens cost
            (judge_executed_task cd deps p clk updated None tokens cost stk \<sigma>) stk)"

definition run_task ::
  "codec \<Rightarrow> node_deps \<Rightarrow> string option \<Rightarrow> clock \<Rightarrow> execution_payload \<Rightarrow> state_update eff" where
  "run_task cd deps trace clk p stk \<sigma> =
     (let task = pl_task p in
      case gr_select (active_registry deps (pl_workspace p)) task of
        Inl e \<Rightarrow> (Inl e, \<sigma>)
      | Inr execute \<Rightarrow>
          if tb_exhausted (t_budget task)
          then (Inr (failed_attempt p trace clk ''budget da tarefa esgotado antes da execucao''
                  (active_call_budget \<sigma> stk)), \<sigma>)
          else
            case execute (t_timeout_seconds task) task (pl_context p) stk \<sigma> of
              (Inl e, \<sigma>1) \<Rightarrow> recover p trace clk None 0 0 (Inl e, \<sigma>1) stk
            | (Inr raw, \<sigma>1) \<Rightarrow>
                (let out = from_executor raw;
                     charged = charge (t_budget task) (eo_tokens out) (eo_cost_usd out) 0 0;
                     blocked = blocked_reason out (active_call_budget \<sigma>1 stk)
                 in case attempt_operational_summary cd (eo_result out) of
                      Inl e \<Rightarrow> recover p trace clk None (eo_tokens out) (eo_cost_usd out) (Inl e, \<sigma>1) stk
                    | Inr summary \<Rightarrow>
                        (let updated = executed_task p trace clk out summary charged blocked
                         in if tb_exceeded charged \<or> blocked \<noteq> None
                            then (Inr (budget_stop_update updated blocked (eo_tokens out) (eo_cost_usd out)), \<sigma>1)
                            else validate_and_judge cd deps p trace clk updated (eo_tokens out) (eo_cost_usd out) stk \<sigma>1)))"

section \<open>The join\<close>

definition task_remaining :: "task_budget \<Rightarrow> call_budget" where
  "task_remaining b = fresh_budget
     (max 0 (tb_max_tokens b - tb_consumed_tokens b - tb_unconfirmed_tokens b))
     (max 0 (tb_max_cost_usd b - tb_consumed_cost_usd b - tb_unconfirmed_cost_usd b))"

text \<open>The fallback for tasks that reach the join still RUNNING; \<open>new_id\<close> names the budget object
  created for each.\<close>

fun consolidate_running ::
  "codec \<Rightarrow> node_deps \<Rightarrow> (uuid \<Rightarrow> nat) \<Rightarrow> timestamp \<Rightarrow> workflow_state \<Rightarrow> agent_task list
     \<Rightarrow> (agent_task list \<times> evaluation_result list \<times> int \<times> usd) eff" where
  "consolidate_running cd deps new_id now s [] stk \<sigma> = (Inr ([], [], 0, 0), \<sigma>)"
| "consolidate_running cd deps new_id now s (task # tasks) stk \<sigma> =
     (let i = new_id (t_id task);
          path = enter_scope stk i
      in case judge_task cd now task (w_context s) (active_judge deps (w_workspace s)) path
                (\<sigma>(i := task_remaining (t_budget task))) of
           (Inl e, \<sigma>1) \<Rightarrow> (Inl e, exit_scope \<sigma>1 path)
         | (Inr (judged, evaluation, usage), \<sigma>1) \<Rightarrow>
             (let \<sigma>2 = exit_scope \<sigma>1 path;
                  meter = \<sigma>2 i;
                  charged = judged\<lparr>t_budget := charge (t_budget task)
                    (max (cb_tokens meter) (ug_tokens usage)) (max (cb_cost_usd meter) (ug_cost_usd usage))
                    (cb_unconfirmed_tokens meter) (cb_unconfirmed_cost_usd meter)\<rparr>
              in case consolidate_running cd deps new_id now s tasks stk \<sigma>2 of
                   (Inl e, \<sigma>3) \<Rightarrow> (Inl e, \<sigma>3)
                 | (Inr (ts, evs, tokens, cost), \<sigma>3) \<Rightarrow>
                     (Inr (charged # ts, (case evaluation of None \<Rightarrow> [] | Some ev \<Rightarrow> [ev]) @ evs,
                           ug_tokens usage + tokens, ug_cost_usd usage + cost), \<sigma>3)))"

definition consolidate_results ::
  "codec \<Rightarrow> node_deps \<Rightarrow> (uuid \<Rightarrow> nat) \<Rightarrow> timestamp \<Rightarrow> workflow_state \<Rightarrow> state_update eff" where
  "consolidate_results cd deps new_id now s =
     eff_bind (consolidate_running cd deps new_id now s (filter (\<lambda>t. t_status t = RUNNING) (w_plan s)))
       (\<lambda>(tasks, evaluations, tokens, cost). eff_return
          (no_update\<lparr>u_plan := Some tasks, u_evaluations := Some evaluations,
             u_usage := Some (usage_of tokens cost), u_phase := Some PH_EVALUATING\<rparr>))"

section \<open>The fan-out respects its limits\<close>

text \<open>With a registry that keeps its contract, something is always dispatched.\<close>

context dispatch_registry
begin

lemma take_dispatchable_total:
  assumes "reg_ok r"
  shows "\<exists>sel. take_dispatchable (Some (policy r)) counts ts = Inr sel"
proof (induction ts arbitrary: counts)
  case (Cons t ts)
  obtain name limit where "policy r t = Inr (name, limit)" using policy_total [OF assms] by blast
  moreover obtain sel where "take_dispatchable (Some (policy r)) counts ts = Inr sel" using Cons.IH by blast
  moreover obtain sel' where
    "take_dispatchable (Some (policy r)) (AList.update name (dict_get_or counts name 0 + 1) counts) ts = Inr sel'"
    using Cons.IH by blast
  ultimately show ?case by (simp add: Let_def)
qed simp

lemma take_dispatchable_progress:
  assumes "reg_ok r" and "ts \<noteq> []"
  shows "\<exists>sel. take_dispatchable (Some (policy r)) [] ts = Inr sel \<and> sel \<noteq> []"
proof -
  obtain t rest where ts: "ts = t # rest" using assms(2) by (cases ts) simp_all
  obtain name limit where p: "policy r t = Inr (name, limit)" "1 \<le> limit" using policy_total [OF assms(1)] by blast
  obtain sel where "take_dispatchable (Some (policy r)) (AList.update name 1 []) rest = Inr sel"
    using take_dispatchable_total [OF assms(1)] by blast
  with p show ?thesis by (simp add: ts dict_get_or_def)
qed

end

definition agent_of :: "(agent_task \<Rightarrow> (string \<times> int) result) \<Rightarrow> agent_task \<Rightarrow> string option" where
  "agent_of f t = (case f t of Inl e \<Rightarrow> None | Inr p \<Rightarrow> Some (fst p))"

lemma take_dispatchable_subseq: "take_dispatchable policy counts ts = Inr sel \<Longrightarrow> subseq sel ts"
  by (induction policy counts ts arbitrary: sel rule: take_dispatchable.induct)
    (auto simp: Let_def split: option.splits sum.splits if_splits prod.splits)

lemma take_dispatchable_limit:
  assumes "take_dispatchable (Some f) counts ts = Inr sel"
    and "\<forall>t \<in> set ts. \<forall>l. f t = Inr (a, l) \<longrightarrow> l \<le> most"
  shows "dict_get_or counts a 0 + int (length (filter (\<lambda>t. agent_of f t = Some a) sel))
           \<le> max most (dict_get_or counts a 0)"
  using assms
proof (induction ts arbitrary: counts sel)
  case (Cons t ts)
  obtain agent limit where f: "f t = Inr (agent, limit)"
    using Cons.prems(1) by (cases "f t") auto
  have rest: "\<forall>t \<in> set ts. \<forall>l. f t = Inr (a, l) \<longrightarrow> l \<le> most" using Cons.prems(2) by simp
  show ?case
  proof (cases "dict_get_or counts agent 0 \<ge> limit")
    case True
    then show ?thesis using Cons.prems(1) Cons.IH [OF _ rest] by (simp add: f)
  next
    case False
    then obtain sel' where sel': "sel = t # sel'"
        "take_dispatchable (Some f) (AList.update agent (dict_get_or counts agent 0 + 1) counts) ts = Inr sel'"
      using Cons.prems(1) by (auto simp: f split: sum.splits)
    have agent_lim: "agent = a \<Longrightarrow> limit \<le> most" using Cons.prems(2) f by simp
    from Cons.IH [OF sel'(2) rest] agent_lim False show ?thesis
      by (cases "agent = a") (auto simp: sel'(1) agent_of_def f dict_get_or_def)
  qed
qed simp

lemma select_dispatchable_facts:
  assumes "select_dispatchable deps s ready = Inr sel"
  shows "subseq sel ready" and "w_work_order s \<noteq> None \<Longrightarrow> length sel \<le> 1"
proof -
  let ?ts = "if w_work_order s \<noteq> None then take 1 ready else ready"
  from assms have sub: "subseq sel ?ts"
    unfolding select_dispatchable_def by (rule take_dispatchable_subseq)
  show "subseq sel ready"
    using sub subseq_order.trans [OF _ prefix_imp_subseq [OF take_is_prefix]] by (auto split: if_splits)
  show "length sel \<le> 1" if "w_work_order s \<noteq> None"
    using list_emb_length [OF sub] that by simp
qed

lemma route_execute:
  assumes "route_ready_tasks cd deps now s = Inr (To_execute sends)"
  shows "\<exists>sel. select_dispatchable deps s (ready_tasks s) = Inr sel \<and> sel \<noteq> []
    \<and> sends = map (task_payload cd s (per_task_allowances s (int (length sel)))) sel \<and> \<not> budget_exhausted now s"
  using assms by (auto simp: route_ready_tasks_def split: if_splits sum.splits)

lemma payload_allowances [simp]:
  "pl_task (task_payload cd s a t) = t" "pl_token_allowance (task_payload cd s a t) = Some (fst a)"
  "pl_cost_allowance_usd (task_payload cd s a t) = Some (snd a)"
  by (simp_all add: task_payload_def Let_def)

text \<open>C33. The fan-out never hands out more than is left: the workers are a subsequence of the ready
  tasks, at least one; a work order gets exactly one at a time; no agent gets more tasks than any
  bound on its policy's limits; the token allowances add up to at most what the workflow has left,
  the cost allowances to exactly that; and nothing is dispatched on an exhausted budget.\<close>

theorem fan_out_stays_within_the_budget:
  assumes "route_ready_tasks cd deps now s = Inr (To_execute sends)"
  shows "sends \<noteq> [] \<and> subseq (map pl_task sends) (ready_tasks s) \<and> \<not> budget_exhausted now s
    \<and> (w_work_order s \<noteq> None \<longrightarrow> length sends = 1)
    \<and> sum_list (map (\<lambda>p. the (pl_token_allowance p)) sends) \<le> max 0 (fst (state_limits s))
    \<and> sum_list (map (\<lambda>p. the (pl_cost_allowance_usd p)) sends) = max 0 (snd (state_limits s))
    \<and> (\<forall>f agent most. gr_dispatch_policy (active_registry deps (w_workspace s)) = Some f \<and> 0 \<le> most
         \<and> (\<forall>t \<in> set (ready_tasks s). \<forall>l. f t = Inr (agent, l) \<longrightarrow> l \<le> most)
         \<longrightarrow> int (length (filter (\<lambda>p. agent_of f (pl_task p) = Some agent) sends)) \<le> most)"
proof -
  obtain sel where sel: "select_dispatchable deps s (ready_tasks s) = Inr sel" "sel \<noteq> []"
    and sends: "sends = map (task_payload cd s (per_task_allowances s (int (length sel)))) sel"
    and live: "\<not> budget_exhausted now s"
    using route_execute [OF assms] by blast
  let ?n = "int (length sel)" and ?a = "per_task_allowances s (int (length sel))"
  have tasks: "map pl_task sends = sel" by (simp add: sends comp_def)
  have pos: "0 < ?n" using sel(2) by simp
  have "sum_list (map (\<lambda>p. the (pl_token_allowance p)) sends) = ?n * fst ?a"
    by (simp add: sends comp_def sum_list_triv)
  also have "\<dots> \<le> max 0 (fst (state_limits s))"
  proof -
    have "?n * (m div ?n) \<le> m" for m
      using mult_div_mod_eq [of ?n m] pos_mod_sign [OF pos, of m] by linarith
    then show ?thesis by (simp add: per_task_allowances_def)
  qed
  finally have tokens: "sum_list (map (\<lambda>p. the (pl_token_allowance p)) sends) \<le> max 0 (fst (state_limits s))" .
  have "sum_list (map (\<lambda>p. the (pl_cost_allowance_usd p)) sends) = of_int ?n * snd ?a"
    by (simp add: sends comp_def sum_list_triv)
  also have "\<dots> = max 0 (snd (state_limits s))" using sel(2) by (simp add: per_task_allowances_def)
  finally have cost: "sum_list (map (\<lambda>p. the (pl_cost_allowance_usd p)) sends) = max 0 (snd (state_limits s))" .
  have limits: "int (length (filter (\<lambda>p. agent_of f (pl_task p) = Some agent) sends)) \<le> most"
    if f: "gr_dispatch_policy (active_registry deps (w_workspace s)) = Some f" and "0 \<le> most"
      and within: "\<forall>t \<in> set (ready_tasks s). \<forall>l. f t = Inr (agent, l) \<longrightarrow> l \<le> most" for f agent most
  proof -
    let ?ts = "if w_work_order s \<noteq> None then take 1 (ready_tasks s) else ready_tasks s"
    have take: "take_dispatchable (Some f) [] ?ts = Inr sel" using sel(1) f by (simp add: select_dispatchable_def)
    have "\<forall>t \<in> set ?ts. \<forall>l. f t = Inr (agent, l) \<longrightarrow> l \<le> most" using within by (auto dest: in_set_takeD)
    from take_dispatchable_limit [OF take this] \<open>0 \<le> most\<close>
    have "int (length (filter (\<lambda>t. agent_of f t = Some agent) sel)) \<le> most" by (simp add: dict_get_or_def)
    then show ?thesis by (simp add: sends filter_map comp_def)
  qed
  have "length sends = 1" if "w_work_order s \<noteq> None"
    using select_dispatchable_facts(2) [OF sel(1) that] sel(2) by (cases sel) (auto simp: sends)
  then show ?thesis
    using select_dispatchable_facts(1) [OF sel(1)] sel(2) live tokens cost limits
    by (intro conjI allI impI) (simp_all add: tasks, simp_all add: sends)
qed

theorem fan_out_stays_within_the_budget_witness:
  "\<exists>sends. route_ready_tasks sample_codec sample_deps 10 (sample_state [sample_task 2 PENDING, sample_task 3 PENDING])
       = Inr (To_execute sends)
     \<and> sum_list (map (\<lambda>p. the (pl_token_allowance p)) sends) \<le> 500000"
proof -
  let ?s = "sample_state [sample_task 2 PENDING, sample_task 3 PENDING]"
  have live: "\<not> budget_exhausted 10 ?s"
    by (simp add: budget_exhausted_def sample_state_def used_tokens_def used_cost_def dict_get_or_def
        sample_workflow_budget_def elapsed_seconds_def)
  have ready: "ready_tasks ?s = [sample_task 2 PENDING, sample_task 3 PENDING]"
    by (simp add: ready_tasks_def redispatchable_tasks_def is_redispatchable_def sample_state_def sample_task_def Let_def)
  have "\<exists>sends. route_ready_tasks sample_codec sample_deps 10 ?s = Inr (To_execute sends)"
  proof -
    have "w_workspace ?s = None" "w_work_order ?s = None" by (simp_all add: sample_state_def)
    with live show ?thesis
      by (simp add: route_ready_tasks_def ready select_dispatchable_def active_registry_def sample_deps_def)
  qed
  then obtain sends where sends: "route_ready_tasks sample_codec sample_deps 10 ?s = Inr (To_execute sends)" by blast
  have "fst (state_limits ?s) = 500000"
    by (simp add: state_limits_def sample_state_def sample_workflow_budget_def dict_get_or_def py_trunc_def)
  with fan_out_stays_within_the_budget [OF sends] sends show ?thesis by auto
qed

text \<open>C37. No deadlock by policy: with budget left and ready tasks, a registry that passed its own
  construction checks always lets at least one task through; the route is never the human gate.\<close>

theorem ready_work_is_dispatched:
  assumes "gr_dispatch_policy (active_registry deps (w_workspace s)) = Some (dispatch_policy reg)"
    and "registry_ok reg" and "ready_tasks s \<noteq> []" and "\<not> budget_exhausted now s"
  shows "\<exists>sends. route_ready_tasks cd deps now s = Inr (To_execute sends)"
proof -
  let ?ts = "if w_work_order s \<noteq> None then take 1 (ready_tasks s) else ready_tasks s"
  have "?ts \<noteq> []" using assms(3) by simp
  then obtain sel where "take_dispatchable (Some (dispatch_policy reg)) [] ?ts = Inr sel" "sel \<noteq> []"
    using executors.take_dispatchable_progress [OF assms(2)] by blast
  then have "select_dispatchable deps s (ready_tasks s) = Inr sel" by (simp add: select_dispatchable_def assms(1))
  then show ?thesis using assms(3,4) \<open>sel \<noteq> []\<close> by (simp add: route_ready_tasks_def)
qed

definition policed_deps :: node_deps where
  "policed_deps = sample_deps\<lparr>nd_registry := (nd_registry sample_deps)
     \<lparr>gr_dispatch_policy := Some (dispatch_policy default_registry)\<rparr>\<rparr>"

theorem ready_work_is_dispatched_witness:
  "\<exists>sends. route_ready_tasks sample_codec policed_deps 10 (sample_state [sample_task 2 PENDING]) = Inr (To_execute sends)"
proof (rule ready_work_is_dispatched)
  let ?s = "sample_state [sample_task 2 PENDING]"
  show "gr_dispatch_policy (active_registry policed_deps (w_workspace ?s)) = Some (dispatch_policy default_registry)"
    by (simp add: policed_deps_def active_registry_def sample_deps_def sample_state_def)
  show "registry_ok default_registry"
    unfolding registry_ok_def by (intro exI [of _ "[]"]) (simp add: default_registry_new)
  show "ready_tasks ?s \<noteq> []"
    by (simp add: ready_tasks_def redispatchable_tasks_def is_redispatchable_def sample_state_def sample_task_def Let_def)
  show "\<not> budget_exhausted 10 ?s"
    by (simp add: budget_exhausted_def sample_state_def used_tokens_def used_cost_def dict_get_or_def
        sample_workflow_budget_def elapsed_seconds_def)
qed

section \<open>The worker settles its task\<close>

text \<open>What every update of the worker looks like: one task, the payload's, with one more attempt, which
  is closed, and a final status for this round.\<close>

definition worker_settled :: "execution_payload \<Rightarrow> state_update \<Rightarrow> bool" where
  "worker_settled p u \<longleftrightarrow>
     (\<exists>t a. u_plan u = Some [t] \<and> t_id t = t_id (pl_task p)
        \<and> t_status t \<in> {COMPLETED, REJECTED, ESCALATED}
        \<and> t_attempts t = t_attempts (pl_task p) @ [a] \<and> at_outcome a \<noteq> Some RUNNING
        \<and> (t_status t = COMPLETED \<longrightarrow>
             (\<exists>ev. u_evaluations u = Some [ev] \<and> ev_approved ev)
             \<and> \<not> tb_exceeded (t_budget t)
             \<and> (\<forall>lease sel. pl_workspace p = Some lease \<and> pl_build_strategy p = Some sel \<longrightarrow>
                  (\<exists>r. at_build_validation a = Some r \<and> \<not> evidence_rejected r
                     \<and> acceptance_verified (br_acceptance r) sel))))"

lemma next_status_settled: "next_status_after_failure t \<in> {COMPLETED, REJECTED, ESCALATED}"
  by (simp add: next_status_after_failure_def)

lemma next_status_open:
  "next_status_after_failure t = REJECTED \<or> next_status_after_failure t = ESCALATED"
  by (simp add: next_status_after_failure_def)

lemma failed_attempt_settled: "worker_settled p (failed_attempt p trace clk reason meter)"
proof -
  let ?t = "hd (the (u_plan (failed_attempt p trace clk reason meter)))"
  have "u_plan (failed_attempt p trace clk reason meter) = Some [?t]" "t_id ?t = t_id (pl_task p)"
      "t_attempts ?t = t_attempts (pl_task p) @ [last (t_attempts ?t)]"
      "at_outcome (last (t_attempts ?t)) = Some FAILED"
    by (simp_all add: failed_attempt_def Let_def no_update_def)
  moreover have "t_status ?t = REJECTED \<or> t_status ?t = ESCALATED"
    by (simp add: failed_attempt_def Let_def no_update_def next_status_open)
  ultimately show ?thesis
    unfolding worker_settled_def by (intro exI [of _ ?t] exI [of _ "last (t_attempts ?t)"]) auto
qed

text \<open>The worker's task while it is being validated and judged.\<close>

definition executing :: "execution_payload \<Rightarrow> agent_task \<Rightarrow> task_attempt \<Rightarrow> bool" where
  "executing p t a \<longleftrightarrow> t_id t = t_id (pl_task p) \<and> t_attempts t = t_attempts (pl_task p) @ [a]"

lemma executed_task_executing: "\<exists>a. executing p (executed_task p trace clk out summary charged blocked) a
    \<and> at_outcome a = Some (if tb_exceeded charged \<or> blocked \<noteq> None then FAILED else RUNNING)
    \<and> t_budget (executed_task p trace clk out summary charged blocked) = charged"
  by (intro exI [of _ "last (t_attempts (executed_task p trace clk out summary charged blocked))"])
    (simp add: executing_def executed_task_def Let_def)

lemma budget_stop_settled:
  assumes "executing p t a" and "at_outcome a \<noteq> Some RUNNING"
  shows "worker_settled p (budget_stop_update t blocked tokens cost)"
  using assms next_status_settled [of t]
  by (simp add: worker_settled_def budget_stop_update_def executing_def Let_def no_update_def)

lemma late_failure_settled:
  assumes "executing p t a"
  shows "worker_settled p (late_failure p clk t e tokens cost)"
  using assms next_status_settled [of t]
  by (simp add: worker_settled_def late_failure_def executing_def Let_def no_update_def)

lemma judge_verdict_facts:
  assumes "executing p t a" and "at_outcome a = Some RUNNING"
  shows "\<exists>a'. executing p (judge_verdict cd now t ev) a' \<and> at_outcome a' \<noteq> Some RUNNING
    \<and> at_build_validation a' = at_build_validation a"
    and "t_status (judge_verdict cd now t ev) = COMPLETED \<longleftrightarrow> ev_approved ev"
    and "t_status (judge_verdict cd now t ev) \<in> {COMPLETED, REJECTED, ESCALATED}"
    and "t_budget (judge_verdict cd now t ev) = t_budget t"
proof -
  show "\<exists>a'. executing p (judge_verdict cd now t ev) a' \<and> at_outcome a' \<noteq> Some RUNNING
      \<and> at_build_validation a' = at_build_validation a"
    using assms
    by (intro exI [of _ "a\<lparr>at_outcome := Some (if ev_approved ev then COMPLETED else next_status_after_failure t),
          at_failure_reason := (if ev_approved ev then None else
            let text = join ''; '' (take 3 (ev_failures ev)) in Some (if text = [] then ''reprovado pelo judge'' else text))\<rparr>"])
      (simp add: executing_def judge_verdict_def last_opt_def update_last_def Let_def)
qed (use next_status_settled [of t] in \<open>simp_all add: judge_verdict_def Let_def\<close>)

lemma judge_failure_facts:
  assumes "executing p t a"
  shows "\<exists>a'. executing p (judge_failure now e t) a' \<and> at_outcome a' = Some FAILED"
    and "t_status (judge_failure now e t) = ESCALATED"
  using assms by (simp_all add: executing_def judge_failure_def update_last_def)

text \<open>An enforced report that is not rejected has verified acceptance evidence.\<close>

lemma enforce_evidence_verified:
  "\<not> evidence_rejected (enforce_evidence sel r) \<Longrightarrow> acceptance_verified (br_acceptance (enforce_evidence sel r)) sel"
  by (auto simp: enforce_evidence_def evidence_rejected_def reject_report_def Let_def split: if_splits)

lemma apply_build_veto_approved:
  "ev_approved (apply_build_veto e (Some r)) \<Longrightarrow> \<not> evidence_rejected r"
  by (auto simp: apply_build_veto_def Let_def split: if_splits)

lemma report_of_executing:
  assumes "executing p t a" and "at_build_validation a = Some r"
  shows "build_report_from_task cd t = Some r"
  using assms by (simp add: executing_def build_report_from_task_def current_build_validation_def last_opt_def)

lemma judge_task_cases:
  assumes "judge_task cd now t ctx judge stk \<sigma> = (Inr (judged, evaluation, usage), \<sigma>')"
  shows "(\<exists>e. judged = judge_failure now e t \<and> evaluation = None)
    \<or> (\<exists>ev0. evaluation = Some (apply_build_veto ev0 (build_report_from_task cd t))
         \<and> judged = judge_verdict cd now t (apply_build_veto ev0 (build_report_from_task cd t)))"
proof (cases "judge t ctx stk \<sigma>")
  case (Pair r \<sigma>1)
  with assms show ?thesis
    by (cases r) (auto simp: judge_task_def Let_def split: if_splits sum.splits)
qed

lemma judge_executed_update:
  assumes "judge_executed_task cd deps p clk t report tokens cost stk \<sigma> = (Inr u, \<sigma>')"
  shows "\<exists>judged evaluation usage ctx. judge_task cd (clk 4) t ctx (active_judge deps (pl_workspace p)) stk \<sigma>
      = (Inr (judged, evaluation, usage), \<sigma>')
    \<and> u_plan u = Some [judged] \<and> u_evaluations u = map_option (\<lambda>ev. [ev]) evaluation"
proof -
  let ?ctx = "case report of None \<Rightarrow> pl_context p
      | Some r \<Rightarrow> AList.update ''build_validation'' (cd_dump_report cd r) (pl_context p)"
  obtain r \<sigma>1 where r: "judge_task cd (clk 4) t ?ctx (active_judge deps (pl_workspace p)) stk \<sigma> = (r, \<sigma>1)"
    by (metis prod.exhaust)
  with assms obtain judged evaluation usage where ok: "r = Inr (judged, evaluation, usage)"
    by (cases r) (auto simp: judge_executed_task_def eff_bind_def)
  have "u_plan u = Some [judged] \<and> u_evaluations u = map_option (\<lambda>ev. [ev]) evaluation \<and> \<sigma>1 = \<sigma>'"
    using assms by (cases evaluation)
      (auto simp: judge_executed_task_def eff_bind_def r ok eff_return_def Let_def no_update_def)
  with r ok show ?thesis by blast
qed

lemma judge_executed_settled:
  assumes ex: "executing p t a" and run: "at_outcome a = Some RUNNING" and "\<not> tb_exceeded (t_budget t)"
    and build: "\<forall>lease sel. pl_workspace p = Some lease \<and> pl_build_strategy p = Some sel \<longrightarrow>
       (\<exists>r. at_build_validation a = Some r \<and> (\<not> evidence_rejected r \<longrightarrow> acceptance_verified (br_acceptance r) sel))"
    and "judge_executed_task cd deps p clk t report tokens cost stk \<sigma> = (Inr u, \<sigma>')"
  shows "worker_settled p u"
proof -
  obtain judged evaluation usage ctx where
    task: "judge_task cd (clk 4) t ctx (active_judge deps (pl_workspace p)) stk \<sigma> = (Inr (judged, evaluation, usage), \<sigma>')"
    and u: "u_plan u = Some [judged]" "u_evaluations u = map_option (\<lambda>ev. [ev]) evaluation"
    using judge_executed_update [OF assms(5)] by blast
  from judge_task_cases [OF task] show ?thesis
  proof (elim disjE exE conjE)
    fix e assume j: "judged = judge_failure (clk 4) e t" "evaluation = None"
    obtain a' where "executing p judged a'" "at_outcome a' = Some FAILED"
      using judge_failure_facts(1) [OF ex] j(1) by blast
    moreover have "t_status judged = ESCALATED" using judge_failure_facts(2) [OF ex] j(1) by simp
    ultimately show ?thesis
      unfolding worker_settled_def by (intro exI [of _ judged] exI [of _ a']) (simp add: u executing_def)
  next
    fix ev0 assume j: "evaluation = Some (apply_build_veto ev0 (build_report_from_task cd t))"
      "judged = judge_verdict cd (clk 4) t (apply_build_veto ev0 (build_report_from_task cd t))"
    let ?ev = "apply_build_veto ev0 (build_report_from_task cd t)"
    obtain a' where a': "executing p judged a'" "at_outcome a' \<noteq> Some RUNNING"
        "at_build_validation a' = at_build_validation a"
      using judge_verdict_facts(1) [OF ex run] j(2) by blast
    have evidence: "\<exists>r. at_build_validation a' = Some r \<and> \<not> evidence_rejected r
        \<and> acceptance_verified (br_acceptance r) sel"
      if h: "ev_approved ?ev" "pl_workspace p = Some lease" "pl_build_strategy p = Some sel" for lease sel
    proof -
      obtain r where r: "at_build_validation a = Some r"
          "\<not> evidence_rejected r \<longrightarrow> acceptance_verified (br_acceptance r) sel"
        using build h(2,3) by blast
      have "\<not> evidence_rejected r"
        using apply_build_veto_approved h(1) report_of_executing [OF ex r(1)] by metis
      with r a'(3) show ?thesis by simp
    qed
    have fields: "u_plan u = Some [judged]" "u_evaluations u = Some [?ev]" by (simp_all add: u j(1))
    have "t_budget judged = t_budget t" "t_status judged = COMPLETED \<longleftrightarrow> ev_approved ?ev"
      "t_status judged \<in> {COMPLETED, REJECTED, ESCALATED}"
      using judge_verdict_facts(2-4) [OF ex run] by (simp_all add: j(2))
    then show ?thesis
      unfolding worker_settled_def using fields a' evidence assms(3)
      by (intro exI [of _ judged] exI [of _ a']) (simp add: executing_def)
  qed
qed

lemma recover_settled:
  assumes "\<And>t. updated = Some t \<Longrightarrow> \<exists>a. executing p t a"
    and "recover p trace clk updated tokens cost outcome stk = (Inr u, \<sigma>')"
    and "\<And>u1. fst outcome = Inr u1 \<Longrightarrow> worker_settled p u1"
  shows "worker_settled p u"
proof (cases "fst outcome")
  case (Inr u1)
  then show ?thesis using assms(2,3) by (cases outcome) (simp add: recover_def)
next
  case (Inl e)
  show ?thesis
  proof (cases updated)
    case None
    then show ?thesis using assms(2) Inl failed_attempt_settled
      by (cases outcome) (auto simp: recover_def split: if_splits)
  next
    case (Some t)
    obtain a where "executing p t a" using assms(1) Some by blast
    then show ?thesis using assms(2) Inl Some late_failure_settled
      by (cases outcome) (auto simp: recover_def split: if_splits)
  qed
qed

lemma with_build_validation_executing:
  assumes "executing p t a" and "with_build_validation cd p clk t r = Inr t'"
  shows "\<exists>a'. executing p t' a' \<and> at_outcome a' = at_outcome a \<and> at_build_validation a' = Some r
    \<and> t_budget t' = t_budget t"
  using assms by (auto simp: with_build_validation_def executing_def Let_def split: sum.splits)

lemma run_build_validation_enforced:
  assumes "run_build_validation deps p lease sel stk \<sigma> = (Inr r, \<sigma>')"
  shows "\<exists>r0. r = enforce_evidence sel r0"
  using assms by (auto simp: run_build_validation_def eff_bind_def eff_return_def Let_def split: prod.splits sum.splits)

lemma validate_and_judge_settled:
  assumes ex: "executing p t a" and run: "at_outcome a = Some RUNNING" and "\<not> tb_exceeded (t_budget t)"
    and res: "validate_and_judge cd deps p trace clk t tokens cost stk \<sigma> = (Inr u, \<sigma>')"
  shows "worker_settled p u"
proof (cases "\<exists>lease sel. pl_workspace p = Some lease \<and> pl_build_strategy p = Some sel")
  case False
  then have "recover p trace clk (Some t) tokens cost
      (judge_executed_task cd deps p clk t None tokens cost stk \<sigma>) stk = (Inr u, \<sigma>')"
    using res by (auto simp: validate_and_judge_def split: option.splits)
  then show ?thesis
  proof (rule recover_settled [rotated])
    fix u1 assume "fst (judge_executed_task cd deps p clk t None tokens cost stk \<sigma>) = Inr u1"
    then obtain \<sigma>1 where "judge_executed_task cd deps p clk t None tokens cost stk \<sigma> = (Inr u1, \<sigma>1)"
      by (metis prod.collapse)
    then show "worker_settled p u1"
      using False by (intro judge_executed_settled [OF ex run assms(3)]) auto
  qed (use ex in blast)+
next
  case True
  then obtain lease sel where build: "pl_workspace p = Some lease" "pl_build_strategy p = Some sel" by blast
  show ?thesis
  proof (cases "run_build_validation deps p lease sel stk \<sigma>")
    case (Pair r \<sigma>1)
    show ?thesis
    proof (cases r)
      case (Inl e)
      with Pair res build have "recover p trace clk (Some t) tokens cost (Inl e, \<sigma>1) stk = (Inr u, \<sigma>')"
        by (simp add: validate_and_judge_def)
      then show ?thesis by (rule recover_settled [rotated]) (use ex in auto)
    next
      case (Inr report)
      obtain r0 where r0: "report = enforce_evidence sel r0"
        using run_build_validation_enforced Pair Inr by blast
      show ?thesis
      proof (cases "with_build_validation cd p clk t report")
        case (Inl e)
        with Pair Inr res build have "recover p trace clk (Some t) tokens cost (Inl e, \<sigma>1) stk = (Inr u, \<sigma>')"
          by (simp add: validate_and_judge_def)
        then show ?thesis by (rule recover_settled [rotated]) (use ex in auto)
      next
        case (Inr t')
        obtain a' where a': "executing p t' a'" "at_outcome a' = Some RUNNING" "at_build_validation a' = Some report"
            "\<not> tb_exceeded (t_budget t')"
          using with_build_validation_executing [OF ex Inr] run assms(3) by metis
        have "recover p trace clk (Some t') tokens cost
            (judge_executed_task cd deps p clk t' (Some report) tokens cost stk \<sigma>1) stk = (Inr u, \<sigma>')"
          using Pair \<open>r = Inr report\<close> Inr res build by (simp add: validate_and_judge_def)
        then show ?thesis
        proof (rule recover_settled [rotated])
          fix u1 assume "fst (judge_executed_task cd deps p clk t' (Some report) tokens cost stk \<sigma>1) = Inr u1"
          then obtain \<sigma>2 where "judge_executed_task cd deps p clk t' (Some report) tokens cost stk \<sigma>1 = (Inr u1, \<sigma>2)"
            by (metis prod.collapse)
          then show "worker_settled p u1"
            using build a'(3) enforce_evidence_verified r0
            by (intro judge_executed_settled [OF a'(1,2,4)]) auto
        qed (use a'(1) in blast)+
      qed
    qed
  qed
qed

text \<open>C30. The worker always settles its task: whatever the executor, the sandbox and the judge do, if the
  worker returns at all, its update has exactly the task it was sent, with one more attempt, closed,
  and a status that is COMPLETED, REJECTED or ESCALATED, never RUNNING; and COMPLETED only with an
  approving evaluation, a budget that is not exceeded and, in a leased workspace with a strategy, a
  build report that was not rejected and whose acceptance evidence matches the selection.\<close>

theorem worker_settles_its_task:
  assumes "run_task cd deps trace clk p stk \<sigma> = (Inr u, \<sigma>')"
  shows "worker_settled p u"
proof -
  obtain execute where pick: "gr_select (active_registry deps (pl_workspace p)) (pl_task p) = Inr execute"
    using assms by (cases "gr_select (active_registry deps (pl_workspace p)) (pl_task p)") (simp_all add: run_task_def)
  show ?thesis
  proof (cases "tb_exhausted (t_budget (pl_task p))")
    case True
    with assms pick show ?thesis using failed_attempt_settled by (auto simp: run_task_def)
  next
    case live: False
    obtain r \<sigma>1 where exec: "execute (t_timeout_seconds (pl_task p)) (pl_task p) (pl_context p) stk \<sigma> = (r, \<sigma>1)"
      by (metis prod.exhaust)
    show ?thesis
    proof (cases r)
      case (Inl e)
      with assms pick live exec have "recover p trace clk None 0 0 (Inl e, \<sigma>1) stk = (Inr u, \<sigma>')"
        by (simp add: run_task_def)
      then show ?thesis by (rule recover_settled [rotated]) auto
    next
      case (Inr raw)
      let ?out = "from_executor raw"
      let ?charged = "charge (t_budget (pl_task p)) (eo_tokens ?out) (eo_cost_usd ?out) 0 0"
      let ?blocked = "blocked_reason ?out (active_call_budget \<sigma>1 stk)"
      show ?thesis
      proof (cases "attempt_operational_summary cd (eo_result ?out)")
        case (Inl e)
        with assms pick live exec Inr
        have "recover p trace clk None (eo_tokens ?out) (eo_cost_usd ?out) (Inl e, \<sigma>1) stk = (Inr u, \<sigma>')"
          by (simp add: run_task_def Let_def)
        then show ?thesis by (rule recover_settled [rotated]) auto
      next
        case summary: (Inr summary)
        let ?t = "executed_task p trace clk ?out summary ?charged ?blocked"
        obtain a where a: "executing p ?t a" "t_budget ?t = ?charged"
            "at_outcome a = Some (if tb_exceeded ?charged \<or> ?blocked \<noteq> None then FAILED else RUNNING)"
          using executed_task_executing by blast
        show ?thesis
        proof (cases "tb_exceeded ?charged \<or> ?blocked \<noteq> None")
          case True
          with assms pick live exec Inr summary
          have "u = budget_stop_update ?t ?blocked (eo_tokens ?out) (eo_cost_usd ?out)"
            by (auto simp: run_task_def Let_def)
          then show ?thesis using a True by (auto intro: budget_stop_settled)
        next
          case False
          with assms pick live exec Inr summary
          have "validate_and_judge cd deps p trace clk ?t (eo_tokens ?out) (eo_cost_usd ?out) stk \<sigma>1 = (Inr u, \<sigma>')"
            by (simp add: run_task_def Let_def)
          then show ?thesis using a False by (intro validate_and_judge_settled [OF a(1)]) simp_all
        qed
      qed
    qed
  qed
qed

theorem worker_settles_its_task_witness:
  "\<exists>u \<sigma>'. run_task sample_codec sample_deps None (\<lambda>n. 0) (sample_payload (sample_task 1 PENDING)) [] sample_store = (Inr u, \<sigma>')
     \<and> worker_settled (sample_payload (sample_task 1 PENDING)) u"
proof -
  have "\<exists>u \<sigma>'. run_task sample_codec sample_deps None (\<lambda>n. 0) (sample_payload (sample_task 1 PENDING)) [] sample_store = (Inr u, \<sigma>')"
    by (simp add: run_task_def sample_deps_def sample_payload_def active_registry_def sample_task_def sample_budget_def
        tb_exhausted_def eff_return_def from_executor_def sample_outcome_def blocked_reason_def truthy_str_def
        active_call_budget_def attempt_operational_summary_def dict_field_def charge_def tb_exceeded_def
        validate_and_judge_def judge_executed_task_def judge_task_def eff_bind_def active_judge_def recover_def Let_def)
  then obtain u \<sigma>' where u: "run_task sample_codec sample_deps None (\<lambda>n. 0) (sample_payload (sample_task 1 PENDING)) [] sample_store = (Inr u, \<sigma>')"
    by blast
  with worker_settles_its_task [OF u] show ?thesis by blast
qed

end
