(* ===== verification/Review_Phase.thy ===== *)
theory Review_Phase imports Node_Deps begin

text \<open>
  The review phase (\<open>app/graph/phase_review.py\<close>): replanning with the advisor, the human gate and
  its router, the authorized retry, the synthesis and the abort. The text Python shows for a list
  of pairs and for the usage dictionary are arguments of the nodes that print them.
\<close>

section \<open>Replanning\<close>

definition diff_paths :: "task_attempt \<Rightarrow> pyval list" where
  "diff_paths a =
     list_or_empty (pget (case at_operational_summary a of None \<Rightarrow> [] | Some d \<Rightarrow> d) ''diff_paths'')"

definition repeated_diff_detected :: "agent_task \<Rightarrow> bool" where
  "repeated_diff_detected t =
     (case rev (t_attempts t) of
        a # b # _ \<Rightarrow> diff_paths a \<noteq> [] \<and> diff_paths a = diff_paths b
      | _ \<Rightarrow> False)"

definition advisor_trigger_for :: "agent_task \<Rightarrow> workflow_state \<Rightarrow> advisor_trigger" where
  "advisor_trigger_for task s =
     \<lparr>tr_task = task,
      tr_judge_rejections =
        int (length (filter (\<lambda>ev. ev_task_id ev = t_id task \<and> \<not> ev_approved ev) (w_evaluations s))),
      tr_repeated_diff_detected = repeated_diff_detected task, tr_self_reported_confidence = None\<rparr>"

definition consult_advisor :: "node_deps \<Rightarrow> agent_task \<Rightarrow> workflow_state \<Rightarrow> advising_outcome option eff" where
  "consult_advisor deps task s stk \<sigma> =
     (case nd_advisor deps of
        None \<Rightarrow> (Inr None, \<sigma>)
      | Some advise \<Rightarrow>
          if attempt_count task = 0 \<or> \<not> should_consult (advisor_trigger_for task s) then (Inr None, \<sigma>)
          else
            case advise (advisor_trigger_for task s) (w_evaluations s) (w_context s) stk \<sigma> of
              (Inr out, \<sigma>1) \<Rightarrow> (Inr (Some out), \<sigma>1)
            | (Inl e, \<sigma>1) \<Rightarrow> if is_exception e then (Inr None, \<sigma>1) else (Inl e, \<sigma>1))"

definition bullet_lines :: "string list \<Rightarrow> string" where
  "bullet_lines items = join [CHR 0x0A] (map (\<lambda>i. ''- '' @ i) items)"

definition replanned_task ::
  "timestamp \<Rightarrow> agent_task \<Rightarrow> string list \<Rightarrow> advising_outcome option \<Rightarrow> agent_task" where
  "replanned_task now task changes advice =
     (let nl = [CHR 0x0A];
          d1 = t_description task
            @ (if changes \<noteq> [] then nl @ nl @ ''Correcoes exigidas pelo judge:'' @ nl @ bullet_lines changes else [])
      in case advice of
           None \<Rightarrow> task\<lparr>t_status := PENDING, t_updated_at := now, t_description := d1\<rparr>
         | Some a \<Rightarrow> task
             \<lparr>t_status := PENDING, t_updated_at := now,
              t_description := d1 @ nl @ nl @ ''Diagnostico do advisor:'' @ nl @ ad_diagnosis a @ nl @ nl
                @ ''Orientacao do advisor para esta tentativa:'' @ nl @ bullet_lines (ad_guidance a),
              t_tier_escalated := (if ad_escalate_tier a then True else t_tier_escalated task)\<rparr>)"

definition required_changes_for :: "workflow_state \<Rightarrow> uuid \<Rightarrow> string list" where
  "required_changes_for s i =
     concat (map ev_required_changes (filter (\<lambda>ev. ev_task_id ev = i) (w_evaluations s)))"

fun replan_tasks ::
  "node_deps \<Rightarrow> timestamp \<Rightarrow> workflow_state \<Rightarrow> agent_task list
     \<Rightarrow> (agent_task list \<times> int \<times> usd) eff" where
  "replan_tasks deps now s [] stk \<sigma> = (Inr ([], 0, 0), \<sigma>)"
| "replan_tasks deps now s (task # tasks) stk \<sigma> =
     (case consult_advisor deps task s stk \<sigma> of
        (Inl e, \<sigma>1) \<Rightarrow> (Inl e, \<sigma>1)
      | (Inr advice, \<sigma>1) \<Rightarrow>
          (case replan_tasks deps now s tasks stk \<sigma>1 of
             (Inl e, \<sigma>2) \<Rightarrow> (Inl e, \<sigma>2)
           | (Inr (updates, tokens, cost), \<sigma>2) \<Rightarrow>
               (let changes = required_changes_for s (t_id task);
                    spent = (case advice of None \<Rightarrow> no_usage | Some a \<Rightarrow> ad_usage a)
                in (Inr ((if changes = [] \<and> advice = None then updates
                          else replanned_task now task changes advice # updates),
                         ug_tokens spent + tokens, ug_cost_usd spent + cost), \<sigma>2))))"

definition replan_rejected_tasks :: "node_deps \<Rightarrow> timestamp \<Rightarrow> workflow_state \<Rightarrow> state_update eff" where
  "replan_rejected_tasks deps now s =
     eff_bind (replan_tasks deps now s (redispatchable_tasks s))
       (\<lambda>(updates, tokens, cost). eff_return
          (no_update\<lparr>u_plan := Some updates, u_iteration := Some (w_iteration s + 1),
             u_usage := Some (usage_of tokens cost), u_phase := Some PH_EXECUTING\<rparr>))"

definition continue_execution :: "workflow_state \<Rightarrow> state_update" where
  "continue_execution s = no_update\<lparr>u_phase := Some PH_EXECUTING\<rparr>"

section \<open>The human gate\<close>

definition unsupported_strategy :: "workflow_state \<Rightarrow> bool" where
  "unsupported_strategy s \<longleftrightarrow>
     (case w_build_strategy s of None \<Rightarrow> False | Some sel \<Rightarrow> sel_selection_reason sel = Some Unsupported)"

definition delivery_ci_failed :: "workflow_state \<Rightarrow> bool" where
  "delivery_ci_failed s \<longleftrightarrow> (case w_delivery_result s of None \<Rightarrow> False | Some r \<Rightarrow> ci_failed r)"

definition gate_reason :: "timestamp \<Rightarrow> workflow_state \<Rightarrow> string" where
  "gate_reason now s =
     (if unsupported_strategy s then ''unsupported_build_strategy''
      else if w_work_order s \<noteq> None \<and> all_approved s \<and> w_delivery_result s \<noteq> None \<and> \<not> factory_ready_for_review s
      then ''factory_delivery_'' @ (case w_delivery_result s of None \<Rightarrow> [] | Some r \<Rightarrow> dr_ci_state r)
      else if (case w_budget_blocked_reason s of None \<Rightarrow> False | Some why \<Rightarrow> starts_with why ''llm_call_failed'')
      then ''llm_call_failed''
      else if budget_exhausted now s then ''budget_exhausted''
      else if iterations_exhausted s \<and> tasks_needing_replan s \<noteq> []
      then (if delivery_ci_failed s then ''ci_failed_iterations_exhausted'' else ''iterations_exhausted'')
      else if escalated_tasks s \<noteq> [] then ''tasks_escalated''
      else if delivery_ci_failed s then ''ci_failed''
      else ''dependency_deadlock'')"

record gate_payload =
  gp_reason :: string
  gp_build_strategy :: "build_profile_selection option"
  gp_delivery :: "delivery_result option"
  gp_escalated_tasks :: "(uuid \<times> string \<times> string option) list"
  gp_usage :: usage_dict
  gp_budget_blocked_reason :: "string option"
  gp_iteration :: int
  gp_options :: "string list"

definition gate_payload_for :: "workflow_state \<Rightarrow> string \<Rightarrow> gate_payload" where
  "gate_payload_for s reason =
     \<lparr>gp_reason = reason, gp_build_strategy = w_build_strategy s, gp_delivery = w_delivery_result s,
      gp_escalated_tasks = map (\<lambda>t. (t_id t, t_title t,
        (case last_opt (t_attempts t) of None \<Rightarrow> None | Some a \<Rightarrow> at_failure_reason a))) (escalated_tasks s),
      gp_usage = w_usage s, gp_budget_blocked_reason = w_budget_blocked_reason s,
      gp_iteration = w_iteration s,
      gp_options = (if unsupported_strategy s \<or> w_work_order s \<noteq> None then [''retry'', ''abort'']
                    else [''accept_partial'', ''retry'', ''abort''])\<rparr>"

text \<open>\<open>interrupt\<close> pauses the graph with the payload and returns what the human resumed it with.\<close>

definition human_gate :: "(gate_payload \<Rightarrow> string) \<Rightarrow> timestamp \<Rightarrow> workflow_state \<Rightarrow> state_update" where
  "human_gate interrupt now s =
     no_update\<lparr>u_human_decision := Some (Some (interrupt (gate_payload_for s (gate_reason now s)))),
       u_phase := Some PH_AWAITING_HUMAN\<rparr>"

definition human_router :: "workflow_state \<Rightarrow> graph_node" where
  "human_router s =
     (if unsupported_strategy s
      then (if w_human_decision s = Some ''retry'' then N_select_build_strategy else N_abort)
      else if w_work_order s \<noteq> None \<and> w_human_decision s \<noteq> Some ''retry'' then N_abort
      else if w_work_order s \<noteq> None \<and> all_approved s \<and> w_delivery_result s \<noteq> None then N_publish_delivery
      else if w_human_decision s = Some ''retry'' then N_authorize_retry
      else if w_human_decision s = Some ''accept_partial'' then N_synthesize
      else N_abort)"

section \<open>Retry, synthesis, abort\<close>

definition retry_task_budget :: "task_budget \<Rightarrow> bool \<Rightarrow> task_budget" where
  "retry_task_budget b blocked =
     (let tokens = tb_consumed_tokens b + tb_unconfirmed_tokens b;
          cost = tb_consumed_cost_usd b + tb_unconfirmed_cost_usd b
      in b\<lparr>tb_max_tokens := (if blocked \<or> tokens \<ge> tb_max_tokens b then 2 * max (tb_max_tokens b) tokens
                             else tb_max_tokens b),
           tb_max_cost_usd := (if blocked \<or> cost \<ge> tb_max_cost_usd b then 2 * max (tb_max_cost_usd b) cost
                               else tb_max_cost_usd b)\<rparr>)"

definition retry_budget :: "timestamp \<Rightarrow> workflow_state \<Rightarrow> workflow_budget" where
  "retry_budget now s =
     (let b = w_budget s;
          elapsed = elapsed_seconds now s;
          tokens = py_trunc (used_tokens s);
          cost = used_cost s;
          blocked = (w_budget_blocked_reason s \<noteq> None)
      in b\<lparr>wb_max_iterations := wb_max_iterations b + 1,
           wb_max_tokens := (if blocked \<or> tokens \<ge> wb_max_tokens b then 2 * max (wb_max_tokens b) tokens
                             else wb_max_tokens b),
           wb_max_cost_usd := (if blocked \<or> cost \<ge> wb_max_cost_usd b then 2 * max (wb_max_cost_usd b) cost
                               else wb_max_cost_usd b),
           wb_max_wall_clock_seconds :=
             (if elapsed \<ge> of_int (wb_max_wall_clock_seconds b)
              then py_trunc elapsed + max 60 (wb_max_wall_clock_seconds b div 4)
              else wb_max_wall_clock_seconds b)\<rparr>)"

definition authorize_retry :: "clock \<Rightarrow> workflow_state \<Rightarrow> state_update" where
  "authorize_retry clk s =
     no_update\<lparr>u_budget := Some (retry_budget (clk 0) s),
       u_plan := Some (map (\<lambda>t. t\<lparr>t_status := REJECTED,
          t_budget := retry_task_budget (t_budget t) (w_budget_blocked_reason s \<noteq> None),
          t_updated_at := clk 1\<rparr>) (escalated_tasks s)),
       u_human_decision := Some None, u_budget_blocked_reason := Some None, u_error := Some None,
       u_phase := Some PH_REPLANNING\<rparr>"

definition retry_router :: "workflow_state \<Rightarrow> graph_node" where
  "retry_router s = (if w_plan s \<noteq> [] then N_replan else N_create_plan)"

definition synthesize ::
  "codec \<Rightarrow> ((string \<times> string) list \<Rightarrow> string) \<Rightarrow> workflow_state \<Rightarrow> state_update" where
  "synthesize cd show_pairs s =
     (let nl = [CHR 0x0A];
          parts = [''# Entrega - '' @ w_project_id s @ nl]
            @ (if incomplete_tasks s \<noteq> []
               then [''Entrega PARCIAL aceita por decisao humana. Tarefas nao concluidas: ''
                     @ show_pairs (map (\<lambda>t. (t_title t, status_value (t_status t))) (incomplete_tasks s)) @ nl]
               else [])
            @ map (\<lambda>t. ''## '' @ t_title t @ nl @ render_task_result cd (t_result t)) (completed_tasks s)
            @ (case latest_build_report cd (w_plan s) of None \<Rightarrow> [] | Some r \<Rightarrow> [build_validation_section r])
      in no_update\<lparr>u_final_output := Some (Some (join nl parts)), u_phase := Some PH_SYNTHESIZING\<rparr>)"

definition abort :: "(usage_dict \<Rightarrow> string) \<Rightarrow> workflow_state \<Rightarrow> state_update" where
  "abort show_usage s =
     no_update\<lparr>u_final_output := Some (Some (''Workflow abortado por decisao humana. Uso: '' @ show_usage (w_usage s))),
       u_phase := Some PH_FAILED\<rparr>"

section \<open>Properties\<close>

lemma replan_tasks_updates:
  "replan_tasks deps now s tasks stk \<sigma> = (Inr (updates, tokens, cost), \<sigma>')
     \<Longrightarrow> \<forall>u \<in> set updates. \<exists>task \<in> set tasks. t_id u = t_id task \<and> t_status u = PENDING
          \<and> t_budget u = t_budget task \<and> t_attempts u = t_attempts task
          \<and> (t_tier_escalated task \<longrightarrow> t_tier_escalated u)
          \<and> (nd_advisor deps = None \<longrightarrow> t_tier_escalated u = t_tier_escalated task)"
proof (induction tasks arbitrary: stk \<sigma> \<sigma>' updates tokens cost)
  case (Cons task tasks)
  obtain r \<sigma>1 where r: "consult_advisor deps task s stk \<sigma> = (r, \<sigma>1)" by (metis prod.exhaust)
  with Cons.prems obtain advice where advice: "r = Inr advice" by (cases r) auto
  obtain r2 \<sigma>2 where r2: "replan_tasks deps now s tasks stk \<sigma>1 = (r2, \<sigma>2)" by (metis prod.exhaust)
  with Cons.prems r advice obtain rest tokens2 cost2 where rest: "r2 = Inr (rest, tokens2, cost2)"
    by (cases r2) auto
  let ?new = "replanned_task now task (required_changes_for s (t_id task)) advice"
  have sub: "set updates \<subseteq> insert ?new (set rest)"
    using Cons.prems by (auto simp: r advice r2 rest Let_def split: if_splits)
  have "advice = None" if "nd_advisor deps = None"
    using r advice that by (simp add: consult_advisor_def)
  then have "t_id ?new = t_id task \<and> t_status ?new = PENDING \<and> t_budget ?new = t_budget task
      \<and> t_attempts ?new = t_attempts task \<and> (t_tier_escalated task \<longrightarrow> t_tier_escalated ?new)
      \<and> (nd_advisor deps = None \<longrightarrow> t_tier_escalated ?new = t_tier_escalated task)"
    by (cases advice; cases "nd_advisor deps") (simp_all add: replanned_task_def Let_def)
  note new = this
  note old = Cons.IH [OF r2 [unfolded rest]]
  show ?case
  proof (rule ballI)
    fix u assume "u \<in> set updates"
    then consider "u = ?new" | "u \<in> set rest" using sub by blast
    then show "\<exists>x \<in> set (task # tasks). t_id u = t_id x \<and> t_status u = PENDING
        \<and> t_budget u = t_budget x \<and> t_attempts u = t_attempts x
        \<and> (t_tier_escalated x \<longrightarrow> t_tier_escalated u)
        \<and> (nd_advisor deps = None \<longrightarrow> t_tier_escalated u = t_tier_escalated x)"
    proof cases
      case 1
      show ?thesis unfolding 1 using new by (rule bexI) simp
    next
      case 2
      then obtain x where "x \<in> set tasks" "t_id u = t_id x \<and> t_status u = PENDING
        \<and> t_budget u = t_budget x \<and> t_attempts u = t_attempts x
        \<and> (t_tier_escalated x \<longrightarrow> t_tier_escalated u)
        \<and> (nd_advisor deps = None \<longrightarrow> t_tier_escalated u = t_tier_escalated x)" using old by blast
      then show ?thesis by (intro bexI [of _ x]) simp_all
    qed
  qed
qed simp

text \<open>Replanning costs one iteration and touches nothing that is settled: every task in its update
  is a redispatchable task of the plan, made pending, with its budget and history kept; completed,
  escalated and cancelled tasks are never in it; and only the advisor can escalate the tier.\<close>

lemma replan_touches_only_redispatchable_tasks:
  assumes "replan_rejected_tasks deps now s stk \<sigma> = (Inr u, \<sigma>')"
  shows "u_iteration u = Some (w_iteration s + 1)
    \<and> (\<exists>tasks. u_plan u = Some tasks
       \<and> (\<forall>t \<in> set tasks. t_status t = PENDING
            \<and> (\<exists>old \<in> set (w_plan s). t_id old = t_id t \<and> is_redispatchable (t_status old)
                 \<and> t_status old \<notin> {COMPLETED, ESCALATED, CANCELLED}
                 \<and> t_budget t = t_budget old \<and> t_attempts t = t_attempts old
                 \<and> (nd_advisor deps = None \<longrightarrow> t_tier_escalated t = t_tier_escalated old))))"
proof -
  obtain r \<sigma>1 where r: "replan_tasks deps now s (redispatchable_tasks s) stk \<sigma> = (r, \<sigma>1)" by (metis prod.exhaust)
  with assms obtain updates tokens cost where ok: "r = Inr (updates, tokens, cost)"
    by (cases r) (auto simp: replan_rejected_tasks_def eff_bind_def)
  have u: "u_iteration u = Some (w_iteration s + 1)" "u_plan u = Some updates"
    using assms by (auto simp: replan_rejected_tasks_def eff_bind_def r ok eff_return_def)
  have "t_status t = PENDING
      \<and> (\<exists>old \<in> set (w_plan s). t_id old = t_id t \<and> is_redispatchable (t_status old)
           \<and> t_status old \<notin> {COMPLETED, ESCALATED, CANCELLED} \<and> t_budget t = t_budget old
           \<and> t_attempts t = t_attempts old \<and> (nd_advisor deps = None \<longrightarrow> t_tier_escalated t = t_tier_escalated old))"
    if t: "t \<in> set updates" for t
  proof -
    obtain old where old: "old \<in> set (redispatchable_tasks s)" "t_id t = t_id old" "t_status t = PENDING"
        "t_budget t = t_budget old" "t_attempts t = t_attempts old"
        "nd_advisor deps = None \<longrightarrow> t_tier_escalated t = t_tier_escalated old"
      using replan_tasks_updates [OF r [unfolded ok]] t by blast
    then have "old \<in> set (w_plan s)" "is_redispatchable (t_status old)"
      by (simp_all add: redispatchable_tasks_def)
    moreover from this(2) have "t_status old \<notin> {COMPLETED, ESCALATED, CANCELLED}"
      by (auto simp: is_redispatchable_def)
    ultimately show ?thesis using old by metis
  qed
  with u show ?thesis by blast
qed

lemma retry_headroom:
  fixes m t :: "'a :: linordered_idom"
  assumes "0 < m"
  shows "t < (if b \<or> m \<le> t then 2 * max m t else m)"
  using assms by (auto simp: max_def not_le)

lemma py_trunc_le: "0 \<le> x \<Longrightarrow> of_int (py_trunc x) \<le> x" "0 \<le> x \<Longrightarrow> x < of_int (py_trunc x) + 1"
  by (simp_all add: py_trunc_def) linarith+

lemma used_tokens_headroom:
  assumes "wb_valid (w_budget s)" and "used_tokens s \<in> \<int>" and "0 \<le> used_tokens s"
  shows "used_tokens s < of_int (wb_max_tokens (retry_budget now s))"
proof -
  obtain n where n: "used_tokens s = of_int n" using assms(2) by (auto elim: Ints_cases)
  show ?thesis
    using retry_headroom [of "wb_max_tokens (w_budget s)" n "w_budget_blocked_reason s \<noteq> None"] assms(1)
    by (simp add: n retry_budget_def Let_def wb_valid_def)
qed

lemma wall_clock_headroom:
  assumes "wb_valid (w_budget s)" and "0 \<le> elapsed_seconds now s"
  shows "elapsed_seconds now s < of_int (wb_max_wall_clock_seconds (retry_budget now s))"
proof (cases "elapsed_seconds now s \<ge> of_int (wb_max_wall_clock_seconds (w_budget s))")
  case True
  have "of_int (60 :: int) \<le> (of_int (max 60 (wb_max_wall_clock_seconds (w_budget s) div 4)) :: rat)"
    by (simp only: of_int_le_iff max.cobounded1)
  with True py_trunc_le(2) [OF assms(2)] show ?thesis by (simp add: retry_budget_def Let_def)
qed (simp add: retry_budget_def Let_def not_le)

lemma retried_escalated:
  assumes "distinct (map t_id (w_plan s))" and "i \<in> t_id ` set (escalated_tasks s)"
    and "\<forall>t \<in> set (w_plan s). t_updated_at t \<le> clk 1"
  shows "\<exists>t. task_in (w_plan (apply_update s (authorize_retry clk s))) i = Some t \<and> t_status t = REJECTED"
proof -
  let ?f = "\<lambda>t. t\<lparr>t_status := REJECTED,
      t_budget := retry_task_budget (t_budget t) (w_budget_blocked_reason s \<noteq> None), t_updated_at := clk 1\<rparr>"
  obtain c where c: "c \<in> set (w_plan s)" "t_status c = ESCALATED" "t_id c = i"
    using assms(2) by (auto simp: escalated_tasks_def)
  have "w_plan (apply_update s (authorize_retry clk s)) =
      merge_tasks_by_id (w_plan s) (map ?f (filter (\<lambda>t. t_status t = ESCALATED) (w_plan s)))"
    by (simp add: apply_update_def authorize_retry_def reduced_def no_update_def escalated_tasks_def)
  moreover have "task_in (w_plan s) i = Some c" using task_in_distinct [OF assms(1) c(1)] c(3) by simp
  ultimately have "task_in (w_plan (apply_update s (authorize_retry clk s))) i = Some (merge_one (Some c) (?f c))"
    using task_in_merge_map [OF assms(1), of ?f] c(2) by simp
  moreover have "t_status (merge_one (Some c) (?f c)) = REJECTED"
    using assms(3) c by (simp add: merge_one_def)
  ultimately show ?thesis by blast
qed

text \<open>An authorized retry really gives room: with valid limits and whole non-negative usage, the
  state after the node's update is no longer budget-exhausted at the instant it was granted, has one
  more iteration, no pending decision or block, and every escalated task is rejected again, so that
  it can be redispatched.\<close>

lemma authorized_retry_restores_headroom:
  assumes "wb_valid (w_budget s)" and "used_tokens s \<in> \<int>" and "0 \<le> used_tokens s" and "0 \<le> used_cost s"
    and "0 \<le> elapsed_seconds (clk 0) s"
    and "distinct (map t_id (w_plan s))" and "\<forall>t \<in> set (w_plan s). t_updated_at t \<le> clk 1"
  shows "let s' = apply_update s (authorize_retry clk s) in
     \<not> budget_exhausted (clk 0) s' \<and> wb_max_iterations (w_budget s') = wb_max_iterations (w_budget s) + 1
     \<and> w_human_decision s' = None \<and> w_budget_blocked_reason s' = None \<and> wb_valid (w_budget s')
     \<and> (\<forall>i \<in> t_id ` set (escalated_tasks s). \<exists>t. task_in (w_plan s') i = Some t \<and> t_status t = REJECTED)"
proof -
  let ?s = "apply_update s (authorize_retry clk s)"
  have fields: "w_budget ?s = retry_budget (clk 0) s" "w_usage ?s = w_usage s" "w_started_at ?s = w_started_at s"
      "w_budget_blocked_reason ?s = None" "w_human_decision ?s = None"
    by (simp_all add: apply_update_def authorize_retry_def reduced_def no_update_def keep_latest_def)
  have same: "used_tokens ?s = used_tokens s" "used_cost ?s = used_cost s"
      "elapsed_seconds (clk 0) ?s = elapsed_seconds (clk 0) s"
    by (simp_all add: used_tokens_def used_cost_def elapsed_seconds_def fields)
  have "used_cost s < wb_max_cost_usd (retry_budget (clk 0) s)"
    using retry_headroom [of "wb_max_cost_usd (w_budget s)" "used_cost s" "w_budget_blocked_reason s \<noteq> None"] assms(1)
    by (simp add: retry_budget_def Let_def wb_valid_def)
  then have "\<not> budget_exhausted (clk 0) ?s"
    using used_tokens_headroom [OF assms(1-3)] wall_clock_headroom [OF assms(1,5)]
    by (simp add: budget_exhausted_def same fields not_le)
  moreover have "wb_valid (retry_budget (clk 0) s)"
  proof -
    have "(0 :: rat) < of_int (wb_max_tokens (retry_budget (clk 0) s))"
      using le_less_trans [OF assms(3) used_tokens_headroom [OF assms(1-3)]] .
    moreover have "0 < wb_max_cost_usd (retry_budget (clk 0) s)"
      using assms(4) \<open>used_cost s < _\<close> by (rule le_less_trans)
    moreover have "(0 :: rat) < of_int (wb_max_wall_clock_seconds (retry_budget (clk 0) s))"
      using le_less_trans [OF assms(5) wall_clock_headroom [OF assms(1,5)]] .
    ultimately show ?thesis using assms(1) by (simp add: wb_valid_def retry_budget_def Let_def)
  qed
  moreover have "wb_max_iterations (retry_budget (clk 0) s) = wb_max_iterations (w_budget s) + 1"
    by (simp add: retry_budget_def Let_def)
  ultimately show ?thesis
    using retried_escalated [where clk = clk, OF assms(6) _ assms(7)] unfolding Let_def by (simp add: fields)
qed

text \<open>The gate offers what the router honours, and a work order is never settled for less: a partial
  result is offered only without a work order; and with one, whatever the human answers, the router
  goes to the retry, the strategy, the publication or the abort, never to a synthesis.\<close>

lemma human_router_honours_the_gate:
  "(''accept_partial'' \<in> set (gp_options (gate_payload_for s r)) \<longleftrightarrow> \<not> unsupported_strategy s \<and> w_work_order s = None)
   \<and> (human_router s = N_synthesize \<longleftrightarrow> w_human_decision s = Some ''accept_partial''
        \<and> ''accept_partial'' \<in> set (gp_options (gate_payload_for s r)))
   \<and> (w_human_decision s \<noteq> Some ''retry'' \<and> w_human_decision s \<noteq> Some ''accept_partial'' \<longrightarrow> human_router s = N_abort)
   \<and> (w_human_decision s = Some ''retry'' \<longrightarrow> human_router s \<in> {N_select_build_strategy, N_publish_delivery, N_authorize_retry})"
  by (simp add: human_router_def gate_payload_for_def)

lemma replan_touches_only_redispatchable_tasks_witness:
  "\<exists>u. replan_rejected_tasks sample_deps 5 ((sample_state [sample_task 2 REJECTED])
        \<lparr>w_evaluations := [(sample_evaluation_result False)\<lparr>ev_task_id := 2, ev_required_changes := [''c'']\<rparr>]\<rparr>) []
        sample_store = (Inr u, sample_store) \<and> u_iteration u = Some 2"
proof -
  let ?s = "(sample_state [sample_task 2 REJECTED])
    \<lparr>w_evaluations := [(sample_evaluation_result False)\<lparr>ev_task_id := 2, ev_required_changes := [''c'']\<rparr>]\<rparr>"
  have "\<exists>u. replan_rejected_tasks sample_deps 5 ?s [] sample_store = (Inr u, sample_store)"
    by (simp add: replan_rejected_tasks_def redispatchable_tasks_def is_redispatchable_def sample_state_def
        sample_task_def consult_advisor_def sample_deps_def eff_bind_def eff_return_def Let_def)
  then obtain u where u: "replan_rejected_tasks sample_deps 5 ?s [] sample_store = (Inr u, sample_store)" by blast
  moreover have "w_iteration ?s = 1" by (simp add: sample_state_def)
  ultimately show ?thesis using replan_touches_only_redispatchable_tasks [OF u] by auto
qed

lemma authorized_retry_restores_headroom_witness:
  "\<not> budget_exhausted 2000000000 (apply_update (sample_state [sample_task 2 ESCALATED])
       (authorize_retry (\<lambda>n. 2000000000) (sample_state [sample_task 2 ESCALATED])))"
proof -
  let ?s = "sample_state [sample_task 2 ESCALATED]"
  have "wb_valid (w_budget ?s)" "used_tokens ?s = 0" "used_cost ?s = 0" "0 \<le> elapsed_seconds 2000000000 ?s"
    "distinct (map t_id (w_plan ?s))" "\<forall>t \<in> set (w_plan ?s). t_updated_at t \<le> 2000000000"
    by (simp_all add: sample_state_def sample_workflow_budget_def wb_valid_def used_tokens_def used_cost_def
        dict_get_or_def elapsed_seconds_def sample_task_def)
  with authorized_retry_restores_headroom [of ?s "\<lambda>n. 2000000000"] show ?thesis by (simp add: Let_def)
qed

lemma human_router_honours_the_gate_witness:
  "human_router (sample_state []) = N_abort"
  using human_router_honours_the_gate [of "sample_state []"] by (simp add: sample_state_def)

end
