(* ===== verification/Delivery_Phase.thy ===== *)
theory Delivery_Phase imports Node_Deps begin

text \<open>
  The delivery phase (\<open>app/graph/phase_delivery.py\<close>): publication of the approved changes, the
  reopening of tasks when the published commit fails its checks, the two routers around it, and
  the persistence that ends the workflow.
\<close>

section \<open>The report of the criteria\<close>

definition table_cell :: "nat \<Rightarrow> string \<Rightarrow> string" where
  "table_cell n text = map (\<lambda>c. if c = CHR ''|'' then CHR ''/'' else c) (take n text)"

definition latest_evaluation :: "workflow_state \<Rightarrow> uuid \<Rightarrow> evaluation_result option" where
  "latest_evaluation s i = last_opt (filter (\<lambda>ev. ev_task_id ev = i) (w_evaluations s))"

definition criteria_details :: "workflow_state \<Rightarrow> agent_task list \<Rightarrow> string" where
  "criteria_details s completed =
     (let rows = concat (map (\<lambda>task. case latest_evaluation s (t_id task) of
              None \<Rightarrow> []
            | Some ev \<Rightarrow>
                (let validated = join '', '' (ev_validated_by ev);
                     by = (if validated = [] then ''llm'' else validated)
                 in map (\<lambda>(text, score). ''| '' @ table_cell 60 (t_title task) @ '' | '' @ table_cell 80 text
                          @ '' | '' @ fmt_fixed 2 score @ '' | '' @ by @ '' |'') (ev_criteria_scores ev)))
            completed)
      in if rows = [] then []
         else join [CHR 0x0A] ([''## Criterios verificados'', [], ''| Tarefa | Criterio | Nota | Validado por |'',
                ''|---|---|---:|---|''] @ rows))"

section \<open>Routers\<close>

definition delivery_router :: "node_deps \<Rightarrow> workflow_state \<Rightarrow> graph_node" where
  "delivery_router deps s =
     (if w_work_order s \<noteq> None then N_publish_delivery
      else if w_delivery s = None \<or> nd_delivery deps = None then N_persist_memory
      else if w_phase s = PH_FAILED then N_persist_memory
      else N_publish_delivery)"

definition delivery_result_router :: "timestamp \<Rightarrow> workflow_state \<Rightarrow> graph_node" where
  "delivery_result_router now s =
     (let failed = (case w_delivery_result s of None \<Rightarrow> False | Some r \<Rightarrow> ci_failed r);
          order = (w_work_order s \<noteq> None)
      in if order \<and> factory_ready_for_review s then N_persist_memory
         else if order \<and> \<not> failed then N_human_gate
         else if \<not> failed then N_persist_memory
         else if w_human_decision s = Some ''accept_partial'' then N_persist_memory
         else if escalated_tasks s \<noteq> [] \<or> budget_exhausted now s then N_human_gate
         else if tasks_needing_replan s \<noteq> []
         then (if iterations_exhausted s then N_human_gate else N_replan)
         else if order then N_human_gate else N_persist_memory)"

section \<open>Reopening\<close>

text \<open>The task that last wrote each published path.\<close>

definition path_owners :: "agent_task list \<Rightarrow> (string, uuid) pydict" where
  "path_owners completed =
     dict_of (concat (map (\<lambda>t. let (files, deletions) = collect_publishable_changes [t_result t]
                              in map (\<lambda>p. (p, t_id t)) (map fst files @ deletions)) completed))"

text \<open>\<open>None\<close>: every publishing task is responsible.\<close>

definition responsible_tasks ::
  "workflow_state \<Rightarrow> agent_task list \<Rightarrow> delivery_result \<Rightarrow> uuid list option" where
  "responsible_tasks s completed r =
     (if w_work_order s = None then None
      else
        let owners = path_owners completed
        in if \<exists>p \<in> set (dr_failure_paths r). map_of owners p = None then Some []
           else Some (List.map_filter (map_of owners) (dr_failure_paths r)))"

definition reopen_reason :: "delivery_result \<Rightarrow> int \<Rightarrow> string" where
  "reopen_reason r attempts =
     ''ci:'' @ (if truthy_str (dr_commit_sha r) then show_opt (dr_commit_sha r) else show_int attempts)"

definition ci_evaluation :: "string list \<Rightarrow> agent_task \<Rightarrow> evaluation_result" where
  "ci_evaluation feedback task =
     \<lparr>ev_task_id = t_id task, ev_approved = False, ev_score = 0,
      ev_criteria_scores = dict_of (map (\<lambda>c. (cr_text c, 0)) (t_acceptance_criteria task)),
      ev_failures = map (\<lambda>l. ''[ci] '' @ l) feedback,
      ev_required_changes =
        (''O CI do pull request reprovou o codigo publicado. ''
           @ ''Corrija as falhas abaixo mantendo os criterios ja atendidos:'') # map (\<lambda>l. ''- '' @ l) feedback,
      ev_tests_passed = Some False, ev_lint_passed = None, ev_type_check_passed = None,
      ev_validated_by = [''ci''], ev_judge_models = [], ev_independent_judge = None\<rparr>"

definition reopened_task :: "string \<Rightarrow> timestamp \<Rightarrow> agent_task \<Rightarrow> agent_task" where
  "reopened_task reason now task =
     task\<lparr>t_status := next_status_after_failure task, t_reopen_reason := Some reason, t_updated_at := now\<rparr>"

definition reopen_after_ci_failure ::
  "timestamp \<Rightarrow> workflow_state \<Rightarrow> agent_task list \<Rightarrow> delivery_result \<Rightarrow> int
     \<Rightarrow> agent_task list \<times> evaluation_result list" where
  "reopen_after_ci_failure now s completed r attempts =
     (let feedback = (if take 15 (dr_failures r) = [] then [''CI reprovou o commit publicado.'']
                      else take 15 (dr_failures r));
          guilty = responsible_tasks s completed r;
          tasks = filter (\<lambda>t. task_publishes_changes (t_result t)
                     \<and> (case guilty of None \<Rightarrow> True | Some ids \<Rightarrow> t_id t \<in> set ids)) completed
      in (map (reopened_task (reopen_reason r attempts) now) tasks, map (ci_evaluation feedback) tasks))"

section \<open>Publication\<close>

definition delivery_attempts :: "workflow_state \<Rightarrow> int" where
  "delivery_attempts s = (case w_delivery_result s of None \<Rightarrow> 0 | Some p \<Rightarrow> dr_attempts p) + 1"

definition publication_summary :: "codec \<Rightarrow> workflow_state \<Rightarrow> delivery_config \<Rightarrow> nat \<Rightarrow> nat \<Rightarrow> string" where
  "publication_summary cd s config files deletions =
     w_project_id s @ '' - iteracao '' @ show_int (w_iteration s) @ '', '' @ show_nat files @ '' arquivo(s)''
     @ (if deletions > 0 then '', '' @ show_nat deletions @ '' remocao(oes)'' else [])
     @ (case dc_pinned_base_sha config of None \<Rightarrow> [] | Some sha \<Rightarrow> ''; base='' @ sha @ ''; revisao humana obrigatoria'')
     @ (case latest_build_report cd (completed_tasks s) of
          None \<Rightarrow> []
        | Some r \<Rightarrow>
            (let phases = join '','' (map (\<lambda>p. phase_value (ph_phase p) @ '':'' @ outcome_value (ph_outcome p)) (br_phases r))
             in ''; sandbox='' @ outcome_value (br_outcome r) @ ''; phases='' @ (if phases = [] then ''-'' else phases)))"

definition stage_of_order :: "workflow_state \<Rightarrow> state_update \<Rightarrow> state_update" where
  "stage_of_order s u = (if w_work_order s \<noteq> None then u\<lparr>u_factory_stage := Some (Some DELIVERY)\<rparr> else u)"

definition delivered_update :: "workflow_state \<Rightarrow> delivery_result \<Rightarrow> state_update" where
  "delivered_update s r =
     stage_of_order s (no_update\<lparr>u_delivery_result := Some (Some r), u_phase := Some PH_DELIVERING,
       u_final_output := Some (Some (with_delivery_section (w_final_output s) r))\<rparr>)"

text \<open>The configuration: the factory's own contract for a work order, the workflow's otherwise.\<close>

definition publication_target ::
  "node_deps \<Rightarrow> workflow_state \<Rightarrow> (string + delivery_config \<times> publisher) result" where
  "publication_target deps s =
     (if w_work_order s \<noteq> None
      then case factory_delivery_config s of
             Inl e \<Rightarrow> Inr (Inl (exc_text e))
           | Inr config \<Rightarrow>
               (case nd_delivery deps of
                  None \<Rightarrow> Inr (Inl ''factory_delivery_publisher_unavailable'')
                | Some publish \<Rightarrow> Inr (Inr (config, publish)))
      else case (w_delivery s, nd_delivery deps) of
             (Some config, Some publish) \<Rightarrow> Inr (Inr (config, publish))
           | _ \<Rightarrow> Inl (Exc AssertionError []))"

definition nothing_to_publish :: "workflow_state \<Rightarrow> delivery_result" where
  "nothing_to_publish s =
     (case w_delivery_result s of
        Some p \<Rightarrow> if truthy_str (dr_url p)
          then p\<lparr>dr_note := Some ''nenhuma tarefa aprovada nova; ultima publicacao mantida''\<rparr>
          else empty_delivery_result\<lparr>dr_note := Some ''nenhum arquivo publicavel nas tarefas aprovadas'',
                 dr_attempts := delivery_attempts s\<rparr>
      | None \<Rightarrow> empty_delivery_result\<lparr>dr_note := Some ''nenhum arquivo publicavel nas tarefas aprovadas'',
                 dr_attempts := delivery_attempts s\<rparr>)"

definition published_update :: "timestamp \<Rightarrow> workflow_state \<Rightarrow> delivery_result \<Rightarrow> state_update" where
  "published_update now s r =
     (let u = delivered_update s r in
      if \<not> ci_failed r \<or> w_human_decision s = Some ''accept_partial'' then u
      else let (tasks, evaluations) = reopen_after_ci_failure now s (completed_tasks s) r (delivery_attempts s)
           in u\<lparr>u_plan := Some tasks, u_evaluations := Some evaluations\<rparr>)"

definition publish_delivery :: "codec \<Rightarrow> node_deps \<Rightarrow> timestamp \<Rightarrow> workflow_state \<Rightarrow> state_update eff" where
  "publish_delivery cd deps now s =
     (case publication_target deps s of
        Inl e \<Rightarrow> eff_raise e
      | Inr (Inl error) \<Rightarrow> eff_return (no_update
          \<lparr>u_delivery_result := Some (Some (empty_delivery_result
             \<lparr>dr_ci_state := ''error'', dr_error := Some error, dr_attempts := delivery_attempts s\<rparr>)),
           u_factory_stage := Some (Some DELIVERY), u_phase := Some PH_DELIVERING\<rparr>)
      | Inr (Inr (config, publish)) \<Rightarrow>
          (let completed = completed_tasks s;
               (files, deletions) = collect_publishable_changes (map t_result completed)
           in if files = [] \<and> deletions = [] then eff_return (delivered_update s (nothing_to_publish s))
              else
                eff_bind
                  (publish config (w_workflow_id s) (w_project_id s) files deletions
                     (publication_summary cd s config (length files) (length deletions))
                     (criteria_details s completed))
                  (\<lambda>r. eff_return (published_update now s (r\<lparr>dr_attempts := delivery_attempts s\<rparr>)))))"

section \<open>Persistence\<close>

definition terminal_state :: "workflow_state \<Rightarrow> workflow_state" where
  "terminal_state s =
     (let ready = (w_phase s \<noteq> PH_FAILED \<and> factory_ready_for_review s) in
      s\<lparr>w_phase := (if ready then PH_READY_FOR_HUMAN_REVIEW else PH_FAILED),
        w_factory_stage := (if ready then Some STAGE_READY_FOR_HUMAN_REVIEW else w_factory_stage s),
        w_final_output := (if ready
          then Some (or_str (w_final_output s) [] @ [CHR 0x0A, CHR 0x0A]
                 @ ''Pronto para revisao humana. O Forgehand nao faz merge.'')
          else w_final_output s)\<rparr>)"

definition persist_memory :: "node_deps \<Rightarrow> workflow_state \<Rightarrow> state_update eff" where
  "persist_memory deps s =
     (if w_work_order s \<noteq> None
      then eff_bind (ms_persist (nd_memory deps) (terminal_state s))
        (\<lambda>_. eff_return (no_update\<lparr>u_phase := Some (w_phase (terminal_state s)),
           u_factory_stage := Some (w_factory_stage (terminal_state s)),
           u_final_output := Some (w_final_output (terminal_state s))\<rparr>))
      else eff_bind (ms_persist (nd_memory deps) s)
        (\<lambda>_. eff_return (no_update\<lparr>u_phase := Some (if w_phase s = PH_FAILED then PH_FAILED else PH_COMPLETED)\<rparr>)))"

section \<open>Properties\<close>

lemma reopened_simps [simp]:
  "t_id (reopened_task r now t) = t_id t" "t_reopen_reason (reopened_task r now t) = Some r"
  "t_status (reopened_task r now t) = next_status_after_failure t"
  by (simp_all add: reopened_task_def)

lemma waiting_task_views:
  "t \<in> set (w_plan s) \<Longrightarrow> t_status t \<in> {ESCALATED, REJECTED}
     \<Longrightarrow> escalated_tasks s \<noteq> [] \<or> tasks_needing_replan s \<noteq> []"
  unfolding escalated_tasks_def tasks_needing_replan_def filter_empty_conv by blast

lemma split_writes_Nil:
  "List.map_filter (\<lambda>(p, c). case c of None \<Rightarrow> None | Some x \<Rightarrow> Some (p, x)) e = []
     \<and> List.map_filter (\<lambda>(p, c). case c of None \<Rightarrow> Some p | Some x \<Rightarrow> None) e = [] \<longleftrightarrow> e = []"
  for e :: "(string, string option) pydict"
  by (cases e) (auto simp: map_filter_simps split: option.splits)

lemma dict_of_Nil_iff: "dict_of ps = [] \<longleftrightarrow> ps = []"
  using dict_of_keys [of ps] by (metis list.map_disc_iff set_empty)

lemma publishes_iff:
  assumes "collect_publishable_changes results = (files, deletions)"
  shows "files \<noteq> [] \<or> deletions \<noteq> [] \<longleftrightarrow> (\<exists>res \<in> set results. result_writes res \<noteq> [])"
proof -
  have "files = [] \<and> deletions = [] \<longleftrightarrow> concat (map result_writes results) = []"
    using assms split_writes_Nil [of "latest_writes results"]
    by (auto simp: collect_publishable_changes_def latest_writes_def dict_of_Nil_iff)
  then show ?thesis by auto
qed

lemma publishing_task_exists:
  assumes "collect_publishable_changes (map t_result ts) = (files, deletions)" and "files \<noteq> [] \<or> deletions \<noteq> []"
  shows "\<exists>t \<in> set ts. task_publishes_changes (t_result t)"
proof -
  obtain t where "t \<in> set ts" "result_writes (t_result t) \<noteq> []"
    using publishes_iff [OF assms(1)] assms(2) by auto
  moreover obtain fs ds where c: "collect_publishable_changes [t_result t] = (fs, ds)" by (metis prod.exhaust)
  ultimately have "task_publishes_changes (t_result t)"
    using publishes_iff [OF c] by (simp add: task_publishes_changes_def c)
  with \<open>t \<in> set ts\<close> show ?thesis by blast
qed

text \<open>What the publication of an ordinary workflow does when the checks of the commit fail.\<close>

lemma publish_failed_ci:
  assumes "w_work_order s = None" and "w_delivery s = Some config" and "nd_delivery deps = Some publish"
    and "collect_publishable_changes (map t_result (completed_tasks s)) = (files, deletions)"
    and "files \<noteq> [] \<or> deletions \<noteq> []"
    and "publish config (w_workflow_id s) (w_project_id s) files deletions
           (publication_summary cd s config (length files) (length deletions))
           (criteria_details s (completed_tasks s)) stk \<sigma> = (Inr r, \<sigma>')"
    and "ci_failed r" and "w_human_decision s \<noteq> Some ''accept_partial''" and "dr_commit_sha r = Some c" and "c \<noteq> []"
  shows "\<exists>u r' s'. publish_delivery cd deps now s stk \<sigma> = (Inr u, \<sigma>') \<and> s' = apply_update s u
     \<and> w_plan s' = merge_tasks_by_id (w_plan s) (map (reopened_task (''ci:'' @ c) now)
         (filter (\<lambda>t. t_status t = COMPLETED \<and> task_publishes_changes (t_result t)) (w_plan s)))
     \<and> w_delivery_result s' = Some r' \<and> ci_failed r' \<and> w_phase s' = PH_DELIVERING \<and> w_work_order s' = None
     \<and> w_human_decision s' = w_human_decision s \<and> budget_exhausted tm s' = budget_exhausted tm s
     \<and> iterations_exhausted s' = iterations_exhausted s"
proof -
  let ?r = "r\<lparr>dr_attempts := delivery_attempts s\<rparr>"
  let ?u = "published_update now s ?r"
  have run: "publish_delivery cd deps now s stk \<sigma> = (Inr ?u, \<sigma>')"
    using assms(1-6) by (auto simp: publish_delivery_def publication_target_def eff_bind_def eff_return_def)
  have fails: "ci_failed ?r" using assms(7) by (simp add: ci_failed_def)
  have reason: "reopen_reason ?r (delivery_attempts s) = ''ci:'' @ c"
    using assms(9,10) by (simp add: reopen_reason_def truthy_str_def show_opt_def)
  have tasks: "filter (\<lambda>t. task_publishes_changes (t_result t)) (completed_tasks s) =
      filter (\<lambda>t. t_status t = COMPLETED \<and> task_publishes_changes (t_result t)) (w_plan s)"
    by (simp add: completed_tasks_def conj_commute)
  show ?thesis
    using assms(1,8) fails
    by (intro exI [of _ ?u] exI [of _ ?r] exI [of _ "apply_update s ?u"] conjI run refl)
      (simp_all add: published_update_def delivered_update_def stage_of_order_def apply_update_def no_update_def
        reduced_def keep_latest_def reopen_after_ci_failure_def responsible_tasks_def reason tasks Let_def
        budget_exhausted_def used_tokens_def used_cost_def elapsed_seconds_def iterations_exhausted_def)
qed


text \<open>Red checks on a NEW commit reopen the work: after the publication, every completed task that
  published something is waiting for a new attempt (or escalated, out of attempts), no other task has
  changed, and the router sends the workflow to the human or to the replan, never to the end.\<close>

lemma ci_failure_reopens_publishers:
  assumes "w_work_order s = None" and "w_delivery s = Some config" and "nd_delivery deps = Some publish"
    and "collect_publishable_changes (map t_result (completed_tasks s)) = (files, deletions)"
    and "files \<noteq> [] \<or> deletions \<noteq> []"
    and "publish config (w_workflow_id s) (w_project_id s) files deletions
           (publication_summary cd s config (length files) (length deletions))
           (criteria_details s (completed_tasks s)) stk \<sigma> = (Inr r, \<sigma>')"
    and "ci_failed r" and "w_human_decision s \<noteq> Some ''accept_partial''" and "dr_commit_sha r = Some c" and "c \<noteq> []"
    and "distinct (map t_id (w_plan s))" and "\<forall>t \<in> set (w_plan s). t_reopen_reason t \<noteq> Some (''ci:'' @ c)"
  shows "\<exists>u. publish_delivery cd deps now s stk \<sigma> = (Inr u, \<sigma>')
    \<and> (\<forall>i. task_in (w_plan (apply_update s u)) i = map_option (\<lambda>t.
          if t_status t = COMPLETED \<and> task_publishes_changes (t_result t)
          then reopened_task (''ci:'' @ c) now t else t) (task_in (w_plan s) i))
    \<and> delivery_result_router tm (apply_update s u) \<in> {N_human_gate, N_replan}"
proof -
  let ?P = "\<lambda>t. t_status t = COMPLETED \<and> task_publishes_changes (t_result t)"
  let ?f = "reopened_task (''ci:'' @ c) now"
  obtain u r' where u: "publish_delivery cd deps now s stk \<sigma> = (Inr u, \<sigma>')"
      "w_plan (apply_update s u) = merge_tasks_by_id (w_plan s) (map ?f (filter ?P (w_plan s)))"
    and st: "w_delivery_result (apply_update s u) = Some r'" "ci_failed r'" "w_work_order (apply_update s u) = None"
      "w_human_decision (apply_update s u) = w_human_decision s"
    using publish_failed_ci [OF assms(1-10)] by blast
  have merged: "(if ?P t then merge_one (Some t) (?f t) else t) = (if ?P t then ?f t else t)"
    if "t \<in> set (w_plan s)" for t
    using bspec [OF assms(12) that] by (auto simp: merge_one_def truthy_str_def)
  have plan: "task_in (w_plan (apply_update s u)) i = map_option (\<lambda>t. if ?P t then ?f t else t) (task_in (w_plan s) i)"
    for i
    unfolding u(2) task_in_merge_map [OF assms(11), of ?f, OF reopened_simps(1)]
    using merged task_in_Some by (intro option.map_cong refl) blast
  have "\<exists>t \<in> set (w_plan s). ?P t"
    using assms(4,5) publishing_task_exists by (fastforce simp: completed_tasks_def)
  then obtain t where t: "t \<in> set (w_plan s)" "?P t" by blast
  then have "task_in (w_plan (apply_update s u)) (t_id t) = Some (?f t)"
    using plan task_in_distinct [OF assms(11)] by simp
  then have f: "?f t \<in> set (w_plan (apply_update s u))" by (blast dest: task_in_Some)
  have "escalated_tasks (apply_update s u) \<noteq> [] \<or> tasks_needing_replan (apply_update s u) \<noteq> []"
    using next_status_cases [of t] by (intro waiting_task_views [OF f]) simp
  then have "delivery_result_router tm (apply_update s u) \<in> {N_human_gate, N_replan}"
    using st assms(8) by (auto simp: delivery_result_router_def)
  with u(1) plan show ?thesis by blast
qed

text \<open>Red checks on the SAME commit end the workflow as completed. When every publishing task was
  already reopened for that commit (the new attempt produced the same tree, so the publisher kept the
  commit), the reducer drops the reopening, the router finds nothing to replan, and the persistence
  ends a workflow whose checks are red in the phase COMPLETED.\<close>

lemma repeated_ci_failure_ends_completed:
  assumes "w_work_order s = None" and "w_delivery s = Some config" and "nd_delivery deps = Some publish"
    and "collect_publishable_changes (map t_result (completed_tasks s)) = (files, deletions)"
    and "files \<noteq> [] \<or> deletions \<noteq> []"
    and "publish config (w_workflow_id s) (w_project_id s) files deletions
           (publication_summary cd s config (length files) (length deletions))
           (criteria_details s (completed_tasks s)) stk \<sigma> = (Inr r, \<sigma>')"
    and "ci_failed r" and "w_human_decision s \<noteq> Some ''accept_partial''" and "dr_commit_sha r = Some c" and "c \<noteq> []"
    and "distinct (map t_id (w_plan s))" and "all_approved s" and "\<not> budget_exhausted tm s"
    and "\<forall>t \<in> set (w_plan s). task_publishes_changes (t_result t) \<longrightarrow> t_reopen_reason t = Some (''ci:'' @ c)"
    and "ms_persist (nd_memory deps) = (\<lambda>_. eff_return ())"
  shows "\<exists>u r' v. publish_delivery cd deps now s stk \<sigma> = (Inr u, \<sigma>') \<and> w_plan (apply_update s u) = w_plan s
    \<and> w_delivery_result (apply_update s u) = Some r' \<and> ci_failed r'
    \<and> delivery_result_router tm (apply_update s u) = N_persist_memory
    \<and> persist_memory deps (apply_update s u) stk \<sigma>' = (Inr v, \<sigma>') \<and> u_phase v = Some PH_COMPLETED"
proof -
  let ?P = "\<lambda>t. t_status t = COMPLETED \<and> task_publishes_changes (t_result t)"
  let ?f = "reopened_task (''ci:'' @ c) now"
  obtain u r' where u: "publish_delivery cd deps now s stk \<sigma> = (Inr u, \<sigma>')"
      "w_plan (apply_update s u) = merge_tasks_by_id (w_plan s) (map ?f (filter ?P (w_plan s)))"
    and st: "w_delivery_result (apply_update s u) = Some r'" "ci_failed r'" "w_work_order (apply_update s u) = None"
      "w_human_decision (apply_update s u) = w_human_decision s" "w_phase (apply_update s u) = PH_DELIVERING"
      "budget_exhausted tm (apply_update s u) = budget_exhausted tm s"
    using publish_failed_ci [OF assms(1-10)] by blast
  have plan: "w_plan (apply_update s u) = w_plan s"
    unfolding u(2) using assms(11)
    by (rule merge_map_unchanged) (use assms(14) in \<open>simp_all add: merge_one_def\<close>)
  have "escalated_tasks (apply_update s u) = []" "tasks_needing_replan (apply_update s u) = []"
    using assms(12) by (simp_all add: all_approved_def escalated_tasks_def tasks_needing_replan_def plan filter_empty_conv)
  then have "delivery_result_router tm (apply_update s u) = N_persist_memory"
    using st assms(8,13) by (simp add: delivery_result_router_def)
  moreover have "persist_memory deps (apply_update s u) stk \<sigma>' = (Inr (no_update\<lparr>u_phase := Some PH_COMPLETED\<rparr>), \<sigma>')"
    using st assms(15) by (simp add: persist_memory_def eff_bind_def eff_return_def)
  ultimately show ?thesis using u(1) plan st(1,2)
    by (intro exI [of _ u] exI [of _ r'] exI [of _ "no_update\<lparr>u_phase := Some PH_COMPLETED\<rparr>"]) simp
qed

text \<open>A work order ends in one of two phases and the final word is the evidence's: persisting it
  never ends in COMPLETED; it ends ready for human review exactly when the workflow has not failed and
  the delivery evidence is complete, and failed otherwise; and what is stored in memory is the state
  with that phase.\<close>

lemma work_order_never_ends_completed:
  assumes "w_work_order s \<noteq> None" and "persist_memory deps s stk \<sigma> = (Inr u, \<sigma>')"
  shows "(u_phase u = Some PH_READY_FOR_HUMAN_REVIEW \<longleftrightarrow> w_phase s \<noteq> PH_FAILED \<and> factory_ready_for_review s)
    \<and> u_phase u \<in> {Some PH_READY_FOR_HUMAN_REVIEW, Some PH_FAILED}
    \<and> ms_persist (nd_memory deps) (terminal_state s) stk \<sigma> = (Inr (), \<sigma>')
    \<and> w_phase (terminal_state s) = w_phase (apply_update s u)"
proof -
  obtain r \<sigma>1 where r: "ms_persist (nd_memory deps) (terminal_state s) stk \<sigma> = (r, \<sigma>1)" by (metis prod.exhaust)
  with assms have "r = Inr ()" "\<sigma>1 = \<sigma>'" "u_phase u = Some (w_phase (terminal_state s))"
    by (auto simp: persist_memory_def eff_bind_def eff_return_def split: sum.splits)
  with r show ?thesis
    by (simp add: terminal_state_def apply_update_def reduced_def keep_latest_def Let_def)
qed

section \<open>Witnesses\<close>

definition publishing_task :: "string option \<Rightarrow> agent_task" where
  "publishing_task reason = (sample_task 2 COMPLETED)
     \<lparr>t_result := PDict [(''files'', PList [PDict [(''path'', PStr ''a.py''), (''content'', PStr ''x'')]])],
      t_reopen_reason := reason\<rparr>"

definition sample_delivery_config :: delivery_config where
  "sample_delivery_config =
     \<lparr>dc_repository = ''o/r'', dc_base_branch = ''main'', dc_head_branch = None, dc_pinned_base_sha = None,
      dc_expected_head_sha = None, dc_title = None, dc_wait_for_checks = True, dc_checks_timeout_seconds = 60\<rparr>"

definition red_result :: delivery_result where
  "red_result = empty_delivery_result\<lparr>dr_ci_state := ''failure'', dr_commit_sha := Some ''abc''\<rparr>"

definition publishing_state :: "string option \<Rightarrow> workflow_state" where
  "publishing_state reason = (sample_state [publishing_task reason])\<lparr>w_delivery := Some sample_delivery_config\<rparr>"

definition publishing_deps :: node_deps where
  "publishing_deps = sample_deps\<lparr>nd_delivery := Some (\<lambda>c w p f d su de. eff_return red_result)\<rparr>"

lemma publishing_sample:
  "w_work_order (publishing_state r) = None" "w_delivery (publishing_state r) = Some sample_delivery_config"
  "nd_delivery publishing_deps = Some (\<lambda>c w p f d su de. eff_return red_result)"
  "w_plan (publishing_state r) = [publishing_task r]" "w_human_decision (publishing_state r) = None"
  "t_status (publishing_task r) = COMPLETED" "t_reopen_reason (publishing_task r) = r" "t_id (publishing_task r) = 2"
  "collect_publishable_changes (map t_result (completed_tasks (publishing_state r))) = ([(''a.py'', ''x'')], [])"
  "ci_failed red_result" "dr_commit_sha red_result = Some ''abc''"
  by (simp_all add: publishing_state_def publishing_deps_def sample_state_def publishing_task_def sample_task_def
      completed_tasks_def collect_publishable_changes_def latest_writes_def result_writes_def dict_of_def
      map_filter_simps Let_def pget_def list_or_empty_def dict_or_empty_def red_result_def ci_failed_def empty_delivery_result_def)

lemma ci_failure_reopens_publishers_witness:
  "\<exists>u. publish_delivery sample_codec publishing_deps 9 (publishing_state None) [] sample_store = (Inr u, sample_store)
     \<and> task_in (w_plan (apply_update (publishing_state None) u)) 2
        = Some (reopened_task ''ci:abc'' 9 (publishing_task None))"
proof -
  note run = ci_failure_reopens_publishers [OF publishing_sample(1-3,9), where r = red_result and c = "''abc''"
      and stk = "[]" and \<sigma> = sample_store and \<sigma>' = sample_store and cd = sample_codec and now = 9 and tm = 9]
  have "task_publishes_changes (t_result (publishing_task None))"
    using publishing_task_exists [OF publishing_sample(9)] by (simp add: completed_tasks_def publishing_sample)
  with run [of None] show ?thesis
    by (auto simp: publishing_sample eff_return_def task_in_def)
qed

lemma repeated_ci_failure_ends_completed_witness:
  "\<exists>u. publish_delivery sample_codec publishing_deps 9 (publishing_state (Some ''ci:abc'')) [] sample_store = (Inr u, sample_store)
     \<and> delivery_result_router 9 (apply_update (publishing_state (Some ''ci:abc'')) u) = N_persist_memory"
proof -
  note run = repeated_ci_failure_ends_completed [OF publishing_sample(1-3,9), where r = red_result and c = "''abc''"
      and stk = "[]" and \<sigma> = sample_store and \<sigma>' = sample_store and cd = sample_codec and now = 9 and tm = 9]
  have "all_approved (publishing_state r)" "\<not> budget_exhausted 9 (publishing_state r)"
    "ms_persist (nd_memory publishing_deps) = (\<lambda>_. eff_return ())" for r
    by (simp_all add: all_approved_def publishing_sample publishing_deps_def sample_deps_def)
      (simp add: publishing_state_def sample_state_def budget_exhausted_def used_tokens_def used_cost_def dict_get_or_def
        elapsed_seconds_def sample_workflow_budget_def)
  with run [of "Some ''ci:abc''"] show ?thesis
    by (auto simp: publishing_sample eff_return_def)
qed

lemma work_order_never_ends_completed_witness:
  "\<exists>u. persist_memory sample_deps delivered_state [] sample_store = (Inr u, sample_store)
     \<and> u_phase u = Some PH_READY_FOR_HUMAN_REVIEW"
proof -
  have order: "w_work_order delivered_state \<noteq> None" "w_phase delivered_state \<noteq> PH_FAILED"
    by (simp_all add: delivered_state_def sample_state_def)
  then have "\<exists>u. persist_memory sample_deps delivered_state [] sample_store = (Inr u, sample_store)"
    by (simp add: persist_memory_def sample_deps_def eff_bind_def eff_return_def)
  then obtain u where u: "persist_memory sample_deps delivered_state [] sample_store = (Inr u, sample_store)" by blast
  with work_order_never_ends_completed [OF order(1) u] order(2) delivered_state_ready show ?thesis by blast
qed

end
