(* ===== verification/Workflow_Graph.thy ===== *)
theory Workflow_Graph imports Setup_Phase Execution_Phase Review_Phase Delivery_Phase begin

text \<open>
  The assembled workflow (\<open>app/graph/workflow.py\<close>, \<open>app/graph/nodes.py\<close>): which node runs, what
  becomes of its update, where the edges lead. A configuration is the node about to run, the
  payloads of a pending fan-out, and the shared state. A node that raises has no step: the run
  stops there, and the queue's worker records the failure. Clock readings, the identities of
  budget objects and the human's answer are whatever the environment makes them, so the relation
  covers every schedule of the workers of a fan-out, each metered by its own budget.
\<close>

record graph_env =
  ge_codec :: codec
  ge_deps :: node_deps
  ge_show_pairs :: "(string \<times> string) list \<Rightarrow> string"
  ge_show_usage :: "usage_dict \<Rightarrow> string"

section \<open>Nodes\<close>

text \<open>\<open>build_nodes\<close>: the nodes by name, four of them wrapped by \<open>with_call_budget\<close>. \<open>i\<close> names the
  wrapper's budget object; \<open>execute_task\<close> takes a payload and is in \<open>worker_ran\<close> below.\<close>

definition node_update ::
  "graph_env \<Rightarrow> nat \<Rightarrow> (uuid \<Rightarrow> nat) \<Rightarrow> clock \<Rightarrow> (gate_payload \<Rightarrow> string) \<Rightarrow> graph_node
     \<Rightarrow> workflow_state \<Rightarrow> state_update eff" where
  "node_update env i new_id clk interrupt n s =
     (case n of
        N_provision_workspace \<Rightarrow> provision_workspace (ge_deps env) s
      | N_select_build_strategy \<Rightarrow> select_build_strategy (ge_deps env) s
      | N_load_context \<Rightarrow> load_context (ge_deps env) s
      | N_create_plan \<Rightarrow> bounded_state_node (create_plan (ge_deps env)) i s
      | N_evaluate_results \<Rightarrow>
          bounded_state_node (consolidate_results (ge_codec env) (ge_deps env) new_id (clk 0)) i s
      | N_replan \<Rightarrow> bounded_state_node (replan_rejected_tasks (ge_deps env) (clk 0)) i s
      | N_continue_execution \<Rightarrow> eff_return (continue_execution s)
      | N_human_gate \<Rightarrow> eff_return (human_gate interrupt (clk 0) s)
      | N_authorize_retry \<Rightarrow> eff_return (authorize_retry clk s)
      | N_synthesize \<Rightarrow> eff_return (synthesize (ge_codec env) (ge_show_pairs env) s)
      | N_abort \<Rightarrow> eff_return (abort (ge_show_usage env) s)
      | N_publish_delivery \<Rightarrow> publish_delivery (ge_codec env) (ge_deps env) (clk 0) s
      | N_persist_memory \<Rightarrow> persist_memory (ge_deps env) s
      | N_execute_task \<Rightarrow> eff_raise (Exc TypeError [])
      | N_end \<Rightarrow> eff_raise (Exc TypeError []))"

section \<open>Edges\<close>

definition judge_edge :: "judge_route \<Rightarrow> graph_node" where
  "judge_edge r = (case r of Route_synthesize \<Rightarrow> N_synthesize | Route_replan \<Rightarrow> N_replan
     | Route_human_gate \<Rightarrow> N_human_gate | Route_continue_execution \<Rightarrow> N_continue_execution)"

definition execution_edge :: "route \<Rightarrow> graph_node \<times> execution_payload list" where
  "execution_edge r = (case r of To_execute ps \<Rightarrow> (N_execute_task, ps)
     | To_evaluate_results \<Rightarrow> (N_evaluate_results, []) | To_human_gate \<Rightarrow> (N_human_gate, []))"

definition next_node ::
  "graph_env \<Rightarrow> timestamp \<Rightarrow> graph_node \<Rightarrow> workflow_state \<Rightarrow> (graph_node \<times> execution_payload list) result" where
  "next_node env now n s =
     (let to = (\<lambda>m. Inr (m, []));
          to_execution = (case route_ready_tasks (ge_codec env) (ge_deps env) now s of
                            Inl e \<Rightarrow> Inl e | Inr r \<Rightarrow> Inr (execution_edge r))
      in case n of
        N_provision_workspace \<Rightarrow>
          to (if provision_router s = N_load_context then N_select_build_strategy else provision_router s)
      | N_select_build_strategy \<Rightarrow> to (strategy_router s)
      | N_load_context \<Rightarrow> to N_create_plan
      | N_create_plan \<Rightarrow> to_execution
      | N_execute_task \<Rightarrow> to N_evaluate_results
      | N_evaluate_results \<Rightarrow> to (judge_edge (judge_router now s))
      | N_replan \<Rightarrow> to_execution
      | N_continue_execution \<Rightarrow> to_execution
      | N_human_gate \<Rightarrow> to (human_router s)
      | N_authorize_retry \<Rightarrow> to (retry_router s)
      | N_synthesize \<Rightarrow> to (delivery_router (ge_deps env) s)
      | N_publish_delivery \<Rightarrow> to (delivery_result_router now s)
      | N_abort \<Rightarrow> to N_persist_memory
      | N_persist_memory \<Rightarrow> to N_end
      | N_end \<Rightarrow> Inl (Exc ValueError []))"

section \<open>Steps\<close>

type_synonym graph_config = "graph_node \<times> execution_payload list \<times> workflow_state"

inductive worker_ran :: "graph_env \<Rightarrow> execution_payload \<Rightarrow> state_update \<Rightarrow> bool" for env :: graph_env where
  worker_ran: "bounded_worker (run_task (ge_codec env) (ge_deps env) trace clk) i p stk \<sigma> = (Inr u, \<sigma>')
     \<Longrightarrow> worker_ran env p u"

inductive graph_step :: "graph_env \<Rightarrow> graph_config \<Rightarrow> graph_config \<Rightarrow> bool" for env :: graph_env where
  node_step: "node_update env i new_id clk interrupt n s stk \<sigma> = (Inr u, \<sigma>')
     \<Longrightarrow> next_node env now n (apply_update s u) = Inr (m, ps)
     \<Longrightarrow> graph_step env (n, [], s) (m, ps, apply_update s u)"
| fan_out_step: "list_all2 (worker_ran env) ps us
     \<Longrightarrow> next_node env now N_execute_task (foldl apply_update s us) = Inr (m, qs)
     \<Longrightarrow> graph_step env (N_execute_task, ps, s) (m, qs, foldl apply_update s us)"

inductive_cases graph_stepE: "graph_step env c d"

text \<open>A fresh run, or one resumed from its first node, on an initial state.\<close>

definition graph_init :: "workflow_state \<Rightarrow> graph_config \<Rightarrow> bool" where
  "graph_init s0 c \<longleftrightarrow> c = (N_provision_workspace, [], s0) \<and> distinct (map t_id (w_plan s0))"

section \<open>What a run maintains\<close>

text \<open>The plan may be delivered: everything is approved, or the human accepted less.\<close>

definition settled :: "workflow_state \<Rightarrow> bool" where
  "settled s \<longleftrightarrow> all_approved s \<or> w_human_decision s = Some ''accept_partial''"

definition well_ended :: "workflow_state \<Rightarrow> bool" where
  "well_ended s \<longleftrightarrow>
     (if w_work_order s \<noteq> None
      then w_phase s = PH_READY_FOR_HUMAN_REVIEW \<and> factory_ready_for_review s \<or> w_phase s = PH_FAILED
      else w_phase s = PH_COMPLETED \<and> settled s \<or> w_phase s = PH_FAILED)"

definition node_inv :: "graph_node \<Rightarrow> workflow_state \<Rightarrow> bool" where
  "node_inv n s \<longleftrightarrow>
     (n \<in> {N_synthesize, N_publish_delivery} \<longrightarrow> settled s)
     \<and> (n = N_persist_memory \<longrightarrow> w_phase s = PH_FAILED \<or> settled s)
     \<and> (n = N_end \<longrightarrow> well_ended s)"

definition same_order :: "workflow_state \<Rightarrow> workflow_state \<Rightarrow> bool" where
  "same_order s t \<longleftrightarrow> w_work_order s = w_work_order t \<and> w_workflow_id s = w_workflow_id t
     \<and> w_owner_client_id s = w_owner_client_id t \<and> w_project_id s = w_project_id t
     \<and> w_request s = w_request t \<and> w_started_at s = w_started_at t \<and> w_delivery s = w_delivery t"

definition graph_inv :: "workflow_state \<Rightarrow> graph_config \<Rightarrow> bool" where
  "graph_inv s0 c = (case c of (n, ps, s) \<Rightarrow>
     same_order s s0 \<and> distinct (map t_id (w_plan s)) \<and> node_inv n s)"

lemma apply_update_fields [simp]:
  "w_plan (apply_update s u) = reduced merge_tasks_by_id (w_plan s) (u_plan u)"
  "w_human_decision (apply_update s u) = reduced keep_latest (w_human_decision s) (u_human_decision u)"
  "w_phase (apply_update s u) = reduced keep_latest (w_phase s) (u_phase u)"
  by (simp_all add: apply_update_def)

lemma reduced_simps [simp]: "reduced f x None = x" "reduced f x (Some y) = f x y" "keep_latest x y = y"
  by (simp_all add: reduced_def keep_latest_def)

lemma same_order_apply [simp]: "same_order (apply_update s u) s0 = same_order s s0"
  by (simp add: same_order_def apply_update_def)

lemma work_order_apply [simp]: "w_work_order (apply_update s u) = w_work_order s"
  by (simp add: apply_update_def)

lemma distinct_apply: "distinct (map t_id (w_plan s)) \<Longrightarrow> distinct (map t_id (w_plan (apply_update s u)))"
  by (cases "u_plan u") (simp_all add: distinct_merge)

lemma foldl_apply_same [simp]: "same_order (foldl apply_update s us) s0 = same_order s s0"
  by (induction us arbitrary: s) simp_all

lemma foldl_apply_distinct:
  "distinct (map t_id (w_plan s)) \<Longrightarrow> distinct (map t_id (w_plan (foldl apply_update s us)))"
  by (induction us arbitrary: s) (simp_all add: distinct_apply del: apply_update_fields)

lemma settled_apply:
  "settled s \<Longrightarrow> u_plan u = None \<Longrightarrow> u_human_decision u = None \<Longrightarrow> settled (apply_update s u)"
  by (simp add: settled_def all_approved_def)

text \<open>Where the publication may leave the plan: as it was, or with published tasks reopened.\<close>

definition reopens :: "timestamp \<Rightarrow> workflow_state \<Rightarrow> state_update \<Rightarrow> bool" where
  "reopens now s u \<longleftrightarrow> (\<exists>P reason r.
     u_plan u = Some (map (reopened_task reason now) (filter P (completed_tasks s)))
     \<and> u_delivery_result u = Some (Some r) \<and> ci_failed r)"

lemma eff_bind_Inr:
  "eff_bind m f stk \<sigma> = (Inr u, \<sigma>') \<Longrightarrow> \<exists>x \<sigma>1. m stk \<sigma> = (Inr x, \<sigma>1) \<and> f x stk \<sigma>1 = (Inr u, \<sigma>')"
  by (auto simp: eff_bind_def split: prod.splits sum.splits)

lemma delivered_update_frame:
  "u_human_decision (delivered_update s r) = None" "u_plan (delivered_update s r) = None"
  "u_delivery_result (delivered_update s r) = Some (Some r)"
  by (simp_all add: delivered_update_def stage_of_order_def no_update_def)

lemma published_update_frame:
  "u_human_decision (published_update now s r) = None"
  "u_plan (published_update now s r) = None \<or> reopens now s (published_update now s r)"
  unfolding reopens_def
  by (auto simp: published_update_def reopen_after_ci_failure_def delivered_update_frame Let_def)

lemma publish_delivery_update:
  assumes "publish_delivery cd deps now s stk \<sigma> = (Inr u, \<sigma>')"
  shows "u_human_decision u = None \<and> (u_plan u = None \<or> reopens now s u)"
proof (cases "publication_target deps s")
  case (Inl e)
  with assms show ?thesis by (simp add: publish_delivery_def eff_raise_def)
next
  case (Inr x)
  show ?thesis
  proof (cases x)
    case (Inl error)
    with assms Inr show ?thesis by (auto simp: publish_delivery_def eff_return_def no_update_def)
  next
    case target: (Inr y)
    obtain config publish where y: "y = (config, publish)" by (cases y)
    obtain files deletions where c: "collect_publishable_changes (map t_result (completed_tasks s)) = (files, deletions)"
      by (metis prod.exhaust)
    show ?thesis
    proof (cases "files = [] \<and> deletions = []")
      case True
      with assms Inr target y c have "u = delivered_update s (nothing_to_publish s)"
        by (simp add: publish_delivery_def eff_return_def)
      then show ?thesis by (simp add: delivered_update_frame)
    next
      case False
      note run = assms [unfolded publish_delivery_def Inr target y sum.case prod.case Let_def c if_not_P [OF False]]
      obtain r \<sigma>1 where "eff_return (published_update now s (r\<lparr>dr_attempts := delivery_attempts s\<rparr>)) stk \<sigma>1 = (Inr u, \<sigma>')"
        using eff_bind_Inr [OF run] by blast
      then have "u = published_update now s (r\<lparr>dr_attempts := delivery_attempts s\<rparr>)" by (simp add: eff_return_def)
      then show ?thesis using published_update_frame by simp
    qed
  qed
qed

lemma reopened_all_approved:
  assumes d: "distinct (map t_id (w_plan s))" and "all_approved s"
    and u: "u_plan u = Some (map (reopened_task reason now) (filter P (completed_tasks s)))"
    and "escalated_tasks (apply_update s u) = []" and "tasks_needing_replan (apply_update s u) = []"
  shows "all_approved (apply_update s u)"
proof -
  let ?Q = "\<lambda>t. t_status t = COMPLETED \<and> P t"
  have plan: "w_plan (apply_update s u) = merge_tasks_by_id (w_plan s) (map (reopened_task reason now) (filter ?Q (w_plan s)))"
    by (simp add: u completed_tasks_def conj_commute)
  have ids: "map t_id (w_plan (apply_update s u)) = map t_id (w_plan s)"
    unfolding plan using d by (rule merge_ids) auto
  have "t_status t = COMPLETED" if t: "t \<in> set (w_plan (apply_update s u))" for t
  proof -
    have merged: "task_in (w_plan (apply_update s u)) (t_id t) = Some t"
      using t distinct_apply [OF d] by (rule task_in_distinct [rotated])
    obtain c where c: "task_in (w_plan s) (t_id t) = Some c"
        "t = (if ?Q c then merge_one (Some c) (reopened_task reason now c) else c)"
      using merged [unfolded plan task_in_merge_map [OF d, of "reopened_task reason now", OF reopened_simps(1)]]
      unfolding map_option_eq_Some by (elim exE conjE) (rule that, assumption, erule sym)
    have "t_status c = COMPLETED" using assms(2) task_in_Some [OF c(1)] unfolding all_approved_def by blast
    moreover have "t_status t \<notin> {ESCALATED, REJECTED}"
      using waiting_task_views [OF t] assms(4,5) by blast
    ultimately show ?thesis
      using next_status_cases [of c] unfolding c(2) by (simp add: merge_one_def split: if_split_asm)
  qed
  moreover have "w_plan (apply_update s u) \<noteq> []" using ids assms(2) by (metis all_approved_def list.map_disc_iff)
  ultimately show ?thesis unfolding all_approved_def by blast
qed

lemma published_settles:
  assumes d: "distinct (map t_id (w_plan s))" and s: "settled s"
    and run: "publish_delivery cd deps now s stk \<sigma> = (Inr u, \<sigma>')"
    and route: "delivery_result_router tm (apply_update s u) = N_persist_memory"
  shows "settled (apply_update s u)"
proof -
  let ?s = "apply_update s u"
  from publish_delivery_update [OF run] have decision: "u_human_decision u = None" by simp
  have failed: "w_delivery_result ?s = Some r" if "u_delivery_result u = Some (Some r)" for r
    by (simp add: apply_update_def that)
  consider "u_plan u = None" | "w_human_decision ?s = Some ''accept_partial''" | "factory_ready_for_review ?s"
    | P reason where "u_plan u = Some (map (reopened_task reason now) (filter P (completed_tasks s)))"
        "w_human_decision ?s \<noteq> Some ''accept_partial''" "escalated_tasks ?s = []" "tasks_needing_replan ?s = []"
  proof (cases "u_plan u = None \<or> w_human_decision ?s = Some ''accept_partial'' \<or> factory_ready_for_review ?s")
    case False
    then obtain P reason r where re: "u_plan u = Some (map (reopened_task reason now) (filter P (completed_tasks s)))"
        "u_delivery_result u = Some (Some r)" "ci_failed r"
      using publish_delivery_update [OF run] unfolding reopens_def by blast
    from route re(3) failed [OF re(2)] False have "escalated_tasks ?s = []" "tasks_needing_replan ?s = []"
      by (auto simp: delivery_result_router_def simp del: apply_update_fields split: if_splits)
    with that(4) [OF re(1)] False show ?thesis by blast
  qed (use that(1-3) in blast)
  then show ?thesis
  proof cases
    case 1 then show ?thesis using settled_apply [OF s] decision by simp
  next
    case 2 then show ?thesis by (simp add: settled_def)
  next
    case 3
    then obtain config where "factory_delivery_config ?s = Inr config"
      by (auto simp: factory_ready_for_review_def split: sum.splits)
    from factory_delivery_config_evidence [OF this] show ?thesis by (auto simp: settled_def)
  next
    case (4 P reason)
    then have "all_approved s" using s decision by (simp add: settled_def)
    from reopened_all_approved [OF d this 4(1,3,4)] show ?thesis by (simp add: settled_def)
  qed
qed

text \<open>How the four guarded nodes are entered.\<close>

lemmas edge_defs = next_node_def provision_router_def strategy_router_def judge_edge_def human_router_def
  retry_router_def delivery_router_def delivery_result_router_def Let_def

lemma execution_edge_target: "execution_edge r = (m, ps) \<Longrightarrow> m \<in> {N_execute_task, N_evaluate_results, N_human_gate}"
  by (cases r) (auto simp: execution_edge_def)

lemma judge_edge_synthesize: "judge_edge (judge_router now s) = N_synthesize \<Longrightarrow> all_approved s"
  by (simp add: judge_edge_def judge_router_def split: if_split_asm)

lemma judge_edge_target: "judge_edge r \<in> {N_synthesize, N_replan, N_human_gate, N_continue_execution}"
  by (cases r) (simp_all add: judge_edge_def)

lemma human_router_target:
  "human_router s \<in> {N_select_build_strategy, N_abort, N_publish_delivery, N_authorize_retry, N_synthesize}"
  "human_router s = N_synthesize \<Longrightarrow> w_human_decision s = Some ''accept_partial''"
  "human_router s = N_publish_delivery \<Longrightarrow> all_approved s"
  by (simp_all add: human_router_def split: if_split_asm)

lemma delivery_result_router_target:
  "delivery_result_router now s \<in> {N_persist_memory, N_human_gate, N_replan}"
  by (simp add: delivery_result_router_def Let_def)

lemma delivery_router_target: "delivery_router deps s \<in> {N_publish_delivery, N_persist_memory}"
  by (simp add: delivery_router_def)

lemma setup_router_target:
  "provision_router s \<in> {N_persist_memory, N_load_context}"
  "strategy_router s \<in> {N_persist_memory, N_load_context, N_human_gate}"
  "provision_router s = N_persist_memory \<Longrightarrow> w_phase s = PH_FAILED"
  "strategy_router s = N_persist_memory \<Longrightarrow> w_phase s = PH_FAILED"
  by (simp_all add: provision_router_def strategy_router_def split: if_split_asm option.split option.split_asm)

lemma retry_router_target: "retry_router s \<in> {N_replan, N_create_plan}"
  by (simp add: retry_router_def)

lemma router_targets:
  "judge_edge r \<in> {N_synthesize, N_replan, N_human_gate, N_continue_execution}"
  "human_router s \<in> {N_select_build_strategy, N_abort, N_publish_delivery, N_authorize_retry, N_synthesize}"
  "delivery_result_router now s \<in> {N_persist_memory, N_human_gate, N_replan}"
  "delivery_router deps s \<in> {N_publish_delivery, N_persist_memory}"
  "provision_router s \<in> {N_persist_memory, N_load_context}"
  "strategy_router s \<in> {N_persist_memory, N_load_context, N_human_gate}"
  "retry_router s \<in> {N_replan, N_create_plan}"
  by (fact judge_edge_target human_router_target delivery_result_router_target delivery_router_target
      setup_router_target retry_router_target)+

lemma to_execution_target:
  assumes "(case route_ready_tasks cd deps now s of Inl e \<Rightarrow> Inl e | Inr r \<Rightarrow> Inr (execution_edge r)) = Inr (m, ps)"
  shows "m \<in> {N_execute_task, N_evaluate_results, N_human_gate}"
  using assms execution_edge_target by (cases "route_ready_tasks cd deps now s") auto

lemma next_node_route:
  assumes "next_node env now n s = Inr (m, ps)"
  shows "case n of
      N_provision_workspace \<Rightarrow> m = N_select_build_strategy \<or> m = provision_router s \<and> m \<noteq> N_load_context
    | N_select_build_strategy \<Rightarrow> m = strategy_router s
    | N_load_context \<Rightarrow> m = N_create_plan
    | N_execute_task \<Rightarrow> m = N_evaluate_results
    | N_evaluate_results \<Rightarrow> m = judge_edge (judge_router now s)
    | N_human_gate \<Rightarrow> m = human_router s
    | N_authorize_retry \<Rightarrow> m = retry_router s
    | N_synthesize \<Rightarrow> m = delivery_router (ge_deps env) s
    | N_publish_delivery \<Rightarrow> m = delivery_result_router now s
    | N_abort \<Rightarrow> m = N_persist_memory
    | N_persist_memory \<Rightarrow> m = N_end
    | N_end \<Rightarrow> False
    | _ \<Rightarrow> m \<in> {N_execute_task, N_evaluate_results, N_human_gate}"
  using assms to_execution_target
  by (cases n) (auto simp: next_node_def Let_def split: if_split_asm)

lemma enter_synthesize:
  assumes "next_node env now n s = Inr (N_synthesize, ps)"
  shows "settled s"
  using next_node_route [OF assms] human_router_target(2) [of s] judge_edge_synthesize [of now s]
    router_targets(3) [of now s] router_targets(4) [of "ge_deps env" s] router_targets(5-7) [of s]
  by (cases n) (auto simp: settled_def dest: sym)

lemma enter_publish_delivery:
  assumes "next_node env now n s = Inr (N_publish_delivery, ps)"
  shows "n = N_synthesize \<or> settled s"
  using next_node_route [OF assms] human_router_target(3) [of s] router_targets(1) [of "judge_router now s"]
    router_targets(3) [of now s] router_targets(4) [of "ge_deps env" s] router_targets(5-7) [of s]
  by (cases n) (auto simp: settled_def dest: sym)

lemma enter_persist_memory:
  assumes "next_node env now n s = Inr (N_persist_memory, ps)"
  shows "w_phase s = PH_FAILED \<or> n = N_synthesize \<or> n = N_abort
    \<or> n = N_publish_delivery \<and> delivery_result_router now s = N_persist_memory"
  using next_node_route [OF assms] setup_router_target(3,4) [of s] router_targets(1) [of "judge_router now s"]
    router_targets(2) [of s] router_targets(7) [of s]
  by (cases n) (auto dest: sym)

lemma enter_end:
  assumes "next_node env now n s = Inr (N_end, ps)"
  shows "n = N_persist_memory"
  using next_node_route [OF assms] router_targets(1) [of "judge_router now s"] router_targets(2) [of s]
    router_targets(3) [of now s] router_targets(4) [of "ge_deps env" s] router_targets(5-7) [of s]
  by (cases n) (auto dest: sym)

text \<open>The evidence does not depend on the phase, the stage or the text of the delivery.\<close>

lemma factory_ready_frame:
  assumes "w_work_order t = w_work_order s" "w_workspace t = w_workspace s" "w_build_strategy t = w_build_strategy s"
    "w_workflow_id t = w_workflow_id s" "w_plan t = w_plan s" "w_human_decision t = w_human_decision s"
    "w_delivery t = w_delivery s" "w_delivery_result t = w_delivery_result s"
  shows "factory_ready_for_review t = factory_ready_for_review s"
proof -
  have "lease_mismatch t = lease_mismatch s" "destination_mismatch t = destination_mismatch s" "all_approved t = all_approved s"
    by (simp_all add: lease_mismatch_def destination_mismatch_def all_approved_def assms fun_eq_iff)
  then have "factory_delivery_config t = factory_delivery_config s"
    by (simp only: factory_delivery_config_def assms)
  then show ?thesis by (simp only: factory_ready_for_review_def assms)
qed

lemma persist_memory_ends_well:
  assumes run: "persist_memory deps s stk \<sigma> = (Inr u, \<sigma>')" and s: "w_phase s = PH_FAILED \<or> settled s"
  shows "well_ended (apply_update s u)"
proof (cases "w_work_order s = None")
  case True
  then have "u = no_update\<lparr>u_phase := Some (if w_phase s = PH_FAILED then PH_FAILED else PH_COMPLETED)\<rparr>"
    using run by (auto simp: persist_memory_def dest: bind_return_Inr)
  with s True show ?thesis
    using settled_apply [of s u] by (auto simp: well_ended_def no_update_def)
next
  case False
  then have u: "u = no_update\<lparr>u_phase := Some (w_phase (terminal_state s)),
      u_factory_stage := Some (w_factory_stage (terminal_state s)), u_final_output := Some (w_final_output (terminal_state s))\<rparr>"
    using run by (auto simp: persist_memory_def dest: bind_return_Inr)
  have "factory_ready_for_review (apply_update s u) = factory_ready_for_review s"
    by (rule factory_ready_frame) (simp_all add: u apply_update_def no_update_def)
  with False show ?thesis
    by (simp add: well_ended_def u no_update_def terminal_state_def Let_def)
qed

lemma node_update_frame:
  assumes "node_update env i new_id clk interrupt n s stk \<sigma> = (Inr u, \<sigma>')"
  shows "n = N_synthesize \<Longrightarrow> u_plan u = None \<and> u_human_decision u = None"
    and "n = N_abort \<Longrightarrow> u_phase u = Some PH_FAILED"
  using assms by (auto simp: node_update_def eff_return_def synthesize_def abort_def no_update_def Let_def)

lemma node_inv_step:
  assumes inv: "node_inv n s" and d: "distinct (map t_id (w_plan s))"
    and run: "node_update env i new_id clk interrupt n s stk \<sigma> = (Inr u, \<sigma>')"
    and next_n: "next_node env now n (apply_update s u) = Inr (m, ps)"
  shows "node_inv m (apply_update s u)"
proof -
  let ?s = "apply_update s u"
  have kept: "settled ?s" if "n = N_synthesize"
    using that inv node_update_frame(1) [OF run] by (intro settled_apply) (auto simp: node_inv_def)
  consider "m = N_synthesize" | "m = N_publish_delivery" | "m = N_persist_memory" | "m = N_end"
    | "m \<notin> {N_synthesize, N_publish_delivery, N_persist_memory, N_end}" by blast
  then show ?thesis
  proof cases
    case 1
    with enter_synthesize next_n show ?thesis unfolding node_inv_def by blast
  next
    case 2
    with enter_publish_delivery next_n kept show ?thesis unfolding node_inv_def by blast
  next
    case 3
    consider "w_phase ?s = PH_FAILED" | "n = N_synthesize" | "n = N_abort"
      | "n = N_publish_delivery" "delivery_result_router now ?s = N_persist_memory"
      using enter_persist_memory next_n 3 by blast
    then have "w_phase ?s = PH_FAILED \<or> settled ?s"
    proof cases
      case 3
      then show ?thesis using node_update_frame(2) [OF run] by simp
    next
      case 4
      then have "settled s" using inv by (simp add: node_inv_def)
      with 4 run published_settles [OF d] show ?thesis by (auto simp: node_update_def)
    qed (use kept in blast)+
    with 3 show ?thesis by (simp add: node_inv_def)
  next
    case 4
    then have "n = N_persist_memory" using enter_end next_n by blast
    with run inv have "well_ended ?s"
      using persist_memory_ends_well by (simp add: node_update_def node_inv_def)
    with 4 show ?thesis by (simp add: node_inv_def)
  qed (simp add: node_inv_def)
qed

lemma graph_inv_init: "graph_init s0 c \<Longrightarrow> graph_inv s0 c"
  by (simp add: graph_init_def graph_inv_def same_order_def node_inv_def)

lemma graph_inv_step: "graph_inv s0 c \<Longrightarrow> graph_step env c d \<Longrightarrow> graph_inv s0 d"
proof (erule graph_stepE)
  fix i new_id clk interrupt n s stk \<sigma> u \<sigma>' now m ps
  assume inv: "graph_inv s0 c" and c: "c = (n, [], s)" and d: "d = (m, ps, apply_update s u)"
    and run: "node_update env i new_id clk interrupt n s stk \<sigma> = (Inr u, \<sigma>')"
    and next_n: "next_node env now n (apply_update s u) = Inr (m, ps)"
  then show "graph_inv s0 d"
    using node_inv_step [OF _ _ run next_n] distinct_apply by (simp add: graph_inv_def)
next
  fix ps us now s m qs
  assume inv: "graph_inv s0 c" and c: "c = (N_execute_task, ps, s)" and d: "d = (m, qs, foldl apply_update s us)"
    and next_n: "next_node env now N_execute_task (foldl apply_update s us) = Inr (m, qs)"
  then show "graph_inv s0 d"
    using foldl_apply_distinct by (simp add: graph_inv_def next_node_def node_inv_def)
qed

interpretation graph: invariant_system "graph_init s0" "graph_step env" "graph_inv s0" for s0 env
  by unfold_locales (fact graph_inv_init, fact graph_inv_step)

section \<open>Properties\<close>

text \<open>C1. Every run of the workflow, whatever the planner, the executors, the judge, the publisher, the
  clock and the human do, and in every schedule of the workers: the request, its identity and its
  work order never change and task ids stay distinct; a plan is synthesized or published only when
  every task is approved or the human accepted a partial result; and a run that ends was either a
  failure, or a work order ready for review with complete delivery evidence, or an ordinary workflow
  completed with an approved or explicitly accepted plan.\<close>

theorem runs_end_with_what_they_earned:
  assumes "reach (graph_init s0) (graph_step env) (n, ps, s)"
  shows "w_request s = w_request s0 \<and> w_workflow_id s = w_workflow_id s0 \<and> w_owner_client_id s = w_owner_client_id s0
    \<and> w_work_order s = w_work_order s0 \<and> w_delivery s = w_delivery s0 \<and> distinct (map t_id (w_plan s))
    \<and> (n \<in> {N_synthesize, N_publish_delivery} \<longrightarrow> all_approved s \<or> w_human_decision s = Some ''accept_partial'')
    \<and> (n = N_end \<and> w_work_order s0 \<noteq> None \<longrightarrow>
         w_phase s = PH_READY_FOR_HUMAN_REVIEW \<and> factory_ready_for_review s \<or> w_phase s = PH_FAILED)
    \<and> (n = N_end \<and> w_work_order s0 = None \<longrightarrow>
         w_phase s = PH_COMPLETED \<and> (all_approved s \<or> w_human_decision s = Some ''accept_partial'') \<or> w_phase s = PH_FAILED)"
  using graph.reach_inv [OF assms]
  by (simp add: graph_inv_def same_order_def node_inv_def well_ended_def settled_def split: if_split_asm)

text \<open>A run over an already approved plan, from the first node to the end.\<close>

definition sample_graph :: graph_env where
  "sample_graph = \<lparr>ge_codec = sample_codec, ge_deps = sample_deps, ge_show_pairs = (\<lambda>ps. []), ge_show_usage = (\<lambda>u. [])\<rparr>"

definition calm :: "workflow_state \<Rightarrow> bool" where
  "calm s \<longleftrightarrow> w_work_order s = None \<and> w_delivery s = None \<and> w_workspace s = None \<and> w_build_strategy s = None
     \<and> w_plan s = [sample_task 2 COMPLETED] \<and> w_phase s \<noteq> PH_FAILED \<and> w_budget s = sample_workflow_budget
     \<and> w_started_at s = 0 \<and> w_budget_blocked_reason s = None \<and> used_tokens s = 0 \<and> used_cost s = 0"

definition calm_step :: "graph_node \<Rightarrow> graph_node \<Rightarrow> bool" where
  "calm_step n m \<longleftrightarrow> (\<forall>s. calm s \<longrightarrow> (\<exists>t. graph_step sample_graph (n, [], s) (m, [], t) \<and> calm t))"

lemma calm_stepI:
  assumes "\<And>s. calm s \<Longrightarrow> node_update sample_graph 2 (\<lambda>_. 5) (\<lambda>_. 10) (\<lambda>_. []) n s [] sample_store = (Inr (f s), g s)"
    and "\<And>s. calm s \<Longrightarrow> calm (apply_update s (f s))"
    and "\<And>s. calm s \<Longrightarrow> next_node sample_graph 10 n s = Inr (m, [])"
  shows "calm_step n m"
  unfolding calm_step_def using assms by (blast intro: node_step)

lemma calm_routes:
  assumes "calm s"
  shows "all_approved s" "ready_tasks s = []" "\<not> budget_exhausted 10 s" "judge_router 10 s = Route_synthesize"
    "filter (\<lambda>t. t_status t = RUNNING) (w_plan s) = []"
proof -
  show all: "all_approved s" "ready_tasks s = []" "filter (\<lambda>t. t_status t = RUNNING) (w_plan s) = []"
    using assms by (simp_all add: calm_def all_approved_def ready_tasks_def redispatchable_tasks_def
        is_redispatchable_def sample_task_def)
  show "\<not> budget_exhausted 10 s"
    using assms by (simp add: calm_def budget_exhausted_def elapsed_seconds_def sample_workflow_budget_def)
  show "judge_router 10 s = Route_synthesize"
    using assms all by (simp add: judge_router_def calm_def)
qed

lemmas calm_eval = node_update_def next_node_def sample_graph_def sample_deps_def eff_return_def eff_bind_def

lemma calm_setup:
  "calm_step N_provision_workspace N_select_build_strategy" "calm_step N_select_build_strategy N_load_context"
  "calm_step N_load_context N_create_plan"
proof -
  show "calm_step N_provision_workspace N_select_build_strategy"
    by (rule calm_stepI [where f = "\<lambda>s. no_update\<lparr>u_phase := Some PH_LOADING_CONTEXT\<rparr>" and g = "\<lambda>s. sample_store"])
      (simp_all add: calm_eval provision_workspace_def provision_router_def calm_def apply_update_def no_update_def
        used_tokens_def used_cost_def)
  show "calm_step N_select_build_strategy N_load_context"
    by (rule calm_stepI [where f = "\<lambda>s. no_update\<lparr>u_phase := Some PH_LOADING_CONTEXT\<rparr>" and g = "\<lambda>s. sample_store"])
      (simp_all add: calm_eval select_build_strategy_def strategy_router_def calm_def apply_update_def no_update_def
        used_tokens_def used_cost_def)
  show "calm_step N_load_context N_create_plan"
    by (rule calm_stepI [where f = "\<lambda>s. no_update\<lparr>u_context := Some [], u_phase := Some PH_PLANNING\<rparr>" and g = "\<lambda>s. sample_store"])
      (simp_all add: calm_eval load_context_def base_context_def calm_def apply_update_def no_update_def
        used_tokens_def used_cost_def Let_def)
qed

lemma calm_bounded:
  assumes "node s = eff_return u"
  shows "bounded_state_node node 2 s [] sample_store =
    (Inr u, sample_store(2 := fresh_budget (max 0 (fst (state_limits s))) (max 0 (snd (state_limits s)))))"
  by (simp add: bounded_state_node_def run_in_scope_def eff_return_def assms add_measured_def any_usage_def
      budget_usage_def enter_scope_def exit_scope_def fresh_budget_def Let_def)

lemma calm_usage:
  assumes "used_tokens s = 0" and "used_cost s = 0" and "u_usage u = Some (usage_of 0 0)"
  shows "used_tokens (apply_update s u) = 0" and "used_cost (apply_update s u) = 0"
  using assms add_usage_get [of _ "w_usage s" "usage_of 0 0"]
  by (simp_all add: used_tokens_def used_cost_def usage_keys_def apply_update_def usage_of_def dict_get_or_def)

lemma merge_calm: "merge_tasks_by_id [sample_task 2 COMPLETED] [sample_task 2 COMPLETED] = [sample_task 2 COMPLETED]"
  "merge_tasks_by_id [sample_task 2 COMPLETED] [] = [sample_task 2 COMPLETED]"
  by (simp_all add: merge_tasks_by_id_def dict_of_def merge_task_def sample_task_def)

lemma calm_work:
  "calm_step N_create_plan N_evaluate_results" "calm_step N_evaluate_results N_synthesize"
proof -
  let ?p = "\<lambda>s. no_update\<lparr>u_plan := Some (w_plan s), u_usage := Some (usage_of 0 0), u_phase := Some PH_EXECUTING\<rparr>"
  let ?e = "\<lambda>s. no_update\<lparr>u_plan := Some [], u_evaluations := Some [], u_usage := Some (usage_of 0 0),
      u_phase := Some PH_EVALUATING\<rparr>"
  let ?g = "\<lambda>s. sample_store(2 := fresh_budget (max 0 (fst (state_limits s))) (max 0 (snd (state_limits s))))"
  have calm: "calm (apply_update s (?p s))" "calm (apply_update s (?e s))" if "calm s" for s
    using that calm_usage [of s "?p s"] calm_usage [of s "?e s"]
    by (simp_all add: calm_def merge_calm) (simp_all add: apply_update_def no_update_def)
  show "calm_step N_create_plan N_evaluate_results"
  proof (rule calm_stepI [where f = ?p and g = ?g])
    fix s assume s: "calm s"
    have "create_plan sample_deps s = eff_return (?p s)" using s by (simp add: create_plan_def calm_def)
    then show "node_update sample_graph 2 (\<lambda>_. 5) (\<lambda>_. 10) (\<lambda>_. []) N_create_plan s [] sample_store = (Inr (?p s), ?g s)"
      by (simp add: node_update_def sample_graph_def calm_bounded)
    show "next_node sample_graph 10 N_create_plan s = Inr (N_evaluate_results, [])"
      using calm_routes [OF s] by (simp add: next_node_def route_ready_tasks_def execution_edge_def)
  qed (fact calm)
  show "calm_step N_evaluate_results N_synthesize"
  proof (rule calm_stepI [where f = ?e and g = ?g])
    fix s assume s: "calm s"
    have "consolidate_results sample_codec sample_deps (\<lambda>_. 5) 10 s = eff_return (?e s)"
      by (simp add: consolidate_results_def calm_routes(5) [OF s] eff_bind_def eff_return_def fun_eq_iff)
    then show "node_update sample_graph 2 (\<lambda>_. 5) (\<lambda>_. 10) (\<lambda>_. []) N_evaluate_results s [] sample_store = (Inr (?e s), ?g s)"
      by (simp add: node_update_def sample_graph_def calm_bounded)
    show "next_node sample_graph 10 N_evaluate_results s = Inr (N_synthesize, [])"
      using calm_routes [OF s] by (simp add: next_node_def judge_edge_def)
  qed (fact calm)
qed

lemma synthesize_frame:
  "u_plan (synthesize cd f s) = None" "u_usage (synthesize cd f s) = None"
  "u_phase (synthesize cd f s) = Some PH_SYNTHESIZING" "u_budget (synthesize cd f s) = None"
  "u_workspace (synthesize cd f s) = None" "u_build_strategy (synthesize cd f s) = None"
  "u_budget_blocked_reason (synthesize cd f s) = None"
  by (simp_all add: synthesize_def no_update_def Let_def)

lemma calm_delivery: "calm_step N_synthesize N_persist_memory" "calm_step N_persist_memory N_end"
proof -
  have calm: "calm (apply_update s u)"
    if "calm s" "u_plan u = None" "u_usage u = None" "u_phase u \<noteq> Some PH_FAILED" "u_budget u = None"
      "u_workspace u = None" "u_build_strategy u = None" "u_budget_blocked_reason u = None" for s u
    using that by (cases "u_phase u") (simp_all add: calm_def apply_update_def used_tokens_def used_cost_def)
  show "calm_step N_synthesize N_persist_memory"
    by (rule calm_stepI [where f = "synthesize sample_codec (\<lambda>ps. [])" and g = "\<lambda>s. sample_store"])
      (simp_all add: calm_eval calm synthesize_frame, simp add: delivery_router_def calm_def)
  show "calm_step N_persist_memory N_end"
  proof (rule calm_stepI [where f = "\<lambda>s. no_update\<lparr>u_phase := Some PH_COMPLETED\<rparr>" and g = "\<lambda>s. sample_store"])
    fix s assume s: "calm s"
    show "calm (apply_update s (no_update\<lparr>u_phase := Some PH_COMPLETED\<rparr>))"
      using s by (rule calm) (simp_all add: no_update_def)
  qed (simp_all add: calm_eval persist_memory_def calm_def)
qed

theorem runs_end_with_what_they_earned_witness:
  "\<exists>s. reach (graph_init (sample_state [sample_task 2 COMPLETED])) (graph_step sample_graph) (N_end, [], s)
     \<and> (w_phase s = PH_COMPLETED \<and> (all_approved s \<or> w_human_decision s = Some ''accept_partial'') \<or> w_phase s = PH_FAILED)"
proof -
  let ?s0 = "sample_state [sample_task 2 COMPLETED]"
  let ?reach = "reach (graph_init ?s0) (graph_step sample_graph)"
  have step: "\<exists>t. ?reach (m, [], t) \<and> calm t" if "\<exists>s. ?reach (n, [], s) \<and> calm s" "calm_step n m" for n m
    using that unfolding calm_step_def by (meson reach_step)
  have "calm ?s0"
    by (simp add: calm_def sample_state_def used_tokens_def used_cost_def dict_get_or_def)
  then have "\<exists>s. ?reach (N_provision_workspace, [], s) \<and> calm s"
    by (intro exI [of _ ?s0] conjI reach_init) (simp_all add: graph_init_def calm_def)
  from step [OF step [OF step [OF step [OF step [OF step [OF step [OF this calm_setup(1)] calm_setup(2)] calm_setup(3)]
        calm_work(1)] calm_work(2)] calm_delivery(1)] calm_delivery(2)]
  obtain s where "?reach (N_end, [], s)" by blast
  moreover have "w_work_order ?s0 = None" by (simp add: sample_state_def)
  ultimately show ?thesis using runs_end_with_what_they_earned by (metis (lifting))
qed

end
