(* ===== verification/Queue_Model.thy ===== *)
theory Queue_Model imports Workflow_State begin

text \<open>
  What both dispatch queues of \<open>app/infrastructure/workflow_queue.py\<close> share: jobs, job states,
  access records and statistics, the normalisation of a start request with its digest, the life
  cycle a job is meant to go through, and the contract of leases as the locale \<open>lease_queue\<close>.

  A payload is a JSON-shaped value: a pydantic model inside it stands as the dictionary
  \<open>_serialize_payload\<close> makes of it, so that the copy through JSON is the value itself. The digest
  of a start request is SHA-256 of the JSON text of the canonical request with sorted keys; the
  function from the canonical request to that text's hash is the parameter \<open>sha\<close>.
\<close>

section \<open>Data\<close>

datatype job_kind = J_START | J_RESUME

datatype job_status = JS_QUEUED | JS_PROCESSING | JS_DONE | JS_FAILED

record workflow_job =
  wj_id :: int
  wj_workflow_id :: string
  wj_project_id :: string
  wj_owner_client_id :: string
  wj_kind :: job_kind
  wj_payload :: pyval
  wj_attempt_count :: int
  wj_max_attempts :: int
  wj_locked_by :: "string option"

record workflow_job_state =
  js_workflow_id :: string
  js_status :: job_status
  js_error :: "string option"

record access_context =
  ac_workflow_id :: string
  ac_project_id :: string
  ac_owner_client_id :: string

record queue_stats =
  qs_backend :: string
  qs_queued :: int
  qs_processing :: int
  qs_failed :: int
  qs_done :: int
  qs_delivered_total :: int
  qs_requeued_total :: int
  qs_failed_total :: int
  qs_expired_processing :: int
  qs_active_workers :: int

definition stats_to_dict :: "queue_stats \<Rightarrow> (string, pyval) pydict" where
  "stats_to_dict s =
     [(''backend'', PStr (qs_backend s)), (''queued'', PInt (qs_queued s)),
      (''processing'', PInt (qs_processing s)), (''failed'', PInt (qs_failed s)),
      (''done'', PInt (qs_done s)), (''delivered_total'', PInt (qs_delivered_total s)),
      (''requeued_total'', PInt (qs_requeued_total s)),
      (''failed_total'', PInt (qs_failed_total s)),
      (''expired_processing'', PInt (qs_expired_processing s)),
      (''active_workers'', PInt (qs_active_workers s))]"

definition lease_expired_error :: string where
  "lease_expired_error = ''LeaseExpired''"

definition workflow_cancelled_error :: string where
  "workflow_cancelled_error = ''WorkflowCancelled''"

text \<open>\<open>to_pending_response\<close>: what the API answers for a job that has no checkpoint yet.\<close>

record pending_response =
  pr_workflow_id :: string
  pr_phase :: workflow_phase
  pr_iteration :: int
  pr_tokens :: int
  pr_cost_usd :: usd
  pr_tasks :: "pyval list"
  pr_pending_decision :: "pyval option"
  pr_final_output :: "string option"
  pr_error :: "string option"

definition to_pending_response :: "workflow_job_state \<Rightarrow> pending_response" where
  "to_pending_response s =
     \<lparr>pr_workflow_id = js_workflow_id s,
      pr_phase = (if js_error s = Some workflow_cancelled_error then PH_CANCELLED
                  else if js_status s = JS_FAILED then PH_FAILED else PH_QUEUED),
      pr_iteration = 0, pr_tokens = 0, pr_cost_usd = 0, pr_tasks = [],
      pr_pending_decision = None,
      pr_final_output =
        (if js_error s = Some workflow_cancelled_error
         then Some ''Workflow cancelado pelo operador.''
         else if js_status s = JS_FAILED
         then Some ''Workflow falhou durante o processamento da fila.'' else None),
      pr_error = js_error s\<rparr>"

section \<open>Start requests\<close>

text \<open>\<open>_start_payload\<close>: the detached copy with the identities set, and the canonical request,
  which leaves out what differs between two submissions of the same request.\<close>

definition canonical_request :: "(string, pyval) pydict \<Rightarrow> (string, pyval) pydict" where
  "canonical_request copied =
     (let c = filter (\<lambda>(k, v). k \<noteq> ''workflow_id'') copied
      in case as_dict (pget c ''work_order'') of
           None \<Rightarrow> c
         | Some w \<Rightarrow>
             AList.update ''work_order''
               (PDict (filter (\<lambda>(k, v). k \<notin> {''id'', ''created_at''}) w)) c)"

definition copied_payload ::
  "(string, pyval) pydict \<Rightarrow> string \<Rightarrow> string \<Rightarrow> string \<Rightarrow> (string, pyval) pydict" where
  "copied_payload payload workflow_id project_id owner =
     AList.update ''owner_client_id'' (PStr owner)
       (AList.update ''project_id'' (PStr project_id)
         (AList.update ''workflow_id'' (PStr workflow_id) payload))"

definition start_payload ::
  "((string, pyval) pydict \<Rightarrow> string) \<Rightarrow> (string, pyval) pydict \<Rightarrow> string \<Rightarrow> string \<Rightarrow> string
   \<Rightarrow> (string, pyval) pydict \<times> string" where
  "start_payload sha payload workflow_id project_id owner =
     (let copied = copied_payload payload workflow_id project_id owner
      in (copied, sha (canonical_request copied)))"

record start_request =
  sr_workflow_id :: string
  sr_project_id :: string
  sr_owner_client_id :: string
  sr_payload :: "(string, pyval) pydict"
  sr_repository :: string
  sr_idempotency_key :: "string option"
  sr_expected_dispatch_scope :: "string option"

text \<open>\<open>if idempotency_key\<close>: an absent and an empty key are no key.\<close>

definition request_key :: "start_request \<Rightarrow> (string \<times> string \<times> string) option" where
  "request_key r =
     (if truthy_str (sr_idempotency_key r)
      then Some (sr_owner_client_id r, str_lower (sr_repository r), the (sr_idempotency_key r))
      else None)"

definition request_digest :: "((string, pyval) pydict \<Rightarrow> string) \<Rightarrow> start_request \<Rightarrow> string" where
  "request_digest sha r =
     snd (start_payload sha (sr_payload r) (sr_workflow_id r) (sr_project_id r)
            (sr_owner_client_id r))"

definition request_copy :: "start_request \<Rightarrow> (string, pyval) pydict" where
  "request_copy r =
     copied_payload (sr_payload r) (sr_workflow_id r) (sr_project_id r) (sr_owner_client_id r)"

text \<open>The canonical request of a dictionary with the \<open>workflow_id\<close> of another submission.\<close>

lemma filter_update_other:
  "\<not> P (k, v) \<Longrightarrow> (\<And>w. \<not> P (k, w)) \<Longrightarrow> filter P (AList.update k v d) = filter P d"
  by (induction d) auto

lemma filter_update_kept:
  "(\<And>w. P (k, w)) \<Longrightarrow> filter P (AList.update k v d) = AList.update k v (filter P d)"
  by (induction d) auto

lemma canonical_copy_of_workflow:
  "canonical_request (copied_payload p w1 pr ow) = canonical_request (copied_payload p w2 pr ow)"
proof -
  have "filter (\<lambda>(k, v). k \<noteq> ''workflow_id'') (copied_payload p w1 pr ow)
        = filter (\<lambda>(k, v). k \<noteq> ''workflow_id'') (copied_payload p w2 pr ow)"
    by (simp add: copied_payload_def filter_update_other filter_update_kept)
  then show ?thesis by (simp add: canonical_request_def)
qed

text \<open>The digest of a request does not depend on the workflow id the submission drew.\<close>

lemma digest_ignores_workflow_id:
  "request_digest sha (r\<lparr>sr_workflow_id := w\<rparr>) = request_digest sha r"
  by (simp add: request_digest_def start_payload_def Let_def
      canonical_copy_of_workflow [of _ w _ _ "sr_workflow_id r"])

lemma request_key_of_workflow [simp]: "request_key (r\<lparr>sr_workflow_id := w\<rparr>) = request_key r"
  by (simp add: request_key_def)

section \<open>The life of a job\<close>

text \<open>A job is queued with a number of deliveries behind it, leased to a worker for its
  \<open>n\<close>-th delivery, or ended.\<close>

datatype job_life = Absent | Queued int | Leased int string | Done int | Failed int

inductive life_step :: "int \<Rightarrow> job_life \<Rightarrow> job_life \<Rightarrow> bool" for mx :: int where
  life_admit: "life_step mx Absent (Queued 0)"
| life_deliver: "n < mx \<Longrightarrow> life_step mx (Queued n) (Leased (n + 1) w)"
| life_expire: "n < mx \<Longrightarrow> life_step mx (Leased n w) (Queued n)"
| life_exhaust: "mx \<le> n \<Longrightarrow> life_step mx (Leased n w) (Failed n)"
| life_settle: "life_step mx (Leased n w) (Done n)"
| life_fail: "life_step mx (Leased n w) (Failed n)"
| life_cancel_queued: "life_step mx (Queued n) (Failed n)"

inductive_simps life_step_simps [simp]:
  "life_step mx Absent l" "life_step mx (Queued n) l" "life_step mx (Leased n w) l"
  "life_step mx (Done n) l" "life_step mx (Failed n) l"

text \<open>The deliveries of a life, and the bound every life starting from nothing keeps.\<close>

primrec deliveries :: "job_life \<Rightarrow> int" where
  "deliveries Absent = 0"
| "deliveries (Queued n) = n"
| "deliveries (Leased n w) = n"
| "deliveries (Done n) = n"
| "deliveries (Failed n) = n"

primrec life_ok :: "int \<Rightarrow> job_life \<Rightarrow> bool" where
  "life_ok mx Absent \<longleftrightarrow> True"
| "life_ok mx (Queued n) \<longleftrightarrow> 0 \<le> n \<and> n < mx"
| "life_ok mx (Leased n w) \<longleftrightarrow> 0 < n \<and> n \<le> mx"
| "life_ok mx (Done n) \<longleftrightarrow> 0 < n \<and> n \<le> mx"
| "life_ok mx (Failed n) \<longleftrightarrow> 0 \<le> n \<and> n \<le> mx"

lemma life_ok_step: "0 < mx \<Longrightarrow> life_ok mx l \<Longrightarrow> life_step mx l l' \<Longrightarrow> life_ok mx l'"
  by (erule life_step.cases) auto

lemma life_ok_steps: "(life_step mx)\<^sup>*\<^sup>* l l' \<Longrightarrow> 0 < mx \<Longrightarrow> life_ok mx l \<Longrightarrow> life_ok mx l'"
  by (induction rule: rtranclp_induct) (auto intro: life_ok_step)

lemma deliveries_bounded: "life_ok mx l \<Longrightarrow> deliveries l \<le> max 0 mx"
  by (cases l) auto

text \<open>An ended job stays ended, and no delivery is ever taken back.\<close>

primrec ended :: "job_life \<Rightarrow> bool" where
  "ended Absent \<longleftrightarrow> False"
| "ended (Queued n) \<longleftrightarrow> False"
| "ended (Leased n w) \<longleftrightarrow> False"
| "ended (Done n) \<longleftrightarrow> True"
| "ended (Failed n) \<longleftrightarrow> True"

lemma ended_is_final: "(life_step mx)\<^sup>*\<^sup>* l l' \<Longrightarrow> ended l \<Longrightarrow> l' = l"
  by (induction rule: rtranclp_induct) (auto, (cases l; auto)+)

lemma deliveries_mono: "life_step mx l l' \<Longrightarrow> deliveries l \<le> deliveries l'"
  by (erule life_step.cases) auto

lemma deliveries_monos: "(life_step mx)\<^sup>*\<^sup>* l l' \<Longrightarrow> deliveries l \<le> deliveries l'"
  by (induction rule: rtranclp_induct) (auto dest: deliveries_mono)

section \<open>The contract of a lease\<close>

text \<open>
  What the workers rely on. \<open>holder s j\<close> is who holds the lease of the job \<open>j\<close> refers to; the
  job value a worker carries remembers who it was leased to. The three settling operations
  succeed exactly for the holder, a settled lease is gone, and settling does not disturb the
  leases of jobs that are not in the way of this one (\<open>clash\<close>).
\<close>

locale lease_queue =
  fixes ok :: "'s \<Rightarrow> bool"
    and holder :: "'s \<Rightarrow> workflow_job \<Rightarrow> string option"
    and clash :: "workflow_job \<Rightarrow> workflow_job \<Rightarrow> bool"
    and heartbeat :: "timestamp \<Rightarrow> workflow_job \<Rightarrow> 's \<Rightarrow> bool \<times> 's"
    and acknowledge :: "timestamp \<Rightarrow> workflow_job \<Rightarrow> 's \<Rightarrow> bool \<times> 's"
    and fail :: "timestamp \<Rightarrow> workflow_job \<Rightarrow> string \<Rightarrow> 's \<Rightarrow> bool \<times> 's"
  assumes clash_same: "clash j j"
    and beat_ok: "ok s \<Longrightarrow> ok (snd (heartbeat t j s))"
    and ack_ok: "ok s \<Longrightarrow> ok (snd (acknowledge t j s))"
    and fail_ok: "ok s \<Longrightarrow> ok (snd (fail t j e s))"
    and beat_fenced:
      "ok s \<Longrightarrow> fst (heartbeat t j s) \<longleftrightarrow> holder s j \<noteq> None \<and> holder s j = wj_locked_by j"
    and ack_fenced:
      "ok s \<Longrightarrow> fst (acknowledge t j s) \<longleftrightarrow> holder s j \<noteq> None \<and> holder s j = wj_locked_by j"
    and fail_fenced:
      "ok s \<Longrightarrow> fst (fail t j e s) \<longleftrightarrow> holder s j \<noteq> None \<and> holder s j = wj_locked_by j"
    and refused_ack: "ok s \<Longrightarrow> \<not> fst (acknowledge t j s) \<Longrightarrow> snd (acknowledge t j s) = s"
    and refused_fail: "ok s \<Longrightarrow> \<not> fst (fail t j e s) \<Longrightarrow> snd (fail t j e s) = s"
    and beat_holder: "ok s \<Longrightarrow> holder (snd (heartbeat t j s)) j' = holder s j'"
    and ack_settles:
      "ok s \<Longrightarrow> fst (acknowledge t j s) \<Longrightarrow> clash j j' \<Longrightarrow> holder (snd (acknowledge t j s)) j' = None"
    and fail_settles:
      "ok s \<Longrightarrow> fst (fail t j e s) \<Longrightarrow> clash j j' \<Longrightarrow> holder (snd (fail t j e s)) j' = None"
    and ack_others:
      "ok s \<Longrightarrow> \<not> clash j j' \<Longrightarrow> holder (snd (acknowledge t j s)) j' = holder s j'"
    and fail_others:
      "ok s \<Longrightarrow> \<not> clash j j' \<Longrightarrow> holder (snd (fail t j e s)) j' = holder s j'"
begin

text \<open>What the workers do with leases: any number of heartbeats, acknowledgements and failures.\<close>

inductive worker_step :: "'s \<Rightarrow> 's \<Rightarrow> bool" where
  ws_beat: "worker_step s (snd (heartbeat t j s))"
| ws_ack: "worker_step s (snd (acknowledge t j s))"
| ws_fail: "worker_step s (snd (fail t j e s))"

lemma worker_step_ok: "worker_step s s' \<Longrightarrow> ok s \<Longrightarrow> ok s'"
  by (induction rule: worker_step.induct) (simp_all add: beat_ok ack_ok fail_ok)

lemma worker_step_no_new_holder:
  "worker_step s s' \<Longrightarrow> ok s \<Longrightarrow> holder s j' = None \<Longrightarrow> holder s' j' = None"
proof (induction rule: worker_step.induct)
  case (ws_ack s t j)
  then show ?case
    by (cases "clash j j'"; cases "fst (acknowledge t j s)")
       (simp_all add: ack_settles ack_others refused_ack)
next
  case (ws_fail s t j e)
  then show ?case
    by (cases "clash j j'"; cases "fst (fail t j e s)")
       (simp_all add: fail_settles fail_others refused_fail)
qed (simp add: beat_holder)

lemma worker_steps_no_new_holder:
  "worker_step\<^sup>*\<^sup>* s s' \<Longrightarrow> ok s \<Longrightarrow> holder s j' = None \<Longrightarrow> ok s' \<and> holder s' j' = None"
  by (induction rule: rtranclp_induct)
     (auto intro: worker_step_ok worker_step_no_new_holder)

text \<open>A lease is settled at most once, whatever the workers do in between.\<close>

lemma settled_once:
  assumes "ok s" and "fst (acknowledge t j s) \<or> fst (fail t j e s)"
    and "s1 = (if fst (acknowledge t j s) then snd (acknowledge t j s) else snd (fail t j e s))"
    and "worker_step\<^sup>*\<^sup>* s1 s2"
  shows "\<not> fst (heartbeat t2 j s2) \<and> \<not> fst (acknowledge t2 j s2) \<and> \<not> fst (fail t2 j e2 s2)"
proof -
  have "ok s1 \<and> holder s1 j = None"
    using assms(1,2,3) by (auto simp: ack_settles fail_settles clash_same ack_ok fail_ok)
  then have "ok s2 \<and> holder s2 j = None"
    using worker_steps_no_new_holder [OF assms(4)] by blast
  then show ?thesis by (simp add: beat_fenced ack_fenced fail_fenced)
qed

text \<open>A worker whose lease went to another can neither keep it alive nor settle the job.\<close>

lemma stale_worker_is_fenced:
  "ok s \<Longrightarrow> holder s j \<noteq> wj_locked_by j \<Longrightarrow>
   \<not> fst (heartbeat t j s) \<and> \<not> fst (acknowledge t j s) \<and> \<not> fst (fail t j e s)
   \<and> snd (acknowledge t j s) = s \<and> snd (fail t j e s) = s"
  by (simp add: beat_fenced ack_fenced fail_fenced refused_ack refused_fail)

end

end
