(* ===== verification/Memory_Queue.thy ===== *)
theory Memory_Queue imports Queue_Model Transition "HOL-Library.Multiset" begin

text \<open>
  \<open>InMemoryWorkflowQueue\<close> of \<open>app/infrastructure/workflow_queue.py\<close>: the queue of one process.
  Every operation holds the queue's condition, so each is one step; the readings of the
  monotonic clock are arguments, in microseconds like the lease. \<open>dequeue\<close> waits on the
  condition: what the other coroutines do during a wait is an argument of the round, and the
  end of the rounds is the timeout of the wait.
\<close>

record memory_queue =
  mq_lease_seconds :: timestamp
  mq_max_delivery_attempts :: int
  mq_queued :: "workflow_job list"
  mq_processing :: "(string, workflow_job \<times> timestamp) pydict"
  mq_states :: "(string, workflow_job_state) pydict"
  mq_access :: "(string, access_context) pydict"
  mq_delivered_total :: int
  mq_requeued_total :: int
  mq_failed_total :: int
  mq_done_total :: int
  mq_sequence :: int
  mq_worker_heartbeats :: "(string, timestamp) pydict"
  mq_worker_fingerprints :: "(string, string option) pydict"
  mq_deployment_fingerprint :: "string option"
  mq_installation_required :: bool
  mq_idempotency :: "(string \<times> string \<times> string, string) pydict"
  mq_work_orders :: "(string, (string, pyval) pydict) pydict"
  mq_dispatch_scope :: string
  mq_start_receipts :: "(string, string) pydict"

definition new_memory_queue :: "timestamp \<Rightarrow> int \<Rightarrow> string \<Rightarrow> memory_queue" where
  "new_memory_queue lease attempts scope =
     \<lparr>mq_lease_seconds = lease, mq_max_delivery_attempts = attempts, mq_queued = [],
      mq_processing = [], mq_states = [], mq_access = [], mq_delivered_total = 0,
      mq_requeued_total = 0, mq_failed_total = 0, mq_done_total = 0, mq_sequence = 0,
      mq_worker_heartbeats = [], mq_worker_fingerprints = [], mq_deployment_fingerprint = None,
      mq_installation_required = False, mq_idempotency = [], mq_work_orders = [],
      mq_dispatch_scope = scope, mq_start_receipts = []\<rparr>"

definition mq_configure_installation :: "string option \<Rightarrow> bool \<Rightarrow> memory_queue \<Rightarrow> memory_queue" where
  "mq_configure_installation fp required q =
     q\<lparr>mq_deployment_fingerprint := fp, mq_installation_required := required\<rparr>"

definition mq_required_fingerprint :: "memory_queue \<Rightarrow> string option" where
  "mq_required_fingerprint q =
     (if mq_installation_required q
      then Some (or_str (mq_deployment_fingerprint q) ''installation-unconfigured'') else None)"

section \<open>Admission\<close>

definition scope_replaced :: exc where
  "scope_replaced = Exc WorkflowDispatchConflict
     ''Fila substituida; recuperacao exige investigacao operacional.''"

definition other_request :: exc where
  "other_request = Exc WorkflowDispatchConflict
     ''Chave ou workflow ja associado a outra solicitacao.''"

definition legacy_record :: exc where
  "legacy_record = Exc WorkflowDispatchConflict
     ''Registro legado sem recibo atomico; investigue antes de executar.''"

definition start_job :: "memory_queue \<Rightarrow> start_request \<Rightarrow> workflow_job" where
  "start_job q r =
     \<lparr>wj_id = mq_sequence q + 1, wj_workflow_id = sr_workflow_id r,
      wj_project_id = sr_project_id r, wj_owner_client_id = sr_owner_client_id r,
      wj_kind = J_START, wj_payload = PDict (request_copy r), wj_attempt_count = 0,
      wj_max_attempts = mq_max_delivery_attempts q, wj_locked_by = None\<rparr>"

text \<open>The writes of an admission. No key is left: \<open>resolved\<close> is the workflow of the request.\<close>

definition mq_admit :: "string \<Rightarrow> start_request \<Rightarrow> memory_queue \<Rightarrow> memory_queue" where
  "mq_admit digest r q =
     (let w = sr_workflow_id r
      in q\<lparr>mq_sequence := mq_sequence q + 1,
           mq_start_receipts := AList.update w digest (mq_start_receipts q),
           mq_idempotency := (case request_key r of None \<Rightarrow> mq_idempotency q
              | Some k \<Rightarrow> AList.update k w (mq_idempotency q)),
           mq_access := AList.update w
              \<lparr>ac_workflow_id = w, ac_project_id = sr_project_id r,
               ac_owner_client_id = sr_owner_client_id r\<rparr> (mq_access q),
           mq_states := AList.update w
              \<lparr>js_workflow_id = w, js_status = JS_QUEUED, js_error = None\<rparr> (mq_states q),
           mq_work_orders :=
             (case as_dict (pget (request_copy r) ''work_order'') of
                None \<Rightarrow> mq_work_orders q
              | Some wo \<Rightarrow> AList.update w wo (mq_work_orders q)),
           mq_queued := mq_queued q @ [start_job q r]\<rparr>)"

definition mq_enqueue_start ::
  "((string, pyval) pydict \<Rightarrow> string) \<Rightarrow> start_request \<Rightarrow> memory_queue
   \<Rightarrow> string result \<times> memory_queue" where
  "mq_enqueue_start sha r q =
     (let digest = request_digest sha r;
          existing = (case request_key r of None \<Rightarrow> None | Some k \<Rightarrow> map_of (mq_idempotency q) k);
          resolved = or_str existing (sr_workflow_id r)
      in if sr_expected_dispatch_scope r \<noteq> None
            \<and> sr_expected_dispatch_scope r \<noteq> Some (mq_dispatch_scope q)
         then (Inl scope_replaced, q)
         else case map_of (mq_start_receipts q) resolved of
                Some receipt \<Rightarrow>
                  if receipt \<noteq> digest then (Inl other_request, q) else (Inr resolved, q)
              | None \<Rightarrow>
                  if existing \<noteq> None \<or> map_of (mq_access q) resolved \<noteq> None
                  then (Inl legacy_record, q)
                  else (Inr resolved, mq_admit digest r q))"

definition mq_claim_idempotency ::
  "string \<Rightarrow> string \<Rightarrow> string \<Rightarrow> string \<Rightarrow> memory_queue \<Rightarrow> (string \<times> bool) \<times> memory_queue" where
  "mq_claim_idempotency owner repository key workflow_id q =
     (let k = (owner, str_lower repository, key)
      in case map_of (mq_idempotency q) k of
           Some existing \<Rightarrow> ((existing, False), q)
         | None \<Rightarrow>
             ((workflow_id, True),
              q\<lparr>mq_idempotency := AList.update k workflow_id (mq_idempotency q)\<rparr>))"

text \<open>\<open>enqueue\<close>: the payload of a start keeps its work order.\<close>

definition mq_enqueue ::
  "string \<Rightarrow> string \<Rightarrow> string \<Rightarrow> job_kind \<Rightarrow> pyval \<Rightarrow> memory_queue \<Rightarrow> workflow_job \<times> memory_queue" where
  "mq_enqueue workflow_id project_id owner kind payload q =
     (let job = \<lparr>wj_id = mq_sequence q + 1, wj_workflow_id = workflow_id,
                 wj_project_id = project_id, wj_owner_client_id = owner, wj_kind = kind,
                 wj_payload = payload, wj_attempt_count = 0,
                 wj_max_attempts = mq_max_delivery_attempts q, wj_locked_by = None\<rparr>;
          order = (if kind = J_START then as_dict (dict_field payload ''work_order'') else None)
      in (job,
          q\<lparr>mq_sequence := mq_sequence q + 1,
            mq_access := AList.update workflow_id
              \<lparr>ac_workflow_id = workflow_id, ac_project_id = project_id,
               ac_owner_client_id = owner\<rparr> (mq_access q),
            mq_states := AList.update workflow_id
              \<lparr>js_workflow_id = workflow_id, js_status = JS_QUEUED, js_error = None\<rparr> (mq_states q),
            mq_work_orders := (case order of None \<Rightarrow> mq_work_orders q
              | Some wo \<Rightarrow> AList.update workflow_id wo (mq_work_orders q)),
            mq_queued := mq_queued q @ [job]\<rparr>))"

section \<open>Leases\<close>

definition lease_over :: "timestamp \<Rightarrow> memory_queue \<Rightarrow> workflow_job \<times> timestamp \<Rightarrow> bool" where
  "lease_over now q e \<longleftrightarrow> \<not> now - snd e < mq_lease_seconds q"

text \<open>One iteration of the loop of \<open>_requeue_expired_locked\<close>; the leases are dropped after it.\<close>

definition expire_one :: "string \<times> workflow_job \<times> timestamp \<Rightarrow> memory_queue \<Rightarrow> memory_queue" where
  "expire_one e q =
     (case e of (w, job, locked_at) \<Rightarrow>
        if wj_attempt_count job \<ge> wj_max_attempts job
        then q\<lparr>mq_states := AList.update w
                 \<lparr>js_workflow_id = w, js_status = JS_FAILED, js_error = Some lease_expired_error\<rparr>
                 (mq_states q),
               mq_failed_total := mq_failed_total q + 1\<rparr>
        else q\<lparr>mq_states := AList.update w
                 \<lparr>js_workflow_id = w, js_status = JS_QUEUED, js_error = Some lease_expired_error\<rparr>
                 (mq_states q),
               mq_queued := mq_queued q @ [job],
               mq_requeued_total := mq_requeued_total q + 1\<rparr>)"

definition mq_requeue_expired :: "timestamp \<Rightarrow> memory_queue \<Rightarrow> memory_queue" where
  "mq_requeue_expired now q =
     (let expired = filter (\<lambda>(w, e). lease_over now q e) (mq_processing q);
          q1 = foldl (\<lambda>q e. expire_one e q) q expired
      in q1\<lparr>mq_processing :=
              filter (\<lambda>(w, e). w \<notin> fst ` set expired) (mq_processing q1)\<rparr>)"

definition leased :: "string \<Rightarrow> workflow_job \<Rightarrow> workflow_job" where
  "leased worker_id job =
     job\<lparr>wj_attempt_count := wj_attempt_count job + 1, wj_locked_by := Some worker_id\<rparr>"

definition mq_lease :: "string \<Rightarrow> timestamp \<Rightarrow> workflow_job \<Rightarrow> memory_queue \<Rightarrow> memory_queue" where
  "mq_lease worker_id now job q =
     (let w = wj_workflow_id job
      in q\<lparr>mq_processing := AList.update w (leased worker_id job, now) (mq_processing q),
           mq_states := AList.update w
             \<lparr>js_workflow_id = w, js_status = JS_PROCESSING, js_error = None\<rparr> (mq_states q),
           mq_delivered_total := mq_delivered_total q + 1\<rparr>)"

text \<open>One round of \<open>dequeue\<close>: the clock when the leases are checked, when the job is leased and
  when the remaining time is computed, and what others do while this coroutine waits.\<close>

record poll_round =
  po_requeue :: timestamp
  po_lease :: timestamp
  po_remaining :: timestamp
  po_others :: "memory_queue \<Rightarrow> memory_queue"

primrec mq_dequeue ::
  "string \<Rightarrow> timestamp \<Rightarrow> poll_round list \<Rightarrow> memory_queue \<Rightarrow> workflow_job option \<times> memory_queue"
where
  "mq_dequeue worker_id deadline [] q = (None, q)"
| "mq_dequeue worker_id deadline (p # ps) q =
     (let q1 = mq_requeue_expired (po_requeue p) q
      in case mq_queued q1 of
           job # rest \<Rightarrow>
             (Some (leased worker_id job),
              mq_lease worker_id (po_lease p) job (q1\<lparr>mq_queued := rest\<rparr>))
         | [] \<Rightarrow>
             if deadline - po_remaining p \<le> 0 then (None, q1)
             else mq_dequeue worker_id deadline ps (po_others p q1))"

definition current_lease :: "memory_queue \<Rightarrow> workflow_job \<Rightarrow> (workflow_job \<times> timestamp) option" where
  "current_lease q job =
     (case map_of (mq_processing q) (wj_workflow_id job) of
        None \<Rightarrow> None
      | Some c \<Rightarrow> if wj_locked_by (fst c) \<noteq> wj_locked_by job then None else Some c)"

definition mq_heartbeat :: "timestamp \<Rightarrow> workflow_job \<Rightarrow> memory_queue \<Rightarrow> bool \<times> memory_queue" where
  "mq_heartbeat now job q =
     (case current_lease q job of
        None \<Rightarrow> (False, q)
      | Some c \<Rightarrow>
          (True, q\<lparr>mq_processing :=
                     AList.update (wj_workflow_id job) (fst c, now) (mq_processing q)\<rparr>))"

definition mq_acknowledge :: "timestamp \<Rightarrow> workflow_job \<Rightarrow> memory_queue \<Rightarrow> bool \<times> memory_queue" where
  "mq_acknowledge now job q =
     (case current_lease q job of
        None \<Rightarrow> (False, q)
      | Some c \<Rightarrow>
          (True, q\<lparr>mq_processing := AList.delete (wj_workflow_id job) (mq_processing q),
                   mq_states := AList.delete (wj_workflow_id job) (mq_states q),
                   mq_done_total := mq_done_total q + 1\<rparr>))"

definition mq_fail ::
  "timestamp \<Rightarrow> workflow_job \<Rightarrow> string \<Rightarrow> memory_queue \<Rightarrow> bool \<times> memory_queue" where
  "mq_fail now job error q =
     (case current_lease q job of
        None \<Rightarrow> (False, q)
      | Some c \<Rightarrow>
          (True, q\<lparr>mq_processing := AList.delete (wj_workflow_id job) (mq_processing q),
                   mq_states := AList.update (wj_workflow_id job)
                     \<lparr>js_workflow_id = wj_workflow_id job, js_status = JS_FAILED,
                      js_error = Some error\<rparr> (mq_states q),
                   mq_failed_total := mq_failed_total q + 1\<rparr>))"

definition mq_cancel :: "string \<Rightarrow> memory_queue \<Rightarrow> bool \<times> memory_queue" where
  "mq_cancel workflow_id q =
     (let queued = (\<exists>j\<in>set (mq_queued q). wj_workflow_id j = workflow_id);
          processing = map_of (mq_processing q) workflow_id \<noteq> None
      in if \<not> queued \<and> \<not> processing then (False, q)
         else (True, q\<lparr>mq_processing := AList.delete workflow_id (mq_processing q),
                       mq_queued := filter (\<lambda>j. wj_workflow_id j \<noteq> workflow_id) (mq_queued q),
                       mq_states := AList.update workflow_id
                         \<lparr>js_workflow_id = workflow_id, js_status = JS_FAILED,
                          js_error = Some workflow_cancelled_error\<rparr> (mq_states q),
                       mq_failed_total := mq_failed_total q + 1\<rparr>))"

section \<open>Workers and reports\<close>

definition mq_touch_worker :: "timestamp \<Rightarrow> string \<Rightarrow> memory_queue \<Rightarrow> memory_queue" where
  "mq_touch_worker now worker_id q =
     q\<lparr>mq_worker_heartbeats := AList.update worker_id now (mq_worker_heartbeats q),
       mq_worker_fingerprints :=
         AList.update worker_id (mq_deployment_fingerprint q) (mq_worker_fingerprints q)\<rparr>"

text \<open>\<open>now - max(lease * 2, 1.0)\<close>, in microseconds.\<close>

definition worker_cutoff :: "timestamp \<Rightarrow> timestamp \<Rightarrow> timestamp" where
  "worker_cutoff lease now = now - max (lease * 2) 1000000"

definition mq_installation_workers ::
  "timestamp \<Rightarrow> string option \<Rightarrow> memory_queue \<Rightarrow> (string, int) pydict" where
  "mq_installation_workers now fp q =
     (let ws = map (\<lambda>(k, b). case map_of (mq_worker_fingerprints q) k of
                       None \<Rightarrow> None | Some f \<Rightarrow> f)
                 (filter (\<lambda>(k, b). b \<ge> worker_cutoff (mq_lease_seconds q) now)
                   (mq_worker_heartbeats q));
          compatible = int (length (filter (\<lambda>v. v = fp \<and> v \<noteq> None) ws))
      in [(''active'', int (length ws)), (''compatible'', compatible),
          (''incompatible'', int (length ws) - compatible),
          (''legacy'', int (length (filter (\<lambda>v. v = None) ws)))])"

definition mq_list_workflows ::
  "string \<Rightarrow> string option \<Rightarrow> int \<Rightarrow> memory_queue \<Rightarrow> access_context list" where
  "mq_list_workflows owner project limit q =
     take (nat (max 0 limit))
       (filter (\<lambda>a. ac_owner_client_id a = owner
                    \<and> (project = None \<or> Some (ac_project_id a) = project))
         (rev (map snd (mq_access q))))"

definition mq_get_state :: "string \<Rightarrow> memory_queue \<Rightarrow> workflow_job_state option" where
  "mq_get_state w q = map_of (mq_states q) w"

definition mq_get_access :: "string \<Rightarrow> memory_queue \<Rightarrow> access_context option" where
  "mq_get_access w q = map_of (mq_access q) w"

definition mq_get_work_order :: "string \<Rightarrow> memory_queue \<Rightarrow> (string, pyval) pydict option" where
  "mq_get_work_order w q = map_of (mq_work_orders q) w"

definition mq_get_stats :: "timestamp \<Rightarrow> timestamp list \<Rightarrow> memory_queue \<Rightarrow> queue_stats" where
  "mq_get_stats now readings q =
     \<lparr>qs_backend = ''memory'', qs_queued = int (length (mq_queued q)),
      qs_processing = int (length (mq_processing q)),
      qs_failed = int (length (filter (\<lambda>(w, s). js_status s = JS_FAILED) (mq_states q))),
      qs_done = mq_done_total q, qs_delivered_total = mq_delivered_total q,
      qs_requeued_total = mq_requeued_total q, qs_failed_total = mq_failed_total q,
      qs_expired_processing =
        int (length (filter (\<lambda>(t, w, e). t - snd e \<ge> mq_lease_seconds q)
                       (zip readings (mq_processing q)))),
      qs_active_workers =
        int (length (filter (\<lambda>(k, b). b \<ge> worker_cutoff (mq_lease_seconds q) now)
                       (mq_worker_heartbeats q)))\<rparr>"

section \<open>The leases are fenced\<close>

definition mq_ok :: "memory_queue \<Rightarrow> bool" where
  "mq_ok q \<longleftrightarrow> distinct (map fst (mq_processing q))
     \<and> (\<forall>(w, j, t)\<in>set (mq_processing q). wj_workflow_id j = w \<and> wj_locked_by j \<noteq> None)"

definition mq_holder :: "memory_queue \<Rightarrow> workflow_job \<Rightarrow> string option" where
  "mq_holder q job =
     (case map_of (mq_processing q) (wj_workflow_id job) of
        None \<Rightarrow> None | Some c \<Rightarrow> wj_locked_by (fst c))"

definition same_workflow :: "workflow_job \<Rightarrow> workflow_job \<Rightarrow> bool" where
  "same_workflow j j' \<longleftrightarrow> wj_workflow_id j = wj_workflow_id j'"

lemma processing_leased:
  "mq_ok q \<Longrightarrow> map_of (mq_processing q) w = Some c \<Longrightarrow>
   wj_workflow_id (fst c) = w \<and> wj_locked_by (fst c) \<noteq> None"
  unfolding mq_ok_def by (auto dest!: map_of_SomeD)

lemma current_lease_None:
  "mq_ok q \<Longrightarrow> current_lease q j = None \<longleftrightarrow> \<not> (mq_holder q j \<noteq> None \<and> mq_holder q j = wj_locked_by j)"
  by (auto simp: current_lease_def mq_holder_def split: option.splits dest: processing_leased)

lemma current_lease_Some:
  "current_lease q j = Some c \<Longrightarrow>
   map_of (mq_processing q) (wj_workflow_id j) = Some c \<and> wj_locked_by (fst c) = wj_locked_by j"
  by (simp add: current_lease_def split: option.splits if_splits)

lemma fst_settlement:
  "fst (mq_heartbeat t j q) \<longleftrightarrow> current_lease q j \<noteq> None"
  "fst (mq_acknowledge t j q) \<longleftrightarrow> current_lease q j \<noteq> None"
  "fst (mq_fail t j e q) \<longleftrightarrow> current_lease q j \<noteq> None"
  by (simp_all add: mq_heartbeat_def mq_acknowledge_def mq_fail_def split: option.splits)

lemma mq_ok_update:
  "mq_ok q \<Longrightarrow> wj_workflow_id j = w \<Longrightarrow> wj_locked_by j \<noteq> None \<Longrightarrow>
   mq_ok (q\<lparr>mq_processing := AList.update w (j, t) (mq_processing q)\<rparr>)"
  using set_update_subset [of w "(j, t)" "mq_processing q"]
  unfolding mq_ok_def by (auto simp: distinct_update)

lemma mq_ok_delete:
  "mq_ok q \<Longrightarrow> mq_ok (q\<lparr>mq_processing := AList.delete w (mq_processing q)\<rparr>)"
  unfolding mq_ok_def by (auto simp: AList.delete_eq distinct_map_filter)

lemma mq_ok_cong: "mq_processing q' = mq_processing q \<Longrightarrow> mq_ok q' = mq_ok q"
  by (simp add: mq_ok_def)

lemma mq_ok_settlement:
  assumes "mq_ok q"
  shows "mq_ok (snd (mq_heartbeat t j q))" and "mq_ok (snd (mq_acknowledge t j q))"
    and "mq_ok (snd (mq_fail t j e q))"
proof -
  show "mq_ok (snd (mq_heartbeat t j q))"
    using assms by (auto simp: mq_heartbeat_def split: option.splits
        dest!: current_lease_Some intro!: mq_ok_update dest: processing_leased)
  show "mq_ok (snd (mq_acknowledge t j q))"
    using mq_ok_delete [OF assms] assms
    by (simp add: mq_acknowledge_def mq_ok_def split: option.splits)
  show "mq_ok (snd (mq_fail t j e q))"
    using mq_ok_delete [OF assms] assms by (simp add: mq_fail_def mq_ok_def split: option.splits)
qed

lemma holder_after:
  "mq_holder (snd (mq_heartbeat t j q)) j' = mq_holder q j'"
  "fst (mq_acknowledge t j q) \<Longrightarrow> mq_holder (snd (mq_acknowledge t j q)) j'
     = (if same_workflow j j' then None else mq_holder q j')"
  "fst (mq_fail t j e q) \<Longrightarrow> mq_holder (snd (mq_fail t j e q)) j'
     = (if same_workflow j j' then None else mq_holder q j')"
  by (auto simp: mq_heartbeat_def mq_acknowledge_def mq_fail_def mq_holder_def same_workflow_def
      delete_conv' split: option.splits dest!: current_lease_Some)

lemma holder_of_others:
  "\<not> same_workflow j j' \<Longrightarrow> mq_holder (snd (mq_acknowledge t j q)) j' = mq_holder q j'"
  "\<not> same_workflow j j' \<Longrightarrow> mq_holder (snd (mq_fail t j e q)) j' = mq_holder q j'"
  by (auto simp: mq_acknowledge_def mq_fail_def mq_holder_def same_workflow_def
      delete_conv' split: option.splits)

lemma refused_settlement:
  "\<not> fst (mq_acknowledge t j q) \<Longrightarrow> snd (mq_acknowledge t j q) = q"
  "\<not> fst (mq_fail t j e q) \<Longrightarrow> snd (mq_fail t j e q) = q"
  by (simp_all add: mq_acknowledge_def mq_fail_def split: option.splits)

lemma settlement_fenced:
  "mq_ok q \<Longrightarrow> fst (mq_heartbeat t j q) \<longleftrightarrow> mq_holder q j \<noteq> None \<and> mq_holder q j = wj_locked_by j"
  "mq_ok q \<Longrightarrow> fst (mq_acknowledge t j q) \<longleftrightarrow> mq_holder q j \<noteq> None \<and> mq_holder q j = wj_locked_by j"
  "mq_ok q \<Longrightarrow> fst (mq_fail t j e q) \<longleftrightarrow> mq_holder q j \<noteq> None \<and> mq_holder q j = wj_locked_by j"
  using current_lease_None [of q j] by (simp_all only: fst_settlement simp_thms)

lemma same_workflow_refl [simp]: "same_workflow j j"
  by (simp add: same_workflow_def)

interpretation mq: lease_queue mq_ok mq_holder same_workflow mq_heartbeat mq_acknowledge mq_fail
proof (unfold_locales, goal_cases)
  case (5 s t j) then show ?case by (rule settlement_fenced)
next
  case (6 s t j) then show ?case by (rule settlement_fenced)
next
  case (7 s t j e) then show ?case by (rule settlement_fenced)
qed (simp_all add: mq_ok_settlement holder_after holder_of_others refused_settlement)

section \<open>The accounts of the queue\<close>

text \<open>The live jobs: queued or leased.\<close>

definition leased_jobs :: "memory_queue \<Rightarrow> workflow_job list" where
  "leased_jobs q = map (\<lambda>e. fst (snd e)) (mq_processing q)"

definition live_jobs :: "memory_queue \<Rightarrow> workflow_job list" where
  "live_jobs q = mq_queued q @ leased_jobs q"

definition is_live :: "memory_queue \<Rightarrow> string \<Rightarrow> bool" where
  "is_live q w \<longleftrightarrow> w \<in> wj_workflow_id ` set (live_jobs q)"

definition queued_ok :: "memory_queue \<Rightarrow> workflow_job \<Rightarrow> bool" where
  "queued_ok q j \<longleftrightarrow> 0 \<le> wj_attempt_count j \<and> wj_attempt_count j < wj_max_attempts j
     \<and> (\<exists>e. map_of (mq_states q) (wj_workflow_id j)
            = Some \<lparr>js_workflow_id = wj_workflow_id j, js_status = JS_QUEUED, js_error = e\<rparr>)"

definition processing_ok :: "memory_queue \<Rightarrow> workflow_job \<Rightarrow> bool" where
  "processing_ok q j \<longleftrightarrow> 0 < wj_attempt_count j \<and> wj_attempt_count j \<le> wj_max_attempts j
     \<and> map_of (mq_states q) (wj_workflow_id j)
       = Some \<lparr>js_workflow_id = wj_workflow_id j, js_status = JS_PROCESSING, js_error = None\<rparr>"

text \<open>Every accepted job is queued, leased, done or failed, exactly once; no workflow has two live
  jobs; no job is delivered more often than it may be; the recorded states are the truth; and
  every live workflow has an access record, so that it cannot be started again.\<close>

definition mq_accounts :: "memory_queue \<Rightarrow> bool" where
  "mq_accounts q \<longleftrightarrow> mq_ok q \<and> 0 < mq_max_delivery_attempts q \<and> 0 \<le> mq_sequence q
     \<and> distinct (map wj_workflow_id (live_jobs q))
     \<and> distinct (map wj_id (live_jobs q))
     \<and> (\<forall>j\<in>set (live_jobs q). 0 < wj_id j \<and> wj_id j \<le> mq_sequence q
          \<and> wj_max_attempts j = mq_max_delivery_attempts q
          \<and> map_of (mq_access q) (wj_workflow_id j) \<noteq> None)
     \<and> (\<forall>j\<in>set (mq_queued q). queued_ok q j)
     \<and> (\<forall>j\<in>set (leased_jobs q). processing_ok q j)
     \<and> int (length (mq_queued q)) + int (length (mq_processing q))
         + mq_done_total q + mq_failed_total q = mq_sequence q"

subsection \<open>Expiry in closed form\<close>

definition exhausted :: "string \<times> workflow_job \<times> timestamp \<Rightarrow> bool" where
  "exhausted e \<longleftrightarrow> wj_attempt_count (fst (snd e)) \<ge> wj_max_attempts (fst (snd e))"

definition expired_state :: "string \<times> workflow_job \<times> timestamp \<Rightarrow> workflow_job_state" where
  "expired_state e =
     \<lparr>js_workflow_id = fst e, js_status = (if exhausted e then JS_FAILED else JS_QUEUED),
      js_error = Some lease_expired_error\<rparr>"

definition expired_entries ::
  "timestamp \<Rightarrow> memory_queue \<Rightarrow> (string \<times> workflow_job \<times> timestamp) list" where
  "expired_entries now q = filter (\<lambda>e. lease_over now q (snd e)) (mq_processing q)"

lemma foldl_expire:
  "foldl (\<lambda>q e. expire_one e q) q es =
     q\<lparr>mq_states := foldl (\<lambda>d e. AList.update (fst e) (expired_state e) d) (mq_states q) es,
       mq_failed_total := mq_failed_total q + int (length (filter exhausted es)),
       mq_queued := mq_queued q @ map (\<lambda>e. fst (snd e)) (filter (\<lambda>e. \<not> exhausted e) es),
       mq_requeued_total := mq_requeued_total q + int (length (filter (\<lambda>e. \<not> exhausted e) es))\<rparr>"
proof (induction es arbitrary: q)
  case (Cons e es)
  have one: "expire_one e q =
      (if exhausted e
       then q\<lparr>mq_states := AList.update (fst e) (expired_state e) (mq_states q),
              mq_failed_total := mq_failed_total q + 1\<rparr>
       else q\<lparr>mq_states := AList.update (fst e) (expired_state e) (mq_states q),
              mq_queued := mq_queued q @ [fst (snd e)],
              mq_requeued_total := mq_requeued_total q + 1\<rparr>)" for q
    by (simp add: expire_one_def expired_state_def exhausted_def split: prod.splits)
  show ?case by (simp add: Cons.IH one)
qed simp

lemma requeue_expired_eq:
  assumes "mq_ok q"
  shows "mq_requeue_expired now q =
     q\<lparr>mq_states := foldl (\<lambda>d e. AList.update (fst e) (expired_state e) d) (mq_states q)
                     (expired_entries now q),
       mq_failed_total := mq_failed_total q
         + int (length (filter exhausted (expired_entries now q))),
       mq_queued := mq_queued q
         @ map (\<lambda>e. fst (snd e)) (filter (\<lambda>e. \<not> exhausted e) (expired_entries now q)),
       mq_requeued_total := mq_requeued_total q
         + int (length (filter (\<lambda>e. \<not> exhausted e) (expired_entries now q))),
       mq_processing := filter (\<lambda>e. \<not> lease_over now q (snd e)) (mq_processing q)\<rparr>"
proof -
  have d: "distinct (map fst (mq_processing q))" using assms by (simp add: mq_ok_def)
  have "e \<in> set (mq_processing q) \<Longrightarrow>
        fst e \<in> fst ` set (expired_entries now q) \<longleftrightarrow> lease_over now q (snd e)" for e
    using inj_on_image_mem_iff [of fst "set (mq_processing q)" e "set (expired_entries now q)"] d
    by (simp add: expired_entries_def distinct_map)
  then have "filter (\<lambda>(w, e). w \<notin> fst ` set (expired_entries now q)) (mq_processing q)
             = filter (\<lambda>e. \<not> lease_over now q (snd e)) (mq_processing q)"
    by (intro filter_cong) (auto simp: split_beta)
  then show ?thesis
    by (simp add: mq_requeue_expired_def foldl_expire Let_def expired_entries_def split_beta')
qed

lemma expired_states_other:
  "w \<notin> fst ` set es \<Longrightarrow>
   map_of (foldl (\<lambda>d e. AList.update (fst e) (expired_state e) d) d es) w = map_of d w"
  by (induction es arbitrary: d) simp_all

lemma expired_states_of:
  "distinct (map fst es) \<Longrightarrow> e \<in> set es \<Longrightarrow>
   map_of (foldl (\<lambda>d e. AList.update (fst e) (expired_state e) d) d es) (fst e)
     = Some (expired_state e)"
  by (induction es arbitrary: d) (auto simp: expired_states_other)

subsection \<open>What keeps the accounts\<close>

definition job_key :: "workflow_job \<Rightarrow> int \<times> string \<times> int" where
  "job_key j = (wj_id j, wj_workflow_id j, wj_max_attempts j)"

lemma distinct_of_mset: "mset (xs @ ys) = mset zs \<Longrightarrow> distinct zs \<Longrightarrow> distinct xs"
  by (metis distinct_append mset_eq_imp_distinct_iff)

lemma length_live: "length (live_jobs q) = length (mq_queued q) + length (mq_processing q)"
  by (simp add: live_jobs_def leased_jobs_def)

text \<open>Jobs move between the two places or end, and keep their keys.\<close>

lemma accounts_shrink:
  assumes acc: "mq_accounts q" and ok: "mq_ok q'"
    and keys: "mset (map job_key (live_jobs q' @ gone)) = mset (map job_key (live_jobs q))"
    and same: "mq_sequence q' = mq_sequence q" "mq_access q' = mq_access q"
      "mq_max_delivery_attempts q' = mq_max_delivery_attempts q"
    and qs: "\<And>j. j \<in> set (mq_queued q') \<Longrightarrow> queued_ok q' j"
    and ls: "\<And>j. j \<in> set (leased_jobs q') \<Longrightarrow> processing_ok q' j"
    and ends: "mq_done_total q' + mq_failed_total q'
                 = mq_done_total q + mq_failed_total q + int (length gone)"
  shows "mq_accounts q'"
proof -
  have proj: "mset (map (g \<circ> job_key) (live_jobs q') @ map (g \<circ> job_key) gone)
              = mset (map (g \<circ> job_key) (live_jobs q))" for g :: "int \<times> string \<times> int \<Rightarrow> 'a"
    using arg_cong [OF keys, of "image_mset g"] by (simp add: multiset.map_comp)
  have f: "fst \<circ> job_key = wj_id" "(\<lambda>k. fst (snd k)) \<circ> job_key = wj_workflow_id"
    by (simp_all add: fun_eq_iff job_key_def)
  have "distinct (map wj_workflow_id (live_jobs q'))"
    by (rule distinct_of_mset [OF proj [of "\<lambda>k. fst (snd k)", unfolded f]])
       (use acc in \<open>simp add: mq_accounts_def\<close>)
  moreover have "distinct (map wj_id (live_jobs q'))"
    by (rule distinct_of_mset [OF proj [of fst, unfolded f]])
       (use acc in \<open>simp add: mq_accounts_def\<close>)
  moreover have "\<exists>j'\<in>set (live_jobs q). job_key j' = job_key j" if "j \<in> set (live_jobs q')" for j
  proof -
    have "job_key j \<in> set (map job_key (live_jobs q))"
      using that mset_eq_setD [OF keys] by auto
    then show ?thesis by auto
  qed
  then have "\<forall>j\<in>set (live_jobs q'). 0 < wj_id j \<and> wj_id j \<le> mq_sequence q
      \<and> wj_max_attempts j = mq_max_delivery_attempts q
      \<and> map_of (mq_access q) (wj_workflow_id j) \<noteq> None"
    using acc by (fastforce simp: mq_accounts_def job_key_def)
  moreover have "length (live_jobs q') + length gone = length (live_jobs q)"
    using arg_cong [OF keys, of size] by simp
  ultimately show ?thesis
    using acc ok same qs ls ends length_live [of q] length_live [of q']
    by (simp add: mq_accounts_def)
qed

lemma queued_ok_cong:
  "queued_ok q j \<Longrightarrow> map_of (mq_states q') (wj_workflow_id j) = map_of (mq_states q) (wj_workflow_id j)
   \<Longrightarrow> queued_ok q' j"
  by (simp add: queued_ok_def)

lemma processing_ok_cong:
  "processing_ok q j \<Longrightarrow>
   map_of (mq_states q') (wj_workflow_id j) = map_of (mq_states q) (wj_workflow_id j) \<Longrightarrow>
   processing_ok q' j"
  by (simp add: processing_ok_def)

text \<open>Nothing of the accounts changes.\<close>

lemma accounts_frame:
  assumes "mq_accounts q" and "mq_ok q'" and "leased_jobs q' = leased_jobs q"
    and "mq_queued q' = mq_queued q" "mq_states q' = mq_states q" "mq_access q' = mq_access q"
      "mq_sequence q' = mq_sequence q" "mq_done_total q' = mq_done_total q"
      "mq_failed_total q' = mq_failed_total q"
      "mq_max_delivery_attempts q' = mq_max_delivery_attempts q"
  shows "mq_accounts q'"
  by (rule accounts_shrink [OF assms(1,2), where gone = "[]"])
     (use assms in \<open>auto simp: live_jobs_def mq_accounts_def intro: queued_ok_cong processing_ok_cong\<close>)

text \<open>A workflow's one live job ends.\<close>

lemma leased_delete:
  assumes "mq_ok q"
  shows "map (\<lambda>e. fst (snd e)) (AList.delete w (mq_processing q))
         = filter (\<lambda>j. wj_workflow_id j \<noteq> w) (leased_jobs q)"
proof -
  have "AList.delete w (mq_processing q)
        = filter (\<lambda>e. wj_workflow_id (fst (snd e)) \<noteq> w) (mq_processing q)"
    unfolding AList.delete_eq using assms by (intro filter_cong) (auto simp: mq_ok_def)
  then show ?thesis by (simp add: leased_jobs_def filter_map comp_def)
qed

lemma filter_unique:
  "distinct (map f xs) \<Longrightarrow> x \<in> set xs \<Longrightarrow> filter (\<lambda>y. f y = f x) xs = [x]"
  by (induction xs) (auto simp: filter_empty_conv, metis image_eqI)

lemma accounts_places:
  "mq_accounts q \<Longrightarrow> j \<in> set (mq_queued q) \<Longrightarrow> queued_ok q j"
  "mq_accounts q \<Longrightarrow> j \<in> set (leased_jobs q) \<Longrightarrow> processing_ok q j"
  by (simp_all add: mq_accounts_def)

lemma accounts_drop:
  assumes acc: "mq_accounts q" and live: "is_live q w"
    and moved: "mq_queued q' = filter (\<lambda>j. wj_workflow_id j \<noteq> w) (mq_queued q)"
      "mq_processing q' = AList.delete w (mq_processing q)"
    and same: "mq_sequence q' = mq_sequence q" "mq_access q' = mq_access q"
      "mq_max_delivery_attempts q' = mq_max_delivery_attempts q"
    and st: "\<And>v. v \<noteq> w \<Longrightarrow> map_of (mq_states q') v = map_of (mq_states q) v"
    and ends: "mq_done_total q' + mq_failed_total q' = mq_done_total q + mq_failed_total q + 1"
  shows "mq_accounts q'"
proof -
  let ?gone = "filter (\<lambda>j. wj_workflow_id j = w) (live_jobs q)"
  have ok: "mq_ok q" using acc by (simp add: mq_accounts_def)
  have leased: "leased_jobs q' = filter (\<lambda>j. wj_workflow_id j \<noteq> w) (leased_jobs q)"
    using leased_delete [OF ok] moved(2) by (simp add: leased_jobs_def)
  have live': "live_jobs q' = filter (\<lambda>j. wj_workflow_id j \<noteq> w) (live_jobs q)"
    by (simp add: live_jobs_def leased moved(1))
  obtain x where x: "x \<in> set (live_jobs q)" "w = wj_workflow_id x"
    using live by (auto simp: is_live_def)
  have "?gone = [x]"
    using acc x(1) unfolding x(2) by (intro filter_unique) (simp_all add: mq_accounts_def)
  then have one: "int (length ?gone) = 1" by simp
  have keys: "mset (map job_key (live_jobs q' @ ?gone)) = mset (map job_key (live_jobs q))"
  proof -
    have "mset (live_jobs q' @ ?gone) = mset (live_jobs q)"
      using multiset_partition [of "mset (live_jobs q)" "\<lambda>j. wj_workflow_id j \<noteq> w"]
      by (simp add: live')
    then show ?thesis by (metis mset_map)
  qed
  have ok': "mq_ok q'"
    using mq_ok_delete [OF ok, of w] moved(2) by (simp add: mq_ok_def)
  show ?thesis
  proof (rule accounts_shrink [OF acc ok' keys same])
    show "queued_ok q' j" if "j \<in> set (mq_queued q')" for j
      using that by (intro queued_ok_cong [OF accounts_places(1) [OF acc] st]) (simp_all add: moved(1))
    show "processing_ok q' j" if "j \<in> set (leased_jobs q')" for j
      using that by (intro processing_ok_cong [OF accounts_places(2) [OF acc] st]) (simp_all add: leased)
  qed (use ends one in simp)
qed

subsection \<open>The operations keep the accounts\<close>

lemma accounts_expire:
  assumes acc: "mq_accounts q"
  shows "mq_accounts (mq_requeue_expired now q)"
proof -
  let ?q = "mq_requeue_expired now q" and ?es = "expired_entries now q"
  let ?job = "\<lambda>e. fst (snd e)"
  have ok: "mq_ok q" using acc by (simp add: mq_accounts_def)
  note eq = requeue_expired_eq [OF ok, of now]
  have d: "distinct (map fst (mq_processing q))" using ok by (simp add: mq_ok_def)
  then have des: "distinct (map fst ?es)" by (simp add: expired_entries_def distinct_map_filter)
  have wf: "wj_workflow_id (?job e) = fst e" if "e \<in> set (mq_processing q)" for e
    using ok that by (auto simp: mq_ok_def)
  have ok': "mq_ok ?q" using ok by (auto simp: eq mq_ok_def distinct_map_filter)
  have leased: "leased_jobs ?q = map ?job (filter (\<lambda>e. \<not> lease_over now q (snd e)) (mq_processing q))"
    by (simp add: eq leased_jobs_def)
  have queued: "mq_queued ?q = mq_queued q @ map ?job (filter (\<lambda>e. \<not> exhausted e) ?es)"
    by (simp add: eq)
  have elsewhere: "map_of (mq_states ?q) w = map_of (mq_states q) w" if "w \<notin> fst ` set ?es" for w
    using that by (simp add: eq expired_states_other)
  have dw: "distinct (map wj_workflow_id (mq_queued q) @ map fst (mq_processing q))"
  proof -
    have "map wj_workflow_id (leased_jobs q) = map fst (mq_processing q)"
      using wf by (simp add: leased_jobs_def)
    then show ?thesis using acc by (simp add: mq_accounts_def live_jobs_def)
  qed
  show ?thesis
  proof (rule accounts_shrink [OF acc ok', where gone = "map ?job (filter exhausted ?es)"])
    show "mset (map job_key (live_jobs ?q @ map ?job (filter exhausted ?es)))
          = mset (map job_key (live_jobs q))"
    proof -
      let ?kept = "filter (\<lambda>e. \<not> lease_over now q (snd e)) (mq_processing q)"
      have "mset ?es = mset (filter exhausted ?es) + mset (filter (\<lambda>e. \<not> exhausted e) ?es)"
        using multiset_partition [of "mset ?es" exhausted] by simp
      moreover have "mset (mq_processing q) = mset ?es + mset ?kept"
        using multiset_partition [of "mset (mq_processing q)" "\<lambda>e. lease_over now q (snd e)"]
        by (simp add: expired_entries_def)
      ultimately have "image_mset ?job (mset (mq_processing q))
          = image_mset ?job (mset (filter exhausted ?es))
            + image_mset ?job (mset (filter (\<lambda>e. \<not> exhausted e) ?es))
            + image_mset ?job (mset ?kept)"
        by (simp only: image_mset_union)
      then have "mset (live_jobs ?q @ map ?job (filter exhausted ?es)) = mset (live_jobs q)"
        unfolding live_jobs_def leased queued leased_jobs_def [of q]
        by (simp only: mset_append mset_map ac_simps)
      then show ?thesis by (metis mset_map)
    qed
    show "queued_ok ?q j" if "j \<in> set (mq_queued ?q)" for j
      using that unfolding queued set_append
    proof (elim UnE)
      assume j: "j \<in> set (mq_queued q)"
      then have "wj_workflow_id j \<notin> fst ` set ?es"
        using dw by (auto simp: expired_entries_def)
      then show ?thesis
        by (intro queued_ok_cong [OF accounts_places(1) [OF acc j] elsewhere])
    next
      assume "j \<in> set (map ?job (filter (\<lambda>e. \<not> exhausted e) ?es))"
      then obtain e where e: "e \<in> set ?es" "\<not> exhausted e" "j = ?job e" by auto
      then have p: "e \<in> set (mq_processing q)" by (simp add: expired_entries_def)
      then have "processing_ok q j"
        using accounts_places(2) [OF acc] e(3) by (simp add: leased_jobs_def)
      moreover have "map_of (mq_states ?q) (fst e) = Some (expired_state e)"
        using expired_states_of [OF des e(1)] by (simp add: eq)
      ultimately show ?thesis
        using e(2,3) wf [OF p]
        by (simp add: queued_ok_def processing_ok_def exhausted_def expired_state_def)
    qed
    show "processing_ok ?q j" if j: "j \<in> set (leased_jobs ?q)" for j
    proof -
      obtain e where e: "e \<in> set (mq_processing q)" "\<not> lease_over now q (snd e)" "j = ?job e"
        using j unfolding leased set_map set_filter by (elim imageE CollectE conjE)
      have "fst e \<notin> fst ` set ?es"
        using inj_on_image_mem_iff [of fst "set (mq_processing q)" e "set ?es"] d e(1,2)
        by (simp add: expired_entries_def distinct_map)
      moreover have "processing_ok q j"
        using e accounts_places(2) [OF acc] by (simp add: leased_jobs_def)
      ultimately show ?thesis
        using processing_ok_cong [of q j ?q] elsewhere wf [OF e(1)] e(3) by simp
    qed
  qed (simp_all add: eq)
qed

lemma leased_workflows: "mq_ok q \<Longrightarrow> map wj_workflow_id (leased_jobs q) = map fst (mq_processing q)"
  by (auto simp: leased_jobs_def mq_ok_def)

lemma update_fresh: "k \<notin> set (map fst d) \<Longrightarrow> AList.update k v d = d @ [(k, v)]"
  by (induction d) auto

lemma job_key_leased [simp]: "job_key (leased w j) = job_key j"
  by (simp add: job_key_def leased_def)

lemma accounts_lease:
  assumes acc: "mq_accounts q" and q: "mq_queued q = job # rest"
  shows "mq_accounts (mq_lease worker now job (q\<lparr>mq_queued := rest\<rparr>))"
proof -
  let ?q = "mq_lease worker now job (q\<lparr>mq_queued := rest\<rparr>)" and ?w = "wj_workflow_id job"
  have ok: "mq_ok q" using acc by (simp add: mq_accounts_def)
  have "distinct (map wj_workflow_id (live_jobs q))" using acc by (simp add: mq_accounts_def)
  then have d: "distinct (?w # map wj_workflow_id rest @ map fst (mq_processing q))"
    by (simp add: live_jobs_def q flip: leased_workflows [OF ok])
  then have proc: "mq_processing ?q = mq_processing q @ [(?w, leased worker job, now)]"
    by (simp add: mq_lease_def Let_def update_fresh)
  then have leased: "leased_jobs ?q = leased_jobs q @ [leased worker job]"
    by (simp add: leased_jobs_def)
  have queued: "mq_queued ?q = rest" by (simp add: mq_lease_def Let_def)
  have lw: "set (map wj_workflow_id (leased_jobs q)) = set (map fst (mq_processing q))"
    by (simp only: leased_workflows [OF ok])
  have elsewhere: "v \<noteq> ?w \<Longrightarrow> map_of (mq_states ?q) v = map_of (mq_states q) v" for v
    by (simp add: mq_lease_def Let_def)
  have qj: "queued_ok q job" by (rule accounts_places(1) [OF acc]) (simp add: q)
  have ok': "mq_ok ?q" using ok d unfolding mq_ok_def proc by (auto simp: leased_def)
  show ?thesis
  proof (rule accounts_shrink [OF acc ok', where gone = "[]"])
    show "queued_ok ?q j" if j: "j \<in> set (mq_queued ?q)" for j
    proof -
      have "wj_workflow_id j \<in> set (map wj_workflow_id rest)" using j by (simp add: queued)
      moreover have "?w \<notin> set (map wj_workflow_id rest)" using d by simp
      ultimately have "wj_workflow_id j \<noteq> ?w" by metis
      then show ?thesis
        using j by (intro queued_ok_cong [OF accounts_places(1) [OF acc] elsewhere])
          (simp_all add: queued q)
    qed
    show "processing_ok ?q j" if "j \<in> set (leased_jobs ?q)" for j
      using that unfolding leased set_append
    proof (elim UnE)
      assume j: "j \<in> set (leased_jobs q)"
      then have "wj_workflow_id j \<in> set (map fst (mq_processing q))" using lw by auto
      moreover have "?w \<notin> set (map fst (mq_processing q))" using d by simp
      ultimately have "wj_workflow_id j \<noteq> ?w" by metis
      then show ?thesis by (rule processing_ok_cong [OF accounts_places(2) [OF acc j] elsewhere])
    next
      assume "j \<in> set [leased worker job]"
      then show ?thesis
        using qj by (simp add: processing_ok_def queued_ok_def leased_def mq_lease_def Let_def)
    qed
  qed (simp_all add: live_jobs_def queued leased q, simp_all add: mq_lease_def Let_def)
qed

lemma accounts_poll: "mq_accounts q \<Longrightarrow>
    (\<And>p q. p \<in> set ps \<Longrightarrow> mq_accounts q \<Longrightarrow> mq_accounts (po_others p q)) \<Longrightarrow>
    mq_accounts (snd (mq_dequeue worker deadline ps q))"
proof (induction ps arbitrary: q)
  case (Cons p ps)
  have e: "mq_accounts (mq_requeue_expired (po_requeue p) q)"
    by (rule accounts_expire [OF Cons.prems(1)])
  show ?case
  proof (cases "mq_queued (mq_requeue_expired (po_requeue p) q)")
    case Nil
    have "mq_accounts (snd (mq_dequeue worker deadline ps
            (po_others p (mq_requeue_expired (po_requeue p) q))))"
      by (rule Cons.IH) (simp_all add: e Cons.prems(2))
    then show ?thesis using Nil e by (simp add: Let_def)
  next
    case (Cons job rest)
    then show ?thesis using accounts_lease [OF e Cons] by (simp add: Let_def)
  qed
qed simp

lemma accounts_add:
  assumes acc: "mq_accounts q" and idle: "\<not> is_live q w"
    and job: "wj_id job = mq_sequence q + 1" "wj_workflow_id job = w" "wj_attempt_count job = 0"
      "wj_max_attempts job = mq_max_delivery_attempts q"
    and q': "mq_queued q' = mq_queued q @ [job]" "mq_processing q' = mq_processing q"
      "mq_sequence q' = mq_sequence q + 1" "mq_access q' = AList.update w a (mq_access q)"
      "mq_states q' = AList.update w \<lparr>js_workflow_id = w, js_status = JS_QUEUED, js_error = None\<rparr>
         (mq_states q)"
      "mq_max_delivery_attempts q' = mq_max_delivery_attempts q"
      "mq_done_total q' = mq_done_total q" "mq_failed_total q' = mq_failed_total q"
  shows "mq_accounts q'"
proof -
  have leased: "leased_jobs q' = leased_jobs q" by (simp add: leased_jobs_def q')
  have set_live: "set (live_jobs q') = insert job (set (live_jobs q))"
    by (auto simp: live_jobs_def leased q')
  have live: "mset (live_jobs q') = mset (job # live_jobs q)"
    by (simp add: live_jobs_def leased q')
  have not_w: "wj_workflow_id j \<noteq> w" if "j \<in> set (live_jobs q)" for j
    using idle that by (auto simp: is_live_def)
  have ids: "\<forall>j\<in>set (live_jobs q). 0 < wj_id j \<and> wj_id j \<le> mq_sequence q
      \<and> wj_max_attempts j = mq_max_delivery_attempts q
      \<and> map_of (mq_access q) (wj_workflow_id j) \<noteq> None"
    using acc unfolding mq_accounts_def by blast
  have seq: "0 \<le> mq_sequence q" using acc by (simp add: mq_accounts_def)
  have "mq_ok q'" using acc q'(2) by (simp add: mq_accounts_def mq_ok_def)
  moreover have "distinct (map wj_workflow_id (live_jobs q'))"
    using acc idle mset_eq_imp_distinct_iff [of "map wj_workflow_id (live_jobs q')" "map wj_workflow_id (job # live_jobs q)"]
    by (simp add: mq_accounts_def live is_live_def job(2) del: mset_append)
  moreover have "distinct (map wj_id (live_jobs q'))"
    using acc ids mset_eq_imp_distinct_iff [of "map wj_id (live_jobs q')" "map wj_id (job # live_jobs q)"]
    by (force simp: mq_accounts_def live job(1))
  moreover have "\<forall>j\<in>set (live_jobs q'). 0 < wj_id j \<and> wj_id j \<le> mq_sequence q'
      \<and> wj_max_attempts j = mq_max_delivery_attempts q'
      \<and> map_of (mq_access q') (wj_workflow_id j) \<noteq> None"
    using ids seq unfolding set_live by (simp add: q' job) fastforce
  moreover have "\<forall>j\<in>set (mq_queued q'). queued_ok q' j"
  proof
    fix j assume "j \<in> set (mq_queued q')"
    then consider "j \<in> set (mq_queued q)" | "j = job" by (auto simp: q')
    then show "queued_ok q' j"
    proof cases
      case 1
      then have "wj_workflow_id j \<noteq> w" using not_w by (simp add: live_jobs_def)
      then show ?thesis
        by (intro queued_ok_cong [OF accounts_places(1) [OF acc 1]]) (simp add: q')
    qed (use acc in \<open>simp add: queued_ok_def job q' mq_accounts_def\<close>)
  qed
  moreover have "\<forall>j\<in>set (leased_jobs q'). processing_ok q' j"
  proof
    fix j assume "j \<in> set (leased_jobs q')"
    then have j: "j \<in> set (leased_jobs q)" by (simp add: leased)
    then have "wj_workflow_id j \<noteq> w" using not_w by (simp add: live_jobs_def)
    then show "processing_ok q' j"
      by (intro processing_ok_cong [OF accounts_places(2) [OF acc j]]) (simp add: q')
  qed
  moreover have "int (length (mq_queued q')) + int (length (mq_processing q'))
                 + mq_done_total q' + mq_failed_total q' = mq_sequence q'"
    using acc by (simp add: mq_accounts_def q')
  moreover have "0 < mq_max_delivery_attempts q' \<and> 0 \<le> mq_sequence q'"
    using acc seq unfolding mq_accounts_def q' by linarith
  ultimately show ?thesis unfolding mq_accounts_def by blast
qed

lemma accounts_start: "mq_accounts q \<Longrightarrow> mq_accounts (snd (mq_enqueue_start sha r q))"
proof -
  assume acc: "mq_accounts q"
  have admit: "mq_accounts (mq_admit d r q)"
    if "map_of (mq_access q) (sr_workflow_id r) = None" for d
  proof (rule accounts_add [OF acc, of "sr_workflow_id r" "start_job q r"])
    show "\<not> is_live q (sr_workflow_id r)"
      using acc that by (auto simp: is_live_def mq_accounts_def)
  qed (simp_all add: start_job_def mq_admit_def Let_def)
  show ?thesis
    using acc admit
    by (auto simp: mq_enqueue_start_def Let_def or_str_def split: option.splits if_splits)
qed

lemma accounts_enqueue:
  assumes "mq_accounts q" and "\<not> is_live q w"
  shows "mq_accounts (snd (mq_enqueue w pr ow kind payload q))"
  by (rule accounts_add [OF assms, where job = "fst (mq_enqueue w pr ow kind payload q)"])
     (simp_all add: mq_enqueue_def Let_def)

lemma accounts_heartbeat: "mq_accounts q \<Longrightarrow> mq_accounts (snd (mq_heartbeat t j q))"
proof -
  assume acc: "mq_accounts q"
  then have ok: "mq_ok q" by (simp add: mq_accounts_def)
  have same: "map_of d w = Some (c, t0) \<Longrightarrow>
      map (\<lambda>e. fst (snd e)) (AList.update w (c, t) d) = map (\<lambda>e. fst (snd e)) d"
    for d :: "(string, workflow_job \<times> timestamp) pydict" and w c t0
    by (induction d) (auto split: if_splits)
  show ?thesis
    by (rule accounts_frame [OF acc])
       (simp_all add: mq_ok_settlement(1) [OF ok],
        auto simp: mq_heartbeat_def leased_jobs_def same split: option.splits
          dest!: current_lease_Some)
qed

lemma leased_alone:
  assumes acc: "mq_accounts q" and c: "map_of (mq_processing q) w = Some c"
  shows "is_live q w" and "filter (\<lambda>j. wj_workflow_id j \<noteq> w) (mq_queued q) = mq_queued q"
proof -
  have ok: "mq_ok q" using acc by (simp add: mq_accounts_def)
  have w: "w \<in> wj_workflow_id ` set (leased_jobs q)"
    using c leased_workflows [OF ok] by (metis list.set_map map_of_eq_None_iff option.distinct(1))
  then show "is_live q w" by (auto simp: is_live_def live_jobs_def)
  have "distinct (map wj_workflow_id (live_jobs q))" using acc by (simp add: mq_accounts_def)
  then have "w \<notin> wj_workflow_id ` set (mq_queued q)" using w by (auto simp: live_jobs_def)
  then show "filter (\<lambda>j. wj_workflow_id j \<noteq> w) (mq_queued q) = mq_queued q"
    by (intro filter_True) auto
qed

lemma accounts_settle:
  assumes acc: "mq_accounts q"
  shows "mq_accounts (snd (mq_acknowledge t j q))" and "mq_accounts (snd (mq_fail t j e q))"
proof -
  note alone = leased_alone [OF acc]
  show "mq_accounts (snd (mq_acknowledge t j q))"
  proof (cases "current_lease q j")
    case (Some c)
    note lease = conjunct1 [OF current_lease_Some [OF Some]]
    show ?thesis
      by (rule accounts_drop [OF acc alone(1) [OF lease]])
         (simp_all add: mq_acknowledge_def Some alone(2) [OF lease])
  qed (simp add: mq_acknowledge_def acc)
  show "mq_accounts (snd (mq_fail t j e q))"
  proof (cases "current_lease q j")
    case (Some c)
    note lease = conjunct1 [OF current_lease_Some [OF Some]]
    show ?thesis
      by (rule accounts_drop [OF acc alone(1) [OF lease]])
         (simp_all add: mq_fail_def Some alone(2) [OF lease])
  qed (simp add: mq_fail_def acc)
qed

lemma accounts_cancel: "mq_accounts q \<Longrightarrow> mq_accounts (snd (mq_cancel w q))"
proof -
  assume acc: "mq_accounts q"
  show ?thesis
  proof (cases "(\<exists>j\<in>set (mq_queued q). wj_workflow_id j = w) \<or> map_of (mq_processing q) w \<noteq> None")
    case True
    have live: "is_live q w"
      using True leased_alone(1) [OF acc, of w] by (auto simp: is_live_def live_jobs_def)
    show ?thesis
      using True by (intro accounts_drop [OF acc live]) (auto simp: mq_cancel_def Let_def)
  next
    case False
    then show ?thesis using acc by (auto simp: mq_cancel_def Let_def)
  qed
qed

section \<open>The queue as a state machine\<close>

text \<open>The steps of the coroutines that share the queue. A resume is enqueued for a workflow that
  has no live job; a \<open>dequeue\<close> is the sequence of its rounds.\<close>

inductive mq_step :: "((string, pyval) pydict \<Rightarrow> string) \<Rightarrow> memory_queue \<Rightarrow> memory_queue \<Rightarrow> bool"
  for sha where
  mq_step_start: "mq_step sha q (snd (mq_enqueue_start sha r q))"
| mq_step_enqueue: "\<not> is_live q w \<Longrightarrow> mq_step sha q (snd (mq_enqueue w pr ow kind payload q))"
| mq_step_claim: "mq_step sha q (snd (mq_claim_idempotency ow repo key w q))"
| mq_step_configure: "mq_step sha q (mq_configure_installation fp required q)"
| mq_step_touch: "mq_step sha q (mq_touch_worker now worker q)"
| mq_step_poll: "po_others p = id \<Longrightarrow> mq_step sha q (snd (mq_dequeue worker deadline [p] q))"
| mq_step_heartbeat: "mq_step sha q (snd (mq_heartbeat now j q))"
| mq_step_acknowledge: "mq_step sha q (snd (mq_acknowledge now j q))"
| mq_step_fail: "mq_step sha q (snd (mq_fail now j e q))"
| mq_step_cancel: "mq_step sha q (snd (mq_cancel w q))"

definition mq_fresh :: "memory_queue \<Rightarrow> bool" where
  "mq_fresh q \<longleftrightarrow> 0 < mq_max_delivery_attempts q
     \<and> q = new_memory_queue (mq_lease_seconds q) (mq_max_delivery_attempts q) (mq_dispatch_scope q)"

lemma accounts_fresh: "mq_fresh q \<Longrightarrow> mq_accounts q"
proof -
  assume f: "mq_fresh q"
  have "mq_accounts (new_memory_queue l m s)" if "0 < m" for l m s
    using that by (simp add: mq_accounts_def mq_ok_def live_jobs_def leased_jobs_def new_memory_queue_def)
  then show ?thesis using f unfolding mq_fresh_def by metis
qed

lemma accounts_same:
  "mq_accounts q \<Longrightarrow> mq_processing q' = mq_processing q \<Longrightarrow> mq_queued q' = mq_queued q \<Longrightarrow>
   mq_states q' = mq_states q \<Longrightarrow> mq_access q' = mq_access q \<Longrightarrow> mq_sequence q' = mq_sequence q \<Longrightarrow>
   mq_done_total q' = mq_done_total q \<Longrightarrow> mq_failed_total q' = mq_failed_total q \<Longrightarrow>
   mq_max_delivery_attempts q' = mq_max_delivery_attempts q \<Longrightarrow> mq_accounts q'"
  by (rule accounts_frame [of q])
     (simp_all add: leased_jobs_def mq_accounts_def cong: mq_ok_cong)

lemma accounts_step: "mq_accounts q \<Longrightarrow> mq_step sha q q' \<Longrightarrow> mq_accounts q'"
proof (erule mq_step.cases, goal_cases)
  case (3 q ow repo key w)
  then show ?case
    by (cases "map_of (mq_idempotency q) (ow, str_lower repo, key)")
       (simp_all add: mq_claim_idempotency_def accounts_same)
next
  case (4 q fp required)
  then show ?case by (simp add: mq_configure_installation_def accounts_same)
next
  case (5 q now worker)
  then show ?case by (simp add: mq_touch_worker_def accounts_same)
next
  case (6 q worker deadline p)
  then show ?case by (simp only:) (rule accounts_poll, simp_all)
qed (simp_all add: accounts_start accounts_enqueue accounts_heartbeat accounts_settle accounts_cancel)

interpretation mq_system: invariant_system mq_fresh "mq_step sha" mq_accounts for sha
  by unfold_locales (auto intro: accounts_fresh accounts_step)


text \<open>Two jobs of one workflow at once, which \<open>enqueue\<close> does not exclude, share the one lease of
  the workflow: delivering the second takes the lease away from the first, which is then in
  neither list.\<close>

lemma second_job_takes_the_lease:
  assumes "mq_processing q = [(w, c, t)]" and "wj_workflow_id c = w"
    and "mq_queued q = [job]" and "wj_workflow_id job = w" and "wj_id job \<noteq> wj_id c"
    and "\<not> lease_over (po_requeue p) q (c, t)" and "wj_locked_by c \<noteq> Some worker"
  shows "snd (mq_dequeue worker deadline (p # ps) q)
           = mq_lease worker (po_lease p) job (q\<lparr>mq_queued := []\<rparr>)"
    and "leased_jobs (snd (mq_dequeue worker deadline (p # ps) q)) = [leased worker job]"
    and "mq_queued (snd (mq_dequeue worker deadline (p # ps) q)) = []"
    and "\<not> fst (mq_heartbeat now c (snd (mq_dequeue worker deadline (p # ps) q)))"
proof -
  have e: "mq_requeue_expired now q = q" if "\<not> lease_over now q (c, t)" for now
    using that assms(1) by (simp add: mq_requeue_expired_def Let_def)
  show d: "snd (mq_dequeue worker deadline (p # ps) q)
           = mq_lease worker (po_lease p) job (q\<lparr>mq_queued := []\<rparr>)"
    by (simp add: e assms(3,6))
  show "leased_jobs (snd (mq_dequeue worker deadline (p # ps) q)) = [leased worker job]"
    and "mq_queued (snd (mq_dequeue worker deadline (p # ps) q)) = []"
    and "\<not> fst (mq_heartbeat now c (snd (mq_dequeue worker deadline (p # ps) q)))"
    unfolding d using assms
    by (auto simp: mq_lease_def leased_jobs_def fst_settlement current_lease_def leased_def)
qed

section \<open>Starting a workflow once\<close>

text \<open>Receipts and keys are never taken back.\<close>

definition remembers :: "memory_queue \<Rightarrow> memory_queue \<Rightarrow> bool" where
  "remembers q q' \<longleftrightarrow> map_of (mq_start_receipts q) \<subseteq>\<^sub>m map_of (mq_start_receipts q')
     \<and> map_of (mq_idempotency q) \<subseteq>\<^sub>m map_of (mq_idempotency q')
     \<and> mq_dispatch_scope q' = mq_dispatch_scope q"

lemma map_le_Some: "m \<subseteq>\<^sub>m m' \<Longrightarrow> m k = Some v \<Longrightarrow> m' k = Some v"
  by (metis domI map_le_def)

lemma remembers_refl [simp]: "remembers q q"
  by (simp add: remembers_def)

lemma remembers_trans: "remembers q1 q2 \<Longrightarrow> remembers q2 q3 \<Longrightarrow> remembers q1 q3"
  unfolding remembers_def by (metis map_le_trans)

lemma remembers_same:
  "mq_start_receipts q' = mq_start_receipts q \<Longrightarrow> mq_idempotency q' = mq_idempotency q \<Longrightarrow>
   mq_dispatch_scope q' = mq_dispatch_scope q \<Longrightarrow> remembers q q'"
  by (simp add: remembers_def)

lemma remembers_expire: "remembers q (mq_requeue_expired now q)"
  by (rule remembers_same) (simp_all add: mq_requeue_expired_def Let_def foldl_expire)

lemma map_le_upd: "m k = None \<Longrightarrow> m \<subseteq>\<^sub>m m(k \<mapsto> v)"
  by (auto simp: map_le_def)

lemma remembers_start: "remembers q (snd (mq_enqueue_start sha r q))"
proof -
  have "remembers q (mq_admit d r q)"
    if "map_of (mq_start_receipts q) (sr_workflow_id r) = None"
      and "\<And>k. request_key r = Some k \<Longrightarrow> map_of (mq_idempotency q) k = None" for d
    using that by (auto simp: remembers_def mq_admit_def Let_def map_le_upd split: option.splits)
  then show ?thesis
    by (auto simp: mq_enqueue_start_def Let_def or_str_def split: option.splits if_splits)
qed

lemma remembers_step: "mq_step sha q q' \<Longrightarrow> remembers q q'"
proof (induction rule: mq_step.induct)
  case (mq_step_claim q ow repo key w)
  then show ?case
    by (simp add: mq_claim_idempotency_def Let_def remembers_def map_le_upd split: option.splits)
next
  case (mq_step_poll p q worker deadline)
  then show ?case
    using remembers_expire [of q "po_requeue p"]
    by (auto simp: Let_def mq_lease_def remembers_def split: list.splits)
next
  case (mq_step_start q r)
  show ?case by (rule remembers_start)
qed (auto intro!: remembers_same simp: mq_enqueue_def Let_def mq_configure_installation_def mq_touch_worker_def mq_heartbeat_def
      mq_acknowledge_def mq_fail_def mq_cancel_def split: option.splits)

lemma remembers_steps: "(mq_step sha)\<^sup>*\<^sup>* q q' \<Longrightarrow> remembers q q'"
  by (induction rule: rtranclp_induct) (auto intro: remembers_trans remembers_step)

text \<open>What an accepted request with a fresh workflow id leaves behind.\<close>

lemma start_is_recorded:
  assumes "mq_enqueue_start sha r q = (Inr w, q')" and "request_key r = Some k"
    and "map_of (mq_start_receipts q) (sr_workflow_id r) = None" and "w \<noteq> []"
  shows "map_of (mq_idempotency q') k = Some w"
    and "map_of (mq_start_receipts q') w = Some (request_digest sha r)"
    and "sr_expected_dispatch_scope r = None
         \<or> sr_expected_dispatch_scope r = Some (mq_dispatch_scope q)"
  using assms
  by (auto simp: mq_enqueue_start_def mq_admit_def Let_def or_str_def
      split: option.splits if_splits)

text \<open>C27. Submitting a keyed start again, under any workflow id and after anything else the queue
  did in between, answers with the workflow of the first submission and changes nothing; a
  different request under the same key is refused and changes nothing.\<close>

theorem start_is_admitted_once:
  assumes "mq_enqueue_start sha r q = (Inr w, q1)" and "w \<noteq> []"
    and "request_key r = Some k" and "map_of (mq_start_receipts q) (sr_workflow_id r) = None"
    and "(mq_step sha)\<^sup>*\<^sup>* q1 q2"
    and "request_key r' = Some k"
    and "sr_expected_dispatch_scope r' = sr_expected_dispatch_scope r"
  shows "mq_enqueue_start sha r' q2 =
    ((if request_digest sha r' = request_digest sha r then Inr w else Inl other_request), q2)"
proof -
  note rec = start_is_recorded [OF assms(1,3,4,2)]
  have r1: "remembers q q1" using remembers_start [of q sha r] assms(1) by simp
  have r2: "remembers q1 q2" by (rule remembers_steps [OF assms(5)])
  have "map_of (mq_idempotency q2) k = Some w"
    using r2 rec(1) unfolding remembers_def by (blast intro: map_le_Some)
  moreover have "map_of (mq_start_receipts q2) w = Some (request_digest sha r)"
    using r2 rec(2) unfolding remembers_def by (blast intro: map_le_Some)
  moreover have "mq_dispatch_scope q2 = mq_dispatch_scope q"
    using r1 r2 by (simp add: remembers_def)
  ultimately show ?thesis
    using assms(2,6,7) rec(3)
    by (auto simp: mq_enqueue_start_def Let_def or_str_def)
qed

section \<open>Concrete runs\<close>

definition start_sample :: "string \<Rightarrow> start_request" where
  "start_sample w =
     \<lparr>sr_workflow_id = w, sr_project_id = ''p'', sr_owner_client_id = ''o'',
      sr_payload = [(''request'', PStr ''fix'')], sr_repository = ''Org/Repo'',
      sr_idempotency_key = Some ''k'', sr_expected_dispatch_scope = None\<rparr>"

definition sha_sample :: "(string, pyval) pydict \<Rightarrow> string" where
  "sha_sample c = show_nat (length c)"

definition round_sample :: poll_round where
  "round_sample = \<lparr>po_requeue = 5, po_lease = 5, po_remaining = 5, po_others = id\<rparr>"

definition memory_sample :: memory_queue where
  "memory_sample = snd (mq_enqueue_start sha_sample (start_sample ''w'') (new_memory_queue 30 3 ''s''))"

definition leased_sample :: memory_queue where
  "leased_sample = snd (mq_dequeue ''worker'' 9 [round_sample] memory_sample)"

lemma memory_sample_starts:
  "mq_enqueue_start sha_sample (start_sample ''w'') (new_memory_queue 30 3 ''s'') = (Inr ''w'', memory_sample)"
  by (simp add: memory_sample_def mq_enqueue_start_def start_sample_def new_memory_queue_def Let_def
      or_str_def request_key_def truthy_str_def)

lemma leased_sample_step: "mq_step sha_sample memory_sample leased_sample"
  unfolding leased_sample_def by (rule mq_step_poll) (simp add: round_sample_def)

lemma leased_sample_reached: "reach mq_fresh (mq_step sha_sample) leased_sample"
proof -
  have "mq_step sha_sample (new_memory_queue 30 3 ''s'') memory_sample"
    unfolding memory_sample_def by (rule mq_step_start)
  moreover have "mq_fresh (new_memory_queue 30 3 ''s'')" by (simp add: mq_fresh_def new_memory_queue_def)
  ultimately have "reach mq_fresh (mq_step sha_sample) memory_sample"
    by (blast intro: reach_step reach_init)
  then show ?thesis by (rule reach_step) (rule leased_sample_step)
qed


theorem start_is_admitted_once_witness:
  "mq_enqueue_start sha_sample (start_sample ''other'') leased_sample = (Inr ''w'', leased_sample)"
proof -
  have "request_digest sha_sample (start_sample ''other'') = request_digest sha_sample (start_sample ''w'')"
    using digest_ignores_workflow_id [of sha_sample "''other''" "start_sample ''w''"]
    by (simp add: start_sample_def)
  moreover have "mq_enqueue_start sha_sample (start_sample ''other'') leased_sample =
      ((if request_digest sha_sample (start_sample ''other'') = request_digest sha_sample (start_sample ''w'')
        then Inr ''w'' else Inl other_request), leased_sample)"
  proof (rule start_is_admitted_once [OF memory_sample_starts])
    show "(mq_step sha_sample)\<^sup>*\<^sup>* memory_sample leased_sample"
      by (rule r_into_rtranclp) (rule leased_sample_step)
    show "request_key (start_sample ''w'') = Some (''o'', str_lower ''Org/Repo'', ''k'')"
      and "request_key (start_sample ''other'') = Some (''o'', str_lower ''Org/Repo'', ''k'')"
      by (simp_all add: request_key_def start_sample_def truthy_str_def)
  qed (simp_all add: new_memory_queue_def start_sample_def)
  ultimately show ?thesis by simp
qed

end
