(* ===== verification/Postgres_Queue.thy ===== *)
theory Postgres_Queue imports Memory_Queue begin

text \<open>
  \<open>PostgresWorkflowQueue\<close> of \<open>app/infrastructure/workflow_queue.py\<close>: the durable queue. The state is
  the tables its statements read and write, the jobs in the order of their ids; each statement
  of the source is translated to what it does to them, a transaction is one step, and an
  exception inside one leaves the tables as they were. \<open>NOW()\<close> is an argument; the rows that
  \<open>FOR UPDATE SKIP LOCKED\<close> passes over, because another open transaction holds them, are the
  argument \<open>skipped\<close>. The trigger \<open>guard_workflow_installation\<close> runs on every insert and update.
\<close>

section \<open>Tables\<close>

record job_row =
  jr_id :: int
  jr_workflow_id :: string
  jr_project_id :: string
  jr_owner_client_id :: string
  jr_kind :: job_kind
  jr_payload :: pyval
  jr_status :: job_status
  jr_error :: "string option"
  jr_attempts :: int
  jr_max_attempts :: int
  jr_locked_by :: "string option"
  jr_locked_at :: "timestamp option"
  jr_retry_after :: timestamp
  jr_required_fingerprint :: "string option"

record worker_row =
  wr_heartbeat_at :: timestamp
  wr_deployment_fingerprint :: "string option"

record queue_tables =
  qt_jobs :: "job_row list"
  qt_next_id :: int
  qt_workers :: "(string, worker_row) pydict"
  qt_enforced :: bool
  qt_idempotency :: "(string \<times> string \<times> string, string) pydict"
  qt_namespace :: "string option"
  qt_receipts :: "(string, string) pydict"

text \<open>The attributes of the Python object.\<close>

record postgres_queue =
  pq_lease_seconds :: timestamp
  pq_max_delivery_attempts :: int
  pq_deployment_fingerprint :: "string option"
  pq_installation_required :: bool

definition new_tables :: "string \<Rightarrow> queue_tables" where
  "new_tables namespace =
     \<lparr>qt_jobs = [], qt_next_id = 1, qt_workers = [], qt_enforced = False, qt_idempotency = [],
      qt_namespace = Some namespace, qt_receipts = []\<rparr>"

definition pq_configure_installation :: "string option \<Rightarrow> bool \<Rightarrow> postgres_queue \<Rightarrow> postgres_queue" where
  "pq_configure_installation fp required c =
     c\<lparr>pq_deployment_fingerprint := fp, pq_installation_required := required\<rparr>"

definition pq_required_fingerprint :: "postgres_queue \<Rightarrow> string option" where
  "pq_required_fingerprint c =
     (if pq_installation_required c
      then Some (or_str (pq_deployment_fingerprint c) ''installation-unconfigured'') else None)"

definition update_jobs :: "(job_row \<Rightarrow> bool) \<Rightarrow> (job_row \<Rightarrow> job_row) \<Rightarrow> queue_tables \<Rightarrow> queue_tables" where
  "update_jobs p f db = db\<lparr>qt_jobs := map (\<lambda>r. if p r then f r else r) (qt_jobs db)\<rparr>"

text \<open>The insert branch of the trigger: a resume is bound to the installation of its start, and an
  unbound job is bound to no installation once the policy is enforced.\<close>

definition guard_insert :: "queue_tables \<Rightarrow> job_row \<Rightarrow> job_row" where
  "guard_insert db new =
     (let previous = (if jr_kind new = J_RESUME
            then (case List.find (\<lambda>r. jr_workflow_id r = jr_workflow_id new \<and> jr_kind r = J_START)
                         (qt_jobs db) of
                    None \<Rightarrow> None | Some r \<Rightarrow> jr_required_fingerprint r)
            else None);
          fp = (case previous of None \<Rightarrow> jr_required_fingerprint new | Some f \<Rightarrow> Some f)
      in new\<lparr>jr_required_fingerprint :=
               (if qt_enforced db \<and> fp = None then Some ''legacy-unbound'' else fp)\<rparr>)"

text \<open>The update branch: whether leasing this row to this worker is allowed.\<close>

definition guard_lease :: "queue_tables \<Rightarrow> job_row \<Rightarrow> string \<Rightarrow> bool" where
  "guard_lease db r worker_id =
     (case jr_required_fingerprint r of
        None \<Rightarrow> True
      | Some f \<Rightarrow>
          (case map_of (qt_workers db) worker_id of
             None \<Rightarrow> False | Some w \<Rightarrow> wr_deployment_fingerprint w = Some f))"

definition enable_installation :: "postgres_queue \<Rightarrow> queue_tables \<Rightarrow> queue_tables" where
  "enable_installation c db =
     (if \<not> pq_installation_required c \<or> qt_enforced db then db
      else update_jobs (\<lambda>r. jr_required_fingerprint r = None)
             (\<lambda>r. r\<lparr>jr_required_fingerprint := Some ''legacy-unbound''\<rparr>) (db\<lparr>qt_enforced := True\<rparr>))"

definition insert_job ::
  "postgres_queue \<Rightarrow> timestamp \<Rightarrow> string \<Rightarrow> string \<Rightarrow> string \<Rightarrow> job_kind \<Rightarrow> pyval \<Rightarrow> queue_tables
   \<Rightarrow> queue_tables" where
  "insert_job c now workflow_id project_id owner kind payload db =
     db\<lparr>qt_jobs := qt_jobs db @ [guard_insert db
          \<lparr>jr_id = qt_next_id db, jr_workflow_id = workflow_id, jr_project_id = project_id,
           jr_owner_client_id = owner, jr_kind = kind, jr_payload = payload,
           jr_status = JS_QUEUED, jr_error = None, jr_attempts = 0,
           jr_max_attempts = pq_max_delivery_attempts c, jr_locked_by = None,
           jr_locked_at = None, jr_retry_after = now,
           jr_required_fingerprint = pq_required_fingerprint c\<rparr>],
        qt_next_id := qt_next_id db + 1\<rparr>"

section \<open>Admission\<close>

definition pq_dispatch_scope :: "queue_tables \<Rightarrow> string result" where
  "pq_dispatch_scope db =
     (case qt_namespace db of
        None \<Rightarrow> Inl (Exc WorkflowDispatchConflict ''Identidade da fila indisponivel.'')
      | Some n \<Rightarrow> Inr n)"

definition conflicting_request :: exc where
  "conflicting_request = Exc WorkflowDispatchConflict
     ''Solicitacao conflitante ou registro legado sem recibo atomico.''"

definition workflow_taken :: exc where
  "workflow_taken = Exc WorkflowDispatchConflict ''Workflow ja associado a outra solicitacao.''"

text \<open>\<open>INSERT ... ON CONFLICT DO NOTHING\<close> of the key, then the \<open>SELECT\<close> of its workflow.\<close>

definition claim_key ::
  "string \<times> string \<times> string \<Rightarrow> string \<Rightarrow> queue_tables \<Rightarrow> (bool \<times> string) \<times> queue_tables" where
  "claim_key k workflow_id db =
     (case map_of (qt_idempotency db) k of
        Some w \<Rightarrow> ((False, w), db)
      | None \<Rightarrow> ((True, workflow_id),
                 db\<lparr>qt_idempotency := AList.update k workflow_id (qt_idempotency db)\<rparr>))"

text \<open>The part of the transaction after the key is settled.\<close>

definition admit_start ::
  "((string, pyval) pydict \<Rightarrow> string) \<Rightarrow> postgres_queue \<Rightarrow> timestamp \<Rightarrow> start_request
   \<Rightarrow> bool \<times> string \<Rightarrow> queue_tables \<Rightarrow> string result \<times> queue_tables" where
  "admit_start sha c now r key db =
     (let digest = request_digest sha r; (claimed, w) = key
      in if \<not> claimed
         then if map_of (qt_receipts db) w = Some digest then (Inr w, db)
              else (Inl conflicting_request, db)
         else case map_of (qt_receipts db) w of
                Some receipt \<Rightarrow>
                  if receipt \<noteq> digest then (Inl workflow_taken, db) else (Inr w, db)
              | None \<Rightarrow>
                  if \<exists>j\<in>set (qt_jobs db). jr_workflow_id j = w then (Inl legacy_record, db)
                  else (Inr w, insert_job c now w (sr_project_id r) (sr_owner_client_id r) J_START
                                 (PDict (AList.update ''workflow_id'' (PStr w) (request_copy r)))
                                 (db\<lparr>qt_receipts := AList.update w digest (qt_receipts db)\<rparr>)))"

definition transaction :: "queue_tables \<Rightarrow> 'a result \<times> queue_tables \<Rightarrow> 'a result \<times> queue_tables" where
  "transaction db x = (case fst x of Inl e \<Rightarrow> (Inl e, db) | Inr v \<Rightarrow> x)"

definition pq_enqueue_start ::
  "((string, pyval) pydict \<Rightarrow> string) \<Rightarrow> postgres_queue \<Rightarrow> timestamp \<Rightarrow> start_request \<Rightarrow> queue_tables
   \<Rightarrow> string result \<times> queue_tables" where
  "pq_enqueue_start sha c now r db =
     transaction db
       (let db1 = enable_installation c db
        in if qt_namespace db1 = None
              \<or> (sr_expected_dispatch_scope r \<noteq> None \<and> sr_expected_dispatch_scope r \<noteq> qt_namespace db1)
           then (Inl scope_replaced, db1)
           else case request_key r of
                  None \<Rightarrow> admit_start sha c now r (True, sr_workflow_id r) db1
                | Some k \<Rightarrow>
                    (case claim_key k (sr_workflow_id r) db1 of
                       (key, db2) \<Rightarrow> admit_start sha c now r key db2))"

definition pq_claim_idempotency ::
  "string \<Rightarrow> string \<Rightarrow> string \<Rightarrow> string \<Rightarrow> queue_tables \<Rightarrow> (string \<times> bool) \<times> queue_tables" where
  "pq_claim_idempotency owner repository key workflow_id db =
     (case claim_key (owner, str_lower repository, key) workflow_id db of
        ((claimed, w), db1) \<Rightarrow> ((w, claimed), db1))"

definition pq_enqueue ::
  "postgres_queue \<Rightarrow> timestamp \<Rightarrow> string \<Rightarrow> string \<Rightarrow> string \<Rightarrow> job_kind \<Rightarrow> pyval \<Rightarrow> queue_tables
   \<Rightarrow> workflow_job \<times> queue_tables" where
  "pq_enqueue c now workflow_id project_id owner kind payload db =
     (let db1 = enable_installation c db
      in (\<lparr>wj_id = qt_next_id db1, wj_workflow_id = workflow_id, wj_project_id = project_id,
           wj_owner_client_id = owner, wj_kind = kind, wj_payload = payload,
           wj_attempt_count = 0, wj_max_attempts = pq_max_delivery_attempts c,
           wj_locked_by = None\<rparr>,
          insert_job c now workflow_id project_id owner kind payload db1))"

section \<open>Leases\<close>

definition row_expired :: "postgres_queue \<Rightarrow> timestamp \<Rightarrow> job_row \<Rightarrow> bool" where
  "row_expired c now r \<longleftrightarrow> jr_status r = JS_PROCESSING
     \<and> (case jr_locked_at r of None \<Rightarrow> False | Some t \<Rightarrow> t \<le> now - pq_lease_seconds c)"

definition expire_row :: "timestamp \<Rightarrow> job_row \<Rightarrow> job_row" where
  "expire_row now r =
     r\<lparr>jr_status := (if jr_attempts r \<ge> jr_max_attempts r then JS_FAILED else JS_QUEUED),
       jr_error := Some (if jr_attempts r \<ge> jr_max_attempts r
                         then (case jr_error r of None \<Rightarrow> lease_expired_error | Some e \<Rightarrow> e)
                         else lease_expired_error),
       jr_locked_by := None, jr_locked_at := None, jr_retry_after := now\<rparr>"

definition pq_requeue_expired :: "postgres_queue \<Rightarrow> timestamp \<Rightarrow> queue_tables \<Rightarrow> queue_tables" where
  "pq_requeue_expired c now db = update_jobs (row_expired c now) (expire_row now) db"

definition claimable :: "postgres_queue \<Rightarrow> timestamp \<Rightarrow> int list \<Rightarrow> job_row \<Rightarrow> bool" where
  "claimable c now skipped r \<longleftrightarrow> jr_status r = JS_QUEUED \<and> jr_retry_after r \<le> now
     \<and> (jr_required_fingerprint r = None
        \<or> (jr_required_fingerprint r = pq_deployment_fingerprint c))
     \<and> jr_id r \<notin> set skipped"

definition lease_row :: "string \<Rightarrow> timestamp \<Rightarrow> job_row \<Rightarrow> job_row" where
  "lease_row worker_id now r =
     r\<lparr>jr_status := JS_PROCESSING, jr_attempts := jr_attempts r + 1,
       jr_locked_by := Some worker_id, jr_locked_at := Some now\<rparr>"

definition row_job :: "job_row \<Rightarrow> workflow_job" where
  "row_job r =
     \<lparr>wj_id = jr_id r, wj_workflow_id = jr_workflow_id r, wj_project_id = jr_project_id r,
      wj_owner_client_id = jr_owner_client_id r, wj_kind = jr_kind r, wj_payload = jr_payload r,
      wj_attempt_count = jr_attempts r, wj_max_attempts = jr_max_attempts r,
      wj_locked_by = jr_locked_by r\<rparr>"

definition worker_incompatible :: exc where
  "worker_incompatible = Exc (OtherError ''RaiseException'') ''worker_installation_incompatible''"

definition pq_dequeue ::
  "postgres_queue \<Rightarrow> timestamp \<Rightarrow> int list \<Rightarrow> string \<Rightarrow> queue_tables
   \<Rightarrow> workflow_job option result \<times> queue_tables" where
  "pq_dequeue c now skipped worker_id db =
     (if pq_installation_required c \<and> pq_deployment_fingerprint c = None then (Inr None, db)
      else transaction db
        (let db1 = pq_requeue_expired c now db
         in case List.find (claimable c now skipped) (qt_jobs db1) of
              None \<Rightarrow> (Inr None, db1)
            | Some r \<Rightarrow>
                if guard_lease db1 r worker_id
                then (Inr (Some (row_job (lease_row worker_id now r))),
                      update_jobs (\<lambda>x. jr_id x = jr_id r) (lease_row worker_id now) db1)
                else (Inl worker_incompatible, db1)))"

text \<open>The \<open>WHERE\<close> of the three settling updates.\<close>

definition held_row :: "workflow_job \<Rightarrow> job_row \<Rightarrow> bool" where
  "held_row job r \<longleftrightarrow> jr_id r = wj_id job \<and> jr_status r = JS_PROCESSING
     \<and> jr_locked_by r = wj_locked_by job"

definition settle_row ::
  "workflow_job \<Rightarrow> (job_row \<Rightarrow> job_row) \<Rightarrow> queue_tables \<Rightarrow> bool \<times> queue_tables" where
  "settle_row job f db =
     (if wj_locked_by job = None then (False, db)
      else (\<exists>r\<in>set (qt_jobs db). held_row job r, update_jobs (held_row job) f db))"

definition pq_heartbeat :: "timestamp \<Rightarrow> workflow_job \<Rightarrow> queue_tables \<Rightarrow> bool \<times> queue_tables" where
  "pq_heartbeat now job db = settle_row job (\<lambda>r. r\<lparr>jr_locked_at := Some now\<rparr>) db"

definition pq_acknowledge :: "timestamp \<Rightarrow> workflow_job \<Rightarrow> queue_tables \<Rightarrow> bool \<times> queue_tables" where
  "pq_acknowledge now job db =
     settle_row job (\<lambda>r. r\<lparr>jr_status := JS_DONE, jr_locked_by := None, jr_locked_at := None\<rparr>) db"

definition pq_fail ::
  "timestamp \<Rightarrow> workflow_job \<Rightarrow> string \<Rightarrow> queue_tables \<Rightarrow> bool \<times> queue_tables" where
  "pq_fail now job error db =
     settle_row job
       (\<lambda>r. r\<lparr>jr_status := JS_FAILED, jr_error := Some error, jr_locked_by := None,
              jr_locked_at := None\<rparr>) db"

definition cancellable :: "string \<Rightarrow> job_row \<Rightarrow> bool" where
  "cancellable w r \<longleftrightarrow> jr_workflow_id r = w \<and> (jr_status r = JS_QUEUED \<or> jr_status r = JS_PROCESSING)"

definition cancel_row :: "job_row \<Rightarrow> job_row" where
  "cancel_row r = r\<lparr>jr_status := JS_FAILED, jr_error := Some workflow_cancelled_error,
                    jr_locked_by := None, jr_locked_at := None\<rparr>"

definition pq_cancel :: "string \<Rightarrow> queue_tables \<Rightarrow> bool \<times> queue_tables" where
  "pq_cancel w db =
     (\<exists>r\<in>set (qt_jobs db). cancellable w r, update_jobs (cancellable w) cancel_row db)"

section \<open>Workers and reports\<close>

definition pq_touch_worker :: "postgres_queue \<Rightarrow> timestamp \<Rightarrow> string \<Rightarrow> queue_tables \<Rightarrow> queue_tables" where
  "pq_touch_worker c now worker_id db =
     (let db1 = enable_installation c db
      in db1\<lparr>qt_workers := AList.update worker_id
               \<lparr>wr_heartbeat_at = now, wr_deployment_fingerprint = pq_deployment_fingerprint c\<rparr>
               (qt_workers db1)\<rparr>)"

definition count :: "('a \<Rightarrow> bool) \<Rightarrow> 'a list \<Rightarrow> int" where
  "count p xs = int (length (filter p xs))"

definition pq_installation_jobs :: "string option \<Rightarrow> queue_tables \<Rightarrow> (string, int) pydict" where
  "pq_installation_jobs fp db =
     (let js = filter (\<lambda>r. jr_status r = JS_QUEUED \<or> jr_status r = JS_PROCESSING) (qt_jobs db)
      in [(''incompatible'', count (\<lambda>r. jr_required_fingerprint r \<noteq> None
             \<and> jr_required_fingerprint r \<noteq> fp) js),
          (''legacy_unbound'', count (\<lambda>r. jr_required_fingerprint r = Some ''legacy-unbound'') js),
          (''unconfigured'',
             count (\<lambda>r. jr_required_fingerprint r = Some ''installation-unconfigured'') js)])"

definition pq_installation_workers ::
  "postgres_queue \<Rightarrow> timestamp \<Rightarrow> string option \<Rightarrow> queue_tables \<Rightarrow> (string, int) pydict" where
  "pq_installation_workers c now fp db =
     (let ws = filter (\<lambda>w. wr_heartbeat_at w \<ge> worker_cutoff (pq_lease_seconds c) now)
                 (map snd (qt_workers db));
          compatible = count (\<lambda>w. fp \<noteq> None \<and> wr_deployment_fingerprint w = fp) ws
      in [(''active'', int (length ws)), (''compatible'', compatible),
          (''incompatible'', int (length ws) - compatible),
          (''legacy'', count (\<lambda>w. wr_deployment_fingerprint w = None) ws)])"

definition row_access :: "job_row \<Rightarrow> access_context" where
  "row_access r = \<lparr>ac_workflow_id = jr_workflow_id r, ac_project_id = jr_project_id r,
                   ac_owner_client_id = jr_owner_client_id r\<rparr>"

text \<open>\<open>GROUP BY ... ORDER BY MIN(id) DESC\<close>: the groups by their first rows, latest first.\<close>

definition pq_list_workflows ::
  "string \<Rightarrow> string option \<Rightarrow> int \<Rightarrow> queue_tables \<Rightarrow> access_context list" where
  "pq_list_workflows owner project limit db =
     take (nat (max 0 limit))
       (rev (unique (map row_access
          (filter (\<lambda>r. jr_owner_client_id r = owner
                       \<and> (project = None \<or> Some (jr_project_id r) = project)) (qt_jobs db)))))"

definition rows_of :: "string \<Rightarrow> queue_tables \<Rightarrow> job_row list" where
  "rows_of w db = filter (\<lambda>r. jr_workflow_id r = w) (qt_jobs db)"

definition pq_get_state :: "string \<Rightarrow> queue_tables \<Rightarrow> workflow_job_state option" where
  "pq_get_state w db =
     map_option (\<lambda>r. \<lparr>js_workflow_id = w, js_status = jr_status r, js_error = jr_error r\<rparr>)
       (last_opt (rows_of w db))"

definition pq_get_access :: "string \<Rightarrow> queue_tables \<Rightarrow> access_context option" where
  "pq_get_access w db =
     map_option (\<lambda>r. \<lparr>ac_workflow_id = w, ac_project_id = jr_project_id r,
                      ac_owner_client_id = jr_owner_client_id r\<rparr>) (last_opt (rows_of w db))"

definition pq_get_work_order :: "string \<Rightarrow> queue_tables \<Rightarrow> (string, pyval) pydict option" where
  "pq_get_work_order w db =
     (case List.find (\<lambda>r. jr_kind r = J_START) (rows_of w db) of
        None \<Rightarrow> None
      | Some r \<Rightarrow> as_dict (dict_field (jr_payload r) ''work_order''))"

definition pq_get_stats :: "postgres_queue \<Rightarrow> timestamp \<Rightarrow> queue_tables \<Rightarrow> queue_stats" where
  "pq_get_stats c now db =
     (let js = qt_jobs db; status = (\<lambda>s. count (\<lambda>r. jr_status r = s) js)
      in \<lparr>qs_backend = ''postgres'', qs_queued = status JS_QUEUED,
          qs_processing = status JS_PROCESSING, qs_failed = status JS_FAILED,
          qs_done = status JS_DONE,
          qs_delivered_total = sum_list (map jr_attempts js),
          qs_requeued_total = sum_list (map (\<lambda>r. max (jr_attempts r - 1) 0) js),
          qs_failed_total = status JS_FAILED,
          qs_expired_processing = count (row_expired c now) js,
          qs_active_workers =
            count (\<lambda>w. wr_heartbeat_at w \<ge> worker_cutoff (pq_lease_seconds c) now)
              (map snd (qt_workers db))\<rparr>)"

section \<open>The life of a row\<close>

primrec life_of_status :: "job_status \<Rightarrow> int \<Rightarrow> string option \<Rightarrow> job_life" where
  "life_of_status JS_QUEUED n w = Queued n"
| "life_of_status JS_PROCESSING n w = Leased n (or_str w [])"
| "life_of_status JS_DONE n w = Done n"
| "life_of_status JS_FAILED n w = Failed n"

definition row_life :: "job_row \<Rightarrow> job_life" where
  "row_life r = life_of_status (jr_status r) (jr_attempts r) (jr_locked_by r)"

definition row_of :: "queue_tables \<Rightarrow> int \<Rightarrow> job_row option" where
  "row_of db i = List.find (\<lambda>r. jr_id r = i) (qt_jobs db)"

definition job_life_of :: "queue_tables \<Rightarrow> int \<Rightarrow> job_life" where
  "job_life_of db i = (case row_of db i of None \<Rightarrow> Absent | Some r \<Rightarrow> row_life r)"

definition row_ok :: "int \<Rightarrow> job_row \<Rightarrow> bool" where
  "row_ok mx r \<longleftrightarrow> jr_max_attempts r = mx \<and> life_ok mx (row_life r)
     \<and> (jr_status r = JS_PROCESSING \<longleftrightarrow> jr_locked_by r \<noteq> None)
     \<and> (jr_status r = JS_PROCESSING \<longleftrightarrow> jr_locked_at r \<noteq> None)"

definition tables_ok :: "int \<Rightarrow> queue_tables \<Rightarrow> bool" where
  "tables_ok mx db \<longleftrightarrow> sorted_wrt (<) (map jr_id (qt_jobs db))
     \<and> (\<forall>r\<in>set (qt_jobs db). jr_id r < qt_next_id db \<and> row_ok mx r)
     \<and> (qt_enforced db \<longrightarrow> (\<forall>r\<in>set (qt_jobs db). jr_required_fingerprint r \<noteq> None))"

text \<open>What a statement may do to a row: its identity, request and limit stay, its life goes on.\<close>

definition evolves :: "int \<Rightarrow> job_row \<Rightarrow> job_row \<Rightarrow> bool" where
  "evolves mx r r' \<longleftrightarrow> jr_id r' = jr_id r \<and> jr_workflow_id r' = jr_workflow_id r
     \<and> jr_kind r' = jr_kind r \<and> jr_payload r' = jr_payload r
     \<and> (jr_required_fingerprint r \<noteq> None \<longrightarrow> jr_required_fingerprint r' = jr_required_fingerprint r)
     \<and> (row_ok mx r \<longrightarrow> row_ok mx r' \<and> (life_step mx)\<^sup>*\<^sup>* (row_life r) (row_life r'))"

lemma evolves_refl [simp]: "evolves mx r r"
  by (simp add: evolves_def)

lemma evolves_trans: "evolves mx r s \<Longrightarrow> evolves mx s t \<Longrightarrow> evolves mx r t"
  unfolding evolves_def by (auto intro: rtranclp_trans)

lemma step_evolves:
  assumes "jr_id r' = jr_id r" "jr_workflow_id r' = jr_workflow_id r" "jr_kind r' = jr_kind r"
    "jr_payload r' = jr_payload r" "jr_required_fingerprint r' = jr_required_fingerprint r"
    "jr_max_attempts r' = jr_max_attempts r" and mx: "0 < mx"
    and "row_ok mx r \<Longrightarrow> life_step mx (row_life r) (row_life r')"
    and "row_ok mx r \<Longrightarrow> (jr_status r' = JS_PROCESSING \<longleftrightarrow> jr_locked_by r' \<noteq> None)
           \<and> (jr_status r' = JS_PROCESSING \<longleftrightarrow> jr_locked_at r' \<noteq> None)"
  shows "evolves mx r r'"
proof -
  have "row_ok mx r' \<and> (life_step mx)\<^sup>*\<^sup>* (row_life r) (row_life r')" if ok: "row_ok mx r"
  proof -
    have "life_ok mx (row_life r')"
      using life_ok_step [OF mx _ assms(8) [OF ok]] ok by (simp add: row_ok_def)
    then show ?thesis
      using ok assms(6) assms(8) [OF ok] assms(9) [OF ok]
      by (intro conjI r_into_rtranclp) (auto simp: row_ok_def)
  qed
  then show ?thesis using assms(1-5) by (simp add: evolves_def)
qed

lemma expire_evolves: "0 < mx \<Longrightarrow> row_expired c now r \<Longrightarrow> evolves mx r (expire_row now r)"
  by (rule step_evolves)
     (auto simp: expire_row_def row_expired_def row_life_def row_ok_def)

lemma lease_evolves: "0 < mx \<Longrightarrow> jr_status r = JS_QUEUED \<Longrightarrow> evolves mx r (lease_row w now r)"
  by (rule step_evolves) (auto simp: lease_row_def row_life_def row_ok_def)

lemma cancel_evolves: "0 < mx \<Longrightarrow> cancellable w r \<Longrightarrow> evolves mx r (cancel_row r)"
  by (rule step_evolves) (auto simp: cancel_row_def cancellable_def row_life_def row_ok_def)

lemma settle_evolves:
  assumes "0 < mx" and "held_row job r"
  shows "evolves mx r (r\<lparr>jr_status := JS_DONE, jr_locked_by := None, jr_locked_at := None\<rparr>)"
    and "evolves mx r (r\<lparr>jr_status := JS_FAILED, jr_error := e, jr_locked_by := None,
           jr_locked_at := None\<rparr>)"
  by (rule step_evolves; use assms in \<open>auto simp: held_row_def row_life_def row_ok_def\<close>)+

lemma beat_evolves: "held_row job r \<Longrightarrow> evolves mx r (r\<lparr>jr_locked_at := Some now\<rparr>)"
  by (simp add: evolves_def held_row_def row_ok_def row_life_def)

lemma bind_evolves:
  "jr_required_fingerprint r = None \<Longrightarrow> evolves mx r (r\<lparr>jr_required_fingerprint := f\<rparr>)"
  unfolding evolves_def row_ok_def row_life_def by auto

text \<open>A statement that updates rows, and a transaction that does so and inserts at most one.\<close>

definition rows_evolve :: "int \<Rightarrow> queue_tables \<Rightarrow> queue_tables \<Rightarrow> bool" where
  "rows_evolve mx db db' \<longleftrightarrow> list_all2 (evolves mx) (qt_jobs db) (qt_jobs db')
     \<and> qt_next_id db' = qt_next_id db \<and> (qt_enforced db \<longrightarrow> qt_enforced db')"

lemma rows_evolve_refl: "qt_jobs db' = qt_jobs db \<Longrightarrow> qt_next_id db' = qt_next_id db \<Longrightarrow>
    (qt_enforced db \<longrightarrow> qt_enforced db') \<Longrightarrow> rows_evolve mx db db'"
  by (simp add: rows_evolve_def list.rel_refl)

lemma rows_evolve_trans: "rows_evolve mx a b \<Longrightarrow> rows_evolve mx b c \<Longrightarrow> rows_evolve mx a c"
  unfolding rows_evolve_def by (auto intro: list_all2_trans [OF evolves_trans])

lemma update_jobs_evolve:
  "(\<And>r. r \<in> set (qt_jobs db) \<Longrightarrow> p r \<Longrightarrow> evolves mx r (f r)) \<Longrightarrow>
   rows_evolve mx db (update_jobs p f db)"
  by (simp add: rows_evolve_def update_jobs_def list_all2_conv_all_nth)

lemma enable_evolves: "rows_evolve mx db (enable_installation c db)"
proof -
  have "rows_evolve mx (db\<lparr>qt_enforced := True\<rparr>)
      (update_jobs (\<lambda>r. jr_required_fingerprint r = None)
        (\<lambda>r. r\<lparr>jr_required_fingerprint := Some ''legacy-unbound''\<rparr>) (db\<lparr>qt_enforced := True\<rparr>))"
    by (rule update_jobs_evolve) (rule bind_evolves)
  then have "rows_evolve mx db
      (update_jobs (\<lambda>r. jr_required_fingerprint r = None)
        (\<lambda>r. r\<lparr>jr_required_fingerprint := Some ''legacy-unbound''\<rparr>) (db\<lparr>qt_enforced := True\<rparr>))"
    by (rule rows_evolve_trans [rotated]) (rule rows_evolve_refl, simp_all)
  then show ?thesis by (simp add: enable_installation_def rows_evolve_refl)
qed

lemma find_evolves:
  "list_all2 (evolves mx) rs rs' \<Longrightarrow>
   rel_option (evolves mx) (List.find (\<lambda>r. jr_id r = i) rs) (List.find (\<lambda>r. jr_id r = i) rs')"
  by (induction rule: list_all2_induct) (auto simp: evolves_def)

lemma life_evolves:
  assumes "rows_evolve mx db db'" and "tables_ok mx db"
  shows "(life_step mx)\<^sup>*\<^sup>* (job_life_of db i) (job_life_of db' i)"
proof -
  have r: "rel_option (evolves mx) (row_of db i) (row_of db' i)"
    using assms(1) find_evolves unfolding rows_evolve_def row_of_def by blast
  show ?thesis
  proof (cases "row_of db i")
    case (Some x)
    then obtain y where y: "row_of db' i = Some y" "evolves mx x y" using r by (cases "row_of db' i") auto
    have "x \<in> set (qt_jobs db)" using Some by (auto simp: row_of_def find_Some_iff)
    then have "row_ok mx x" using assms(2) by (simp add: tables_ok_def)
    then show ?thesis using Some y by (simp add: job_life_of_def evolves_def)
  qed (use r in \<open>auto simp: job_life_of_def\<close>)
qed

lemma ids_evolve: "list_all2 (evolves mx) rs rs' \<Longrightarrow> map jr_id rs' = map jr_id rs"
  by (induction rule: list_all2_induct) (auto simp: evolves_def)

lemma tables_ok_evolves:
  assumes ok: "tables_ok mx db" and ev: "rows_evolve mx db db'"
    and bound: "qt_enforced db' \<longrightarrow> (\<forall>r\<in>set (qt_jobs db'). jr_required_fingerprint r \<noteq> None)"
  shows "tables_ok mx db'"
proof -
  have l: "list_all2 (evolves mx) (qt_jobs db) (qt_jobs db')" using ev by (simp add: rows_evolve_def)
  have "jr_id r' < qt_next_id db' \<and> row_ok mx r'" if r': "r' \<in> set (qt_jobs db')" for r'
  proof -
    obtain r where "r \<in> set (qt_jobs db)" "evolves mx r r'"
      using l r' by (metis in_set_conv_nth list_all2_conv_all_nth)
    then show ?thesis using ok ev by (auto simp: tables_ok_def evolves_def rows_evolve_def)
  qed
  then show ?thesis using ok bound ids_evolve [OF l] by (simp add: tables_ok_def)
qed

lemma bound_evolves:
  assumes "rows_evolve mx db db'" and "tables_ok mx db" and "qt_enforced db"
  shows "\<forall>r\<in>set (qt_jobs db'). jr_required_fingerprint r \<noteq> None"
proof
  fix r' assume "r' \<in> set (qt_jobs db')"
  then obtain r where "r \<in> set (qt_jobs db)" "evolves mx r r'"
    using assms(1) unfolding rows_evolve_def by (metis in_set_conv_nth list_all2_conv_all_nth)
  then show "jr_required_fingerprint r' \<noteq> None" using assms(2,3) by (auto simp: tables_ok_def evolves_def)
qed

section \<open>Every transaction moves every job along its life\<close>

definition advances :: "int \<Rightarrow> queue_tables \<Rightarrow> queue_tables \<Rightarrow> bool" where
  "advances mx db db' \<longleftrightarrow> (tables_ok mx db \<longrightarrow>
     tables_ok mx db' \<and> (\<forall>i. (life_step mx)\<^sup>*\<^sup>* (job_life_of db i) (job_life_of db' i)))"

lemma advances_refl [simp]: "advances mx db db"
  by (simp add: advances_def)

lemma advances_trans: "advances mx a b \<Longrightarrow> advances mx b c \<Longrightarrow> advances mx a c"
  unfolding advances_def by (blast intro: rtranclp_trans)

lemma rows_advance: "rows_evolve mx db db' \<Longrightarrow> qt_enforced db' = qt_enforced db \<Longrightarrow> advances mx db db'"
  unfolding advances_def using tables_ok_evolves bound_evolves life_evolves by metis

lemma same_rows_advance:
  "qt_jobs db' = qt_jobs db \<Longrightarrow> qt_next_id db' = qt_next_id db \<Longrightarrow> qt_enforced db' = qt_enforced db \<Longrightarrow>
   advances mx db db'"
  by (rule rows_advance) (simp_all add: rows_evolve_refl)

lemma update_jobs_advance:
  assumes "\<And>r. tables_ok mx db \<Longrightarrow> r \<in> set (qt_jobs db) \<Longrightarrow> p r \<Longrightarrow> evolves mx r (f r)"
  shows "advances mx db (update_jobs p f db)"
proof (cases "tables_ok mx db")
  case True
  show ?thesis
  proof (rule rows_advance)
    show "rows_evolve mx db (update_jobs p f db)" by (rule update_jobs_evolve) (rule assms [OF True])
  qed (simp add: update_jobs_def)
qed (simp add: advances_def)

lemma enable_advances: "advances mx db (enable_installation c db)"
proof -
  have "\<forall>r\<in>set (qt_jobs (enable_installation c db)). jr_required_fingerprint r \<noteq> None"
    if "qt_enforced (enable_installation c db)" and "tables_ok mx db"
  proof (cases "\<not> pq_installation_required c \<or> qt_enforced db")
    case True
    then show ?thesis using that unfolding enable_installation_def if_P [OF True] tables_ok_def by blast
  qed (auto simp: enable_installation_def update_jobs_def)
  then show ?thesis
    unfolding advances_def
    using tables_ok_evolves [OF _ enable_evolves] life_evolves [OF enable_evolves] by metis
qed

lemma guard_insert_simps [simp]:
  "jr_id (guard_insert db r) = jr_id r" "jr_max_attempts (guard_insert db r) = jr_max_attempts r"
  "jr_workflow_id (guard_insert db r) = jr_workflow_id r"
  "jr_status (guard_insert db r) = jr_status r" "jr_attempts (guard_insert db r) = jr_attempts r"
  "jr_locked_by (guard_insert db r) = jr_locked_by r" "jr_locked_at (guard_insert db r) = jr_locked_at r"
  "qt_enforced db \<Longrightarrow> jr_required_fingerprint (guard_insert db r) \<noteq> None"
  by (simp_all add: guard_insert_def Let_def split: option.splits)

lemma find_append: "List.find p (xs @ ys) = (case List.find p xs of None \<Rightarrow> List.find p ys | Some x \<Rightarrow> Some x)"
  by (induction xs) auto

lemma insert_advances:
  assumes "0 < mx" and "pq_max_delivery_attempts c = mx"
  shows "advances mx db (insert_job c now w pr ow kind payload db)"
proof -
  let ?db = "insert_job c now w pr ow kind payload db"
  define new where "new = last (qt_jobs ?db)"
  have jobs: "qt_jobs ?db = qt_jobs db @ [new]" by (simp add: new_def insert_job_def)
  have new: "jr_id new = qt_next_id db" "jr_status new = JS_QUEUED" "jr_attempts new = 0"
      "jr_max_attempts new = mx" "jr_locked_by new = None" "jr_locked_at new = None"
      "qt_enforced db \<Longrightarrow> jr_required_fingerprint new \<noteq> None"
    using assms(2) guard_insert_simps(8) by (simp_all add: new_def insert_job_def del: not_None_eq)
  have rest: "qt_next_id ?db = qt_next_id db + 1" "qt_enforced ?db = qt_enforced db"
    by (simp_all add: insert_job_def)
  have "tables_ok mx ?db" if "tables_ok mx db"
    using that assms(1) new
    by (auto simp: tables_ok_def jobs rest sorted_wrt_append row_ok_def row_life_def)
  moreover have "(life_step mx)\<^sup>*\<^sup>* (job_life_of db i) (job_life_of ?db i)" for i
    using new(1,2,3)
    by (auto simp: job_life_of_def row_of_def jobs find_append row_life_def r_into_rtranclp
        split: option.splits)
  ultimately show ?thesis by (simp add: advances_def)
qed

text \<open>The transactions of the processes that share the tables; their objects may differ in
  everything but the limit of deliveries.\<close>

inductive pq_step :: "((string, pyval) pydict \<Rightarrow> string) \<Rightarrow> int \<Rightarrow> queue_tables \<Rightarrow> queue_tables \<Rightarrow> bool"
  for sha mx where
  pq_step_start: "pq_max_delivery_attempts c = mx \<Longrightarrow>
    pq_step sha mx db (snd (pq_enqueue_start sha c now r db))"
| pq_step_enqueue: "pq_max_delivery_attempts c = mx \<Longrightarrow>
    pq_step sha mx db (snd (pq_enqueue c now w pr ow kind payload db))"
| pq_step_claim: "pq_step sha mx db (snd (pq_claim_idempotency ow repo key w db))"
| pq_step_touch: "pq_step sha mx db (pq_touch_worker c now worker db)"
| pq_step_dequeue: "pq_step sha mx db (snd (pq_dequeue c now skipped worker db))"
| pq_step_heartbeat: "pq_step sha mx db (snd (pq_heartbeat now j db))"
| pq_step_acknowledge: "pq_step sha mx db (snd (pq_acknowledge now j db))"
| pq_step_fail: "pq_step sha mx db (snd (pq_fail now j e db))"
| pq_step_cancel: "pq_step sha mx db (snd (pq_cancel w db))"

lemma admit_start_advances:
  "0 < mx \<Longrightarrow> pq_max_delivery_attempts c = mx \<Longrightarrow> advances mx db (snd (admit_start sha c now r key db))"
  by (auto simp: admit_start_def Let_def split: prod.splits option.splits
      intro!: advances_trans [OF same_rows_advance insert_advances])

lemma claim_key_advances: "advances mx db (snd (claim_key k w db))"
  by (auto simp: claim_key_def intro!: same_rows_advance split: option.splits)

lemma transaction_advances: "advances mx db (snd x) \<Longrightarrow> advances mx db (snd (transaction db x))"
  by (auto simp: transaction_def split: sum.splits)

lemma dequeue_advances: "0 < mx \<Longrightarrow> advances mx db (snd (pq_dequeue c now skipped worker db))"
proof -
  assume mx: "0 < mx"
  let ?db1 = "pq_requeue_expired c now db"
  have e: "advances mx db ?db1"
    unfolding pq_requeue_expired_def by (intro update_jobs_advance expire_evolves [OF mx])
  have l: "advances mx ?db1 (update_jobs (\<lambda>x. jr_id x = jr_id r) (lease_row worker now) ?db1)"
    if r: "List.find (claimable c now skipped) (qt_jobs ?db1) = Some r" for r
  proof (rule update_jobs_advance)
    fix x assume ok: "tables_ok mx ?db1" and x: "x \<in> set (qt_jobs ?db1)" "jr_id x = jr_id r"
    have "r \<in> set (qt_jobs ?db1)" "claimable c now skipped r" using r by (auto simp: find_Some_iff)
    moreover have "distinct (map jr_id (qt_jobs ?db1))"
      using ok by (simp add: tables_ok_def strict_sorted_iff)
    ultimately show "evolves mx x (lease_row worker now x)"
      using x lease_evolves [OF mx] by (auto simp: distinct_map claimable_def dest: inj_onD)
  qed
  show ?thesis
    using e advances_trans [OF e l]
    by (auto simp: pq_dequeue_def Let_def intro!: transaction_advances split: option.splits)
qed

lemma settle_advances:
  "(\<And>r. held_row j r \<Longrightarrow> evolves mx r (f r)) \<Longrightarrow> advances mx db (snd (settle_row j f db))"
  by (simp add: settle_row_def update_jobs_advance)

lemma start_advances:
  assumes mx: "0 < mx" and c: "pq_max_delivery_attempts c = mx"
  shows "advances mx db (snd (pq_enqueue_start sha c now r db))"
proof -
  let ?db1 = "enable_installation c db"
  let ?scoped = "qt_namespace ?db1 = None
    \<or> sr_expected_dispatch_scope r \<noteq> None \<and> sr_expected_dispatch_scope r \<noteq> qt_namespace ?db1"
  let ?admit = "\<lambda>key db. admit_start sha c now r key db"
  note admit = admit_start_advances [OF mx c]
  have "advances mx ?db1 (snd (if ?scoped then (Inl scope_replaced, ?db1)
          else case request_key r of
                 None \<Rightarrow> ?admit (True, sr_workflow_id r) ?db1
               | Some k \<Rightarrow> (case claim_key k (sr_workflow_id r) ?db1 of (key, db2) \<Rightarrow> ?admit key db2)))"
  proof (cases ?scoped)
    case False
    then show ?thesis
      unfolding if_not_P [OF False]
      by (cases "request_key r")
         (simp_all add: admit split_beta advances_trans [OF claim_key_advances admit])
  qed simp
  then show ?thesis
    unfolding pq_enqueue_start_def Let_def
    by (rule transaction_advances [OF advances_trans [OF enable_advances]])
qed

lemma pq_step_advances: "pq_step sha mx db db' \<Longrightarrow> 0 < mx \<Longrightarrow> advances mx db db'"
proof (induction rule: pq_step.induct)
  case (pq_step_start c db now r)
  then show ?case by (simp only: start_advances)
next
  case (pq_step_enqueue c db now w pr ow kind payload)
  then show ?case
    unfolding pq_enqueue_def Let_def snd_conv
    by (intro advances_trans [OF enable_advances insert_advances [of mx]])
next
  case (pq_step_claim db ow repo key w)
  show ?case
    using claim_key_advances [of mx db "(ow, str_lower repo, key)" w]
    by (simp add: pq_claim_idempotency_def split_beta)
next
  case (pq_step_touch db c now worker)
  show ?case
    unfolding pq_touch_worker_def Let_def
    by (rule advances_trans [OF enable_advances same_rows_advance]) simp_all
next
  case (pq_step_cancel db w)
  show ?case
    unfolding pq_cancel_def snd_conv
    by (intro update_jobs_advance cancel_evolves [OF pq_step_cancel.prems])
qed (simp_all add: dequeue_advances pq_heartbeat_def pq_acknowledge_def pq_fail_def settle_advances
      beat_evolves settle_evolves)

definition fresh_tables :: "queue_tables \<Rightarrow> bool" where
  "fresh_tables db \<longleftrightarrow> qt_jobs db = []"

lemma fresh_tables_ok: "fresh_tables db \<Longrightarrow> tables_ok mx db"
  by (simp add: fresh_tables_def tables_ok_def)

interpretation pq_system: invariant_system fresh_tables "pq_step sha mx"
    "\<lambda>db. 0 < mx \<longrightarrow> tables_ok mx db" for sha mx
  by unfold_locales (auto simp: fresh_tables_ok dest: pq_step_advances simp: advances_def)

lemma pq_steps_advance: "(pq_step sha mx)\<^sup>*\<^sup>* db db' \<Longrightarrow> 0 < mx \<Longrightarrow> advances mx db db'"
  by (induction rule: rtranclp_induct) (auto intro: advances_trans pq_step_advances)

lemma life_of_ok: "tables_ok mx db \<Longrightarrow> life_ok mx (job_life_of db i)"
  by (auto simp: job_life_of_def row_of_def tables_ok_def row_ok_def find_Some_iff split: option.splits)

text \<open>C4. The durable queue implements the life cycle of a job: from any reachable tables, whatever
  transactions follow in whatever order, every job moves along its life (admitted, delivered,
  returned, settled or cancelled); it is never delivered more often than its limit, its count of
  deliveries never falls, and once it has ended nothing changes it.\<close>

theorem durable_jobs_follow_their_lives:
  assumes "0 < mx" and "reach fresh_tables (pq_step sha mx) db" and "(pq_step sha mx)\<^sup>*\<^sup>* db db'"
  shows "(life_step mx)\<^sup>*\<^sup>* (job_life_of db i) (job_life_of db' i)
     \<and> deliveries (job_life_of db i) \<le> deliveries (job_life_of db' i)
     \<and> deliveries (job_life_of db' i) \<le> mx
     \<and> (ended (job_life_of db i) \<longrightarrow> job_life_of db' i = job_life_of db i)"
proof -
  have ok: "tables_ok mx db" using pq_system.reach_inv [OF assms(2)] assms(1) by simp
  have adv: "advances mx db db'" using assms(1,3) by (simp add: pq_steps_advance)
  then have l: "(life_step mx)\<^sup>*\<^sup>* (job_life_of db i) (job_life_of db' i)"
    using ok by (simp add: advances_def)
  have "tables_ok mx db'" using adv ok by (simp add: advances_def)
  then have "deliveries (job_life_of db' i) \<le> mx"
    using deliveries_bounded [OF life_of_ok, of mx db' i] assms(1) by simp
  then show ?thesis using l deliveries_monos [OF l] ended_is_final [OF l] by simp
qed

section \<open>The leases are fenced\<close>

definition pq_ok :: "queue_tables \<Rightarrow> bool" where
  "pq_ok db \<longleftrightarrow> distinct (map jr_id (qt_jobs db))
     \<and> (\<forall>r\<in>set (qt_jobs db). jr_status r = JS_PROCESSING \<longrightarrow> jr_locked_by r \<noteq> None)"

definition pq_holder :: "queue_tables \<Rightarrow> workflow_job \<Rightarrow> string option" where
  "pq_holder db job =
     (case row_of db (wj_id job) of
        None \<Rightarrow> None | Some r \<Rightarrow> if jr_status r = JS_PROCESSING then jr_locked_by r else None)"

definition same_job :: "workflow_job \<Rightarrow> workflow_job \<Rightarrow> bool" where
  "same_job j j' \<longleftrightarrow> wj_id j = wj_id j'"

lemma tables_pq_ok: "tables_ok mx db \<Longrightarrow> pq_ok db"
  by (auto simp: tables_ok_def pq_ok_def row_ok_def strict_sorted_iff)

lemma row_of_Some: "pq_ok db \<Longrightarrow> row_of db i = Some r \<longleftrightarrow> r \<in> set (qt_jobs db) \<and> jr_id r = i"
proof
  assume "pq_ok db" and r: "r \<in> set (qt_jobs db) \<and> jr_id r = i"
  then have inj: "inj_on jr_id (set (qt_jobs db))" by (simp add: pq_ok_def distinct_map)
  obtain x where "row_of db i = Some x"
    using r by (cases "row_of db i") (auto simp: row_of_def find_None_iff)
  then show "row_of db i = Some r"
    using inj_onD [OF inj, of x r] r by (auto simp: row_of_def find_Some_iff)
qed (auto simp: row_of_def find_Some_iff)

lemma row_of_update:
  "(\<And>r. jr_id (f r) = jr_id r) \<Longrightarrow>
   row_of (update_jobs p f db) i = map_option (\<lambda>r. if p r then f r else r) (row_of db i)"
proof -
  assume f: "\<And>r. jr_id (f r) = jr_id r"
  have "List.find (\<lambda>r. jr_id r = i) (map (\<lambda>r. if p r then f r else r) rs)
        = map_option (\<lambda>r. if p r then f r else r) (List.find (\<lambda>r. jr_id r = i) rs)" for rs
    by (induction rs) (auto simp: f)
  then show ?thesis by (simp add: row_of_def update_jobs_def)
qed

lemma held_iff:
  "pq_ok db \<Longrightarrow> wj_locked_by j \<noteq> None \<and> (\<exists>r\<in>set (qt_jobs db). held_row j r)
     \<longleftrightarrow> pq_holder db j \<noteq> None \<and> pq_holder db j = wj_locked_by j"
proof -
  assume ok: "pq_ok db"
  have "(\<exists>r\<in>set (qt_jobs db). held_row j r)
        \<longleftrightarrow> (\<exists>r. row_of db (wj_id j) = Some r \<and> jr_status r = JS_PROCESSING \<and> jr_locked_by r = wj_locked_by j)"
    by (auto simp: row_of_Some [OF ok] held_row_def)
  then show ?thesis by (auto simp: pq_holder_def split: option.splits if_splits; metis)
qed

lemma settle_fst: "pq_ok db \<Longrightarrow>
    fst (settle_row j f db) \<longleftrightarrow> pq_holder db j \<noteq> None \<and> pq_holder db j = wj_locked_by j"
  using held_iff [of db j] by (auto simp: settle_row_def)

lemma settle_refused: "\<not> fst (settle_row j f db) \<Longrightarrow> snd (settle_row j f db) = db"
proof (cases "wj_locked_by j")
  case (Some w)
  assume "\<not> fst (settle_row j f db)"
  then have "map (\<lambda>r. if held_row j r then f r else r) (qt_jobs db) = qt_jobs db"
    using Some by (intro map_idI) (simp add: settle_row_def)
  then show ?thesis using Some by (simp add: settle_row_def update_jobs_def)
qed (simp add: settle_row_def)

lemma settle_others:
  "(\<And>r. jr_id (f r) = jr_id r) \<Longrightarrow> \<not> same_job j j' \<Longrightarrow>
   pq_holder (snd (settle_row j f db)) j' = pq_holder db j'"
proof (cases "row_of db (wj_id j')")
  case (Some r)
  assume f: "\<And>r. jr_id (f r) = jr_id r" and other: "\<not> same_job j j'"
  have "jr_id r = wj_id j'" using Some by (auto simp: row_of_def find_Some_iff)
  then have "\<not> held_row j r" using other by (simp add: held_row_def same_job_def)
  then show ?thesis using Some by (simp add: settle_row_def pq_holder_def row_of_update f)
qed (simp add: settle_row_def pq_holder_def row_of_update)

lemma settle_ends:
  assumes "\<And>r. jr_id (f r) = jr_id r" and "\<And>r. jr_status (f r) \<noteq> JS_PROCESSING"
    and "pq_ok db" and "fst (settle_row j f db)" and "same_job j j'"
  shows "pq_holder (snd (settle_row j f db)) j' = None"
proof -
  have h: "wj_locked_by j \<noteq> None" using assms(4) by (auto simp: settle_row_def split: if_splits)
  obtain r where r: "row_of db (wj_id j) = Some r" "jr_status r = JS_PROCESSING"
      "jr_locked_by r = wj_locked_by j"
    using settle_fst [OF assms(3), of j f] assms(4)
    by (auto simp: pq_holder_def split: option.splits if_splits)
  have "jr_id r = wj_id j" using r(1) by (auto simp: row_of_def find_Some_iff)
  then show ?thesis
    using h r assms(1,2,5)
    by (auto simp: settle_row_def pq_holder_def row_of_update held_row_def same_job_def)
qed

lemma settle_pq_ok:
  "(\<And>r. jr_id (f r) = jr_id r) \<Longrightarrow>
   (\<And>r. jr_status (f r) = JS_PROCESSING \<Longrightarrow> jr_status r = JS_PROCESSING \<and> jr_locked_by (f r) = jr_locked_by r) \<Longrightarrow>
   pq_ok db \<Longrightarrow> pq_ok (snd (settle_row j f db))"
proof -
  assume f: "\<And>r. jr_id (f r) = jr_id r"
    and st: "\<And>r. jr_status (f r) = JS_PROCESSING \<Longrightarrow> jr_status r = JS_PROCESSING \<and> jr_locked_by (f r) = jr_locked_by r"
    and ok: "pq_ok db"
  have "jr_id \<circ> (\<lambda>r. if p r then f r else r) = jr_id" for p by (simp add: fun_eq_iff f)
  then show ?thesis
    using ok st by (auto simp: settle_row_def pq_ok_def update_jobs_def)
qed

lemma beat_holder_same:
  "pq_holder (snd (pq_heartbeat t j db)) j' = pq_holder db j'"
  by (auto simp: pq_heartbeat_def settle_row_def pq_holder_def row_of_update split: option.splits)

lemma pq_fenced:
  "pq_ok db \<Longrightarrow> fst (pq_heartbeat t j db) \<longleftrightarrow> pq_holder db j \<noteq> None \<and> pq_holder db j = wj_locked_by j"
  "pq_ok db \<Longrightarrow> fst (pq_acknowledge t j db) \<longleftrightarrow> pq_holder db j \<noteq> None \<and> pq_holder db j = wj_locked_by j"
  "pq_ok db \<Longrightarrow> fst (pq_fail t j e db) \<longleftrightarrow> pq_holder db j \<noteq> None \<and> pq_holder db j = wj_locked_by j"
  unfolding pq_heartbeat_def pq_acknowledge_def pq_fail_def by (rule settle_fst; assumption)+

lemma pq_settlement_ok:
  "pq_ok db \<Longrightarrow> pq_ok (snd (pq_heartbeat t j db))"
  "pq_ok db \<Longrightarrow> pq_ok (snd (pq_acknowledge t j db))"
  "pq_ok db \<Longrightarrow> pq_ok (snd (pq_fail t j e db))"
  unfolding pq_heartbeat_def pq_acknowledge_def pq_fail_def
  by (rule settle_pq_ok; simp)+

lemma pq_refused:
  "\<not> fst (pq_acknowledge t j db) \<Longrightarrow> snd (pq_acknowledge t j db) = db"
  "\<not> fst (pq_fail t j e db) \<Longrightarrow> snd (pq_fail t j e db) = db"
  unfolding pq_acknowledge_def pq_fail_def by (rule settle_refused; assumption)+

lemma pq_settled:
  "pq_ok db \<Longrightarrow> fst (pq_acknowledge t j db) \<Longrightarrow> same_job j j' \<Longrightarrow>
   pq_holder (snd (pq_acknowledge t j db)) j' = None"
  "pq_ok db \<Longrightarrow> fst (pq_fail t j e db) \<Longrightarrow> same_job j j' \<Longrightarrow>
   pq_holder (snd (pq_fail t j e db)) j' = None"
  unfolding pq_acknowledge_def pq_fail_def by (rule settle_ends; simp)+

lemma pq_unaffected:
  "\<not> same_job j j' \<Longrightarrow> pq_holder (snd (pq_acknowledge t j db)) j' = pq_holder db j'"
  "\<not> same_job j j' \<Longrightarrow> pq_holder (snd (pq_fail t j e db)) j' = pq_holder db j'"
  unfolding pq_acknowledge_def pq_fail_def by (rule settle_others; simp)+

lemma same_job_refl: "same_job j j"
  by (simp add: same_job_def)

lemmas pq_laws = same_job_refl pq_settlement_ok pq_fenced pq_refused beat_holder_same pq_settled
  pq_unaffected

interpretation pq: lease_queue pq_ok pq_holder same_job pq_heartbeat pq_acknowledge pq_fail
  by unfold_locales (rule pq_laws; assumption)+

text \<open>C6. In both queues only the worker that holds the lease can keep it alive or settle the job:
  anyone else, a worker whose lease expired and went to another included, is refused and changes
  nothing.\<close>

theorem only_the_holder_settles:
  assumes "reach mq_fresh (mq_step sha) q" and "mq_holder q j \<noteq> wj_locked_by j"
    and "0 < mx" and "reach fresh_tables (pq_step sha mx) db" and "pq_holder db k \<noteq> wj_locked_by k"
  shows "\<not> fst (mq_heartbeat t j q) \<and> mq_acknowledge t j q = (False, q)
     \<and> mq_fail t j e q = (False, q)
     \<and> \<not> fst (pq_heartbeat t k db) \<and> pq_acknowledge t k db = (False, db)
     \<and> pq_fail t k e db = (False, db)"
proof -
  have "mq_ok q" using mq_system.reach_inv [OF assms(1)] by (simp add: mq_accounts_def)
  moreover have "pq_ok db" using pq_system.reach_inv [OF assms(4)] assms(3) tables_pq_ok by blast
  ultimately show ?thesis
    using mq.stale_worker_is_fenced [of q j t e] pq.stale_worker_is_fenced [of db k t e] assms(2,5)
    by (simp add: prod_eq_iff)
qed

text \<open>In the durable queue a job is settled once and for all: after an acknowledgement or a
  failure succeeded, no transaction of any process makes a later heartbeat, acknowledgement or
  failure of that job succeed, whoever the job value says holds it.\<close>

lemma settled_jobs_stay_settled:
  assumes "0 < mx" and "reach fresh_tables (pq_step sha mx) db"
    and "s = pq_acknowledge t j db \<or> s = pq_fail t j e db" and "fst s"
    and "(pq_step sha mx)\<^sup>*\<^sup>* (snd s) db'" and "wj_id k = wj_id j"
  shows "\<not> fst (pq_heartbeat t' k db') \<and> pq_acknowledge t' k db' = (False, db')
     \<and> pq_fail t' k e' db' = (False, db')"
proof -
  have ok: "tables_ok mx db" using pq_system.reach_inv [OF assms(2)] assms(1) by simp
  then have pok: "pq_ok db" by (rule tables_pq_ok)
  have step: "pq_step sha mx db (snd s)"
    using assms(3) pq_step_acknowledge [of sha mx db t j] pq_step_fail [of sha mx db t j e] by auto
  then have ok1: "tables_ok mx (snd s)"
    using pq_step_advances [OF step assms(1)] ok by (simp add: advances_def)
  have "pq_holder db j \<noteq> None \<and> pq_holder db j = wj_locked_by j"
    using assms(3,4) pq_fenced(2) [OF pok, of t j] pq_fenced(3) [OF pok, of t j e] by metis
  then have held: "pq_holder db j = wj_locked_by j" "wj_locked_by j \<noteq> None" by metis+
  then obtain r where r: "row_of db (wj_id j) = Some r" "jr_status r = JS_PROCESSING"
      "jr_locked_by r = wj_locked_by j"
    by (cases "row_of db (wj_id j)") (auto simp: pq_holder_def split: if_splits)
  have "jr_id r = wj_id j" using r(1) by (auto simp: row_of_def find_Some_iff)
  then have "held_row j r" using r by (simp add: held_row_def)
  then have "ended (job_life_of (snd s) (wj_id j))"
    using assms(3) r held(2)
    by (auto simp: pq_acknowledge_def pq_fail_def settle_row_def job_life_of_def row_of_update row_life_def)
  moreover have adv: "advances mx (snd s) db'" by (rule pq_steps_advance [OF assms(5,1)])
  ultimately have "ended (job_life_of db' (wj_id j))"
    using ok1 ended_is_final unfolding advances_def by metis
  then have "pq_holder db' k = None"
    by (auto simp: assms(6) pq_holder_def job_life_of_def row_life_def split: option.splits)
  moreover have "pq_ok db'" using adv ok1 unfolding advances_def by (blast intro: tables_pq_ok)
  ultimately show ?thesis
    using pq_fenced [of db'] pq_refused by (simp add: prod_eq_iff)
qed

section \<open>What is delivered\<close>

text \<open>\<open>dequeue\<close> delivers the oldest job that is waiting once expired leases are returned and that
  the installation may run, and only to a worker registered for the installation the job is
  bound to; under an enforced installation policy every job is bound.\<close>

lemma delivery_is_oldest_and_bound:
  assumes "0 < mx" and "reach fresh_tables (pq_step sha mx) db"
    and "pq_dequeue c now skipped worker db = (Inr (Some job), db')"
  shows "\<exists>r\<in>set (qt_jobs (pq_requeue_expired c now db)). claimable c now skipped r
     \<and> job = row_job (lease_row worker now r)
     \<and> (\<forall>r'\<in>set (qt_jobs (pq_requeue_expired c now db)).
          claimable c now skipped r' \<longrightarrow> jr_id r \<le> jr_id r')
     \<and> (qt_enforced db \<or> jr_required_fingerprint r \<noteq> None \<longrightarrow>
          (\<exists>w. map_of (qt_workers db) worker = Some w
             \<and> wr_deployment_fingerprint w = jr_required_fingerprint r
             \<and> jr_required_fingerprint r = pq_deployment_fingerprint c
             \<and> jr_required_fingerprint r \<noteq> None))"
proof -
  let ?db1 = "pq_requeue_expired c now db"
  have ok: "tables_ok mx db" using pq_system.reach_inv [OF assms(2)] assms(1) by simp
  have ev: "rows_evolve mx db ?db1"
    unfolding pq_requeue_expired_def by (intro update_jobs_evolve expire_evolves [OF assms(1)])
  have enf: "qt_enforced ?db1 = qt_enforced db" and wk: "qt_workers ?db1 = qt_workers db"
    by (simp_all add: pq_requeue_expired_def update_jobs_def)
  have ok1: "tables_ok mx ?db1"
    using tables_ok_evolves [OF ok ev] bound_evolves [OF ev ok] enf by blast
  obtain r where r: "List.find (claimable c now skipped) (qt_jobs ?db1) = Some r"
      "guard_lease ?db1 r worker" "job = row_job (lease_row worker now r)"
    using assms(3) by (auto simp: pq_dequeue_def transaction_def Let_def split: if_splits option.splits)
  then have mem: "r \<in> set (qt_jobs ?db1)" and cl: "claimable c now skipped r"
    by (auto simp: find_Some_iff)
  have "jr_id r \<le> jr_id r'" if r': "r' \<in> set (qt_jobs ?db1)" "claimable c now skipped r'" for r'
  proof -
    have s: "sorted (map jr_id (qt_jobs ?db1))" using ok1 by (simp add: tables_ok_def strict_sorted_iff)
    obtain i where i: "i < length (qt_jobs ?db1)" "r = qt_jobs ?db1 ! i"
        "\<forall>k<i. \<not> claimable c now skipped (qt_jobs ?db1 ! k)"
      using r(1) by (auto simp: find_Some_iff)
    obtain k where k: "k < length (qt_jobs ?db1)" "r' = qt_jobs ?db1 ! k"
      using r'(1) by (auto simp: in_set_conv_nth)
    have "i \<le> k" using i(3) k(2) r'(2) by (metis not_less)
    then show ?thesis using sorted_nth_mono [OF s, of i k] i(1,2) k by simp
  qed
  moreover have "\<exists>w. map_of (qt_workers db) worker = Some w
       \<and> wr_deployment_fingerprint w = jr_required_fingerprint r
       \<and> jr_required_fingerprint r = pq_deployment_fingerprint c
       \<and> jr_required_fingerprint r \<noteq> None"
    if "qt_enforced db \<or> jr_required_fingerprint r \<noteq> None"
  proof -
    have "jr_required_fingerprint r \<noteq> None"
      using that ok1 mem enf by (auto simp: tables_ok_def)
    then show ?thesis
      using r(2) cl by (auto simp: guard_lease_def wk claimable_def split: option.splits)
  qed
  ultimately show ?thesis using mem cl r(3) by blast
qed

section \<open>Both queues admit the same starts\<close>

text \<open>The two states know the same keys, receipts, workflows and dispatch scope.\<close>

definition same_admission :: "memory_queue \<Rightarrow> queue_tables \<Rightarrow> bool" where
  "same_admission q db \<longleftrightarrow> map_of (mq_idempotency q) = map_of (qt_idempotency db)
     \<and> map_of (mq_start_receipts q) = map_of (qt_receipts db)
     \<and> qt_namespace db = Some (mq_dispatch_scope q)
     \<and> fst ` set (mq_access q) = jr_workflow_id ` set (qt_jobs db)
     \<and> [] \<notin> ran (map_of (mq_idempotency q))"

lemma enable_admission [simp]:
  "qt_idempotency (enable_installation c db) = qt_idempotency db"
  "qt_receipts (enable_installation c db) = qt_receipts db"
  "qt_namespace (enable_installation c db) = qt_namespace db"
  "jr_workflow_id ` set (qt_jobs (enable_installation c db)) = jr_workflow_id ` set (qt_jobs db)"
proof -
  have "list_all2 (evolves mx) rs rs' \<Longrightarrow> map jr_workflow_id rs' = map jr_workflow_id rs" for mx rs rs'
    by (induction rule: list_all2_induct) (auto simp: evolves_def)
  then have "map jr_workflow_id (qt_jobs (enable_installation c db)) = map jr_workflow_id (qt_jobs db)"
    using enable_evolves unfolding rows_evolve_def by blast
  then show "jr_workflow_id ` set (qt_jobs (enable_installation c db)) = jr_workflow_id ` set (qt_jobs db)"
    by (metis list.set_map)
qed (simp_all add: enable_installation_def update_jobs_def)

lemma insert_admission [simp]:
  "qt_idempotency (insert_job c now w pr ow kind payload db) = qt_idempotency db"
  "qt_receipts (insert_job c now w pr ow kind payload db) = qt_receipts db"
  "qt_namespace (insert_job c now w pr ow kind payload db) = qt_namespace db"
  "jr_workflow_id ` set (qt_jobs (insert_job c now w pr ow kind payload db))
     = insert w (jr_workflow_id ` set (qt_jobs db))"
  by (simp_all add: insert_job_def)

lemma mq_admit_admission:
  "same_admission q db \<Longrightarrow> sr_workflow_id r \<noteq> [] \<Longrightarrow>
   map_of (qt_idempotency db') = (case request_key r of None \<Rightarrow> map_of (qt_idempotency db)
      | Some k \<Rightarrow> (map_of (qt_idempotency db))(k \<mapsto> sr_workflow_id r)) \<Longrightarrow>
   map_of (qt_receipts db') = (map_of (qt_receipts db))(sr_workflow_id r \<mapsto> d) \<Longrightarrow>
   qt_namespace db' = qt_namespace db \<Longrightarrow>
   jr_workflow_id ` set (qt_jobs db') = insert (sr_workflow_id r) (jr_workflow_id ` set (qt_jobs db)) \<Longrightarrow>
   same_admission (mq_admit d r q) db'"
  by (auto simp: same_admission_def mq_admit_def Let_def dom_update ran_def split: option.splits if_splits)

text \<open>C29. The in-memory and the durable queue admit the same starts: from states that know the same
  keys, receipts and workflows, both accept a request with the same workflow or both refuse it,
  and the states after it still agree; the one exception to the last is a known workflow id
  submitted under a new key, which only the durable queue records.\<close>

theorem backends_admit_alike:
  assumes "same_admission q db" and "sr_workflow_id r \<noteq> []"
  shows "(fst (mq_enqueue_start sha r q) = Inr w \<longleftrightarrow> fst (pq_enqueue_start sha c now r db) = Inr w)
     \<and> (request_key r = None \<or> map_of (mq_start_receipts q) (sr_workflow_id r) = None \<longrightarrow>
          same_admission (snd (mq_enqueue_start sha r q)) (snd (pq_enqueue_start sha c now r db)))"
proof -
  let ?db1 = "enable_installation c db"
  have acc: "(\<exists>j\<in>set (qt_jobs ?db1). jr_workflow_id j = v) \<longleftrightarrow> map_of (mq_access q) v \<noteq> None" for v
  proof -
    have "map_of (mq_access q) v \<noteq> None \<longleftrightarrow> v \<in> fst ` set (mq_access q)"
      by (metis domI domIff dom_map_of_conv_image_fst)
    also have "\<dots> \<longleftrightarrow> v \<in> jr_workflow_id ` set (qt_jobs ?db1)"
      using assms(1) by (simp add: same_admission_def)
    finally show ?thesis by (simp only:) blast
  qed
  have en: "same_admission q ?db1"
    using assms(1) unfolding same_admission_def enable_admission .
  have maps: "map_of (qt_idempotency db) = map_of (mq_idempotency q)"
      "map_of (qt_receipts db) = map_of (mq_start_receipts q)"
      "qt_namespace db = Some (mq_dispatch_scope q)"
    using assms(1) by (simp_all add: same_admission_def)
  have filled: "map_of (mq_idempotency q) k = Some v \<Longrightarrow> v \<noteq> []" for k v
    using assms(1) unfolding same_admission_def by (metis ranI)
  let ?d = "request_digest sha r" and ?w = "sr_workflow_id r"
  show ?thesis
  proof (cases "sr_expected_dispatch_scope r \<noteq> None
                \<and> sr_expected_dispatch_scope r \<noteq> Some (mq_dispatch_scope q)")
    case True
    then show ?thesis
      using assms(1)
      by (auto simp: mq_enqueue_start_def pq_enqueue_start_def transaction_def maps Let_def)
  next
    case False
    note scope = False
    have admitted: "same_admission (mq_admit ?d r q)
        (insert_job c now ?w pr ow J_START payload
          (db2\<lparr>qt_receipts := AList.update ?w ?d (qt_receipts db)\<rparr>))"
      if "qt_receipts db2 = qt_receipts ?db1" "qt_namespace db2 = qt_namespace ?db1"
        "qt_jobs db2 = qt_jobs ?db1"
        "map_of (qt_idempotency db2) = (case request_key r of None \<Rightarrow> map_of (mq_idempotency q)
           | Some k \<Rightarrow> (map_of (mq_idempotency q))(k \<mapsto> ?w))" for db2 pr ow payload
      by (rule mq_admit_admission [OF en assms(2)]) (simp_all add: that maps split: option.split)
    show ?thesis
    proof (cases "request_key r")
      case None
      show ?thesis
        using scope en
        by (cases "map_of (mq_start_receipts q) ?w"; cases "map_of (mq_access q) ?w")
           (auto simp: mq_enqueue_start_def pq_enqueue_start_def transaction_def admit_start_def
              None or_str_def maps acc admitted assms(1) Let_def)
    next
      case (Some k)
      show ?thesis
      proof (cases "map_of (mq_idempotency q) k")
        case None
        show ?thesis
          using scope Some
          by (cases "map_of (mq_start_receipts q) ?w"; cases "map_of (mq_access q) ?w")
             (auto simp: mq_enqueue_start_def pq_enqueue_start_def transaction_def admit_start_def
                claim_key_def None or_str_def maps acc admitted assms(1) Let_def)
      next
        case (Some v)
        show ?thesis
          using scope \<open>request_key r = Some k\<close> en filled [OF Some]
          by (cases "map_of (mq_start_receipts q) v")
             (auto simp: mq_enqueue_start_def pq_enqueue_start_def transaction_def admit_start_def
                claim_key_def Some or_str_def maps acc assms(1) Let_def)
      qed
    qed
  qed
qed

section \<open>Concrete runs\<close>

definition postgres_sample :: postgres_queue where
  "postgres_sample = \<lparr>pq_lease_seconds = 30, pq_max_delivery_attempts = 3,
     pq_deployment_fingerprint = None, pq_installation_required = False\<rparr>"

definition tables_sample :: queue_tables where
  "tables_sample = snd (pq_enqueue_start sha_sample postgres_sample 2 (start_sample ''w'') (new_tables ''s''))"

definition leased_tables :: queue_tables where
  "leased_tables = snd (pq_dequeue postgres_sample 5 [] ''worker'' tables_sample)"

definition row_sample :: job_row where
  "row_sample =
     \<lparr>jr_id = 1, jr_workflow_id = ''w'', jr_project_id = ''p'', jr_owner_client_id = ''o'',
      jr_kind = J_START,
      jr_payload = PDict (AList.update ''workflow_id'' (PStr ''w'') (request_copy (start_sample ''w''))),
      jr_status = JS_QUEUED, jr_error = None, jr_attempts = 0, jr_max_attempts = 3,
      jr_locked_by = None, jr_locked_at = None, jr_retry_after = 2,
      jr_required_fingerprint = None\<rparr>"

lemma tables_sample_jobs: "qt_jobs tables_sample = [row_sample]" "qt_workers tables_sample = []"
  "qt_enforced tables_sample = False"
  by (simp_all add: tables_sample_def pq_enqueue_start_def new_tables_def postgres_sample_def
      enable_installation_def start_sample_def request_key_def truthy_str_def claim_key_def
      admit_start_def transaction_def insert_job_def guard_insert_def pq_required_fingerprint_def
      row_sample_def Let_def)

lemma sample_expiry: "pq_requeue_expired postgres_sample 5 tables_sample = tables_sample"
proof -
  have "map (\<lambda>r. if row_expired postgres_sample 5 r then expire_row 5 r else r) (qt_jobs tables_sample)
        = qt_jobs tables_sample"
    by (simp add: tables_sample_jobs row_expired_def row_sample_def)
  then show ?thesis by (simp add: pq_requeue_expired_def update_jobs_def)
qed

lemma sample_dequeue:
  "pq_dequeue postgres_sample 5 [] ''worker'' tables_sample
     = (Inr (Some (row_job (lease_row ''worker'' 5 row_sample))), leased_tables)"
  "qt_jobs leased_tables = [lease_row ''worker'' 5 row_sample]"
  unfolding leased_tables_def pq_dequeue_def Let_def sample_expiry tables_sample_jobs(1)
  by (simp_all add: postgres_sample_def claimable_def row_sample_def guard_lease_def transaction_def
      update_jobs_def tables_sample_jobs(1))

lemma tables_sample_reached: "reach fresh_tables (pq_step sha_sample 3) tables_sample"
proof -
  have "pq_step sha_sample 3 (new_tables ''s'') tables_sample"
    unfolding tables_sample_def by (rule pq_step_start) (simp add: postgres_sample_def)
  moreover have "fresh_tables (new_tables ''s'')" by (simp add: fresh_tables_def new_tables_def)
  ultimately show ?thesis by (blast intro: reach_step reach_init)
qed

lemma leased_tables_step: "pq_step sha_sample 3 tables_sample leased_tables"
  unfolding leased_tables_def by (rule pq_step_dequeue)

definition job_sample :: workflow_job where
  "job_sample = row_job (lease_row ''worker'' 5 row_sample)"

lemma leased_tables_reached: "reach fresh_tables (pq_step sha_sample 3) leased_tables"
  by (rule reach_step [OF tables_sample_reached]) (rule leased_tables_step)

theorem durable_jobs_follow_their_lives_witness:
  "(life_step 3)\<^sup>*\<^sup>* (job_life_of tables_sample 1) (job_life_of leased_tables 1)
   \<and> deliveries (job_life_of leased_tables 1) \<le> 3"
  using durable_jobs_follow_their_lives [OF _ tables_sample_reached r_into_rtranclp [of "pq_step sha_sample 3", OF leased_tables_step], of 1]
  by simp

theorem only_the_holder_settles_witness:
  "mq_acknowledge 6 (job_sample\<lparr>wj_locked_by := Some ''late''\<rparr>) leased_sample = (False, leased_sample)
   \<and> pq_acknowledge 6 (job_sample\<lparr>wj_locked_by := Some ''late''\<rparr>) leased_tables = (False, leased_tables)"
proof -
  let ?late = "job_sample\<lparr>wj_locked_by := Some ''late''\<rparr>"
  have "mq_holder leased_sample ?late \<noteq> wj_locked_by ?late"
    by (simp add: leased_sample_def memory_sample_def mq_enqueue_start_def new_memory_queue_def Let_def
        or_str_def request_key_def truthy_str_def mq_admit_def start_job_def start_sample_def
        mq_requeue_expired_def mq_lease_def mq_holder_def leased_def job_sample_def row_job_def
        lease_row_def row_sample_def)
  moreover have "pq_holder leased_tables ?late \<noteq> wj_locked_by ?late"
    by (simp add: pq_holder_def row_of_def sample_dequeue(2) job_sample_def row_job_def lease_row_def
        row_sample_def)
  ultimately show ?thesis
    using only_the_holder_settles [OF leased_sample_reached _ _
        leased_tables_reached, of ?late ?late 6 "''e''"]
    by simp
qed

lemma settled_jobs_stay_settled_witness:
  "pq_fail 8 job_sample ''e'' (snd (pq_acknowledge 6 job_sample leased_tables))
     = (False, snd (pq_acknowledge 6 job_sample leased_tables))"
proof -
  have "fst (pq_acknowledge 6 job_sample leased_tables)"
    by (simp add: pq_acknowledge_def settle_row_def sample_dequeue(2) held_row_def job_sample_def
        row_job_def lease_row_def)
  then show ?thesis
    using settled_jobs_stay_settled [OF _ leased_tables_reached,
        of "pq_acknowledge 6 job_sample leased_tables" 6 job_sample "''e''" _ job_sample 8 "''e''"]
    by simp
qed

lemma delivery_is_oldest_and_bound_witness:
  "\<exists>r\<in>set (qt_jobs (pq_requeue_expired postgres_sample 5 tables_sample)).
     job_sample = row_job (lease_row ''worker'' 5 r)"
  using delivery_is_oldest_and_bound [OF _ tables_sample_reached sample_dequeue(1)]
  by (auto simp: job_sample_def)

theorem backends_admit_alike_witness:
  "fst (pq_enqueue_start sha_sample postgres_sample 2 (start_sample ''w'') (new_tables ''s'')) = Inr ''w''"
proof -
  have "same_admission (new_memory_queue 30 3 ''s'') (new_tables ''s'')"
    by (simp add: same_admission_def new_memory_queue_def new_tables_def)
  then show ?thesis
    using backends_admit_alike [of "new_memory_queue 30 3 ''s''" "new_tables ''s''" "start_sample ''w''"
        sha_sample "''w''" postgres_sample 2] memory_sample_starts
    by (simp add: start_sample_def)
qed

end
