(* ===== verification/Effect_Monad.thy ===== *)
theory Effect_Monad imports Prelude begin

text \<open>
  Code that reads and writes a state and may raise: functions from the state to a result and a
  state. The state is kept when an exception passes, as Python keeps it. \<open>io_wp\<close> is the weakest
  precondition of a computation for a postcondition on its value and one on its exception; its
  equations compute it along the code, so a claim about an operation is a simplification.
\<close>

type_synonym ('s, 'a) io = "'s \<Rightarrow> 'a result \<times> 's"

definition io_return :: "'a \<Rightarrow> ('s, 'a) io" where
  "io_return x s = (Inr x, s)"

definition io_raise :: "exc \<Rightarrow> ('s, 'a) io" where
  "io_raise e s = (Inl e, s)"

definition io_bind :: "('s, 'a) io \<Rightarrow> ('a \<Rightarrow> ('s, 'b) io) \<Rightarrow> ('s, 'b) io" where
  "io_bind m f s = (case m s of (Inl e, t) \<Rightarrow> (Inl e, t) | (Inr a, t) \<Rightarrow> f a t)"

definition io_then :: "('s, 'a) io \<Rightarrow> ('s, 'b) io \<Rightarrow> ('s, 'b) io" where
  "io_then m n = io_bind m (\<lambda>_. n)"

definition io_gets :: "('s \<Rightarrow> 'a) \<Rightarrow> ('s, 'a) io" where
  "io_gets f s = (Inr (f s), s)"

definition io_modify :: "('s \<Rightarrow> 's) \<Rightarrow> ('s, unit) io" where
  "io_modify f s = (Inr (), f s)"

definition io_guard :: "bool \<Rightarrow> exc \<Rightarrow> ('s, unit) io" where
  "io_guard b e = (if b then io_return () else io_raise e)"

text \<open>A computation that is only a result.\<close>

definition io_lift :: "'a result \<Rightarrow> ('s, 'a) io" where
  "io_lift r s = (r, s)"

definition io_when :: "bool \<Rightarrow> ('s, unit) io \<Rightarrow> ('s, unit) io" where
  "io_when b m = (if b then m else io_return ())"

text \<open>\<open>try: m except: handler\<close>.\<close>

definition io_catch :: "('s, 'a) io \<Rightarrow> (exc \<Rightarrow> ('s, 'a) io) \<Rightarrow> ('s, 'a) io" where
  "io_catch m h s = (case m s of (Inl e, t) \<Rightarrow> h e t | (Inr a, t) \<Rightarrow> (Inr a, t))"

text \<open>\<open>try: m finally: f\<close>.\<close>

definition io_finally :: "('s, 'a) io \<Rightarrow> ('s, unit) io \<Rightarrow> ('s, 'a) io" where
  "io_finally m f s =
     (case m s of (r, t) \<Rightarrow> (case f t of (Inl e, u) \<Rightarrow> (Inl e, u) | (Inr _, u) \<Rightarrow> (r, u)))"

text \<open>The outcome of a computation as a value.\<close>

definition io_try :: "('s, 'a) io \<Rightarrow> ('s, 'a result) io" where
  "io_try m s = (case m s of (r, t) \<Rightarrow> (Inr r, t))"

primrec io_each :: "('a \<Rightarrow> ('s, unit) io) \<Rightarrow> 'a list \<Rightarrow> ('s, unit) io" where
  "io_each f [] = io_return ()"
| "io_each f (x # xs) = io_then (f x) (io_each f xs)"

definition io_wp ::
  "('s, 'a) io \<Rightarrow> ('a \<Rightarrow> 's \<Rightarrow> bool) \<Rightarrow> (exc \<Rightarrow> 's \<Rightarrow> bool) \<Rightarrow> 's \<Rightarrow> bool" where
  "io_wp m Q E s \<longleftrightarrow> (case m s of (Inl e, t) \<Rightarrow> E e t | (Inr a, t) \<Rightarrow> Q a t)"

lemma io_wp_return [simp]: "io_wp (io_return x) Q E s = Q x s"
  by (simp add: io_wp_def io_return_def)

lemma io_wp_raise [simp]: "io_wp (io_raise e) Q E s = E e s"
  by (simp add: io_wp_def io_raise_def)

lemma io_wp_bind [simp]: "io_wp (io_bind m f) Q E s = io_wp m (\<lambda>a. io_wp (f a) Q E) E s"
  by (simp add: io_wp_def io_bind_def split: prod.splits sum.splits)

lemma io_wp_then [simp]: "io_wp (io_then m n) Q E s = io_wp m (\<lambda>_. io_wp n Q E) E s"
  by (simp add: io_then_def)

lemma io_wp_gets [simp]: "io_wp (io_gets f) Q E s = Q (f s) s"
  by (simp add: io_wp_def io_gets_def)

lemma io_wp_modify [simp]: "io_wp (io_modify f) Q E s = Q () (f s)"
  by (simp add: io_wp_def io_modify_def)

lemma io_wp_guard [simp]: "io_wp (io_guard b e) Q E s = (if b then Q () s else E e s)"
  by (simp add: io_guard_def)

lemma io_wp_lift [simp]:
  "io_wp (io_lift r) Q E s = (case r of Inl e \<Rightarrow> E e s | Inr a \<Rightarrow> Q a s)"
  by (simp add: io_wp_def io_lift_def split: sum.splits)

lemma io_wp_when [simp]: "io_wp (io_when b m) Q E s = (if b then io_wp m Q E s else Q () s)"
  by (simp add: io_when_def)

lemma io_wp_catch [simp]: "io_wp (io_catch m h) Q E s = io_wp m Q (\<lambda>e. io_wp (h e) Q E) s"
  by (simp add: io_wp_def io_catch_def split: prod.splits sum.splits)

lemma io_finally_Inr:
  "io_finally m f s = (Inr a, u) \<longleftrightarrow> (\<exists>t. m s = (Inr a, t) \<and> f t = (Inr (), u))"
  by (auto simp: io_finally_def split: prod.splits sum.splits)

lemma io_wp_finally [simp]:
  "io_wp (io_finally m f) Q E s = io_wp m (\<lambda>a. io_wp f (\<lambda>_. Q a) E) (\<lambda>e. io_wp f (\<lambda>_. E e) E) s"
  by (simp add: io_wp_def io_finally_def split: prod.splits sum.splits)

lemma io_wp_try [simp]: "io_wp (io_try m) Q E s = io_wp m (\<lambda>a. Q (Inr a)) (\<lambda>e. Q (Inl e)) s"
  by (simp add: io_wp_def io_try_def split: prod.splits sum.splits)

lemma io_wp_mono:
  "io_wp m Q E s \<Longrightarrow> (\<And>a t. Q a t \<Longrightarrow> Q' a t) \<Longrightarrow> (\<And>e t. E e t \<Longrightarrow> E' e t) \<Longrightarrow> io_wp m Q' E' s"
  by (simp add: io_wp_def split: prod.splits sum.splits)

lemma io_wpI: "(\<And>a t. m s = (Inr a, t) \<Longrightarrow> Q a t) \<Longrightarrow> (\<And>e t. m s = (Inl e, t) \<Longrightarrow> E e t) \<Longrightarrow> io_wp m Q E s"
  by (simp add: io_wp_def split: prod.splits sum.splits)

lemma io_wp_conj: "io_wp m Q E s \<Longrightarrow> io_wp m Q' E' s \<Longrightarrow> io_wp m (\<lambda>a t. Q a t \<and> Q' a t) (\<lambda>e t. E e t \<and> E' e t) s"
  by (simp add: io_wp_def split: prod.splits sum.splits)

lemma io_wp_True: "io_wp m (\<lambda>_ _. True) (\<lambda>_ _. True) s"
  by (simp add: io_wp_def split: prod.splits sum.splits)

lemma io_wp_Inr: "io_wp m Q E s \<Longrightarrow> m s = (Inr a, t) \<Longrightarrow> Q a t"
  by (simp add: io_wp_def)

lemma io_wp_Inl: "io_wp m Q E s \<Longrightarrow> m s = (Inl e, t) \<Longrightarrow> E e t"
  by (simp add: io_wp_def)

section \<open>What a computation keeps\<close>

text \<open>Whatever it returns or raises.\<close>

definition io_keeps :: "('s \<Rightarrow> bool) \<Rightarrow> ('s, 'a) io \<Rightarrow> bool" where
  "io_keeps P m \<longleftrightarrow> (\<forall>s. P s \<longrightarrow> P (snd (m s)))"

named_theorems keeps_intros \<open>what the combinators keep\<close>

lemma io_keepsD: "io_keeps P m \<Longrightarrow> P s \<Longrightarrow> P (snd (m s))"
  by (simp add: io_keeps_def)

lemma io_keeps_wp: "io_keeps P m \<Longrightarrow> P s \<Longrightarrow> io_wp m (\<lambda>_. P) (\<lambda>_. P) s"
  by (auto simp: io_keeps_def io_wp_def split: prod.splits sum.splits)

lemma io_wp_keeps: "(\<And>s. P s \<Longrightarrow> io_wp m (\<lambda>_. P) (\<lambda>_. P) s) \<Longrightarrow> io_keeps P m"
proof -
  assume h: "\<And>s. P s \<Longrightarrow> io_wp m (\<lambda>_. P) (\<lambda>_. P) s"
  have "P (snd (m s))" if "P s" for s
    using h [OF that] by (cases "m s"; cases "fst (m s)") (auto simp: io_wp_def)
  then show ?thesis by (simp add: io_keeps_def)
qed

lemma keeps_return [keeps_intros]: "io_keeps P (io_return x)"
  by (simp add: io_keeps_def io_return_def)

lemma keeps_raise [keeps_intros]: "io_keeps P (io_raise e)"
  by (simp add: io_keeps_def io_raise_def)

lemma keeps_gets [keeps_intros]: "io_keeps P (io_gets f)"
  by (simp add: io_keeps_def io_gets_def)

lemma keeps_lift [keeps_intros]: "io_keeps P (io_lift r)"
  by (simp add: io_keeps_def io_lift_def)

lemma keeps_guard [keeps_intros]: "io_keeps P (io_guard b e)"
  by (simp add: io_guard_def keeps_return keeps_raise)

lemma keeps_modify [keeps_intros]: "(\<And>s. P s \<Longrightarrow> P (f s)) \<Longrightarrow> io_keeps P (io_modify f)"
  by (simp add: io_keeps_def io_modify_def)

lemma keeps_bind [keeps_intros]:
  "io_keeps P m \<Longrightarrow> (\<And>a. io_keeps P (f a)) \<Longrightarrow> io_keeps P (io_bind m f)"
  by (rule io_wp_keeps) (auto dest: io_keeps_wp intro: io_wp_mono io_keeps_wp)

lemma keeps_then [keeps_intros]: "io_keeps P m \<Longrightarrow> io_keeps P n \<Longrightarrow> io_keeps P (io_then m n)"
  by (simp add: io_then_def keeps_bind)

lemma keeps_when [keeps_intros]: "(b \<Longrightarrow> io_keeps P m) \<Longrightarrow> io_keeps P (io_when b m)"
  by (simp add: io_when_def keeps_return)

lemma keeps_if [keeps_intros]:
  "(b \<Longrightarrow> io_keeps P m) \<Longrightarrow> (\<not> b \<Longrightarrow> io_keeps P n) \<Longrightarrow> io_keeps P (if b then m else n)"
  by simp

lemma keeps_option [keeps_intros]:
  "(x = None \<Longrightarrow> io_keeps P m) \<Longrightarrow> (\<And>y. x = Some y \<Longrightarrow> io_keeps P (f y)) \<Longrightarrow>
   io_keeps P (case x of None \<Rightarrow> m | Some y \<Rightarrow> f y)"
  by (cases x) simp_all

lemma keeps_catch [keeps_intros]:
  "io_keeps P m \<Longrightarrow> (\<And>e. io_keeps P (h e)) \<Longrightarrow> io_keeps P (io_catch m h)"
  by (rule io_wp_keeps) (auto dest: io_keeps_wp intro: io_wp_mono io_keeps_wp)

lemma keeps_finally [keeps_intros]: "io_keeps P m \<Longrightarrow> io_keeps P f \<Longrightarrow> io_keeps P (io_finally m f)"
  by (rule io_wp_keeps) (auto dest: io_keeps_wp intro: io_wp_mono io_keeps_wp)

lemma keeps_try [keeps_intros]: "io_keeps P m \<Longrightarrow> io_keeps P (io_try m)"
  by (rule io_wp_keeps) (simp add: io_keeps_wp)

lemma keeps_each [keeps_intros]: "(\<And>x. x \<in> set xs \<Longrightarrow> io_keeps P (f x)) \<Longrightarrow> io_keeps P (io_each f xs)"
  by (induction xs) (auto intro!: keeps_intros)

text \<open>The rest of a computation may use what its beginning returned.\<close>

lemma keeps_bind_facts:
  "io_keeps P m \<Longrightarrow> (\<And>s a t. m s = (Inr a, t) \<Longrightarrow> io_keeps P (f a)) \<Longrightarrow> io_keeps P (io_bind m f)"
  by (auto simp: io_keeps_def io_bind_def split: prod.splits sum.splits)

lemma keeps_then_facts:
  "io_keeps P m \<Longrightarrow> (\<And>s a t. m s = (Inr a, t) \<Longrightarrow> io_keeps P n) \<Longrightarrow> io_keeps P (io_then m n)"
  unfolding io_then_def by (rule keeps_bind_facts)

lemma io_guard_Inr [simp]: "io_guard b e s = (Inr a, t) \<longleftrightarrow> b \<and> t = s"
  by (auto simp: io_guard_def io_return_def io_raise_def)

lemma io_lift_Inr [simp]: "io_lift r s = (Inr a, t) \<longleftrightarrow> r = Inr a \<and> t = s"
  by (auto simp: io_lift_def)

lemma io_gets_Inr [simp]: "io_gets f s = (Inr a, t) \<longleftrightarrow> a = f s \<and> t = s"
  by (auto simp: io_gets_def)

lemma io_return_Inr [simp]: "io_return x s = (Inr a, t) \<longleftrightarrow> a = x \<and> t = s"
  by (auto simp: io_return_def)

lemma io_raise_Inr [simp]: "io_raise e s \<noteq> (Inr a, t)"
  by (simp add: io_raise_def)

lemma io_bind_Inr: "io_bind m f s = (Inr b, u) \<longleftrightarrow> (\<exists>a t. m s = (Inr a, t) \<and> f a t = (Inr b, u))"
  by (auto simp: io_bind_def split: prod.splits sum.splits)

lemma io_then_Inr: "io_then m n s = (Inr b, u) \<longleftrightarrow> (\<exists>a t. m s = (Inr a, t) \<and> n t = (Inr b, u))"
  by (simp add: io_then_def io_bind_Inr)

lemmas keeps_facts = keeps_return keeps_raise keeps_gets keeps_lift keeps_guard keeps_when keeps_if
  keeps_option keeps_catch keeps_bind_facts keeps_then_facts

section \<open>What a computation returns\<close>

text \<open>Whenever it does not raise.\<close>

definition io_returns :: "('s, 'a) io \<Rightarrow> ('a \<Rightarrow> 's \<Rightarrow> bool) \<Rightarrow> bool" where
  "io_returns m Q \<longleftrightarrow> (\<forall>s a t. m s = (Inr a, t) \<longrightarrow> Q a t)"

lemma io_returnsD: "io_returns m Q \<Longrightarrow> m s = (Inr a, t) \<Longrightarrow> Q a t"
  by (simp add: io_returns_def)

lemma returns_bind:
  "(\<And>s a t. m s = (Inr a, t) \<Longrightarrow> io_returns (f a) Q) \<Longrightarrow> io_returns (io_bind m f) Q"
  by (auto simp: io_returns_def io_bind_Inr)

lemma returns_then: "(\<And>s a t. m s = (Inr a, t) \<Longrightarrow> io_returns n Q) \<Longrightarrow> io_returns (io_then m n) Q"
  unfolding io_then_def by (rule returns_bind)

lemma returns_raise: "io_returns (io_raise e) Q"
  by (simp add: io_returns_def)

lemma returns_if: "(b \<Longrightarrow> io_returns m Q) \<Longrightarrow> (\<not> b \<Longrightarrow> io_returns n Q) \<Longrightarrow> io_returns (if b then m else n) Q"
  by simp

lemma returns_option:
  "(x = None \<Longrightarrow> io_returns m Q) \<Longrightarrow> (\<And>y. x = Some y \<Longrightarrow> io_returns (f y) Q) \<Longrightarrow>
   io_returns (case x of None \<Rightarrow> m | Some y \<Rightarrow> f y) Q"
  by (cases x) simp_all

lemmas returns_intros = returns_bind returns_then returns_raise returns_if returns_option

end
