(* ===== verification/Url.thy ===== *)
theory Url imports Prelude begin

text \<open>
  The parts of the standard library's \<open>urlsplit\<close>, of POSIX \<open>PurePath\<close> and of \<open>str\<close> that the
  repository's checks on locations rest on.
\<close>

section \<open>Characters\<close>

definition ascii_alpha :: "char \<Rightarrow> bool" where
  "ascii_alpha c \<longleftrightarrow> (let n = (of_char c :: nat) in (65 \<le> n \<and> n \<le> 90) \<or> (97 \<le> n \<and> n \<le> 122))"

definition ascii_digit :: "char \<Rightarrow> bool" where
  "ascii_digit c \<longleftrightarrow> (let n = (of_char c :: nat) in 48 \<le> n \<and> n \<le> 57)"

definition ascii_alnum :: "char \<Rightarrow> bool" where
  "ascii_alnum c \<longleftrightarrow> ascii_alpha c \<or> ascii_digit c"

definition control_char :: "char \<Rightarrow> bool" where
  "control_char c \<longleftrightarrow> (of_char c :: nat) < 32"

text \<open>\<open>s.partition(d)\<close> and \<open>s.rpartition(d)\<close> for one character.\<close>

definition partition_on :: "char \<Rightarrow> string \<Rightarrow> string \<times> bool \<times> string" where
  "partition_on d s =
     (takeWhile (\<lambda>c. c \<noteq> d) s, d \<in> set s, drop 1 (dropWhile (\<lambda>c. c \<noteq> d) s))"

definition rpartition_on :: "char \<Rightarrow> string \<Rightarrow> string \<times> bool \<times> string" where
  "rpartition_on d s =
     (let (r, found, l) = partition_on d (rev s)
      in if found then (rev l, True, rev r) else ([], False, s))"

definition ends_with :: "string \<Rightarrow> string \<Rightarrow> bool" where
  "ends_with s p \<longleftrightarrow> starts_with (rev s) (rev p)"

definition rstrip_char :: "char \<Rightarrow> string \<Rightarrow> string" where
  "rstrip_char d s = rev (dropWhile (\<lambda>c. c = d) (rev s))"

text \<open>\<open>s.replace(old, new)\<close> for a non-empty \<open>old\<close>.\<close>

function replace_all :: "string \<Rightarrow> string \<Rightarrow> string \<Rightarrow> string" where
  "replace_all old new s =
     (if s = [] \<or> old = [] then s
      else if starts_with s old then new @ replace_all old new (drop (length old) s)
      else hd s # replace_all old new (tl s))"
  by pat_completeness auto
termination
  by (relation "measure (\<lambda>(old, new, s). length s)")
     (auto simp: starts_with_def)

declare replace_all.simps [simp del]

section \<open>URLs\<close>

record url_parts =
  up_scheme :: string
  up_netloc :: string
  up_path :: string
  up_query :: string
  up_fragment :: string

definition scheme_char :: "char \<Rightarrow> bool" where
  "scheme_char c \<longleftrightarrow> ascii_alnum c \<or> c = CHR ''+'' \<or> c = CHR ''-'' \<or> c = CHR ''.''"

text \<open>Leading control characters and spaces go, and the tabs and line ends everywhere.\<close>

definition clean_url :: "string \<Rightarrow> string" where
  "clean_url u =
     filter (\<lambda>c. (of_char c :: nat) \<noteq> 9 \<and> (of_char c :: nat) \<noteq> 10 \<and> (of_char c :: nat) \<noteq> 13)
       (dropWhile (\<lambda>c. (of_char c :: nat) \<le> 32) u)"

definition split_scheme :: "string \<Rightarrow> string \<times> string" where
  "split_scheme u =
     (let (s, found, rest) = partition_on (CHR '':'') u
      in if found \<and> s \<noteq> [] \<and> ascii_alpha (hd s) \<and> list_all scheme_char s
         then (str_lower s, rest) else ([], u))"

definition netloc_end :: "char \<Rightarrow> bool" where
  "netloc_end c \<longleftrightarrow> c = CHR ''/'' \<or> c = CHR ''?'' \<or> c = CHR ''#''"

text \<open>\<open>urlsplit\<close>; a netloc with unbalanced brackets is an error.\<close>

definition urlsplit :: "string \<Rightarrow> url_parts result" where
  "urlsplit u0 =
     (let (scheme, u) = split_scheme (clean_url u0);
          (netloc, rest) =
            (if starts_with u ''//''
             then (takeWhile (\<lambda>c. \<not> netloc_end c) (drop 2 u), dropWhile (\<lambda>c. \<not> netloc_end c) (drop 2 u))
             else ([], u));
          (rest1, _, fragment) = partition_on (CHR ''#'') rest;
          (path, _, query) = partition_on (CHR ''?'') rest1
      in if (CHR ''['' \<in> set netloc) \<noteq> (CHR '']'' \<in> set netloc)
         then Inl (Exc ValueError ''Invalid IPv6 URL'')
         else Inr \<lparr>up_scheme = scheme, up_netloc = netloc, up_path = path, up_query = query,
                  up_fragment = fragment\<rparr>)"

text \<open>\<open>username\<close> and \<open>password\<close>.\<close>

definition url_username :: "url_parts \<Rightarrow> string option" where
  "url_username p =
     (let (info, found, _) = rpartition_on (CHR ''@'') (up_netloc p)
      in if found then Some (fst (partition_on (CHR '':'') info)) else None)"

definition url_password :: "url_parts \<Rightarrow> string option" where
  "url_password p =
     (let (info, found, _) = rpartition_on (CHR ''@'') (up_netloc p);
          (_, have, password) = partition_on (CHR '':'') info
      in if found \<and> have then Some password else None)"

definition host_and_port :: "url_parts \<Rightarrow> string \<times> string" where
  "host_and_port p =
     (let (_, _, hostinfo) = rpartition_on (CHR ''@'') (up_netloc p);
          (_, bracket, bracketed) = partition_on (CHR ''['') hostinfo
      in if bracket
         then (let (host, _, rest) = partition_on (CHR '']'') bracketed;
                   (_, _, port) = partition_on (CHR '':'') rest
               in (host, port))
         else (let (host, _, port) = partition_on (CHR '':'') hostinfo in (host, port)))"

text \<open>\<open>hostname\<close>: lower case up to a zone separator.\<close>

definition url_hostname :: "url_parts \<Rightarrow> string option" where
  "url_hostname p =
     (let host = fst (host_and_port p);
          (h, percent, zone) = partition_on (CHR ''%'') host
      in if host = [] then None
         else Some (str_lower h @ (if percent then ''%'' @ zone else [])))"

fun digits_value :: "nat \<Rightarrow> string \<Rightarrow> nat" where
  "digits_value acc [] = acc"
| "digits_value acc (c # s) = digits_value (10 * acc + (of_char c - 48)) s"

definition url_port :: "url_parts \<Rightarrow> nat option result" where
  "url_port p =
     (let port = snd (host_and_port p)
      in if port = [] then Inr None
         else if \<not> list_all ascii_digit port
         then Inl (Exc ValueError ''Port could not be cast to integer value'')
         else let n = digits_value 0 port
              in if n > 65535 then Inl (Exc ValueError ''Port out of range 0-65535'')
                 else Inr (Some n))"

section \<open>Paths\<close>

text \<open>A POSIX \<open>PurePath\<close>: its root (none, one or two slashes) and its parts.\<close>

datatype path = Path (path_root: nat) (path_parts: "string list")

definition path_of :: "string \<Rightarrow> path" where
  "path_of s =
     Path (if starts_with s ''//'' \<and> \<not> starts_with s ''///'' then 2
           else if starts_with s ''/'' then 1 else 0)
          (filter (\<lambda>c. c \<noteq> [] \<and> c \<noteq> ''.'') (split_on (CHR ''/'') s))"

definition path_join :: "path \<Rightarrow> string \<Rightarrow> path" where
  "path_join p s =
     (let q = path_of s
      in if path_root q > 0 then q else Path (path_root p) (path_parts p @ path_parts q))"

definition path_parent :: "path \<Rightarrow> path" where
  "path_parent p = Path (path_root p) (butlast (path_parts p))"

text \<open>\<open>root in p.parents\<close>.\<close>

definition path_within :: "path \<Rightarrow> path \<Rightarrow> bool" where
  "path_within base p \<longleftrightarrow> path_root p = path_root base \<and> length (path_parts base) < length (path_parts p)
     \<and> take (length (path_parts base)) (path_parts p) = path_parts base"

definition show_path :: "path \<Rightarrow> string" where
  "show_path p = replicate (path_root p) (CHR ''/'') @ join ''/'' (path_parts p)"

lemma starts_with_Nil [simp]: "starts_with s []"
  by (simp add: starts_with_def)

lemma path_within_parent: "path_parts p \<noteq> [] \<Longrightarrow> path_within (path_parent p) p"
  by (simp add: path_within_def path_parent_def butlast_conv_take)

lemma takeWhile_not_in: "d \<notin> set s \<Longrightarrow> takeWhile (\<lambda>c. c \<noteq> d) s = s"
  by (induction s) auto

lemma partition_on_absent: "d \<notin> set s \<Longrightarrow> partition_on d s = (s, False, [])"
  by (induction s) (auto simp: partition_on_def)

lemma partition_on_first:
  "d \<notin> set s \<Longrightarrow> partition_on d (s @ d # t) = (s, True, t)"
  by (induction s) (auto simp: partition_on_def)

end
