(* ===== verification/Workspace_Manager.thy ===== *)
theory Workspace_Manager imports Factory_Model Effect_Monad Url begin

text \<open>
  Workspaces of work orders: the journal of leases (\<open>app/factory/lifecycle.py\<close>), the credentials of
  a remote transport (\<open>app/factory/git_auth.py\<close>), and the runner and manager that clone, check
  out, retain and remove a checkout (\<open>app/factory/workspace.py\<close>).

  The host is a parameter: a file system of unknown type with its queries, the clock, the token
  provider, and what a git process does. The state carries the journal's tables and a trace of
  the effects outside it: the git processes with their credentials and the trees removed. The
  journal's lock is free or not as the host says; a file descriptor kept by a child is not
  modelled.
\<close>

section \<open>Git processes\<close>

record git_auth =
  ga_source :: string
  ga_token :: string

definition blank_or_control :: "string \<Rightarrow> bool" where
  "blank_or_control s \<longleftrightarrow> (\<exists>c\<in>set s. is_space c \<or> control_char c)"

definition invalid_credential :: exc where
  "invalid_credential = Exc ValueError ''Credencial ou destino Git invalido.''"

text \<open>\<open>GitAuthentication(source, token)\<close>.\<close>

definition git_authentication :: "string \<Rightarrow> string \<Rightarrow> git_auth result" where
  "git_authentication source token =
     (case urlsplit source of
        Inl e \<Rightarrow> Inl e
      | Inr u \<Rightarrow>
          if up_scheme u \<noteq> ''https'' \<or> url_hostname u = None \<or> url_username u \<noteq> None
             \<or> url_password u \<noteq> None \<or> up_query u \<noteq> [] \<or> up_fragment u \<noteq> []
             \<or> blank_or_control source \<or> token = [] \<or> blank_or_control token
          then Inl invalid_credential
          else Inr \<lparr>ga_source = source, ga_token = token\<rparr>)"

definition encoded_token :: "(string \<Rightarrow> string) \<Rightarrow> git_auth \<Rightarrow> string" where
  "encoded_token b64 a = b64 (''x-access-token:'' @ ga_token a)"

definition auth_pairs :: "(string \<Rightarrow> string) \<Rightarrow> git_auth \<Rightarrow> (string \<times> string) list" where
  "auth_pairs b64 a =
     (let prefix = ''http.'' @ ga_source a @ ''.''
      in [(''credential.helper'', ''''), (''core.hooksPath'', ''/dev/null''),
          (''init.templateDir'', ''''), (''protocol.allow'', ''never''),
          (''protocol.https.allow'', ''always''), (''fetch.recurseSubmodules'', ''false''),
          (''gc.auto'', ''0''), (''maintenance.auto'', ''false''),
          (prefix @ ''proxy'', ''''), (prefix @ ''sslVerify'', ''true''),
          (prefix @ ''followRedirects'', ''false''), (prefix @ ''extraHeader'', ''''),
          (prefix @ ''extraHeader'', ''Authorization: Basic '' @ encoded_token b64 a)])"

definition auth_environment :: "(string \<Rightarrow> string) \<Rightarrow> git_auth \<Rightarrow> (string \<times> string) list" where
  "auth_environment b64 a =
     (let ps = auth_pairs b64 a
      in (''GIT_CONFIG_COUNT'', show_nat (length ps))
         # concat (map (\<lambda>(i, k, v). [(''GIT_CONFIG_KEY_'' @ show_nat i, k),
                                     (''GIT_CONFIG_VALUE_'' @ show_nat i, v)])
                   (List.enumerate 0 ps)))"

definition redact_token :: "(string \<Rightarrow> string) \<Rightarrow> git_auth \<Rightarrow> string \<Rightarrow> string" where
  "redact_token b64 a s = replace_all (ga_token a) ''***'' (replace_all (encoded_token b64 a) ''***'' s)"

text \<open>\<open>SafeGitRunner.redact\<close>: the user part of every http URL.\<close>

definition url_prefix :: "string \<Rightarrow> string option" where
  "url_prefix s =
     (if str_lower (take 8 s) = ''https://'' then Some (take 8 s)
      else if str_lower (take 7 s) = ''http://'' then Some (take 7 s) else None)"

definition user_char :: "char \<Rightarrow> bool" where
  "user_char c \<longleftrightarrow> c \<noteq> CHR ''/'' \<and> c \<noteq> CHR ''@'' \<and> \<not> is_space c"

definition credential_match :: "string \<Rightarrow> (string \<times> string) option" where
  "credential_match s =
     (case url_prefix s of
        None \<Rightarrow> None
      | Some p \<Rightarrow>
          (let rest = drop (length p) s; user = takeWhile user_char rest; tl' = dropWhile user_char rest
           in if user \<noteq> [] \<and> tl' \<noteq> [] \<and> hd tl' = CHR ''@'' then Some (p, tl tl') else None))"

lemma credential_match_shorter: "credential_match s = Some (p, t) \<Longrightarrow> length t < length s"
proof -
  assume m: "credential_match s = Some (p, t)"
  then obtain q where q: "url_prefix s = Some q" "t = tl (dropWhile user_char (drop (length q) s))"
      "dropWhile user_char (drop (length q) s) \<noteq> []"
    by (auto simp: credential_match_def Let_def split: option.splits if_splits)
  have "length (dropWhile user_char (drop (length q) s)) \<le> length s"
    using length_dropWhile_le [of user_char "drop (length q) s"] by simp
  then show ?thesis using q(2,3) by (cases "dropWhile user_char (drop (length q) s)") auto
qed

function redact :: "string \<Rightarrow> string" where
  "redact s =
     (case credential_match s of
        Some (p, t) \<Rightarrow> p @ ''***@'' @ redact t
      | None \<Rightarrow> (case s of [] \<Rightarrow> [] | c # cs \<Rightarrow> c # redact cs))"
  by pat_completeness auto
termination
  by (relation "measure length") (auto dest: credential_match_shorter)

declare redact.simps [simp del]

record git_call =
  gc_argv :: "string list"
  gc_cwd :: path
  gc_environment :: "(string, string) pydict"
  gc_authentication :: "git_auth option"

text \<open>What a git process leaves: its exit code and output, or the timeout of the runner.\<close>

datatype git_outcome = Git_done int string string | Git_timeout

record git_result =
  gr_argv :: "string list"
  gr_exit_code :: int
  gr_stdout :: string
  gr_stderr :: string

definition git_command_error :: "git_result \<Rightarrow> exc" where
  "git_command_error r =
     Exc (OtherError ''GitCommandError'')
       (''git retornou '' @ show_int (gr_exit_code r) @ '': ''
        @ (if gr_stderr r \<noteq> [] then gr_stderr r
           else if gr_stdout r \<noteq> [] then gr_stdout r else ''git falhou sem saida''))"

section \<open>Host and state\<close>

record 'f workspace_host =
  wh_now :: "'f \<Rightarrow> timestamp \<times> 'f"
  wh_exists :: "path \<Rightarrow> 'f \<Rightarrow> bool"
  wh_is_symlink :: "path \<Rightarrow> 'f \<Rightarrow> bool"
  wh_is_dir :: "path \<Rightarrow> 'f \<Rightarrow> bool"
  wh_is_file :: "path \<Rightarrow> 'f \<Rightarrow> bool"
  wh_size :: "path \<Rightarrow> 'f \<Rightarrow> int"
  wh_resolve :: "path \<Rightarrow> 'f \<Rightarrow> path"
  wh_expanduser :: "string \<Rightarrow> path"
  wh_rmtree :: "path \<Rightarrow> 'f \<Rightarrow> 'f"
  wh_git :: "git_call \<Rightarrow> 'f \<Rightarrow> git_outcome \<times> 'f"
  wh_token :: "'f \<Rightarrow> string result \<times> 'f"
  wh_new_id :: "'f \<Rightarrow> uuid \<times> 'f"
  wh_lock_free :: "string \<Rightarrow> 'f \<Rightarrow> bool"
  wh_environ :: "(string, string) pydict"
  wh_b64 :: "string \<Rightarrow> string"
  wh_sha256 :: "string \<Rightarrow> string"

datatype workspace_effect =
    Ran_git git_call
  | Removed_tree path workspace_lease
  | Saved_lease workspace_lease

record 'f workspace_state =
  ws_fs :: 'f
  ws_leases :: "(string, workspace_lease) pydict"
  ws_events :: "(string \<times> workspace_lifecycle \<times> timestamp) list"
  ws_containers :: "(string, string \<times> string) pydict"
  ws_phases :: "(string, string \<times> string) pydict"
  ws_lock_owner :: "string option"
  ws_trace :: "workspace_effect list"

record workspace_manager =
  wm_root :: path
  wm_approved_hosts :: "string list"
  wm_resolve_url :: "(repository_target \<Rightarrow> string) option"
  wm_allow_local :: bool
  wm_repository_access :: bool
  wm_worktree :: bool
  wm_git_executable :: string
  wm_max_output :: nat

definition workspace_root :: "workspace_manager \<Rightarrow> path" where
  "workspace_root m = path_join (wm_root m) ''workspaces''"

definition cache_root :: "workspace_manager \<Rightarrow> path" where
  "cache_root m = path_join (wm_root m) ''cache''"

definition log_effect :: "workspace_effect \<Rightarrow> 'f workspace_state \<Rightarrow> 'f workspace_state" where
  "log_effect x s = s\<lparr>ws_trace := ws_trace s @ [x]\<rparr>"

text \<open>A query of the host that moves it on.\<close>

definition ask_host :: "('f \<Rightarrow> 'a \<times> 'f) \<Rightarrow> ('f workspace_state, 'a) io" where
  "ask_host f s = (case f (ws_fs s) of (x, fs) \<Rightarrow> (Inr x, s\<lparr>ws_fs := fs\<rparr>))"

section \<open>The journal\<close>

definition journal_save :: "workspace_lease \<Rightarrow> ('f workspace_state, unit) io" where
  "journal_save lease =
     io_modify (\<lambda>s. log_effect (Saved_lease lease)
       (s\<lparr>ws_leases := AList.update (le_workflow_id lease) lease (ws_leases s),
          ws_events := ws_events s @ [(le_workflow_id lease, le_state lease, le_updated_at lease)]\<rparr>))"

definition journal_get :: "string \<Rightarrow> 'f workspace_state \<Rightarrow> workspace_lease option" where
  "journal_get w s = map_of (ws_leases s) w"

definition journal_leases :: "'f workspace_state \<Rightarrow> workspace_lease list" where
  "journal_leases s = map snd (ws_leases s)"

text \<open>The last fifty events, oldest first.\<close>

definition journal_history ::
  "string \<Rightarrow> 'f workspace_state \<Rightarrow> (workspace_lifecycle \<times> timestamp) list" where
  "journal_history w s =
     rev (take 50 (rev (map snd (filter (\<lambda>(v, _). v = w) (ws_events s)))))"

definition journal_record_container :: "string \<Rightarrow> string \<Rightarrow> string \<Rightarrow> 'f workspace_state \<Rightarrow> 'f workspace_state" where
  "journal_record_container w name token s =
     s\<lparr>ws_containers := AList.update w (name, token) (ws_containers s)\<rparr>"

definition journal_forget_container :: "string \<Rightarrow> 'f workspace_state \<Rightarrow> 'f workspace_state" where
  "journal_forget_container w s = s\<lparr>ws_containers := AList.delete w (ws_containers s)\<rparr>"

definition journal_record_phase :: "string \<Rightarrow> string \<Rightarrow> string \<Rightarrow> 'f workspace_state \<Rightarrow> 'f workspace_state" where
  "journal_record_phase w phase outcome s = s\<lparr>ws_phases := AList.update w (phase, outcome) (ws_phases s)\<rparr>"

definition journal_phase :: "string \<Rightarrow> 'f workspace_state \<Rightarrow> (string \<times> string) option" where
  "journal_phase w s = map_of (ws_phases s) w"

definition workspace_busy :: "string \<Rightarrow> exc" where
  "workspace_busy w = Exc (OtherError ''WorkspaceBusy'') w"

text \<open>\<open>exclusive(workflow_id, reentrant=...)\<close> around a body; the owner is restored on every exit.\<close>

definition journal_exclusive ::
  "'f workspace_host \<Rightarrow> string \<Rightarrow> bool \<Rightarrow> ('f workspace_state, 'a) io \<Rightarrow> ('f workspace_state, 'a) io" where
  "journal_exclusive h w reentrant body s =
     (if reentrant \<and> ws_lock_owner s = Some w then body s
      else if \<not> wh_lock_free h w (ws_fs s) then (Inl (workspace_busy w), s)
      else case body (s\<lparr>ws_lock_owner := Some w\<rparr>) of
             (r, t) \<Rightarrow> (r, t\<lparr>ws_lock_owner := ws_lock_owner s\<rparr>))"

section \<open>The runner\<close>

definition resolve_cwd ::
  "'f workspace_host \<Rightarrow> workspace_manager \<Rightarrow> path option \<Rightarrow> ('f workspace_state, path) io" where
  "resolve_cwd h m cwd =
     io_bind (io_gets (\<lambda>s. case cwd of None \<Rightarrow> wm_root m | Some p \<Rightarrow> wh_resolve h p (ws_fs s)))
       (\<lambda>candidate.
          io_then (io_guard (candidate = wm_root m \<or> path_within (wm_root m) candidate)
                     (Exc ValueError ''Diretorio Git fora da raiz permitida.''))
         (io_bind (io_gets (\<lambda>s. wh_is_dir h candidate (ws_fs s)))
            (\<lambda>is_dir.
               io_then (io_guard is_dir (Exc ValueError ''Diretorio Git nao existe.''))
                 (io_return candidate))))"

definition transport_commands :: "string list" where
  "transport_commands = [''clone'', ''fetch'', ''ls-remote'']"

definition git_command :: "string list \<Rightarrow> string list" where
  "git_command args = (if take 1 args = [''--git-dir''] then drop 2 args else args)"

definition is_transport :: "string list \<Rightarrow> bool" where
  "is_transport command \<longleftrightarrow> command \<noteq> [] \<and> hd command \<in> set transport_commands"

definition remote_https :: "string list \<Rightarrow> bool" where
  "remote_https command \<longleftrightarrow>
     is_transport command \<and> (\<exists>a\<in>set (tl command). starts_with a ''https://'')"

text \<open>The directory holds a repository, as a work tree or bare.\<close>

definition controls_repository :: "'f workspace_host \<Rightarrow> path \<Rightarrow> 'f \<Rightarrow> bool" where
  "controls_repository h wd fs \<longleftrightarrow> wh_exists h (path_join wd ''.git'') fs
     \<or> (wh_exists h (path_join wd ''HEAD'') fs \<and> wh_is_dir h (path_join wd ''objects'') fs
        \<and> wh_is_dir h (path_join wd ''refs'') fs)"

definition auth_allowed :: "string list \<Rightarrow> git_auth \<Rightarrow> bool" where
  "auth_allowed command a \<longleftrightarrow> is_transport command \<and> ga_source a \<in> set command
     \<and> \<not> (\<exists>x\<in>set command. x = ''-c'' \<or> starts_with x ''--config'')"

definition base_environment :: "'f workspace_host \<Rightarrow> path \<Rightarrow> (string, string) pydict" where
  "base_environment h wd =
     foldl (\<lambda>d (k, v). AList.update k v d)
       (filter (\<lambda>(k, v). k \<in> {''PATH'', ''LANG'', ''LC_ALL'', ''TMPDIR'', ''SYSTEMROOT''}) (wh_environ h))
       [(''GIT_TERMINAL_PROMPT'', ''0''), (''GIT_CONFIG_NOSYSTEM'', ''1''),
        (''GIT_CONFIG_GLOBAL'', ''/dev/null''),
        (''GIT_CEILING_DIRECTORIES'', show_path (path_parent wd))]"

definition git_environment ::
  "'f workspace_host \<Rightarrow> path \<Rightarrow> string list \<Rightarrow> git_auth option \<Rightarrow> (string, string) pydict" where
  "git_environment h wd command auth =
     (let e1 = base_environment h wd;
          e2 = (if remote_https command
                then foldl (\<lambda>d (k, v). AList.update k v d) e1
                       [(''GIT_CONFIG_COUNT'', ''1''), (''GIT_CONFIG_KEY_0'', ''http.followRedirects''),
                        (''GIT_CONFIG_VALUE_0'', ''false'')]
                else e1)
      in case auth of None \<Rightarrow> e2
         | Some a \<Rightarrow> foldl (\<lambda>d (k, v). AList.update k v d) e2 (auth_environment (wh_b64 h) a))"

definition safe_output :: "'f workspace_host \<Rightarrow> workspace_manager \<Rightarrow> git_auth option \<Rightarrow> string \<Rightarrow> string" where
  "safe_output h m auth s =
     take (wm_max_output m)
       (redact (case auth of None \<Rightarrow> s | Some a \<Rightarrow> redact_token (wh_b64 h) a s))"

definition execute_git :: "'f workspace_host \<Rightarrow> git_call \<Rightarrow> ('f workspace_state, git_outcome) io" where
  "execute_git h c =
     io_then (io_modify (log_effect (Ran_git c))) (ask_host (wh_git h c))"

text \<open>\<open>SafeGitRunner.run\<close>.\<close>

definition git_run ::
  "'f workspace_host \<Rightarrow> workspace_manager \<Rightarrow> string list \<Rightarrow> path option \<Rightarrow> bool \<Rightarrow> git_auth option
   \<Rightarrow> ('f workspace_state, git_result) io" where
  "git_run h m args cwd check auth =
     io_then (io_guard (args \<noteq> [] \<and> \<not> (\<exists>a\<in>set args. CHR 0x00 \<in> set a))
                (Exc ValueError ''Argumentos Git invalidos.''))
    (io_bind (resolve_cwd h m cwd) (\<lambda>wd.
       let command = git_command args in
       io_bind (io_gets (\<lambda>s. (controls_repository h wd (ws_fs s),
                              wh_exists h (path_join wd ''.git'') (ws_fs s)))) (\<lambda>(controls, dot_git).
       io_then (io_guard (remote_https command \<longrightarrow> \<not> controls)
                  (Exc ValueError ''Transporte remoto exige diretorio de controle sem repositorio.''))
      (io_then (io_guard (case auth of None \<Rightarrow> True | Some a \<Rightarrow> auth_allowed command a \<and> \<not> dot_git)
                  (Exc ValueError ''Credencial permitida somente para transporte Git remoto.''))
      (io_bind (execute_git h
                  \<lparr>gc_argv = wm_git_executable m # args, gc_cwd = wd,
                   gc_environment = git_environment h wd command auth,
                   gc_authentication = auth\<rparr>) (\<lambda>outcome.
         case outcome of
           Git_timeout \<Rightarrow> io_raise (Exc TimeoutError ''git excedeu o tempo'')
         | Git_done code out err \<Rightarrow>
             (let r = \<lparr>gr_argv = wm_git_executable m # args, gr_exit_code = code,
                       gr_stdout = safe_output h m auth out, gr_stderr = safe_output h m auth err\<rparr>
              in io_then (io_guard (\<not> (check \<and> code \<noteq> 0)) (git_command_error r)) (io_return r))))))))"

section \<open>Names, references and sources\<close>

definition name_char :: "char \<Rightarrow> bool" where
  "name_char c \<longleftrightarrow> ascii_alnum c \<or> c = CHR ''.'' \<or> c = CHR ''_'' \<or> c = CHR ''-''"

definition safe_name :: "string \<Rightarrow> bool" where
  "safe_name s \<longleftrightarrow> s \<noteq> [] \<and> ascii_alnum (hd s) \<and> list_all name_char s"

definition safe_ref :: "string \<Rightarrow> bool" where
  "safe_ref s \<longleftrightarrow> s \<noteq> [] \<and> ascii_alnum (hd s) \<and> list_all (\<lambda>c. name_char c \<or> c = CHR ''/'') s
     \<and> \<not> contains s ''..'' \<and> \<not> contains s (CHR ''@'' # ''{'') \<and> \<not> ends_with s ''.lock''"

definition validate_identifier :: "string \<Rightarrow> unit result" where
  "validate_identifier v =
     (if safe_name v then Inr () else Inl (Exc ValueError ''workflow_id contem caracteres invalidos.''))"

definition validate_ref :: "string \<Rightarrow> unit result" where
  "validate_ref v = (if safe_ref v then Inr () else Inl (Exc ValueError ''base_ref invalida.''))"

text \<open>\<open>[A-Za-z0-9_.-]+/[A-Za-z0-9_.-]+\<close> with no part \<open>.\<close> or \<open>..\<close>.\<close>

definition plain_repository :: "string \<Rightarrow> bool" where
  "plain_repository s \<longleftrightarrow>
     (case split_on (CHR ''/'') s of
        [owner, name] \<Rightarrow> owner \<noteq> [] \<and> name \<noteq> [] \<and> list_all name_char owner \<and> list_all name_char name
          \<and> owner \<notin> {''.'', ''..''} \<and> name \<notin> {''.'', ''..''}
      | _ \<Rightarrow> False)"

definition default_url :: "repository_target \<Rightarrow> string" where
  "default_url r = ''https://'' @ rt_scm_host r @ ''/'' @ rt_full_name r @ ''.git''"

definition resolve_url :: "workspace_manager \<Rightarrow> repository_target \<Rightarrow> string" where
  "resolve_url m r = (case wm_resolve_url m of None \<Rightarrow> default_url r | Some f \<Rightarrow> f r)"

text \<open>The hosts of the constructor: lower case, trailing dots removed.\<close>

definition approved_host :: "workspace_manager \<Rightarrow> string \<Rightarrow> bool" where
  "approved_host m host \<longleftrightarrow>
     host \<in> set (map (\<lambda>x. rstrip_char (CHR ''.'') (str_lower x)) (wm_approved_hosts m))"

definition validate_source :: "workspace_manager \<Rightarrow> string \<Rightarrow> repository_target \<Rightarrow> unit result" where
  "validate_source m source r =
     (case urlsplit source of
        Inl e \<Rightarrow> Inl e
      | Inr u \<Rightarrow>
          if up_scheme u = ''https''
          then if \<not> approved_host m (rstrip_char (CHR ''.'') (str_lower (or_str (url_hostname u) [])))
               then Inl (Exc ValueError ''Host do repositorio nao esta aprovado.'')
               else if truthy_str (url_username u) \<or> truthy_str (url_password u)
               then Inl (Exc ValueError ''URL do repositorio contem autoridade insegura.'')
               else (case url_port u of
                  Inl e \<Rightarrow> Inl e
                | Inr port \<Rightarrow>
                    if port \<noteq> None
                    then Inl (Exc ValueError ''URL do repositorio contem autoridade insegura.'')
                    else if source \<noteq> default_url r \<or> up_query u \<noteq> [] \<or> up_fragment u \<noteq> []
                            \<or> \<not> plain_repository (rt_full_name r)
                    then Inl (Exc ValueError ''URL do repositorio nao corresponde a ordem.'')
                    else Inr ())
          else if wm_allow_local m \<and> up_scheme u = [] then Inr ()
          else Inl (Exc ValueError ''Repositorio deve usar HTTPS em host aprovado.''))"

definition is_https :: "string \<Rightarrow> bool" where
  "is_https source \<longleftrightarrow> (case urlsplit source of Inl e \<Rightarrow> False | Inr u \<Rightarrow> up_scheme u = ''https'')"

text \<open>\<open>GitHubRepositoryAccess.for_repository\<close>.\<close>

definition credential_unavailable :: exc where
  "credential_unavailable =
     Exc (OtherError ''RuntimeError'') ''Nao foi possivel obter credencial GitHub para checkout.''"

definition for_repository ::
  "'f workspace_host \<Rightarrow> repository_target \<Rightarrow> string \<Rightarrow> ('f workspace_state, git_auth option) io" where
  "for_repository h r source =
     (if rt_scm_host r \<noteq> ''github.com'' then io_return None
      else if source \<noteq> ''https://github.com/'' @ rt_full_name r @ ''.git''
              \<or> \<not> plain_repository (rt_full_name r)
      then io_raise (Exc ValueError ''Destino da credencial GitHub nao corresponde a ordem.'')
      else io_bind (ask_host (wh_token h)) (\<lambda>token.
             case token of
               Inl e \<Rightarrow> io_raise credential_unavailable
             | Inr t \<Rightarrow> (case git_authentication source t of
                 Inl e \<Rightarrow> io_raise credential_unavailable
               | Inr a \<Rightarrow> io_return (Some a))))"

definition run_remote ::
  "'f workspace_host \<Rightarrow> workspace_manager \<Rightarrow> string list \<Rightarrow> repository_target \<Rightarrow> string
   \<Rightarrow> ('f workspace_state, git_result) io" where
  "run_remote h m args r source =
     io_bind (if wm_repository_access m \<and> is_https source then for_repository h r source
              else io_return None)
       (\<lambda>auth. git_run h m args None True auth)"

section \<open>The manager\<close>

definition cache_path :: "'f workspace_host \<Rightarrow> workspace_manager \<Rightarrow> repository_target \<Rightarrow> path" where
  "cache_path h m r =
     path_join (cache_root m)
       (take 24 (wh_sha256 h (str_lower (rt_scm_host r @ ''/'' @ rt_full_name r))) @ ''.git'')"

definition transition ::
  "'f workspace_host \<Rightarrow> workspace_lease \<Rightarrow> workspace_lifecycle \<Rightarrow> (workspace_lease \<Rightarrow> workspace_lease)
   \<Rightarrow> ('f workspace_state, workspace_lease) io" where
  "transition h lease st updates =
     io_bind (ask_host (wh_now h)) (\<lambda>now.
       let changed = updates (lease\<lparr>le_state := st, le_updated_at := now\<rparr>)
       in io_then (journal_save changed) (io_return changed))"

definition retain ::
  "'f workspace_host \<Rightarrow> workspace_lease \<Rightarrow> int \<Rightarrow> string \<Rightarrow> ('f workspace_state, workspace_lease) io" where
  "retain h lease seconds reason =
     io_bind (ask_host (wh_now h)) (\<lambda>now.
       transition h lease WS_RETAINED
         (\<lambda>l. l\<lparr>le_retention := \<lparr>re_retain_until = Some (now + seconds * 1000000),
                                 re_reason = Some reason\<rparr>\<rparr>))"

definition git_dir :: "path \<Rightarrow> string list" where
  "git_dir cache = [''--git-dir'', show_path cache]"

definition materialize_checkout ::
  "'f workspace_host \<Rightarrow> workspace_manager \<Rightarrow> path \<Rightarrow> path \<Rightarrow> string \<Rightarrow> string
   \<Rightarrow> ('f workspace_state, unit) io" where
  "materialize_checkout h m cache workspace branch base_sha =
     (if wm_worktree m
      then io_bind (git_run h m (git_dir cache @ [''worktree'', ''prune'']) None False None) (\<lambda>_.
           io_bind (git_run h m (git_dir cache @ [''worktree'', ''add'', ''--force'', ''-B'', branch,
                      show_path workspace, base_sha]) None True None) (\<lambda>_. io_return ()))
      else io_bind (git_run h m [''clone'', ''--no-hardlinks'', show_path cache, show_path workspace]
                      None True None) (\<lambda>_.
           io_bind (git_run h m [''checkout'', ''-B'', branch, base_sha] (Some workspace) True None)
             (\<lambda>_. io_return ())))"

definition materialize_partial_cache ::
  "'f workspace_host \<Rightarrow> workspace_manager \<Rightarrow> path \<Rightarrow> repository_target \<Rightarrow> string
   \<Rightarrow> ('f workspace_state, unit) io" where
  "materialize_partial_cache h m cache r source =
     io_bind (git_run h m (git_dir cache @ [''config'', ''--get'', ''remote.origin.promisor'']) None False None)
       (\<lambda>partial.
          io_when (strip (gr_stdout partial) = ''true'')
            (io_bind (run_remote h m (git_dir cache @ [''fetch'', ''--refetch'', ''--no-filter'', ''--no-tags'',
                        source, ''+refs/heads/*:refs/remotes/origin/*'']) r source) (\<lambda>_.
             io_bind (git_run h m (git_dir cache @ [''config'', ''--unset-all'',
                        ''remote.origin.partialclonefilter'']) None False None) (\<lambda>_.
             io_bind (git_run h m (git_dir cache @ [''config'', ''remote.origin.promisor'', ''false''])
                        None True None) (\<lambda>_. io_return ())))))"

text \<open>The keys a cache's configuration may have.\<close>

definition allowed_cache_keys :: "string list" where
  "allowed_cache_keys =
     [''core.repositoryformatversion'', ''core.filemode'', ''core.bare'', ''core.logallrefupdates'',
      ''core.ignorecase'', ''core.precomposeunicode'', ''remote.origin.url'', ''remote.origin.fetch'',
      ''remote.origin.tagopt'', ''remote.origin.promisor'', ''remote.origin.partialclonefilter'',
      ''extensions.partialclone'', ''extensions.objectformat'']"

text \<open>The entries between NUL bytes; the loop stops at the first key that is not allowed.\<close>

definition cache_entries :: "string \<Rightarrow> (string \<times> string) list" where
  "cache_entries out =
     map (\<lambda>e. (fst (partition_on (CHR 0x0A) e), snd (snd (partition_on (CHR 0x0A) e))))
       (filter (\<lambda>e. e \<noteq> []) (split_on (CHR 0x00) out))"

definition check_cache_config :: "string \<Rightarrow> string \<Rightarrow> unit result" where
  "check_cache_config source out =
     (if \<exists>(k, v)\<in>set (cache_entries out). k \<notin> set allowed_cache_keys
      then Inl (Exc ValueError ''Configuracao do cache Git nao e permitida.'')
      else if map snd (filter (\<lambda>(k, v). k = ''remote.origin.url'') (cache_entries out)) \<noteq> [source]
              \<or> \<not> ends_with out [CHR 0x00]
      then Inl (Exc ValueError ''Origem do cache Git nao corresponde a ordem.'')
      else Inr ())"

definition validate_cache ::
  "'f workspace_host \<Rightarrow> workspace_manager \<Rightarrow> path \<Rightarrow> string \<Rightarrow> ('f workspace_state, unit) io" where
  "validate_cache h m cache source =
     (let common = path_join cache ''commondir''; config = path_join cache ''config''
      in io_bind (io_gets ws_fs) (\<lambda>fs.
         io_then (io_guard (\<not> wh_is_symlink h cache fs)
                    (Exc ValueError ''Cache Git nao pode ser link simbolico.''))
           (io_when (wh_exists h cache fs \<and> is_https source)
              (io_then (io_guard (\<not> wh_exists h common fs \<and> \<not> wh_is_symlink h common fs)
                          (Exc ValueError ''Cache Git nao pode usar diretorio comum externo.''))
              (io_then (io_guard (\<not> wh_is_symlink h config fs \<and> wh_is_file h config fs
                                  \<and> wh_size h config fs \<le> 8192)
                          (Exc ValueError ''Configuracao do cache Git invalida.''))
              (io_bind (git_run h m [''config'', ''--file'', show_path config, ''--no-includes'', ''--null'',
                          ''--list''] None True None)
                 (\<lambda>r. io_lift (check_cache_config source (gr_stdout r)))))))))"

definition ensure_workspace_path :: "workspace_manager \<Rightarrow> path \<Rightarrow> unit result" where
  "ensure_workspace_path m p =
     (if path_parent p = workspace_root m then Inr ()
      else Inl (Exc ValueError ''Workspace fora da raiz administrada.''))"

definition lease_workspace_path ::
  "'f workspace_host \<Rightarrow> workspace_manager \<Rightarrow> workspace_lease \<Rightarrow> ('f workspace_state, path) io" where
  "lease_workspace_path h m lease =
     io_then (io_lift (validate_identifier (le_workflow_id lease)))
       (let raw = wh_expanduser h (le_local_path lease);
            expected = path_join (workspace_root m) (le_workflow_id lease)
        in io_then (io_guard (raw = expected)
                      (Exc ValueError ''Workspace fora da raiz ou ownership da lease invalido.''))
          (io_bind (io_gets ws_fs) (\<lambda>fs.
           io_then (io_guard (\<not> wh_is_symlink h raw fs)
                      (Exc ValueError ''Workspace da lease nao pode ser um link simbolico.''))
            (let resolved = wh_resolve h raw fs
             in io_then (io_lift (ensure_workspace_path m resolved)) (io_return resolved)))))"

definition remove_tree ::
  "'f workspace_host \<Rightarrow> path \<Rightarrow> workspace_lease \<Rightarrow> ('f workspace_state, unit) io" where
  "remove_tree h p lease =
     io_modify (\<lambda>s. log_effect (Removed_tree p lease) (s\<lparr>ws_fs := wh_rmtree h p (ws_fs s)\<rparr>))"

definition remove_if_present ::
  "'f workspace_host \<Rightarrow> path \<Rightarrow> workspace_lease \<Rightarrow> ('f workspace_state, unit) io" where
  "remove_if_present h p lease =
     io_bind (io_gets (\<lambda>s. wh_exists h p (ws_fs s)))
       (\<lambda>present. io_when present (remove_tree h p lease))"

text \<open>\<open>reconstruct\<close>: only a checkout journaled before execution is rebuilt.\<close>

definition reconstruct ::
  "'f workspace_host \<Rightarrow> workspace_manager \<Rightarrow> workspace_lease \<Rightarrow> ('f workspace_state, workspace_lease) io" where
  "reconstruct h m lease =
     io_then (io_guard (le_state lease \<notin> {WS_RELEASED, WS_RELEASING})
                (Exc ValueError ''Workspace ja liberado; crie outra ordem de trabalho.''))
    (io_bind (lease_workspace_path h m lease) (\<lambda>workspace.
     io_then (io_lift (validate_ref (rt_base_ref (le_repository lease))))
    (let r = le_repository lease; source = resolve_url m r; cache = cache_path h m r in
     io_then (io_lift (validate_source m source r))
    (io_then (validate_cache h m cache source)
    (io_then (if is_https source
              then io_bind (run_remote h m [''ls-remote'', source, ''HEAD''] r source) (\<lambda>_. io_return ())
              else io_return ())
    (io_bind
      (if le_state lease \<in> {WS_REQUESTED, WS_PROVISIONING}
       then io_then (materialize_partial_cache h m cache r source)
           (io_then (remove_if_present h workspace lease)
           (io_then (materialize_checkout h m cache workspace (le_branch lease) (le_base_sha lease))
              (transition h lease WS_READY id)))
       else io_return lease)
      (\<lambda>lease1.
        io_bind (io_gets (\<lambda>s. wh_exists h (path_join workspace ''.git'') (ws_fs s))) (\<lambda>dot_git.
        io_then (io_guard dot_git (Exc ValueError ''Workspace da lease nao existe.''))
       (io_bind (git_run h m [''rev-parse'', ''HEAD''] (Some workspace) True None) (\<lambda>head.
        io_then (io_guard (strip (gr_stdout head) = le_base_sha lease1
                           \<or> le_state lease1 \<notin> {WS_REQUESTED, WS_PROVISIONING, WS_READY})
                  (Exc ValueError ''Workspace nao corresponde ao SHA base da lease.''))
          (transition h lease1 WS_ACTIVE id)))))))))))"

definition lease_for_existing ::
  "'f workspace_host \<Rightarrow> workspace_manager \<Rightarrow> string \<Rightarrow> work_order \<Rightarrow> path \<Rightarrow> string \<Rightarrow> string
   \<Rightarrow> (workspace_lifecycle \<Rightarrow> ('f workspace_state, workspace_lease) io)
   \<Rightarrow> ('f workspace_state, workspace_lease) io" where
  "lease_for_existing h m workflow_id order workspace branch base_sha new_lease =
     io_then (io_lift (ensure_workspace_path m workspace))
    (io_bind (git_run h m [''rev-parse'', ''HEAD''] (Some workspace) True None) (\<lambda>head.
     io_bind (git_run h m [''branch'', ''--show-current''] (Some workspace) True None) (\<lambda>current.
     io_then (io_guard (strip (gr_stdout head) = base_sha \<and> strip (gr_stdout current) = branch)
                (Exc ValueError ''Workspace existente diverge da lease solicitada.''))
      (io_bind (new_lease WS_READY) (\<lambda>lease. transition h lease WS_READY id)))))"

text \<open>\<open>WorkspaceLease(...)\<close>: the validator of the local path, a new id and the clock.\<close>

definition new_lease ::
  "'f workspace_host \<Rightarrow> string \<Rightarrow> repository_target \<Rightarrow> path \<Rightarrow> string \<Rightarrow> string \<Rightarrow> workspace_lifecycle
   \<Rightarrow> ('f workspace_state, workspace_lease) io" where
  "new_lease h workflow_id r workspace branch base_sha st =
     io_bind (io_lift (path_must_be_absolute (show_path workspace))) (\<lambda>local.
     io_bind (ask_host (wh_new_id h)) (\<lambda>i.
     io_bind (ask_host (wh_now h)) (\<lambda>created.
     io_bind (ask_host (wh_now h)) (\<lambda>updated.
       io_return \<lparr>le_id = i, le_workflow_id = workflow_id, le_repository = r, le_local_path = local,
         le_branch = branch, le_base_sha = base_sha, le_state = st, le_created_at = created,
         le_updated_at = updated, le_retention = \<lparr>re_retain_until = None, re_reason = None\<rparr>,
         le_failure_reason = None\<rparr>))))"

definition hex_char :: "char \<Rightarrow> bool" where
  "hex_char c \<longleftrightarrow> ascii_digit c \<or> c \<in> set ''abcdefABCDEF''"

definition valid_sha :: "string \<Rightarrow> bool" where
  "valid_sha s \<longleftrightarrow> list_all hex_char s \<and> 40 \<le> length s \<and> length s \<le> 64"

text \<open>\<open>provision\<close>: without a journaled lease, the cache is brought up to date and checked out.\<close>

definition provision_new ::
  "'f workspace_host \<Rightarrow> workspace_manager \<Rightarrow> string \<Rightarrow> work_order \<Rightarrow> ('f workspace_state, workspace_lease) io" where
  "provision_new h m workflow_id order =
     (let r = wo_repository order in
          io_then (io_lift (validate_ref (rt_base_ref r)))
         (let source = resolve_url m r; cache = cache_path h m r;
              branch = ''forgehand/'' @ workflow_id;
              remote_ref = ''refs/remotes/origin/'' @ rt_base_ref r in
          io_then (io_lift (validate_source m source r))
         (io_bind (io_gets (\<lambda>s. wh_resolve h (path_join (workspace_root m) workflow_id) (ws_fs s))) (\<lambda>workspace.
          io_then (validate_cache h m cache source)
         (io_bind (io_gets (\<lambda>s. wh_exists h cache (ws_fs s))) (\<lambda>cached.
          io_then (if cached then io_return ()
                   else io_bind (run_remote h m [''clone'', ''--bare'', ''--no-tags'', source, show_path cache] r source)
                          (\<lambda>_. io_return ()))
         (io_then (materialize_partial_cache h m cache r source)
         (io_bind (run_remote h m (git_dir cache @ [''fetch'', ''--prune'', ''--no-tags'', source,
                     ''+refs/heads/'' @ rt_base_ref r @ '':'' @ remote_ref]) r source) (\<lambda>_.
          io_bind (git_run h m (git_dir cache @ [''rev-parse'', ''--verify'', remote_ref]) None True None) (\<lambda>resolved.
          let base_sha = strip (gr_stdout resolved) in
          io_then (io_guard (rt_expected_base_sha r = None \<or> rt_expected_base_sha r = Some base_sha)
                     (Exc ValueError ''fixture_base_sha_mismatch''))
         (io_then (io_guard (valid_sha base_sha) (git_command_error resolved))
         (io_bind (io_gets (\<lambda>s. wh_exists h workspace (ws_fs s))) (\<lambda>present.
          if present
          then lease_for_existing h m workflow_id order workspace branch base_sha
                 (new_lease h workflow_id r workspace branch base_sha)
          else io_bind (new_lease h workflow_id r workspace branch base_sha WS_REQUESTED) (\<lambda>lease.
               io_bind (transition h lease WS_REQUESTED id) (\<lambda>_.
               io_bind (transition h lease WS_PROVISIONING id) (\<lambda>_.
               io_then (materialize_checkout h m cache workspace branch base_sha)
                 (transition h lease WS_READY id)))))))))))))))))"

definition provision ::
  "'f workspace_host \<Rightarrow> workspace_manager \<Rightarrow> string \<Rightarrow> work_order \<Rightarrow> ('f workspace_state, workspace_lease) io" where
  "provision h m workflow_id order =
     io_then (io_lift (validate_identifier workflow_id))
    (io_bind (io_gets (journal_get workflow_id)) (\<lambda>existing.
       case existing of
         Some lease \<Rightarrow>
           io_then (io_guard (le_repository lease = wo_repository order)
                      (Exc ValueError ''Workspace ownership mismatch''))
             (reconstruct h m lease)
       | None \<Rightarrow> provision_new h m workflow_id order))"

definition cleanup_locked ::
  "'f workspace_host \<Rightarrow> workspace_manager \<Rightarrow> workspace_lease \<Rightarrow> ('f workspace_state, workspace_lease) io" where
  "cleanup_locked h m lease =
     io_bind (lease_workspace_path h m lease) (\<lambda>workspace.
     io_bind (ask_host (wh_now h)) (\<lambda>now.
       if (case re_retain_until (le_retention lease) of None \<Rightarrow> False | Some t \<Rightarrow> t > now)
       then transition h lease WS_RETAINED id
       else io_bind (io_gets (\<lambda>s. wh_exists h workspace (ws_fs s))) (\<lambda>present.
         if \<not> present then transition h lease WS_RELEASED id
         else io_bind (transition h lease WS_RELEASING id) (\<lambda>releasing.
              let cache = cache_path h m (le_repository lease) in
              io_bind (io_gets (\<lambda>s. wh_exists h cache (ws_fs s))) (\<lambda>cached.
              io_then (if wm_worktree m \<and> cached
                       then io_bind (git_run h m (git_dir cache @ [''worktree'', ''remove'', ''--force'',
                                       show_path workspace]) None False None) (\<lambda>_.
                            io_bind (git_run h m (git_dir cache @ [''worktree'', ''prune'']) None False None)
                              (\<lambda>_. io_return ()))
                       else io_return ())
             (io_then (remove_if_present h workspace lease)
                (transition h releasing WS_RELEASED id)))))))"

definition cleanup ::
  "'f workspace_host \<Rightarrow> workspace_manager \<Rightarrow> workspace_lease \<Rightarrow> ('f workspace_state, workspace_lease) io" where
  "cleanup h m lease =
     journal_exclusive h (le_workflow_id lease) True
       (io_bind (io_gets ws_containers) (\<lambda>containers.
          io_then (io_guard (map_of containers (le_workflow_id lease) = None)
                     (Exc ValueError ''sandbox_cleanup_pending''))
            (cleanup_locked h m lease)))"

lemma io_wp_ask [simp]:
  "io_wp (ask_host f) Q E s = Q (fst (f (ws_fs s))) (s\<lparr>ws_fs := snd (f (ws_fs s))\<rparr>)"
  by (simp add: io_wp_def ask_host_def split: prod.splits)

section \<open>What the manager may do to the host\<close>

text \<open>A git process runs inside the managed root; a credential goes only to the transport of the
  repository of the work order, at its own address on an approved host.\<close>

definition git_confined :: "workspace_manager \<Rightarrow> git_call \<Rightarrow> bool" where
  "git_confined m c \<longleftrightarrow> (gc_cwd c = wm_root m \<or> path_within (wm_root m) (gc_cwd c))
     \<and> (case gc_authentication c of
          None \<Rightarrow> True
        | Some a \<Rightarrow> (let command = git_command (tl (gc_argv c)) in
              is_transport command \<and> ga_source a \<in> set command \<and> ''-c'' \<notin> set command
              \<and> (\<forall>x\<in>set command. \<not> starts_with x ''--config''))
            \<and> (\<exists>r. rt_scm_host r = ''github.com'' \<and> ga_source a = default_url r
                  \<and> validate_source m (ga_source a) r = Inr () \<and> plain_repository (rt_full_name r)))"

text \<open>A tree that is removed is the checkout of the workflow of the lease it is removed for.\<close>

definition removal_owned :: "workspace_manager \<Rightarrow> path \<Rightarrow> workspace_lease \<Rightarrow> bool" where
  "removal_owned m p lease \<longleftrightarrow> path_parent p = workspace_root m \<and> safe_name (le_workflow_id lease)"

definition effect_allowed ::
  "workspace_manager \<Rightarrow> (workspace_lease \<Rightarrow> bool) \<Rightarrow> workspace_effect \<Rightarrow> bool" where
  "effect_allowed m may x \<longleftrightarrow>
     (case x of Ran_git c \<Rightarrow> git_confined m c
      | Removed_tree p lease \<Rightarrow> removal_owned m p lease \<and> may lease
      | Saved_lease lease \<Rightarrow> True)"

definition trace_allowed ::
  "workspace_manager \<Rightarrow> (workspace_lease \<Rightarrow> bool) \<Rightarrow> 'f workspace_state \<Rightarrow> bool" where
  "trace_allowed m may s \<longleftrightarrow> (\<forall>x\<in>set (ws_trace s). effect_allowed m may x)"

lemma trace_allowed_log [simp]:
  "trace_allowed m may (log_effect x s) \<longleftrightarrow> trace_allowed m may s \<and> effect_allowed m may x"
  by (auto simp: trace_allowed_def log_effect_def)

lemma trace_allowed_fields [simp]:
  "trace_allowed m may (s\<lparr>ws_fs := f\<rparr>) = trace_allowed m may s"
  "trace_allowed m may (s\<lparr>ws_leases := l, ws_events := e\<rparr>) = trace_allowed m may s"
  "trace_allowed m may (s\<lparr>ws_lock_owner := w\<rparr>) = trace_allowed m may s"
  by (simp_all add: trace_allowed_def)

abbreviation confined :: "workspace_manager \<Rightarrow> (workspace_lease \<Rightarrow> bool) \<Rightarrow> ('f workspace_state, 'a) io \<Rightarrow> bool" where
  "confined m may \<equiv> io_keeps (trace_allowed m may)"

lemma confined_ask [keeps_intros]: "confined m may (ask_host f)"
  by (simp add: io_keeps_def ask_host_def split: prod.splits)

lemma confined_save [keeps_intros]: "confined m may (journal_save lease)"
  unfolding journal_save_def by (rule keeps_modify) (simp add: effect_allowed_def)

lemma confined_execute: "git_confined m c \<Longrightarrow> confined m may (execute_git h c)"
  unfolding execute_git_def
  by (intro keeps_then keeps_modify confined_ask) (simp add: effect_allowed_def)

lemma confined_cwd [keeps_intros]: "confined m may (resolve_cwd h m' cwd)"
  unfolding resolve_cwd_def by (intro keeps_intros)

lemma resolve_cwd_within:
  "resolve_cwd h m cwd s = (Inr wd, t) \<Longrightarrow> (wd = wm_root m \<or> path_within (wm_root m) wd) \<and> t = s"
  by (auto simp: resolve_cwd_def io_bind_Inr io_then_Inr)

definition credential_ok :: "workspace_manager \<Rightarrow> git_auth option \<Rightarrow> bool" where
  "credential_ok m auth \<longleftrightarrow>
     (case auth of None \<Rightarrow> True
      | Some a \<Rightarrow> \<exists>r. rt_scm_host r = ''github.com'' \<and> ga_source a = default_url r
            \<and> validate_source m (ga_source a) r = Inr () \<and> plain_repository (rt_full_name r))"

lemma confined_git_run: "credential_ok m auth \<Longrightarrow> confined m may (git_run h m args cwd check auth)"
proof -
  assume ok: "credential_ok m auth"
  have c: "git_confined m \<lparr>gc_argv = e # args, gc_cwd = wd, gc_environment = env, gc_authentication = auth\<rparr>"
    if "wd = wm_root m \<or> path_within (wm_root m) wd"
      and "case auth of None \<Rightarrow> True | Some a \<Rightarrow> auth_allowed (git_command args) a \<and> d" for e wd env d
    using ok that by (auto simp: git_confined_def credential_ok_def auth_allowed_def Let_def split: option.splits)
  have r: "confined m may (case outcome of Git_timeout \<Rightarrow> io_raise x
      | Git_done code out err \<Rightarrow> f code out err)"
    if "\<And>code out err. confined m may (f code out err)" for outcome x f
    using that by (cases outcome) (simp_all add: keeps_raise)
  show ?thesis
    unfolding git_run_def Let_def
    by (intro keeps_facts confined_cwd r confined_execute c allI impI; (simp split: prod.splits)?;
        (intro allI impI keeps_facts confined_execute c r)?)
       (auto dest: resolve_cwd_within)
qed

lemma credential_none [simp]: "credential_ok m None"
  by (simp add: credential_ok_def)

lemma git_authentication_source: "git_authentication source t = Inr a \<Longrightarrow> ga_source a = source"
  by (auto simp: git_authentication_def split: sum.splits if_splits)

lemma issued_credential:
  assumes "(case tok of Inl e \<Rightarrow> io_raise x
      | Inr t \<Rightarrow> (case git_authentication source t of Inl e \<Rightarrow> io_raise x | Inr a \<Rightarrow> io_return (Some a))) u
     = (Inr auth, v)"
  shows "\<exists>a. auth = Some a \<and> ga_source a = source"
proof (cases tok)
  case (Inr t)
  then show ?thesis
    using assms by (cases "git_authentication source t") (auto dest: git_authentication_source)
qed (use assms in simp)

lemma for_repository_credential:
  assumes "for_repository h r source s = (Inr auth, t)" and "validate_source m source r = Inr ()"
  shows "credential_ok m auth"
proof (cases "rt_scm_host r = ''github.com''")
  case True
  note host = True
  show ?thesis
  proof (cases "source \<noteq> ''https://github.com/'' @ rt_full_name r @ ''.git''
                \<or> \<not> plain_repository (rt_full_name r)")
    case False
    then have src: "source = default_url r" "plain_repository (rt_full_name r)"
      by (simp_all add: default_url_def host)
    have "io_bind (ask_host (wh_token h)) (\<lambda>token.
            case token of Inl e \<Rightarrow> io_raise credential_unavailable
            | Inr t \<Rightarrow> (case git_authentication source t of
                Inl e \<Rightarrow> io_raise credential_unavailable | Inr a \<Rightarrow> io_return (Some a))) s = (Inr auth, t)"
      using assms(1) host unfolding for_repository_def if_not_P [OF False] by simp
    then obtain a where "auth = Some a" "ga_source a = source"
      unfolding io_bind_Inr by (elim exE conjE) (drule issued_credential, blast)
    then show ?thesis using assms(2) host src by (auto simp: credential_ok_def)
  qed (use assms(1) host in \<open>simp add: for_repository_def\<close>)
qed (use assms(1) in \<open>simp add: for_repository_def\<close>)

lemma confined_for_repository [keeps_intros]: "confined m may (for_repository h r source)"
proof -
  have s: "confined m may (case x of Inl e \<Rightarrow> f e | Inr y \<Rightarrow> g y)"
    if "\<And>e. confined m may (f e)" "\<And>y. confined m may (g y)" for x :: "'a result" and f g
    using that by (cases x) simp_all
  have s2: "confined m may (case x of Inl e \<Rightarrow> f e | Inr y \<Rightarrow> g y)"
    if "\<And>e. confined m may (f e)" "\<And>y. confined m may (g y)" for x :: "git_auth result" and f g
    using that by (cases x) simp_all
  show ?thesis
    unfolding for_repository_def by (intro keeps_intros s s2; (rule s | rule s2 | simp)?)
      (auto split: sum.splits intro: keeps_intros)
qed

lemma confined_remote:
  assumes "validate_source m source r = Inr ()"
  shows "confined m may (run_remote h m args r source)"
  unfolding run_remote_def
proof (rule keeps_bind_facts)
  show "confined m may (if wm_repository_access m \<and> is_https source then for_repository h r source
          else io_return None)"
    by (intro keeps_intros)
  show "confined m may (git_run h m args None True auth)"
    if "(if wm_repository_access m \<and> is_https source then for_repository h r source
         else io_return None) s = (Inr auth, t)" for s auth t
    using that for_repository_credential [OF _ assms]
    by (intro confined_git_run) (auto split: if_splits)
qed

lemmas confined_git = confined_git_run [OF credential_none]

lemma confined_checkout [keeps_intros]: "confined m may (materialize_checkout h m cache w b sha)"
  unfolding materialize_checkout_def by (intro keeps_intros confined_git)

lemma confined_partial_cache:
  "validate_source m source r = Inr () \<Longrightarrow> confined m may (materialize_partial_cache h m cache r source)"
  unfolding materialize_partial_cache_def by (intro keeps_intros confined_git confined_remote)

lemma confined_validate_cache [keeps_intros]: "confined m may (validate_cache h m cache source)"
  unfolding validate_cache_def Let_def by (intro keeps_intros confined_git)

lemma confined_workspace_path [keeps_intros]: "confined m may (lease_workspace_path h m' lease)"
  unfolding lease_workspace_path_def Let_def by (intro keeps_intros)

lemma confined_transition [keeps_intros]: "confined m may (transition h lease st f)"
  unfolding transition_def Let_def by (intro keeps_intros)

lemma lease_workspace_path_owned:
  "lease_workspace_path h m lease s = (Inr p, t) \<Longrightarrow> removal_owned m p lease \<and> t = s"
  by (auto simp: lease_workspace_path_def Let_def io_bind_Inr io_then_Inr validate_identifier_def
      ensure_workspace_path_def removal_owned_def split: if_splits)

lemma confined_remove:
  "removal_owned m p lease \<Longrightarrow> may lease \<Longrightarrow> confined m may (remove_if_present h p lease)"
  unfolding remove_if_present_def remove_tree_def
  by (intro keeps_intros) (simp add: effect_allowed_def)

definition before_execution :: "workspace_lease \<Rightarrow> bool" where
  "before_execution lease \<longleftrightarrow> le_state lease \<in> {WS_REQUESTED, WS_PROVISIONING}"

lemma confined_reconstruct: "confined m before_execution (reconstruct h m lease)"
  unfolding reconstruct_def Let_def
  by (intro keeps_facts confined_workspace_path confined_validate_cache confined_remote
      confined_partial_cache confined_checkout confined_transition confined_git confined_remove)
     (auto simp: before_execution_def dest: lease_workspace_path_owned)

lemma confined_new_lease [keeps_intros]: "confined m may (new_lease h w r ws b sha st)"
  unfolding new_lease_def by (intro keeps_intros)

lemma confined_existing [keeps_intros]:
  "(\<And>st. confined m may (nl st)) \<Longrightarrow> confined m may (lease_for_existing h m w order ws b sha nl)"
  unfolding lease_for_existing_def by (intro keeps_intros confined_git)

lemma confined_provision_new: "confined m before_execution (provision_new h m w order)"
  unfolding provision_new_def Let_def
  by (intro keeps_facts confined_validate_cache confined_remote confined_partial_cache
      confined_checkout confined_transition confined_git confined_new_lease confined_existing) auto

lemma confined_provision: "confined m before_execution (provision h m w order)"
  unfolding provision_def by (intro keeps_intros confined_reconstruct confined_provision_new)

lemma confined_cleanup_locked: "confined m (\<lambda>l. l = lease) (cleanup_locked h m lease)"
  unfolding cleanup_locked_def Let_def
  by (intro keeps_facts confined_workspace_path confined_ask confined_transition confined_git
      confined_remove)
     (auto dest: lease_workspace_path_owned)

lemma confined_exclusive:
  "confined m may body \<Longrightarrow> confined m may (journal_exclusive h w reentrant body)"
proof -
  assume c: "confined m may body"
  have "trace_allowed m may (snd (journal_exclusive h w reentrant body s))" if t: "trace_allowed m may s" for s
    using io_keepsD [OF c, of s] io_keepsD [OF c, of "s\<lparr>ws_lock_owner := Some w\<rparr>"] t
    by (cases "body (s\<lparr>ws_lock_owner := Some w\<rparr>)") (auto simp: journal_exclusive_def)
  then show ?thesis by (simp add: io_keeps_def)
qed

lemma confined_cleanup: "confined m (\<lambda>l. l = lease) (cleanup h m lease)"
  unfolding cleanup_def
  by (intro confined_exclusive keeps_intros confined_cleanup_locked)

section \<open>Properties\<close>


lemma transition_returns:
  "(\<And>now t. journal_get (le_workflow_id (f (lease\<lparr>le_state := st, le_updated_at := now\<rparr>))) t
       = Some (f (lease\<lparr>le_state := st, le_updated_at := now\<rparr>)) \<Longrightarrow>
     Q (f (lease\<lparr>le_state := st, le_updated_at := now\<rparr>)) t) \<Longrightarrow>
   io_returns (transition h lease st f) Q"
  by (auto simp: io_returns_def transition_def Let_def io_bind_Inr io_then_Inr journal_save_def
      io_modify_def journal_get_def log_effect_def)

lemma transition_Inr:
  "transition h lease st id s = (Inr l, t) \<Longrightarrow>
   le_workflow_id l = le_workflow_id lease \<and> le_repository l = le_repository lease \<and> le_state l = st
   \<and> le_branch l = le_branch lease \<and> le_base_sha l = le_base_sha lease"
  by (auto simp: transition_def Let_def io_bind_Inr io_then_Inr)

definition journaled :: "string \<Rightarrow> repository_target \<Rightarrow> workspace_lease \<Rightarrow> 'f workspace_state \<Rightarrow> bool" where
  "journaled w r l t \<longleftrightarrow> journal_get w t = Some l \<and> le_workflow_id l = w \<and> le_repository l = r
     \<and> le_state l \<in> {WS_READY, WS_ACTIVE}"

lemma reconstruct_returns:
  "io_returns (reconstruct h m lease) (journaled (le_workflow_id lease) (le_repository lease))"
  unfolding reconstruct_def Let_def
  by (intro returns_intros transition_returns)
     (auto simp: journaled_def io_then_Inr dest: transition_Inr split: if_splits)

lemma new_lease_Inr:
  "new_lease h w r ws b sha st s = (Inr l, t) \<Longrightarrow>
   le_workflow_id l = w \<and> le_repository l = r \<and> le_branch l = b \<and> le_base_sha l = sha"
  by (auto simp: new_lease_def io_bind_Inr)

lemma existing_returns:
  "(\<And>st s l t. nl st s = (Inr l, t) \<Longrightarrow> le_workflow_id l = w \<and> le_repository l = r) \<Longrightarrow>
   io_returns (lease_for_existing h m w' order ws b sha nl) (journaled w r)"
  unfolding lease_for_existing_def
  by (intro returns_intros transition_returns) (auto simp: journaled_def)

lemma provision_new_returns: "io_returns (provision_new h m w order) (journaled w (wo_repository order))"
  unfolding provision_new_def Let_def
  by (intro returns_intros existing_returns transition_returns)
     (auto simp: journaled_def dest: new_lease_Inr)

text \<open>A successful provisioning returns the lease it journaled for the workflow: for the
  repository of the work order, and ready or active.\<close>

lemma provision_journals_its_lease:
  assumes "\<And>l. journal_get w s = Some l \<Longrightarrow> le_workflow_id l = w"
    and "provision h m w order s = (Inr lease, t)"
  shows "journaled w (wo_repository order) lease t"
proof (cases "journal_get w s")
  case None
  then show ?thesis
    using assms(2) io_returnsD [OF provision_new_returns]
    by (auto simp: provision_def io_then_Inr io_bind_Inr)
next
  case (Some l)
  then show ?thesis
    using assms(2) io_returnsD [OF reconstruct_returns, of h m l s lease t] assms(1) [OF Some]
    by (auto simp: provision_def io_then_Inr io_bind_Inr)
qed

text \<open>A workspace is kept while its retention lasts or a container of its workflow is
  registered: cleaning up then removes nothing; and one that was released is never provisioned
  again, and refusing to do so changes nothing.\<close>

lemma retained_workspaces_are_kept:
  assumes "ws_trace s = []"
    and "(\<exists>t. re_retain_until (le_retention lease) = Some t \<and> t > fst (wh_now h (ws_fs s)))
         \<or> map_of (ws_containers s) (le_workflow_id lease) \<noteq> None"
    and "journal_get w s = Some l" and "le_state l \<in> {WS_RELEASED, WS_RELEASING}"
  shows "(\<forall>x\<in>set (ws_trace (snd (cleanup h m lease s))). \<exists>l'. x = Saved_lease l')
     \<and> (\<exists>e. provision h m w order s = (Inl e, s))"
proof
  define P where "P = (\<lambda>t. \<forall>x\<in>set (ws_trace (t :: 'a workspace_state)). \<exists>l'. x = Saved_lease l')"
  have saved: "P (log_effect (Saved_lease l') (t\<lparr>ws_leases := ls, ws_events := es\<rparr>))" if "P t" for l' t ls es
    using that by (auto simp: P_def log_effect_def)
  have clock: "P (t\<lparr>ws_fs := fs\<rparr>)" if "P t" for t fs
    using that by (simp add: P_def)
  have tr: "io_wp (transition h lease WS_RETAINED id) (\<lambda>_. P) (\<lambda>_. P) t" if "P t" for t
    using that by (simp add: transition_def journal_save_def saved clock Let_def)
  let ?body = "io_bind (io_gets ws_containers) (\<lambda>containers.
          io_then (io_guard (map_of containers (le_workflow_id lease) = None)
                     (Exc ValueError ''sandbox_cleanup_pending''))
            (cleanup_locked h m lease))"
  have body: "io_wp ?body (\<lambda>_. P) (\<lambda>_. P) t"
    if "ws_fs t = ws_fs s" "ws_containers t = ws_containers s" "P t" for t
  proof (cases "map_of (ws_containers s) (le_workflow_id lease)")
    case None
    then obtain u where u: "re_retain_until (le_retention lease) = Some u" "u > fst (wh_now h (ws_fs s))"
      using assms(2) by auto
    have "io_wp (cleanup_locked h m lease) (\<lambda>_. P) (\<lambda>_. P) t"
      using that u
      by (simp add: cleanup_locked_def lease_workspace_path_def Let_def tr clock split: sum.splits)
    then show ?thesis using None that by simp
  qed (use that in simp)
  have P: "P s" using assms(1) by (simp add: P_def)
  have "P (snd (cleanup h m lease s))"
  proof -
    have k: "P (snd (?body t))" if "ws_fs t = ws_fs s" "ws_containers t = ws_containers s" "P t" for t
      using body [OF that] by (simp add: io_wp_def split: prod.splits sum.splits)
    have lock: "P (t\<lparr>ws_lock_owner := x\<rparr>) = P t" for t x by (simp add: P_def)
    show ?thesis
      using k [of s] k [of "s\<lparr>ws_lock_owner := Some (le_workflow_id lease)\<rparr>"] P
      by (cases "?body (s\<lparr>ws_lock_owner := Some (le_workflow_id lease)\<rparr>)")
         (simp add: cleanup_def journal_exclusive_def lock)
  qed
  then show "\<forall>x\<in>set (ws_trace (snd (cleanup h m lease s))). \<exists>l'. x = Saved_lease l'"
    by (simp add: P_def)
  show "\<exists>e. provision h m w order s = (Inl e, s)"
    using assms(3,4)
    by (auto simp: provision_def reconstruct_def io_then_def io_bind_def io_lift_def io_gets_def
        io_guard_def io_return_def io_raise_def validate_identifier_def)
qed

section \<open>Concrete runs\<close>

text \<open>A host whose file system only says whether the checkout is there.\<close>

definition host_sample :: "bool workspace_host" where
  "host_sample =
     \<lparr>wh_now = (\<lambda>f. (100, f)), wh_exists = (\<lambda>p f. f), wh_is_symlink = (\<lambda>p f. False),
      wh_is_dir = (\<lambda>p f. True), wh_is_file = (\<lambda>p f. True), wh_size = (\<lambda>p f. 0),
      wh_resolve = (\<lambda>p f. p), wh_expanduser = path_of, wh_rmtree = (\<lambda>p f. False),
      wh_git = (\<lambda>c f. (Git_done 0 [] [], f)), wh_token = (\<lambda>f. (Inr ''t'', f)),
      wh_new_id = (\<lambda>f. (2, f)), wh_lock_free = (\<lambda>w f. True), wh_environ = [],
      wh_b64 = (\<lambda>s. s), wh_sha256 = (\<lambda>s. s)\<rparr>"

definition manager_sample :: workspace_manager where
  "manager_sample =
     \<lparr>wm_root = Path 1 [''r''], wm_approved_hosts = [], wm_resolve_url = Some (\<lambda>r. ''/repo''),
      wm_allow_local = True, wm_repository_access = False, wm_worktree = False,
      wm_git_executable = ''git'', wm_max_output = 20000\<rparr>"

definition target_sample :: repository_target where
  "target_sample = \<lparr>rt_full_name = ''o/n'', rt_base_ref = ''main'', rt_scm_host = ''github.com'',
                    rt_expected_base_sha = None\<rparr>"

definition lease_sample :: "string \<Rightarrow> workspace_lifecycle \<Rightarrow> timestamp option \<Rightarrow> workspace_lease" where
  "lease_sample w st until =
     \<lparr>le_id = 2, le_workflow_id = w, le_repository = target_sample,
      le_local_path = ''/r/workspaces/'' @ w, le_branch = ''forgehand/'' @ w, le_base_sha = [],
      le_state = st, le_created_at = 0, le_updated_at = 0,
      le_retention = \<lparr>re_retain_until = until, re_reason = None\<rparr>, le_failure_reason = None\<rparr>"

definition workspaces_sample :: "(string, workspace_lease) pydict \<Rightarrow> bool workspace_state" where
  "workspaces_sample leases =
     \<lparr>ws_fs = True, ws_leases = leases, ws_events = [], ws_containers = [], ws_phases = [],
      ws_lock_owner = None, ws_trace = []\<rparr>"

definition order_sample :: "work_order \<Rightarrow> work_order" where
  "order_sample order = order\<lparr>wo_repository := target_sample\<rparr>"

lemma workspace_root_sample: "workspace_root manager_sample = Path (Suc 0) [''r'', ''workspaces'']"
  by code_simp

lemma sample_paths:
  "path_of ''/r/workspaces/w'' = Path (Suc 0) [''r'', ''workspaces'', ''w'']"
  "path_join (Path (Suc 0) [''r'', ''workspaces'']) ''w'' = Path (Suc 0) [''r'', ''workspaces'', ''w'']"
  by code_simp+

lemma sample_workspace_path:
  "lease_workspace_path host_sample manager_sample (lease_sample ''w'' st u) s
     = (Inr (Path (Suc 0) [''r'', ''workspaces'', ''w'']), s)"
  by (simp add: lease_workspace_path_def Let_def workspace_root_sample lease_sample_def host_sample_def
      sample_paths io_then_def io_bind_def io_lift_def io_guard_def io_gets_def io_return_def
      validate_identifier_def safe_name_def ascii_alnum_def ascii_alpha_def name_char_def
      ensure_workspace_path_def path_parent_def)

lemma sample_removal:
  "Removed_tree (Path (Suc 0) [''r'', ''workspaces'', ''w'']) (lease_sample ''w'' WS_ACTIVE None)
   \<in> set (ws_trace (snd (cleanup host_sample manager_sample (lease_sample ''w'' WS_ACTIVE None)
                           (workspaces_sample []))))"
proof -
  have fields: "wm_worktree manager_sample = False" "wh_now host_sample f = (100, f)"
    "wh_lock_free host_sample w f" "wh_exists host_sample p f = f" "wh_rmtree host_sample p f = False"
    "re_retain_until (le_retention (lease_sample w st u)) = u"
    "ws_lock_owner (workspaces_sample ls) = None" "ws_containers (workspaces_sample ls) = []"
    "ws_fs (workspaces_sample ls)" for f w p st u ls
    by (simp_all add: manager_sample_def host_sample_def lease_sample_def workspaces_sample_def)
  show ?thesis
    by (simp add: cleanup_def journal_exclusive_def cleanup_locked_def io_bind_def io_then_def
        sample_workspace_path ask_host_def transition_def journal_save_def log_effect_def io_modify_def
        io_return_def io_gets_def io_guard_def Let_def remove_if_present_def io_when_def
        remove_tree_def fields)
qed


lemma sample_source:
  "validate_ref ''main'' = Inr ()" "is_https ''/repo'' = False"
  "validate_source manager_sample ''/repo'' target_sample = Inr ()"
  "validate_identifier ''w'' = Inr ()"
  by code_simp+

lemma sample_head:
  "\<exists>t. git_run host_sample manager_sample [''rev-parse'', ''HEAD'']
         (Some (Path (Suc 0) [''r'', ''workspaces'', ''w''])) True None s
       = (Inr \<lparr>gr_argv = [''git'', ''rev-parse'', ''HEAD''], gr_exit_code = 0, gr_stdout = [],
               gr_stderr = []\<rparr>, t)"
proof -
  have out: "safe_output host_sample manager_sample None [] = []"
    by (simp add: safe_output_def redact.simps [of "[]"] credential_match_def url_prefix_def str_lower_def)
  have fields: "wh_resolve host_sample p f = p" "wh_is_dir host_sample p f" "wh_git host_sample c f = (Git_done 0 [] [], f)"
      "wm_git_executable manager_sample = ''git''" "wm_root manager_sample = Path (Suc 0) [''r'']" for p f c
    by (simp_all add: host_sample_def manager_sample_def)
  show ?thesis
    by (simp add: git_run_def io_then_def io_bind_def io_guard_def io_return_def io_gets_def Let_def
        resolve_cwd_def path_within_def git_command_def remote_https_def is_transport_def
        transport_commands_def execute_git_def io_modify_def ask_host_def log_effect_def fields out)
qed

lemma provision_journals_its_lease_witness:
  "\<exists>lease t. provision host_sample manager_sample ''w'' (order_sample undefined)
       (workspaces_sample [(''w'', lease_sample ''w'' WS_ACTIVE None)]) = (Inr lease, t)
     \<and> journaled ''w'' target_sample lease t"
proof -
  let ?s = "workspaces_sample [(''w'', lease_sample ''w'' WS_ACTIVE None)]"
  have fields: "le_state (lease_sample w st u) = st" "le_repository (lease_sample w st u) = target_sample"
      "le_base_sha (lease_sample w st u) = []" "rt_base_ref target_sample = ''main''"
      "wh_is_symlink host_sample p f = False" "wh_exists host_sample p f = f"
      "resolve_url manager_sample r = ''/repo''" for w st u p f r
    by (simp_all add: lease_sample_def target_sample_def host_sample_def resolve_url_def manager_sample_def)
  obtain t where head: "git_run host_sample manager_sample [''rev-parse'', ''HEAD'']
         (Some (Path (Suc 0) [''r'', ''workspaces'', ''w''])) True None ?s
       = (Inr \<lparr>gr_argv = [''git'', ''rev-parse'', ''HEAD''], gr_exit_code = 0, gr_stdout = [],
               gr_stderr = []\<rparr>, t)"
    using sample_head by blast
  have "\<exists>lease t. provision host_sample manager_sample ''w'' (order_sample undefined) ?s = (Inr lease, t)"
    by (simp add: provision_def reconstruct_def io_then_Inr io_bind_Inr Let_def sample_source journal_get_def
        workspaces_sample_def order_sample_def fields sample_workspace_path validate_cache_def io_when_def)
       (simp add: head [unfolded workspaces_sample_def] strip_def transition_def ask_host_def
        journal_save_def io_modify_def io_bind_Inr io_then_Inr Let_def split: prod.splits)
  then obtain lease t where run: "provision host_sample manager_sample ''w'' (order_sample undefined) ?s = (Inr lease, t)"
    by blast
  have key: "journal_get ''w'' ?s = Some l \<Longrightarrow> le_workflow_id l = ''w''" for l
    by (auto simp: journal_get_def workspaces_sample_def lease_sample_def)
  show ?thesis
    using provision_journals_its_lease [OF key run] run by (auto simp: order_sample_def)
qed

lemma retained_workspaces_are_kept_witness:
  "\<exists>e. provision host_sample manager_sample ''v'' (order_sample undefined)
         (workspaces_sample [(''v'', lease_sample ''v'' WS_RELEASED None)])
       = (Inl e, workspaces_sample [(''v'', lease_sample ''v'' WS_RELEASED None)])"
proof -
  let ?s = "workspaces_sample [(''v'', lease_sample ''v'' WS_RELEASED None)]"
  have "ws_trace ?s = []" "journal_get ''v'' ?s = Some (lease_sample ''v'' WS_RELEASED None)"
    by (simp_all add: workspaces_sample_def journal_get_def)
  moreover have "re_retain_until (le_retention (lease_sample ''w'' WS_RETAINED (Some 200))) = Some 200"
      "(200::int) > fst (wh_now host_sample (ws_fs ?s))"
    by (simp_all add: lease_sample_def host_sample_def)
  ultimately show ?thesis
    using retained_workspaces_are_kept [of ?s "lease_sample ''w'' WS_RETAINED (Some 200)" host_sample
        "''v''" "lease_sample ''v'' WS_RELEASED None" manager_sample "order_sample undefined"]
    by (simp add: lease_sample_def)
qed

end
