(* ===== verification/Workflow_Service.thy ===== *)
theory Workflow_Service imports Postgres_Queue Workspace_Manager begin

text \<open>
  The service between HTTP and the graph (\<open>app/api/service.py\<close>): admission of a start, the human
  decision and its binding to the gate it was made for, what a delivered job runs, what the
  worker does with the outcome, cancellation, and the reconciliation of workspaces.

  A checkpoint snapshot is what the graph runtime returns for a workflow; the writes saved with a
  checkpoint are given with it. Running the graph, retrying a sandbox's cleanup and recording an
  audit event are parameters, as effects on the workspace state.
\<close>

section \<open>Snapshots and gates\<close>

record snapshot_task =
  st_id :: string
  st_interrupts :: "string list"
  st_nested :: bool

record graph_snapshot =
  sn_created :: bool
  sn_values :: "workflow_state option"
  sn_has_phase :: bool
  sn_interrupts :: "string list"
  sn_tasks :: "snapshot_task list"
  sn_next :: "string list"
  sn_checkpoint_id :: "string option"

text \<open>What the checkpointer saved with the snapshot: the pending writes as task, channel, value.\<close>

type_synonym pending_writes = "(string \<times> string \<times> pyval) list"

definition snapshot_interrupts :: "graph_snapshot \<Rightarrow> string list" where
  "snapshot_interrupts sn =
     (if sn_interrupts sn \<noteq> [] then sn_interrupts sn else concat (map st_interrupts (sn_tasks sn)))"

definition snapshot_exists :: "graph_snapshot \<Rightarrow> bool" where
  "snapshot_exists sn \<longleftrightarrow> sn_created sn \<or> sn_values sn \<noteq> None"

record resume_position =
  rp_checkpoint_id :: string
  rp_task_id :: string
  rp_resume_count :: int

definition resume_uncertain :: "string \<Rightarrow> exc" where
  "resume_uncertain why = Exc (OtherError ''WorkflowResumeUncertain'') why"

definition position_unavailable :: exc where
  "position_unavailable = resume_uncertain ''approval_position_unavailable''"

text \<open>The values already consumed by a task's gate: how often it was resumed.\<close>

definition resume_count :: "pending_writes \<Rightarrow> string \<Rightarrow> int option" where
  "resume_count writes task =
     (case map (\<lambda>(t, c, v). v) (filter (\<lambda>(t, c, v). t = task \<and> c = ''__resume__'') writes) of
        [] \<Rightarrow> Some 0
      | [v] \<Rightarrow> map_option (\<lambda>vs. int (length vs)) (as_list v)
      | _ \<Rightarrow> None)"

text \<open>The inner loop: every interrupt of a task gets the task's position, once.\<close>

primrec place_interrupts ::
  "resume_position \<Rightarrow> string list \<Rightarrow> (string, resume_position) pydict
   \<Rightarrow> (string, resume_position) pydict result" where
  "place_interrupts p [] d = Inr d"
| "place_interrupts p (i # is) d =
     (if map_of d i \<noteq> None then Inl position_unavailable
      else place_interrupts p is (AList.update i p d))"

primrec place_tasks ::
  "string \<Rightarrow> pending_writes \<Rightarrow> snapshot_task list \<Rightarrow> (string, resume_position) pydict
   \<Rightarrow> (string, resume_position) pydict result" where
  "place_tasks cp writes [] d = Inr d"
| "place_tasks cp writes (t # ts) d =
     (if st_interrupts t = [] then place_tasks cp writes ts d
      else if st_nested t then Inl (resume_uncertain ''nested_approval_position_unavailable'')
      else case resume_count writes (st_id t) of
             None \<Rightarrow> Inl position_unavailable
           | Some n \<Rightarrow>
               if st_id t = [] then Inl (Exc (OtherError ''ValidationError'') [])
               else (case place_interrupts
                        \<lparr>rp_checkpoint_id = cp, rp_task_id = st_id t, rp_resume_count = n\<rparr>
                        (st_interrupts t) d of
                      Inl e \<Rightarrow> Inl e
                    | Inr d1 \<Rightarrow> place_tasks cp writes ts d1))"

definition interrupt_positions ::
  "graph_snapshot \<Rightarrow> pending_writes option \<Rightarrow> (string, resume_position) pydict result" where
  "interrupt_positions sn saved =
     (case (sn_checkpoint_id sn, saved) of
        (Some cp, Some writes) \<Rightarrow>
          if cp = [] then Inl position_unavailable
          else (case place_tasks cp writes (sn_tasks sn) [] of
                  Inl e \<Rightarrow> Inl e
                | Inr d \<Rightarrow>
                    if set (map fst d) \<noteq> set (snapshot_interrupts sn) then Inl position_unavailable
                    else Inr d)
      | _ \<Rightarrow> Inl position_unavailable)"

section \<open>What a delivered job runs\<close>

datatype graph_input =
    Fresh_payload pyval
  | Continue
  | Resume_with "(string, string) pydict"
  | Resume_any string

definition position_value :: "resume_position \<Rightarrow> pyval" where
  "position_value p =
     PDict [(''checkpoint_id'', PStr (rp_checkpoint_id p)), (''task_id'', PStr (rp_task_id p)),
            (''resume_count'', PInt (rp_resume_count p))]"

text \<open>\<open>_ResumePosition.model_validate\<close>: exactly these fields, a strict count.\<close>

definition parse_position :: "pyval \<Rightarrow> resume_position option" where
  "parse_position v =
     (case as_dict v of
        None \<Rightarrow> None
      | Some d \<Rightarrow>
          if set (map fst d) \<noteq> {''checkpoint_id'', ''task_id'', ''resume_count''} then None
          else (case (as_str (pget d ''checkpoint_id''), as_str (pget d ''task_id''), pget d ''resume_count'') of
                  (Some c, Some t, PInt n) \<Rightarrow>
                    if c = [] \<or> t = [] \<or> n < 0 then None
                    else Some \<lparr>rp_checkpoint_id = c, rp_task_id = t, rp_resume_count = n\<rparr>
                | _ \<Rightarrow> None))"

fun parse_positions :: "(string \<times> pyval) list \<Rightarrow> (string, resume_position) pydict option" where
  "parse_positions [] = Some []"
| "parse_positions ((k, v) # ps) =
     (case (parse_position v, parse_positions ps) of
        (Some p, Some d) \<Rightarrow> Some ((k, p) # d) | _ \<Rightarrow> None)"

fun nonempty_strings :: "pyval list \<Rightarrow> string list option" where
  "nonempty_strings [] = Some []"
| "nonempty_strings (v # vs) =
     (case (as_str v, nonempty_strings vs) of
        (Some s, Some ss) \<Rightarrow> if s = [] then None else Some (s # ss)
      | _ \<Rightarrow> None)"

record resume_envelope =
  en_version :: int
  en_decision :: string
  en_ids :: "string list"
  en_positions :: "(string, resume_position) pydict"

text \<open>The checks of a resume payload before the graph is asked.\<close>

definition parse_envelope :: "(string \<times> pyval) list \<Rightarrow> resume_envelope option" where
  "parse_envelope d =
     (case (pget d ''resume_version'', as_str (pget d ''decision''), as_list (pget d ''interrupt_ids'')) of
        (PInt version, Some decision, Some vs) \<Rightarrow>
          if version \<notin> {1, 2} \<or> strip decision = [] \<or> vs = [] then None
          else (case nonempty_strings vs of
                  None \<Rightarrow> None
                | Some ids \<Rightarrow>
                    if version = 1
                    then Some \<lparr>en_version = 1, en_decision = decision, en_ids = ids, en_positions = []\<rparr>
                    else (case as_dict (pget d ''interrupt_positions'') of
                            None \<Rightarrow> None
                          | Some raw \<Rightarrow>
                              if set (map fst raw) \<noteq> set ids then None
                              else map_option (\<lambda>ps. \<lparr>en_version = 2, en_decision = decision,
                                     en_ids = ids, en_positions = ps\<rparr>) (parse_positions raw)))
      | _ \<Rightarrow> None)"

text \<open>The loop over the pending identifiers of a version 2 envelope: those whose gate has not
  moved, and whether one was consumed.\<close>

primrec unchanged_gates ::
  "(string, resume_position) pydict \<Rightarrow> (string, resume_position) pydict \<Rightarrow> string list
   \<Rightarrow> (string list \<times> bool) option" where
  "unchanged_gates before now [] = Some ([], False)"
| "unchanged_gates before now (i # is) =
     (case (map_of before i, map_of now i) of
        (Some b, Some n) \<Rightarrow>
          if (rp_checkpoint_id b, rp_task_id b) \<noteq> (rp_checkpoint_id n, rp_task_id n)
          then unchanged_gates before now is
          else if rp_resume_count n < rp_resume_count b then None
          else (case unchanged_gates before now is of
                  None \<Rightarrow> None
                | Some (u, consumed) \<Rightarrow>
                    if rp_resume_count n = rp_resume_count b then Some (i # u, consumed)
                    else Some (u, True))
      | _ \<Rightarrow> None)"

text \<open>\<open>Command(resume={identifier: decision ...})\<close>.\<close>

definition resume_command :: "string list \<Rightarrow> string \<Rightarrow> graph_input" where
  "resume_command ids decision = Resume_with (dict_of (map (\<lambda>i. (i, decision)) ids))"

definition resume_invocation ::
  "workflow_job \<Rightarrow> resume_envelope \<Rightarrow> graph_snapshot \<Rightarrow> pending_writes option
   \<Rightarrow> (bool \<times> graph_input) result" where
  "resume_invocation job en sn saved =
     (if \<not> snapshot_exists sn then Inl (resume_uncertain (wj_workflow_id job))
      else let interrupts = snapshot_interrupts sn;
               matching = filter (\<lambda>i. i \<in> set interrupts) (en_ids en)
           in if matching \<noteq> []
              then if en_version en = 1
                   then if wj_attempt_count job > 1
                        then Inl (resume_uncertain (wj_workflow_id job))
                        else Inr (True, resume_command matching (en_decision en))
                   else (case interrupt_positions sn saved of
                           Inl e \<Rightarrow> Inl e
                         | Inr current \<Rightarrow>
                             (case unchanged_gates (en_positions en) current matching of
                                None \<Rightarrow> Inl (resume_uncertain (wj_workflow_id job))
                              | Some (unchanged, consumed) \<Rightarrow>
                                  if unchanged = [] then Inr (consumed, Continue)
                                  else Inr (True, resume_command unchanged (en_decision en))))
              else if interrupts \<noteq> [] \<or> sn_next sn = [] then Inr (False, Continue)
              else Inr (True, Continue))"

definition job_invocation ::
  "workflow_job \<Rightarrow> graph_snapshot \<Rightarrow> pending_writes option \<Rightarrow> (bool \<times> graph_input) result" where
  "job_invocation job sn saved =
     (if wj_kind job = J_START
      then if wj_attempt_count job > 1 \<and> snapshot_exists sn
           then if snapshot_interrupts sn \<noteq> [] \<or> sn_next sn = [] then Inr (False, Continue)
                else Inr (True, Continue)
           else Inr (True, Fresh_payload (wj_payload job))
      else case as_dict (wj_payload job) of
             Some d \<Rightarrow>
               (case parse_envelope d of
                  None \<Rightarrow> Inl (resume_uncertain (wj_workflow_id job))
                | Some en \<Rightarrow> resume_invocation job en sn saved)
           | None \<Rightarrow>
               (case as_str (wj_payload job) of
                  None \<Rightarrow> Inl (resume_uncertain (wj_workflow_id job))
                | Some s \<Rightarrow>
                    if strip s = [] then Inl (resume_uncertain (wj_workflow_id job))
                    else if wj_attempt_count job > 1
                    then if snapshot_exists sn \<and> snapshot_interrupts sn = []
                         then Inr (sn_next sn \<noteq> [], Continue)
                         else Inl (resume_uncertain (wj_workflow_id job))
                    else Inr (True, Resume_any s)))"

section \<open>Decisions\<close>

definition no_pending_decision :: "string \<Rightarrow> exc" where
  "no_pending_decision why = Exc (OtherError ''NoPendingDecision'') why"

definition workflow_not_found :: "string \<Rightarrow> exc" where
  "workflow_not_found w = Exc (OtherError ''WorkflowNotFound'') w"

definition expired_workspace :: exc where
  "expired_workspace = no_pending_decision ''Workspace expirado; crie uma nova ordem de trabalho.''"

text \<open>The payload \<open>decide\<close> enqueues.\<close>

definition resume_payload :: "string \<Rightarrow> string list \<Rightarrow> (string, resume_position) pydict \<Rightarrow> pyval" where
  "resume_payload decision ids positions =
     PDict [(''resume_version'', PInt 2), (''decision'', PStr decision),
            (''interrupt_ids'', PList (map PStr ids)),
            (''interrupt_positions'', PDict (map (\<lambda>(k, p). (k, position_value p)) positions))]"

definition lease_released :: "workspace_lease option \<Rightarrow> bool" where
  "lease_released l \<longleftrightarrow> (case l of None \<Rightarrow> False | Some x \<Rightarrow> le_state x \<in> {WS_RELEASED, WS_RELEASING})"

text \<open>\<open>decide\<close> up to the job it enqueues: \<open>pending\<close> says whether the queue knows the workflow, and
  \<open>lease\<close> is the journaled one when there is a workspace manager.\<close>

definition decide ::
  "string \<Rightarrow> string \<Rightarrow> bool \<Rightarrow> workspace_lease option \<Rightarrow> graph_snapshot \<Rightarrow> pending_writes option
   \<Rightarrow> pyval result" where
  "decide w decision pending lease sn saved =
     (if sn_values sn = None \<and> \<not> pending then Inl (workflow_not_found w)
      else if decision = ''retry'' \<and> lease_released lease then Inl expired_workspace
      else if snapshot_interrupts sn = []
      then Inl (no_pending_decision (''Workflow '' @ w @ '' nao esta aguardando decisao.''))
      else case interrupt_positions sn saved of
             Inl (Exc (OtherError kind) why) \<Rightarrow>
               if kind = ''WorkflowResumeUncertain''
               then Inl (no_pending_decision
                 ''Nao foi possivel identificar com seguranca a posicao da aprovacao.'')
               else Inl (Exc (OtherError kind) why)
           | Inl e \<Rightarrow> Inl e
           | Inr positions \<Rightarrow> Inr (resume_payload decision (snapshot_interrupts sn) positions))"

definition get_access_context ::
  "string \<Rightarrow> graph_snapshot \<Rightarrow> access_context option \<Rightarrow> access_context result" where
  "get_access_context w sn queued =
     (case sn_values sn of
        Some s \<Rightarrow> Inr \<lparr>ac_workflow_id = w, ac_project_id = w_project_id s,
                     ac_owner_client_id = w_owner_client_id s\<rparr>
      | None \<Rightarrow> (case queued of None \<Rightarrow> Inl (workflow_not_found w) | Some a \<Rightarrow> Inr a))"

section \<open>A decision and its gate\<close>

lemma unchanged_gates_sound:
  "unchanged_gates before now is = Some (u, c) \<Longrightarrow> i \<in> set u \<Longrightarrow>
   i \<in> set is \<and> (\<exists>p. map_of before i = Some p \<and> map_of now i = Some p)"
proof (induction "is" arbitrary: u c)
  case (Cons j js)
  from Cons.prems(1) obtain b n where bn: "map_of before j = Some b" "map_of now j = Some n"
    by (auto split: option.splits)
  obtain u' c' where rest: "unchanged_gates before now js = Some (u', c')"
      "u = u' \<or> u = j # u' \<and> b = n"
    using Cons.prems(1) bn by (auto split: option.splits if_splits prod.splits)
  show ?case
  proof (cases "i \<in> set u'")
    case True
    then show ?thesis using Cons.IH [OF rest(1)] by simp
  next
    case False
    then have "i = j" "b = n" using rest(2) Cons.prems(2) by auto
    then show ?thesis using bn by simp
  qed
qed simp

lemma resume_command_entries:
  "resume_command ids decision = Resume_with m \<Longrightarrow> (i, x) \<in> set m \<Longrightarrow> i \<in> set ids \<and> x = decision"
proof -
  assume m: "resume_command ids decision = Resume_with m" and e: "(i, x) \<in> set m"
  have d: "m = dict_of (map (\<lambda>i. (i, decision)) ids)" using m by (simp add: resume_command_def)
  then have "map_of m i = Some x"
    using e map_of_is_SomeI [OF distinct_dict_of, of i x "map (\<lambda>i. (i, decision)) ids"] by simp
  then have "map_of (rev (map (\<lambda>i. (i, decision)) ids)) i = Some x" by (simp add: d map_of_dict_of)
  then show ?thesis by (auto dest!: map_of_SomeD)
qed


definition position_ok :: "resume_position \<Rightarrow> bool" where
  "position_ok p \<longleftrightarrow> rp_checkpoint_id p \<noteq> [] \<and> rp_task_id p \<noteq> [] \<and> 0 \<le> rp_resume_count p"

lemma parse_position_value: "position_ok p \<Longrightarrow> parse_position (position_value p) = Some p"
  by (auto simp: parse_position_def position_value_def position_ok_def pget_def dict_get_or_def)

lemma parse_positions_values:
  "(\<And>k p. (k, p) \<in> set ps \<Longrightarrow> position_ok p) \<Longrightarrow>
   parse_positions (map (\<lambda>(k, p). (k, position_value p)) ps) = Some ps"
proof (induction ps)
  case (Cons kp ps)
  obtain k p where kp: "kp = (k, p)" by (cases kp)
  have "position_ok p" by (rule Cons.prems [of k]) (simp add: kp)
  moreover have "parse_positions (map (\<lambda>(k, p). (k, position_value p)) ps) = Some ps"
    by (rule Cons.IH) (use Cons.prems in auto)
  ultimately show ?case by (simp add: kp parse_position_value)
qed simp

lemma nonempty_strings_map: "[] \<notin> set ss \<Longrightarrow> nonempty_strings (map PStr ss) = Some ss"
  by (induction ss) auto

lemma place_interrupts_ok:
  "place_interrupts p is d = Inr d' \<Longrightarrow> position_ok p \<Longrightarrow> distinct (map fst d) \<Longrightarrow>
   (\<And>k q. (k, q) \<in> set d \<Longrightarrow> position_ok q) \<Longrightarrow>
   distinct (map fst d') \<and> (\<forall>(k, q)\<in>set d'. position_ok q)"
proof (induction "is" arbitrary: d)
  case (Cons i js)
  show ?case
  proof (rule Cons.IH)
    show "position_ok q" if "(k, q) \<in> set (AList.update i p d)" for k q
      using set_update_subset [of i p d] that Cons.prems(2,4) by auto
  qed (use Cons.prems in \<open>auto simp: distinct_update split: if_splits\<close>)
qed auto

lemma resume_count_nonneg: "resume_count writes t = Some n \<Longrightarrow> 0 \<le> n"
  by (auto simp: resume_count_def split: list.splits)

lemma place_tasks_ok:
  "place_tasks cp writes ts d = Inr d' \<Longrightarrow> cp \<noteq> [] \<Longrightarrow> distinct (map fst d) \<Longrightarrow>
   (\<And>k q. (k, q) \<in> set d \<Longrightarrow> position_ok q) \<Longrightarrow>
   distinct (map fst d') \<and> (\<forall>(k, q)\<in>set d'. position_ok q)"
proof (induction ts arbitrary: d)
  case (Cons t ts)
  show ?case
  proof (cases "st_interrupts t = []")
    case False
    then obtain n d1 where n: "resume_count writes (st_id t) = Some n" "st_id t \<noteq> []"
      "place_interrupts \<lparr>rp_checkpoint_id = cp, rp_task_id = st_id t, rp_resume_count = n\<rparr>
         (st_interrupts t) d = Inr d1" "place_tasks cp writes ts d1 = Inr d'"
      using Cons.prems(1) by (auto split: if_splits option.splits sum.splits)
    have "distinct (map fst d1) \<and> (\<forall>(k, q)\<in>set d1. position_ok q)"
      by (rule place_interrupts_ok [OF n(3) _ Cons.prems(3)])
         (use Cons.prems n resume_count_nonneg [OF n(1)] in \<open>auto simp: position_ok_def\<close>)
    then show ?thesis using Cons.IH [OF n(4) Cons.prems(2)] by auto
  qed (use Cons in auto)
qed auto

lemma interrupt_positions_ok:
  "interrupt_positions sn saved = Inr d \<Longrightarrow>
   distinct (map fst d) \<and> (\<forall>(k, q)\<in>set d. position_ok q) \<and> set (map fst d) = set (snapshot_interrupts sn)"
  using place_tasks_ok [of _ _ "sn_tasks sn" "[]" d]
  by (auto simp: interrupt_positions_def split: option.splits if_splits sum.splits)

lemma unchanged_gates_same:
  "set is \<subseteq> set (map fst d) \<Longrightarrow> unchanged_gates d d is = Some (is, False)"
proof (induction "is")
  case (Cons i js)
  then obtain p where "map_of d i = Some p"
    by (metis insert_subset list.set_map list.simps(15) map_of_eq_None_iff option.exhaust)
  then show ?case using Cons by simp
qed simp

lemma decided_job_invocation:
  assumes "decide w decision pending lease sn saved = Inr payload"
    and "strip decision \<noteq> []" and "[] \<notin> set (snapshot_interrupts sn)" and "snapshot_exists sn"
    and "wj_kind job = J_RESUME" and "wj_payload job = payload"
  shows "job_invocation job sn saved = Inr (True, resume_command (snapshot_interrupts sn) decision)"
proof -
  obtain ps where ps: "interrupt_positions sn saved = Inr ps"
      "payload = resume_payload decision (snapshot_interrupts sn) ps" "snapshot_interrupts sn \<noteq> []"
    using assms(1) by (auto simp: decide_def split: if_splits sum.splits exc.splits exc_kind.splits)
  have ok: "set (map fst ps) = set (snapshot_interrupts sn)" "\<And>k q. (k, q) \<in> set ps \<Longrightarrow> position_ok q"
    using interrupt_positions_ok [OF ps(1)] by auto
  have raw: "set (map fst (map (\<lambda>(k, p). (k, position_value p)) ps)) = set (snapshot_interrupts sn)"
    using ok(1) by (simp add: split_beta comp_def)
  have env: "\<exists>d. as_dict payload = Some d \<and> parse_envelope d = Some
       \<lparr>en_version = 2, en_decision = decision, en_ids = snapshot_interrupts sn, en_positions = ps\<rparr>"
    using assms(2,3) ps(3) raw parse_positions_values [OF ok(2)]
    by (simp add: ps(2) resume_payload_def parse_envelope_def pget_def dict_get_or_def nonempty_strings_map)
  have same: "unchanged_gates ps ps (snapshot_interrupts sn) = Some (snapshot_interrupts sn, False)"
    by (rule unchanged_gates_same) (simp only: ok(1) subset_refl)
  show ?thesis
    using env assms(4,5,6) ps same
    by (auto simp: job_invocation_def resume_invocation_def Let_def)
qed

text \<open>C28. A decision resumes exactly the gates that were pending: delivered while the graph still
  stands at them, at the first delivery or at a later one, the job \<open>decide\<close> enqueued answers every
  pending gate with the decision.\<close>

theorem fresh_decision_answers_its_gates:
  assumes "decide w decision pending lease sn saved = Inr payload"
    and "strip decision \<noteq> []" and "[] \<notin> set (snapshot_interrupts sn)" and "snapshot_exists sn"
    and "wj_kind job = J_RESUME" and "wj_payload job = payload"
  shows "job_invocation job sn saved = Inr (True, resume_command (snapshot_interrupts sn) decision)"
  using assms by (rule decided_job_invocation)

section \<open>Witnesses\<close>

definition gate_sample :: graph_snapshot where
  "gate_sample =
     \<lparr>sn_created = True, sn_values = None, sn_has_phase = True, sn_interrupts = [''g''],
      sn_tasks = [\<lparr>st_id = ''t'', st_interrupts = [''g''], st_nested = False\<rparr>],
      sn_next = [''human_gate''], sn_checkpoint_id = Some ''c''\<rparr>"

definition position_sample :: resume_position where
  "position_sample = \<lparr>rp_checkpoint_id = ''c'', rp_task_id = ''t'', rp_resume_count = 0\<rparr>"

definition resume_job_sample :: workflow_job where
  "resume_job_sample =
     \<lparr>wj_id = 1, wj_workflow_id = ''w'', wj_project_id = ''p'', wj_owner_client_id = ''o'',
      wj_kind = J_RESUME, wj_payload = resume_payload ''yes'' [''g''] [(''g'', position_sample)],
      wj_attempt_count = 2, wj_max_attempts = 3, wj_locked_by = None\<rparr>"

lemmas gate_samples = gate_sample_def position_sample_def resume_job_sample_def

lemma positions_sample: "interrupt_positions gate_sample (Some []) = Inr [(''g'', position_sample)]"
  by (simp add: gate_samples interrupt_positions_def snapshot_interrupts_def resume_count_def)

lemma decide_sample:
  "decide ''w'' ''yes'' True None gate_sample (Some []) =
     Inr (resume_payload ''yes'' [''g''] [(''g'', position_sample)])"
  unfolding decide_def positions_sample
  by (simp add: gate_sample_def lease_released_def snapshot_interrupts_def)

theorem fresh_decision_answers_its_gates_witness:
  "job_invocation resume_job_sample gate_sample (Some []) =
     Inr (True, resume_command (snapshot_interrupts gate_sample) ''yes'')"
  by (rule fresh_decision_answers_its_gates [OF decide_sample])
     (simp_all add: gate_samples snapshot_interrupts_def snapshot_exists_def strip_def is_space_def)

lemma invocation_sample:
  "job_invocation resume_job_sample gate_sample (Some []) = Inr (True, Resume_with [(''g'', ''yes'')])"
proof -
  have "job_invocation resume_job_sample gate_sample (Some []) =
      Inr (True, resume_command (snapshot_interrupts gate_sample) ''yes'')"
    by (rule decided_job_invocation [OF decide_sample])
       (simp_all add: gate_samples snapshot_interrupts_def snapshot_exists_def strip_def is_space_def)
  then show ?thesis
    by (simp add: resume_command_def gate_sample_def snapshot_interrupts_def dict_of_def)
qed

lemma envelope_sample:
  "parse_envelope [(''resume_version'', PInt 2), (''decision'', PStr ''yes''),
     (''interrupt_ids'', PList [PStr ''g'']),
     (''interrupt_positions'', PDict [(''g'', position_value position_sample)])] =
   Some \<lparr>en_version = 2, en_decision = ''yes'', en_ids = [''g''], en_positions = [(''g'', position_sample)]\<rparr>"
  by (simp add: parse_envelope_def pget_def dict_get_or_def strip_def is_space_def
      parse_position_value position_ok_def position_sample_def)


end
