(* ===== verification/Architecture_Scan.thy ===== *)
theory Architecture_Scan
  imports Build_Profile Build_Evidence_Model Effect_Monad Url "HOL-Library.List_Lexorder" "HOL-Library.Char_ord"
    "HOL-Library.Multiset"
begin

text \<open>
  The bounded scan of Python imports against an operator's policy (\<open>app/factory/architecture.py\<close>).
  What the operating system answers while the scan walks is a tree of answers; what \<open>ast.parse\<close>
  and \<open>ast.walk\<close> give for a file is part of the answer for that file: no tree, or its nodes in
  order, of which imports and calls are told apart. The readings of the monotonic clock are a
  sequence.
\<close>

section \<open>What the scan is shown\<close>

datatype callee =
    Callee_name string
  | Callee_attribute string "string option"
  | Callee_other

datatype ast_node =
    Import_node "(string \<times> string option) list" int
  | Import_from_node "string option" "(string \<times> string option) list" nat int
  | Call_node callee int
  | Other_node

record source_answer =
  so_opens :: bool
  so_regular :: bool
  so_nlink :: nat
  so_size :: nat
  so_length :: nat
  so_nodes :: "ast_node list option"

datatype fs_answer =
    Unreadable
  | Directory bool "(string \<times> fs_answer) list option"
  | Regular source_answer
  | Special

text \<open>The root opens or not; each source root opens to a listing (the outer option), which can be
  read or not.\<close>

record scan_host =
  th_root_opens :: bool
  th_source_root :: "string \<Rightarrow> (string \<times> fs_answer) list option option"
  th_monotonic :: "nat \<Rightarrow> rat"

section \<open>The scan\<close>

definition max_files :: nat where "max_files = 1000"
definition max_entries :: nat where "max_entries = 10000"
definition max_file_bytes :: nat where "max_file_bytes = 128 * 1024"
definition max_bytes :: nat where "max_bytes = 8 * 1024 * 1024"
definition max_depth :: nat where "max_depth = 24"
definition max_seconds :: rat where "max_seconds = 5"

definition ignored_directories :: "string list" where
  "ignored_directories = [''.git'', ''.venv'', ''venv'', ''node_modules'', ''__pycache__'']"

definition within_module :: "string \<Rightarrow> string \<Rightarrow> bool" where
  "within_module m p \<longleftrightarrow> m = p \<or> starts_with m (p @ ''.'')"

record scan =
  sc_findings :: "architecture_finding list"
  sc_files :: nat
  sc_entries :: nat
  sc_bytes :: nat
  sc_complete :: bool
  sc_matched :: "string list"
  sc_deadline :: rat
  sc_ticks :: nat

definition new_scan :: "scan_host \<Rightarrow> scan" where
  "new_scan h =
     \<lparr>sc_findings = [], sc_files = 0, sc_entries = 0, sc_bytes = 0, sc_complete = True, sc_matched = [],
      sc_deadline = th_monotonic h 0 + max_seconds, sc_ticks = 1\<rparr>"

definition incomplete :: "string \<Rightarrow> exc" where
  "incomplete code = Exc (OtherError ''_Incomplete'') code"

definition os_error :: exc where
  "os_error = Exc (OtherError ''OSError'') []"

definition default_remediation :: string where
  "default_remediation =
     ''Corrija o codigo ou a configuracao aprovada; nao ignore esta verificacao.''"

definition issue ::
  "string \<Rightarrow> string \<Rightarrow> string \<Rightarrow> int \<Rightarrow> string \<Rightarrow> string \<Rightarrow> string \<Rightarrow> (scan, unit) io" where
  "issue code path message line rule_id dependency remediation s =
     (if length (sc_findings s) \<ge> 50 then (Inl (incomplete ''diagnostic_limit''), s)
      else (Inr (), s\<lparr>sc_findings := sc_findings s @
        [\<lparr>af_rule_id = rule_id, af_code = code, af_path = take 256 path, af_line = line,
          af_dependency = take 256 dependency, af_message = message, af_remediation = remediation\<rparr>]\<rparr>))"

definition budget :: "scan_host \<Rightarrow> (scan, unit) io" where
  "budget h s =
     (let now = th_monotonic h (sc_ticks s); t = s\<lparr>sc_ticks := Suc (sc_ticks s)\<rparr> in
      if now \<ge> sc_deadline s then (Inl (incomplete ''scan_timeout''), t)
      else if sc_entries s > max_entries \<or> sc_files s > max_files \<or> sc_bytes s > max_bytes
      then (Inl (incomplete ''scan_limit''), t)
      else (Inr (), t))"

section \<open>One file\<close>

text \<open>The pieces of the module's name and whether the file is a package's \<open>__init__\<close>.\<close>

definition module_pieces :: "string \<Rightarrow> string list \<times> bool" where
  "module_pieces relative =
     (let pieces = split_on (CHR ''/'') (take (length relative - 3) relative);
          is_package = last pieces = ''__init__''
      in (if is_package then butlast pieces else pieces, is_package))"

definition dotted_name :: "string \<Rightarrow> string" where
  "dotted_name relative = join ''.'' (fst (module_pieces relative))"

definition package_of :: "string \<Rightarrow> string list" where
  "package_of relative =
     (let (pieces, is_package) = module_pieces relative in if is_package then pieces else butlast pieces)"

definition governing_rules :: "architecture_policy \<Rightarrow> string \<Rightarrow> import_boundary list" where
  "governing_rules policy relative =
     filter (\<lambda>rule. within_module (dotted_name relative) (ib_source rule)) (po_rules policy)"

definition alias_name :: "string \<times> string option \<Rightarrow> string" where
  "alias_name a = or_str (snd a) (fst a)"

definition importlib_names :: "ast_node list \<Rightarrow> string list" where
  "importlib_names nodes = ''importlib'' # concat (map (\<lambda>n. case n of
       Import_node names l \<Rightarrow> map alias_name (filter (\<lambda>a. fst a = ''importlib'') names)
     | _ \<Rightarrow> []) nodes)"

definition dynamic_names :: "ast_node list \<Rightarrow> string list" where
  "dynamic_names nodes = ''__import__'' # concat (map (\<lambda>n. case n of
       Import_from_node m names level l \<Rightarrow>
         if m = Some ''importlib'' \<and> level = 0
         then map alias_name (filter (\<lambda>a. fst a = ''import_module'') names) else []
     | _ \<Rightarrow> []) nodes)"

text \<open>An import the scan cannot resolve, and a call that imports by name.\<close>

definition unresolvable :: "string list \<Rightarrow> ast_node \<Rightarrow> bool" where
  "unresolvable package node \<longleftrightarrow> (case node of
     Import_from_node m names level l \<Rightarrow> (\<exists>a\<in>set names. fst a = ''*'') \<or> level > length package
   | _ \<Rightarrow> False)"

definition imports_by_name :: "ast_node list \<Rightarrow> ast_node \<Rightarrow> bool" where
  "imports_by_name nodes node \<longleftrightarrow> (case node of
     Call_node (Callee_name i) l \<Rightarrow> i \<in> set (dynamic_names nodes)
   | Call_node (Callee_attribute attr (Some i)) l \<Rightarrow> attr = ''import_module'' \<and> i \<in> set (importlib_names nodes)
   | _ \<Rightarrow> False)"

definition import_base :: "string list \<Rightarrow> string option \<Rightarrow> nat \<Rightarrow> string" where
  "import_base package m level =
     (let base_parts = if level \<noteq> 0 then take (length package - level + 1) package else []
      in join ''.'' (base_parts @ (case m of None \<Rightarrow> [] | Some x \<Rightarrow> if x = [] then [] else [x])))"

definition import_targets :: "string list \<Rightarrow> ast_node \<Rightarrow> string list" where
  "import_targets package node = (case node of
     Import_node names l \<Rightarrow> map fst names
   | Import_from_node m names level l \<Rightarrow>
       let base = import_base package m level
       in base # map (\<lambda>a. if base \<noteq> [] then base @ ''.'' @ fst a else fst a) names
   | _ \<Rightarrow> [])"

definition node_line :: "ast_node \<Rightarrow> int" where
  "node_line node = (case node of
     Import_node names l \<Rightarrow> l | Import_from_node m names level l \<Rightarrow> l | Call_node c l \<Rightarrow> l | Other_node \<Rightarrow> 0)"

text \<open>One finding per rule and statement, for the first target across the boundary.\<close>

definition first_crossing :: "import_boundary \<Rightarrow> string list \<Rightarrow> string option" where
  "first_crossing rule targets =
     List.find (\<lambda>t. \<exists>f\<in>set (ib_forbidden rule). within_module t f) (sort (remdups targets))"

definition check_rule :: "string \<Rightarrow> ast_node \<Rightarrow> string list \<Rightarrow> import_boundary \<Rightarrow> (scan, unit) io" where
  "check_rule path node targets rule =
     (case first_crossing rule targets of
        None \<Rightarrow> io_return ()
      | Some target \<Rightarrow>
          issue ''forbidden_dependency'' path
            ''Dependencia atravessa um limite de arquitetura aprovado.'' (node_line node)
            (ib_id rule) target (ib_remediation rule))"

definition check_node ::
  "scan_host \<Rightarrow> import_boundary list \<Rightarrow> string list \<Rightarrow> ast_node list \<Rightarrow> string \<Rightarrow> ast_node
   \<Rightarrow> (scan, unit) io" where
  "check_node h rules package nodes path node =
     io_then (budget h)
       (if unresolvable package node
        then issue ''unsupported_import'' path
          ''Import wildcard ou relativo fora do pacote nao pode ser certificado.'' (node_line node)
          ''scanner'' [] ''Use imports estaticos explicitos com o nome completo da dependencia.''
        else io_then
          (io_when (imports_by_name nodes node)
            (issue ''unsupported_import'' path
              ''Import dinamico reconhecido em modulo governado nao e suportado.'' (node_line node)
              ''scanner'' []
              ''Substitua por import estatico explicito ou solicite revisao da politica ao operador.''))
          (io_each (check_rule path node (import_targets package node)) rules))"

definition parse_source ::
  "scan_host \<Rightarrow> architecture_policy \<Rightarrow> ast_node list option \<Rightarrow> string \<Rightarrow> string \<Rightarrow> (scan, unit) io" where
  "parse_source h policy tree path relative =
     (let rules = governing_rules policy relative in
      io_then (io_modify (\<lambda>s. s\<lparr>sc_matched := sc_matched s @ map ib_id rules\<rparr>))
        (case tree of
           None \<Rightarrow>
             io_then (io_modify (\<lambda>s. s\<lparr>sc_complete := False\<rparr>))
               (issue ''invalid_python'' path
                 ''Arquivo Python invalido ou nao analisavel; conteudo nao executado.'' 0
                 ''scanner'' [] default_remediation)
         | Some nodes \<Rightarrow>
             if rules = [] then io_return ()
             else io_each (check_node h rules (package_of relative) nodes path) nodes))"

section \<open>The walk\<close>

definition count_entry :: "scan_host \<Rightarrow> (scan, unit) io" where
  "count_entry h = io_then (io_modify (\<lambda>s. s\<lparr>sc_entries := Suc (sc_entries s)\<rparr>)) (budget h)"

definition item_path :: "string \<Rightarrow> string \<Rightarrow> string" where
  "item_path path name = (if path \<noteq> ''.'' then path @ ''/'' @ name else name)"

definition item_relative :: "string \<Rightarrow> string \<Rightarrow> string" where
  "item_relative relative name = (if relative \<noteq> [] then relative @ ''/'' @ name else name)"

definition scan_source ::
  "scan_host \<Rightarrow> architecture_policy \<Rightarrow> source_answer \<Rightarrow> string \<Rightarrow> string \<Rightarrow> (scan, unit) io" where
  "scan_source h policy src path relative =
     io_then (io_modify (\<lambda>s. s\<lparr>sc_files := Suc (sc_files s)\<rparr>))
    (io_then (budget h)
    (io_then (io_guard (so_opens src) os_error)
    (io_then (io_guard (so_regular src \<and> so_nlink src = 1) (incomplete ''unsafe_source''))
    (io_then (io_guard (so_size src \<le> max_file_bytes \<and> so_length src \<le> max_file_bytes)
                (incomplete ''file_size_limit''))
    (io_then (io_modify (\<lambda>s. s\<lparr>sc_bytes := sc_bytes s + so_length src\<rparr>))
    (io_then (budget h)
       (parse_source h policy (so_nodes src) path relative)))))))"

lemma size_list_sort: "size_list f (sort_key k xs) = size_list f xs"
proof -
  have "sum_list (map f (sort_key k xs)) = sum_list (map f xs)"
    by (metis mset_map mset_sort sum_mset_sum_list)
  then show ?thesis by (simp add: size_list_conv_sum_list)
qed

function walk_tree ::
    "scan_host \<Rightarrow> architecture_policy \<Rightarrow> string \<Rightarrow> string \<Rightarrow> nat \<Rightarrow> (string \<times> fs_answer) list option
     \<Rightarrow> (scan, unit) io"
  and walk_names ::
    "scan_host \<Rightarrow> architecture_policy \<Rightarrow> string \<Rightarrow> string \<Rightarrow> nat \<Rightarrow> (string \<times> fs_answer) list
     \<Rightarrow> (scan, unit) io"
  and walk_item ::
    "scan_host \<Rightarrow> architecture_policy \<Rightarrow> string \<Rightarrow> string \<Rightarrow> nat \<Rightarrow> string \<Rightarrow> fs_answer
     \<Rightarrow> (scan, unit) io" where
  "walk_tree h policy path relative depth listing =
     io_then (budget h)
    (io_then (io_guard (depth \<le> max_depth) (incomplete ''depth_limit''))
       (case listing of
          None \<Rightarrow> io_raise os_error
        | Some names \<Rightarrow>
            io_then (io_each (\<lambda>_. count_entry h) names)
              (walk_names h policy path relative depth (sort_key fst names))))"
| "walk_names h policy path relative depth [] = io_return ()"
| "walk_names h policy path relative depth ((name, answer) # names) =
     io_then (walk_item h policy (item_path path name) (item_relative relative name) depth name answer)
       (walk_names h policy path relative depth names)"
| "walk_item h policy path relative depth name answer =
     io_then (io_guard (length path \<le> 256) (incomplete ''path_limit''))
       (case answer of
          Unreadable \<Rightarrow> io_raise os_error
        | Directory opens listing \<Rightarrow>
            if name \<in> set ignored_directories then io_return ()
            else io_then (io_guard opens os_error) (walk_tree h policy path relative (depth + 1) listing)
        | Special \<Rightarrow>
            io_then (io_modify (\<lambda>s. s\<lparr>sc_complete := False\<rparr>))
              (issue ''unsafe_source'' path
                ''Link simbolico ou arquivo especial na arvore de fontes; leitura recusada.'' 0
                ''scanner'' [] default_remediation)
        | Regular src \<Rightarrow>
            if ends_with name ''.py'' then scan_source h policy src path relative else io_return ())"
  by pat_completeness auto
termination
  by (relation "measure (\<lambda>x. case x of
        Inl (h, policy, path, relative, depth, listing) \<Rightarrow> 2 * size_option (size_list (size_prod (\<lambda>_. 0) size)) listing
      | Inr (Inl (h, policy, path, relative, depth, names)) \<Rightarrow> 2 * size_list (size_prod (\<lambda>_. 0) size) names
      | Inr (Inr (h, policy, path, relative, depth, name, answer)) \<Rightarrow> 2 * size answer)")
     (auto simp: size_list_sort)

declare walk_tree.simps [simp del] walk_item.simps [simp del]

definition scan_root :: "scan_host \<Rightarrow> architecture_policy \<Rightarrow> string \<Rightarrow> (scan, unit) io" where
  "scan_root h policy r =
     (case th_source_root h r of None \<Rightarrow> io_raise os_error | Some listing \<Rightarrow> walk_tree h policy r [] 0 listing)"

definition check_matched :: "import_boundary \<Rightarrow> (scan, unit) io" where
  "check_matched rule =
     io_bind (io_gets sc_matched) (\<lambda>matched.
       io_when (ib_id rule \<notin> set matched)
         (issue ''unmatched_rule'' ''.'' ''Nenhum modulo corresponde a origem configurada na regra.'' 0
            (ib_id rule) []
            ''Confira source_roots e o prefixo source com o operador; a regra nao foi exercitada.''))"

definition scan_body :: "scan_host \<Rightarrow> architecture_policy \<Rightarrow> (scan, unit) io" where
  "scan_body h policy =
     io_then (io_guard (th_root_opens h) os_error)
    (io_then (io_each (scan_root h policy) (po_source_roots policy))
       (io_each check_matched (po_rules policy)))"

text \<open>The \<open>except\<close> clause.\<close>

definition interrupted_scan :: "exc \<Rightarrow> (scan, unit) io" where
  "interrupted_scan e =
     io_then (io_modify (\<lambda>s. s\<lparr>sc_complete := False\<rparr>))
    (io_bind (io_gets (\<lambda>s. length (sc_findings s))) (\<lambda>n.
       io_when (n < 50)
         (issue (if exc_kind e = OtherError ''_Incomplete'' then exc_text e else ''source_unavailable'') ''.''
            ''Analise incompleta: fonte insegura, indisponivel ou limite atingido.'' 0 ''scanner'' []
            ''Corrija a arvore de fontes ou reduza o escopo aprovado e execute novamente.'')))"

definition scan_report :: "digests \<Rightarrow> architecture_policy \<Rightarrow> scan \<Rightarrow> architecture_report" where
  "scan_report dg policy s =
     \<lparr>ar_policy_digest = dg_policy dg policy, ar_complete = sc_complete s,
      ar_files_checked = int (sc_files s), ar_findings = sc_findings s\<rparr>"

definition check_architecture ::
  "digests \<Rightarrow> bool \<Rightarrow> scan_host \<Rightarrow> architecture_policy \<Rightarrow> architecture_report result" where
  "check_architecture dg posix h policy =
     (if \<not> posix then Inl (Exc (OtherError ''PosixRequired'') ''architecture_scan'')
      else case io_catch (scan_body h policy) interrupted_scan (new_scan h) of
             (Inl e, s) \<Rightarrow> Inl e
           | (Inr _, s) \<Rightarrow> Inr (scan_report dg policy s))"

section \<open>What a clean scan certifies\<close>

text \<open>The specification. The Python files below a listing, with their paths as the module names see
  them; directories the scan ignores are left out.\<close>

inductive source_below :: "string \<Rightarrow> (string \<times> fs_answer) list \<Rightarrow> string \<Rightarrow> source_answer \<Rightarrow> bool" where
  here: "(name, Regular src) \<in> set names \<Longrightarrow> ends_with name ''.py'' \<Longrightarrow>
    source_below relative names (item_relative relative name) src"
| deeper: "(name, Directory opens (Some sub)) \<in> set names \<Longrightarrow> name \<notin> set ignored_directories \<Longrightarrow>
    source_below (item_relative relative name) sub path src \<Longrightarrow> source_below relative names path src"

inductive_cases source_below_cases: "source_below relative names path src"

text \<open>A module that a rule governs imports nothing across the rule's boundary, by any statement the
  scan can see.\<close>

definition obeys :: "string \<Rightarrow> ast_node list \<Rightarrow> import_boundary \<Rightarrow> bool" where
  "obeys relative nodes rule \<longleftrightarrow>
     (\<forall>node\<in>set nodes. \<not> unresolvable (package_of relative) node \<and> \<not> imports_by_name nodes node
        \<and> (\<forall>t\<in>set (import_targets (package_of relative) node). \<forall>f\<in>set (ib_forbidden rule). \<not> within_module t f))"

definition certified :: "architecture_policy \<Rightarrow> string \<Rightarrow> source_answer \<Rightarrow> bool" where
  "certified policy relative src \<longleftrightarrow>
     so_regular src \<and> so_nlink src = 1 \<and> so_length src \<le> max_file_bytes
     \<and> (\<exists>nodes. so_nodes src = Some nodes
          \<and> (\<forall>rule\<in>set (po_rules policy).
               within_module (dotted_name relative) (ib_source rule) \<longrightarrow> obeys relative nodes rule))"

definition clean :: "scan \<Rightarrow> bool" where
  "clean s \<longleftrightarrow> sc_complete s \<and> sc_findings s = []"

text \<open>A computation that returns with a clean scan started with one, and then the fact holds.\<close>

definition certifies :: "(scan, 'a) io \<Rightarrow> bool \<Rightarrow> bool" where
  "certifies m holds \<longleftrightarrow> (\<forall>s a t. m s = (Inr a, t) \<longrightarrow> clean t \<longrightarrow> clean s \<and> holds)"

named_theorems certifies_intros

lemma certifiesD: "certifies m holds \<Longrightarrow> m s = (Inr a, t) \<Longrightarrow> clean t \<Longrightarrow> clean s \<and> holds"
  by (simp add: certifies_def)

lemma certifies_weaken: "certifies m a \<Longrightarrow> (a \<Longrightarrow> b) \<Longrightarrow> certifies m b"
  by (auto simp: certifies_def)

lemma certifies_return [certifies_intros]: "certifies (io_return x) True"
  by (auto simp: certifies_def)

lemma certifies_raise [certifies_intros]: "certifies (io_raise e) False"
  by (auto simp: certifies_def)

lemma certifies_guard [certifies_intros]: "certifies (io_guard b e) b"
  by (auto simp: certifies_def)

lemma certifies_then [certifies_intros]:
  "certifies m a \<Longrightarrow> certifies n b \<Longrightarrow> certifies (io_then m n) (a \<and> b)"
  unfolding certifies_def io_then_Inr by blast

lemma certifies_each [certifies_intros]:
  "(\<And>x. x \<in> set xs \<Longrightarrow> certifies (f x) (holds x)) \<Longrightarrow> certifies (io_each f xs) (\<forall>x\<in>set xs. holds x)"
proof (induction xs)
  case (Cons x xs)
  have "certifies (io_then (f x) (io_each f xs)) (holds x \<and> (\<forall>x\<in>set xs. holds x))"
    by (intro certifies_then Cons.prems Cons.IH) auto
  then show ?case by simp
qed (simp add: certifies_return)

lemma certifies_modify [certifies_intros]:
  "certifies (io_modify (\<lambda>s. s\<lparr>sc_files := f s\<rparr>)) True"
  "certifies (io_modify (\<lambda>s. s\<lparr>sc_entries := f s\<rparr>)) True"
  "certifies (io_modify (\<lambda>s. s\<lparr>sc_bytes := f s\<rparr>)) True"
  "certifies (io_modify (\<lambda>s. s\<lparr>sc_matched := g s\<rparr>)) True"
  "certifies (io_modify (\<lambda>s. s\<lparr>sc_complete := False\<rparr>)) False"
  by (auto simp: certifies_def io_modify_def clean_def)

lemma certifies_issue [certifies_intros]: "certifies (issue code path message line rule dep rem) False"
  by (auto simp: certifies_def issue_def clean_def)

lemma certifies_budget [certifies_intros]: "certifies (budget h) True"
  by (auto simp: certifies_def budget_def clean_def Let_def split: if_splits)

lemma certifies_when [certifies_intros]: "certifies m a \<Longrightarrow> certifies (io_when b m) (b \<longrightarrow> a)"
  by (auto simp: io_when_def certifies_def)

lemma certifies_if [certifies_intros]:
  "certifies m a \<Longrightarrow> certifies n c \<Longrightarrow> certifies (if b then m else n) (if b then a else c)"
  by (auto simp: certifies_def)

lemma first_crossing_None:
  "first_crossing rule targets = None \<longleftrightarrow>
   (\<forall>t\<in>set targets. \<forall>f\<in>set (ib_forbidden rule). \<not> within_module t f)"
  by (auto simp: first_crossing_def find_None_iff)

lemma certifies_rule:
  "certifies (check_rule path node targets rule)
     (\<forall>t\<in>set targets. \<forall>f\<in>set (ib_forbidden rule). \<not> within_module t f)"
proof (cases "first_crossing rule targets")
  case None
  then show ?thesis
    using certifies_return by (simp add: check_rule_def first_crossing_None [symmetric])
next
  case (Some t)
  then show ?thesis
    unfolding check_rule_def by (simp add: certifies_weaken [OF certifies_issue])
qed

lemma certifies_node:
  "certifies (check_node h rules package nodes path node)
     (\<not> unresolvable package node \<and> \<not> imports_by_name nodes node
      \<and> (\<forall>rule\<in>set rules. \<forall>t\<in>set (import_targets package node). \<forall>f\<in>set (ib_forbidden rule). \<not> within_module t f))"
  unfolding check_node_def
  by (rule certifies_weaken, (rule certifies_intros certifies_rule)+) (auto split: if_splits)

lemma certifies_parse:
  "certifies (parse_source h policy tree path relative)
     (\<exists>nodes. tree = Some nodes
        \<and> (\<forall>rule\<in>set (po_rules policy).
             within_module (dotted_name relative) (ib_source rule) \<longrightarrow> obeys relative nodes rule))"
proof (cases tree)
  case None
  show ?thesis
    unfolding parse_source_def Let_def None option.case
    by (rule certifies_weaken, (rule certifies_intros)+) (auto simp: clean_def)
next
  case (Some nodes)
  have nodes: "certifies (io_each (check_node h rules (package_of relative) nodes path) nodes)
      (\<forall>node\<in>set nodes. \<not> unresolvable (package_of relative) node \<and> \<not> imports_by_name nodes node
        \<and> (\<forall>rule\<in>set rules. \<forall>t\<in>set (import_targets (package_of relative) node).
             \<forall>f\<in>set (ib_forbidden rule). \<not> within_module t f))" for rules
    by (intro certifies_each certifies_node)
  let ?rules = "governing_rules policy relative"
  let ?ok = "\<forall>node\<in>set nodes. \<not> unresolvable (package_of relative) node \<and> \<not> imports_by_name nodes node
        \<and> (\<forall>rule\<in>set ?rules. \<forall>t\<in>set (import_targets (package_of relative) node).
             \<forall>f\<in>set (ib_forbidden rule). \<not> within_module t f)"
  have "certifies (parse_source h policy tree path relative) (True \<and> (if ?rules = [] then True else ?ok))"
    unfolding parse_source_def Let_def Some option.case
    by (rule certifies_then, rule certifies_modify, rule certifies_if, rule certifies_return, rule nodes)
  then show ?thesis
  proof (rule certifies_weaken)
    assume h: "True \<and> (if ?rules = [] then True else ?ok)"
    have "obeys relative nodes rule"
      if "rule \<in> set (po_rules policy)" "within_module (dotted_name relative) (ib_source rule)" for rule
    proof -
      have r: "rule \<in> set ?rules" using that by (simp add: governing_rules_def)
      then have "?rules \<noteq> []" by auto
      then have "?ok" using h by simp
      then show ?thesis using r unfolding obeys_def by blast
    qed
    then show "\<exists>nodes. tree = Some nodes \<and> (\<forall>rule\<in>set (po_rules policy).
        within_module (dotted_name relative) (ib_source rule) \<longrightarrow> obeys relative nodes rule)"
      using Some by blast
  qed
qed

lemma certifies_source: "certifies (scan_source h policy src path relative) (certified policy relative src)"
  unfolding scan_source_def
  by (rule certifies_weaken, (rule certifies_intros certifies_parse)+)
     (auto simp: clean_def certified_def)

lemma certifies_count: "certifies (count_entry h) True"
  unfolding count_entry_def
  by (rule certifies_weaken, (rule certifies_intros)+) (auto simp: clean_def)

text \<open>A listing is read in sorted order, which does not change what is below it.\<close>

lemma source_below_mono:
  "source_below relative names p src \<Longrightarrow> set names \<subseteq> set names' \<Longrightarrow> source_below relative names' p src"
  by (erule source_below_cases) (blast intro: source_below.intros)+

definition item_below :: "string \<Rightarrow> string \<Rightarrow> fs_answer \<Rightarrow> string \<Rightarrow> source_answer \<Rightarrow> bool" where
  "item_below relative name answer p src \<longleftrightarrow>
     answer = Regular src \<and> ends_with name ''.py'' \<and> p = relative
     \<or> (\<exists>opens sub. answer = Directory opens (Some sub) \<and> name \<notin> set ignored_directories
          \<and> source_below relative sub p src)"

lemma source_below_Cons:
  "source_below relative ((name, answer) # names) p src \<longleftrightarrow>
     item_below (item_relative relative name) name answer p src \<or> source_below relative names p src"
proof
  assume "source_below relative ((name, answer) # names) p src"
  then consider
      (leaf) n where "(n, Regular src) \<in> set ((name, answer) # names)" "ends_with n ''.py''"
        "p = item_relative relative n"
    | (subtree) n opens sub where "(n, Directory opens (Some sub)) \<in> set ((name, answer) # names)"
        "n \<notin> set ignored_directories" "source_below (item_relative relative n) sub p src"
    by (rule source_below_cases)
  then show "item_below (item_relative relative name) name answer p src \<or> source_below relative names p src"
  proof cases
    case leaf
    then consider "n = name" "answer = Regular src" | "(n, Regular src) \<in> set names" by auto
    then show ?thesis
    proof cases
      case 1
      then show ?thesis using leaf by (simp add: item_below_def)
    next
      case 2
      show ?thesis unfolding leaf(3) by (rule disjI2) (rule source_below.here [OF 2 leaf(2)])
    qed
  next
    case subtree
    then consider "n = name" "answer = Directory opens (Some sub)" | "(n, Directory opens (Some sub)) \<in> set names"
      by auto
    then show ?thesis
    proof cases
      case 1
      then show ?thesis using subtree by (simp add: item_below_def)
    next
      case 2
      show ?thesis by (rule disjI2) (rule source_below.deeper [OF 2 subtree(2,3)])
    qed
  qed
next
  assume "item_below (item_relative relative name) name answer p src \<or> source_below relative names p src"
  then show "source_below relative ((name, answer) # names) p src"
  proof
    assume "item_below (item_relative relative name) name answer p src"
    then show ?thesis
      unfolding item_below_def by (meson list.set_intros(1) source_below.intros)
  next
    assume "source_below relative names p src"
    then show ?thesis by (rule source_below_mono) auto
  qed
qed

lemma source_below_Nil: "\<not> source_below relative [] p src"
  by (auto elim: source_below_cases)

lemma source_below_sort: "source_below relative (sort_key k names) p src \<longleftrightarrow> source_below relative names p src"
  by (auto intro: source_below_mono)

lemma certifies_walk:
  "certifies (walk_tree h policy path relative depth listing)
     (\<exists>names. listing = Some names \<and> (\<forall>p src. source_below relative names p src \<longrightarrow> certified policy p src))"
  "certifies (walk_names h policy path relative depth names)
     (\<forall>p src. source_below relative names p src \<longrightarrow> certified policy p src)"
  "certifies (walk_item h policy path relative depth name answer)
     (\<forall>p src. item_below relative name answer p src \<longrightarrow> certified policy p src)"
proof (induction h policy path relative depth listing and h policy path relative depth names
    and h policy path relative depth name answer rule: walk_tree_walk_names_walk_item.induct)
  case (1 h policy path relative depth listing)
  show ?case
  proof (cases listing)
    case None
    show ?thesis
      unfolding walk_tree.simps [of h policy path relative depth] None option.case
      by (rule certifies_weaken, (rule certifies_intros)+) simp
  next
    case (Some names)
    have "certifies (walk_tree h policy path relative depth listing)
        (True \<and> depth \<le> max_depth \<and> (\<forall>x\<in>set names. True)
         \<and> (\<forall>p src. source_below relative (sort_key fst names) p src \<longrightarrow> certified policy p src))"
      unfolding walk_tree.simps [of h policy path relative depth] Some option.case
      by (intro certifies_intros certifies_count 1 [OF Some])
    then show ?thesis
      by (rule certifies_weaken) (simp add: Some source_below_sort)
  qed
next
  case (2 h policy path relative depth)
  show ?case by (simp add: source_below_Nil certifies_return)
next
  case (3 h policy path relative depth name answer names)
  have "certifies (walk_names h policy path relative depth ((name, answer) # names))
      ((\<forall>p src. item_below (item_relative relative name) name answer p src \<longrightarrow> certified policy p src)
       \<and> (\<forall>p src. source_below relative names p src \<longrightarrow> certified policy p src))"
    unfolding walk_names.simps by (intro certifies_then 3)
  then show ?case by (rule certifies_weaken) (auto simp: source_below_Cons)
next
  case (4 h policy path relative depth name answer)
  show ?case
  proof (cases answer)
    case Unreadable
    show ?thesis
      unfolding walk_item.simps Unreadable fs_answer.case
      by (rule certifies_weaken, (rule certifies_intros)+) simp
  next
    case (Directory opens listing)
    show ?thesis
    proof (cases "name \<in> set ignored_directories")
      case True
      show ?thesis
        unfolding walk_item.simps Directory fs_answer.case if_P [OF True]
        by (rule certifies_weaken, (rule certifies_intros)+) (simp add: item_below_def True)
    next
      case False
      have "certifies (walk_item h policy path relative depth name answer)
          (length path \<le> 256 \<and> opens
           \<and> (\<exists>names. listing = Some names
                \<and> (\<forall>p src. source_below relative names p src \<longrightarrow> certified policy p src)))"
        unfolding walk_item.simps Directory fs_answer.case if_not_P [OF False]
        by (intro certifies_then certifies_guard 4 [OF Directory False])
      then show ?thesis by (rule certifies_weaken) (auto simp: item_below_def Directory)
    qed
  next
    case (Regular src)
    have "certifies (walk_item h policy path relative depth name answer)
        (length path \<le> 256 \<and> (if ends_with name ''.py'' then certified policy relative src else True))"
      unfolding walk_item.simps Regular fs_answer.case
      by (intro certifies_then certifies_guard certifies_if certifies_source certifies_return)
    then show ?thesis by (rule certifies_weaken) (auto simp: item_below_def Regular)
  next
    case Special
    show ?thesis
      unfolding walk_item.simps Special fs_answer.case
      by (rule certifies_weaken, (rule certifies_intros)+) simp
  qed
qed

section \<open>Which rules were exercised\<close>

definition matched_among :: "string set \<Rightarrow> scan \<Rightarrow> bool" where
  "matched_among M s \<longleftrightarrow> set (sc_matched s) \<subseteq> M"

lemma matched_issue [keeps_intros]: "io_keeps (matched_among M) (issue code path message line rule dep rem)"
  by (auto simp: io_keeps_def issue_def matched_among_def)

lemma matched_budget [keeps_intros]: "io_keeps (matched_among M) (budget h)"
  by (auto simp: io_keeps_def budget_def matched_among_def Let_def)

lemma matched_count [keeps_intros]: "io_keeps (matched_among M) (count_entry h)"
  unfolding count_entry_def by (intro keeps_intros) (auto simp: matched_among_def)

lemma matched_node: "io_keeps (matched_among M) (check_node h rules package nodes path node)"
  unfolding check_node_def check_rule_def by (intro keeps_intros)

lemma matched_source:
  "set (map ib_id (governing_rules policy relative)) \<subseteq> M \<Longrightarrow>
   io_keeps (matched_among M) (scan_source h policy src path relative)"
  unfolding scan_source_def parse_source_def Let_def
  by (intro keeps_intros matched_node) (auto simp: matched_among_def)

definition governed_ids :: "architecture_policy \<Rightarrow> string \<Rightarrow> string set" where
  "governed_ids policy p = set (map ib_id (governing_rules policy p))"

lemma matched_walk:
  "(\<And>names p src. listing = Some names \<Longrightarrow> source_below relative names p src \<Longrightarrow> governed_ids policy p \<subseteq> M) \<Longrightarrow>
   io_keeps (matched_among M) (walk_tree h policy path relative depth listing)"
  "(\<And>p src. source_below relative names p src \<Longrightarrow> governed_ids policy p \<subseteq> M) \<Longrightarrow>
   io_keeps (matched_among M) (walk_names h policy path relative depth names)"
  "(\<And>p src. item_below relative name answer p src \<Longrightarrow> governed_ids policy p \<subseteq> M) \<Longrightarrow>
   io_keeps (matched_among M) (walk_item h policy path relative depth name answer)"
proof (induction h policy path relative depth listing and h policy path relative depth names
    and h policy path relative depth name answer rule: walk_tree_walk_names_walk_item.induct)
  case (1 h policy path relative depth listing)
  show ?case
    unfolding walk_tree.simps [of h policy path relative depth listing]
    by (intro keeps_intros 1(1)) (use 1(2) source_below_sort in blast)+
next
  case (2 h policy path relative depth)
  show ?case by (simp add: keeps_return)
next
  case (3 h policy path relative depth name answer names)
  show ?case
    unfolding walk_names.simps
    by (intro keeps_then 3(1,2)) (use 3(3) source_below_Cons in blast)+
next
  case (4 h policy path relative depth name answer)
  show ?case
  proof (cases answer)
    case (Directory opens listing)
    show ?thesis
    proof (cases "name \<in> set ignored_directories")
      case False
      have "io_keeps (matched_among M) (walk_tree h policy path relative (depth + 1) listing)"
        by (rule 4(1) [OF Directory False]) (rule 4(2), auto simp: item_below_def Directory False)
      then show ?thesis unfolding walk_item.simps Directory fs_answer.case if_not_P [OF False]
        by (intro keeps_intros)
    qed (simp add: walk_item.simps Directory, intro keeps_intros)
  next
    case (Regular src)
    have "ends_with name ''.py'' \<Longrightarrow> set (map ib_id (governing_rules policy relative)) \<subseteq> M"
      using 4(2) [of relative src] by (simp add: item_below_def Regular governed_ids_def)
    then show ?thesis
      unfolding walk_item.simps Regular fs_answer.case by (intro keeps_intros matched_source)
  next
    case Unreadable
    then show ?thesis by (simp add: walk_item.simps, intro keeps_intros)
  next
    case Special
    show ?thesis unfolding walk_item.simps Special fs_answer.case
      by (intro keeps_intros) (simp add: matched_among_def)
  qed
qed

lemma certifies_check_matched: "certifies (check_matched rule) True"
  by (auto simp: certifies_def check_matched_def io_bind_Inr io_when_def issue_def clean_def split: if_splits)

lemma check_matched_clean:
  "io_each check_matched rules s = (Inr a, t) \<Longrightarrow> clean t \<Longrightarrow> set (map ib_id rules) \<subseteq> set (sc_matched s)"
proof (induction rules arbitrary: s)
  case (Cons rule rules)
  obtain b u where bu: "check_matched rule s = (Inr b, u)" "io_each check_matched rules u = (Inr a, t)"
    using Cons.prems(1) by (auto simp: io_then_Inr)
  have c: "certifies (io_each check_matched rules) (\<forall>x\<in>set rules. True)"
    by (intro certifies_each certifies_check_matched)
  then have "clean u" using certifiesD [OF c bu(2) Cons.prems(2)] by simp
  then have "ib_id rule \<in> set (sc_matched s)" "u = s"
    using bu(1) by (auto simp: check_matched_def io_bind_Inr io_when_def issue_def clean_def split: if_splits)
  then show ?case using Cons.IH [OF bu(2) Cons.prems(2)] by simp
qed simp

text \<open>Every source root could be read, and every Python file below it is certified.\<close>

definition tree_certified :: "scan_host \<Rightarrow> architecture_policy \<Rightarrow> bool" where
  "tree_certified h policy \<longleftrightarrow>
     (\<forall>root\<in>set (po_source_roots policy). \<exists>names. th_source_root h root = Some (Some names)
        \<and> (\<forall>p src. source_below [] names p src \<longrightarrow> certified policy p src))"

text \<open>Some Python file below a source root is governed by the rule.\<close>

definition rule_exercised :: "scan_host \<Rightarrow> architecture_policy \<Rightarrow> import_boundary \<Rightarrow> bool" where
  "rule_exercised h policy rule \<longleftrightarrow>
     (\<exists>root\<in>set (po_source_roots policy). \<exists>names p src. th_source_root h root = Some (Some names)
        \<and> source_below [] names p src \<and> within_module (dotted_name p) (ib_source rule))"

lemma io_wp_issue [simp]:
  "io_wp (issue code path message line rule dep rem) Q E s =
     (if length (sc_findings s) \<ge> 50 then E (incomplete ''diagnostic_limit'') s
      else Q () (s\<lparr>sc_findings := sc_findings s @
        [\<lparr>af_rule_id = rule, af_code = code, af_path = take 256 path, af_line = line,
          af_dependency = take 256 dep, af_message = message, af_remediation = rem\<rparr>]\<rparr>))"
  by (simp add: io_wp_def issue_def)

lemma check_architecture_passed:
  assumes "check_architecture dg posix h policy = Inr r" and "architecture_passed r"
  shows "\<exists>s. scan_body h policy (new_scan h) = (Inr (), s) \<and> clean s"
proof (cases "scan_body h policy (new_scan h)")
  case (Pair q s)
  show ?thesis
  proof (cases q)
    case (Inr a)
    then show ?thesis
      using assms Pair
      by (auto simp: check_architecture_def io_catch_def scan_report_def architecture_passed_def clean_def
          split: if_splits)
  next
    case (Inl e)
    have "io_wp (interrupted_scan e) (\<lambda>_ t. \<not> sc_complete t) (\<lambda>_ t. \<not> sc_complete t) s"
      by (simp add: interrupted_scan_def)
    then have "\<not> sc_complete (snd (interrupted_scan e s))"
      by (simp add: io_wp_def split: prod.splits sum.splits)
    then show ?thesis
      using assms Pair Inl
      by (auto simp: check_architecture_def io_catch_def scan_report_def architecture_passed_def
          split: if_splits sum.splits prod.splits)
  qed
qed

lemma rule_ids_distinct: "unique_rules dg policy = Inr policy \<Longrightarrow> distinct (map ib_id (po_rules policy))"
  by (auto simp: unique_rules_def card_distinct split: if_splits)

text \<open>C12. A passing architecture report certifies the whole tree: every source root could be read,
  every Python file below it is an unlinked regular file that parses, no module governed by a rule
  reaches across the rule's boundary by any import statement or by a call that imports by name, and
  every rule governs at least one file.\<close>

theorem passing_report_certifies_the_tree:
  assumes "check_architecture dg posix h policy = Inr r" and "architecture_passed r"
    and "unique_rules dg policy = Inr policy"
  shows "posix \<and> tree_certified h policy \<and> (\<forall>rule\<in>set (po_rules policy). rule_exercised h policy rule)"
proof -
  obtain s where s: "scan_body h policy (new_scan h) = (Inr (), s)" "clean s"
    using check_architecture_passed [OF assms(1,2)] by blast
  obtain u where u: "io_each (scan_root h policy) (po_source_roots policy) (new_scan h) = (Inr (), u)"
      "io_each check_matched (po_rules policy) u = (Inr (), s)"
    using s(1) by (auto simp: scan_body_def io_then_Inr)
  have root: "certifies (scan_root h policy r) (\<exists>names. th_source_root h r = Some (Some names)
      \<and> (\<forall>p src. source_below [] names p src \<longrightarrow> certified policy p src))" for r
  proof (cases "th_source_root h r")
    case None
    show ?thesis unfolding scan_root_def None option.case by (rule certifies_weaken [OF certifies_raise]) simp
  next
    case (Some listing)
    show ?thesis unfolding scan_root_def Some option.case
      by (rule certifies_weaken [OF certifies_walk(1)]) simp
  qed
  have "certifies (io_then (io_guard (th_root_opens h) os_error)
      (io_then (io_each (scan_root h policy) (po_source_roots policy)) (io_each check_matched (po_rules policy))))
      (th_root_opens h \<and> tree_certified h policy \<and> (\<forall>x\<in>set (po_rules policy). True))"
    unfolding tree_certified_def
    by (intro certifies_then certifies_guard certifies_each root certifies_check_matched)
  from certifiesD [OF this, folded scan_body_def, OF s] have tree: "tree_certified h policy" by simp
  let ?M = "{i. \<exists>rule\<in>set (po_rules policy). ib_id rule = i \<and> rule_exercised h policy rule}"
  have "io_keeps (matched_among ?M) (scan_root h policy r)" if "r \<in> set (po_source_roots policy)" for r
  proof (cases "th_source_root h r")
    case None
    show ?thesis unfolding scan_root_def None option.case by (rule keeps_raise)
  next
    case (Some listing)
    have "governed_ids policy p \<subseteq> ?M" if below: "listing = Some names" "source_below [] names p src" for names p src
    proof
      fix i assume "i \<in> governed_ids policy p"
      then obtain rule where rule: "rule \<in> set (po_rules policy)" "ib_id rule = i"
          "within_module (dotted_name p) (ib_source rule)"
        by (auto simp: governed_ids_def governing_rules_def)
      have "rule_exercised h policy rule"
        unfolding rule_exercised_def using below rule(3) Some \<open>r \<in> set (po_source_roots policy)\<close> by blast
      then show "i \<in> ?M" using rule by blast
    qed
    then show ?thesis unfolding scan_root_def Some option.case by (rule matched_walk(1))
  qed
  then have keeps: "io_keeps (matched_among ?M) (io_each (scan_root h policy) (po_source_roots policy))"
    by (rule keeps_each)
  have "matched_among ?M (new_scan h)" by (simp add: matched_among_def new_scan_def)
  from io_keepsD [OF keeps this] have "matched_among ?M u" by (simp only: u(1) snd_conv)
  moreover have "set (map ib_id (po_rules policy)) \<subseteq> set (sc_matched u)"
    by (rule check_matched_clean [OF u(2) s(2)])
  ultimately have ids: "set (map ib_id (po_rules policy)) \<subseteq> ?M" by (auto simp: matched_among_def)
  have "rule_exercised h policy rule" if "rule \<in> set (po_rules policy)" for rule
  proof -
    have "ib_id rule \<in> set (map ib_id (po_rules policy))" using that by simp
    then have "ib_id rule \<in> ?M" by (rule subsetD [OF ids])
    then obtain rule' where "rule' \<in> set (po_rules policy)" "ib_id rule' = ib_id rule" "rule_exercised h policy rule'"
      by blast
    then show ?thesis using rule_ids_distinct [OF assms(3)] that by (auto simp: distinct_map dest: inj_onD)
  qed
  moreover have posix using assms(1) by (auto simp: check_architecture_def split: if_splits)
  ultimately show ?thesis using tree by blast
qed

section \<open>Bounds\<close>

definition within_limits :: "scan \<Rightarrow> bool" where
  "within_limits s \<longleftrightarrow> sc_files s \<le> max_files \<and> sc_entries s \<le> max_entries \<and> sc_bytes s \<le> max_bytes
     \<and> length (sc_findings s) \<le> 50"

text \<open>One step past a limit is where the scan stops.\<close>

definition near_limits :: "scan \<Rightarrow> bool" where
  "near_limits s \<longleftrightarrow> sc_files s \<le> max_files + 1 \<and> sc_entries s \<le> max_entries + 1
     \<and> sc_bytes s \<le> max_bytes + max_file_bytes \<and> length (sc_findings s) \<le> 50"

definition limited :: "(scan, 'a) io \<Rightarrow> bool" where
  "limited m \<longleftrightarrow> (\<forall>s. within_limits s \<longrightarrow> io_wp m (\<lambda>_. within_limits) (\<lambda>_. near_limits) s)"

named_theorems limited_intros

lemma limits_near: "within_limits s \<Longrightarrow> near_limits s"
  by (simp add: within_limits_def near_limits_def)

lemma limited_wp: "(\<And>s. within_limits s \<Longrightarrow> io_wp m (\<lambda>_. within_limits) (\<lambda>_. near_limits) s) \<Longrightarrow> limited m"
  by (simp add: limited_def)

lemma limitedD: "limited m \<Longrightarrow> within_limits s \<Longrightarrow> io_wp m (\<lambda>_. within_limits) (\<lambda>_. near_limits) s"
  by (simp add: limited_def)

lemma limited_return [limited_intros]: "limited (io_return x)"
  by (simp add: limited_def)

lemma limited_raise [limited_intros]: "limited (io_raise e)"
  by (simp add: limited_def limits_near)

lemma limited_guard [limited_intros]: "limited (io_guard b e)"
  by (simp add: limited_def limits_near)

lemma limited_then [limited_intros]: "limited m \<Longrightarrow> limited n \<Longrightarrow> limited (io_then m n)"
  by (rule limited_wp) (auto dest: limitedD intro: io_wp_mono)

lemma limited_bind_gets [limited_intros]: "(\<And>a. limited (f a)) \<Longrightarrow> limited (io_bind (io_gets g) f)"
  by (simp add: limited_def)

lemma limited_when [limited_intros]: "limited m \<Longrightarrow> limited (io_when b m)"
  by (simp add: io_when_def limited_return)

lemma limited_if [limited_intros]: "limited m \<Longrightarrow> limited n \<Longrightarrow> limited (if b then m else n)"
  by simp

lemma limited_each [limited_intros]: "(\<And>x. x \<in> set xs \<Longrightarrow> limited (f x)) \<Longrightarrow> limited (io_each f xs)"
  by (induction xs) (auto intro: limited_intros)

lemma limited_modify [limited_intros]:
  "limited (io_modify (\<lambda>s. s\<lparr>sc_complete := c\<rparr>))"
  "limited (io_modify (\<lambda>s. s\<lparr>sc_matched := g s\<rparr>))"
  by (simp_all add: limited_def within_limits_def)

lemma limited_issue [limited_intros]: "limited (issue code path message line rule dep rem)"
  by (rule limited_wp) (simp add: within_limits_def near_limits_def)

lemma io_wp_budget [simp]:
  "io_wp (budget h) Q E s =
     (let t = s\<lparr>sc_ticks := Suc (sc_ticks s)\<rparr> in
      if th_monotonic h (sc_ticks s) \<ge> sc_deadline s then E (incomplete ''scan_timeout'') t
      else if sc_entries s > max_entries \<or> sc_files s > max_files \<or> sc_bytes s > max_bytes
      then E (incomplete ''scan_limit'') t else Q () t)"
  by (simp add: io_wp_def budget_def Let_def)

lemma limited_budget [limited_intros]: "limited (budget h)"
  by (rule limited_wp) (simp add: within_limits_def near_limits_def Let_def)

lemma limited_count [limited_intros]: "limited (count_entry h)"
  by (rule limited_wp) (simp add: count_entry_def within_limits_def near_limits_def Let_def)

lemma limited_node: "limited (check_node h rules package nodes path node)"
  unfolding check_node_def check_rule_def
  by (intro limited_intros) (auto split: option.split intro: limited_intros)

lemma limited_parse [limited_intros]: "limited (parse_source h policy tree path relative)"
  unfolding parse_source_def Let_def
  by (cases tree) (simp_all only: option.case, (intro limited_intros limited_node)+)

text \<open>Reading one file goes past a limit by at most one file and its bytes.\<close>

lemma limited_source [limited_intros]: "limited (scan_source h policy src path relative)"
proof (rule limited_wp)
  fix s assume "within_limits s"
  then show "io_wp (scan_source h policy src path relative) (\<lambda>_. within_limits) (\<lambda>_. near_limits) s"
    unfolding scan_source_def
    by (auto simp: Let_def within_limits_def near_limits_def intro!: limitedD [OF limited_parse])
qed

lemma limited_walk:
  "limited (walk_tree h policy path relative depth listing)"
  "limited (walk_names h policy path relative depth names)"
  "limited (walk_item h policy path relative depth name answer)"
proof (induction h policy path relative depth listing and h policy path relative depth names
    and h policy path relative depth name answer rule: walk_tree_walk_names_walk_item.induct)
  case (1 h policy path relative depth listing)
  show ?case
  proof (cases listing)
    case None
    show ?thesis unfolding walk_tree.simps [of h policy path relative depth] None option.case
      by (intro limited_intros)
  next
    case (Some names)
    show ?thesis unfolding walk_tree.simps [of h policy path relative depth] Some option.case
      by (intro limited_intros 1 [OF Some])
  qed
next
  case (2 h policy path relative depth)
  show ?case by (simp add: limited_return)
next
  case (3 h policy path relative depth name answer names)
  show ?case unfolding walk_names.simps by (intro limited_then 3)
next
  case (4 h policy path relative depth name answer)
  show ?case
  proof (cases answer)
    case (Directory opens listing)
    show ?thesis
    proof (cases "name \<in> set ignored_directories")
      case False
      show ?thesis unfolding walk_item.simps Directory fs_answer.case if_not_P [OF False]
        by (intro limited_intros 4 [OF Directory False])
    qed (simp add: walk_item.simps Directory, intro limited_intros)
  next
    case (Regular src)
    show ?thesis unfolding walk_item.simps Regular fs_answer.case by (intro limited_intros)
  next
    case Unreadable
    show ?thesis unfolding walk_item.simps Unreadable fs_answer.case by (intro limited_intros)
  next
    case Special
    show ?thesis unfolding walk_item.simps Special fs_answer.case by (intro limited_intros)
  qed
qed

lemma limited_body: "limited (scan_body h policy)"
proof -
  have "limited (scan_root h policy r)" for r
    by (cases "th_source_root h r") (simp_all add: scan_root_def limited_raise limited_walk)
  then show ?thesis unfolding scan_body_def check_matched_def by (intro limited_intros)
qed

text \<open>Whatever tree it is shown, on a POSIX host the scan ends with a report: at most fifty
  findings, at most one file past the limit, and a scan that was cut short is never complete.\<close>

lemma scan_always_reports_within_bounds:
  "\<exists>r. check_architecture dg True h policy = Inr r \<and> length (ar_findings r) \<le> 50
     \<and> ar_files_checked r \<le> int max_files + 1
     \<and> (fst (scan_body h policy (new_scan h)) \<noteq> Inr () \<longrightarrow> \<not> ar_complete r)"
proof (cases "scan_body h policy (new_scan h)")
  case (Pair q s)
  have start: "within_limits (new_scan h)" by (simp add: within_limits_def new_scan_def)
  have wp: "io_wp (scan_body h policy) (\<lambda>_. within_limits) (\<lambda>_. near_limits) (new_scan h)"
    by (rule limitedD [OF limited_body start])
  show ?thesis
  proof (cases q)
    case (Inr a)
    then have "within_limits s" using io_wp_Inr [OF wp] Pair by simp
    then show ?thesis
      using Pair Inr by (simp add: check_architecture_def io_catch_def scan_report_def within_limits_def)
  next
    case (Inl e)
    then have near: "near_limits s" using io_wp_Inl [OF wp] Pair by simp
    have "io_wp (interrupted_scan e) (\<lambda>_ t. near_limits t \<and> \<not> sc_complete t) (\<lambda>_ t. False) s"
      using near by (simp add: interrupted_scan_def near_limits_def)
    then obtain t where "interrupted_scan e s = (Inr (), t)" "near_limits t" "\<not> sc_complete t"
      by (cases "interrupted_scan e s") (auto simp: io_wp_def split: sum.splits)
    then show ?thesis
      using Pair Inl by (simp add: check_architecture_def io_catch_def scan_report_def near_limits_def)
  qed
qed

section \<open>Witness\<close>

definition scan_policy_sample :: architecture_policy where
  "scan_policy_sample =
     \<lparr>po_source_roots = [''src''],
      po_rules = [\<lparr>ib_id = ''core'', ib_source = ''core'', ib_forbidden = [''web''], ib_remediation = ''invert it''\<rparr>]\<rparr>"

definition scan_source_sample :: source_answer where
  "scan_source_sample =
     \<lparr>so_opens = True, so_regular = True, so_nlink = 1, so_size = 20, so_length = 20,
      so_nodes = Some [Import_node [(''json'', None)] 1]\<rparr>"

definition scan_host_sample :: scan_host where
  "scan_host_sample =
     \<lparr>th_root_opens = True,
      th_source_root = (\<lambda>_. Some (Some [(''core.py'', Regular scan_source_sample)])),
      th_monotonic = (\<lambda>_. 0)\<rparr>"

definition scan_digests_sample :: digests where
  "scan_digests_sample =
     \<lparr>dg_case = (\<lambda>_. []), dg_suite = (\<lambda>_. []), dg_policy = (\<lambda>_. ''d''), dg_profile = (\<lambda>_. []),
      dg_suite_json_bytes = (\<lambda>_. 1), dg_policy_json_bytes = (\<lambda>_. 1)\<rparr>"

lemma scan_sample:
  "check_architecture scan_digests_sample True scan_host_sample scan_policy_sample =
     Inr \<lparr>ar_policy_digest = ''d'', ar_complete = True, ar_files_checked = 1, ar_findings = []\<rparr>"
proof -
  have eta: "io_wp (io_return ()) Q E = Q ()" for Q :: "unit \<Rightarrow> scan \<Rightarrow> bool" and E
    by (rule ext) simp
  let ?rule = "\<lparr>ib_id = ''core'', ib_source = ''core'', ib_forbidden = [''web''], ib_remediation = ''invert it''\<rparr>"
  have policy: "po_source_roots scan_policy_sample = [''src'']" "po_rules scan_policy_sample = [?rule]"
    by (simp_all add: scan_policy_sample_def)
  have host: "th_root_opens scan_host_sample" "th_monotonic scan_host_sample n = 0"
      "th_source_root scan_host_sample r = Some (Some [(''core.py'', Regular scan_source_sample)])" for n r
    by (simp_all add: scan_host_sample_def)
  have item: "item_path ''src'' ''core.py'' = ''src/core.py''" "item_relative [] ''core.py'' = ''core.py''"
      "ends_with ''core.py'' ''.py''"
    by (simp_all add: item_path_def item_relative_def ends_with_def starts_with_def)
  have name: "dotted_name ''core.py'' = ''core''" "package_of ''core.py'' = []" by code_simp+
  have governed: "governing_rules scan_policy_sample ''core.py'' = [?rule]"
    by (simp add: governing_rules_def name within_module_def policy)
  have crossing: "first_crossing ?rule [''json''] = None"
    by (simp add: first_crossing_def within_module_def starts_with_def)
  have "io_wp (scan_source scan_host_sample scan_policy_sample scan_source_sample ''src/core.py'' ''core.py'')
      (\<lambda>_ t. sc_complete t \<and> sc_files t = 1 \<and> sc_findings t = [] \<and> sc_matched t = [''core'']) (\<lambda>_ _. False) s"
    if "sc_complete s" "sc_files s = 0" "sc_findings s = []" "sc_entries s = 1" "sc_bytes s = 0"
      "sc_matched s = []" "sc_deadline s = 5" for s
    using that
    by (simp add: scan_source_def parse_source_def governed name scan_source_sample_def check_node_def
        unresolvable_def imports_by_name_def import_targets_def check_rule_def crossing host Let_def
        max_entries_def max_files_def max_bytes_def max_file_bytes_def)
  then have "io_wp (walk_tree scan_host_sample scan_policy_sample ''src'' [] 0
        (Some [(''core.py'', Regular scan_source_sample)]))
      (\<lambda>_ t. sc_complete t \<and> sc_files t = 1 \<and> sc_findings t = [] \<and> sc_matched t = [''core'']) (\<lambda>_ _. False)
      (new_scan scan_host_sample)"
    by (simp add: walk_tree.simps walk_item.simps item count_entry_def host new_scan_def max_seconds_def eta
        max_entries_def Let_def)
  then have "io_wp (scan_body scan_host_sample scan_policy_sample)
      (\<lambda>_ t. sc_complete t \<and> sc_files t = 1 \<and> sc_findings t = []) (\<lambda>_ _. False) (new_scan scan_host_sample)"
    by (simp add: scan_body_def scan_root_def host policy eta)
       (erule io_wp_mono, simp_all add: check_matched_def)
  then show ?thesis
    by (auto simp: check_architecture_def io_catch_def io_wp_def scan_report_def scan_digests_sample_def
        split: prod.splits sum.splits)
qed

theorem passing_report_certifies_the_tree_witness:
  "tree_certified scan_host_sample scan_policy_sample
   \<and> rule_exercised scan_host_sample scan_policy_sample (hd (po_rules scan_policy_sample))"
  using passing_report_certifies_the_tree [OF scan_sample]
  by (simp add: architecture_passed_def scan_policy_sample_def unique_rules_def scan_digests_sample_def)

lemma scan_always_reports_within_bounds_witness:
  "\<exists>r. check_architecture scan_digests_sample True (scan_host_sample\<lparr>th_root_opens := False\<rparr>) scan_policy_sample = Inr r
     \<and> length (ar_findings r) \<le> 50 \<and> \<not> ar_complete r"
proof -
  let ?h = "scan_host_sample\<lparr>th_root_opens := False\<rparr>"
  have "fst (scan_body ?h scan_policy_sample (new_scan ?h)) \<noteq> Inr ()"
    by (simp add: scan_body_def io_then_def io_bind_def io_guard_def io_raise_def)
  then show ?thesis
    using scan_always_reports_within_bounds [of scan_digests_sample ?h scan_policy_sample] by blast
qed

end
