(* ===== verification/Command_Policy.thy ===== *)
theory Command_Policy
  imports Build_Strategy Workspace_Manager "HOL-Library.List_Lexorder" "HOL-Library.Char_ord"
begin

text \<open>
  Which commands may run (\<open>app/infrastructure/command_policy.py\<close>) and the model's free commands
  (\<open>app/agents/command_tool.py\<close>): the splitting of a command line, the allowlist, the denied
  subcommands, and the authorization of a build phase against the operator's profile and the file
  system of the checkout.
\<close>

section \<open>Splitting a command line\<close>

text \<open>\<open>shlex.split\<close> in POSIX mode without comments, as the automaton of the library: between words,
  in a word, in quotes, after a backslash (with the state to return to).\<close>

datatype shell_state = Between | In_word | In_quotes char | Escaped shell_state

definition shell_space :: "char \<Rightarrow> bool" where
  "shell_space c \<longleftrightarrow> c \<in> {CHR '' '', CHR 0x09, CHR 0x0D, CHR 0x0A}"

definition backslash :: char where "backslash = CHR 0x5C"
definition single_quote :: char where "single_quote = CHR 0x27"
definition double_quote :: char where "double_quote = CHR 0x22"

definition is_quote :: "char \<Rightarrow> bool" where
  "is_quote c \<longleftrightarrow> c = single_quote \<or> c = double_quote"

text \<open>One character: the next state, the word so far (reversed), whether it was quoted, and whether
  the word ends here.\<close>

definition shell_step ::
  "shell_state \<Rightarrow> string \<Rightarrow> bool \<Rightarrow> char \<Rightarrow> shell_state \<times> string \<times> bool \<times> bool" where
  "shell_step st word quoted c =
     (case st of
        Between \<Rightarrow>
          if shell_space c then (Between, word, quoted, word \<noteq> [] \<or> quoted)
          else if c = backslash then (Escaped In_word, word, quoted, False)
          else if is_quote c then (In_quotes c, word, quoted, False)
          else (In_word, c # word, quoted, False)
      | In_word \<Rightarrow>
          if shell_space c then (Between, word, quoted, word \<noteq> [] \<or> quoted)
          else if is_quote c then (In_quotes c, word, quoted, False)
          else if c = backslash then (Escaped In_word, word, quoted, False)
          else (In_word, c # word, quoted, False)
      | In_quotes q \<Rightarrow>
          if c = q then (In_word, word, True, False)
          else if c = backslash \<and> q = double_quote then (Escaped (In_quotes q), word, True, False)
          else (In_quotes q, c # word, True, False)
      | Escaped back \<Rightarrow>
          (case back of
             In_quotes q \<Rightarrow>
               if c \<noteq> backslash \<and> c \<noteq> q then (back, c # backslash # word, quoted, False)
               else (back, c # word, quoted, False)
           | _ \<Rightarrow> (back, c # word, quoted, False)))"

fun shell_words :: "shell_state \<Rightarrow> string \<Rightarrow> bool \<Rightarrow> string \<Rightarrow> string list result" where
  "shell_words st word quoted [] =
     (case st of
        In_quotes q \<Rightarrow> Inl (Exc ValueError ''No closing quotation'')
      | Escaped back \<Rightarrow> Inl (Exc ValueError ''No escaped character'')
      | _ \<Rightarrow> Inr (if word \<noteq> [] \<or> quoted then [rev word] else []))"
| "shell_words st word quoted (c # s) =
     (case shell_step st word quoted c of
        (st1, word1, quoted1, ends) \<Rightarrow>
          if ends then map_sum id ((#) (rev word1)) (shell_words Between [] False s)
          else shell_words st1 word1 quoted1 s)"

definition shlex_split :: "string \<Rightarrow> string list result" where
  "shlex_split s = shell_words Between [] False s"

section \<open>The allowlist\<close>

definition path_name :: "string \<Rightarrow> string" where
  "path_name s = pp_name (posix_path_of s)"

definition default_executables :: "string list" where
  "default_executables = [''git'', ''mypy'', ''pytest'', ''python'', ''python3'', ''ruff'', ''uv'']"

record command_policy =
  cp_allowed :: "string list"
  cp_profile :: "build_profile option"

definition new_command_policy ::
  "digests \<Rightarrow> string list \<Rightarrow> build_profile option \<Rightarrow> command_policy result" where
  "new_command_policy dg allowed profile =
     (case profile of
        Some p \<Rightarrow>
          if profile_valid dg p
          then Inr \<lparr>cp_allowed = (if allowed = [] then default_executables else allowed), cp_profile = Some p\<rparr>
          else Inl (Exc ValueError ''profile'')
      | None \<Rightarrow> Inr \<lparr>cp_allowed = (if allowed = [] then default_executables else allowed), cp_profile = None\<rparr>)"

definition without_exe :: "string \<Rightarrow> string" where
  "without_exe name = (if ends_with name ''.exe'' then take (length name - 4) name else name)"

definition normalize_executable :: "bool \<Rightarrow> string \<Rightarrow> string" where
  "normalize_executable nt executable = (if nt then without_exe (str_lower executable) else executable)"

definition parse_command :: "bool \<Rightarrow> command_policy \<Rightarrow> string \<Rightarrow> string list result" where
  "parse_command nt policy command =
     (if cp_profile policy \<noteq> None
      then Inl (Exc ValueError ''Perfil de fabrica exige autorizacao de fase completa.'')
      else case shlex_split command of
             Inl e \<Rightarrow> Inl e
           | Inr argv \<Rightarrow>
               if argv = [] then Inl (Exc ValueError ''Comando vazio.'')
               else if normalize_executable nt (path_name (hd argv)) \<notin> set (cp_allowed policy)
               then Inl (Exc ValueError (''Executavel nao permitido: '' @ path_name (hd argv)))
               else Inr argv)"

section \<open>Free commands of the model\<close>

definition tool_error :: "string \<Rightarrow> exc" where
  "tool_error m = Exc (OtherError ''ToolError'') m"

definition denied_subcommands :: "string \<Rightarrow> string list" where
  "denied_subcommands executable =
     (if executable = ''git''
      then [''push'', ''pull'', ''fetch'', ''clone'', ''remote'', ''submodule'', ''ls-remote'', ''lfs'']
      else if executable = ''uv''
      then [''add'', ''remove'', ''sync'', ''lock'', ''pip'', ''publish'', ''tool'', ''python'', ''self'', ''cache'']
      else [])"

definition denied_python_modules :: "string list" where
  "denied_python_modules = [''pip'', ''ensurepip'', ''venv'', ''http.server'']"

definition command_basename :: "string \<Rightarrow> string" where
  "command_basename executable = without_exe (str_lower (path_name executable))"

text \<open>What follows the first \<open>-m\<close>.\<close>

definition module_argument :: "string list \<Rightarrow> string" where
  "module_argument argv =
     (case drop 1 (dropWhile (\<lambda>a. a \<noteq> ''-m'') argv) of [] \<Rightarrow> [] | m # _ \<Rightarrow> m)"

definition is_python :: "string \<Rightarrow> bool" where
  "is_python executable \<longleftrightarrow> executable = ''python'' \<or> executable = ''python3''"

definition check_command_policy :: "string list \<Rightarrow> unit result" where
  "check_command_policy argv =
     (if argv = [] then Inl (tool_error ''comando vazio.'')
      else let executable = command_basename (hd argv) in
        case find (\<lambda>a. a \<in> set (denied_subcommands executable)) (tl argv) of
          Some hit \<Rightarrow> Inl (tool_error (CHR 0x60 # executable @ '' '' @ hit @ CHR 0x60 #
            '' nao e permitido: acesso a rede ou instalacao de dependencias ficam com o operador.''))
        | None \<Rightarrow>
            if is_python executable \<and> ''-m'' \<in> set argv \<and> module_argument argv \<in> set denied_python_modules
            then Inl (tool_error (CHR 0x60 # ''python -m '' @ module_argument argv @ CHR 0x60 # '' nao e permitido.''))
            else if is_python executable \<and> ''-c'' \<in> set argv
            then Inl (tool_error (CHR 0x60 # ''python -c'' @ CHR 0x60 #
              '' nao e permitido: grave um arquivo no workspace e execute-o.''))
            else Inr ())"

record command_execution =
  ce_exit_code :: "int option"
  ce_timed_out :: bool
  ce_stdout :: string
  ce_stderr :: string

definition rstrip :: "string \<Rightarrow> string" where
  "rstrip s = rev (dropWhile is_space (rev s))"

definition show_opt_int :: "int option \<Rightarrow> string" where
  "show_opt_int i = (case i of None \<Rightarrow> ''None'' | Some n \<Rightarrow> show_int n)"

definition newline :: string where "newline = [CHR 0x0A]"

definition command_answer :: "nat \<Rightarrow> string \<Rightarrow> command_execution \<Rightarrow> string" where
  "command_answer max_chars command e =
     (let status = (if ce_timed_out e then ''timeout'' else if ce_exit_code e = Some 0 then ''passed'' else ''failed'');
          text = join newline
            ([command @ '': '' @ status @ '' (exit_code='' @ show_opt_int (ce_exit_code e) @ '')'']
             @ (if strip (ce_stdout e) \<noteq> [] then [''stdout:'' @ newline @ rstrip (ce_stdout e)] else [])
             @ (if strip (ce_stderr e) \<noteq> [] then [''stderr:'' @ newline @ rstrip (ce_stderr e)] else []))
      in if length text \<le> max_chars then text
         else take max_chars text @ newline @ ''... [truncado: '' @ show_nat (length text - max_chars)
              @ '' caracteres omitidos]'')"

text \<open>\<open>RunCommandTool.run\<close>: the runner is a computation on the host.\<close>

definition run_command_tool ::
  "bool \<Rightarrow> command_policy \<Rightarrow> nat \<Rightarrow> (string \<Rightarrow> ('s, command_execution) io) \<Rightarrow> (string \<times> pyval) list
   \<Rightarrow> ('s, string) io" where
  "run_command_tool nt policy max_chars runner arguments =
     (case as_str (pget arguments ''command'') of
        None \<Rightarrow> io_raise (tool_error ''`command` e obrigatorio.'')
      | Some c \<Rightarrow>
          if strip c = [] then io_raise (tool_error ''`command` e obrigatorio.'')
          else (case parse_command nt policy (strip c) of
                  Inl e \<Rightarrow> io_raise (tool_error (exc_text e))
                | Inr argv \<Rightarrow>
                    io_then (io_lift (check_command_policy argv))
                      (io_bind (runner (strip c)) (\<lambda>e. io_return (command_answer max_chars (strip c) e)))))"

section \<open>Authorization of a phase\<close>

record authorized_command =
  ab_profile_name :: string
  ab_profile_digest :: string
  ab_phase :: build_phase_name
  ab_image :: string
  ab_argv :: "string list"
  ab_cwd :: path
  ab_environment :: "(string \<times> string) list"
  ab_timeout_seconds :: int
  ab_output_limit :: int
  ab_network_enabled :: bool

definition inside :: "path \<Rightarrow> path \<Rightarrow> bool" where
  "inside base p \<longleftrightarrow> p = base \<or> path_within base p"

text \<open>The loop over the arguments: the first that is refused, or that resolves outside.\<close>

fun arguments_resolve :: "(string \<Rightarrow> path) \<Rightarrow> path \<Rightarrow> string list \<Rightarrow> unit result" where
  "arguments_resolve resolve base [] = Inr ()"
| "arguments_resolve resolve base (token # tokens) =
     (case argument_path token of
        Inl e \<Rightarrow> Inl e
      | Inr None \<Rightarrow> arguments_resolve resolve base tokens
      | Inr (Some v) \<Rightarrow>
          if \<not> inside base (resolve v) then Inl (Exc ValueError ''Argumento resolve para fora da lease.'')
          else arguments_resolve resolve base tokens)"

definition validate_phase ::
  "'f workspace_host \<Rightarrow> 'f \<Rightarrow> digests \<Rightarrow> command_policy \<Rightarrow> build_phase_name \<Rightarrow> string
   \<Rightarrow> string list option \<Rightarrow> (string, string) pydict option \<Rightarrow> string option \<Rightarrow> bool
   \<Rightarrow> authorized_command result" where
  "validate_phase h fs dg policy phase_name lease_dir argv environment cwd allow_dependency_network =
     (case cp_profile policy of
        None \<Rightarrow> Inl (Exc ValueError ''Nenhum perfil administrado foi selecionado.'')
      | Some profile \<Rightarrow>
        (case find (\<lambda>p. bp_name p = phase_name) (pf_phases profile) of
           None \<Rightarrow> Inl (Exc ValueError ''Fase nao existe no perfil selecionado.'')
         | Some phase \<Rightarrow>
             let actual_argv = (case argv of None \<Rightarrow> bp_argv phase | Some a \<Rightarrow> a);
                 actual_environment = (case environment of None \<Rightarrow> bp_environment phase | Some e \<Rightarrow> e);
                 actual_cwd = (case cwd of None \<Rightarrow> bp_cwd phase | Some c \<Rightarrow> c)
             in if actual_argv \<noteq> bp_argv phase
                then Inl (Exc ValueError ''Executavel ou argumentos divergem do perfil aprovado.'')
                else if \<not> same_dict actual_environment (bp_environment phase)
                then Inl (Exc ValueError ''Ambiente diverge do perfil aprovado.'')
                else if actual_cwd \<noteq> bp_cwd phase
                then Inl (Exc ValueError ''cwd diverge do perfil aprovado.'')
                else case validate_relative_directory actual_cwd of
                  Inl e \<Rightarrow> Inl e
                | Inr _ \<Rightarrow>
                  let given = wh_expanduser h lease_dir in
                  if path_root given = 0 \<or> wh_is_symlink h given fs \<or> \<not> wh_is_dir h given fs
                  then Inl (Exc ValueError ''Raiz da lease deve ser diretorio absoluto, nao symlink.'')
                  else let base = wh_resolve h given fs in
                    if path_parts base = []
                    then Inl (Exc ValueError ''Raiz global nao pode ser usada como lease.'')
                    else let directory = wh_resolve h (path_join base actual_cwd) fs in
                      if \<not> inside base directory \<or> \<not> wh_is_dir h directory fs
                      then Inl (Exc ValueError ''cwd nao existe ou escapa da lease.'')
                      else case arguments_resolve (\<lambda>v. wh_resolve h (path_join directory v) fs) base (tl actual_argv) of
                        Inl e \<Rightarrow> Inl e
                      | Inr _ \<Rightarrow>
                          let network_enabled = (bp_network phase = Net_dependencies) in
                          if network_enabled \<and> \<not> allow_dependency_network
                          then Inl (Exc ValueError ''dependency_preparation_not_authorized: rede nao autorizada.'')
                          else Inr \<lparr>ab_profile_name = pf_name profile, ab_profile_digest = dg_profile dg profile,
                            ab_phase = bp_name phase, ab_image = pf_image profile, ab_argv = bp_argv phase,
                            ab_cwd = directory, ab_environment = sort_key fst (bp_environment phase),
                            ab_timeout_seconds = bp_timeout_seconds phase,
                            ab_output_limit = bp_output_limit phase, ab_network_enabled = network_enabled\<rparr>))"

section \<open>What is authorized\<close>

lemma arguments_resolve_inside:
  "arguments_resolve resolve base tokens = Inr () \<Longrightarrow> token \<in> set tokens \<Longrightarrow> argument_path token = Inr (Some v)
   \<Longrightarrow> inside base (resolve v)"
  by (induction tokens) (auto split: sum.splits option.splits if_splits)

lemma policy_profile_valid:
  "new_command_policy dg allowed (Some profile) = Inr policy \<Longrightarrow>
   cp_profile policy = Some profile \<and> profile_valid dg profile"
  by (auto simp: new_command_policy_def split: if_splits)

lemma profile_phases_valid: "profile_valid dg p \<Longrightarrow> ph \<in> set (pf_phases p) \<Longrightarrow> phase_valid ph"
  by (simp add: profile_valid_def)

text \<open>The executable a phase starts is an absolute path in the image to an approved program.\<close>

definition approved_executable :: "string \<Rightarrow> bool" where
  "approved_executable v \<longleftrightarrow> pp_is_absolute (posix_path_of v) \<and> path_name v \<in> set build_executables
     \<and> \<not> starts_with v ''/workspace/''"

lemma valid_phase_facts:
  assumes "phase_valid ph"
  shows "bp_argv ph \<noteq> []" and "approved_executable (hd (bp_argv ph))"
    and "fst ` set (bp_environment ph) \<subseteq> set build_environment_keys"
    and "bp_network ph = Net_dependencies \<Longrightarrow> bp_name ph = PREPARE"
  using assms
  by (auto simp: phase_valid_def argv_is_explicit_def executable_refused_def Let_def approved_executable_def
      path_name_def environment_has_no_secrets_def network_only_for_preparation_def
      split: if_splits option.splits)

text \<open>C11. What \<open>validate_phase\<close> authorizes is a phase of the operator's profile and nothing else,
  whatever overrides a tool proposes: its image, its arguments starting with an approved executable
  of the image, an environment of approved keys; its directory and every path among its arguments
  resolve inside the checkout, through symbolic links too, the checkout is not the file system's
  root, and the network is on only for a preparation the operator allowed.\<close>

theorem authorized_command_is_confined:
  assumes "new_command_policy dg allowed (Some profile) = Inr policy"
    and "validate_phase h fs dg policy phase_name lease_dir argv environment cwd allow = Inr ab"
  shows "\<exists>phase\<in>set (pf_phases profile).
       bp_name phase = phase_name \<and> ab_argv ab = bp_argv phase \<and> ab_image ab = pf_image profile
     \<and> approved_executable (hd (ab_argv ab)) \<and> fst ` set (ab_environment ab) \<subseteq> set build_environment_keys
     \<and> (let base = wh_resolve h (wh_expanduser h lease_dir) fs in
          path_parts base \<noteq> [] \<and> inside base (ab_cwd ab)
          \<and> (\<forall>token\<in>set (tl (ab_argv ab)). \<forall>v. argument_path token = Inr (Some v) \<longrightarrow>
               inside base (wh_resolve h (path_join (ab_cwd ab) v) fs)))
     \<and> (ab_network_enabled ab \<longrightarrow> allow \<and> phase_name = PREPARE)"
proof -
  have policy: "cp_profile policy = Some profile" "profile_valid dg profile"
    using policy_profile_valid [OF assms(1)] by simp_all
  obtain phase where phase: "find (\<lambda>p. bp_name p = phase_name) (pf_phases profile) = Some phase"
    using assms(2) policy(1) by (auto simp: validate_phase_def split: option.splits)
  then have member: "phase \<in> set (pf_phases profile)" "bp_name phase = phase_name"
    by (auto simp: find_Some_iff in_set_conv_nth)
  let ?base = "wh_resolve h (wh_expanduser h lease_dir) fs"
  have ab: "ab_argv ab = bp_argv phase" "ab_image ab = pf_image profile"
      "set (ab_environment ab) = set (bp_environment phase)" "path_parts ?base \<noteq> []" "inside ?base (ab_cwd ab)"
      "arguments_resolve (\<lambda>v. wh_resolve h (path_join (ab_cwd ab) v) fs) ?base (tl (bp_argv phase)) = Inr ()"
      "ab_network_enabled ab \<Longrightarrow> allow \<and> bp_network phase = Net_dependencies"
    using assms(2) policy(1) phase
    by (auto simp: validate_phase_def Let_def split: if_splits sum.splits)
  note facts = valid_phase_facts [OF profile_phases_valid [OF policy(2) member(1)]]
  show ?thesis
    using member ab facts arguments_resolve_inside [OF ab(6)] by (auto simp: Let_def intro!: bexI [of _ phase])
qed

lemma check_command_policy_ok:
  "check_command_policy argv = Inr () \<longleftrightarrow> argv \<noteq> []
     \<and> (\<forall>a\<in>set (tl argv). a \<notin> set (denied_subcommands (command_basename (hd argv))))
     \<and> (is_python (command_basename (hd argv)) \<longrightarrow> ''-c'' \<notin> set argv
          \<and> (''-m'' \<in> set argv \<longrightarrow> module_argument argv \<notin> set denied_python_modules))"
proof (cases "find (\<lambda>a. a \<in> set (denied_subcommands (command_basename (hd argv)))) (tl argv)")
  case None
  then have "\<forall>a\<in>set (tl argv). a \<notin> set (denied_subcommands (command_basename (hd argv)))"
    by (simp add: find_None_iff)
  then show ?thesis by (simp add: check_command_policy_def Let_def None)
next
  case (Some a)
  then have "a \<in> set (tl argv) \<and> a \<in> set (denied_subcommands (command_basename (hd argv)))"
    by (metis (lifting) find_Some_iff nth_mem)
  then show ?thesis using Some by (auto simp: check_command_policy_def Let_def)
qed

lemma parse_command_ok:
  "parse_command nt policy command = Inr argv \<longleftrightarrow> cp_profile policy = None \<and> shlex_split command = Inr argv
     \<and> argv \<noteq> [] \<and> normalize_executable nt (path_name (hd argv)) \<in> set (cp_allowed policy)"
  by (auto simp: parse_command_def split: sum.splits)

text \<open>A free command reaches the runner only when its executable is on the allowlist and none of
  its arguments is a denied subcommand, module or inline program given as an argument of its own;
  otherwise the tool raises and the host is left untouched.\<close>

lemma only_allowed_commands_run:
  assumes "run_command_tool nt policy n runner arguments s = (r, t)" and "(\<exists>text. r = Inr text) \<or> t \<noteq> s"
  shows "\<exists>c argv. as_str (pget arguments ''command'') = Some c \<and> shlex_split (strip c) = Inr argv \<and> argv \<noteq> []
     \<and> normalize_executable nt (path_name (hd argv)) \<in> set (cp_allowed policy)
     \<and> (\<forall>a\<in>set (tl argv). a \<notin> set (denied_subcommands (command_basename (hd argv))))
     \<and> (is_python (command_basename (hd argv)) \<longrightarrow> ''-c'' \<notin> set argv
          \<and> (''-m'' \<in> set argv \<longrightarrow> module_argument argv \<notin> set denied_python_modules))
     \<and> t = snd (runner (strip c) s)"
proof -
  obtain c where c: "as_str (pget arguments ''command'') = Some c" "strip c \<noteq> []"
    using assms by (auto simp: run_command_tool_def io_raise_def split: option.splits if_splits)
  obtain argv where argv: "parse_command nt policy (strip c) = Inr argv"
    using assms c by (auto simp: run_command_tool_def io_raise_def split: sum.splits)
  have "check_command_policy argv = Inr ()"
    using assms c argv
    by (cases "check_command_policy argv") (auto simp: run_command_tool_def io_then_def io_bind_def io_lift_def)
  moreover from this have "t = snd (runner (strip c) s)"
    using assms(1) c argv
    by (auto simp: run_command_tool_def io_then_def io_bind_def io_lift_def io_return_def
        split: prod.splits sum.splits)
  ultimately show ?thesis
    using c argv unfolding parse_command_ok check_command_policy_ok by blast
qed

text \<open>The denials can be walked around (a defect): Python takes the value of \<open>-m\<close> and \<open>-c\<close> glued
  to the flag, and the check, which compares whole arguments, lets every such command pass, the
  installer and inline programs included.\<close>

lemma glued_flags_pass_the_denials:
  assumes "m \<noteq> []"
  shows "check_command_policy [''python'', ''-m'' @ m] = Inr () \<and> check_command_policy [''python'', ''-c'' @ m] = Inr ()"
proof -
  have "command_basename ''python'' = ''python''" by code_simp
  then show ?thesis using assms by (simp add: check_command_policy_ok denied_subcommands_def is_python_def)
qed

section \<open>Witnesses\<close>

definition free_policy_sample :: command_policy where
  "free_policy_sample = \<lparr>cp_allowed = default_executables, cp_profile = None\<rparr>"

lemma glued_flags_pass_the_denials_witness:
  "check_command_policy [''python'', ''-mpip''] = Inr ()"
  using glued_flags_pass_the_denials [of "''pip''"] by simp

lemma split_sample: "shlex_split ''git status'' = Inr [''git'', ''status'']"
  by code_simp

lemma run_sample:
  "run_command_tool False free_policy_sample 100
     (\<lambda>c s. (Inr \<lparr>ce_exit_code = Some 0, ce_timed_out = False, ce_stdout = [], ce_stderr = []\<rparr>, c # s))
     [(''command'', PStr ''git status'')] [] = (Inr ''git status: passed (exit_code=0)'', [''git status''])"
proof -
  have s: "strip ''git status'' = ''git status''" by (simp add: strip_def is_space_def)
  have p: "parse_command False free_policy_sample ''git status'' = Inr [''git'', ''status'']"
    unfolding parse_command_ok
    by (simp add: split_sample free_policy_sample_def) code_simp
  have c: "check_command_policy [''git'', ''status''] = Inr ()" by code_simp
  have a: "command_answer 100 ''git status'' \<lparr>ce_exit_code = Some 0, ce_timed_out = False, ce_stdout = [], ce_stderr = []\<rparr>
      = ''git status: passed (exit_code=0)''"
    by code_simp
  show ?thesis
    by (simp add: run_command_tool_def pget_def s p c a io_then_def io_bind_def io_lift_def io_return_def)
qed

lemma only_allowed_commands_run_witness:
  "''status'' \<notin> set (denied_subcommands (command_basename ''git''))
   \<and> normalize_executable False (path_name ''git'') \<in> set (cp_allowed free_policy_sample)"
  using only_allowed_commands_run [OF run_sample]
  by (simp add: pget_def strip_def is_space_def split_sample)

lemma sample_profile_valid: "profile_valid sample_digests sample_profile"
  using sample_phase_valid
  by (simp add: profile_valid_def sample_profile_def is_slug_def slug_char_def unique_ordered_phases_def
      sample_build_phase_def Let_def)

definition profile_policy_sample :: command_policy where
  "profile_policy_sample = \<lparr>cp_allowed = default_executables, cp_profile = Some sample_profile\<rparr>"

lemma new_policy_sample: "new_command_policy sample_digests [] (Some sample_profile) = Inr profile_policy_sample"
  by (simp add: new_command_policy_def sample_profile_valid profile_policy_sample_def)

definition authorized_sample :: authorized_command where
  "authorized_sample =
     \<lparr>ab_profile_name = ''py'', ab_profile_digest = ''py'', ab_phase = TEST, ab_image = ''i'',
      ab_argv = [''/usr/bin/pytest'', ''-q'', ''tests''], ab_cwd = Path 1 [''w'', ''src''], ab_environment = [],
      ab_timeout_seconds = 60, ab_output_limit = 1000, ab_network_enabled = False\<rparr>"

lemma validate_sample:
  "validate_phase host_sample True sample_digests profile_policy_sample TEST ''/w'' None None None False =
     Inr authorized_sample"
  by code_simp

theorem authorized_command_is_confined_witness:
  "approved_executable (hd (ab_argv authorized_sample)) \<and> inside (Path 1 [''w'']) (ab_cwd authorized_sample)"
proof -
  have base: "wh_resolve host_sample (wh_expanduser host_sample ''/w'') True = Path 1 [''w'']" by code_simp
  show ?thesis
    using authorized_command_is_confined [OF new_policy_sample validate_sample]
    by (auto simp: Let_def base)
qed

end
