(* ===== verification/Sandbox.thy ===== *)
theory Sandbox imports Architecture_Scan Command_Policy begin

text \<open>
  The runner of build profiles in throw-away containers (\<open>app/factory/sandbox.py\<close>). The Docker
  client and the host are parameters: a call answers with an output or with an operating system
  error, and may do anything to the outside world. A cancellation of the task may arrive at every
  await; the world says when. The calls made so far are recorded with their answers.
\<close>

section \<open>Docker\<close>

record docker_output =
  do_exit_code :: "int option"
  do_stdout :: string
  do_stderr :: string
  do_truncated :: bool
  do_timed_out :: bool

definition no_output :: docker_output where
  "no_output = \<lparr>do_exit_code = None, do_stdout = [], do_stderr = [], do_truncated = False, do_timed_out = False\<rparr>"

record 'f docker_host =
  dk_call :: "string list \<Rightarrow> rat \<Rightarrow> int \<Rightarrow> 'f \<Rightarrow> docker_output option \<times> 'f"
  dk_cancelled :: "'f \<Rightarrow> bool \<times> 'f"
  dk_token :: "'f \<Rightarrow> string \<times> 'f"
  dk_monotonic :: "'f \<Rightarrow> rat \<times> 'f"
  dk_tree :: "path \<Rightarrow> 'f \<Rightarrow> scan_host \<times> 'f"
  dk_json :: "string \<Rightarrow> pyval option"
  dk_show_float :: "rat \<Rightarrow> string"
  dk_user :: string
  dk_posix :: bool

record sandbox_limits =
  lm_memory_mib :: int
  lm_cpus :: rat
  lm_pids :: int
  lm_tmp_mib :: int
  lm_control_timeout :: rat

text \<open>\<open>_Capture\<close>: what is kept of the chunks of a stream.\<close>

record capture =
  ct_limit :: nat
  ct_data :: string
  ct_truncated :: bool

definition capture_chunk :: "capture \<Rightarrow> string \<Rightarrow> capture" where
  "capture_chunk c chunk =
     (let remaining = ct_limit c - length (ct_data c)
      in c\<lparr>ct_data := ct_data c @ take remaining chunk,
           ct_truncated := ct_truncated c \<or> length chunk > remaining\<rparr>)"

definition capture_read :: "nat \<Rightarrow> string list \<Rightarrow> capture" where
  "capture_read limit chunks =
     foldl capture_chunk \<lparr>ct_limit = limit, ct_data = [], ct_truncated = False\<rparr> chunks"

section \<open>The runner's state\<close>

record phase_frame =
  pl_outcome :: build_outcome
  pl_error_code :: "string option"
  pl_output :: docker_output
  pl_exit_code :: "int option"
  pl_network :: bool
  pl_create_attempted :: bool
  pl_uncertain :: bool
  pl_cancelled :: bool
  pl_cleanup_failed :: bool

record 'f runner_state =
  rn_ws :: "'f workspace_state"
  rn_active :: "(string, string option) pydict"
  rn_quarantined :: "(string, string \<times> string) pydict"
  rn_calls :: "(string list \<times> docker_output option) list"
  rn_frame :: phase_frame

record build_runner =
  bn_registry :: profile_registry
  bn_limits :: sandbox_limits
  bn_allow_network :: bool
  bn_redacted :: "string list"
  bn_journal :: bool

definition new_build_runner ::
  "profile_registry \<Rightarrow> sandbox_limits \<Rightarrow> bool \<Rightarrow> string list \<Rightarrow> bool \<Rightarrow> build_runner" where
  "new_build_runner registry limits allow redacted journal =
     \<lparr>bn_registry = registry, bn_limits = limits, bn_allow_network = allow,
      bn_redacted = filter (\<lambda>v. v \<noteq> []) redacted, bn_journal = journal\<rparr>"

definition new_frame :: phase_frame where
  "new_frame = \<lparr>pl_outcome = INFRASTRUCTURE_ERROR, pl_error_code = None, pl_output = no_output,
     pl_exit_code = None, pl_network = False, pl_create_attempted = False, pl_uncertain = False,
     pl_cancelled = False, pl_cleanup_failed = False\<rparr>"

definition initial_runner :: "build_runner \<Rightarrow> 'f workspace_state \<Rightarrow> 'f runner_state" where
  "initial_runner bn ws =
     \<lparr>rn_ws = ws, rn_active = [], rn_quarantined = (if bn_journal bn then ws_containers ws else []),
      rn_calls = [], rn_frame = new_frame\<rparr>"

definition active_containers :: "'f runner_state \<Rightarrow> (string, string option) pydict" where
  "active_containers s =
     foldl (\<lambda>d (w, v). AList.update w v d) (rn_active s) (map (\<lambda>(w, n, t). (w, Some n)) (rn_quarantined s))"

definition ask_world :: "('f \<Rightarrow> 'a \<times> 'f) \<Rightarrow> ('f runner_state, 'a) io" where
  "ask_world f s = (case f (ws_fs (rn_ws s)) of (x, fs) \<Rightarrow> (Inr x, s\<lparr>rn_ws := (rn_ws s)\<lparr>ws_fs := fs\<rparr>\<rparr>))"

definition on_journal :: "build_runner \<Rightarrow> ('f workspace_state \<Rightarrow> 'f workspace_state) \<Rightarrow> ('f runner_state, unit) io" where
  "on_journal bn f = io_when (bn_journal bn) (io_modify (\<lambda>s. s\<lparr>rn_ws := f (rn_ws s)\<rparr>))"

definition frame :: "(phase_frame \<Rightarrow> phase_frame) \<Rightarrow> ('f runner_state, unit) io" where
  "frame f = io_modify (\<lambda>s. s\<lparr>rn_frame := f (rn_frame s)\<rparr>)"

definition cancelled_error :: exc where
  "cancelled_error = Exc CancelledError []"

text \<open>A call whose await the task's cancellation reaches, and one shielded from it.\<close>

definition docker_shielded ::
  "'f docker_host \<Rightarrow> string list \<Rightarrow> rat \<Rightarrow> int \<Rightarrow> ('f runner_state, docker_output) io" where
  "docker_shielded d args timeout limit =
     io_bind (ask_world (dk_call d args timeout limit)) (\<lambda>answer.
     io_then (io_modify (\<lambda>s. s\<lparr>rn_calls := rn_calls s @ [(args, answer)]\<rparr>))
       (case answer of None \<Rightarrow> io_raise os_error | Some out \<Rightarrow> io_return out))"

definition docker_call ::
  "'f docker_host \<Rightarrow> string list \<Rightarrow> rat \<Rightarrow> int \<Rightarrow> ('f runner_state, docker_output) io" where
  "docker_call d args timeout limit =
     io_bind (ask_world (dk_call d args timeout limit)) (\<lambda>answer.
     io_then (io_modify (\<lambda>s. s\<lparr>rn_calls := rn_calls s @ [(args, answer)]\<rparr>))
    (io_bind (ask_world (dk_cancelled d)) (\<lambda>cancelled.
       if cancelled then io_raise cancelled_error
       else case answer of None \<Rightarrow> io_raise os_error | Some out \<Rightarrow> io_return out)))"

type_synonym 'f docker_caller = "string list \<Rightarrow> rat \<Rightarrow> int \<Rightarrow> ('f runner_state, docker_output) io"

definition control :: "build_runner \<Rightarrow> 'f docker_caller \<Rightarrow> string list \<Rightarrow> ('f runner_state, docker_output) io" where
  "control bn call args = call args (lm_control_timeout (bn_limits bn)) 4096"

definition succeeded :: "docker_output \<Rightarrow> bool" where
  "succeeded out \<longleftrightarrow> do_exit_code out = Some 0 \<and> \<not> do_timed_out out"

section \<open>Cleanup\<close>

definition run_token_label :: string where "run_token_label = ''forgehand.run_token''"

definition labels_command :: "string \<Rightarrow> string list" where
  "labels_command name = [''inspect'', ''--format'', ''{{json .Config.Labels}}'', name]"

definition remove_command :: "string \<Rightarrow> string list" where
  "remove_command name = [''rm'', ''--force'', ''--volumes'', name]"

definition says_absent :: "docker_output \<Rightarrow> bool" where
  "says_absent out \<longleftrightarrow> contains (do_stderr out) ''No such object:'' \<or> contains (do_stderr out) ''No such container:''"

definition is_os_or_value_error :: "exc \<Rightarrow> bool" where
  "is_os_or_value_error e \<longleftrightarrow> exc_kind e = OtherError ''OSError'' \<or> exc_kind e = ValueError"

definition cleanup_container ::
  "'f docker_host \<Rightarrow> build_runner \<Rightarrow> 'f docker_caller \<Rightarrow> string \<Rightarrow> string \<Rightarrow> bool \<Rightarrow> ('f runner_state, bool) io" where
  "cleanup_container d bn call name token absence_is_success =
     io_catch
       (io_bind (control bn call (labels_command name)) (\<lambda>owned.
          if do_timed_out owned then io_return False
          else if do_exit_code owned \<noteq> Some 0 then io_return (absence_is_success \<and> says_absent owned)
          else case dk_json d (do_stdout owned) of
                 None \<Rightarrow> io_raise (Exc ValueError ''json'')
               | Some labels \<Rightarrow>
                   if (case as_dict labels of None \<Rightarrow> True | Some l \<Rightarrow> pget l run_token_label \<noteq> PStr token)
                   then io_return False
                   else io_bind (control bn call (remove_command name)) (\<lambda>removed. io_return (succeeded removed))))
       (\<lambda>e. if is_os_or_value_error e then io_return False else io_raise e)"

text \<open>The journal's entry of a workflow joins the quarantine.\<close>

definition reload_quarantine :: "build_runner \<Rightarrow> string \<Rightarrow> ('f runner_state, unit) io" where
  "reload_quarantine bn w =
     io_modify (\<lambda>s. case (if bn_journal bn then map_of (ws_containers (rn_ws s)) w else None) of
        None \<Rightarrow> s | Some pending \<Rightarrow> s\<lparr>rn_quarantined := AList.update w pending (rn_quarantined s)\<rparr>)"

definition retry_cleanup ::
  "'f docker_host \<Rightarrow> build_runner \<Rightarrow> string \<Rightarrow> ('f runner_state, bool) io" where
  "retry_cleanup d bn w =
     io_bind (io_gets (\<lambda>s. map_of (rn_active s) w)) (\<lambda>active.
       if active \<noteq> None then io_return False
       else io_then (reload_quarantine bn w)
      (io_bind (io_gets (\<lambda>s. map_of (rn_quarantined s) w)) (\<lambda>pending.
         case pending of
           None \<Rightarrow> io_return True
         | Some (name, token) \<Rightarrow>
             io_bind (cleanup_container d bn (docker_call d) name token True) (\<lambda>cleaned.
               if \<not> cleaned then io_return False
               else io_then (io_modify (\<lambda>s. s\<lparr>rn_quarantined := AList.delete w (rn_quarantined s)\<rparr>))
                   (io_then (on_journal bn (journal_forget_container w))
                      (io_return True))))))"

section \<open>One phase\<close>

text \<open>\<open>command.cwd.relative_to(root).as_posix()\<close>.\<close>

definition relative_posix :: "path \<Rightarrow> path \<Rightarrow> string result" where
  "relative_posix base p =
     (if \<not> inside base p then Inl (Exc ValueError ''relative_to'')
      else let parts = drop (length (path_parts base)) (path_parts p)
           in Inr (if parts = [] then ''.'' else join ''/'' parts))"

definition mount_separator :: "char \<Rightarrow> bool" where
  "mount_separator c \<longleftrightarrow> c \<in> {CHR '','', CHR 0x22, CHR 0x0A, CHR 0x0D}"

definition create_args ::
  "'f docker_host \<Rightarrow> sandbox_limits \<Rightarrow> authorized_command \<Rightarrow> path \<Rightarrow> string \<Rightarrow> string \<Rightarrow> bool \<Rightarrow> string list result" where
  "create_args d limits command base name token readonly =
     (if \<exists>c\<in>set (show_path base). mount_separator c
      then Inl (Exc ValueError ''workspace_mount_path_invalid'')
      else case relative_posix base (ab_cwd command) of
        Inl e \<Rightarrow> Inl e
      | Inr cwd \<Rightarrow>
          let memory = show_int (lm_memory_mib limits) @ ''m'' in
          Inr ([''create'', ''--name'', name, ''--label'', run_token_label @ ''='' @ token,
             ''--pull'', ''never'', ''--init'', ''--no-healthcheck'',
             ''--network'', (if ab_network_enabled command then ''bridge'' else ''none''),
             ''--read-only'', ''--cap-drop'', ''ALL'', ''--security-opt'', ''no-new-privileges'',
             ''--memory'', memory, ''--memory-swap'', memory,
             ''--cpus'', dk_show_float d (lm_cpus limits), ''--pids-limit'', show_int (lm_pids limits),
             ''--ulimit'', ''core=0'', ''--ulimit'', ''nofile=1024:1024'',
             ''--tmpfs'', ''/tmp:rw,noexec,nosuid,nodev,size='' @ show_int (lm_tmp_mib limits) @ ''m'',
             ''--shm-size'', ''16m'', ''--log-driver'', ''none'', ''--user'', dk_user d,
             ''--mount'', ''type=bind,src='' @ show_path base @ '',dst=/workspace''
                @ (if readonly then '',readonly'' else []),
             ''--workdir'', (if cwd = ''.'' then ''/workspace'' else ''/workspace/'' @ cwd),
             ''--entrypoint'', ''/usr/bin/env'', ab_image command,
             ''-i'', ''PATH=/usr/local/bin:/usr/bin:/bin'', ''HOME=/tmp'']
             @ map (\<lambda>(k, v). k @ ''='' @ v) (ab_environment command) @ ab_argv command))"

text \<open>What is run: the policy's command and the arguments of \<open>docker create\<close>.\<close>

definition authorize_phase ::
  "'f docker_host \<Rightarrow> 'f workspace_host \<Rightarrow> digests \<Rightarrow> build_runner \<Rightarrow> workspace_lease \<Rightarrow> build_profile \<Rightarrow> build_phase
   \<Rightarrow> bool \<Rightarrow> string \<Rightarrow> string \<Rightarrow> 'f \<Rightarrow> (authorized_command \<times> string list) result" where
  "authorize_phase d h dg bn lease profile phase readonly name token fs =
     (case new_command_policy dg [] (Some profile) of
        Inl e \<Rightarrow> Inl e
      | Inr policy \<Rightarrow>
          (case validate_phase h fs dg policy (bp_name phase) (le_local_path lease) None None None
                  (bn_allow_network bn) of
             Inl e \<Rightarrow> Inl e
           | Inr command \<Rightarrow>
               map_sum id (Pair command)
                 (create_args d (bn_limits bn) command (wh_resolve h (path_of (le_local_path lease)) fs)
                    name token readonly)))"

definition set_error :: "string \<Rightarrow> ('f runner_state, unit) io" where
  "set_error code = frame (\<lambda>p. p\<lparr>pl_error_code := Some code\<rparr>)"

definition reject_phase :: "string \<Rightarrow> ('f runner_state, unit) io" where
  "reject_phase code = frame (\<lambda>p. p\<lparr>pl_outcome := POLICY_REJECTION, pl_error_code := Some code\<rparr>)"

text \<open>The state Docker reports of a container that has exited.\<close>

definition exited_state :: "pyval \<Rightarrow> (int \<times> bool) option" where
  "exited_state v =
     (case as_dict v of
        None \<Rightarrow> None
      | Some st \<Rightarrow>
          (case (pget st ''Running'', pget st ''ExitCode'', pget st ''Status'') of
             (PBool False, PInt code, PStr status) \<Rightarrow>
               if status = ''exited'' then Some (code, pget st ''OOMKilled'' = PBool True) else None
           | _ \<Rightarrow> None))"

definition judge_container ::
  "'f docker_host \<Rightarrow> build_runner \<Rightarrow> string \<Rightarrow> docker_output \<Rightarrow> ('f runner_state, unit) io" where
  "judge_container d bn name output =
     io_bind (control bn (docker_call d) [''inspect'', ''--format'', ''{{json .State}}'', name]) (\<lambda>inspected.
       if \<not> succeeded inspected then set_error ''sandbox_state_unavailable''
       else case dk_json d (do_stdout inspected) of
              None \<Rightarrow> io_raise (Exc ValueError ''json'')
            | Some v \<Rightarrow>
                (case exited_state v of
                   None \<Rightarrow> set_error ''sandbox_state_invalid''
                 | Some (code, oom) \<Rightarrow>
                     io_then (frame (\<lambda>p. p\<lparr>pl_exit_code := Some code\<rparr>))
                       (if oom then frame (\<lambda>p. p\<lparr>pl_outcome := RESOURCE_LIMIT,
                                                 pl_error_code := Some ''memory_limit_exceeded''\<rparr>)
                        else if code \<noteq> 0 then frame (\<lambda>p. p\<lparr>pl_outcome := COMMAND_FAILURE\<rparr>)
                        else if do_exit_code output \<noteq> Some 0 then set_error ''sandbox_attach_failed''
                        else frame (\<lambda>p. p\<lparr>pl_outcome := SUCCESS\<rparr>))))"

text \<open>Once \<open>docker create\<close> has answered.\<close>

definition start_container ::
  "'f docker_host \<Rightarrow> build_runner \<Rightarrow> authorized_command \<Rightarrow> string \<Rightarrow> docker_output \<Rightarrow> ('f runner_state, unit) io" where
  "start_container d bn command name created =
     io_then (frame (\<lambda>p. p\<lparr>pl_uncertain := do_timed_out created\<rparr>))
       (if \<not> succeeded created then set_error ''sandbox_create_failed''
        else io_bind (docker_call d [''start'', ''--attach'', name] (of_int (ab_timeout_seconds command))
                        (ab_output_limit command)) (\<lambda>output.
             io_then (frame (\<lambda>p. p\<lparr>pl_output := output\<rparr>))
               (if do_timed_out output
                then frame (\<lambda>p. p\<lparr>pl_outcome := TIMEOUT, pl_error_code := Some ''phase_timeout''\<rparr>)
                else judge_container d bn name output)))"

definition run_container ::
  "'f docker_host \<Rightarrow> build_runner \<Rightarrow> string \<Rightarrow> authorized_command \<Rightarrow> string list \<Rightarrow> string \<Rightarrow> string
   \<Rightarrow> ('f runner_state, unit) io" where
  "run_container d bn w command args name token =
     io_then (frame (\<lambda>p. p\<lparr>pl_create_attempted := True, pl_uncertain := True\<rparr>))
    (io_then (io_modify (\<lambda>s. s\<lparr>rn_active := AList.update w (Some name) (rn_active s)\<rparr>))
    (io_then (on_journal bn (journal_record_container w name token))
    (io_bind (control bn (docker_call d) args) (\<lambda>created. start_container d bn command name created))))"

text \<open>The body of the outer \<open>try\<close>.\<close>

definition attempt_phase ::
  "'f docker_host \<Rightarrow> 'f workspace_host \<Rightarrow> digests \<Rightarrow> build_runner \<Rightarrow> workspace_lease \<Rightarrow> build_profile \<Rightarrow> build_phase
   \<Rightarrow> bool \<Rightarrow> string \<Rightarrow> string \<Rightarrow> ('f runner_state, unit) io" where
  "attempt_phase d h dg bn lease profile phase readonly name token =
     io_bind (io_gets (\<lambda>s. authorize_phase d h dg bn lease profile phase readonly name token (ws_fs (rn_ws s))))
       (\<lambda>authorized. case authorized of
          Inl e \<Rightarrow>
            reject_phase (if bp_network phase = Net_dependencies \<and> \<not> bn_allow_network bn
                          then ''dependency_preparation_not_authorized'' else ''phase_policy_rejected'')
        | Inr (command, args) \<Rightarrow>
            io_then (frame (\<lambda>p. p\<lparr>pl_network := ab_network_enabled command\<rparr>))
           (io_bind (control bn (docker_call d)
                       [''image'', ''inspect'', ''--format'', ''{{json .Config.Volumes}}'', pf_image profile]) (\<lambda>image.
              if \<not> succeeded image then set_error ''sandbox_image_unavailable''
              else case dk_json d (do_stdout image) of
                     None \<Rightarrow> io_raise (Exc ValueError ''json'')
                   | Some volumes \<Rightarrow>
                       if volumes \<notin> {PNone, PDict []} then reject_phase ''image_declares_unapproved_volumes''
                       else run_container d bn (le_workflow_id lease) command args name token)))"

text \<open>The \<open>except\<close> clauses.\<close>

definition interrupted_phase :: "exc \<Rightarrow> ('f runner_state, unit) io" where
  "interrupted_phase e =
     (if exc_kind e = CancelledError then frame (\<lambda>p. p\<lparr>pl_cancelled := True\<rparr>)
      else if is_os_or_value_error e then set_error ''sandbox_infrastructure_error''
      else io_raise e)"

text \<open>The \<open>finally\<close> clause: the cleanup is shielded, and a cancellation that arrives meanwhile is only
  noted.\<close>

definition finish_phase ::
  "'f docker_host \<Rightarrow> build_runner \<Rightarrow> string \<Rightarrow> string \<Rightarrow> string \<Rightarrow> ('f runner_state, unit) io" where
  "finish_phase d bn w name token =
     io_bind (io_gets rn_frame) (\<lambda>p. io_when (pl_create_attempted p)
       (io_bind (cleanup_container d bn (docker_shielded d) name token (\<not> pl_uncertain p)) (\<lambda>cleaned.
        io_bind (ask_world (dk_cancelled d)) (\<lambda>cancelled.
        io_then (frame (\<lambda>p. p\<lparr>pl_cancelled := pl_cancelled p \<or> cancelled, pl_cleanup_failed := \<not> cleaned\<rparr>))
       (io_then (if \<not> cleaned
                 then io_modify (\<lambda>s. s\<lparr>rn_quarantined := AList.update w (name, token) (rn_quarantined s)\<rparr>)
                 else on_journal bn (journal_forget_container w))
          (io_modify (\<lambda>s. s\<lparr>rn_active := AList.update w None (rn_active s)\<rparr>)))))))"

section \<open>Evidence\<close>

definition in_range :: "nat \<Rightarrow> nat \<Rightarrow> char \<Rightarrow> bool" where
  "in_range a b c \<longleftrightarrow> a \<le> (of_char c :: nat) \<and> (of_char c :: nat) \<le> b"

text \<open>What follows an escape sequence at the head of the text, if there is one.\<close>

definition after_escape :: "string \<Rightarrow> string option" where
  "after_escape s =
     (case s of
        e # b # rest \<Rightarrow>
          if e = CHR 0x1B \<and> b = CHR ''[''
          then (case dropWhile (in_range 0x20 0x2F) (dropWhile (in_range 0x30 0x3F) rest) of
                  [] \<Rightarrow> None
                | f # r \<Rightarrow> if in_range 0x40 0x7E f then Some r else None)
          else None
      | _ \<Rightarrow> None)"

lemma after_escape_shorter: "after_escape s = Some r \<Longrightarrow> length r < length s"
proof -
  assume a: "after_escape s = Some r"
  then obtain e b rest f where "s = e # b # rest"
      "dropWhile (in_range 0x20 0x2F) (dropWhile (in_range 0x30 0x3F) rest) = f # r"
    by (auto simp: after_escape_def split: list.splits if_splits)
  moreover have "length (dropWhile (in_range 0x20 0x2F) (dropWhile (in_range 0x30 0x3F) rest)) \<le> length rest"
    by (meson le_trans length_dropWhile_le)
  ultimately show "length r < length s" by simp
qed

function strip_escapes :: "string \<Rightarrow> string" where
  "strip_escapes s =
     (case s of
        [] \<Rightarrow> []
      | c # cs \<Rightarrow> (case after_escape s of Some r \<Rightarrow> strip_escapes r | None \<Rightarrow> c # strip_escapes cs))"
  by pat_completeness auto
termination by (relation "measure length") (auto dest: after_escape_shorter)

declare strip_escapes.simps [simp del]

definition kept_control :: "char \<Rightarrow> bool" where
  "kept_control c \<longleftrightarrow> \<not> in_range 0 8 c \<and> \<not> in_range 0x0B 0x1F c \<and> c \<noteq> CHR 0x7F"

definition sanitize :: "build_runner \<Rightarrow> string \<Rightarrow> int \<Rightarrow> string" where
  "sanitize bn v limit =
     take (nat limit)
       (foldl (\<lambda>t secret. replace_all secret ''[REDACTED]'' t) (filter kept_control (strip_escapes v))
          (bn_redacted bn))"

definition phase_result ::
  "'f workspace_host \<Rightarrow> build_runner \<Rightarrow> build_profile \<Rightarrow> build_phase \<Rightarrow> bool \<Rightarrow> string \<Rightarrow> rat \<Rightarrow> phase_frame
   \<Rightarrow> build_phase_result" where
  "phase_result h bn profile phase readonly name duration p =
     \<lparr>ph_phase = bp_name phase,
      ph_outcome = (if pl_cancelled p then OUTCOME_CANCELLED
                    else if pl_cleanup_failed p then INFRASTRUCTURE_ERROR else pl_outcome p),
      ph_command = bp_argv phase, ph_image = pf_image profile, ph_cwd = bp_cwd phase,
      ph_duration_seconds = duration, ph_exit_code = pl_exit_code p,
      ph_stdout = sanitize bn (do_stdout (pl_output p)) (bp_output_limit phase),
      ph_stdout_sha256 = Some (wh_sha256 h (do_stdout (pl_output p))),
      ph_stderr = sanitize bn (do_stderr (pl_output p)) (bp_output_limit phase),
      ph_output_truncated = do_truncated (pl_output p), ph_network_enabled = pl_network p,
      ph_workspace_read_only = readonly, ph_cleanup_failed = pl_cleanup_failed p,
      ph_container_name = (if pl_create_attempted p then Some name else None),
      ph_error_code = (if pl_cleanup_failed p then Some ''sandbox_cleanup_failed''
                       else if pl_cancelled p then Some ''phase_cancelled'' else pl_error_code p)\<rparr>"

definition run_phase ::
  "'f docker_host \<Rightarrow> 'f workspace_host \<Rightarrow> digests \<Rightarrow> build_runner \<Rightarrow> workspace_lease \<Rightarrow> build_profile \<Rightarrow> build_phase
   \<Rightarrow> bool \<Rightarrow> ('f runner_state, build_phase_result) io" where
  "run_phase d h dg bn lease profile phase readonly =
     io_bind (ask_world (dk_monotonic d)) (\<lambda>started.
     io_then (frame (\<lambda>_. new_frame))
    (io_bind (ask_world (dk_token d)) (\<lambda>token.
     let name = ''forgehand-'' @ token in
     io_then (io_finally
                (io_catch (attempt_phase d h dg bn lease profile phase readonly name token) interrupted_phase)
                (finish_phase d bn (le_workflow_id lease) name token))
    (io_bind (ask_world (dk_monotonic d)) (\<lambda>ended.
     io_bind (io_gets rn_frame) (\<lambda>p.
       io_return (phase_result h bn profile phase readonly name (ended - started) p)))))))"

section \<open>A run\<close>

datatype run_end = Run_report build_run_result | Run_cancelled build_run_result

definition run_report ::
  "build_profile_selection \<Rightarrow> build_outcome \<Rightarrow> build_phase_result list \<Rightarrow> string option
   \<Rightarrow> architecture_report option \<Rightarrow> acceptance_report option \<Rightarrow> build_run_result" where
  "run_report selection outcome phases code architecture acceptance =
     \<lparr>br_profile_name = sel_selected_profile selection, br_profile_digest = sel_profile_digest selection,
      br_outcome = outcome, br_phases = phases, br_error_code = code,
      br_architecture = architecture, br_acceptance = acceptance\<rparr>"

text \<open>The scan in a thread: nothing when the await is cancelled, otherwise the report if the profile has
  a policy.\<close>

definition scan_workspace ::
  "'f docker_host \<Rightarrow> digests \<Rightarrow> workspace_lease \<Rightarrow> build_profile
   \<Rightarrow> ('f runner_state, architecture_report option option) io" where
  "scan_workspace d dg lease profile =
     (case pf_architecture profile of
        None \<Rightarrow> io_return (Some None)
      | Some policy \<Rightarrow>
          io_bind (ask_world (dk_tree d (path_of (le_local_path lease)))) (\<lambda>tree.
          io_bind (ask_world (dk_cancelled d)) (\<lambda>cancelled.
            if cancelled then io_return None
            else io_bind (io_lift (check_architecture dg (dk_posix d) tree policy))
                   (\<lambda>r. io_return (Some (Some r))))))"

definition architecture_failed :: "architecture_report option \<Rightarrow> bool" where
  "architecture_failed a \<longleftrightarrow> (case a of None \<Rightarrow> False | Some r \<Rightarrow> \<not> architecture_passed r)"

datatype loop_end = Loop_done | Loop_stopped build_outcome "string option" | Loop_cancelled

primrec run_phases ::
  "'f docker_host \<Rightarrow> 'f workspace_host \<Rightarrow> digests \<Rightarrow> build_runner \<Rightarrow> workspace_lease \<Rightarrow> build_profile
   \<Rightarrow> build_phase list \<Rightarrow> build_phase_result list
   \<Rightarrow> ('f runner_state, build_phase_result list \<times> loop_end) io" where
  "run_phases d h dg bn lease profile [] results = io_return (results, Loop_done)"
| "run_phases d h dg bn lease profile (phase # phases) results =
     io_then (on_journal bn (journal_record_phase (le_workflow_id lease) (phase_value (bp_name phase)) ''running''))
    (io_bind (run_phase d h dg bn lease profile phase False) (\<lambda>result.
     io_then (on_journal bn (journal_record_phase (le_workflow_id lease) (phase_value (bp_name phase))
                (outcome_value (ph_outcome result))))
       (if ph_outcome result = OUTCOME_CANCELLED then io_return (results @ [result], Loop_cancelled)
        else if ph_outcome result \<noteq> SUCCESS
        then io_return (results @ [result], Loop_stopped (ph_outcome result) (ph_error_code result))
        else run_phases d h dg bn lease profile phases (results @ [result]))))"

definition case_result :: "'f workspace_host \<Rightarrow> digests \<Rightarrow> acceptance_case \<Rightarrow> build_phase_result \<Rightarrow> acceptance_case_result" where
  "case_result h dg c result =
     \<lparr>ac_case_id = ca_id c, ac_case_digest = dg_case dg c, ac_criterion = ca_criterion c,
      ac_expected_stdout_sha256 = wh_sha256 h (ca_expected_stdout c), ac_execution = result\<rparr>"

definition case_profile :: "build_profile \<Rightarrow> acceptance_case \<Rightarrow> build_profile" where
  "case_profile profile c =
     profile\<lparr>pf_phases := [ca_command c], pf_architecture := None, pf_acceptance := None\<rparr>"

primrec run_cases ::
  "'f docker_host \<Rightarrow> 'f workspace_host \<Rightarrow> digests \<Rightarrow> build_runner \<Rightarrow> workspace_lease \<Rightarrow> build_profile
   \<Rightarrow> acceptance_case list \<Rightarrow> acceptance_case_result list
   \<Rightarrow> ('f runner_state, acceptance_case_result list \<times> loop_end) io" where
  "run_cases d h dg bn lease profile [] results = io_return (results, Loop_done)"
| "run_cases d h dg bn lease profile (c # cases) results =
     io_bind (run_phase d h dg bn lease (case_profile profile c) (ca_command c) True) (\<lambda>result.
       let results1 = results @ [case_result h dg c result] in
       if ph_outcome result = OUTCOME_CANCELLED then io_return (results1, Loop_cancelled)
       else if ph_outcome result \<notin> {SUCCESS, COMMAND_FAILURE}
       then io_return (results1, Loop_stopped (ph_outcome result) (ph_error_code result))
       else run_cases d h dg bn lease profile cases results1)"

definition acceptance_of ::
  "digests \<Rightarrow> acceptance_suite \<Rightarrow> build_profile_selection \<Rightarrow> acceptance_case_result list \<Rightarrow> acceptance_report" where
  "acceptance_of dg suite selection cases =
     \<lparr>rp_suite_digest = dg_suite dg suite, rp_required_criteria = sel_acceptance_criteria selection,
      rp_complete = (cases \<noteq> [] \<and> length cases = length (su_cases suite)), rp_cases = cases\<rparr>"

definition run_acceptance ::
  "'f docker_host \<Rightarrow> 'f workspace_host \<Rightarrow> digests \<Rightarrow> build_runner \<Rightarrow> workspace_lease \<Rightarrow> build_profile_selection
   \<Rightarrow> build_profile \<Rightarrow> build_phase_result list \<Rightarrow> architecture_report option \<Rightarrow> ('f runner_state, run_end) io" where
  "run_acceptance d h dg bn lease selection profile results architecture =
     (case pf_acceptance profile of
        None \<Rightarrow> io_return (Run_report (run_report selection SUCCESS results None architecture None))
      | Some suite \<Rightarrow>
          io_bind (run_cases d h dg bn lease profile (su_cases suite) []) (\<lambda>(cases, ended).
            let acceptance = acceptance_of dg suite selection cases in
            case ended of
              Loop_cancelled \<Rightarrow>
                io_return (Run_cancelled (run_report selection OUTCOME_CANCELLED results None architecture (Some acceptance)))
            | Loop_stopped outcome code \<Rightarrow>
                io_return (Run_report (run_report selection outcome results code architecture (Some acceptance)))
            | Loop_done \<Rightarrow>
                if \<not> report_passed acceptance
                then io_return (Run_report (run_report selection POLICY_REJECTION results (Some ''acceptance_failed'')
                       architecture (Some acceptance)))
                else io_return (Run_report (run_report selection SUCCESS results None architecture (Some acceptance)))))"

definition run_profile ::
  "'f docker_host \<Rightarrow> 'f workspace_host \<Rightarrow> digests \<Rightarrow> build_runner \<Rightarrow> workspace_lease \<Rightarrow> build_profile_selection
   \<Rightarrow> build_profile \<Rightarrow> ('f runner_state, run_end) io" where
  "run_profile d h dg bn lease selection profile =
     io_bind (scan_workspace d dg lease profile) (\<lambda>scanned. case scanned of
        None \<Rightarrow> io_return (Run_cancelled (run_report selection OUTCOME_CANCELLED [] None None None))
      | Some architecture \<Rightarrow>
          if architecture_failed architecture
          then io_return (Run_report (run_report selection POLICY_REJECTION [] (Some ''architecture_policy_failed'')
                 architecture None))
          else io_bind (run_phases d h dg bn lease profile (pf_phases profile) []) (\<lambda>(results, ended).
            case ended of
              Loop_cancelled \<Rightarrow>
                io_return (Run_cancelled (run_report selection OUTCOME_CANCELLED results None architecture None))
            | Loop_stopped outcome code \<Rightarrow>
                io_return (Run_report (run_report selection outcome results code architecture None))
            | Loop_done \<Rightarrow>
                io_bind (scan_workspace d dg lease profile) (\<lambda>rescanned. case rescanned of
                    None \<Rightarrow>
                      io_return (Run_cancelled (run_report selection OUTCOME_CANCELLED results None architecture None))
                  | Some architecture1 \<Rightarrow>
                      if architecture_failed architecture1
                      then io_return (Run_report (run_report selection POLICY_REJECTION results
                             (Some ''architecture_policy_failed'') architecture1 None))
                      else run_acceptance d h dg bn lease selection profile results architecture1)))"

definition run_build ::
  "'f docker_host \<Rightarrow> 'f workspace_host \<Rightarrow> digests \<Rightarrow> build_runner \<Rightarrow> workspace_lease \<Rightarrow> build_profile_selection
   \<Rightarrow> ('f runner_state, run_end) io" where
  "run_build d h dg bn lease selection =
     (let w = le_workflow_id lease;
          refused = (\<lambda>outcome code. io_return (Run_report (run_report selection outcome [] (Some code) None None))) in
      io_then (reload_quarantine bn w)
     (io_bind (io_gets (\<lambda>s. (map_of (rn_quarantined s) w, map_of (rn_active s) w))) (\<lambda>(quarantined, active).
        if quarantined \<noteq> None then refused INFRASTRUCTURE_ERROR ''sandbox_cleanup_pending''
        else if active \<noteq> None then refused INFRASTRUCTURE_ERROR ''workflow_busy''
        else if le_state lease \<notin> {WS_READY, WS_ACTIVE} then refused POLICY_REJECTION ''lease_not_active''
        else case profile_for dg (bn_registry bn) selection of
               Inl e \<Rightarrow> if exc_kind e = ValueError then refused POLICY_REJECTION ''profile_drift'' else io_raise e
             | Inr profile \<Rightarrow>
                 io_then (io_modify (\<lambda>s. s\<lparr>rn_active := AList.update w None (rn_active s)\<rparr>))
                   (io_finally (run_profile d h dg bn lease selection profile)
                      (io_modify (\<lambda>s. s\<lparr>rn_active := AList.delete w (rn_active s)\<rparr>))))))"

section \<open>What calls do to the state\<close>

text \<open>Only the outside world moved, and these calls were made.\<close>

definition called :: "'f runner_state \<Rightarrow> (string list \<times> docker_output option) list \<Rightarrow> 'f runner_state \<Rightarrow> bool" where
  "called s new t \<longleftrightarrow>
     (\<exists>fs. t = s\<lparr>rn_ws := (rn_ws s)\<lparr>ws_fs := fs\<rparr>, rn_calls := rn_calls s @ new\<rparr>)"

lemma called_fields:
  "called s new t \<Longrightarrow> rn_calls t = rn_calls s @ new \<and> rn_frame t = rn_frame s \<and> rn_active t = rn_active s
     \<and> rn_quarantined t = rn_quarantined s \<and> ws_containers (rn_ws t) = ws_containers (rn_ws s)"
  by (auto simp: called_def)

lemma called_trans: "called s a t \<Longrightarrow> called t b u \<Longrightarrow> called s (a @ b) u"
  by (auto simp: called_def)

lemma called_refl: "called s [] s"
  unfolding called_def by (rule exI [of _ "ws_fs (rn_ws s)"]) simp

lemma io_wp_ask_world:
  "(\<And>x t. called s [] t \<Longrightarrow> Q x t) \<Longrightarrow> io_wp (ask_world f) Q E s"
  by (auto simp: io_wp_def ask_world_def called_def split: prod.splits)

lemma io_wp_frame [simp]: "io_wp (frame f) Q E s = Q () (s\<lparr>rn_frame := f (rn_frame s)\<rparr>)"
  by (simp add: frame_def)

lemma io_wp_set_error [simp]:
  "io_wp (set_error c) Q E s = Q () (s\<lparr>rn_frame := (rn_frame s)\<lparr>pl_error_code := Some c\<rparr>\<rparr>)"
  by (simp add: set_error_def)

lemma io_wp_reject_phase [simp]:
  "io_wp (reject_phase c) Q E s =
     Q () (s\<lparr>rn_frame := (rn_frame s)\<lparr>pl_outcome := POLICY_REJECTION, pl_error_code := Some c\<rparr>\<rparr>)"
  by (simp add: reject_phase_def)

lemma io_wp_on_journal [simp]:
  "io_wp (on_journal bn f) Q E s = Q () (if bn_journal bn then s\<lparr>rn_ws := f (rn_ws s)\<rparr> else s)"
  by (simp add: on_journal_def)

lemma wp_docker_shielded:
  assumes "\<And>answer t. called s [(args, answer)] t \<Longrightarrow>
     (case answer of None \<Rightarrow> E os_error t | Some out \<Rightarrow> Q out t)"
  shows "io_wp (docker_shielded d args timeout limit) Q E s"
  unfolding docker_shielded_def io_wp_bind
proof (rule io_wp_ask_world)
  fix answer t assume "called s [] t"
  then have "called s [(args, answer)] (t\<lparr>rn_calls := rn_calls t @ [(args, answer)]\<rparr>)"
    by (auto simp: called_def)
  from assms [OF this] show "io_wp (io_then (io_modify (\<lambda>s. s\<lparr>rn_calls := rn_calls s @ [(args, answer)]\<rparr>))
      (case answer of None \<Rightarrow> io_raise os_error | Some out \<Rightarrow> io_return out)) Q E t"
    by (cases answer) simp_all
qed

lemma wp_docker_call:
  assumes "\<And>answer t. called s [(args, answer)] t \<Longrightarrow>
     (case answer of None \<Rightarrow> E os_error t | Some out \<Rightarrow> Q out t) \<and> E cancelled_error t"
  shows "io_wp (docker_call d args timeout limit) Q E s"
  unfolding docker_call_def io_wp_bind
proof (rule io_wp_ask_world)
  fix answer t assume t: "called s [] t"
  have "io_wp (ask_world (dk_cancelled d)) (\<lambda>c. io_wp (if c then io_raise cancelled_error
        else case answer of None \<Rightarrow> io_raise os_error | Some out \<Rightarrow> io_return out) Q E) E
      (t\<lparr>rn_calls := rn_calls t @ [(args, answer)]\<rparr>)"
  proof (rule io_wp_ask_world)
    fix c u assume "called (t\<lparr>rn_calls := rn_calls t @ [(args, answer)]\<rparr>) [] u"
    then have "called s [(args, answer)] u" using t by (auto simp: called_def)
    from assms [OF this] show "io_wp (if c then io_raise cancelled_error
        else case answer of None \<Rightarrow> io_raise os_error | Some out \<Rightarrow> io_return out) Q E u"
      by (cases answer) simp_all
  qed
  then show "io_wp (io_then (io_modify (\<lambda>s. s\<lparr>rn_calls := rn_calls s @ [(args, answer)]\<rparr>))
      (io_bind (ask_world (dk_cancelled d)) (\<lambda>c. if c then io_raise cancelled_error
        else case answer of None \<Rightarrow> io_raise os_error | Some out \<Rightarrow> io_return out))) Q E t"
    by simp
qed

section \<open>Containers are removed or remembered\<close>

text \<open>Docker confirmed that the container is gone: it removed it, or it knows no such container and
  its creation was certain.\<close>

definition confirmed_gone :: "(string list \<times> docker_output option) list \<Rightarrow> string \<Rightarrow> bool \<Rightarrow> bool" where
  "confirmed_gone calls name absence_counts \<longleftrightarrow>
     (\<exists>out. (remove_command name, Some out) \<in> set calls \<and> succeeded out)
     \<or> absence_counts \<and> (\<exists>out. (labels_command name, Some out) \<in> set calls \<and> do_exit_code out \<noteq> Some 0
          \<and> \<not> do_timed_out out \<and> says_absent out)"

text \<open>A container is removed only under its own name and after Docker showed that it carries the token
  of this run.\<close>

definition owned_removals ::
  "'f docker_host \<Rightarrow> (string list \<times> docker_output option) list \<Rightarrow> string \<Rightarrow> string \<Rightarrow> bool" where
  "owned_removals d calls name token \<longleftrightarrow>
     (\<forall>args answer. (args, answer) \<in> set calls \<longrightarrow> hd args = ''rm'' \<longrightarrow>
        args = remove_command name
        \<and> (\<exists>out l. (labels_command name, Some out) \<in> set calls \<and> dk_json d (do_stdout out) = Some (PDict l)
             \<and> pget l run_token_label = PStr token))"

lemma as_dict_Some: "as_dict v = Some l \<longleftrightarrow> v = PDict l"
  by (cases v) auto

lemma wp_control:
  assumes "call = docker_call d \<or> call = docker_shielded d"
    and "\<And>answer t. called s [(args, answer)] t \<Longrightarrow>
     (case answer of None \<Rightarrow> E os_error t | Some out \<Rightarrow> Q out t) \<and> (call \<noteq> docker_shielded d \<longrightarrow> E cancelled_error t)"
  shows "io_wp (control bn call args) Q E s"
proof (cases "call = docker_shielded d")
  case True
  show ?thesis unfolding control_def True by (rule wp_docker_shielded) (use assms(2) in blast)
next
  case False
  then have c: "call = docker_call d" using assms(1) by simp
  show ?thesis unfolding control_def c by (rule wp_docker_call) (use assms(2) False in blast)
qed

lemma os_or_value_simps [simp]:
  "is_os_or_value_error os_error" "\<not> is_os_or_value_error cancelled_error"
  "is_os_or_value_error (Exc ValueError m)" "exc_kind cancelled_error = CancelledError"
  "exc_kind os_error \<noteq> CancelledError"
  by (simp_all add: is_os_or_value_error_def os_error_def cancelled_error_def)

lemma command_heads [simp]:
  "hd (labels_command name) = ''inspect''" "hd (remove_command name) = ''rm''"
  by (simp_all add: labels_command_def remove_command_def)

lemma cleanup_wp:
  assumes call: "call = docker_call d \<or> call = docker_shielded d"
  shows "io_wp (cleanup_container d bn call name token b)
     (\<lambda>ok t. \<exists>new. called s new t \<and> owned_removals d new name token \<and> (ok \<longrightarrow> confirmed_gone new name b))
     (\<lambda>e t. call \<noteq> docker_shielded d \<and> (\<exists>new. called s new t \<and> owned_removals d new name token)) s"
    (is "io_wp _ ?Q ?E s")
proof -
  let ?look = "\<lambda>answer. (labels_command name, answer)"
  have none: "owned_removals d [?look answer] name token" for answer
    by (auto simp: owned_removals_def)
  have removed: "io_wp (control bn call (remove_command name)) (\<lambda>out. io_wp (io_return (succeeded out)) ?Q
        (\<lambda>e. io_wp (if is_os_or_value_error e then io_return False else io_raise e) ?Q ?E))
        (\<lambda>e. io_wp (if is_os_or_value_error e then io_return False else io_raise e) ?Q ?E) t"
    if t: "called s [?look (Some out)] t" and l: "dk_json d (do_stdout out) = Some (PDict l)"
      "pget l run_token_label = PStr token" for t out l
  proof (rule wp_control [OF call], goal_cases)
    case (1 answer u)
    then have u: "called s [?look (Some out), (remove_command name, answer)] u" using called_trans [OF t] by fastforce
    have own: "owned_removals d [?look (Some out), (remove_command name, answer)] name token"
      using l by (auto simp: owned_removals_def)
    have gone: "confirmed_gone [?look (Some out), (remove_command name, Some o1)] name b" if "succeeded o1" for o1
      using that by (auto simp: confirmed_gone_def)
    show ?case
      using u own gone by (cases answer) auto
  qed
  show ?thesis
    unfolding cleanup_container_def io_wp_catch io_wp_bind
  proof (rule wp_control [OF call], goal_cases)
    case (1 answer t)
    note t = this
    show ?case
    proof (cases answer)
      case None
      then show ?thesis using t none by auto
    next
      case (Some owned)
      have absent: "confirmed_gone [?look (Some owned)] name b"
        if "\<not> do_timed_out owned" "do_exit_code owned \<noteq> Some 0" "b" "says_absent owned"
        using that by (auto simp: confirmed_gone_def)
      have t1: "called s [?look (Some owned)] t" using t Some by simp
      show ?thesis
      proof (cases "do_timed_out owned \<or> do_exit_code owned \<noteq> Some 0 \<or> dk_json d (do_stdout owned) = None")
        case True
        then show ?thesis using t1 none absent Some by (auto split: option.splits)
      next
        case False
        then obtain labels where labels: "dk_json d (do_stdout owned) = Some labels" by auto
        show ?thesis
        proof (cases "case as_dict labels of None \<Rightarrow> True | Some l \<Rightarrow> pget l run_token_label \<noteq> PStr token")
          case True
          then show ?thesis using False labels t1 none Some by auto
        next
          case own: False
          then obtain l where l: "labels = PDict l" "pget l run_token_label = PStr token"
            by (auto simp: as_dict_Some split: option.splits)
          from removed [OF t1 labels [unfolded l(1)] l(2)] show ?thesis
            using False labels l t1 none Some by auto
        qed
      qed
    qed
  qed
qed

text \<open>While a phase is attempted: nothing is removed; once a creation was attempted the journal holds
  the container, and before that none was asked for; a frame that says success has its evidence.\<close>

definition frame_ok :: "phase_frame \<Rightarrow> bool" where
  "frame_ok p \<longleftrightarrow> pl_outcome p = SUCCESS \<longrightarrow>
     pl_exit_code p = Some 0 \<and> pl_error_code p = None \<and> do_exit_code (pl_output p) = Some 0
     \<and> \<not> do_timed_out (pl_output p) \<and> pl_create_attempted p"

text \<open>Docker answered a request to create, and in time.\<close>

definition creation_answered :: "(string list \<times> docker_output option) list \<Rightarrow> bool" where
  "creation_answered calls \<longleftrightarrow>
     (\<exists>args out. (args, Some out) \<in> set calls \<and> hd args = ''create'' \<and> \<not> do_timed_out out)"

lemma creation_answered_append:
  "creation_answered (a @ b) \<longleftrightarrow> creation_answered a \<or> creation_answered b"
  by (auto simp: creation_answered_def)

definition attempted ::
  "build_runner \<Rightarrow> string \<Rightarrow> string \<Rightarrow> string \<Rightarrow> 'f runner_state \<Rightarrow> 'f runner_state \<Rightarrow> bool" where
  "attempted bn w name token s t \<longleftrightarrow>
     (\<exists>new. rn_calls t = rn_calls s @ new \<and> (\<forall>c\<in>set new. hd (fst c) \<noteq> ''rm'')
        \<and> (\<not> pl_create_attempted (rn_frame t) \<longrightarrow> (\<forall>c\<in>set new. hd (fst c) \<noteq> ''create''))
        \<and> (pl_create_attempted (rn_frame t) \<and> \<not> pl_uncertain (rn_frame t) \<longrightarrow> creation_answered new))
     \<and> rn_quarantined t = rn_quarantined s \<and> \<not> pl_cleanup_failed (rn_frame t)
     \<and> (if pl_create_attempted (rn_frame t)
        then bn_journal bn \<longrightarrow> map_of (ws_containers (rn_ws t)) w = Some (name, token)
        else ws_containers (rn_ws t) = ws_containers (rn_ws s))"

text \<open>Either way: returned with a consistent frame, or raised without having set a success.\<close>

definition attempt_post ::
  "build_runner \<Rightarrow> string \<Rightarrow> string \<Rightarrow> string \<Rightarrow> 'f runner_state \<Rightarrow> unit \<Rightarrow> 'f runner_state \<Rightarrow> bool" where
  "attempt_post bn w name token s u t \<longleftrightarrow> attempted bn w name token s t \<and> frame_ok (rn_frame t)"

definition attempt_error ::
  "build_runner \<Rightarrow> string \<Rightarrow> string \<Rightarrow> string \<Rightarrow> 'f runner_state \<Rightarrow> exc \<Rightarrow> 'f runner_state \<Rightarrow> bool" where
  "attempt_error bn w name token s e t \<longleftrightarrow> attempted bn w name token s t \<and> pl_outcome (rn_frame t) \<noteq> SUCCESS
     \<and> (e = cancelled_error \<or> is_os_or_value_error e)"

lemmas attempt_defs = attempt_post_def attempt_error_def

text \<open>A call that neither creates nor removes keeps the attempt going.\<close>

lemma attempted_call:
  "attempted bn w name token s t \<Longrightarrow> called t [(args, answer)] u \<Longrightarrow> hd args \<noteq> ''rm'' \<Longrightarrow>
   hd args = ''create'' \<longrightarrow> pl_create_attempted (rn_frame t) \<Longrightarrow> attempted bn w name token s u"
  by (auto simp: attempted_def creation_answered_append dest!: called_fields)

lemma judge_container_wp:
  assumes t: "attempted bn w name token s t" and created: "pl_create_attempted (rn_frame t)"
    and out: "pl_output (rn_frame t) = output" "\<not> do_timed_out output"
    and clean: "pl_outcome (rn_frame t) \<noteq> SUCCESS" "pl_error_code (rn_frame t) = None"
  shows "io_wp (judge_container d bn name output) (attempt_post bn w name token s) (attempt_error bn w name token s) t"
  unfolding judge_container_def io_wp_bind
proof (rule wp_control [OF disjI1 [OF refl]], goal_cases)
  case (1 answer u)
  have att: "attempted bn w name token s u" by (rule attempted_call [OF t 1]) (simp_all add: created)
  have frame: "rn_frame u = rn_frame t" using called_fields [OF 1] by simp
  have keep: "\<not> pl_cleanup_failed (rn_frame u)" using att by (simp add: attempted_def)
  show ?case
    using att clean created out frame keep
    by (auto simp: attempt_defs frame_ok_def attempted_def split: option.splits if_splits)
qed

lemma journal_record_containers [simp]:
  "ws_containers (journal_record_container w name token ws) = AList.update w (name, token) (ws_containers ws)"
  by (simp add: journal_record_container_def)

lemma start_container_wp:
  assumes u: "attempted bn w name token s u" "pl_create_attempted (rn_frame u)" "pl_outcome (rn_frame u) \<noteq> SUCCESS"
      "pl_error_code (rn_frame u) = None"
    and c: "rn_calls u = rn_calls s @ new @ [(args, Some created)]" "hd args = ''create''"
  shows "io_wp (start_container d bn command name created)
    (attempt_post bn w name token s) (attempt_error bn w name token s) u"
proof -
  let ?u = "u\<lparr>rn_frame := (rn_frame u)\<lparr>pl_uncertain := do_timed_out created\<rparr>\<rparr>"
  have "creation_answered (new @ [(args, Some created)])" if "\<not> do_timed_out created"
    using that c(2) by (auto simp: creation_answered_def)
  then have u1: "attempted bn w name token s ?u" using u(1,2) c(1) by (auto simp: attempted_def)
  have start: "io_wp (docker_call d [''start'', ''--attach'', name] timeout limit)
      (\<lambda>output. io_wp (io_then (frame (\<lambda>p. p\<lparr>pl_output := output\<rparr>))
        (if do_timed_out output
         then frame (\<lambda>p. p\<lparr>pl_outcome := TIMEOUT, pl_error_code := Some ''phase_timeout''\<rparr>)
         else judge_container d bn name output))
        (attempt_post bn w name token s) (attempt_error bn w name token s))
      (attempt_error bn w name token s) ?u" for timeout limit
  proof (rule wp_docker_call, goal_cases)
    case (1 answer v)
    have v: "attempted bn w name token s v" by (rule attempted_call [OF u1 1]) (simp_all add: u)
    have frame: "rn_frame v = rn_frame ?u" using called_fields [OF 1] by simp
    have "io_wp (judge_container d bn name out) (attempt_post bn w name token s) (attempt_error bn w name token s)
        (v\<lparr>rn_frame := (rn_frame v)\<lparr>pl_output := out\<rparr>\<rparr>)" if "\<not> do_timed_out out" for out
      by (rule judge_container_wp) (use v u frame that in \<open>auto simp: attempted_def\<close>)
    then show ?case
      using v u frame by (auto simp: attempt_defs attempted_def frame_ok_def split: option.split)
  qed
  show ?thesis
    unfolding start_container_def
    using start u1 u by (auto simp: attempt_defs attempted_def frame_ok_def)
qed

lemma run_container_wp:
  assumes s: "attempted bn w name token s t" "hd args = ''create''"
    and clean: "pl_outcome (rn_frame t) \<noteq> SUCCESS" "pl_error_code (rn_frame t) = None"
  shows "io_wp (run_container d bn w command args name token)
    (attempt_post bn w name token s) (attempt_error bn w name token s) t"
proof -
  define t1 where "t1 = t\<lparr>rn_frame := (rn_frame t)\<lparr>pl_create_attempted := True, pl_uncertain := True\<rparr>,
     rn_active := AList.update w (Some name) (rn_active t)\<rparr>"
  define t2 where "t2 = (if bn_journal bn then t1\<lparr>rn_ws := journal_record_container w name token (rn_ws t1)\<rparr> else t1)"
  have frame2: "rn_frame t2 = (rn_frame t)\<lparr>pl_create_attempted := True, pl_uncertain := True\<rparr>"
    by (simp add: t2_def t1_def)
  have t2: "attempted bn w name token s t2"
    using s(1) by (auto simp: attempted_def t1_def t2_def)
  have "io_wp (control bn (docker_call d) args)
      (\<lambda>created. io_wp (start_container d bn command name created)
        (attempt_post bn w name token s) (attempt_error bn w name token s))
      (attempt_error bn w name token s) t2"
  proof (rule wp_control [OF disjI1 [OF refl]], goal_cases)
    case (1 answer u)
    have u: "attempted bn w name token s u" by (rule attempted_call [OF t2 1]) (simp_all add: s frame2)
    have frame: "rn_frame u = rn_frame t2" using called_fields [OF 1] by simp
    show ?case
    proof (cases answer)
      case None
      then show ?thesis using u frame frame2 clean by (simp add: attempt_defs)
    next
      case (Some created)
      obtain new where "rn_calls t2 = rn_calls s @ new" using t2 by (auto simp: attempted_def)
      then have "rn_calls u = rn_calls s @ new @ [(args, Some created)]" using called_fields [OF 1] Some by simp
      then show ?thesis
        using Some u frame frame2 clean start_container_wp [OF u _ _ _ _ s(2)] by (simp add: attempt_defs)
    qed
  qed
  then show ?thesis
    unfolding run_container_def by (cases "bn_journal bn") (simp_all add: t1_def t2_def)
qed

lemma create_args_head: "create_args d limits command base name token readonly = Inr args \<Longrightarrow> hd args = ''create''"
  by (auto simp: create_args_def Let_def split: if_splits sum.splits)

lemma attempt_phase_wp:
  assumes fresh: "rn_frame s = new_frame"
  shows "io_wp (attempt_phase d h dg bn lease profile phase readonly name token)
    (attempt_post bn (le_workflow_id lease) name token s) (attempt_error bn (le_workflow_id lease) name token s) s"
proof -
  let ?w = "le_workflow_id lease"
  let ?image = "[''image'', ''inspect'', ''--format'', ''{{json .Config.Volumes}}'', pf_image profile]"
  have s: "attempted bn ?w name token s s" by (simp add: attempted_def fresh new_frame_def)
  show ?thesis
  proof (cases "authorize_phase d h dg bn lease profile phase readonly name token (ws_fs (rn_ws s))")
    case (Inl e)
    then show ?thesis
      using s by (simp add: attempt_phase_def attempt_defs attempted_def frame_ok_def fresh new_frame_def)
  next
    case (Inr ca)
    obtain command args where ca: "ca = (command, args)" by (cases ca)
    have args: "hd args = ''create''"
      using Inr unfolding ca authorize_phase_def
      by (auto split: sum.splits dest: create_args_head simp: map_sum_def)
    let ?s = "s\<lparr>rn_frame := (rn_frame s)\<lparr>pl_network := ab_network_enabled command\<rparr>\<rparr>"
    have s1: "attempted bn ?w name token s ?s" using s by (simp add: attempted_def)
    have "io_wp (control bn (docker_call d) ?image)
        (\<lambda>image. io_wp (if \<not> succeeded image then set_error ''sandbox_image_unavailable''
            else case dk_json d (do_stdout image) of
                   None \<Rightarrow> io_raise (Exc ValueError ''json'')
                 | Some volumes \<Rightarrow>
                     if volumes \<notin> {PNone, PDict []} then reject_phase ''image_declares_unapproved_volumes''
                     else run_container d bn ?w command args name token)
          (attempt_post bn ?w name token s) (attempt_error bn ?w name token s))
        (attempt_error bn ?w name token s) ?s"
    proof (rule wp_control [OF disjI1 [OF refl]], goal_cases)
      case (1 answer u)
      have u: "attempted bn ?w name token s u" by (rule attempted_call [OF s1 1]) simp_all
      have frame: "rn_frame u = rn_frame ?s" using called_fields [OF 1] by simp
      have run: "io_wp (run_container d bn ?w command args name token)
          (attempt_post bn ?w name token s) (attempt_error bn ?w name token s) u"
        by (rule run_container_wp [OF u args]) (simp_all add: frame fresh new_frame_def)
      show ?case
        using u frame run fresh
        by (auto simp: attempt_defs attempted_def frame_ok_def new_frame_def split: option.split)
    qed
    then show ?thesis unfolding attempt_phase_def by (simp add: Inr ca)
  qed
qed

text \<open>How the containers of a phase are accounted for once it has ended.\<close>

definition accounted ::
  "'f docker_host \<Rightarrow> build_runner \<Rightarrow> string \<Rightarrow> string \<Rightarrow> string \<Rightarrow> 'f runner_state \<Rightarrow> 'f runner_state \<Rightarrow> bool" where
  "accounted d bn w name token s t \<longleftrightarrow>
     (\<exists>new. rn_calls t = rn_calls s @ new \<and> owned_removals d new name token
        \<and> (if \<not> pl_create_attempted (rn_frame t)
           then (\<forall>c\<in>set new. hd (fst c) \<noteq> ''create'' \<and> hd (fst c) \<noteq> ''rm'')
             \<and> rn_quarantined t = rn_quarantined s \<and> ws_containers (rn_ws t) = ws_containers (rn_ws s)
           else if pl_cleanup_failed (rn_frame t)
           then map_of (rn_quarantined t) w = Some (name, token)
             \<and> (bn_journal bn \<longrightarrow> map_of (ws_containers (rn_ws t)) w = Some (name, token))
           else confirmed_gone new name (creation_answered new) \<and> rn_quarantined t = rn_quarantined s
             \<and> (bn_journal bn \<longrightarrow> map_of (ws_containers (rn_ws t)) w = None)))"

lemma journal_forget_containers [simp]:
  "ws_containers (journal_forget_container w ws) = AList.delete w (ws_containers ws)"
  by (simp add: journal_forget_container_def)

lemma no_removals: "\<forall>c\<in>set calls. hd (fst c) \<noteq> ''rm'' \<Longrightarrow> owned_removals d calls name token"
  by (fastforce simp: owned_removals_def)

lemma owned_removals_append:
  "\<forall>c\<in>set a. hd (fst c) \<noteq> ''rm'' \<Longrightarrow> owned_removals d b name token \<Longrightarrow> owned_removals d (a @ b) name token"
  by (fastforce simp: owned_removals_def)

lemma confirmed_gone_append:
  "confirmed_gone b name c \<Longrightarrow> (c \<Longrightarrow> c') \<Longrightarrow> confirmed_gone (a @ b) name c'"
  by (auto simp: confirmed_gone_def)

lemma finish_phase_wp:
  assumes v: "attempted bn w name token s v" and ok: "frame_ok (rn_frame v)"
  shows "io_wp (finish_phase d bn w name token)
    (\<lambda>_ t. accounted d bn w name token s t \<and> frame_ok (rn_frame t)) (\<lambda>_ _. False) v"
proof (cases "pl_create_attempted (rn_frame v)")
  case False
  then show ?thesis
    using v ok no_removals by (auto simp: finish_phase_def accounted_def attempted_def)
next
  case True
  obtain calls where calls: "rn_calls v = rn_calls s @ calls" "\<forall>c\<in>set calls. hd (fst c) \<noteq> ''rm''"
      "\<not> pl_uncertain (rn_frame v) \<longrightarrow> creation_answered calls"
    using v True by (auto simp: attempted_def)
  have journal: "bn_journal bn \<longrightarrow> map_of (ws_containers (rn_ws v)) w = Some (name, token)"
      "rn_quarantined v = rn_quarantined s"
    using v True by (auto simp: attempted_def)
  have "io_wp (cleanup_container d bn (docker_shielded d) name token (\<not> pl_uncertain (rn_frame v)))
      (\<lambda>cleaned. io_wp (io_bind (ask_world (dk_cancelled d)) (\<lambda>cancelled.
          io_then (frame (\<lambda>p. p\<lparr>pl_cancelled := pl_cancelled p \<or> cancelled, pl_cleanup_failed := \<not> cleaned\<rparr>))
         (io_then (if \<not> cleaned
                   then io_modify (\<lambda>s. s\<lparr>rn_quarantined := AList.update w (name, token) (rn_quarantined s)\<rparr>)
                   else on_journal bn (journal_forget_container w))
            (io_modify (\<lambda>s. s\<lparr>rn_active := AList.update w None (rn_active s)\<rparr>)))))
        (\<lambda>_ t. accounted d bn w name token s t \<and> frame_ok (rn_frame t)) (\<lambda>_ _. False))
      (\<lambda>_ _. False) v"
  proof (rule io_wp_mono [OF cleanup_wp [OF disjI2 [OF refl]]])
    fix cleaned t
    assume "\<exists>new. called v new t \<and> owned_removals d new name token
        \<and> (cleaned \<longrightarrow> confirmed_gone new name (\<not> pl_uncertain (rn_frame v)))"
    then obtain new where new: "called v new t" "owned_removals d new name token"
        "cleaned \<Longrightarrow> confirmed_gone new name (\<not> pl_uncertain (rn_frame v))" by blast
    have own: "owned_removals d (calls @ new) name token" by (rule owned_removals_append [OF calls(2) new(2)])
    have gone: "confirmed_gone (calls @ new) name (creation_answered (calls @ new))" if cleaned
      by (rule confirmed_gone_append [OF new(3) [OF that]]) (use calls(3) in \<open>simp add: creation_answered_append\<close>)
    note t = called_fields [OF new(1)]
    show "io_wp (io_bind (ask_world (dk_cancelled d)) (\<lambda>cancelled.
          io_then (frame (\<lambda>p. p\<lparr>pl_cancelled := pl_cancelled p \<or> cancelled, pl_cleanup_failed := \<not> cleaned\<rparr>))
         (io_then (if \<not> cleaned
                   then io_modify (\<lambda>s. s\<lparr>rn_quarantined := AList.update w (name, token) (rn_quarantined s)\<rparr>)
                   else on_journal bn (journal_forget_container w))
            (io_modify (\<lambda>s. s\<lparr>rn_active := AList.update w None (rn_active s)\<rparr>)))))
        (\<lambda>_ t. accounted d bn w name token s t \<and> frame_ok (rn_frame t)) (\<lambda>_ _. False) t"
      unfolding io_wp_bind
    proof (rule io_wp_ask_world)
      fix cancelled u assume "called t [] u"
      note u = called_fields [OF this]
      show "io_wp (io_then (frame (\<lambda>p. p\<lparr>pl_cancelled := pl_cancelled p \<or> cancelled, pl_cleanup_failed := \<not> cleaned\<rparr>))
         (io_then (if \<not> cleaned
                   then io_modify (\<lambda>s. s\<lparr>rn_quarantined := AList.update w (name, token) (rn_quarantined s)\<rparr>)
                   else on_journal bn (journal_forget_container w))
            (io_modify (\<lambda>s. s\<lparr>rn_active := AList.update w None (rn_active s)\<rparr>))))
        (\<lambda>_ t. accounted d bn w name token s t \<and> frame_ok (rn_frame t)) (\<lambda>_ _. False) u"
        using t u True calls(1) journal own gone ok
        by (simp add: accounted_def frame_ok_def delete_conv)
    qed
  qed simp
  then show ?thesis unfolding finish_phase_def by (simp add: True)
qed

text \<open>The same of the phase's result.\<close>

definition phase_accounted ::
  "'f docker_host \<Rightarrow> build_runner \<Rightarrow> string \<Rightarrow> 'f runner_state \<Rightarrow> build_phase_result \<Rightarrow> 'f runner_state \<Rightarrow> bool" where
  "phase_accounted d bn w s r t \<longleftrightarrow>
     (\<exists>new name token. rn_calls t = rn_calls s @ new \<and> owned_removals d new name token
        \<and> (case ph_container_name r of
             None \<Rightarrow> (\<forall>c\<in>set new. hd (fst c) \<noteq> ''create'' \<and> hd (fst c) \<noteq> ''rm'')
               \<and> rn_quarantined t = rn_quarantined s \<and> ws_containers (rn_ws t) = ws_containers (rn_ws s)
           | Some n \<Rightarrow> n = name
               \<and> (if ph_cleanup_failed r
                  then map_of (rn_quarantined t) w = Some (name, token)
                    \<and> (bn_journal bn \<longrightarrow> map_of (ws_containers (rn_ws t)) w = Some (name, token))
                  else confirmed_gone new name (creation_answered new) \<and> rn_quarantined t = rn_quarantined s
                    \<and> (bn_journal bn \<longrightarrow> map_of (ws_containers (rn_ws t)) w = None))))"

text \<open>A result that says success has the evidence for it.\<close>

definition success_has_evidence :: "build_phase_result \<Rightarrow> bool" where
  "success_has_evidence r \<longleftrightarrow> (ph_outcome r = SUCCESS \<longrightarrow>
     ph_exit_code r = Some 0 \<and> ph_error_code r = None \<and> \<not> ph_cleanup_failed r \<and> ph_container_name r \<noteq> None)"

lemma handled_wp:
  assumes "rn_frame s = new_frame"
  shows "io_wp (io_catch (attempt_phase d h dg bn lease profile phase readonly name token) interrupted_phase)
    (\<lambda>_ v. attempted bn (le_workflow_id lease) name token s v \<and> frame_ok (rn_frame v)) (\<lambda>_ _. False) s"
  unfolding io_wp_catch
proof (rule io_wp_mono [OF attempt_phase_wp [OF assms]])
  show "attempted bn (le_workflow_id lease) name token s v \<and> frame_ok (rn_frame v)"
    if "attempt_post bn (le_workflow_id lease) name token s u v" for u v
    using that by (simp add: attempt_post_def)
  show "io_wp (interrupted_phase e)
      (\<lambda>_ v. attempted bn (le_workflow_id lease) name token s v \<and> frame_ok (rn_frame v)) (\<lambda>_ _. False) v"
    if "attempt_error bn (le_workflow_id lease) name token s e v" for e v
    using that by (auto simp: attempt_error_def interrupted_phase_def attempted_def frame_ok_def)
qed

lemma run_phase_wp:
  "io_wp (run_phase d h dg bn lease profile phase readonly)
     (\<lambda>r t. phase_accounted d bn (le_workflow_id lease) s r t \<and> success_has_evidence r \<and> ph_phase r = bp_name phase
        \<and> ph_workspace_read_only r = readonly)
     (\<lambda>_ _. False) s"
  unfolding run_phase_def Let_def io_wp_bind io_wp_then io_wp_frame io_wp_finally
proof (rule io_wp_ask_world, rule io_wp_ask_world)
  let ?w = "le_workflow_id lease"
  let ?Q = "\<lambda>r t. phase_accounted d bn ?w s r t \<and> success_has_evidence r \<and> ph_phase r = bp_name phase
        \<and> ph_workspace_read_only r = readonly"
  fix started s1 token s2
  assume s1: "called s [] s1" and s2: "called (s1\<lparr>rn_frame := new_frame\<rparr>) [] s2"
  let ?name = "''forgehand-'' @ token"
  have start: "rn_calls s2 = rn_calls s" "rn_quarantined s2 = rn_quarantined s"
      "ws_containers (rn_ws s2) = ws_containers (rn_ws s)" "rn_frame s2 = new_frame"
    using called_fields [OF s1] called_fields [OF s2] by simp_all
  have rest: "io_wp (ask_world (dk_monotonic d))
      (\<lambda>ended. io_wp (io_gets rn_frame) (\<lambda>p. io_wp (io_return
         (phase_result h bn profile phase readonly ?name (ended - started) p)) ?Q (\<lambda>_ _. False)) (\<lambda>_ _. False))
      (\<lambda>_ _. False) t"
    if t: "accounted d bn ?w ?name token s2 t" "frame_ok (rn_frame t)" for t
  proof (rule io_wp_ask_world)
    fix ended u assume "called t [] u"
    note u = called_fields [OF this]
    have "phase_accounted d bn ?w s (phase_result h bn profile phase readonly ?name (ended - started) (rn_frame u)) u"
    proof -
      obtain new where new: "rn_calls t = rn_calls s2 @ new" "owned_removals d new ?name token"
          "if \<not> pl_create_attempted (rn_frame t)
           then (\<forall>c\<in>set new. hd (fst c) \<noteq> ''create'' \<and> hd (fst c) \<noteq> ''rm'')
             \<and> rn_quarantined t = rn_quarantined s2 \<and> ws_containers (rn_ws t) = ws_containers (rn_ws s2)
           else if pl_cleanup_failed (rn_frame t)
           then map_of (rn_quarantined t) ?w = Some (?name, token)
             \<and> (bn_journal bn \<longrightarrow> map_of (ws_containers (rn_ws t)) ?w = Some (?name, token))
           else confirmed_gone new ?name (creation_answered new) \<and> rn_quarantined t = rn_quarantined s2
             \<and> (bn_journal bn \<longrightarrow> map_of (ws_containers (rn_ws t)) ?w = None)"
        using t(1) unfolding accounted_def by blast
      show ?thesis
        unfolding phase_accounted_def
        by (rule exI [of _ new], rule exI [of _ ?name], rule exI [of _ token])
           (use new u start in \<open>auto simp: phase_result_def split: if_splits\<close>)
    qed
    then show "io_wp (io_gets rn_frame) (\<lambda>p. io_wp (io_return
         (phase_result h bn profile phase readonly ?name (ended - started) p)) ?Q (\<lambda>_ _. False)) (\<lambda>_ _. False) u"
      using t(2) u by (auto simp: success_has_evidence_def phase_result_def frame_ok_def)
  qed
  show "io_wp (io_catch (attempt_phase d h dg bn lease profile phase readonly ?name token) interrupted_phase)
      (\<lambda>a. io_wp (finish_phase d bn ?w ?name token)
        (\<lambda>_. io_wp (ask_world (dk_monotonic d))
          (\<lambda>ended. io_wp (io_gets rn_frame) (\<lambda>p. io_wp (io_return
             (phase_result h bn profile phase readonly ?name (ended - started) p)) ?Q (\<lambda>_ _. False)) (\<lambda>_ _. False))
          (\<lambda>_ _. False)) (\<lambda>_ _. False))
      (\<lambda>e. io_wp (finish_phase d bn ?w ?name token) (\<lambda>_ _. False) (\<lambda>_ _. False)) s2"
  proof (rule io_wp_mono [OF handled_wp [OF start(4)]])
    fix a v assume v: "attempted bn ?w ?name token s2 v \<and> frame_ok (rn_frame v)"
    show "io_wp (finish_phase d bn ?w ?name token)
        (\<lambda>_. io_wp (ask_world (dk_monotonic d))
          (\<lambda>ended. io_wp (io_gets rn_frame) (\<lambda>p. io_wp (io_return
             (phase_result h bn profile phase readonly ?name (ended - started) p)) ?Q (\<lambda>_ _. False)) (\<lambda>_ _. False))
          (\<lambda>_ _. False)) (\<lambda>_ _. False) v"
      by (rule io_wp_mono [OF finish_phase_wp]) (use v rest in auto)
  qed simp
qed

lemma io_wp_noraise: "io_wp m Q (\<lambda>_ _. False) s \<longleftrightarrow> (\<exists>a t. m s = (Inr a, t) \<and> Q a t)"
  by (cases "m s"; cases "fst (m s)") (auto simp: io_wp_def)

text \<open>C9. A phase always ends with a result, whatever Docker answers and whenever the task is
  cancelled; if it asked for a container, then the container is confirmed gone and forgotten, or the
  phase says that the cleanup failed and the quarantine and the journal hold its name and token. It
  removes no container but its own, after seeing its token on it; and a success has its evidence.\<close>

theorem containers_are_removed_or_remembered:
  "\<exists>r t. run_phase d h dg bn lease profile phase readonly s = (Inr r, t)
     \<and> phase_accounted d bn (le_workflow_id lease) s r t \<and> success_has_evidence r"
  using run_phase_wp [of d h dg bn lease profile phase readonly s] unfolding io_wp_noraise by blast

section \<open>The quarantine\<close>

lemma reload_quarantine_pending:
  "bn_journal bn \<Longrightarrow> map_of (ws_containers (rn_ws s)) w = Some pending \<Longrightarrow>
   reload_quarantine bn w s = (Inr (), s\<lparr>rn_quarantined := AList.update w pending (rn_quarantined s)\<rparr>)"
  by (simp add: reload_quarantine_def io_modify_def)

text \<open>A container that could not be removed blocks its workflow: a run is refused before Docker is
  asked anything, and the quarantine is lifted only by a cleanup that Docker confirmed; one that
  fails, is refused or is cancelled leaves the journal's entry in place.\<close>

lemma quarantine_holds_until_removal:
  assumes "bn_journal bn" and "map_of (ws_containers (rn_ws s)) w = Some (name, token)"
    and "map_of (rn_active s) w = None" and "le_workflow_id lease = w"
  shows "(\<exists>t. run_build d h dg bn lease selection s =
        (Inr (Run_report (run_report selection INFRASTRUCTURE_ERROR [] (Some ''sandbox_cleanup_pending'') None None)), t)
        \<and> rn_calls t = rn_calls s)
   \<and> io_wp (retry_cleanup d bn w)
       (\<lambda>lifted t. \<exists>new. rn_calls t = rn_calls s @ new \<and> owned_removals d new name token
          \<and> (if lifted then confirmed_gone new name True \<and> map_of (ws_containers (rn_ws t)) w = None
               \<and> map_of (rn_quarantined t) w = None
             else map_of (ws_containers (rn_ws t)) w = Some (name, token)))
       (\<lambda>_ t. map_of (ws_containers (rn_ws t)) w = Some (name, token)) s"
proof
  note reload = reload_quarantine_pending [OF assms(1,2)]
  show "\<exists>t. run_build d h dg bn lease selection s =
        (Inr (Run_report (run_report selection INFRASTRUCTURE_ERROR [] (Some ''sandbox_cleanup_pending'') None None)), t)
        \<and> rn_calls t = rn_calls s"
    by (simp add: run_build_def assms(4) Let_def io_then_def io_bind_def reload io_gets_def io_return_def)
  let ?Q = "\<lambda>lifted t. \<exists>new. rn_calls t = rn_calls s @ new \<and> owned_removals d new name token
          \<and> (if lifted then confirmed_gone new name True \<and> map_of (ws_containers (rn_ws t)) w = None
               \<and> map_of (rn_quarantined t) w = None
             else map_of (ws_containers (rn_ws t)) w = Some (name, token))"
  let ?E = "\<lambda>_ t. map_of (ws_containers (rn_ws t)) w = Some (name, token)"
  let ?s = "s\<lparr>rn_quarantined := AList.update w (name, token) (rn_quarantined s)\<rparr>"
  have reload_wp: "io_wp (reload_quarantine bn w) Q E s = Q () ?s" for Q E
    by (simp add: io_wp_def reload)
  have "io_wp (cleanup_container d bn (docker_call d) name token True)
      (\<lambda>cleaned. io_wp (if \<not> cleaned then io_return False
          else io_then (io_modify (\<lambda>s. s\<lparr>rn_quarantined := AList.delete w (rn_quarantined s)\<rparr>))
              (io_then (on_journal bn (journal_forget_container w)) (io_return True))) ?Q ?E) ?E ?s"
  proof (rule io_wp_mono [OF cleanup_wp [OF disjI1 [OF refl]]])
    fix cleaned t
    assume "\<exists>new. called ?s new t \<and> owned_removals d new name token
        \<and> (cleaned \<longrightarrow> confirmed_gone new name True)"
    then obtain new where new: "called ?s new t" "owned_removals d new name token"
        "cleaned \<longrightarrow> confirmed_gone new name True" by blast
    then show "io_wp (if \<not> cleaned then io_return False
          else io_then (io_modify (\<lambda>s. s\<lparr>rn_quarantined := AList.delete w (rn_quarantined s)\<rparr>))
              (io_then (on_journal bn (journal_forget_container w)) (io_return True))) ?Q ?E t"
      using called_fields [OF new(1)] assms(1,2) by (simp add: delete_conv)
  next
    fix e t
    assume "docker_call d \<noteq> docker_shielded d \<and> (\<exists>new. called ?s new t \<and> owned_removals d new name token)"
    then show "?E e t" using assms(2) by (auto dest!: called_fields)
  qed
  then show "io_wp (retry_cleanup d bn w) ?Q ?E s"
    by (simp add: retry_cleanup_def reload_wp assms(3))
qed

section \<open>What a successful run proves\<close>

definition phase_passed :: "build_phase \<Rightarrow> build_phase_result \<Rightarrow> bool" where
  "phase_passed phase r \<longleftrightarrow> ph_phase r = bp_name phase \<and> ph_outcome r = SUCCESS \<and> ph_exit_code r = Some 0
     \<and> ph_error_code r = None \<and> \<not> ph_cleanup_failed r"

lemma run_phase_facts:
  "run_phase d h dg bn lease profile phase readonly s = (Inr r, t) \<Longrightarrow>
   ph_phase r = bp_name phase \<and> success_has_evidence r"
  using run_phase_wp [of d h dg bn lease profile phase readonly s] by (simp add: io_wp_def)

lemma run_phases_done:
  "run_phases d h dg bn lease profile phases results s = (Inr (rs, Loop_done), t) \<Longrightarrow>
   \<exists>new. rs = results @ new \<and> list_all2 phase_passed phases new"
proof (induction phases arbitrary: results s)
  case (Cons phase phases)
  obtain r s1 u where r: "run_phase d h dg bn lease profile phase False s1 = (Inr r, u)" "ph_outcome r = SUCCESS"
      "\<exists>v. run_phases d h dg bn lease profile phases (results @ [r]) v = (Inr (rs, Loop_done), t)"
    using Cons.prems by (auto simp: io_then_Inr io_bind_Inr split: if_splits)
  have "phase_passed phase r"
    using run_phase_facts [OF r(1)] r(2) by (simp add: phase_passed_def success_has_evidence_def)
  moreover obtain new where "rs = (results @ [r]) @ new" "list_all2 phase_passed phases new"
    using r(3) Cons.IH by blast
  ultimately show ?case by (intro exI [of _ "r # new"]) simp
qed auto

lemma io_bind_InrE:
  "io_bind m f s = (Inr b, u) \<Longrightarrow> (\<And>a t. m s = (Inr a, t) \<Longrightarrow> f a t = (Inr b, u) \<Longrightarrow> P) \<Longrightarrow> P"
  by (auto simp: io_bind_Inr)

lemma run_phases_stopped:
  "run_phases d h dg bn lease profile phases results s \<noteq> (Inr (rs, Loop_stopped SUCCESS code), t)"
  by (induction phases arbitrary: results s) (auto simp: io_then_Inr io_bind_Inr split: if_splits)

lemma run_cases_stopped:
  "run_cases d h dg bn lease profile cases results s \<noteq> (Inr (rs, Loop_stopped SUCCESS code), t)"
  by (induction cases arbitrary: results s) (auto simp: io_bind_Inr Let_def split: if_splits)

definition case_matches :: "digests \<Rightarrow> acceptance_case \<Rightarrow> acceptance_case_result \<Rightarrow> bool" where
  "case_matches dg c r \<longleftrightarrow> ac_case_id r = ca_id c \<and> ac_case_digest r = dg_case dg c \<and> ac_criterion r = ca_criterion c"

lemma run_cases_done:
  "run_cases d h dg bn lease profile cases results s = (Inr (rs, Loop_done), t) \<Longrightarrow>
   \<exists>new. rs = results @ new \<and> list_all2 (case_matches dg) cases new"
proof (induction cases arbitrary: results s)
  case (Cons c cases)
  obtain r where r: "\<exists>v. run_cases d h dg bn lease profile cases (results @ [case_result h dg c r]) v = (Inr (rs, Loop_done), t)"
    using Cons.prems by (auto simp: io_bind_Inr Let_def split: if_splits)
  then obtain new where "rs = (results @ [case_result h dg c r]) @ new" "list_all2 (case_matches dg) cases new"
    using Cons.IH by blast
  moreover have "case_matches dg c (case_result h dg c r)" by (simp add: case_matches_def case_result_def)
  ultimately show ?case by (intro exI [of _ "case_result h dg c r # new"]) simp
qed auto

lemma cases_digests:
  "list_all2 (case_matches dg) cases rs \<Longrightarrow>
   map (\<lambda>c. (ac_case_id c, ac_case_digest c)) rs = map (\<lambda>c. (ca_id c, dg_case dg c)) cases"
  by (induction rule: list_all2_induct) (simp_all add: case_matches_def)

lemma acceptance_of_verified:
  assumes "report_passed (acceptance_of dg suite selection rs)" and "list_all2 (case_matches dg) (su_cases suite) rs"
    and "\<not> acceptance_diverges dg selection (Some suite)"
    and "length (sel_acceptance_cases selection) = length (su_cases suite)"
  shows "acceptance_verified (Some (acceptance_of dg suite selection rs)) selection"
  using assms cases_digests [OF assms(2)] list_all2_lengthD [OF assms(2)]
  by (auto simp: acceptance_verified_def acceptance_diverges_def acceptance_of_def case_digests_def same_dict_map_of)

lemma profile_for_acceptance:
  "profile_for dg reg selection = Inr p \<Longrightarrow> \<not> acceptance_diverges dg selection (pf_acceptance p)"
  by (auto simp: profile_for_def split: option.splits if_splits sum.splits)

lemma scan_workspace_some:
  "scan_workspace d dg lease profile s = (Inr (Some a), t) \<Longrightarrow> \<not> architecture_failed a \<Longrightarrow>
   (case pf_architecture profile of None \<Rightarrow> a = None | Some policy \<Rightarrow> \<exists>tree r. a = Some r
      \<and> check_architecture dg (dk_posix d) tree policy = Inr r \<and> architecture_passed r)"
  by (auto simp: scan_workspace_def io_bind_Inr architecture_failed_def split: option.splits if_splits)

lemma run_acceptance_verified:
  assumes "run_acceptance d h dg bn lease selection p results architecture s = (Inr (Run_report r), t)"
    and "br_outcome r = SUCCESS" and "\<not> acceptance_diverges dg selection (pf_acceptance p)"
    and "length (sel_acceptance_cases selection)
         = (case pf_acceptance p of None \<Rightarrow> 0 | Some suite \<Rightarrow> length (su_cases suite))"
  shows "acceptance_verified (br_acceptance r) selection"
proof (cases "pf_acceptance p")
  case None
  then show ?thesis
    using assms by (auto simp: run_acceptance_def run_report_def acceptance_diverges_def acceptance_verified_def)
next
  case (Some suite)
  obtain rs ended u where ran: "run_cases d h dg bn lease p (su_cases suite) [] s = (Inr (rs, ended), u)"
      and after: "(case ended of
          Loop_cancelled \<Rightarrow> False
        | Loop_stopped outcome code \<Rightarrow> outcome = SUCCESS
        | Loop_done \<Rightarrow> report_passed (acceptance_of dg suite selection rs)
            \<and> br_acceptance r = Some (acceptance_of dg suite selection rs))"
    using assms(1,2) Some
    by (auto simp: run_acceptance_def Let_def run_report_def elim!: io_bind_InrE
        split: if_split_asm loop_end.split_asm prod.split_asm)
  have "ended = Loop_done" using after ran by (cases ended) (auto simp: run_cases_stopped)
  then have passed: "report_passed (acceptance_of dg suite selection rs)"
    and reported: "br_acceptance r = Some (acceptance_of dg suite selection rs)"
    and ran: "run_cases d h dg bn lease p (su_cases suite) [] s = (Inr (rs, Loop_done), u)"
    using ran after by auto
  then show ?thesis
    using acceptance_of_verified [OF passed] run_cases_done [OF ran] Some assms(3,4) reported by simp
qed


section \<open>A run\<close>

text \<open>A daemon for which every command works: the image declares no volumes, the container carries the
  token and exits with zero.\<close>

definition docker_sample :: "bool docker_host" where
  "docker_sample =
     \<lparr>dk_call = (\<lambda>args timeout limit f.
        (Some (no_output\<lparr>do_exit_code := Some 0,
           do_stdout := (case args of a # b # c # _ \<Rightarrow>
                 (if a = ''image'' then ''null'' else if c = ''{{json .State}}'' then ''state'' else ''labels'')
               | _ \<Rightarrow> [])\<rparr>), f)),
      dk_cancelled = (\<lambda>f. (False, f)), dk_token = (\<lambda>f. (''t'', f)), dk_monotonic = (\<lambda>f. (0, f)),
      dk_tree = (\<lambda>p f. (scan_host_sample, f)),
      dk_json = (\<lambda>t. Some (if t = ''null'' then PNone
         else if t = ''state'' then PDict [(''Running'', PBool False), (''ExitCode'', PInt 0), (''Status'', PStr ''exited'')]
         else PDict [(''forgehand.run_token'', PStr ''t'')])),
      dk_show_float = (\<lambda>r. ''1.0''), dk_user = ''1000:1000'', dk_posix = True\<rparr>"

definition runner_sample :: build_runner where
  "runner_sample =
     \<lparr>bn_registry = sample_profile_registry,
      bn_limits = \<lparr>lm_memory_mib = 2048, lm_cpus = 1, lm_pids = 256, lm_tmp_mib = 256, lm_control_timeout = 30\<rparr>,
      bn_allow_network = False, bn_redacted = [], bn_journal = True\<rparr>"

definition runner_state_sample :: "(string \<times> string \<times> string) list \<Rightarrow> bool runner_state" where
  "runner_state_sample containers =
     initial_runner runner_sample ((workspaces_sample [])\<lparr>ws_containers := containers\<rparr>)"

definition build_selection_sample :: build_profile_selection where
  "build_selection_sample = named_selection sample_digests sample_profile_registry ''py'' None Detected"

text \<open>The container is still there.\<close>

lemma quarantine_holds_until_removal_witness:
  "\<exists>t. run_build docker_sample host_sample sample_digests runner_sample (lease_for one_target)
         build_selection_sample (runner_state_sample [(''w'', ''forgehand-t'', ''t'')]) =
        (Inr (Run_report (run_report build_selection_sample INFRASTRUCTURE_ERROR []
            (Some ''sandbox_cleanup_pending'') None None)), t)"
proof -
  let ?s = "runner_state_sample [(''w'', ''forgehand-t'', ''t'')]"
  have "bn_journal runner_sample" "map_of (ws_containers (rn_ws ?s)) ''w'' = Some (''forgehand-t'', ''t'')"
      "map_of (rn_active ?s) ''w'' = None" "le_workflow_id (lease_for one_target) = ''w''"
    by (simp_all add: runner_sample_def runner_state_sample_def initial_runner_def lease_for_def)
  from quarantine_holds_until_removal [OF this] show ?thesis by blast
qed

definition ended_well :: "run_end \<Rightarrow> bool" where
  "ended_well e \<longleftrightarrow> (case e of Run_report r \<Rightarrow> br_outcome r = SUCCESS | Run_cancelled r \<Rightarrow> False)"

text \<open>What the daemon of the sample answers.\<close>

definition answer_sample :: "string list \<Rightarrow> docker_output" where
  "answer_sample args = the (fst (dk_call docker_sample args 0 0 True))"

lemma docker_sample_fields [simp]:
  "dk_call docker_sample args timeout limit f = (Some (answer_sample args), f)"
  "dk_cancelled docker_sample f = (False, f)" "dk_token docker_sample f = (''t'', f)"
  "dk_monotonic docker_sample f = (0, f)"
  by (simp_all add: answer_sample_def docker_sample_def)

lemma wp_ask_sample [simp]:
  "io_wp (ask_world g) Q E s
     = (case g (ws_fs (rn_ws s)) of (x, fs) \<Rightarrow> Q x (s\<lparr>rn_ws := (rn_ws s)\<lparr>ws_fs := fs\<rparr>\<rparr>))"
  by (simp add: io_wp_def ask_world_def split: prod.splits)

lemma same_world [simp]: "s\<lparr>rn_ws := (rn_ws s)\<lparr>ws_fs := ws_fs (rn_ws s)\<rparr>\<rparr> = s"
  by simp

lemma wp_docker_sample [simp]:
  "io_wp (docker_call docker_sample args timeout limit) Q E s
     = Q (answer_sample args) (s\<lparr>rn_calls := rn_calls s @ [(args, Some (answer_sample args))]\<rparr>)"
  "io_wp (docker_shielded docker_sample args timeout limit) Q E s
     = Q (answer_sample args) (s\<lparr>rn_calls := rn_calls s @ [(args, Some (answer_sample args))]\<rparr>)"
  by (simp_all add: docker_call_def docker_shielded_def)

lemma answers_sample [simp]:
  "succeeded (answer_sample args)" "do_exit_code (answer_sample args) = Some 0" "\<not> do_timed_out (answer_sample args)"
  by (simp_all add: answer_sample_def docker_sample_def no_output_def succeeded_def)

lemma parsed_sample [simp]:
  "dk_json docker_sample (do_stdout (answer_sample [''image'', b, c, e, n])) = Some PNone"
  "dk_json docker_sample (do_stdout (answer_sample [''inspect'', b, ''{{json .State}}'', n])) =
     Some (PDict [(''Running'', PBool False), (''ExitCode'', PInt 0), (''Status'', PStr ''exited'')])"
  "dk_json docker_sample (do_stdout (answer_sample (labels_command n))) =
     Some (PDict [(''forgehand.run_token'', PStr ''t'')])"
  by (simp_all add: answer_sample_def docker_sample_def no_output_def labels_command_def)

lemma authorize_sample:
  "\<exists>args. authorize_phase docker_sample host_sample sample_digests runner_sample (lease_for one_target)
     sample_profile sample_build_phase False ''forgehand-t'' ''t'' True = Inr (authorized_sample, args)"
proof -
  have fields: "le_local_path (lease_for one_target) = ''/w''" "bp_name sample_build_phase = TEST"
      "bn_allow_network runner_sample = False"
    by (simp_all add: lease_for_def sample_build_phase_def runner_sample_def)
  have base: "wh_resolve host_sample (path_of ''/w'') True = Path (Suc 0) [''w'']"
      "show_path (Path (Suc 0) [''w'']) = ''/w''"
      "relative_posix (Path (Suc 0) [''w'']) (Path (Suc 0) [''w'', ''src'']) = Inr ''src''" by code_simp+
  show ?thesis
    by (simp add: authorize_phase_def fields new_policy_sample validate_sample base create_args_def Let_def
        authorized_sample_def mount_separator_def)
qed

lemma state_sample [simp]:
  "exited_state (PDict [(''Running'', PBool False), (''ExitCode'', PInt 0), (''Status'', PStr ''exited'')])
   = Some (0, False)"
  by (simp add: exited_state_def pget_def)

lemma container_sample:
  "io_wp (run_container docker_sample runner_sample w command args n t)
     (\<lambda>_ u. pl_outcome (rn_frame u) = SUCCESS \<and> \<not> pl_cancelled (rn_frame u)
        \<and> \<not> pl_cleanup_failed (rn_frame u)) (\<lambda>_ _. False) s"
  if "\<not> pl_cancelled (rn_frame s)" and "\<not> pl_cleanup_failed (rn_frame s)"
  using that
  by (simp add: run_container_def control_def start_container_def judge_container_def)

lemma cleanup_sample:
  "io_wp (cleanup_container docker_sample bn (docker_shielded docker_sample) n ''t'' absence) Q E s \<longleftrightarrow>
   Q True (s\<lparr>rn_calls := rn_calls s @ [(labels_command n, Some (answer_sample (labels_command n))),
                                       (remove_command n, Some (answer_sample (remove_command n)))]\<rparr>)"
  by (simp add: cleanup_container_def control_def run_token_label_def pget_def)

lemma phase_sample_succeeds:
  assumes "ws_fs (rn_ws s)"
  shows "io_wp (run_phase docker_sample host_sample sample_digests runner_sample (lease_for one_target)
           sample_profile sample_build_phase False)
      (\<lambda>r t. ph_outcome r = SUCCESS) (\<lambda>_ _. False) s"
proof -
  obtain args where args: "authorize_phase docker_sample host_sample sample_digests runner_sample
      (lease_for one_target) sample_profile sample_build_phase False ''forgehand-t'' ''t'' True = Inr (authorized_sample, args)"
    using authorize_sample by blast
  have "io_wp (attempt_phase docker_sample host_sample sample_digests runner_sample (lease_for one_target)
           sample_profile sample_build_phase False ''forgehand-t'' ''t'')
      (\<lambda>_ u. pl_outcome (rn_frame u) = SUCCESS \<and> \<not> pl_cancelled (rn_frame u)
        \<and> \<not> pl_cleanup_failed (rn_frame u)) (\<lambda>_ _. False)
      (s\<lparr>rn_frame := new_frame\<rparr>)"
    using assms by (simp add: attempt_phase_def args control_def container_sample new_frame_def)
  then have attempt: "io_wp (attempt_phase docker_sample host_sample sample_digests runner_sample (lease_for one_target)
           sample_profile sample_build_phase False ''forgehand-t'' ''t'')
      Q E (s\<lparr>rn_frame := new_frame\<rparr>)"
    if "\<And>u. pl_outcome (rn_frame u) = SUCCESS \<Longrightarrow> \<not> pl_cancelled (rn_frame u)
        \<Longrightarrow> \<not> pl_cleanup_failed (rn_frame u) \<Longrightarrow> Q () u" for Q E
    by (rule io_wp_mono) (simp_all add: that)
  have same: "(rn_ws s)\<lparr>ws_fs := True\<rparr> = rn_ws s" using assms by (cases "rn_ws s") simp
  show ?thesis
    using assms
    by (auto simp: run_phase_def Let_def finish_phase_def cleanup_sample phase_result_def same intro!: attempt)
qed

lemma run_sample_succeeds:
  "\<exists>r t. run_build docker_sample host_sample sample_digests runner_sample (lease_for one_target)
         build_selection_sample (runner_state_sample []) = (Inr (Run_report r), t) \<and> br_outcome r = SUCCESS"
proof -
  have profile: "profile_for sample_digests (bn_registry runner_sample) build_selection_sample = Inr sample_profile"
    by code_simp
  have fields: "pf_phases sample_profile = [sample_build_phase]" "pf_architecture sample_profile = None"
      "pf_acceptance sample_profile = None" "le_state (lease_for one_target) = WS_READY"
      "le_workflow_id (lease_for one_target) = ''w''"
      "bn_journal runner_sample"
    by (simp_all add: sample_profile_def lease_for_def runner_sample_def)
  have empty: "rn_quarantined (runner_state_sample []) = []" "rn_active (runner_state_sample []) = []"
      "ws_containers (rn_ws (runner_state_sample [])) = []" "ws_fs (rn_ws (runner_state_sample []))"
    by (simp_all add: runner_state_sample_def initial_runner_def workspaces_sample_def)
  have "io_wp (run_build docker_sample host_sample sample_digests runner_sample (lease_for one_target)
         build_selection_sample) (\<lambda>e _. ended_well e) (\<lambda>_ _. False) (runner_state_sample [])"
    by (simp add: run_build_def Let_def fields reload_quarantine_def profile run_profile_def empty
        scan_workspace_def architecture_failed_def run_acceptance_def)
      (rule io_wp_mono [OF phase_sample_succeeds], simp_all add: empty run_report_def
        ended_well_def run_acceptance_def journal_record_phase_def fields)
  then obtain e t where "run_build docker_sample host_sample sample_digests runner_sample (lease_for one_target)
         build_selection_sample (runner_state_sample []) = (Inr e, t)" "ended_well e"
    unfolding io_wp_noraise by blast
  then show ?thesis by (cases e) (auto simp: ended_well_def)
qed


end
