(* ===== verification/Service_Runtime.thy ===== *)
theory Service_Runtime imports Workflow_Service Sandbox begin

text \<open>
  The running side of the service (\<open>app/api/service.py\<close>): what a worker does with a delivered job
  and with its outcome, the race between a job and its lease, cancellation, and the reconciliation
  of workspaces.

  The graph runtime, the queue and the event publisher are parameters that answer with a value or
  an exception, a cancellation included, and may do anything to the outside world; running the
  graph may do anything to the runner and the journal as well. What the service asks of them is
  recorded in a trace.
\<close>

section \<open>The service and what it talks to\<close>

datatype race =
    Job_first "exc option"
  | Lease_first exc
  | Shutdown "exc option"

record 'f service_host =
  vh_snapshot :: "string \<Rightarrow> 'f \<Rightarrow> graph_snapshot result \<times> 'f"
  vh_saved :: "string \<Rightarrow> 'f \<Rightarrow> pending_writes option result \<times> 'f"
  vh_graph :: "string \<Rightarrow> graph_input \<Rightarrow> ('f runner_state, unit) io"
  vh_update :: "string \<Rightarrow> state_update \<Rightarrow> 'f \<Rightarrow> unit result \<times> 'f"
  vh_touch_worker :: "string \<Rightarrow> 'f \<Rightarrow> unit result \<times> 'f"
  vh_dequeue :: "string \<Rightarrow> 'f \<Rightarrow> workflow_job option result \<times> 'f"
  vh_acknowledge :: "workflow_job \<Rightarrow> 'f \<Rightarrow> bool result \<times> 'f"
  vh_fail :: "workflow_job \<Rightarrow> string \<Rightarrow> 'f \<Rightarrow> bool result \<times> 'f"
  vh_cancel :: "string \<Rightarrow> 'f \<Rightarrow> unit result \<times> 'f"
  vh_job_state :: "string \<Rightarrow> 'f \<Rightarrow> workflow_job_state option result \<times> 'f"
  vh_publish :: "string \<Rightarrow> string \<Rightarrow> 'f \<Rightarrow> unit result \<times> 'f"
  vh_subscribe :: "string \<Rightarrow> int \<Rightarrow> string \<Rightarrow> 'f \<Rightarrow> unit result \<times> 'f"
  vh_audit :: "string \<Rightarrow> string \<Rightarrow> 'f \<Rightarrow> unit result \<times> 'f"
  vh_race :: "'f \<Rightarrow> (race \<times> string list) \<times> 'f"
  vh_join :: "string \<Rightarrow> 'f \<Rightarrow> unit result \<times> 'f"
  vh_docker :: "'f docker_host"
  vh_ws :: "'f workspace_host"
  vh_database_down :: "exc \<Rightarrow> bool"
  vh_provider_error :: "exc \<Rightarrow> bool"
  vh_status_code :: "exc \<Rightarrow> int option"
  vh_cause :: "exc \<Rightarrow> string"

record workflow_service =
  vs_manager :: "workspace_manager option"
  vs_runner :: "build_runner option"
  vs_publisher :: bool
  vs_superagent :: bool
  vs_audit :: bool
  vs_poll_interval :: rat
  vs_success_retention :: int
  vs_failure_retention :: int

datatype service_effect =
    Invoked_graph string graph_input bool
  | Updated_graph string state_update
  | Acknowledged workflow_job
  | Failed_job workflow_job string
  | Cancelled_jobs string
  | Published string string
  | Saw_job string "workflow_job_state option"
  | Saw_graph string graph_snapshot
  | Cleaned workspace_lease
  | Slept rat

record 'f service_state =
  sv_runner :: "'f runner_state"
  sv_running :: "(string, string) pydict"
  sv_failures :: "(string, string) pydict"
  sv_invocations :: "string list"
  sv_cancel_requested :: "string list"
  sv_retry_delay :: rat
  sv_trace :: "service_effect list"

definition workflow_lease_lost :: "string \<Rightarrow> exc" where
  "workflow_lease_lost w = Exc (OtherError ''WorkflowLeaseLost'') w"

definition workflow_cancelled :: "string \<Rightarrow> exc" where
  "workflow_cancelled w = Exc (OtherError ''WorkflowCancelled'') w"

definition workflow_already_terminal :: "string \<Rightarrow> exc" where
  "workflow_already_terminal w = Exc (OtherError ''WorkflowAlreadyTerminal'') w"

text \<open>A step of the runner, of the journal, of the outside world, and a recorded one.\<close>

definition on_runner :: "('f runner_state, 'a) io \<Rightarrow> ('f service_state, 'a) io" where
  "on_runner m s = (case m (sv_runner s) of (r, t) \<Rightarrow> (r, s\<lparr>sv_runner := t\<rparr>))"

definition on_workspace :: "('f workspace_state, 'a) io \<Rightarrow> ('f service_state, 'a) io" where
  "on_workspace m = on_runner (\<lambda>s. case m (rn_ws s) of (r, t) \<Rightarrow> (r, s\<lparr>rn_ws := t\<rparr>))"

definition ask_service :: "('f \<Rightarrow> 'a \<times> 'f) \<Rightarrow> ('f service_state, 'a) io" where
  "ask_service f = on_runner (ask_world f)"

definition ask_or_raise :: "('f \<Rightarrow> 'a result \<times> 'f) \<Rightarrow> ('f service_state, 'a) io" where
  "ask_or_raise f = io_bind (ask_service f) io_lift"

definition record_effect :: "service_effect \<Rightarrow> ('f service_state, unit) io" where
  "record_effect x = io_modify (\<lambda>s. s\<lparr>sv_trace := sv_trace s @ [x]\<rparr>)"

definition publish_event ::
  "'f service_host \<Rightarrow> workflow_service \<Rightarrow> string \<Rightarrow> string \<Rightarrow> ('f service_state, unit) io" where
  "publish_event v c event w =
     io_when (vs_publisher c) (io_then (record_effect (Published event w)) (ask_or_raise (vh_publish v event w)))"

definition see_graph :: "'f service_host \<Rightarrow> string \<Rightarrow> ('f service_state, graph_snapshot) io" where
  "see_graph v w =
     io_bind (ask_or_raise (vh_snapshot v w)) (\<lambda>sn. io_then (record_effect (Saw_graph w sn)) (io_return sn))"

definition see_job :: "'f service_host \<Rightarrow> string \<Rightarrow> ('f service_state, workflow_job_state option) io" where
  "see_job v w =
     io_bind (ask_or_raise (vh_job_state v w)) (\<lambda>js. io_then (record_effect (Saw_job w js)) (io_return js))"

definition update_graph :: "'f service_host \<Rightarrow> string \<Rightarrow> state_update \<Rightarrow> ('f service_state, unit) io" where
  "update_graph v w u = io_then (record_effect (Updated_graph w u)) (ask_or_raise (vh_update v w u))"

text \<open>\<open>with journal.exclusive(workflow_id)\<close>, not reentrant.\<close>

definition with_workspace ::
  "'f service_host \<Rightarrow> string \<Rightarrow> ('f service_state, 'a) io \<Rightarrow> ('f service_state, 'a) io" where
  "with_workspace v w body s =
     (let ws = rn_ws (sv_runner s) in
      if \<not> wh_lock_free (vh_ws v) w (ws_fs ws) then (Inl (workspace_busy w), s)
      else case body (s\<lparr>sv_runner := (sv_runner s)\<lparr>rn_ws := ws\<lparr>ws_lock_owner := Some w\<rparr>\<rparr>\<rparr>) of
             (r, t) \<Rightarrow> (r, t\<lparr>sv_runner := (sv_runner t)\<lparr>rn_ws :=
                           (rn_ws (sv_runner t))\<lparr>ws_lock_owner := ws_lock_owner ws\<rparr>\<rparr>\<rparr>))"

section \<open>Running a job\<close>

text \<open>Which of its reads \<open>_job_invocation\<close> makes.\<close>

definition job_envelope :: "workflow_job \<Rightarrow> resume_envelope option" where
  "job_envelope job = Option.bind (as_dict (wj_payload job)) parse_envelope"

definition reads_snapshot :: "workflow_job \<Rightarrow> bool" where
  "reads_snapshot job \<longleftrightarrow>
     (if wj_kind job = J_START then wj_attempt_count job > 1
      else if as_dict (wj_payload job) \<noteq> None then job_envelope job \<noteq> None
      else (case as_str (wj_payload job) of None \<Rightarrow> False | Some s \<Rightarrow> strip s \<noteq> [] \<and> wj_attempt_count job > 1))"

definition reads_positions :: "workflow_job \<Rightarrow> graph_snapshot \<Rightarrow> bool" where
  "reads_positions job sn \<longleftrightarrow>
     wj_kind job = J_RESUME \<and> snapshot_exists sn \<and> sn_checkpoint_id sn \<notin> {None, Some []}
     \<and> (case job_envelope job of
          None \<Rightarrow> False
        | Some en \<Rightarrow> en_version en = 2 \<and> (\<exists>i\<in>set (en_ids en). i \<in> set (snapshot_interrupts sn)))"

definition no_snapshot :: graph_snapshot where
  "no_snapshot = \<lparr>sn_created = False, sn_values = None, sn_has_phase = False, sn_interrupts = [],
     sn_tasks = [], sn_next = [], sn_checkpoint_id = None\<rparr>"

definition find_invocation ::
  "'f service_host \<Rightarrow> workflow_job \<Rightarrow> ('f service_state, bool \<times> graph_input) io" where
  "find_invocation v job =
     io_bind (if reads_snapshot job then see_graph v (wj_workflow_id job) else io_return no_snapshot) (\<lambda>sn.
     io_bind (if reads_positions job sn then ask_or_raise (vh_saved v (wj_workflow_id job)) else io_return None)
       (\<lambda>saved. io_lift (job_invocation job sn saved)))"

text \<open>The decision a resume job carries.\<close>

definition is_retry :: "workflow_job \<Rightarrow> bool" where
  "is_retry job \<longleftrightarrow>
     (case as_dict (wj_payload job) of
        Some d \<Rightarrow> pget d ''resume_version'' \<in> {PInt 1, PInt 2} \<and> pget d ''decision'' = PStr ''retry''
      | None \<Rightarrow> wj_payload job = PStr ''retry'')"

definition revive_workspace ::
  "'f service_host \<Rightarrow> workflow_service \<Rightarrow> workflow_job \<Rightarrow> ('f service_state, unit) io" where
  "revive_workspace v c job =
     (case vs_manager c of
        None \<Rightarrow> io_return ()
      | Some m \<Rightarrow> io_when (wj_kind job = J_RESUME \<and> is_retry job)
         (io_bind (on_workspace (io_gets (journal_get (wj_workflow_id job)))) (\<lambda>retained. case retained of
            None \<Rightarrow> io_return ()
          | Some lease \<Rightarrow>
              if lease_released (Some lease) then io_raise expired_workspace
              else io_when (le_state lease = WS_RETAINED)
                (io_bind (on_workspace (reconstruct (vh_ws v) m lease)) (\<lambda>_.
                 io_bind (on_workspace (transition (vh_ws v) lease WS_ACTIVE
                            (\<lambda>l. l\<lparr>le_retention := \<lparr>re_retain_until = None, re_reason = None\<rparr>\<rparr>)))
                   (\<lambda>_. io_return ()))))))"

definition sandbox_is_clean ::
  "'f service_host \<Rightarrow> workflow_service \<Rightarrow> string \<Rightarrow> ('f service_state, bool) io" where
  "sandbox_is_clean v c w =
     (case vs_runner c of None \<Rightarrow> io_return True | Some bn \<Rightarrow> on_runner (retry_cleanup (vh_docker v) bn w))"

definition invoke_graph ::
  "'f service_host \<Rightarrow> string \<Rightarrow> graph_input \<Rightarrow> ('f service_state, unit) io" where
  "invoke_graph v w input =
     io_bind (io_try (on_runner (vh_graph v w input))) (\<lambda>r.
       io_then (record_effect (Invoked_graph w input (r = Inr ()))) (io_lift r))"

text \<open>The body of the \<open>with\<close> block, and whether it ran the graph.\<close>

definition run_graph_for ::
  "'f service_host \<Rightarrow> workflow_service \<Rightarrow> workflow_job \<Rightarrow> ('f service_state, bool) io" where
  "run_graph_for v c job =
     io_bind (find_invocation v job) (\<lambda>(should_invoke, input).
       if \<not> should_invoke then io_return False
       else io_then (revive_workspace v c job)
           (io_bind (if vs_manager c = None then io_return True else sandbox_is_clean v c (wj_workflow_id job))
              (\<lambda>clean. io_then (io_guard clean (workspace_busy ''sandbox_cleanup_pending''))
                (io_then (invoke_graph v (wj_workflow_id job) input) (io_return True)))))"

text \<open>\<open>_auto_subscribe_published_pr\<close>; its \<open>except Exception\<close> lets a cancellation through.\<close>

definition published_pull_request :: "graph_snapshot \<Rightarrow> (string \<times> int) option" where
  "published_pull_request sn =
     (case sn_values sn of
        None \<Rightarrow> None
      | Some s \<Rightarrow>
          let number = Option.bind (w_delivery_result s) dr_pull_request_number;
              configured = (case w_delivery s of None \<Rightarrow> [] | Some d \<Rightarrow> dc_repository d);
              ordered = (case w_work_order s of None \<Rightarrow> [] | Some o' \<Rightarrow> rt_full_name (wo_repository o'));
              repository = (if configured \<noteq> [] then configured else ordered)
          in (case number of
                Some n \<Rightarrow> if n > 0 \<and> repository \<noteq> [] then Some (repository, n) else None
              | None \<Rightarrow> None))"

definition auto_subscribe ::
  "'f service_host \<Rightarrow> workflow_service \<Rightarrow> workflow_job \<Rightarrow> ('f service_state, unit) io" where
  "auto_subscribe v c job =
     io_when (vs_superagent c)
       (io_catch
          (io_bind (see_graph v (wj_workflow_id job)) (\<lambda>sn.
             case published_pull_request sn of
               None \<Rightarrow> io_return ()
             | Some (repository, n) \<Rightarrow> ask_or_raise (vh_subscribe v repository n (wj_workflow_id job))))
          (\<lambda>e. if exc_kind e = CancelledError then io_raise e else io_return ()))"

definition invoke_job ::
  "'f service_host \<Rightarrow> workflow_service \<Rightarrow> workflow_job \<Rightarrow> ('f service_state, unit) io" where
  "invoke_job v c job =
     io_bind (if vs_manager c = None then run_graph_for v c job
              else with_workspace v (wj_workflow_id job) (run_graph_for v c job)) (\<lambda>invoked.
       io_when invoked (auto_subscribe v c job))"

text \<open>The job against its lease. The heartbeat only ends by raising: when the lease is lost or the
  queue fails. A side that is cancelled is heard only if it raises something else.\<close>

definition is_cancellation :: "exc \<Rightarrow> bool" where
  "is_cancellation e \<longleftrightarrow> exc_kind e = CancelledError"

definition heard :: "exc option \<Rightarrow> exc option" where
  "heard x = (case x of None \<Rightarrow> None | Some e \<Rightarrow> if is_cancellation e then None else Some e)"

definition failure_of :: "unit result \<Rightarrow> exc option" where
  "failure_of r = (case r of Inl e \<Rightarrow> Some e | Inr _ \<Rightarrow> None)"

definition race_result :: "race \<Rightarrow> unit result \<Rightarrow> bool \<Rightarrow> string \<Rightarrow> unit result" where
  "race_result outcome r requested w =
     (case outcome of
        Job_first heartbeat \<Rightarrow>
          (case heard heartbeat of
             Some e \<Rightarrow> Inl e
           | None \<Rightarrow> (case r of Inr _ \<Rightarrow> Inr ()
                      | Inl e \<Rightarrow> Inl (if is_cancellation e \<and> requested then workflow_cancelled w else e)))
      | Lease_first e \<Rightarrow> Inl (case heard (failure_of r) of Some e' \<Rightarrow> e' | None \<Rightarrow> e)
      | Shutdown heartbeat \<Rightarrow>
          Inl (case heard (failure_of r) of
                 Some e \<Rightarrow> e
               | None \<Rightarrow> (case heard heartbeat of Some e \<Rightarrow> e | None \<Rightarrow> cancelled_error)))"

text \<open>The world also says which cancellations were requested while the job ran.\<close>

definition run_job_with_heartbeat ::
  "'f service_host \<Rightarrow> workflow_service \<Rightarrow> workflow_job \<Rightarrow> ('f service_state, unit) io" where
  "run_job_with_heartbeat v c job =
     (let w = wj_workflow_id job in
      io_then (io_modify (\<lambda>s. s\<lparr>sv_invocations := List.insert w (sv_invocations s)\<rparr>))
        (io_finally
           (io_bind (io_try (invoke_job v c job)) (\<lambda>r.
            io_bind (ask_service (vh_race v)) (\<lambda>(outcome, requested).
            io_then (io_modify (\<lambda>s. s\<lparr>sv_cancel_requested := sv_cancel_requested s @ requested\<rparr>))
           (io_bind (io_gets (\<lambda>s. w \<in> set (sv_cancel_requested s))) (\<lambda>was_requested.
              io_lift (race_result outcome r was_requested w))))))
           (io_modify (\<lambda>s. s\<lparr>sv_invocations := remove1 w (sv_invocations s),
                              sv_cancel_requested := removeAll w (sv_cancel_requested s)\<rparr>))))"

section \<open>What the worker does with the outcome\<close>

text \<open>The label of a failure: the type, and for a provider's error the status or the network error
  that caused it; never the message.\<close>

definition network_errors :: "string list" where
  "network_errors = [''ReadTimeout'', ''WriteTimeout'', ''ConnectTimeout'', ''PoolTimeout'',
     ''ConnectError'', ''ReadError'', ''WriteError'', ''RemoteProtocolError'']"

definition error_label :: "'f service_host \<Rightarrow> exc \<Rightarrow> string" where
  "error_label v e =
     exc_type_name (exc_kind e)
     @ (if \<not> vh_provider_error v e then []
        else case vh_status_code v e of
               Some n \<Rightarrow> if 400 \<le> n \<and> n \<le> 599 then '':HTTP'' @ show_int n
                         else if vh_cause v e \<in> set network_errors then '':'' @ vh_cause v e else []
             | None \<Rightarrow> if vh_cause v e \<in> set network_errors then '':'' @ vh_cause v e else [])"

definition failed_update :: "string \<Rightarrow> state_update" where
  "failed_update error =
     no_update\<lparr>u_phase := Some PH_FAILED,
       u_final_output := Some (Some ''Workflow falhou durante a execucao.''), u_error := Some (Some error)\<rparr>"

definition mark_failed ::
  "'f service_host \<Rightarrow> string \<Rightarrow> exc \<Rightarrow> ('f service_state, unit) io" where
  "mark_failed v w e =
     io_then (io_modify (\<lambda>s. s\<lparr>sv_failures := AList.update w (error_label v e) (sv_failures s)\<rparr>))
       (io_catch (update_graph v w (failed_update (error_label v e)))
          (\<lambda>e. if is_cancellation e then io_raise e else io_return ()))"

definition fail_job :: "'f service_host \<Rightarrow> workflow_job \<Rightarrow> string \<Rightarrow> ('f service_state, unit) io" where
  "fail_job v job why =
     io_then (record_effect (Failed_job job why)) (io_bind (ask_or_raise (vh_fail v job why)) (\<lambda>_. io_return ()))"

definition acknowledge_job :: "'f service_host \<Rightarrow> workflow_job \<Rightarrow> ('f service_state, unit) io" where
  "acknowledge_job v job =
     io_then (record_effect (Acknowledged job)) (io_bind (ask_or_raise (vh_acknowledge v job)) (\<lambda>_. io_return ()))"

text \<open>The \<open>except\<close> clauses, in order.\<close>

definition handle_failure ::
  "'f service_host \<Rightarrow> workflow_service \<Rightarrow> workflow_job \<Rightarrow> exc \<Rightarrow> ('f service_state, unit) io" where
  "handle_failure v c job e =
     (let w = wj_workflow_id job in
      if is_cancellation e then io_raise e
      else if exc_kind e = OtherError ''WorkflowLeaseLost'' then io_return ()
      else if exc_kind e = OtherError ''WorkflowResumeUncertain''
      then io_then (fail_job v job ''resume_decision_unbound'') (publish_event v c ''workflow.resume_blocked'' w)
      else if exc_kind e = OtherError ''WorkflowCancelled'' then publish_event v c ''workflow.cancelled'' w
      else if vh_database_down v e then io_raise e
      else io_then (mark_failed v w e)
          (io_then (fail_job v job (exc_type_name (exc_kind e))) (publish_event v c ''workflow.failed'' w)))"

definition settle_job ::
  "'f service_host \<Rightarrow> workflow_service \<Rightarrow> workflow_job \<Rightarrow> unit result \<Rightarrow> ('f service_state, unit) io" where
  "settle_job v c job r =
     (case r of
        Inl e \<Rightarrow> handle_failure v c job e
      | Inr _ \<Rightarrow>
          io_then (io_modify (\<lambda>s. s\<lparr>sv_failures := AList.delete (wj_workflow_id job) (sv_failures s)\<rparr>))
            (publish_event v c ''workflow.processed'' (wj_workflow_id job)))"

definition deliver_job ::
  "'f service_host \<Rightarrow> workflow_service \<Rightarrow> string \<Rightarrow> workflow_job \<Rightarrow> ('f service_state, unit) io" where
  "deliver_job v c worker job =
     (let w = wj_workflow_id job in
      io_then (io_modify (\<lambda>s. s\<lparr>sv_running := AList.update w worker (sv_running s)\<rparr>))
        (io_bind (io_try (run_job_with_heartbeat v c job)) (\<lambda>r.
           io_finally (settle_job v c job r)
             (io_then (io_modify (\<lambda>s. s\<lparr>sv_running := AList.delete w (sv_running s)\<rparr>))
                (io_when (r = Inr ()) (acknowledge_job v job))))))"

text \<open>One round of \<open>_worker_loop\<close>; the delay before the next attempt is kept in the state.\<close>

definition base_delay :: "workflow_service \<Rightarrow> rat" where
  "base_delay c = max (vs_poll_interval c) (1 / 10)"

definition worker_round ::
  "'f service_host \<Rightarrow> workflow_service \<Rightarrow> string \<Rightarrow> ('f service_state, unit) io" where
  "worker_round v c worker =
     io_catch
       (io_then (ask_or_raise (vh_touch_worker v worker))
       (io_bind (ask_or_raise (vh_dequeue v worker)) (\<lambda>job.
        io_then (io_modify (\<lambda>s. s\<lparr>sv_retry_delay := base_delay c\<rparr>))
          (case job of None \<Rightarrow> io_return () | Some j \<Rightarrow> deliver_job v c worker j))))
       (\<lambda>e. if is_cancellation e \<or> \<not> vh_database_down v e then io_raise e
            else io_bind (io_gets sv_retry_delay) (\<lambda>delay.
                 io_then (record_effect (Slept delay))
                   (io_modify (\<lambda>s. s\<lparr>sv_retry_delay := min (delay * 2) 5\<rparr>))))"

primrec worker_rounds ::
  "'f service_host \<Rightarrow> workflow_service \<Rightarrow> string \<Rightarrow> nat \<Rightarrow> ('f service_state, unit) io" where
  "worker_rounds v c worker 0 = io_return ()"
| "worker_rounds v c worker (Suc n) = io_then (worker_round v c worker) (worker_rounds v c worker n)"

section \<open>Cancellation\<close>

definition terminal_phases :: "workflow_phase set" where
  "terminal_phases = {PH_COMPLETED, PH_READY_FOR_HUMAN_REVIEW, PH_FAILED, PH_CANCELLED}"

text \<open>The phase \<open>get\<close> reports: of the checkpoint, or of the job that has none yet.\<close>

definition reported_phase ::
  "string \<Rightarrow> graph_snapshot \<Rightarrow> workflow_job_state option \<Rightarrow> workflow_phase result" where
  "reported_phase w sn pending =
     (case (sn_values sn, pending) of
        (None, None) \<Rightarrow> Inl (workflow_not_found w)
      | (None, Some p) \<Rightarrow> Inr (pr_phase (to_pending_response p))
      | (Some s, _) \<Rightarrow>
          if sn_has_phase sn then Inr (w_phase s)
          else (case pending of Some p \<Rightarrow> Inr (pr_phase (to_pending_response p)) | None \<Rightarrow> Inr PH_LOADING_CONTEXT))"

definition cancelled_task :: "timestamp \<Rightarrow> agent_task \<Rightarrow> agent_task" where
  "cancelled_task now t = t\<lparr>t_status := CANCELLED, t_updated_at := now\<rparr>"

definition cancel_update :: "timestamp \<Rightarrow> agent_task list \<Rightarrow> state_update" where
  "cancel_update now plan =
     no_update\<lparr>u_phase := Some PH_CANCELLED,
       u_plan := Some (map (cancelled_task now) (filter (\<lambda>t. t_status t \<noteq> COMPLETED) plan)),
       u_final_output := Some (Some ''Workflow cancelado pelo operador.''),
       u_error := Some (Some ''WorkflowCancelled'')\<rparr>"

text \<open>A cancellation stops the invocation that runs in this process, and waits for it.\<close>

definition stop_invocation :: "'f service_host \<Rightarrow> string \<Rightarrow> ('f service_state, unit) io" where
  "stop_invocation v w =
     io_bind (io_gets (\<lambda>s. w \<in> set (sv_invocations s))) (\<lambda>runs. io_when runs
       (io_then (io_modify (\<lambda>s. s\<lparr>sv_cancel_requested := List.insert w (sv_cancel_requested s)\<rparr>))
          (io_catch (ask_or_raise (vh_join v w))
             (\<lambda>e. if is_cancellation e then io_return () else io_raise e))))"

definition cancel_workflow :: "'f service_host \<Rightarrow> string \<Rightarrow> ('f service_state, unit) io" where
  "cancel_workflow v w =
     io_bind (see_graph v w) (\<lambda>sn0.
     io_bind (see_job v w) (\<lambda>pending.
     io_bind (io_lift (reported_phase w sn0 pending)) (\<lambda>phase.
     io_then (io_guard (phase \<notin> terminal_phases) (workflow_already_terminal w))
    (io_then (record_effect (Cancelled_jobs w))
    (io_then (ask_or_raise (vh_cancel v w))
    (io_then (stop_invocation v w)
    (io_bind (see_graph v w) (\<lambda>sn. case sn_values sn of
         None \<Rightarrow> io_return ()
       | Some s \<Rightarrow>
           io_bind (ask_service (wh_now (vh_ws v))) (\<lambda>now.
             update_graph v w (cancel_update now (w_plan s)))))))))))"

section \<open>Reconciliation of workspaces\<close>

primrec workflow_phase_value :: "workflow_phase \<Rightarrow> string" where
  "workflow_phase_value PH_QUEUED = ''queued''"
| "workflow_phase_value PH_LOADING_CONTEXT = ''loading_context''"
| "workflow_phase_value PH_UNSUPPORTED_BUILD_STRATEGY = ''unsupported_build_strategy''"
| "workflow_phase_value PH_PLANNING = ''planning''"
| "workflow_phase_value PH_EXECUTING = ''executing''"
| "workflow_phase_value PH_EVALUATING = ''evaluating''"
| "workflow_phase_value PH_REPLANNING = ''replanning''"
| "workflow_phase_value PH_AWAITING_HUMAN = ''awaiting_human''"
| "workflow_phase_value PH_SYNTHESIZING = ''synthesizing''"
| "workflow_phase_value PH_DELIVERING = ''delivering''"
| "workflow_phase_value PH_PERSISTING = ''persisting''"
| "workflow_phase_value PH_COMPLETED = ''completed''"
| "workflow_phase_value PH_READY_FOR_HUMAN_REVIEW = ''ready_for_human_review''"
| "workflow_phase_value PH_FAILED = ''failed''"
| "workflow_phase_value PH_CANCELLED = ''cancelled''"

definition job_live :: "workflow_job_state option \<Rightarrow> bool" where
  "job_live js \<longleftrightarrow> (case js of None \<Rightarrow> False | Some j \<Rightarrow> js_status j \<in> {JS_QUEUED, JS_PROCESSING})"

definition job_failed :: "workflow_job_state option \<Rightarrow> bool" where
  "job_failed js \<longleftrightarrow> (case js of None \<Rightarrow> False | Some j \<Rightarrow> js_status j = JS_FAILED)"

definition snapshot_phase :: "graph_snapshot \<Rightarrow> workflow_phase" where
  "snapshot_phase sn =
     (case sn_values sn of None \<Rightarrow> PH_FAILED | Some s \<Rightarrow> if sn_has_phase sn then w_phase s else PH_FAILED)"

text \<open>Whether the workflow is done with its workspace, for now.\<close>

definition may_release :: "workflow_job_state option \<Rightarrow> graph_snapshot \<Rightarrow> bool" where
  "may_release js sn \<longleftrightarrow>
     snapshot_phase sn \<in> terminal_phases \<or> sn_interrupts sn \<noteq> [] \<or> job_failed js"

definition retention_seconds :: "workflow_service \<Rightarrow> workflow_phase \<Rightarrow> int" where
  "retention_seconds c phase =
     (if phase \<in> {PH_COMPLETED, PH_READY_FOR_HUMAN_REVIEW} then vs_success_retention c
      else vs_failure_retention c)"

definition clean_workspace ::
  "'f service_host \<Rightarrow> workflow_service \<Rightarrow> workspace_manager \<Rightarrow> graph_snapshot \<Rightarrow> workspace_lease
   \<Rightarrow> ('f service_state, unit) io" where
  "clean_workspace v c m sn lease =
     (let w = le_workflow_id lease; phase = snapshot_phase sn in
      io_bind (if re_retain_until (le_retention lease) = None
               then on_workspace (retain (vh_ws v) lease (retention_seconds c phase) (workflow_phase_value phase))
               else io_return lease) (\<lambda>held.
      io_then (record_effect (Cleaned held))
     (io_bind (on_workspace (cleanup (vh_ws v) m held)) (\<lambda>cleaned.
      io_then (io_when (sn_values sn \<noteq> None \<and> sn_interrupts sn = [])
                 (update_graph v w (no_update\<lparr>u_workspace := Some (Some cleaned)\<rparr>)))
        (io_when (vs_audit c \<and> le_state cleaned \<noteq> le_state held)
           (ask_or_raise (vh_audit v ''workspace_lifecycle'' w)))))))"

definition reconcile_locked ::
  "'f service_host \<Rightarrow> workflow_service \<Rightarrow> workspace_manager \<Rightarrow> graph_snapshot \<Rightarrow> workspace_lease
   \<Rightarrow> ('f service_state, unit) io" where
  "reconcile_locked v c m sn lease =
     io_bind (see_job v (le_workflow_id lease)) (\<lambda>current.
       if job_live current then io_return ()
       else io_bind (sandbox_is_clean v c (le_workflow_id lease)) (\<lambda>clean.
            if \<not> clean
            then io_bind (on_workspace (transition (vh_ws v) lease WS_FAILED
                            (\<lambda>l. l\<lparr>le_failure_reason := Some ''sandbox_cleanup_pending''\<rparr>))) (\<lambda>_. io_return ())
            else clean_workspace v c m sn lease))"

definition reconcile_lease ::
  "'f service_host \<Rightarrow> workflow_service \<Rightarrow> workspace_manager \<Rightarrow> workspace_lease \<Rightarrow> ('f service_state, unit) io" where
  "reconcile_lease v c m lease =
     (let w = le_workflow_id lease in
      if le_state lease = WS_RELEASED then io_return ()
      else io_bind (see_job v w) (\<lambda>queued.
        if job_live queued then io_return ()
        else io_bind (see_graph v w) (\<lambda>sn.
          if \<not> may_release queued sn then io_return ()
          else io_catch (with_workspace v w (reconcile_locked v c m sn lease))
                 (\<lambda>e. if exc_kind e = OtherError ''WorkspaceBusy'' then io_return () else io_raise e))))"

definition reconcile_workspaces ::
  "'f service_host \<Rightarrow> workflow_service \<Rightarrow> ('f service_state, unit) io" where
  "reconcile_workspaces v c =
     (case vs_manager c of
        None \<Rightarrow> io_return ()
      | Some m \<Rightarrow> io_bind (on_workspace (io_gets journal_leases)) (io_each (reconcile_lease v c m)))"

section \<open>What computations record\<close>

text \<open>Everything a computation records satisfies a predicate.\<close>

definition traces :: "(service_effect \<Rightarrow> bool) \<Rightarrow> ('f service_state, 'a) io \<Rightarrow> bool" where
  "traces P m \<longleftrightarrow> (\<forall>s. \<exists>new. sv_trace (snd (m s)) = sv_trace s @ new \<and> (\<forall>x\<in>set new. P x))"

named_theorems traces_intros \<open>what the combinators record\<close>

lemma tracesI: "(\<And>s. \<exists>new. sv_trace (snd (m s)) = sv_trace s @ new \<and> (\<forall>x\<in>set new. P x)) \<Longrightarrow> traces P m"
  by (simp add: traces_def)

lemma tracesD: "traces P m \<Longrightarrow> m s = (r, t) \<Longrightarrow> \<exists>new. sv_trace t = sv_trace s @ new \<and> (\<forall>x\<in>set new. P x)"
  by (metis snd_conv traces_def)

lemma silent: "(\<And>s. sv_trace (snd (m s)) = sv_trace s) \<Longrightarrow> traces P m"
  by (auto intro!: tracesI exI [of _ "[]"])

lemma traces_return [traces_intros]: "traces P (io_return x)"
  by (rule silent) (simp add: io_return_def)

lemma traces_raise [traces_intros]: "traces P (io_raise e)"
  by (rule silent) (simp add: io_raise_def)

lemma traces_gets [traces_intros]: "traces P (io_gets f)"
  by (rule silent) (simp add: io_gets_def)

lemma traces_lift [traces_intros]: "traces P (io_lift r)"
  by (rule silent) (simp add: io_lift_def io_return_def io_raise_def split: sum.split)

lemma traces_guard [traces_intros]: "traces P (io_guard b e)"
  by (rule silent) (simp add: io_guard_def io_return_def io_raise_def)

lemma traces_modify: "(\<And>s. sv_trace (f s) = sv_trace s) \<Longrightarrow> traces P (io_modify f)"
  by (rule silent) (simp add: io_modify_def)

lemma traces_runner [traces_intros]: "traces P (on_runner m)"
  by (rule silent) (simp add: on_runner_def split: prod.split)

lemma traces_workspace [traces_intros]: "traces P (on_workspace m)"
  unfolding on_workspace_def by (rule traces_runner)

lemma traces_ask [traces_intros]: "traces P (ask_service f)"
  unfolding ask_service_def by (rule traces_runner)

lemma traces_record [traces_intros]: "P x \<Longrightarrow> traces P (record_effect x)"
  by (rule tracesI) (simp add: record_effect_def io_modify_def)

lemma traces_bind [traces_intros]:
  assumes m: "traces P m" and f: "\<And>a. traces P (f a)"
  shows "traces P (io_bind m f)"
proof (rule tracesI)
  fix s
  obtain r t where ms: "m s = (r, t)" by (cases "m s")
  obtain new where new: "sv_trace t = sv_trace s @ new" "\<forall>x\<in>set new. P x" using tracesD [OF m ms] by blast
  show "\<exists>new. sv_trace (snd (io_bind m f s)) = sv_trace s @ new \<and> (\<forall>x\<in>set new. P x)"
  proof (cases r)
    case (Inl e)
    then show ?thesis using ms new by (auto simp: io_bind_def)
  next
    case (Inr a)
    obtain q u where fa: "f a t = (q, u)" by (cases "f a t")
    obtain more where "sv_trace u = sv_trace t @ more" "\<forall>x\<in>set more. P x" using tracesD [OF f fa] by blast
    then show ?thesis using ms new Inr fa by (auto simp: io_bind_def intro!: exI [of _ "new @ more"])
  qed
qed

lemma traces_then [traces_intros]: "traces P m \<Longrightarrow> traces P n \<Longrightarrow> traces P (io_then m n)"
  unfolding io_then_def by (rule traces_bind)

lemma traces_when [traces_intros]: "(b \<Longrightarrow> traces P m) \<Longrightarrow> traces P (io_when b m)"
  by (cases b) (simp_all add: io_when_def traces_return)

lemma traces_if [traces_intros]:
  "(b \<Longrightarrow> traces P m) \<Longrightarrow> (\<not> b \<Longrightarrow> traces P n) \<Longrightarrow> traces P (if b then m else n)"
  by simp

lemma traces_option [traces_intros]:
  "(x = None \<Longrightarrow> traces P m) \<Longrightarrow> (\<And>a. x = Some a \<Longrightarrow> traces P (f a)) \<Longrightarrow> traces P (case x of None \<Rightarrow> m | Some a \<Rightarrow> f a)"
  by (cases x) simp_all

lemma traces_pair [traces_intros]: "(\<And>a b. traces P (f a b)) \<Longrightarrow> traces P (case x of (a, b) \<Rightarrow> f a b)"
  by (cases x) simp

lemma traces_try [traces_intros]: "traces P m \<Longrightarrow> traces P (io_try m)"
  by (rule tracesI) (auto simp: io_try_def split: prod.split dest: tracesD)

lemma traces_catch [traces_intros]: "traces P m \<Longrightarrow> (\<And>e. traces P (h e)) \<Longrightarrow> traces P (io_catch m h)"
proof -
  assume "traces P m" "\<And>e. traces P (h e)"
  then have "traces P (io_bind (io_try m) (\<lambda>r. case r of Inl e \<Rightarrow> h e | Inr a \<Rightarrow> io_return a))"
    by (intro traces_bind traces_try) (auto split: sum.split intro: traces_return)
  moreover have "io_bind (io_try m) (\<lambda>r. case r of Inl e \<Rightarrow> h e | Inr a \<Rightarrow> io_return a) = io_catch m h"
    by (rule ext) (simp add: io_bind_def io_try_def io_catch_def io_return_def split: prod.split sum.split)
  ultimately show "traces P (io_catch m h)" by simp
qed

lemma traces_finally [traces_intros]: "traces P m \<Longrightarrow> traces P f \<Longrightarrow> traces P (io_finally m f)"
proof -
  assume "traces P m" "traces P f"
  then have "traces P (io_bind (io_try m) (\<lambda>r. io_then f (io_lift r)))"
    by (intro traces_bind traces_try traces_then traces_lift)
  moreover have "io_bind (io_try m) (\<lambda>r. io_then f (io_lift r)) = io_finally m f"
    by (rule ext) (simp add: io_bind_def io_try_def io_finally_def io_then_def io_lift_def io_return_def
        io_raise_def split: prod.split sum.split)
  ultimately show "traces P (io_finally m f)" by simp
qed

lemma traces_each [traces_intros]: "(\<And>x. x \<in> set xs \<Longrightarrow> traces P (f x)) \<Longrightarrow> traces P (io_each f xs)"
  by (induction xs) (auto intro!: traces_return traces_then)

lemma traces_with_workspace [traces_intros]:
  fixes m :: "('f service_state, 'a) io"
  assumes m: "traces P m"
  shows "traces P (with_workspace v w m)"
proof (rule tracesI)
  fix s :: "'f service_state"
  let ?s = "s\<lparr>sv_runner := (sv_runner s)\<lparr>rn_ws := (rn_ws (sv_runner s))\<lparr>ws_lock_owner := Some w\<rparr>\<rparr>\<rparr>"
  obtain r t where t: "m ?s = (r, t)" by (cases "m ?s")
  from tracesD [OF m t] t
  show "\<exists>new. sv_trace (snd (with_workspace v w m s)) = sv_trace s @ new \<and> (\<forall>x\<in>set new. P x)"
    by (auto simp: with_workspace_def Let_def)
qed

lemma traces_ask_or_raise [traces_intros]: "traces P (ask_or_raise f)"
  unfolding ask_or_raise_def by (intro traces_intros)

lemma traces_see_graph [traces_intros]: "(\<And>sn. P (Saw_graph w sn)) \<Longrightarrow> traces P (see_graph v w)"
  unfolding see_graph_def by (intro traces_intros) simp

lemma traces_see_job [traces_intros]: "(\<And>js. P (Saw_job w js)) \<Longrightarrow> traces P (see_job v w)"
  unfolding see_job_def by (intro traces_intros) simp

lemma traces_publish [traces_intros]: "P (Published event w) \<Longrightarrow> traces P (publish_event v c event w)"
  unfolding publish_event_def by (intro traces_intros)

lemma traces_update [traces_intros]: "P (Updated_graph w u) \<Longrightarrow> traces P (update_graph v w u)"
  unfolding update_graph_def by (intro traces_intros)

section \<open>A delivered job and its settlement\<close>

text \<open>Running a job records only reads of the checkpoint and runs of the graph.\<close>

definition run_effect :: "service_effect \<Rightarrow> bool" where
  "run_effect x \<longleftrightarrow> (case x of Invoked_graph w input returned \<Rightarrow> True | Saw_graph w sn \<Rightarrow> True | _ \<Rightarrow> False)"

lemma run_effect_simps [simp]:
  "run_effect (Invoked_graph w input returned)" "run_effect (Saw_graph w sn)"
  by (simp_all add: run_effect_def)

lemma traces_find: "traces run_effect (find_invocation v job)"
  unfolding find_invocation_def by (intro traces_intros) simp

lemma traces_run_graph: "traces run_effect (run_graph_for v c job)"
  unfolding run_graph_for_def revive_workspace_def sandbox_is_clean_def invoke_graph_def
  by (intro traces_intros traces_find traces_pair) simp

lemma traces_invoke: "traces run_effect (invoke_job v c job)"
  unfolding invoke_job_def auto_subscribe_def by (intro traces_intros traces_run_graph) simp

lemma traces_run_job: "traces run_effect (run_job_with_heartbeat v c job)"
  unfolding run_job_with_heartbeat_def Let_def
  by (intro traces_intros traces_invoke traces_modify traces_pair) simp_all

text \<open>A job that returned has run the graph to its end, on the input the checkpoint it saw asks for, or
  there was nothing left to run.\<close>

definition ran_to_end :: "workflow_job \<Rightarrow> service_effect list \<Rightarrow> bool" where
  "ran_to_end job new \<longleftrightarrow>
     (\<exists>sn saved should_invoke input. job_invocation job sn saved = Inr (should_invoke, input)
        \<and> (reads_snapshot job \<longrightarrow> Saw_graph (wj_workflow_id job) sn \<in> set new)
        \<and> (should_invoke \<longrightarrow> Invoked_graph (wj_workflow_id job) input True \<in> set new))"

lemma ran_to_end_append: "ran_to_end job a \<Longrightarrow> ran_to_end job (a @ b)"
  unfolding ran_to_end_def by (simp, blast)

lemma ask_or_raise_trace: "ask_or_raise f s = (r, t) \<Longrightarrow> sv_trace t = sv_trace s"
  using tracesD [OF traces_ask_or_raise [of "\<lambda>_. False"], of f s r t] by auto

lemma see_graph_trace: "see_graph v w s = (Inr sn, t) \<Longrightarrow> sv_trace t = sv_trace s @ [Saw_graph w sn]"
  by (auto simp: see_graph_def io_bind_Inr io_then_Inr record_effect_def io_modify_def dest: ask_or_raise_trace)

lemma see_job_trace: "see_job v w s = (Inr js, t) \<Longrightarrow> sv_trace t = sv_trace s @ [Saw_job w js]"
  by (auto simp: see_job_def io_bind_Inr io_then_Inr record_effect_def io_modify_def dest: ask_or_raise_trace)

lemma find_invocation_returns:
  assumes "find_invocation v job s = (Inr (should_invoke, input), t)"
  shows "\<exists>new sn saved. sv_trace t = sv_trace s @ new \<and> job_invocation job sn saved = Inr (should_invoke, input)
     \<and> (reads_snapshot job \<longrightarrow> Saw_graph (wj_workflow_id job) sn \<in> set new)"
proof -
  obtain sn a saved b where
      sn: "(if reads_snapshot job then see_graph v (wj_workflow_id job) else io_return no_snapshot) s = (Inr sn, a)"
      and saved: "(if reads_positions job sn then ask_or_raise (vh_saved v (wj_workflow_id job)) else io_return None) a
                    = (Inr saved, b)"
      and inv: "job_invocation job sn saved = Inr (should_invoke, input)" "b = t"
    using assms by (auto simp: find_invocation_def elim!: io_bind_InrE)
  have "sv_trace t = sv_trace a" using saved inv(2) by (auto split: if_splits dest: ask_or_raise_trace)
  moreover have "sv_trace a = sv_trace s @ (if reads_snapshot job then [Saw_graph (wj_workflow_id job) sn] else [])"
    using sn by (auto split: if_splits dest: see_graph_trace)
  ultimately show ?thesis using inv(1) by (intro exI conjI) auto
qed

lemma invoke_graph_returns:
  assumes "invoke_graph v w input s = (Inr (), t)"
  shows "sv_trace t = sv_trace s @ [Invoked_graph w input True]"
proof -
  obtain r a where "on_runner (vh_graph v w input) s = (r, a)" by (cases "on_runner (vh_graph v w input) s")
  moreover from tracesD [OF traces_runner [of "\<lambda>_. False"] this] have "sv_trace a = sv_trace s" by auto
  ultimately show ?thesis
    using assms by (auto simp: invoke_graph_def io_try_def io_bind_def io_then_Inr record_effect_def io_modify_def)
qed

lemma run_graph_returns:
  assumes "run_graph_for v c job s = (Inr b, t)"
  shows "\<exists>new. sv_trace t = sv_trace s @ new \<and> ran_to_end job new"
proof -
  obtain should_invoke input a where found: "find_invocation v job s = (Inr (should_invoke, input), a)"
      and rest: "(if \<not> should_invoke then io_return False
        else io_then (revive_workspace v c job)
           (io_bind (if vs_manager c = None then io_return True else sandbox_is_clean v c (wj_workflow_id job))
              (\<lambda>clean. io_then (io_guard clean (workspace_busy ''sandbox_cleanup_pending''))
                (io_then (invoke_graph v (wj_workflow_id job) input) (io_return True))))) a = (Inr b, t)"
    using assms by (auto simp: run_graph_for_def elim!: io_bind_InrE)
  obtain new sn saved where new: "sv_trace a = sv_trace s @ new" "job_invocation job sn saved = Inr (should_invoke, input)"
      "reads_snapshot job \<longrightarrow> Saw_graph (wj_workflow_id job) sn \<in> set new"
    using find_invocation_returns [OF found] by blast
  show ?thesis
  proof (cases should_invoke)
    case False
    then show ?thesis using rest new by (auto simp: ran_to_end_def)
  next
    case True
    then obtain p q clean where revived: "revive_workspace v c job a = (Inr (), p)"
        and clean: "(if vs_manager c = None then io_return True else sandbox_is_clean v c (wj_workflow_id job)) p = (Inr clean, q)"
        and ran: "invoke_graph v (wj_workflow_id job) input q = (Inr (), t)"
      using rest by (auto simp: io_then_Inr elim!: io_bind_InrE)
    have "traces (\<lambda>_. False) (revive_workspace v c job)" unfolding revive_workspace_def by (intro traces_intros)
    from tracesD [OF this revived] have "sv_trace p = sv_trace a" by auto
    moreover have "traces (\<lambda>_. False) (if vs_manager c = None then io_return True else sandbox_is_clean v c (wj_workflow_id job))"
      unfolding sandbox_is_clean_def by (intro traces_intros)
    from tracesD [OF this clean] have "sv_trace q = sv_trace p" by auto
    ultimately have "sv_trace t = sv_trace s @ new @ [Invoked_graph (wj_workflow_id job) input True]"
      using invoke_graph_returns [OF ran] new(1) by simp
    then show ?thesis
      using new True by (intro exI [of _ "new @ [Invoked_graph (wj_workflow_id job) input True]"])
        (auto simp: ran_to_end_def)
  qed
qed

lemma with_workspace_Inr:
  "with_workspace v w m s = (Inr a, t) \<Longrightarrow>
   \<exists>s' t'. m s' = (Inr a, t') \<and> sv_trace s' = sv_trace s \<and> sv_trace t' = sv_trace t"
  by (fastforce simp: with_workspace_def Let_def split: if_splits prod.splits)

lemma invoke_job_returns:
  assumes "invoke_job v c job s = (Inr (), t)"
  shows "\<exists>new. sv_trace t = sv_trace s @ new \<and> ran_to_end job new"
proof -
  obtain invoked a where ran: "(if vs_manager c = None then run_graph_for v c job
              else with_workspace v (wj_workflow_id job) (run_graph_for v c job)) s = (Inr invoked, a)"
      and after: "io_when invoked (auto_subscribe v c job) a = (Inr (), t)"
    using assms by (auto simp: invoke_job_def elim!: io_bind_InrE)
  obtain new where "sv_trace a = sv_trace s @ new" "ran_to_end job new"
    using ran by (auto split: if_splits dest!: with_workspace_Inr dest: run_graph_returns) (metis run_graph_returns)
  moreover have "traces run_effect (io_when invoked (auto_subscribe v c job))"
    unfolding auto_subscribe_def by (intro traces_intros) simp
  from tracesD [OF this after] obtain more where "sv_trace t = sv_trace a @ more" by blast
  ultimately show ?thesis by (intro exI [of _ "new @ more"]) (simp add: ran_to_end_append)
qed

lemma race_result_Inr: "race_result outcome r requested w = Inr () \<Longrightarrow> r = Inr ()"
  by (auto simp: race_result_def split: race.splits option.splits sum.splits)

lemma run_job_returns:
  assumes "run_job_with_heartbeat v c job s = (Inr (), t)"
  shows "\<exists>new. sv_trace t = sv_trace s @ new \<and> ran_to_end job new"
proof -
  let ?w = "wj_workflow_id job"
  let ?s = "s\<lparr>sv_invocations := List.insert ?w (sv_invocations s)\<rparr>"
  obtain r a where ran: "invoke_job v c job ?s = (r, a)" by (cases "invoke_job v c job ?s")
  have "r = Inr () \<and> sv_trace t = sv_trace a"
    using assms ran
    by (auto simp: run_job_with_heartbeat_def Let_def io_then_Inr io_bind_Inr io_finally_Inr io_try_def
        io_modify_def ask_service_def on_runner_def split: prod.splits dest!: race_result_Inr)
  then show ?thesis using invoke_job_returns [of v c job ?s a] ran by simp
qed

text \<open>The failures that end the workflow, and what the queue is told of them.\<close>

definition real_failure :: "'f service_host \<Rightarrow> exc \<Rightarrow> bool" where
  "real_failure v e \<longleftrightarrow> \<not> is_cancellation e \<and> \<not> vh_database_down v e
     \<and> exc_kind e \<notin> {OtherError ''WorkflowLeaseLost'', OtherError ''WorkflowResumeUncertain'',
                        OtherError ''WorkflowCancelled''}"

definition settlement :: "'f service_host \<Rightarrow> workflow_job \<Rightarrow> unit result \<Rightarrow> service_effect list" where
  "settlement v job r =
     (case r of
        Inr _ \<Rightarrow> [Acknowledged job]
      | Inl e \<Rightarrow>
          if exc_kind e = OtherError ''WorkflowResumeUncertain'' then [Failed_job job ''resume_decision_unbound'']
          else if real_failure v e then [Failed_job job (exc_type_name (exc_kind e))] else [])"

primrec settles :: "service_effect \<Rightarrow> bool" where
  "settles (Invoked_graph w input returned) = False"
| "settles (Updated_graph w u) = False"
| "settles (Acknowledged j) = True"
| "settles (Failed_job j why) = True"
| "settles (Cancelled_jobs w) = False"
| "settles (Published event w) = False"
| "settles (Saw_job w js) = False"
| "settles (Saw_graph w sn) = False"
| "settles (Cleaned lease) = False"
| "settles (Slept delay) = False"

lemma run_effect_settles: "run_effect x \<Longrightarrow> \<not> settles x"
  by (cases x) (simp_all add: run_effect_def)

lemma io_wp_ask_or_raise:
  "(\<And>a t. sv_trace t = sv_trace s \<Longrightarrow> Q a t) \<Longrightarrow> (\<And>e t. sv_trace t = sv_trace s \<Longrightarrow> E e t) \<Longrightarrow>
   io_wp (ask_or_raise f) Q E s"
  by (auto intro!: io_wpI dest: ask_or_raise_trace)

definition updates_allowed :: "'f service_host \<Rightarrow> workflow_job \<Rightarrow> unit result \<Rightarrow> service_effect list \<Rightarrow> bool" where
  "updates_allowed v job r new \<longleftrightarrow>
     (\<forall>w u. Updated_graph w u \<in> set new \<longrightarrow> w = wj_workflow_id job
        \<and> (\<exists>e. r = Inl e \<and> real_failure v e \<and> u = failed_update (error_label v e)))"

definition settled_with ::
  "'f service_host \<Rightarrow> workflow_job \<Rightarrow> unit result \<Rightarrow> bool \<Rightarrow> 'f service_state \<Rightarrow> 'f service_state \<Rightarrow> bool" where
  "settled_with v job r returned s t \<longleftrightarrow>
     (\<exists>new. sv_trace t = sv_trace s @ new \<and> updates_allowed v job r new
        \<and> (filter settles new = settlement v job r
            \<or> filter settles new = [] \<and> r \<noteq> Inr () \<and> \<not> returned))"

lemma io_wp_record [simp]: "io_wp (record_effect x) Q E s = Q () (s\<lparr>sv_trace := sv_trace s @ [x]\<rparr>)"
  by (simp add: record_effect_def)

lemma settle_wp:
  "io_wp (io_finally (settle_job v c job r)
            (io_then (io_modify (\<lambda>s. s\<lparr>sv_running := AList.delete w (sv_running s)\<rparr>))
               (io_when (r = Inr ()) (acknowledge_job v job))))
     (\<lambda>_. settled_with v job r True s) (\<lambda>_. settled_with v job r False s) s"
proof (cases r)
  case (Inr a)
  then show ?thesis
    by (auto simp: settle_job_def publish_event_def acknowledge_job_def settled_with_def updates_allowed_def
        settlement_def intro!: io_wp_ask_or_raise)
next
  case (Inl e)
  then show ?thesis
    by (auto simp: settle_job_def handle_failure_def Let_def publish_event_def fail_job_def mark_failed_def
        update_graph_def settled_with_def updates_allowed_def settlement_def real_failure_def is_cancellation_def
        intro!: io_wp_ask_or_raise)
qed

text \<open>C13. Whatever the graph, the queue, Docker and the lease do, a delivered job is settled by its end:
  it is acknowledged, once, exactly when its run returned, and then the graph has run to its end on
  the input its checkpoint asked for or had nothing left to run; it is failed only for an error of
  its own or a decision that binds to no gate, never for a lost lease, a cancellation, a shutdown or
  an unreachable database, which leave it leased; and the checkpoint is marked as failed only for an
  error of the job's own, so a decision that binds to no gate leaves it as it was.\<close>

theorem delivered_job_is_settled_by_its_end:
  assumes "deliver_job v c worker job s = (q, t)"
    and "r = fst (run_job_with_heartbeat v c job
                    (s\<lparr>sv_running := AList.update (wj_workflow_id job) worker (sv_running s)\<rparr>))"
  shows "\<exists>new. sv_trace t = sv_trace s @ new
     \<and> (filter settles new = settlement v job r \<or> filter settles new = [] \<and> r \<noteq> Inr () \<and> isl q)
     \<and> (r = Inr () \<longrightarrow> ran_to_end job new) \<and> updates_allowed v job r new"
proof -
  let ?s = "s\<lparr>sv_running := AList.update (wj_workflow_id job) worker (sv_running s)\<rparr>"
  obtain a where run: "run_job_with_heartbeat v c job ?s = (r, a)"
    using assms(2) by (cases "run_job_with_heartbeat v c job ?s") auto
  let ?fin = "io_finally (settle_job v c job r)
            (io_then (io_modify (\<lambda>s. s\<lparr>sv_running := AList.delete (wj_workflow_id job) (sv_running s)\<rparr>))
               (io_when (r = Inr ()) (acknowledge_job v job)))"
  have fin: "?fin a = (q, t)"
    using assms(1) run by (simp add: deliver_job_def Let_def io_then_def io_bind_def io_modify_def io_try_def)
  have "settled_with v job r (\<not> isl q) a t"
    using settle_wp [of v c job r "wj_workflow_id job" a] fin by (cases q) (auto simp: io_wp_def)
  then obtain more where more: "sv_trace t = sv_trace a @ more" "updates_allowed v job r more"
      "filter settles more = settlement v job r \<or> filter settles more = [] \<and> r \<noteq> Inr () \<and> isl q"
    by (auto simp: settled_with_def)
  obtain new where new: "sv_trace a = sv_trace s @ new" "\<forall>x\<in>set new. run_effect x" "r = Inr () \<longrightarrow> ran_to_end job new"
    using tracesD [OF traces_run_job run] run_job_returns [of v c job ?s a] run
    by (cases r) fastforce+
  have "filter settles new = []" using new(2) by (auto simp: filter_empty_conv dest: run_effect_settles)
  moreover have "updates_allowed v job r (new @ more)"
    using more(2) new(2) by (auto simp: updates_allowed_def run_effect_def)
  ultimately show ?thesis
    using more new by (intro exI [of _ "new @ more"]) (auto simp: ran_to_end_append)
qed

text \<open>C40. A workspace that is in use when a job arrives ends the workflow: the job fails without a look
  at the checkpoint, and the checkpoint of the workflow, which may be waiting for exactly this
  decision, is marked as failed. The reconciler holds a paused workflow's workspace while it cleans
  up after it (a defect).\<close>

theorem busy_workspace_fails_the_workflow:
  assumes "vs_manager c = Some m"
    and "\<not> wh_lock_free (vh_ws v) (wj_workflow_id job) (ws_fs (rn_ws (sv_runner s)))"
    and "\<And>fs. vh_race v fs = ((Job_first None, []), fs)"
    and "\<And>fs u. vh_update v (wj_workflow_id job) u fs = (Inr (), fs)"
    and "\<And>fs why. vh_fail v job why fs = (Inr True, fs)"
    and "\<not> vh_database_down v (workspace_busy (wj_workflow_id job))"
    and "\<not> vh_provider_error v (workspace_busy (wj_workflow_id job))"
    and "\<not> vs_publisher c"
  shows "\<exists>t. deliver_job v c worker job s = (Inr (), t)
     \<and> sv_trace t = sv_trace s @ [Updated_graph (wj_workflow_id job) (failed_update ''WorkspaceBusy''),
                                  Failed_job job ''WorkspaceBusy'']"
  using assms
  by (simp add: deliver_job_def Let_def io_then_def io_bind_def io_modify_def io_try_def run_job_with_heartbeat_def
      io_finally_def invoke_job_def with_workspace_def ask_service_def on_runner_def ask_world_def io_gets_def
      race_result_def heard_def io_lift_def io_raise_def io_return_def settle_job_def handle_failure_def
      workspace_busy_def is_cancellation_def mark_failed_def error_label_def io_catch_def update_graph_def
      record_effect_def ask_or_raise_def fail_job_def publish_event_def io_when_def)

section \<open>What a cancellation leaves\<close>

lemma task_in_map: "(\<And>t. t_id (g t) = t_id t) \<Longrightarrow> task_in (map g plan) i = map_option g (task_in plan i)"
  by (induction plan) (simp_all add: task_in_def)

lemma cancelled_plan:
  assumes d: "distinct (map t_id plan)" and now: "\<And>t. t \<in> set plan \<Longrightarrow> t_updated_at t \<le> now"
  shows "merge_tasks_by_id plan (map (cancelled_task now) (filter (\<lambda>t. t_status t \<noteq> COMPLETED) plan))
     = map (\<lambda>t. if t_status t = COMPLETED then t else cancelled_task now t) plan" (is "?merged = ?cancelled")
proof (rule plan_eqI)
  have id: "t_id (cancelled_task now t) = t_id t" for t by (simp add: cancelled_task_def)
  have "map t_id ?merged = map t_id plan" by (rule merge_ids [OF d]) (auto simp: id)
  moreover have "map t_id ?cancelled = map t_id plan"
    by (simp add: comp_def id if_distrib [of t_id] cong: if_cong)
  ultimately show "map t_id ?merged = map t_id ?cancelled" by simp
  show "distinct (map t_id ?merged)" by (rule distinct_merge)
  fix i
  let ?g = "\<lambda>t. if t_status t = COMPLETED then t else cancelled_task now t"
  have g: "t_id (?g t) = t_id t" for t by (simp add: id)
  have "merge_one (Some t) (cancelled_task now t) = cancelled_task now t"
    if "t \<in> set plan" "t_status t \<noteq> COMPLETED" for t
    using now [OF that(1)] that(2) by (simp add: merge_one_def cancelled_task_def)
  then show "task_in ?merged i = task_in ?cancelled i"
    unfolding task_in_merge_map [OF d id] task_in_map [of ?g, OF g]
    by (cases "task_in plan i") (auto dest: task_in_Some)
qed

text \<open>C14. A cancellation that returns was asked of a workflow that had not ended, has cancelled its
  jobs, and, if the workflow has a checkpoint, its last act is an update after which the workflow is
  cancelled, every task that was completed is as it was, and every other task is cancelled: no task
  is lost, none is left running or waiting for a decision.\<close>

theorem cancellation_keeps_only_finished_work:
  assumes "cancel_workflow v w s = (Inr (), t)"
  shows "\<exists>sn0 pending phase sn now. reported_phase w sn0 pending = Inr phase \<and> phase \<notin> terminal_phases
     \<and> sv_trace t = sv_trace s @ [Saw_graph w sn0, Saw_job w pending, Cancelled_jobs w, Saw_graph w sn]
          @ (case sn_values sn of None \<Rightarrow> []
             | Some st \<Rightarrow> [Updated_graph w (cancel_update now (w_plan st))])
     \<and> (\<forall>st. distinct (map t_id (w_plan st)) \<and> (\<forall>task\<in>set (w_plan st). t_updated_at task \<le> now) \<longrightarrow>
          w_phase (apply_update st (cancel_update now (w_plan st))) = PH_CANCELLED
          \<and> w_plan (apply_update st (cancel_update now (w_plan st)))
            = map (\<lambda>task. if t_status task = COMPLETED then task else cancelled_task now task) (w_plan st))"
proof -
  obtain sn0 a pending b phase where
      first: "see_graph v w s = (Inr sn0, a)" "see_job v w a = (Inr pending, b)"
      and phase: "reported_phase w sn0 pending = Inr phase" "phase \<notin> terminal_phases"
      and rest: "io_then (record_effect (Cancelled_jobs w)) (io_then (ask_or_raise (vh_cancel v w))
        (io_then (stop_invocation v w) (io_bind (see_graph v w) (\<lambda>sn. case sn_values sn of
           None \<Rightarrow> io_return ()
         | Some s \<Rightarrow> io_bind (ask_service (wh_now (vh_ws v))) (\<lambda>now.
               update_graph v w (cancel_update now (w_plan s))))))) b = (Inr (), t)"
    using assms unfolding cancel_workflow_def by (auto simp: io_then_Inr elim!: io_bind_InrE)
  obtain p q sn r where mid: "ask_or_raise (vh_cancel v w) (b\<lparr>sv_trace := sv_trace b @ [Cancelled_jobs w]\<rparr>) = (Inr (), p)"
      "stop_invocation v w p = (Inr (), q)" "see_graph v w q = (Inr sn, r)"
      and last: "(case sn_values sn of
           None \<Rightarrow> io_return ()
         | Some s \<Rightarrow> io_bind (ask_service (wh_now (vh_ws v))) (\<lambda>now.
               update_graph v w (cancel_update now (w_plan s)))) r = (Inr (), t)"
    using rest by (auto simp: io_then_Inr record_effect_def io_modify_def elim!: io_bind_InrE)
  have "traces (\<lambda>_. False) (stop_invocation v w)"
    unfolding stop_invocation_def by (intro traces_intros traces_modify) simp
  from tracesD [OF this mid(2)] have "sv_trace q = sv_trace p" by auto
  then have r: "sv_trace r = sv_trace s @ [Saw_graph w sn0, Saw_job w pending, Cancelled_jobs w, Saw_graph w sn]"
    using see_graph_trace [OF first(1)] see_job_trace [OF first(2)] ask_or_raise_trace [OF mid(1)]
      see_graph_trace [OF mid(3)] by simp
  have "\<exists>now. sv_trace t = sv_trace r @ (case sn_values sn of None \<Rightarrow> []
      | Some st \<Rightarrow> [Updated_graph w (cancel_update now (w_plan st))])"
    using last
    by (auto simp: update_graph_def io_then_Inr record_effect_def io_modify_def ask_service_def on_runner_def
        split: option.splits prod.splits elim!: io_bind_InrE dest!: ask_or_raise_trace, blast)
  then obtain now where "sv_trace t = sv_trace r @ (case sn_values sn of None \<Rightarrow> []
      | Some st \<Rightarrow> [Updated_graph w (cancel_update now (w_plan st))])" by blast
  moreover have "w_phase (apply_update st (cancel_update now (w_plan st))) = PH_CANCELLED
      \<and> w_plan (apply_update st (cancel_update now (w_plan st)))
        = map (\<lambda>task. if t_status task = COMPLETED then task else cancelled_task now task) (w_plan st)"
    if "distinct (map t_id (w_plan st))" "\<forall>task\<in>set (w_plan st). t_updated_at task \<le> now" for st
    using cancelled_plan [OF that(1), of now] that(2)
    by (simp add: apply_update_def cancel_update_def reduced_def keep_latest_def)
  ultimately show ?thesis using phase r by (intro exI conjI allI impI) auto
qed

section \<open>What the reconciler releases\<close>

text \<open>Every workspace that is cleaned up has a retention, and just before the reconciler saw, in this
  order: no live job, a checkpoint that is done with the workspace, and, once it held the
  workspace, still no live job.\<close>

definition idle_release :: "service_effect list \<Rightarrow> bool" where
  "idle_release tr \<longleftrightarrow>
     (\<forall>pre l post. tr = pre @ Cleaned l # post \<longrightarrow>
        re_retain_until (le_retention l) \<noteq> None
        \<and> (\<exists>before js0 sn js. pre = before @ [Saw_job (le_workflow_id l) js0, Saw_graph (le_workflow_id l) sn,
                                          Saw_job (le_workflow_id l) js]
             \<and> may_release js0 sn \<and> \<not> job_live js0 \<and> \<not> job_live js))"

lemma idle_release_append: "idle_release a \<Longrightarrow> idle_release b \<Longrightarrow> idle_release (a @ b)"
  unfolding idle_release_def
proof (intro allI impI)
  fix pre l post
  assume a: "\<forall>pre l post. a = pre @ Cleaned l # post \<longrightarrow>
        re_retain_until (le_retention l) \<noteq> None
        \<and> (\<exists>before js0 sn js. pre = before @ [Saw_job (le_workflow_id l) js0, Saw_graph (le_workflow_id l) sn,
                                          Saw_job (le_workflow_id l) js]
             \<and> may_release js0 sn \<and> \<not> job_live js0 \<and> \<not> job_live js)"
    and b: "\<forall>pre l post. b = pre @ Cleaned l # post \<longrightarrow>
        re_retain_until (le_retention l) \<noteq> None
        \<and> (\<exists>before js0 sn js. pre = before @ [Saw_job (le_workflow_id l) js0, Saw_graph (le_workflow_id l) sn,
                                          Saw_job (le_workflow_id l) js]
             \<and> may_release js0 sn \<and> \<not> job_live js0 \<and> \<not> job_live js)"
    and ab: "a @ b = pre @ Cleaned l # post"
  from ab consider us where "a = pre @ Cleaned l # us" | us where "pre = a @ us" "b = us @ Cleaned l # post"
    by (auto simp: append_eq_append_conv2 append_eq_Cons_conv)
  then show "re_retain_until (le_retention l) \<noteq> None
        \<and> (\<exists>before js0 sn js. pre = before @ [Saw_job (le_workflow_id l) js0, Saw_graph (le_workflow_id l) sn,
                                          Saw_job (le_workflow_id l) js]
             \<and> may_release js0 sn \<and> \<not> job_live js0 \<and> \<not> job_live js)"
  proof cases
    case 1
    then show ?thesis using a by blast
  next
    case 2
    then show ?thesis using b by (metis append.assoc)
  qed
qed

lemma idle_release_other: "(\<And>l. Cleaned l \<notin> set tr) \<Longrightarrow> idle_release tr"
  by (force simp: idle_release_def)

definition released_idle :: "'f service_state \<Rightarrow> 'f service_state \<Rightarrow> bool" where
  "released_idle s t \<longleftrightarrow> (\<exists>new. sv_trace t = sv_trace s @ new \<and> idle_release new)"

lemma released_idle_refl: "sv_trace t = sv_trace s \<Longrightarrow> released_idle s t"
  by (auto simp: released_idle_def intro!: idle_release_other)

lemma released_idle_trans: "released_idle s t \<Longrightarrow> released_idle t u \<Longrightarrow> released_idle s u"
  unfolding released_idle_def by (auto intro!: idle_release_append)

lemma traces_wp:
  "traces P m \<Longrightarrow> io_wp m (\<lambda>_ t. \<exists>new. sv_trace t = sv_trace s @ new \<and> (\<forall>x\<in>set new. P x))
     (\<lambda>_ t. \<exists>new. sv_trace t = sv_trace s @ new \<and> (\<forall>x\<in>set new. P x)) s"
  by (auto intro!: io_wpI dest: tracesD)

lemma silent_trace: "traces (\<lambda>_. False) m \<Longrightarrow> m s = (r, t) \<Longrightarrow> sv_trace t = sv_trace s"
  by (frule tracesD) auto

lemma wp_silent:
  "traces (\<lambda>_. False) m \<Longrightarrow> (\<And>a t. sv_trace t = sv_trace s \<Longrightarrow> Q a t) \<Longrightarrow>
   (\<And>e t. sv_trace t = sv_trace s \<Longrightarrow> E e t) \<Longrightarrow> io_wp m Q E s"
  by (auto intro!: io_wpI simp: silent_trace)

lemma wp_see_job:
  "(\<And>js t. sv_trace t = sv_trace s @ [Saw_job w js] \<Longrightarrow> Q js t) \<Longrightarrow> (\<And>e t. sv_trace t = sv_trace s \<Longrightarrow> E e t) \<Longrightarrow>
   io_wp (see_job v w) Q E s"
  by (auto simp: see_job_def intro!: io_wp_ask_or_raise)

lemma wp_see_graph:
  "(\<And>sn t. sv_trace t = sv_trace s @ [Saw_graph w sn] \<Longrightarrow> Q sn t) \<Longrightarrow> (\<And>e t. sv_trace t = sv_trace s \<Longrightarrow> E e t) \<Longrightarrow>
   io_wp (see_graph v w) Q E s"
  by (auto simp: see_graph_def intro!: io_wp_ask_or_raise)

lemma wp_with_workspace:
  assumes "\<And>u. sv_trace u = sv_trace s \<Longrightarrow>
      io_wp m (\<lambda>a t. \<forall>t'. sv_trace t' = sv_trace t \<longrightarrow> Q a t') (\<lambda>e t. \<forall>t'. sv_trace t' = sv_trace t \<longrightarrow> E e t') u"
    and "E (workspace_busy w) s"
  shows "io_wp (with_workspace v w m) Q E s"
  using assms(1) [of "s\<lparr>sv_runner := (sv_runner s)\<lparr>rn_ws := (rn_ws (sv_runner s))\<lparr>ws_lock_owner := Some w\<rparr>\<rparr>\<rparr>"] assms(2)
  by (auto simp: io_wp_def with_workspace_def Let_def split: prod.splits sum.splits)

lemma retain_returns:
  "on_workspace (retain h lease ttl why) s = (Inr l, t) \<Longrightarrow>
   le_workflow_id l = le_workflow_id lease \<and> re_retain_until (le_retention l) \<noteq> None"
  by (auto simp: on_workspace_def on_runner_def retain_def transition_def Let_def io_bind_Inr io_then_Inr
      split: prod.splits)

text \<open>The clean-up itself records at most one release, of this workflow and with its retention.\<close>

definition cleaned_by :: "workspace_lease \<Rightarrow> 'f service_state \<Rightarrow> 'f service_state \<Rightarrow> bool" where
  "cleaned_by lease s t \<longleftrightarrow>
     sv_trace t = sv_trace s
     \<or> (\<exists>held more. sv_trace t = sv_trace s @ Cleaned held # more \<and> le_workflow_id held = le_workflow_id lease
          \<and> re_retain_until (le_retention held) \<noteq> None \<and> (\<forall>l. Cleaned l \<notin> set more))"

lemma clean_workspace_wp:
  "io_wp (clean_workspace v c m sn lease) (\<lambda>_. cleaned_by lease s) (\<lambda>_. cleaned_by lease s) s"
proof -
  let ?retain = "if re_retain_until (le_retention lease) = None
               then on_workspace (retain (vh_ws v) lease (retention_seconds c (snapshot_phase sn))
                      (workflow_phase_value (snapshot_phase sn)))
               else io_return lease"
  let ?more = "\<lambda>held. io_bind (on_workspace (cleanup (vh_ws v) m held)) (\<lambda>cleaned.
      io_then (io_when (sn_values sn \<noteq> None \<and> sn_interrupts sn = [])
                 (update_graph v (le_workflow_id lease) (no_update\<lparr>u_workspace := Some (Some cleaned)\<rparr>)))
        (io_when (vs_audit c \<and> le_state cleaned \<noteq> le_state held)
           (ask_or_raise (vh_audit v ''workspace_lifecycle'' (le_workflow_id lease)))))"
  have more: "traces (\<lambda>x. \<forall>l. x \<noteq> Cleaned l) (?more held)" for held
    by (intro traces_intros) simp
  have after: "io_wp (?more held) (\<lambda>_. cleaned_by lease s) (\<lambda>_. cleaned_by lease s) (u\<lparr>sv_trace := sv_trace u @ [Cleaned held]\<rparr>)"
    if "sv_trace u = sv_trace s" "le_workflow_id held = le_workflow_id lease" "re_retain_until (le_retention held) \<noteq> None"
    for held u
  proof (rule io_wp_mono [OF traces_wp [OF more]])
    show "cleaned_by lease s t"
      if "\<exists>new. sv_trace t = sv_trace (u\<lparr>sv_trace := sv_trace u @ [Cleaned held]\<rparr>) @ new
            \<and> (\<forall>x\<in>set new. \<forall>l. x \<noteq> Cleaned l)" for t
      using that \<open>sv_trace u = _\<close> \<open>le_workflow_id held = _\<close> \<open>re_retain_until _ \<noteq> _\<close>
      unfolding cleaned_by_def by auto blast
    then show "cleaned_by lease s t"
      if "\<exists>new. sv_trace t = sv_trace (u\<lparr>sv_trace := sv_trace u @ [Cleaned held]\<rparr>) @ new
            \<and> (\<forall>x\<in>set new. \<forall>l. x \<noteq> Cleaned l)" for t
      using that by blast
  qed
  have silent: "traces (\<lambda>_. False) ?retain" by (intro traces_intros)
  have held: "le_workflow_id held = le_workflow_id lease \<and> re_retain_until (le_retention held) \<noteq> None"
    if "?retain s = (Inr held, u)" for held u
    using that by (auto split: if_splits dest: retain_returns)
  show ?thesis
    unfolding clean_workspace_def Let_def io_wp_bind [of ?retain]
  proof (rule io_wpI)
    fix held u assume r: "?retain s = (Inr held, u)"
    show "io_wp (io_then (record_effect (Cleaned held)) (?more held)) (\<lambda>_. cleaned_by lease s) (\<lambda>_. cleaned_by lease s) u"
      using after [OF silent_trace [OF silent r]] held [OF r] by simp
  next
    fix e t assume "?retain s = (Inl e, t)"
    then show "cleaned_by lease s t" using silent_trace [OF silent] by (simp add: cleaned_by_def)
  qed
qed

lemma idle_release_shape:
  assumes "\<forall>l. Cleaned l \<notin> set rest" and "re_retain_until (le_retention held) \<noteq> None"
    and "may_release js0 sn" and "\<not> job_live js0" and "\<not> job_live js"
  shows "idle_release (Saw_job (le_workflow_id held) js0 # Saw_graph (le_workflow_id held) sn
           # Saw_job (le_workflow_id held) js # Cleaned held # rest)"
  using assms by (auto simp: idle_release_def Cons_eq_append_conv)

lemma reconcile_lease_wp:
  fixes v :: "'f service_host" and s :: "'f service_state"
  shows "io_wp (reconcile_lease v c m lease) (\<lambda>_. released_idle s) (\<lambda>_. released_idle s) s"
proof -
  let ?w = "le_workflow_id lease"
  have other: "released_idle s t" if "sv_trace t = sv_trace s @ new" "\<forall>l. Cleaned l \<notin> set new" for t :: "'f service_state" and new
    using that by (auto simp: released_idle_def intro!: exI [of _ new] idle_release_other)
  have clean: "io_wp (clean_workspace v c m sn lease) (\<lambda>_ t. \<forall>t'. sv_trace t' = sv_trace t \<longrightarrow> released_idle s t')
      (\<lambda>_ t. \<forall>t'. sv_trace t' = sv_trace t \<longrightarrow> released_idle s t') u"
    if "sv_trace u = sv_trace s @ [Saw_job ?w js0, Saw_graph ?w sn, Saw_job ?w js]" "may_release js0 sn"
      "\<not> job_live js0" "\<not> job_live js" for u js0 sn js
  proof (rule io_wp_mono [OF clean_workspace_wp [of v c m sn lease u]])
    show "\<forall>t'. sv_trace t' = sv_trace t \<longrightarrow> released_idle s t'" if c: "cleaned_by lease u t" for t
    proof (cases "sv_trace t = sv_trace u")
      case True
      then show ?thesis using \<open>sv_trace u = _\<close> by (auto intro!: other)
    next
      case False
      then obtain held more where "sv_trace t = sv_trace u @ Cleaned held # more" "le_workflow_id held = ?w"
          "re_retain_until (le_retention held) \<noteq> None" "\<forall>l. Cleaned l \<notin> set more"
        using c by (auto simp: cleaned_by_def)
      then show ?thesis
        using \<open>sv_trace u = _\<close> idle_release_shape [of more held js0 sn js] \<open>may_release js0 sn\<close>
          \<open>\<not> job_live js0\<close> \<open>\<not> job_live js\<close> by (auto simp: released_idle_def)
    qed
    then show "\<forall>t'. sv_trace t' = sv_trace t \<longrightarrow> released_idle s t'" if "cleaned_by lease u t" for t
      using that by blast
  qed
  have locked: "io_wp (reconcile_locked v c m sn lease) (\<lambda>_ t. \<forall>t'. sv_trace t' = sv_trace t \<longrightarrow> released_idle s t')
      (\<lambda>_ t. \<forall>t'. sv_trace t' = sv_trace t \<longrightarrow> released_idle s t') u"
    if u: "sv_trace u = sv_trace s @ [Saw_job ?w js0, Saw_graph ?w sn]" "may_release js0 sn" "\<not> job_live js0" for u js0 sn
    unfolding reconcile_locked_def io_wp_bind
  proof (rule wp_see_job)
    fix js and p :: "'f service_state" assume p: "sv_trace p = sv_trace u @ [Saw_job ?w js]"
    have looks: "sv_trace q = sv_trace s @ [Saw_job ?w js0, Saw_graph ?w sn, Saw_job ?w js]" if "sv_trace q = sv_trace p" for q :: "'f service_state"
      using that p u(1) by simp
    have "io_wp (sandbox_is_clean v c ?w) (\<lambda>clean. io_wp (if \<not> clean
            then io_bind (on_workspace (transition (vh_ws v) lease WS_FAILED
                            (\<lambda>l. l\<lparr>le_failure_reason := Some ''sandbox_cleanup_pending''\<rparr>))) (\<lambda>_. io_return ())
            else clean_workspace v c m sn lease)
        (\<lambda>_ t. \<forall>t'. sv_trace t' = sv_trace t \<longrightarrow> released_idle s t')
        (\<lambda>_ t. \<forall>t'. sv_trace t' = sv_trace t \<longrightarrow> released_idle s t'))
        (\<lambda>_ t. \<forall>t'. sv_trace t' = sv_trace t \<longrightarrow> released_idle s t') p" if "\<not> job_live js"
    proof (rule wp_silent)
      show "traces (\<lambda>_. False) (sandbox_is_clean v c ?w)" unfolding sandbox_is_clean_def by (intro traces_intros)
      fix clean and q :: "'f service_state" assume q: "sv_trace q = sv_trace p"
      show "io_wp (if \<not> clean
            then io_bind (on_workspace (transition (vh_ws v) lease WS_FAILED
                            (\<lambda>l. l\<lparr>le_failure_reason := Some ''sandbox_cleanup_pending''\<rparr>))) (\<lambda>_. io_return ())
            else clean_workspace v c m sn lease)
        (\<lambda>_ t. \<forall>t'. sv_trace t' = sv_trace t \<longrightarrow> released_idle s t')
        (\<lambda>_ t. \<forall>t'. sv_trace t' = sv_trace t \<longrightarrow> released_idle s t') q"
        using looks [OF q] clean [OF looks [OF q] u(2,3) that]
        by (cases clean) (auto intro!: wp_silent traces_workspace traces_return other)
    next
      fix e and t :: "'f service_state" assume t: "sv_trace t = sv_trace p"
      show "\<forall>t'. sv_trace t' = sv_trace t \<longrightarrow> released_idle s t'" using looks [OF t] t by (auto intro!: other)
    qed
    then show "io_wp (if job_live js then io_return () else io_bind (sandbox_is_clean v c ?w) (\<lambda>clean. if \<not> clean
            then io_bind (on_workspace (transition (vh_ws v) lease WS_FAILED
                            (\<lambda>l. l\<lparr>le_failure_reason := Some ''sandbox_cleanup_pending''\<rparr>))) (\<lambda>_. io_return ())
            else clean_workspace v c m sn lease))
        (\<lambda>_ t. \<forall>t'. sv_trace t' = sv_trace t \<longrightarrow> released_idle s t')
        (\<lambda>_ t. \<forall>t'. sv_trace t' = sv_trace t \<longrightarrow> released_idle s t') p"
      using looks [of p] by (auto intro!: other)
  qed (use u(1) in \<open>auto intro!: other\<close>)
  have handled: "io_wp (io_catch (with_workspace v ?w (reconcile_locked v c m sn lease))
                   (\<lambda>e. if exc_kind e = OtherError ''WorkspaceBusy'' then io_return () else io_raise e))
      (\<lambda>_. released_idle s) (\<lambda>_. released_idle s) u"
    if u: "sv_trace u = sv_trace s @ [Saw_job ?w js0, Saw_graph ?w sn]" "may_release js0 sn" "\<not> job_live js0" for u js0 sn
    unfolding io_wp_catch
  proof (rule wp_with_workspace)
    fix p :: "'f service_state" assume p: "sv_trace p = sv_trace u"
    show "io_wp (reconcile_locked v c m sn lease) (\<lambda>a t. \<forall>t'. sv_trace t' = sv_trace t \<longrightarrow> released_idle s t')
        (\<lambda>e t. \<forall>t'. sv_trace t' = sv_trace t \<longrightarrow> io_wp (if exc_kind e = OtherError ''WorkspaceBusy'' then io_return ()
            else io_raise e) (\<lambda>_. released_idle s) (\<lambda>_. released_idle s) t') p"
      by (rule io_wp_mono [OF locked [OF _ u(2,3)]]) (use p u(1) in simp_all)
  qed (use u(1) in \<open>auto intro!: other\<close>)
  have looked: "io_wp (io_bind (see_graph v ?w) (\<lambda>sn. if \<not> may_release js0 sn then io_return ()
          else io_catch (with_workspace v ?w (reconcile_locked v c m sn lease))
                 (\<lambda>e. if exc_kind e = OtherError ''WorkspaceBusy'' then io_return () else io_raise e)))
      (\<lambda>_. released_idle s) (\<lambda>_. released_idle s) u"
    if u: "sv_trace u = sv_trace s @ [Saw_job ?w js0]" "\<not> job_live js0" for u js0
    unfolding io_wp_bind
  proof (rule wp_see_graph)
    fix sn and p :: "'f service_state" assume p: "sv_trace p = sv_trace u @ [Saw_graph ?w sn]"
    then show "io_wp (if \<not> may_release js0 sn then io_return ()
          else io_catch (with_workspace v ?w (reconcile_locked v c m sn lease))
                 (\<lambda>e. if exc_kind e = OtherError ''WorkspaceBusy'' then io_return () else io_raise e))
        (\<lambda>_. released_idle s) (\<lambda>_. released_idle s) p"
      using handled [of p js0 sn] u by (auto intro!: other simp del: io_wp_catch)
  qed (use u(1) in \<open>auto intro!: other\<close>)
  have "io_wp (see_job v ?w) (\<lambda>js0. io_wp (if job_live js0 then io_return ()
          else io_bind (see_graph v ?w) (\<lambda>sn. if \<not> may_release js0 sn then io_return ()
          else io_catch (with_workspace v ?w (reconcile_locked v c m sn lease))
                 (\<lambda>e. if exc_kind e = OtherError ''WorkspaceBusy'' then io_return () else io_raise e)))
      (\<lambda>_. released_idle s) (\<lambda>_. released_idle s)) (\<lambda>_. released_idle s) s"
  proof (rule wp_see_job)
    fix js0 and u :: "'f service_state" assume u: "sv_trace u = sv_trace s @ [Saw_job ?w js0]"
    then show "io_wp (if job_live js0 then io_return ()
          else io_bind (see_graph v ?w) (\<lambda>sn. if \<not> may_release js0 sn then io_return ()
          else io_catch (with_workspace v ?w (reconcile_locked v c m sn lease))
                 (\<lambda>e. if exc_kind e = OtherError ''WorkspaceBusy'' then io_return () else io_raise e)))
      (\<lambda>_. released_idle s) (\<lambda>_. released_idle s) u"
      using looked [OF u] by (auto intro!: other simp del: io_wp_bind)
  qed (rule released_idle_refl)
  then show ?thesis
    unfolding reconcile_lease_def Let_def by (simp add: released_idle_refl del: io_wp_catch)
qed


section \<open>The worker's patience\<close>

text \<open>While the database is away a worker waits between its rounds: never less than a tenth of a second,
  and never longer than five seconds or the poll interval.\<close>

definition patient :: "workflow_service \<Rightarrow> rat \<Rightarrow> bool" where
  "patient c delay \<longleftrightarrow> 1 / 10 \<le> delay \<and> delay \<le> max 5 (vs_poll_interval c)"

definition slept_patiently :: "workflow_service \<Rightarrow> service_effect \<Rightarrow> bool" where
  "slept_patiently c x \<longleftrightarrow> (case x of Slept delay \<Rightarrow> patient c delay | _ \<Rightarrow> True)"

lemma patient_base: "patient c (base_delay c)"
  by (auto simp: patient_def base_delay_def)

lemma patient_double: "patient c delay \<Longrightarrow> patient c (min (delay * 2) 5)"
  by (auto simp: patient_def)

definition calm_worker :: "workflow_service \<Rightarrow> 'f service_state \<Rightarrow> bool" where
  "calm_worker c s \<longleftrightarrow> patient c (sv_retry_delay s) \<and> (\<forall>x\<in>set (sv_trace s). slept_patiently c x)"

abbreviation calm_io :: "workflow_service \<Rightarrow> ('f service_state, 'a) io \<Rightarrow> bool" where
  "calm_io c \<equiv> io_keeps (calm_worker c)"

lemma keeps_runner: "calm_io c (on_runner m)"
  by (simp add: io_keeps_def on_runner_def calm_worker_def split: prod.split)

lemma keeps_workspace: "calm_io c (on_workspace m)"
  unfolding on_workspace_def by (rule keeps_runner)

lemma keeps_ask: "calm_io c (ask_service f)"
  unfolding ask_service_def by (rule keeps_runner)

lemma keeps_ask_or_raise: "calm_io c (ask_or_raise f)"
  unfolding ask_or_raise_def by (intro keeps_intros keeps_ask)

lemma keeps_record: "slept_patiently c x \<Longrightarrow> calm_io c (record_effect x)"
  by (simp add: io_keeps_def record_effect_def io_modify_def calm_worker_def)

lemma keeps_with_workspace:
  fixes m :: "('f service_state, 'a) io"
  assumes "calm_io c m"
  shows "calm_io c (with_workspace v w m)"
  unfolding io_keeps_def
proof (intro allI impI)
  fix s :: "'f service_state" assume "calm_worker c s"
  then have "calm_worker c (s\<lparr>sv_runner := (sv_runner s)\<lparr>rn_ws := (rn_ws (sv_runner s))\<lparr>ws_lock_owner := Some w\<rparr>\<rparr>\<rparr>)"
    by (simp add: calm_worker_def)
  from io_keepsD [OF assms this] \<open>calm_worker c s\<close> show "calm_worker c (snd (with_workspace v w m s))"
    by (auto simp: with_workspace_def Let_def calm_worker_def split: prod.split)
qed

lemmas calm_intros = keeps_intros keeps_runner keeps_workspace keeps_ask keeps_ask_or_raise keeps_with_workspace

lemma slept_patiently_simps [simp]:
  "slept_patiently c (Invoked_graph w input returned)" "slept_patiently c (Updated_graph w u)"
  "slept_patiently c (Acknowledged job)" "slept_patiently c (Failed_job job why)"
  "slept_patiently c (Published event w)" "slept_patiently c (Saw_graph w sn)"
  "slept_patiently c (Slept delay) = patient c delay"
  by (simp_all add: slept_patiently_def)

lemma keeps_pair: "(\<And>a b. io_keeps P (f a b)) \<Longrightarrow> io_keeps P (case x of (a, b) \<Rightarrow> f a b)"
  by (cases x) simp

lemma keeps_sum:
  "(\<And>a. io_keeps P (f a)) \<Longrightarrow> (\<And>b. io_keeps P (g b)) \<Longrightarrow> io_keeps P (case x of Inl a \<Rightarrow> f a | Inr b \<Rightarrow> g b)"
  by (cases x) simp_all

lemma calm_run_graph: "calm_io c (run_graph_for v c' job)"
  unfolding run_graph_for_def find_invocation_def see_graph_def revive_workspace_def sandbox_is_clean_def invoke_graph_def
  by (intro calm_intros keeps_record keeps_pair) simp_all

lemma calm_run_job: "calm_io c (run_job_with_heartbeat v c' job)"
  unfolding run_job_with_heartbeat_def Let_def invoke_job_def auto_subscribe_def see_graph_def
  by (intro calm_intros calm_run_graph keeps_record keeps_pair) (simp_all add: calm_worker_def)

lemma calm_settle: "calm_io c (settle_job v c' job r)"
  unfolding settle_job_def handle_failure_def mark_failed_def update_graph_def fail_job_def publish_event_def Let_def
  by (intro calm_intros keeps_record keeps_sum) (simp_all add: calm_worker_def)

lemma calm_deliver: "calm_io c (deliver_job v c' worker job)"
  unfolding deliver_job_def Let_def acknowledge_job_def
  by (intro calm_intros calm_run_job calm_settle keeps_record) (simp_all add: calm_worker_def)

lemma calm_round: "calm_io c (worker_round v c worker)"
proof -
  have sleep: "calm_io c (io_bind (io_gets sv_retry_delay) (\<lambda>delay. io_then (record_effect (Slept delay))
      (io_modify (\<lambda>s. s\<lparr>sv_retry_delay := min (delay * 2) 5\<rparr>))))"
    by (rule io_wp_keeps) (simp add: calm_worker_def patient_double)
  show ?thesis
    unfolding worker_round_def
  proof (rule keeps_catch)
    show "calm_io c (io_then (ask_or_raise (vh_touch_worker v worker))
       (io_bind (ask_or_raise (vh_dequeue v worker)) (\<lambda>job.
        io_then (io_modify (\<lambda>s. s\<lparr>sv_retry_delay := base_delay c\<rparr>))
          (case job of None \<Rightarrow> io_return () | Some j \<Rightarrow> deliver_job v c worker j))))"
      by (intro calm_intros calm_deliver) (simp add: calm_worker_def patient_base)
  qed (intro keeps_if keeps_raise sleep)
qed

lemma outages_are_waited_out:
  assumes "patient c (sv_retry_delay s)" and "sv_trace s = []"
    and "Slept delay \<in> set (sv_trace (snd (worker_rounds v c worker n s)))"
  shows "1 / 10 \<le> delay \<and> delay \<le> max 5 (vs_poll_interval c)"
proof -
  have "calm_io c (worker_rounds v c worker n)" by (induction n) (auto intro: keeps_return keeps_then calm_round)
  moreover have "calm_worker c s" using assms(1,2) by (simp add: calm_worker_def)
  ultimately have "calm_worker c (snd (worker_rounds v c worker n s))" by (rule io_keepsD)
  then show ?thesis using assms(3) by (auto simp: calm_worker_def patient_def)
qed

section \<open>Witnesses\<close>

text \<open>A world in which everything works, at a given checkpoint.\<close>

definition service_host_sample :: "graph_snapshot \<Rightarrow> bool \<Rightarrow> bool service_host" where
  "service_host_sample sn free =
     \<lparr>vh_snapshot = (\<lambda>w f. (Inr sn, f)), vh_saved = (\<lambda>w f. (Inr None, f)), vh_graph = (\<lambda>w input. io_return ()),
      vh_update = (\<lambda>w u f. (Inr (), f)), vh_touch_worker = (\<lambda>w f. (Inr (), f)), vh_dequeue = (\<lambda>w f. (Inr None, f)),
      vh_acknowledge = (\<lambda>j f. (Inr True, f)), vh_fail = (\<lambda>j why f. (Inr True, f)), vh_cancel = (\<lambda>w f. (Inr (), f)),
      vh_job_state = (\<lambda>w f. (Inr None, f)), vh_publish = (\<lambda>event w f. (Inr (), f)),
      vh_subscribe = (\<lambda>r n w f. (Inr (), f)), vh_audit = (\<lambda>a w f. (Inr (), f)),
      vh_race = (\<lambda>f. ((Job_first None, []), f)), vh_join = (\<lambda>w f. (Inr (), f)), vh_docker = docker_sample,
      vh_ws = host_sample\<lparr>wh_lock_free := (\<lambda>w f. free)\<rparr>, vh_database_down = (\<lambda>e. False),
      vh_provider_error = (\<lambda>e. False), vh_status_code = (\<lambda>e. None), vh_cause = (\<lambda>e. [])\<rparr>"

definition service_sample :: "workspace_manager option \<Rightarrow> workflow_service" where
  "service_sample m =
     \<lparr>vs_manager = m, vs_runner = None, vs_publisher = False, vs_superagent = False, vs_audit = False,
      vs_poll_interval = 1, vs_success_retention = 60, vs_failure_retention = 60\<rparr>"

definition service_state_sample :: "bool service_state" where
  "service_state_sample =
     \<lparr>sv_runner = runner_state_sample [], sv_running = [], sv_failures = [], sv_invocations = [],
      sv_cancel_requested = [], sv_retry_delay = 1, sv_trace = []\<rparr>"

definition start_job_sample :: workflow_job where
  "start_job_sample = resume_job_sample\<lparr>wj_kind := J_START, wj_payload := PStr ''x'', wj_attempt_count := 1\<rparr>"

definition running_sample :: graph_snapshot where
  "running_sample =
     gate_sample\<lparr>sn_values := Some (sample_state [sample_task 1 COMPLETED, sample_task 2 ESCALATED])\<rparr>"

lemma service_sample_fields [simp]:
  "vh_race (service_host_sample sn free) = (\<lambda>f. ((Job_first None, []), f))"
  "vh_graph (service_host_sample sn free) = (\<lambda>w input. io_return ())"
  "vh_update (service_host_sample sn free) = (\<lambda>w u f. (Inr (), f))"
  "vh_fail (service_host_sample sn free) = (\<lambda>j why f. (Inr True, f))"
  "vh_cancel (service_host_sample sn free) = (\<lambda>w f. (Inr (), f))"
  "vh_snapshot (service_host_sample sn free) = (\<lambda>w f. (Inr sn, f))"
  "vh_job_state (service_host_sample sn free) = (\<lambda>w f. (Inr None, f))"
  "vh_database_down (service_host_sample sn free) = (\<lambda>e. False)"
  "vh_provider_error (service_host_sample sn free) = (\<lambda>e. False)"
  "wh_lock_free (vh_ws (service_host_sample sn free)) = (\<lambda>w f. free)"
  "wh_now (vh_ws (service_host_sample sn free)) = (\<lambda>f. (100, f))"
  "vs_manager (service_sample m) = m" "vs_runner (service_sample m) = None"
  "vs_publisher (service_sample m) = False" "vs_superagent (service_sample m) = False"
  "sv_trace service_state_sample = []"
  by (simp_all add: service_host_sample_def service_sample_def service_state_sample_def host_sample_def)

lemma io_wp_on_runner [simp]:
  "io_wp (on_runner m) Q E s
     = io_wp m (\<lambda>a t. Q a (s\<lparr>sv_runner := t\<rparr>)) (\<lambda>e t. E e (s\<lparr>sv_runner := t\<rparr>)) (sv_runner s)"
  by (simp add: io_wp_def on_runner_def split: prod.split sum.split)

lemma io_wp_ask_service [simp]:
  "io_wp (ask_service f) Q E s = io_wp (ask_world f) (\<lambda>a t. Q a (s\<lparr>sv_runner := t\<rparr>)) (\<lambda>e t. E e (s\<lparr>sv_runner := t\<rparr>)) (sv_runner s)"
  by (simp add: ask_service_def)

lemmas ask_definitions = ask_or_raise_def see_graph_def see_job_def update_graph_def

theorem delivered_job_is_settled_by_its_end_witness:
  "\<exists>new. sv_trace (snd (deliver_job (service_host_sample gate_sample True) (service_sample None) ''worker-0''
        start_job_sample service_state_sample)) = new
     \<and> filter settles new = [Acknowledged start_job_sample] \<and> ran_to_end start_job_sample new"
proof -
  let ?s = "service_state_sample\<lparr>sv_running := AList.update (wj_workflow_id start_job_sample) ''worker-0''
      (sv_running service_state_sample)\<rparr>"
  let ?v = "service_host_sample gate_sample True"
  have "io_wp (run_job_with_heartbeat ?v (service_sample None) start_job_sample) (\<lambda>_ _. True) (\<lambda>_ _. False) ?s"
    by (simp add: run_job_with_heartbeat_def Let_def invoke_job_def run_graph_for_def find_invocation_def
        reads_snapshot_def reads_positions_def start_job_sample_def job_invocation_def revive_workspace_def
        invoke_graph_def auto_subscribe_def race_result_def heard_def)
  then have run: "Inr () = fst (run_job_with_heartbeat ?v (service_sample None) start_job_sample ?s)"
    unfolding io_wp_noraise by auto
  obtain q t where d: "deliver_job ?v (service_sample None) ''worker-0'' start_job_sample service_state_sample = (q, t)"
    by (cases "deliver_job ?v (service_sample None) ''worker-0'' start_job_sample service_state_sample")
  show ?thesis
    using delivered_job_is_settled_by_its_end [OF d run] d by (auto simp: settlement_def)
qed

theorem busy_workspace_fails_the_workflow_witness:
  "\<exists>t. deliver_job (service_host_sample gate_sample False) (service_sample (Some manager_sample)) ''worker-0''
         resume_job_sample service_state_sample = (Inr (), t)
     \<and> sv_trace t = [Updated_graph ''w'' (failed_update ''WorkspaceBusy''), Failed_job resume_job_sample ''WorkspaceBusy'']"
proof -
  have "wj_workflow_id resume_job_sample = ''w''" by (simp add: resume_job_sample_def)
  then show ?thesis
    using busy_workspace_fails_the_workflow [of "service_sample (Some manager_sample)" manager_sample
        "service_host_sample gate_sample False" resume_job_sample service_state_sample "''worker-0''"] by simp
qed

theorem cancellation_keeps_only_finished_work_witness:
  "\<exists>t. cancel_workflow (service_host_sample running_sample True) ''w'' service_state_sample = (Inr (), t)
     \<and> w_plan (apply_update (sample_state [sample_task 1 COMPLETED, sample_task 2 ESCALATED])
          (cancel_update 100 [sample_task 1 COMPLETED, sample_task 2 ESCALATED]))
       = [sample_task 1 COMPLETED, cancelled_task 100 (sample_task 2 ESCALATED)]"
proof -
  let ?plan = "[sample_task 1 COMPLETED, sample_task 2 ESCALATED]"
  have vals: "sn_values running_sample = Some (sample_state ?plan)" "sn_has_phase running_sample"
      "w_plan (sample_state ?plan) = ?plan" "w_phase (sample_state ?plan) = PH_EVALUATING"
    by (simp_all add: running_sample_def gate_sample_def sample_state_def)
  have "io_wp (cancel_workflow (service_host_sample running_sample True) ''w'')
      (\<lambda>_ t. sv_trace t = [Saw_graph ''w'' running_sample, Saw_job ''w'' None, Cancelled_jobs ''w'',
                  Saw_graph ''w'' running_sample, Updated_graph ''w'' (cancel_update 100 ?plan)])
      (\<lambda>_ _. False) service_state_sample"
    by (simp add: cancel_workflow_def ask_definitions reported_phase_def vals terminal_phases_def stop_invocation_def)
       (simp add: service_state_sample_def sample_state_def)
  then obtain t where t: "cancel_workflow (service_host_sample running_sample True) ''w'' service_state_sample = (Inr (), t)"
      and trace: "sv_trace t = [Saw_graph ''w'' running_sample, Saw_job ''w'' None, Cancelled_jobs ''w'',
                  Saw_graph ''w'' running_sample, Updated_graph ''w'' (cancel_update 100 ?plan)]"
    unfolding io_wp_noraise by auto
  obtain now where now: "cancel_update 100 ?plan = cancel_update now ?plan"
      and left: "\<forall>st. distinct (map t_id (w_plan st)) \<and> (\<forall>task\<in>set (w_plan st). t_updated_at task \<le> now) \<longrightarrow>
          w_phase (apply_update st (cancel_update now (w_plan st))) = PH_CANCELLED
          \<and> w_plan (apply_update st (cancel_update now (w_plan st)))
            = map (\<lambda>task. if t_status task = COMPLETED then task else cancelled_task now task) (w_plan st)"
    using cancellation_keeps_only_finished_work [OF t] trace vals by auto
  have "now = 100" using now by (simp add: cancel_update_def cancelled_task_def sample_task_def no_update_def)
  then have "w_plan (apply_update (sample_state ?plan) (cancel_update 100 ?plan))
      = map (\<lambda>task. if t_status task = COMPLETED then task else cancelled_task 100 task) ?plan"
    using left [rule_format, of "sample_state ?plan"] vals by (simp add: sample_task_def)
  then show ?thesis using t by (simp add: sample_task_def)
qed

end
