(* ===== verification/Text_Edit.thy ===== *)
theory Text_Edit imports Command_Policy begin

text \<open>
  Replacing a passage of a text, as the executor's operations do it
  (\<open>app/infrastructure/workspace_runtime.py\<close>) and as the tool \<open>edit_file\<close> does it
  (\<open>app/agents/tools.py\<close>): the exact occurrences of the passage, else the runs of lines that equal
  it up to trailing blanks, else up to indentation. The program has the routine twice; both copies
  are modelled and compared.
\<close>

definition nl :: char where "nl = CHR 0x0A"

definition lstrip :: "string \<Rightarrow> string" where
  "lstrip s = dropWhile is_space s"

text \<open>\<open>s.strip("\n")\<close>.\<close>

definition strip_newlines :: "string \<Rightarrow> string" where
  "strip_newlines s = rev (dropWhile (\<lambda>c. c = nl) (rev (dropWhile (\<lambda>c. c = nl) s)))"

definition text_lines :: "string \<Rightarrow> string list" where
  "text_lines s = split_on nl s"

text \<open>\<open>s[start:end]\<close> for indices within the text.\<close>

definition slice :: "nat \<Rightarrow> nat \<Rightarrow> string \<Rightarrow> string" where
  "slice a b s = drop a (take b s)"

text \<open>\<open>re.finditer(re.escape(search), text)\<close>: the occurrences from left to right that do not overlap.
  \<open>skip\<close> counts the characters of the last one still to pass.\<close>

fun exact_spans :: "nat \<Rightarrow> nat \<Rightarrow> string \<Rightarrow> string \<Rightarrow> (nat \<times> nat) list" where
  "exact_spans i skip search [] = []"
| "exact_spans i skip search (c # s) =
     (if skip > 0 then exact_spans (Suc i) (skip - 1) search s
      else if starts_with (c # s) search
      then (i, i + length search) # exact_spans (Suc i) (length search - 1) search s
      else exact_spans (Suc i) 0 search s)"

section \<open>The executor's operations\<close>

definition apply_error :: "string \<Rightarrow> exc" where
  "apply_error m = Exc (OtherError ''OperationApplyError'') m"

definition line_offsets :: "string \<Rightarrow> nat list" where
  "line_offsets text = foldl (\<lambda>offsets line. offsets @ [last offsets + length line + 1]) [0]
     (butlast (text_lines text))"

definition normal_line :: "bool \<Rightarrow> string \<Rightarrow> string" where
  "normal_line ignore_indent line = (if ignore_indent then strip line else rstrip line)"

definition find_line_tolerant_spans :: "string \<Rightarrow> string \<Rightarrow> bool \<Rightarrow> (nat \<times> nat) list" where
  "find_line_tolerant_spans text search ignore_indent =
     (let lines = text_lines text;
          search_lines = map (normal_line ignore_indent) (text_lines (strip_newlines search))
      in if search_lines = [] \<or> (\<forall>l \<in> set search_lines. l = []) then []
         else let offsets = line_offsets text; width = length search_lines
              in map (\<lambda>index. (offsets ! index,
                               offsets ! (index + width - 1) + length (lines ! (index + width - 1))))
                   (filter (\<lambda>index. map (normal_line ignore_indent) (take width (drop index lines)) = search_lines)
                      [0..<length lines + 1 - width]))"

definition first_indent :: "string \<Rightarrow> string" where
  "first_indent block =
     (case find (\<lambda>line. strip line \<noteq> []) (text_lines block) of
        None \<Rightarrow> []
      | Some line \<Rightarrow> take (length line - length (lstrip line)) line)"

definition reindent_line :: "string \<Rightarrow> string \<Rightarrow> string \<Rightarrow> string" where
  "reindent_line target source line =
     (if strip line = [] then line
      else if source \<noteq> [] \<and> starts_with line source then target @ drop (length source) line
      else if source = [] then target @ line
      else line)"

definition reindent_replacement :: "string \<Rightarrow> string \<Rightarrow> string \<Rightarrow> string" where
  "reindent_replacement original search replacement =
     (let target = first_indent original; source = first_indent search
      in if target = source then replacement
         else join [nl] (map (reindent_line target source) (text_lines replacement)))"

text \<open>\<open>xs[i]\<close>: a negative index counts from the end.\<close>

definition py_index :: "'a list \<Rightarrow> int \<Rightarrow> 'a result" where
  "py_index xs i =
     (let k = (if i < 0 then i + int (length xs) else i)
      in if 0 \<le> k \<and> k < int (length xs) then Inr (xs ! nat k)
         else Inl (Exc (OtherError ''IndexError'') ''list index out of range''))"

definition found_spans :: "string \<Rightarrow> string \<Rightarrow> (nat \<times> nat) list \<times> bool" where
  "found_spans text search =
     (let exact = exact_spans 0 0 search text;
          spaced = (if exact = [] \<and> nl \<in> set search then find_line_tolerant_spans text search False else exact)
      in if spaced = [] \<and> nl \<in> set search
         then let loose = find_line_tolerant_spans text search True in (loose, loose \<noteq> [])
         else (spaced, False))"

definition find_replace_span_ex :: "string \<Rightarrow> string \<Rightarrow> int option \<Rightarrow> (nat \<times> nat \<times> bool) result" where
  "find_replace_span_ex text search occurrence =
     (if search = [] then Inl (apply_error ''`search` vazio.'')
      else case found_spans text search of (spans, indent_tolerant) \<Rightarrow>
        if spans = []
        then Inl (apply_error (''trecho `search` nao encontrado no arquivo atual; copie-o ''
               @ ''literalmente das evidencias (indentacao e linhas iguais).''))
        else case occurrence of
          None \<Rightarrow>
            if length spans > 1
            then Inl (apply_error (''trecho `search` aparece '' @ show_nat (length spans)
                   @ '' vezes; amplie o trecho para torna-lo unico ou informe `occurrence`.''))
            else Inr (fst (hd spans), snd (hd spans), indent_tolerant)
        | Some n \<Rightarrow>
            if n > int (length spans)
            then Inl (apply_error (''`occurrence`='' @ show_int n @ '', mas o trecho aparece apenas ''
                   @ show_nat (length spans) @ '' vez(es).''))
            else case py_index spans (n - 1) of
              Inl e \<Rightarrow> Inl e
            | Inr (a, b) \<Rightarrow> Inr (a, b, indent_tolerant))"

definition find_replace_span :: "string \<Rightarrow> string \<Rightarrow> int option \<Rightarrow> (nat \<times> nat) result" where
  "find_replace_span text search occurrence =
     (case find_replace_span_ex text search occurrence of Inl e \<Rightarrow> Inl e | Inr (a, b, _) \<Rightarrow> Inr (a, b))"

definition apply_replace :: "string \<Rightarrow> string \<Rightarrow> string \<Rightarrow> int option \<Rightarrow> string result" where
  "apply_replace before search replacement occurrence =
     (case find_replace_span_ex before search occurrence of
        Inl e \<Rightarrow> Inl e
      | Inr (a, b, indent_tolerant) \<Rightarrow>
          let text = (if indent_tolerant then reindent_replacement (slice a b before) search replacement
                      else replacement)
          in Inr (take a before @ text @ drop b before))"

section \<open>The tool's copy\<close>

definition tool_line_offsets :: "string \<Rightarrow> nat list" where
  "tool_line_offsets text = foldl (\<lambda>offsets line. offsets @ [last offsets + length line + 1]) [0]
     (butlast (text_lines text))"

definition tool_find_line_tolerant_spans :: "string \<Rightarrow> string \<Rightarrow> bool \<Rightarrow> (nat \<times> nat) list" where
  "tool_find_line_tolerant_spans text search ignore_indent =
     (let lines = text_lines text;
          normalize = (\<lambda>line. if ignore_indent then strip line else rstrip line);
          search_lines = map normalize (text_lines (strip_newlines search))
      in if search_lines = [] \<or> (\<forall>l \<in> set search_lines. l = []) then []
         else let offsets = tool_line_offsets text; width = length search_lines
              in map (\<lambda>index. (offsets ! index,
                               offsets ! (index + width - 1) + length (lines ! (index + width - 1))))
                   (filter (\<lambda>index. map normalize (take width (drop index lines)) = search_lines)
                      [0..<length lines + 1 - width]))"

definition tool_first_indent :: "string \<Rightarrow> string" where
  "tool_first_indent block =
     (case find (\<lambda>line. strip line \<noteq> []) (text_lines block) of
        None \<Rightarrow> []
      | Some line \<Rightarrow> take (length line - length (lstrip line)) line)"

definition tool_reindent_replacement :: "string \<Rightarrow> string \<Rightarrow> string \<Rightarrow> string" where
  "tool_reindent_replacement original search replacement =
     (let target = tool_first_indent original; source = tool_first_indent search
      in if target = source then replacement
         else join [nl] (map (\<lambda>line.
                if strip line = [] then line
                else if source \<noteq> [] \<and> starts_with line source then target @ drop (length source) line
                else if source = [] then target @ line
                else line) (text_lines replacement)))"

definition tool_apply_replace :: "string \<Rightarrow> string \<Rightarrow> string \<Rightarrow> int option \<Rightarrow> string result" where
  "tool_apply_replace before search replacement occurrence =
     (if search = [] then Inl (tool_error ''`search` vazio.'')
      else
        let exact = exact_spans 0 0 search before;
            spaced = (if exact = [] \<and> nl \<in> set search
                      then tool_find_line_tolerant_spans before search False else exact);
            loose = (if spaced = [] \<and> nl \<in> set search
                     then tool_find_line_tolerant_spans before search True else spaced);
            indent_tolerant = (spaced = [] \<and> nl \<in> set search \<and> loose \<noteq> []);
            replaced = (\<lambda>(a, b).
              let text = (if indent_tolerant then tool_reindent_replacement (slice a b before) search replacement
                          else replacement)
              in take a before @ text @ drop b before)
        in if loose = []
           then Inl (tool_error (''trecho `search` nao encontrado no arquivo atual; use read_file ''
                  @ ''para conferir o conteudo exato.''))
           else case occurrence of
             None \<Rightarrow>
               if length loose > 1
               then Inl (tool_error (''trecho `search` aparece '' @ show_nat (length loose)
                      @ '' vezes; amplie o trecho para torna-lo unico ou informe `occurrence`.''))
               else Inr (replaced (hd loose))
           | Some n \<Rightarrow>
               if n < 1 \<or> n > int (length loose)
               then Inl (tool_error (''`occurrence`='' @ show_int n @ '', mas o trecho aparece apenas ''
                      @ show_nat (length loose) @ '' vez(es).''))
               else Inr (replaced (loose ! nat (n - 1))))"

section \<open>Lines\<close>

lemma split_on_aux_acc:
  "split_on_aux d acc s = (case split_on_aux d [] s of [] \<Rightarrow> [] | l # ls \<Rightarrow> (rev acc @ l) # ls)"
proof (induction s arbitrary: acc)
  case (Cons c s)
  show ?case
    using Cons.IH [of "c # acc"] Cons.IH [of "[c]"] by (simp split: list.splits)
qed simp

lemma split_on_Nil [simp]: "split_on d [] = [[]]"
  by (simp add: split_on_def)

lemma split_on_nonempty [simp]: "split_on d s \<noteq> []"
proof -
  have "split_on_aux d acc s \<noteq> []" for acc by (induction s arbitrary: acc) simp_all
  then show ?thesis by (simp add: split_on_def)
qed

lemma split_on_sep [simp]: "split_on d (d # s) = [] # split_on d s"
  by (simp add: split_on_def)

lemma split_on_Cons: "c \<noteq> d \<Longrightarrow> split_on d (c # s) = (c # hd (split_on d s)) # tl (split_on d s)"
  using split_on_nonempty [of d s] split_on_aux_acc [of d "[c]" s]
  by (auto simp: split_on_def split: list.splits)

lemma split_on_append: "split_on d (s @ d # t) = split_on d s @ split_on d t"
proof (induction s)
  case (Cons c s)
  then show ?case by (cases "c = d") (simp_all add: split_on_Cons)
qed simp

lemma split_on_clean: "l \<in> set (split_on d s) \<Longrightarrow> d \<notin> set l"
proof (induction s arbitrary: l)
  case (Cons c s)
  show ?case
  proof (cases "c = d")
    case False
    have "hd (split_on d s) \<in> set (split_on d s)" by simp
    with Cons False show ?thesis
      by (auto simp: split_on_Cons dest: list.set_sel(2) [OF split_on_nonempty])
  qed (use Cons in auto)
qed simp

lemmas text_lines_simps [simp] =
  split_on_Nil [of nl, folded text_lines_def] split_on_nonempty [of nl, folded text_lines_def]
  split_on_sep [of nl, folded text_lines_def]
lemmas text_lines_Cons = split_on_Cons [of _ nl, folded text_lines_def]
lemmas text_lines_append = split_on_append [of nl, folded text_lines_def]
lemmas text_lines_clean = split_on_clean [of _ nl, folded text_lines_def]

lemma join_Cons: "xs \<noteq> [] \<Longrightarrow> join sep (x # xs) = x @ sep @ join sep xs"
  by (cases xs) simp_all

lemma join_text_lines [simp]: "join [nl] (text_lines s) = s"
proof (induction s)
  case (Cons c s)
  show ?case
  proof (cases "c = nl")
    case False
    obtain l ls where l: "text_lines s = l # ls" using text_lines_simps(2) by (cases "text_lines s") auto
    with Cons False show ?thesis by (cases ls) (simp_all add: text_lines_Cons)
  qed (simp add: join_Cons Cons del: join.simps(2))
qed simp

text \<open>What the first lines of a text take, with their newlines, and what follows a line.\<close>

definition ended_lines :: "string list \<Rightarrow> string" where
  "ended_lines ls = concat (map (\<lambda>l. l @ [nl]) ls)"

definition begun_lines :: "string list \<Rightarrow> string" where
  "begun_lines ls = concat (map (\<lambda>l. nl # l) ls)"

lemma join_begun: "join [nl] (x # ls) = x @ begun_lines ls"
  by (induction ls arbitrary: x) (simp_all add: begun_lines_def)

lemma join_window: "w \<noteq> [] \<Longrightarrow> join [nl] (xs @ w @ ys) = ended_lines xs @ join [nl] w @ begun_lines ys"
proof (induction xs)
  case Nil
  show ?case
    using Nil by (cases w) (simp_all add: join_begun ended_lines_def begun_lines_def del: join.simps(2))
qed (simp add: join_Cons ended_lines_def del: join.simps(2))

definition offset :: "string list \<Rightarrow> nat \<Rightarrow> nat" where
  "offset ls i = length (ended_lines (take i ls))"

lemma foldl_offsets:
  "foldl (\<lambda>offsets line. offsets @ [last offsets + length line + 1]) [0] ls = map (offset ls) [0..<Suc (length ls)]"
proof (induction ls rule: rev_induct)
  case (snoc l ls)
  have "map (offset (ls @ [l])) [0..<Suc (length ls)] = map (offset ls) [0..<Suc (length ls)]"
    by (simp add: offset_def)
  with snoc show ?case by (simp add: offset_def ended_lines_def)
qed (simp add: offset_def ended_lines_def)

lemma line_offsets_nth: "i < length (text_lines s) \<Longrightarrow> line_offsets s ! i = offset (text_lines s) i"
proof -
  let ?ls = "text_lines s"
  assume i: "i < length ?ls"
  have "Suc (length ?ls - 1) = length ?ls" by simp
  then have "line_offsets s = map (offset (butlast ?ls)) [0..<length ?ls]"
    unfolding line_offsets_def foldl_offsets by simp
  moreover have "offset (butlast ?ls) i = offset ?ls i"
    using i by (simp add: offset_def take_butlast)
  ultimately show ?thesis using i by simp
qed

lemma window_lengths:
  assumes "i + w \<le> length ls" and "0 < w"
  shows "offset ls (i + w - 1) + length (ls ! (i + w - 1))
         = offset ls i + length (join [nl] (take w (drop i ls)))"
proof -
  have "offset ls (i + k) + length (ls ! (i + k)) = offset ls i + length (join [nl] (take (Suc k) (drop i ls)))"
    if "i + k < length ls" for k
    using that
  proof (induction k)
    case 0
    then show ?case by (simp add: take_Suc_conv_app_nth)
  next
    case (Suc k)
    have split: "join [nl] (xs @ [l]) = join [nl] xs @ nl # l" if "xs \<noteq> []" for xs l
      using that by (cases xs) (simp_all add: join_begun begun_lines_def del: join.simps(2))
    have "take (Suc (Suc k)) (drop i ls) = take (Suc k) (drop i ls) @ [ls ! Suc (i + k)]"
      using Suc.prems by (simp add: take_Suc_conv_app_nth)
    moreover have "offset ls (i + Suc k) = offset ls (i + k) + length (ls ! (i + k)) + 1"
      using Suc.prems by (simp add: offset_def ended_lines_def take_Suc_conv_app_nth)
    ultimately show ?case using Suc by (simp add: split)
  qed
  from this [of "w - 1"] show ?thesis using assms by simp
qed

section \<open>Spans\<close>

lemma exact_spans_sound:
  "(a, b) \<in> set (exact_spans i skip search s) \<Longrightarrow>
   i \<le> a \<and> b = a + length search \<and> starts_with (drop (a - i) s) search"
proof (induction i skip search s rule: exact_spans.induct)
  case (2 i skip search c s)
  then show ?case by (auto split: if_splits simp: drop_Cons')
qed simp

lemma exact_spans_complete:
  assumes "search \<noteq> []" and "starts_with (drop p s) search" and "skip \<le> p" and "p < length s"
  shows "\<exists>a b. (a, b) \<in> set (exact_spans i skip search s) \<and> a \<le> i + p \<and> i + p < b"
  using assms
proof (induction i skip search s arbitrary: p rule: exact_spans.induct)
  case (2 i skip search c s)
  show ?case
  proof (cases p)
    case 0
    with 2 show ?thesis by (intro exI [of _ i] exI [of _ "i + length search"]) auto
  next
    case (Suc q)
    note q = this
    show ?thesis
    proof (cases "skip > 0")
      case True
      then show ?thesis using 2(1) [OF True, of q] 2(4-) q by auto
    next
      case no: False
      show ?thesis
      proof (cases "starts_with (c # s) search")
        case True
        note match = True
        show ?thesis
        proof (cases "p < length search")
          case False
          then have "length search - 1 \<le> q" using q by simp
          then show ?thesis using 2(2) [OF no match, of q] 2(4-) q match no by (simp; blast)
        next
          case True
          with no match show ?thesis
            by (intro exI [of _ i] exI [of _ "i + length search"]) simp
        qed
      next
        case False
        then show ?thesis using 2(3) [OF no False, of q] 2(4-) q no by auto
      qed
    qed
  qed
qed simp

text \<open>A passage of whole lines that equals the wanted one up to the blanks that \<open>ig\<close> ignores.\<close>

definition line_passage :: "bool \<Rightarrow> string \<Rightarrow> string \<Rightarrow> string \<Rightarrow> string \<Rightarrow> bool" where
  "line_passage ig search pre old post \<longleftrightarrow>
     (pre = [] \<or> last pre = nl) \<and> (post = [] \<or> hd post = nl) \<and>
     map (normal_line ig) (text_lines old) = map (normal_line ig) (text_lines (strip_newlines search))"

lemma last_ended: "ended_lines ls = [] \<or> last (ended_lines ls) = nl"
  by (induction ls rule: rev_induct) (simp_all add: ended_lines_def)

lemma hd_begun: "begun_lines ls = [] \<or> hd (begun_lines ls) = nl"
  by (cases ls) (simp_all add: begun_lines_def)

lemma split_on_join:
  "ls \<noteq> [] \<Longrightarrow> (\<And>l. l \<in> set ls \<Longrightarrow> d \<notin> set l) \<Longrightarrow> split_on d (join [d] ls) = ls"
proof (induction ls)
  case (Cons l ls)
  have plain: "d \<notin> set l \<Longrightarrow> split_on d l = [l]" for l
    by (induction l) (auto simp: split_on_Cons)
  show ?case
  proof (cases "ls = []")
    case False
    with Cons show ?thesis
      using split_on_append [of d l "join [d] ls"] by (simp add: join_Cons plain del: join.simps(2))
  qed (use Cons.prems plain in simp)
qed simp

lemmas text_lines_join = split_on_join [of _ nl, folded text_lines_def]

lemma window_parts: "ls = take i ls @ take w (drop i ls) @ drop (i + w) ls"
  by (metis append_take_drop_id drop_drop add.commute)

lemma tolerant_spans_sound:
  assumes "(a, b) \<in> set (find_line_tolerant_spans text search ig)"
  shows "a \<le> b \<and> b \<le> length text \<and> line_passage ig search (take a text) (slice a b text) (drop b text)"
proof -
  let ?ls = "text_lines text" and ?w = "length (text_lines (strip_newlines search))"
  have wpos: "0 < ?w" by simp
  from assms obtain i where i: "i < length ?ls + 1 - ?w"
    and win: "map (normal_line ig) (take ?w (drop i ?ls)) = map (normal_line ig) (text_lines (strip_newlines search))"
    and ab: "a = line_offsets text ! i" "b = line_offsets text ! (i + ?w - 1) + length (?ls ! (i + ?w - 1))"
    by (auto simp: find_line_tolerant_spans_def Let_def split: if_splits)
  define win_lines where "win_lines = take ?w (drop i ?ls)"
  have len: "length win_lines = ?w" using i by (simp add: win_lines_def)
  then have wn: "win_lines \<noteq> []" using wpos by auto
  have parts: "?ls = take i ?ls @ win_lines @ drop (i + ?w) ?ls"
    unfolding win_lines_def by (rule window_parts)
  define A Z where "A = ended_lines (take i ?ls)" and "Z = begun_lines (drop (i + ?w) ?ls)"
  have whole: "text = A @ join [nl] win_lines @ Z"
    using join_window [OF wn, of "take i ?ls" "drop (i + ?w) ?ls"] parts by (simp add: A_def Z_def)
  have "i < length ?ls" using i wpos by linarith
  then have a: "a = length A"
    by (simp add: ab line_offsets_nth offset_def A_def)
  have fits: "i + ?w \<le> length ?ls" and last: "i + ?w - 1 < length ?ls" using i wpos by linarith+
  have "offset ?ls i = length A" by (simp add: offset_def A_def)
  then have b: "b = length A + length (join [nl] win_lines)"
    unfolding ab(2) line_offsets_nth [OF last] window_lengths [OF fits wpos] win_lines_def by simp
  have cut: "take a text = A" "slice a b text = join [nl] win_lines" "drop b text = Z" "b \<le> length text"
    by (simp_all add: whole a b slice_def)
  have "text_lines (join [nl] win_lines) = win_lines"
    by (rule text_lines_join [OF wn]) (use text_lines_clean in \<open>auto simp: win_lines_def dest: in_set_takeD in_set_dropD\<close>)
  then show ?thesis
    using win last_ended [of "take i ?ls"] hd_begun [of "drop (i + ?w) ?ls"]
    by (simp add: line_passage_def cut A_def [symmetric] Z_def [symmetric])
      (simp add: win_lines_def a b)
qed

lemma begun_join: "ls \<noteq> [] \<Longrightarrow> begun_lines ls = nl # join [nl] ls"
  by (cases ls) (simp_all add: join_begun begun_lines_def del: join.simps(2))

lemma ended_join: "ls \<noteq> [] \<Longrightarrow> ended_lines ls = join [nl] ls @ [nl]"
proof (induction ls)
  case (Cons l ls)
  then show ?case
    by (cases "ls = []") (simp add: ended_lines_def, simp add: ended_lines_def join_Cons del: join.simps(2))
qed simp

lemma whole_lines:
  assumes "pre = [] \<or> last pre = nl" and "post = [] \<or> hd post = nl"
  obtains xs ys where "text_lines (pre @ old @ post) = xs @ text_lines old @ ys"
    and "pre = ended_lines xs" and "post = begun_lines ys"
proof -
  obtain ys where ys: "text_lines (old @ post) = text_lines old @ ys" "post = begun_lines ys"
  proof (cases post)
    case Nil
    then show ?thesis using that [of "[]"] by (simp add: begun_lines_def)
  next
    case (Cons c q)
    with assms(2) show ?thesis
      using that [of "text_lines q"] by (simp add: text_lines_append begun_join)
  qed
  obtain xs where "text_lines (pre @ old @ post) = xs @ text_lines (old @ post)" "pre = ended_lines xs"
  proof (cases pre rule: rev_cases)
    case Nil
    then show ?thesis using that [of "[]"] by (simp add: ended_lines_def)
  next
    case (snoc p c)
    with assms(1) show ?thesis
      using that [of "text_lines p"] by (simp add: text_lines_append ended_join)
  qed
  with ys that show ?thesis by simp
qed

lemma tolerant_span_at:
  assumes "i < length (text_lines text) + 1 - length (text_lines (strip_newlines search))"
    and "map (normal_line ig) (take (length (text_lines (strip_newlines search))) (drop i (text_lines text)))
         = map (normal_line ig) (text_lines (strip_newlines search))"
    and "\<exists>l \<in> set (text_lines (strip_newlines search)). normal_line ig l \<noteq> []"
  shows "(line_offsets text ! i,
          line_offsets text ! (i + length (text_lines (strip_newlines search)) - 1)
          + length (text_lines text ! (i + length (text_lines (strip_newlines search)) - 1)))
         \<in> set (find_line_tolerant_spans text search ig)"
  using assms by (auto simp: find_line_tolerant_spans_def Let_def)

lemma tolerant_spans_complete:
  assumes "line_passage ig search pre old post"
    and "\<exists>l \<in> set (text_lines (strip_newlines search)). normal_line ig l \<noteq> []"
  shows "(length pre, length pre + length old) \<in> set (find_line_tolerant_spans (pre @ old @ post) search ig)"
proof -
  let ?s = "text_lines (strip_newlines search)"
  have same: "map (normal_line ig) (text_lines old) = map (normal_line ig) ?s"
    and ends: "pre = [] \<or> last pre = nl" "post = [] \<or> hd post = nl"
    using assms(1) by (simp_all add: line_passage_def)
  obtain xs ys where ls: "text_lines (pre @ old @ post) = xs @ text_lines old @ ys" and pre: "pre = ended_lines xs"
    using whole_lines [OF ends] by metis
  have w: "length ?s = length (text_lines old)" using arg_cong [OF same, of length] by simp
  have wpos: "0 < length (text_lines old)" by simp
  let ?ls = "xs @ text_lines old @ ys" and ?n = "length (text_lines old)"
  have a: "line_offsets (pre @ old @ post) ! length xs = length pre"
  proof -
    have first: "length xs < length (text_lines (pre @ old @ post))" unfolding ls using wpos by simp
    show ?thesis unfolding line_offsets_nth [OF first] ls by (simp add: offset_def pre)
  qed
  have b: "line_offsets (pre @ old @ post) ! (length xs + ?n - 1) + length (?ls ! (length xs + ?n - 1))
           = length pre + length old"
  proof -
    have last: "length xs + ?n - 1 < length (text_lines (pre @ old @ post))"
      unfolding ls using wpos by (simp only: length_append)
    have fits: "length xs + ?n \<le> length ?ls" by simp
    show ?thesis
      unfolding line_offsets_nth [OF last] ls window_lengths [OF fits wpos] by (simp add: offset_def pre)
  qed
  have "(length pre, length pre + length old) =
      (line_offsets (pre @ old @ post) ! length xs,
       line_offsets (pre @ old @ post) ! (length xs + length ?s - 1)
       + length (text_lines (pre @ old @ post) ! (length xs + length ?s - 1)))"
    using a b by (simp add: w ls)
  moreover have "length xs < length (text_lines (pre @ old @ post)) + 1 - length ?s" by (simp add: w ls)
  moreover have "map (normal_line ig) (take (length ?s) (drop (length xs) (text_lines (pre @ old @ post))))
      = map (normal_line ig) ?s"
    by (simp add: w ls same)
  ultimately show ?thesis using tolerant_span_at assms(2) by metis
qed

section \<open>The two engines\<close>

lemma tool_line_offsets_eq: "tool_line_offsets = line_offsets"
  by (rule ext) (simp add: tool_line_offsets_def line_offsets_def)

lemma normal_line_eq: "normal_line ig = (\<lambda>line. if ig then strip line else rstrip line)"
  by (rule ext) (simp add: normal_line_def)

lemma tool_spans_eq: "tool_find_line_tolerant_spans = find_line_tolerant_spans"
  unfolding tool_find_line_tolerant_spans_def [abs_def] find_line_tolerant_spans_def [abs_def]
    tool_line_offsets_eq normal_line_eq Let_def ..

lemma tool_reindent_eq: "tool_reindent_replacement = reindent_replacement"
proof -
  have "tool_first_indent = first_indent"
    by (rule ext) (simp add: tool_first_indent_def first_indent_def)
  then show ?thesis
    unfolding tool_reindent_replacement_def [abs_def] reindent_replacement_def [abs_def] reindent_line_def [abs_def]
    by simp
qed

lemmas tool_copies = tool_spans_eq tool_reindent_eq

definition spliced :: "string \<Rightarrow> string \<Rightarrow> string \<Rightarrow> bool \<Rightarrow> nat \<times> nat \<Rightarrow> string" where
  "spliced before search replacement tolerant = (\<lambda>(a, b).
     take a before
     @ (if tolerant then reindent_replacement (slice a b before) search replacement else replacement)
     @ drop b before)"

lemma tool_apply_replace_found:
  "tool_apply_replace before search replacement occurrence = Inr after \<longleftrightarrow>
     search \<noteq> [] \<and> (case found_spans before search of (spans, tolerant) \<Rightarrow> spans \<noteq> [] \<and>
       (case occurrence of
          None \<Rightarrow> length spans = 1 \<and> after = spliced before search replacement tolerant (hd spans)
        | Some n \<Rightarrow> 1 \<le> n \<and> n \<le> int (length spans)
            \<and> after = spliced before search replacement tolerant (spans ! nat (n - 1))))"
proof -
  have one: "length xs = 1 \<longleftrightarrow> xs \<noteq> [] \<and> \<not> length xs > 1" for xs :: "(nat \<times> nat) list"
    by (cases xs) auto
  show ?thesis
    unfolding tool_apply_replace_def found_spans_def tool_copies one
    by (auto simp: Let_def spliced_def split: option.splits)
qed

lemma apply_replace_found:
  "apply_replace before search replacement occurrence = Inr after \<longleftrightarrow>
     search \<noteq> [] \<and> (case found_spans before search of (spans, tolerant) \<Rightarrow> spans \<noteq> [] \<and>
       (case occurrence of
          None \<Rightarrow> length spans = 1 \<and> after = spliced before search replacement tolerant (hd spans)
        | Some n \<Rightarrow> n \<le> int (length spans) \<and>
            (\<exists>span. py_index spans (n - 1) = Inr span \<and> after = spliced before search replacement tolerant span)))"
proof -
  have one: "length xs = 1 \<longleftrightarrow> xs \<noteq> [] \<and> \<not> length xs > 1" for xs :: "(nat \<times> nat) list"
    by (cases xs) auto
  show ?thesis
    unfolding apply_replace_def find_replace_span_ex_def one
    by (auto simp: Let_def spliced_def split: option.splits prod.splits sum.splits)
qed

lemma found_spans_cases:
  assumes "found_spans text search = (spans, tolerant)" and "spans \<noteq> []"
  obtains "spans = exact_spans 0 0 search text" and "\<not> tolerant"
  | "exact_spans 0 0 search text = []" and "nl \<in> set search"
    and "spans = find_line_tolerant_spans text search tolerant"
    and "tolerant \<Longrightarrow> find_line_tolerant_spans text search False = []"
  using assms by (auto simp: found_spans_def Let_def split: if_splits)

lemma tolerant_spans_search:
  "find_line_tolerant_spans text search ig \<noteq> [] \<Longrightarrow>
   \<exists>l \<in> set (text_lines (strip_newlines search)). normal_line ig l \<noteq> []"
  by (auto simp: find_line_tolerant_spans_def Let_def split: if_splits)

lemma contains_iff: "contains s search \<longleftrightarrow> (\<exists>p q. s = p @ search @ q)"
proof (induction s)
  case (Cons c s)
  show ?case
  proof
    assume "contains (c # s) search"
    then show "\<exists>p q. c # s = p @ search @ q"
    proof (cases "starts_with (c # s) search")
      case True
      then show ?thesis by (metis append_Nil starts_with_iff)
    next
      case False
      with \<open>contains (c # s) search\<close> Cons show ?thesis by (metis append_Cons contains.simps(2))
    qed
  next
    assume "\<exists>p q. c # s = p @ search @ q"
    then obtain p q where pq: "c # s = p @ search @ q" by blast
    show "contains (c # s) search"
    proof (cases p)
      case Nil
      then have "starts_with (c # s) search" using pq by (auto simp: starts_with_iff)
      then show ?thesis by simp
    qed (use Cons pq in auto)
  qed
qed simp

lemma exact_spans_occurrence:
  assumes "before = p @ search @ q" and "search \<noteq> []"
  shows "\<exists>a. (a, a + length search) \<in> set (exact_spans 0 0 search before) \<and> a \<le> length p \<and> length p < a + length search"
proof -
  have "starts_with (drop (length p) before) search" "length p < length before" using assms by auto
  from exact_spans_complete [OF assms(2) this(1) _ this(2), of 0 0] obtain a b
    where "(a, b) \<in> set (exact_spans 0 0 search before)" "a \<le> length p" "length p < b" by auto
  moreover from exact_spans_sound [OF this(1)] have "b = a + length search" by simp
  ultimately show ?thesis by blast
qed

lemma slice_parts: "a \<le> b \<Longrightarrow> s = take a s @ slice a b s @ drop b s"
  using window_parts [of s a "b - a"] by (simp add: slice_def drop_take)

text \<open>The passage a span stands for.\<close>

lemma exact_span_passage:
  assumes "(a, b) \<in> set (exact_spans 0 0 search before)"
  shows "before = take a before @ search @ drop b before"
proof -
  from exact_spans_sound [OF assms] have b: "b = a + length search" and "starts_with (drop a before) search"
    by simp_all
  then obtain t where "drop a before = search @ t" by (auto simp: starts_with_iff)
  moreover from this have "drop b before = t"
    using drop_drop [of "length search" a before] by (simp add: b add.commute)
  ultimately show ?thesis by (metis append_take_drop_id)
qed

lemma single_span: "length spans = 1 \<Longrightarrow> x \<in> set spans \<Longrightarrow> hd spans = x"
  by (cases spans) auto

lemma span_cases:
  assumes "tool_apply_replace before search replacement occurrence = Inr after"
  obtains (exact) a b where "(a, b) \<in> set (exact_spans 0 0 search before)"
      and "after = take a before @ replacement @ drop b before" and "search \<noteq> []"
      and "occurrence = None \<Longrightarrow> exact_spans 0 0 search before = [(a, b)]"
  | (lines) ig a b where "exact_spans 0 0 search before = []" and "search \<noteq> []"
      and "(a, b) \<in> set (find_line_tolerant_spans before search ig)"
      and "after = spliced before search replacement ig (a, b)"
      and "ig \<Longrightarrow> find_line_tolerant_spans before search False = []"
      and "occurrence = None \<Longrightarrow> find_line_tolerant_spans before search ig = [(a, b)]"
proof -
  obtain spans tolerant where found: "found_spans before search = (spans, tolerant)" by fastforce
  from assms have some: "search \<noteq> []" "spans \<noteq> []"
    by (simp_all add: tool_apply_replace_found found)
  obtain a b where ab: "(a, b) \<in> set spans" "after = spliced before search replacement tolerant (a, b)"
    "occurrence = None \<Longrightarrow> spans = [(a, b)]"
  proof (cases occurrence)
    case None
    with assms have "length spans = 1" "after = spliced before search replacement tolerant (hd spans)"
      by (simp_all add: tool_apply_replace_found found)
    then show ?thesis using that by (cases spans; cases "hd spans") auto
  next
    case (Some n)
    with assms have n: "nat (n - 1) < length spans"
      "after = spliced before search replacement tolerant (spans ! nat (n - 1))"
      by (auto simp: tool_apply_replace_found found)
    with Some show ?thesis
      using that [of "fst (spans ! nat (n - 1))" "snd (spans ! nat (n - 1))"] nth_mem [OF n(1)] by simp
  qed
  from found some(2) show ?thesis
  proof (cases rule: found_spans_cases)
    case 1
    then show ?thesis using exact [of a b] ab some by (simp add: spliced_def)
  next
    case 2
    then show ?thesis using lines [of a b tolerant] ab some by auto
  qed
qed



text \<open>The tool \<open>edit_file\<close> and the executor's operation \<open>replace\<close> are written twice and do the same:
  for an occurrence number that counts from one, or none, either both refuse or both give the same
  text.\<close>

lemma edit_engines_agree:
  assumes "\<forall>n. occurrence = Some n \<longrightarrow> 1 \<le> n"
  shows "tool_apply_replace before search replacement occurrence = Inr after
     \<longleftrightarrow> apply_replace before search replacement occurrence = Inr after"
proof (cases occurrence)
  case (Some n)
  with assms have "1 \<le> n" by simp
  then show ?thesis
    by (auto simp: tool_apply_replace_found apply_replace_found Some py_index_def Let_def
        simp del: split_paired_Ex split: prod.splits)
qed (simp add: tool_apply_replace_found apply_replace_found)

lemma edit_engines_agree_witness:
  "tool_apply_replace ''a b a'' ''a'' ''c'' (Some 2) = Inr ''a b c''
   \<and> apply_replace ''a b a'' ''a'' ''c'' (Some 2) = Inr ''a b c''"
proof -
  have "tool_apply_replace ''a b a'' ''a'' ''c'' (Some 2) = Inr ''a b c''" by code_simp
  then show ?thesis using edit_engines_agree [of "Some 2" "''a b a''" "''a''" "''c''" "''a b c''"] by simp
qed

text \<open>The two disagree on an occurrence number below one. The tool refuses it; the operation only
  refuses a number that is too large and takes the others as Python indices: zero edits the last
  occurrence, minus one the last but one, and a number that goes past the first raises an
  \<open>IndexError\<close>, which is no \<open>OperationApplyError\<close> and so aborts the task.\<close>

lemma zeroth_occurrence_edits_the_last:
  assumes "found_spans before search = (spans, tolerant)" and "spans \<noteq> []" and "search \<noteq> []" and "n \<le> 0"
  shows "(\<exists>m. tool_apply_replace before search replacement (Some n) = Inl (tool_error m)) \<and>
    apply_replace before search replacement (Some n) =
      (if - n < int (length spans)
       then Inr (spliced before search replacement tolerant (spans ! nat (n - 1 + int (length spans))))
       else Inl (Exc (OtherError ''IndexError'') ''list index out of range''))"
proof
  have len: "0 < length spans" using assms(2) by simp
  show "\<exists>m. tool_apply_replace before search replacement (Some n) = Inl (tool_error m)"
    using assms by (auto simp: tool_apply_replace_def Let_def)
  show "apply_replace before search replacement (Some n) =
      (if - n < int (length spans)
       then Inr (spliced before search replacement tolerant (spans ! nat (n - 1 + int (length spans))))
       else Inl (Exc (OtherError ''IndexError'') ''list index out of range''))"
    using assms len
    by (auto simp: apply_replace_def find_replace_span_ex_def py_index_def spliced_def Let_def
        split: prod.splits)
qed

lemma zeroth_occurrence_edits_the_last_witness:
  "(\<exists>m. tool_apply_replace ''a b a'' ''a'' ''c'' (Some 0) = Inl (tool_error m))
   \<and> apply_replace ''a b a'' ''a'' ''c'' (Some 0) = Inr ''a b c''"
proof -
  have found: "found_spans ''a b a'' ''a'' = ([(0, 1), (4, 5)], False)" by code_simp
  show ?thesis
    using zeroth_occurrence_edits_the_last [OF found, of 0 "''c''"] by (simp add: spliced_def)
qed

end
