(* ===== verification/Workspace_Files.thy ===== *)
theory Workspace_Files imports Text_Edit Effect_Monad Build_Profile begin

text \<open>
  The files an agent's tools work on: a tree of text files, binary files, folders and symbolic
  links, what \<open>pathlib\<close> makes of a path (\<open>Path.resolve\<close> of Python 3.12, which follows every link and
  refuses a loop), and the reads and writes the tools make, each with the place it reaches once
  links are followed. \<open>fnmatch\<close> is modelled in full. The operating system never refuses an access
  for want of permission or space, and the limit of forty links is not modelled.
\<close>

section \<open>Patterns of names\<close>

datatype glob = Star | Any_char | One_char char | One_of bool "(char \<times> char) list"

definition char_in :: "char \<Rightarrow> char \<times> char \<Rightarrow> bool" where
  "char_in c = (\<lambda>(a, b). (of_char a :: nat) \<le> of_char c \<and> (of_char c :: nat) \<le> of_char b)"

fun class_ranges :: "string \<Rightarrow> (char \<times> char) list" where
  "class_ranges [] = []"
| "class_ranges [a] = [(a, a)]"
| "class_ranges [a, b] = [(a, a), (b, b)]"
| "class_ranges (a # b # c # s) =
     (if b = CHR ''-'' then (a, c) # class_ranges s else (a, a) # class_ranges (b # c # s))"

text \<open>How many characters of the text after an opening bracket belong to the class, if it closes.\<close>

definition class_length :: "string \<Rightarrow> nat option" where
  "class_length s =
     (let bang = (if starts_with s ''!'' then 1 else 0);
          first = (if starts_with (drop bang s) '']'' then bang + 1 else bang);
          inner = length (takeWhile (\<lambda>c. c \<noteq> CHR '']'') (drop first s))
      in if first + inner < length s then Some (first + inner) else None)"

function parse_glob :: "string \<Rightarrow> glob list" where
  "parse_glob [] = []"
| "parse_glob (c # s) =
     (if c = CHR ''*'' then Star # parse_glob s
      else if c = CHR ''?'' then Any_char # parse_glob s
      else if c = CHR ''['' then
        (case class_length s of
           None \<Rightarrow> One_char c # parse_glob s
         | Some k \<Rightarrow>
             One_of (starts_with s ''!'')
               (class_ranges (if starts_with s ''!'' then drop 1 (take k s) else take k s))
             # parse_glob (drop (k + 1) s))
      else One_char c # parse_glob s)"
  by pat_completeness auto
termination by (relation "measure length") auto

fun glob_match :: "glob list \<Rightarrow> string \<Rightarrow> bool" where
  "glob_match [] s = (s = [])"
| "glob_match (Star # ts) s =
     (glob_match ts s \<or> (case s of [] \<Rightarrow> False | c # s' \<Rightarrow> glob_match (Star # ts) s'))"
| "glob_match (Any_char # ts) s = (case s of [] \<Rightarrow> False | c # s' \<Rightarrow> glob_match ts s')"
| "glob_match (One_char d # ts) s = (case s of [] \<Rightarrow> False | c # s' \<Rightarrow> c = d \<and> glob_match ts s')"
| "glob_match (One_of neg rs # ts) s =
     (case s of [] \<Rightarrow> False | c # s' \<Rightarrow> neg \<noteq> (\<exists>r \<in> set rs. char_in c r) \<and> glob_match ts s')"

definition fnmatchcase :: "string \<Rightarrow> string \<Rightarrow> bool" where
  "fnmatchcase name pattern = glob_match (parse_glob pattern) name"

section \<open>Files\<close>

type_synonym location = "string list"

datatype file_node = Text_file string | Binary_file nat | Folder | Link string

type_synonym files = "(location, file_node) pydict"

definition node_at :: "files \<Rightarrow> location \<Rightarrow> file_node option" where
  "node_at fs p = (if p = [] then Some Folder else map_of fs p)"

text \<open>\<open>os.path.realpath\<close>: names still to enter, and marks where the walk of a link's target ends. A
  link met again while its own target is walked is a loop.\<close>

datatype walk_step = Enter string | Reached location

abbreviation links_of :: "files \<Rightarrow> location set" where
  "links_of fs \<equiv> {p. \<exists>t. (p, Link t) \<in> set fs}"

lemma finite_links: "finite (links_of fs)"
proof -
  have "links_of fs \<subseteq> fst ` set fs" by force
  then show ?thesis by (rule finite_subset) simp
qed

lemma unseen_links_le:
  "card (links_of fs - insert l S) < card (links_of fs - S) \<or> card (links_of fs - insert l S) = card (links_of fs - S)"
  unfolding le_less [symmetric] by (rule card_mono) (auto intro: finite_links)

lemma unseen_links_less:
  assumes "node_at fs p = Some (Link t)" and "map_of seen p = None"
  shows "card (links_of fs - insert p (fst ` set seen)) < card (links_of fs - fst ` set seen)"
proof (rule psubset_card_mono)
  have "(p, Link t) \<in> set fs" using assms(1) by (auto simp: node_at_def split: if_splits dest: map_of_SomeD)
  moreover have "p \<notin> fst ` set seen" using assms(2) by (simp add: map_of_eq_None_iff)
  ultimately show "links_of fs - insert p (fst ` set seen) \<subset> links_of fs - fst ` set seen" by blast
qed (simp add: finite_links)

function real_walk ::
  "files \<Rightarrow> location \<Rightarrow> walk_step list \<Rightarrow> (location, location option) pydict \<Rightarrow> location option" where
  "real_walk fs here [] seen = Some here"
| "real_walk fs here (Reached l # rest) seen = real_walk fs here rest ((l, Some here) # seen)"
| "real_walk fs here (Enter name # rest) seen =
     (if name = [] \<or> name = ''.'' then real_walk fs here rest seen
      else if name = ''..'' then real_walk fs (butlast here) rest seen
      else case node_at fs (here @ [name]) of
        Some (Link target) \<Rightarrow>
          (case map_of seen (here @ [name]) of
             Some (Some l) \<Rightarrow> real_walk fs l rest seen
           | Some None \<Rightarrow> None
           | None \<Rightarrow>
               real_walk fs (if starts_with target ''/'' then [] else here)
                 (map Enter (split_on (CHR ''/'') target) @ Reached (here @ [name]) # rest)
                 ((here @ [name], None) # seen))
      | _ \<Rightarrow> real_walk fs (here @ [name]) rest seen)"
  by pat_completeness auto
termination
  by (relation "measures [\<lambda>(fs, here, rest, seen). card (links_of fs - fst ` set seen),
      \<lambda>(fs, here, rest, seen). length rest]") (simp_all add: unseen_links_le unseen_links_less)

definition follow :: "files \<Rightarrow> location \<Rightarrow> location option" where
  "follow fs p = real_walk fs [] (map Enter p) []"

definition loop_error :: exc where
  "loop_error = Exc (OtherError ''RuntimeError'') ''Symlink loop''"

text \<open>\<open>(root / raw).resolve()\<close>.\<close>

definition resolve_under :: "files \<Rightarrow> location \<Rightarrow> string \<Rightarrow> location result" where
  "resolve_under fs base raw =
     (if CHR 0x00 \<in> set raw then Inl (Exc ValueError ''lstat: embedded null character in path'')
      else case real_walk fs []
             (map Enter (if starts_with raw ''/'' then split_on (CHR ''/'') raw
                         else base @ split_on (CHR ''/'') raw)) [] of
        None \<Rightarrow> Inl loop_error
      | Some p \<Rightarrow> Inr p)"

definition stat_node :: "files \<Rightarrow> location \<Rightarrow> file_node option" where
  "stat_node fs p = (case follow fs p of None \<Rightarrow> None | Some q \<Rightarrow> node_at fs q)"

definition path_exists :: "files \<Rightarrow> location \<Rightarrow> bool" where
  "path_exists fs p \<longleftrightarrow> stat_node fs p \<noteq> None"

definition is_folder :: "files \<Rightarrow> location \<Rightarrow> bool" where
  "is_folder fs p \<longleftrightarrow> stat_node fs p = Some Folder"

primrec node_size :: "file_node \<Rightarrow> nat option" where
  "node_size (Text_file t) = Some (utf8_length t)"
| "node_size (Binary_file n) = Some n"
| "node_size Folder = None"
| "node_size (Link t) = None"

definition is_file :: "files \<Rightarrow> location \<Rightarrow> bool" where
  "is_file fs p \<longleftrightarrow> (case stat_node fs p of None \<Rightarrow> False | Some n \<Rightarrow> node_size n \<noteq> None)"

text \<open>\<open>Path.iterdir\<close> of a folder, in the order of the tree, and \<open>Path.rglob("*")\<close>, which enters no
  linked folder.\<close>

definition children :: "files \<Rightarrow> location \<Rightarrow> location list" where
  "children fs p = filter (\<lambda>q. q \<noteq> [] \<and> butlast q = p) (map fst fs)"

definition below :: "location \<Rightarrow> location \<Rightarrow> bool" where
  "below base p \<longleftrightarrow> length base < length p \<and> take (length base) p = base"

definition descendants :: "files \<Rightarrow> location \<Rightarrow> location list" where
  "descendants fs base =
     filter (\<lambda>q. below base q \<and> (\<forall>k \<in> {length base<..<length q}. node_at fs (take k q) = Some Folder)) (map fst fs)"

definition at_or_below :: "location \<Rightarrow> location \<Rightarrow> bool" where
  "at_or_below base p \<longleftrightarrow> p = base \<or> below base p"

text \<open>\<open>p.relative_to(base).as_posix()\<close>.\<close>

definition relative_parts :: "location \<Rightarrow> location \<Rightarrow> string list" where
  "relative_parts base p = drop (length base) p"

definition posix_name :: "string list \<Rightarrow> string" where
  "posix_name parts = (if parts = [] then ''.'' else join ''/'' parts)"

definition file_name :: "location \<Rightarrow> string" where
  "file_name p = (if p = [] then [] else last p)"

text \<open>\<open>Path.suffix\<close>.\<close>

definition file_suffix :: "string \<Rightarrow> string" where
  "file_suffix name =
     (let tail = takeWhile (\<lambda>c. c \<noteq> CHR ''.'') (rev name); i = length name - length tail
      in if 1 < i \<and> tail \<noteq> [] then CHR ''.'' # rev tail else [])"

section \<open>The world of the tools\<close>

record mutation =
  mt_op :: string
  mt_path :: string
  mt_before :: "string option"
  mt_after :: "string option"

datatype file_effect = Read_file location | Wrote_file location | Removed_file location
  | Listed_folder location | Made_folder location

text \<open>\<open>aw_mutations\<close> is the context variable \<open>_active_mutations\<close>; \<open>aw_rest\<close> is everything else the
  tools, the hooks and the provider act on.\<close>

record 'w agent_world =
  aw_files :: files
  aw_effects :: "file_effect list"
  aw_mutations :: "mutation list option"
  aw_rest :: 'w

definition file_error :: "string \<Rightarrow> exc" where
  "file_error m = Exc (OtherError ''OSError'') m"

definition decode_error :: exc where
  "decode_error = Exc (OtherError ''UnicodeDecodeError'') []"

definition logged :: "file_effect \<Rightarrow> 'w agent_world \<Rightarrow> 'w agent_world" where
  "logged e w = w\<lparr>aw_effects := aw_effects w @ [e]\<rparr>"

definition put_node :: "location \<Rightarrow> file_node \<Rightarrow> 'w agent_world \<Rightarrow> 'w agent_world" where
  "put_node p n w = w\<lparr>aw_files := AList.update p n (aw_files w)\<rparr>"

definition drop_node :: "location \<Rightarrow> 'w agent_world \<Rightarrow> 'w agent_world" where
  "drop_node p w = w\<lparr>aw_files := AList.delete p (aw_files w)\<rparr>"

definition noted :: "mutation \<Rightarrow> 'w agent_world \<Rightarrow> 'w agent_world" where
  "noted m w = w\<lparr>aw_mutations := map_option (\<lambda>bucket. bucket @ [m]) (aw_mutations w)\<rparr>"

definition log_file :: "file_effect \<Rightarrow> ('w agent_world, unit) io" where
  "log_file e = io_modify (logged e)"

text \<open>Text is read with universal newlines.\<close>

fun universal_newlines :: "string \<Rightarrow> string" where
  "universal_newlines [] = []"
| "universal_newlines [c] = [if c = CHR 0x0D then nl else c]"
| "universal_newlines (c # d # s) =
     (if c = CHR 0x0D then nl # universal_newlines (if d = nl then s else d # s)
      else c # universal_newlines (d # s))"

definition read_text :: "location \<Rightarrow> ('w agent_world, string) io" where
  "read_text p =
     io_bind (io_gets (\<lambda>w. (follow (aw_files w) p, stat_node (aw_files w) p))) (\<lambda>(q, n).
       case n of
         Some (Text_file t) \<Rightarrow> io_then (log_file (Read_file (the q))) (io_return (universal_newlines t))
       | Some (Binary_file k) \<Rightarrow> io_then (log_file (Read_file (the q))) (io_raise decode_error)
       | Some _ \<Rightarrow> io_raise (file_error ''[Errno 21] Is a directory'')
       | None \<Rightarrow> io_raise (file_error ''[Errno 2] No such file or directory''))"

definition write_text :: "location \<Rightarrow> string \<Rightarrow> ('w agent_world, unit) io" where
  "write_text p content =
     io_bind (io_gets (\<lambda>w. (follow (aw_files w) p, aw_files w))) (\<lambda>(q, fs).
       case q of
         None \<Rightarrow> io_raise (file_error ''[Errno 40] Too many levels of symbolic links'')
       | Some q \<Rightarrow>
           if node_at fs q = Some Folder then io_raise (file_error ''[Errno 21] Is a directory'')
           else if node_at fs (butlast q) \<noteq> Some Folder
           then io_raise (file_error ''[Errno 2] No such file or directory'')
           else io_then (log_file (Wrote_file q)) (io_modify (put_node q (Text_file content))))"

definition unlink :: "location \<Rightarrow> ('w agent_world, unit) io" where
  "unlink p =
     io_then (log_file (Removed_file p)) (io_modify (drop_node p))"

text \<open>\<open>p.mkdir(parents=True, exist_ok=True)\<close> of a resolved path: the missing folders, outermost first.\<close>

definition make_folder :: "location \<Rightarrow> ('w agent_world, unit) io" where
  "make_folder q =
     io_bind (io_gets (\<lambda>w. node_at (aw_files w) q)) (\<lambda>n.
       case n of
         Some Folder \<Rightarrow> io_return ()
       | None \<Rightarrow> io_then (log_file (Made_folder q)) (io_modify (put_node q Folder))
       | Some _ \<Rightarrow> io_raise (file_error ''[Errno 20] Not a directory''))"

definition make_folders :: "location \<Rightarrow> ('w agent_world, unit) io" where
  "make_folders p = io_each (\<lambda>k. make_folder (take (Suc k) p)) [0..<length p]"

section \<open>Paths without links\<close>

definition plain_name :: "string \<Rightarrow> bool" where
  "plain_name n \<longleftrightarrow> n \<noteq> [] \<and> n \<noteq> ''.'' \<and> n \<noteq> ''..'' \<and> CHR ''/'' \<notin> set n"

definition no_link :: "files \<Rightarrow> location \<Rightarrow> bool" where
  "no_link fs p \<longleftrightarrow> (\<forall>t. node_at fs p \<noteq> Some (Link t))"

text \<open>No prefix of the path is a link: the operating system follows nothing on its way.\<close>

definition plain_path :: "files \<Rightarrow> location \<Rightarrow> bool" where
  "plain_path fs p \<longleftrightarrow> (\<forall>k < length p. plain_name (p ! k) \<and> no_link fs (take (Suc k) p))"

lemma plain_path_Nil [simp]: "plain_path fs []"
  by (simp add: plain_path_def)

lemma plain_path_snoc [simp]:
  "plain_path fs (p @ [n]) \<longleftrightarrow> plain_path fs p \<and> plain_name n \<and> no_link fs (p @ [n])"
  by (auto simp: plain_path_def nth_append less_Suc_eq)

lemma plain_path_take: "plain_path fs p \<Longrightarrow> plain_path fs (take k p)"
  by (auto simp: plain_path_def min_def)

lemma plain_path_butlast: "plain_path fs p \<Longrightarrow> plain_path fs (butlast p)"
  by (simp add: butlast_conv_take plain_path_take)

definition step_ok :: "walk_step \<Rightarrow> bool" where
  "step_ok s \<longleftrightarrow> (case s of Enter n \<Rightarrow> CHR ''/'' \<notin> set n | Reached l \<Rightarrow> True)"

lemma step_ok_simps [simp]: "step_ok (Enter n) \<longleftrightarrow> CHR ''/'' \<notin> set n" "step_ok (Reached l)"
  by (simp_all add: step_ok_def)

lemma real_walk_plain:
  "real_walk fs here steps seen = Some q \<Longrightarrow> plain_path fs here \<Longrightarrow> \<forall>s \<in> set steps. step_ok s \<Longrightarrow>
   \<forall>l r. (l, Some r) \<in> set seen \<longrightarrow> plain_path fs r \<Longrightarrow> plain_path fs q"
proof (induction fs here steps seen rule: real_walk.induct)
  case (3 fs here name rest seen)
  note IH = "3.IH" and prems = "3.prems"
  have entered: "plain_path fs (here @ [name])"
    if "name \<noteq> []" "name \<noteq> ''.''" "name \<noteq> ''..''" "\<forall>t. node_at fs (here @ [name]) \<noteq> Some (Link t)"
    using that prems by (simp add: plain_name_def no_link_def)
  consider (stay) "name = [] \<or> name = ''.''" | (up) "\<not> (name = [] \<or> name = ''.'')" "name = ''..''"
    | (link) t where "\<not> (name = [] \<or> name = ''.'')" "name \<noteq> ''..''" "node_at fs (here @ [name]) = Some (Link t)"
    | (enter) "\<not> (name = [] \<or> name = ''.'')" "name \<noteq> ''..''" "\<forall>t. node_at fs (here @ [name]) \<noteq> Some (Link t)"
    by blast
  then show ?case
  proof cases
    case stay
    then show ?thesis using IH(1) prems by auto
  next
    case up
    then show ?thesis using IH(2) prems by (auto simp: plain_path_butlast)
  next
    case (link t)
    show ?thesis
    proof (cases "map_of seen (here @ [name])")
      case None
      have "\<forall>s \<in> Enter ` set (split_on (CHR ''/'') t) \<union> set rest. step_ok s"
        using prems by (auto dest: split_on_clean)
      moreover have "plain_path fs (if starts_with t ''/'' then [] else here)" using prems by simp
      ultimately show ?thesis using None IH link prems by simp
    next
      case (Some r)
      then show ?thesis using link prems IH by (cases r) (auto dest: map_of_SomeD)
    qed
  next
    case enter
    then show ?thesis using IH prems entered by (auto split: option.splits file_node.splits)
  qed
qed auto

text \<open>What a walk returns has no link on its way, and a path without links is its own target.\<close>

lemma resolve_under_plain:
  assumes "resolve_under fs base raw = Inr p" and "\<forall>n \<in> set base. CHR ''/'' \<notin> set n"
  shows "plain_path fs p"
proof -
  let ?steps = "map Enter (if starts_with raw ''/'' then split_on (CHR ''/'') raw
                           else base @ split_on (CHR ''/'') raw)"
  have walk: "real_walk fs [] ?steps [] = Some p"
    using assms(1) by (simp add: resolve_under_def split: if_split_asm option.split_asm)
  have "\<forall>n \<in> set (split_on (CHR ''/'') raw). CHR ''/'' \<notin> set n" using split_on_clean by blast
  then have "\<forall>s \<in> set ?steps. step_ok s" using assms(2) by auto
  from real_walk_plain [OF walk _ this] show ?thesis by simp
qed

lemma real_walk_of_plain:
  "plain_path fs (here @ rest) \<Longrightarrow> real_walk fs here (map Enter rest) seen = Some (here @ rest)"
proof (induction rest arbitrary: here)
  case (Cons n rest)
  have "plain_path fs (here @ [n])"
    using plain_path_take [OF Cons.prems, of "Suc (length here)"] by simp
  then have "plain_name n" "no_link fs (here @ [n])" by simp_all
  moreover have "real_walk fs (here @ [n]) (map Enter rest) seen = Some ((here @ [n]) @ rest)"
    using Cons by simp
  ultimately show ?case
    by (auto simp: plain_name_def no_link_def split: option.splits file_node.splits)
qed simp

lemma follow_plain: "plain_path fs p \<Longrightarrow> follow fs p = Some p"
  unfolding follow_def using real_walk_of_plain [of fs "[]" p "[]"] by simp

lemma stat_plain: "plain_path fs p \<Longrightarrow> stat_node fs p = node_at fs p"
  by (simp add: stat_node_def follow_plain)

lemma node_at_update [simp]:
  "q \<noteq> [] \<Longrightarrow> node_at (AList.update q n fs) p = (if p = q then Some n else node_at fs p)"
  by (simp add: node_at_def)

lemma node_at_delete: "q \<noteq> [] \<Longrightarrow> node_at (AList.delete q fs) p = (if p = q then None else node_at fs p)"
  by (simp add: node_at_def delete_conv)

text \<open>Files that come and go make no link.\<close>

lemma plain_path_update:
  assumes "plain_path fs p" and "q \<noteq> []" and "\<forall>t. n \<noteq> Link t"
  shows "plain_path (AList.update q n fs) p"
  using assms by (simp add: plain_path_def no_link_def)

lemma plain_path_delete: "plain_path fs p \<Longrightarrow> q \<noteq> [] \<Longrightarrow> plain_path (AList.delete q fs) p"
  by (simp add: plain_path_def no_link_def node_at_delete)

lemma plain_path_names: "plain_path fs p \<Longrightarrow> n \<in> set p \<Longrightarrow> plain_name n"
  by (auto simp: plain_path_def in_set_conv_nth)

lemma posix_name_inject:
  assumes "posix_name xs = posix_name ys" and "\<forall>n \<in> set xs. plain_name n" and "\<forall>n \<in> set ys. plain_name n"
  shows "xs = ys"
proof -
  let ?slash = "CHR ''/''"
  have plain: "?slash \<notin> set n" if "plain_name n" for n using that by (simp add: plain_name_def)
  have parts: "split_on ?slash (join [?slash] zs) = zs" if "zs \<noteq> []" "\<forall>n \<in> set zs. plain_name n" for zs
    using split_on_join [of zs ?slash] that plain by blast
  have dot: "split_on ?slash ''.'' = [''.'']" by code_simp
  have "\<not> plain_name ''.''" by (simp add: plain_name_def)
  then have other: "join [?slash] zs \<noteq> ''.''" if "zs \<noteq> []" "\<forall>n \<in> set zs. plain_name n" for zs
    using parts [OF that] that dot by (metis list.set_intros(1))
  show ?thesis
  proof (cases "xs = [] \<or> ys = []")
    case True
    then show ?thesis
      using assms(1) other [OF _ assms(2)] other [OF _ assms(3)]
      by (cases "xs = []"; cases "ys = []") (simp_all add: posix_name_def)
  next
    case False
    then have "join [?slash] xs = join [?slash] ys" using assms(1) by (simp add: posix_name_def)
    then show ?thesis using parts False assms(2,3) by metis
  qed
qed

lemma relative_parts_inject:
  "at_or_below base p \<Longrightarrow> at_or_below base q \<Longrightarrow> relative_parts base p = relative_parts base q \<Longrightarrow> p = q"
  unfolding at_or_below_def below_def relative_parts_def by (metis append_take_drop_id drop_all order.refl take_all)

section \<open>Reads and writes of paths without links\<close>

lemma world_fields [simp]:
  "aw_files (logged e w) = aw_files w" "aw_mutations (logged e w) = aw_mutations w"
  "aw_effects (logged e w) = aw_effects w @ [e]" "aw_rest (logged e w) = aw_rest w"
  "aw_files (put_node p n w) = AList.update p n (aw_files w)" "aw_mutations (put_node p n w) = aw_mutations w"
  "aw_effects (put_node p n w) = aw_effects w" "aw_rest (put_node p n w) = aw_rest w"
  "aw_files (drop_node p w) = AList.delete p (aw_files w)" "aw_mutations (drop_node p w) = aw_mutations w"
  "aw_effects (drop_node p w) = aw_effects w" "aw_rest (drop_node p w) = aw_rest w"
  "aw_files (noted m w) = aw_files w" "aw_effects (noted m w) = aw_effects w" "aw_rest (noted m w) = aw_rest w"
  "aw_mutations (noted m w) = map_option (\<lambda>bucket. bucket @ [m]) (aw_mutations w)"
  by (simp_all add: logged_def put_node_def drop_node_def noted_def)

lemma io_wp_log_file [simp]: "io_wp (log_file e) Q E w = Q () (logged e w)"
  by (simp add: log_file_def)

lemma io_wp_read_text:
  "plain_path (aw_files w) p \<Longrightarrow> io_wp (read_text p) Q E w =
     (case node_at (aw_files w) p of
        Some (Text_file t) \<Rightarrow> Q (universal_newlines t) (logged (Read_file p) w)
      | Some (Binary_file k) \<Rightarrow> E decode_error (logged (Read_file p) w)
      | Some _ \<Rightarrow> E (file_error ''[Errno 21] Is a directory'') w
      | None \<Rightarrow> E (file_error ''[Errno 2] No such file or directory'') w)"
  by (simp add: read_text_def follow_plain stat_plain split: option.splits file_node.splits)

lemma io_wp_write_text:
  "plain_path (aw_files w) p \<Longrightarrow> io_wp (write_text p content) Q E w =
     (if node_at (aw_files w) p = Some Folder then E (file_error ''[Errno 21] Is a directory'') w
      else if node_at (aw_files w) (butlast p) \<noteq> Some Folder
      then E (file_error ''[Errno 2] No such file or directory'') w
      else Q () (put_node p (Text_file content) (logged (Wrote_file p) w)))"
  by (simp add: write_text_def follow_plain)

lemma io_wp_unlink [simp]: "io_wp (unlink p) Q E w = Q () (drop_node p (logged (Removed_file p) w))"
  by (simp add: unlink_def)

lemma io_wp_make_folder [simp]:
  "io_wp (make_folder q) Q E w =
     (case node_at (aw_files w) q of
        Some Folder \<Rightarrow> Q () w
      | None \<Rightarrow> Q () (put_node q Folder (logged (Made_folder q) w))
      | Some _ \<Rightarrow> E (file_error ''[Errno 20] Not a directory'') w)"
  by (simp add: make_folder_def split: option.splits file_node.splits)

end
