(* ===== verification/Agent_Tools.thy ===== *)
theory Agent_Tools imports Workspace_Files Criteria Provider begin

text \<open>
  The tools an agent may call while it works on a task (\<open>app/agents/tools.py\<close>): read, list, search,
  write, edit and delete files of one workspace, and run a configured check. A refusal is a
  \<open>ToolError\<close>, which the loop gives back to the model. Parameters: the regular expressions of
  Python's \<open>re\<close>, the checks, and the texts that describe the tools to the model.
\<close>

section \<open>Paths of the workspace\<close>

definition sensitive_patterns :: "string list" where
  "sensitive_patterns = [''.env'', ''.env.*'', ''*.pem'', ''*.key'', ''*.p12'', ''*.pfx'', ''id_rsa*'',
     ''id_ed25519*'', ''*.secret'', ''*credentials*'']"

definition max_list_entries :: nat where "max_list_entries = 200"

definition text_extensions :: "string list" where
  "text_extensions = [''.py'', ''.js'', ''.cjs'', ''.mjs'', ''.jsx'', ''.ts'', ''.cts'', ''.mts'', ''.tsx'',
     ''.md'', ''.toml'', ''.yaml'', ''.yml'', ''.json'', ''.ini'', ''.cfg'', ''.txt'', ''.env'', ''.sql'']"

definition ignored_dirs :: "string list" where
  "ignored_dirs = [''.git'', ''.venv'', ''.mypy_cache'', ''.pytest_cache'', ''.ruff_cache'', ''__pycache__'',
     ''node_modules'', ''dist'', ''build'', ''.idea'', ''.vscode'']"

definition truncate_text :: "string \<Rightarrow> nat \<Rightarrow> string" where
  "truncate_text s limit =
     (if length s \<le> limit then s
      else take limit s @ nl # ''... [truncado: '' @ show_nat (length s - limit) @ '' caracteres omitidos]'')"

definition is_sensitive :: "location \<Rightarrow> bool" where
  "is_sensitive p \<longleftrightarrow> (\<exists>pattern \<in> set sensitive_patterns. fnmatchcase (file_name p) pattern)"

text \<open>What the policy lets a tool reach: below the root, in no ignored folder, no sensitive name.\<close>

definition permitted :: "location \<Rightarrow> location \<Rightarrow> bool" where
  "permitted base p \<longleftrightarrow> at_or_below base p \<and> (\<forall>part \<in> set (relative_parts base p). part \<notin> set ignored_dirs) \<and>
     (p = base \<or> \<not> is_sensitive p)"

definition bound_resolve :: "location \<Rightarrow> pyval \<Rightarrow> bool \<Rightarrow> ('w agent_world, location) io" where
  "bound_resolve base raw allow_root =
     (if raw = PNone \<or> raw = PStr []
      then (if allow_root then io_return base else io_raise (tool_error ''`path` e obrigatorio.''))
      else case as_str raw of
        None \<Rightarrow> io_raise (tool_error ''`path` deve ser uma string relativa a raiz do projeto.'')
      | Some s \<Rightarrow>
          io_bind (io_gets (\<lambda>w. resolve_under (aw_files w) base s)) (\<lambda>resolved.
          io_bind (io_lift resolved) (\<lambda>candidate.
          io_then (io_guard (at_or_below base candidate) (tool_error (''path fora do workspace permitido: '' @ s)))
         (io_then (io_guard (\<forall>part \<in> set (relative_parts base candidate). part \<notin> set ignored_dirs)
                    (tool_error (''diretorio ignorado: '' @ s)))
         (io_then (io_guard (candidate = base \<or> \<not> is_sensitive candidate)
                    (tool_error (''arquivo sensivel, leitura bloqueada: '' @ s)))
           (io_return candidate))))))"

section \<open>Python's conversions\<close>

definition type_error :: exc where
  "type_error = Exc TypeError ''int() argument''"

fun int_digits :: "bool \<Rightarrow> nat \<Rightarrow> string \<Rightarrow> nat option" where
  "int_digits after_digit acc [] = (if after_digit then Some acc else None)"
| "int_digits after_digit acc (c # s) =
     (let n = (of_char c :: nat) in
      if 48 \<le> n \<and> n \<le> 57 then int_digits True (10 * acc + (n - 48)) s
      else if c = CHR ''_'' \<and> after_digit then int_digits False acc s
      else None)"

definition int_of_text :: "string \<Rightarrow> int result" where
  "int_of_text s =
     (let t = strip s; negative = starts_with t ''-''; signed = negative \<or> starts_with t ''+''
      in case int_digits False 0 (if signed then drop 1 t else t) of
           None \<Rightarrow> Inl (Exc ValueError ''invalid literal for int() with base 10'')
         | Some n \<Rightarrow> Inr (if negative then - int n else int n))"

primrec py_int :: "pyval \<Rightarrow> int result" where
  "py_int PNone = Inl type_error"
| "py_int (PBool b) = Inr (if b then 1 else 0)"
| "py_int (PInt i) = Inr i"
| "py_int (PFloat r) = Inr (if 0 \<le> r then \<lfloor>r\<rfloor> else - \<lfloor>- r\<rfloor>)"
| "py_int (PStr s) = int_of_text s"
| "py_int (PList xs) = Inl type_error"
| "py_int (PDict d) = Inl type_error"

definition int_or :: "pyval \<Rightarrow> int \<Rightarrow> int result" where
  "int_or v fallback = (if truthy v then py_int v else Inr fallback)"

text \<open>\<open>str.splitlines()\<close> on the Latin-1 range: the line boundaries, \<open>\r\n\<close> being one.\<close>

definition line_boundary :: "char \<Rightarrow> bool" where
  "line_boundary c = (let n = (of_char c :: nat) in (10 \<le> n \<and> n \<le> 13) \<or> (28 \<le> n \<and> n \<le> 30) \<or> n = 133)"

fun splitlines_aux :: "string \<Rightarrow> bool \<Rightarrow> string \<Rightarrow> string list" where
  "splitlines_aux acc after_cr [] = (if acc = [] then [] else [rev acc])"
| "splitlines_aux acc after_cr (c # s) =
     (if after_cr \<and> c = nl then splitlines_aux acc False s
      else if line_boundary c then rev acc # splitlines_aux [] (c = CHR 0x0D) s
      else splitlines_aux (c # acc) False s)"

definition splitlines :: "string \<Rightarrow> string list" where
  "splitlines s = splitlines_aux [] False s"

section \<open>Tools\<close>

type_synonym arguments = "(string \<times> pyval) list"

record 'w agent_tool =
  at_name :: string
  at_description :: string
  at_input_schema :: "(string \<times> pyval) list"
  at_run :: "arguments \<Rightarrow> ('w agent_world, string) io"

definition arg_text :: "arguments \<Rightarrow> string \<Rightarrow> string" where
  "arg_text arguments key = show_opt (as_str (pget arguments key))"

text \<open>Text of a file for a tool: what is not UTF-8 is a refusal with the tool's own words.\<close>

definition read_or_refuse :: "string \<Rightarrow> location \<Rightarrow> ('w agent_world, string) io" where
  "read_or_refuse message p =
     io_catch (read_text p) (\<lambda>e. if exc_kind e = exc_kind decode_error then io_raise (tool_error message) else io_raise e)"

definition tool_path :: "location \<Rightarrow> location \<Rightarrow> string" where
  "tool_path base p = posix_name (relative_parts base p)"

definition pad_left :: "nat \<Rightarrow> string \<Rightarrow> string" where
  "pad_left width s = replicate (width - length s) (CHR '' '') @ s"

definition numbered :: "nat \<Rightarrow> nat \<Rightarrow> string list \<Rightarrow> string" where
  "numbered start width selected =
     join [nl] (map (\<lambda>(index, line). pad_left width (show_nat index) @ ''| '' @ line)
       (zip [start..<start + length selected] selected))"

definition read_file_tool :: "location \<Rightarrow> nat \<Rightarrow> arguments \<Rightarrow> ('w agent_world, string) io" where
  "read_file_tool base max_output_chars arguments =
     io_bind (bound_resolve base (pget arguments ''path'') False) (\<lambda>p.
     io_bind (io_gets (\<lambda>w. (path_exists (aw_files w) p, is_folder (aw_files w) p))) (\<lambda>(exists, folder).
     io_then (io_guard exists (tool_error (''arquivo nao encontrado: '' @ arg_text arguments ''path'')))
    (io_then (io_guard (\<not> folder) (tool_error ''path e um diretorio; use list_directory.''))
    (io_bind (read_or_refuse ''arquivo binario ou fora de UTF-8.'' p) (\<lambda>contents.
       let lines = splitlines contents in
       io_bind (io_lift (int_or (pget arguments ''start_line'') 1)) (\<lambda>start.
       io_bind (io_lift (int_or (pget arguments ''end_line'') (int (length lines)))) (\<lambda>end_line.
       io_then (io_guard (\<not> (start < 1 \<or> end_line < start)) (tool_error ''intervalo de linhas invalido.''))
      (let selected = drop (nat start - 1) (take (nat end_line) lines);
           width = length (show_int (min end_line (int (length lines))));
           body = numbered (nat start) width selected;
           header = tool_path base p @ '' ('' @ show_nat (length lines) @ '' linhas)''
       in io_return (truncate_text (header @ nl # body) max_output_chars)))))))))"

text \<open>The sort by \<open>(not is_dir, name.lower())\<close>: folders first, each group by name, ties in order.\<close>

definition list_directory_tool :: "location \<Rightarrow> arguments \<Rightarrow> ('w agent_world, string) io" where
  "list_directory_tool base arguments =
     io_bind (bound_resolve base (pget arguments ''path'') True) (\<lambda>p.
     io_bind (io_gets aw_files) (\<lambda>fs.
     io_then (io_guard (is_folder fs p) (tool_error (''nao e um diretorio: '' @ arg_text arguments ''path'')))
    (io_then (log_file (Listed_folder p))
      (let kept = filter (\<lambda>e. file_name e \<notin> set ignored_dirs \<and> \<not> is_sensitive e) (children fs p);
           by_name = sort_key (\<lambda>e. str_lower (file_name e)) kept;
           entries = filter (is_folder fs) by_name @ filter (\<lambda>e. \<not> is_folder fs e) by_name;
           lines = map (\<lambda>e. if is_folder fs e then file_name e @ ''/'' else file_name e) entries;
           omitted = length lines - max_list_entries;
           shown = take max_list_entries lines
             @ (if omitted > 0 then [''... ['' @ show_nat omitted @ '' entradas omitidas]''] else [])
       in io_return (tool_path base p @ nl # join [nl] shown)))))"

section \<open>Search\<close>

type_synonym regex = "string \<Rightarrow> bool"

fun search_lines :: "regex \<Rightarrow> int \<Rightarrow> string \<Rightarrow> nat \<Rightarrow> string list \<Rightarrow> string list \<Rightarrow> string list" where
  "search_lines rx limit name number [] hits = hits"
| "search_lines rx limit name number (line # lines) hits =
     (if rx line
      then let found = hits @ [name @ '':'' @ show_nat number @ '': '' @ strip line]
           in if int (length found) \<ge> limit then found
              else search_lines rx limit name (Suc number) lines found
      else search_lines rx limit name (Suc number) lines hits)"

definition searchable :: "location \<Rightarrow> nat \<Rightarrow> files \<Rightarrow> location \<Rightarrow> bool" where
  "searchable base max_file_bytes fs p \<longleftrightarrow>
     is_file fs p \<and> (\<forall>part \<in> set (relative_parts base p). part \<notin> set ignored_dirs) \<and> \<not> is_sensitive p \<and>
     str_lower (file_suffix (file_name p)) \<in> set text_extensions \<and>
     (case stat_node fs p of Some n \<Rightarrow> (case node_size n of Some k \<Rightarrow> k \<le> max_file_bytes | None \<Rightarrow> False) | None \<Rightarrow> False)"

primrec search_files ::
  "location \<Rightarrow> nat \<Rightarrow> regex \<Rightarrow> int \<Rightarrow> location list \<Rightarrow> string list \<Rightarrow> nat
   \<Rightarrow> ('w agent_world, string list \<times> nat) io" where
  "search_files base max_file_bytes rx limit [] hits scanned = io_return (hits, scanned)"
| "search_files base max_file_bytes rx limit (p # ps) hits scanned =
     io_bind (io_gets aw_files) (\<lambda>fs.
       if \<not> searchable base max_file_bytes fs p then search_files base max_file_bytes rx limit ps hits scanned
       else io_bind (io_try (read_text p)) (\<lambda>contents.
         case contents of
           Inl e \<Rightarrow> search_files base max_file_bytes rx limit ps hits scanned
         | Inr t \<Rightarrow>
             let found = search_lines rx limit (tool_path base p) 1 (splitlines t) hits
             in if int (length found) \<ge> limit then io_return (found, Suc scanned)
                else search_files base max_file_bytes rx limit ps found (Suc scanned)))"

definition search_repository_tool ::
  "(string \<Rightarrow> string + regex) \<Rightarrow> location \<Rightarrow> nat \<Rightarrow> nat \<Rightarrow> nat \<Rightarrow> arguments \<Rightarrow> ('w agent_world, string) io" where
  "search_repository_tool compile base max_results max_output_chars max_file_bytes arguments =
     (case as_str (pget arguments ''pattern'') of
        None \<Rightarrow> io_raise (tool_error ''`pattern` e obrigatorio.'')
      | Some pattern \<Rightarrow>
          if pattern = [] then io_raise (tool_error ''`pattern` e obrigatorio.'')
          else case compile pattern of
            Inl message \<Rightarrow> io_raise (tool_error (''regex invalida: '' @ message))
          | Inr rx \<Rightarrow>
              io_bind (io_lift (int_or (pget arguments ''max_results'') (int max_results))) (\<lambda>asked.
                let limit = min asked 200 in
                io_bind (bound_resolve base (pget arguments ''path_prefix'') True) (\<lambda>start.
                io_bind (io_gets aw_files) (\<lambda>fs.
                io_then (io_guard (path_exists fs start)
                          (tool_error (''path_prefix nao existe: '' @ arg_text arguments ''path_prefix'')))
               (io_bind (search_files base max_file_bytes rx limit
                          (sort (if is_folder fs start then descendants fs start else [start])) [] 0)
                  (\<lambda>(hits, scanned).
                     if hits = []
                     then io_return (''nenhuma ocorrencia de /'' @ pattern @ ''/ em '' @ show_nat scanned @ '' arquivos.'')
                     else io_return (truncate_text
                       (show_nat (length hits) @ '' ocorrencia(s)''
                        @ (if int (length hits) \<ge> limit then '' (limite '' @ show_int limit @ '' atingido)'' else [])
                        @ nl # join [nl] hits) max_output_chars)))))))"

section \<open>Configured checks\<close>

record 'w objective_check =
  oc_name :: string
  oc_execute :: "('w agent_world, validation_signal) io"

definition check_answer :: "nat \<Rightarrow> validation_signal \<Rightarrow> string" where
  "check_answer max_output_chars s =
     truncate_text (join [nl]
       ([vs_name s @ '': '' @ (if vs_passed s = Some True then ''passed'' else ''failed'')
         @ '' (exit_code='' @ show_opt_int (vs_exit_code s) @ '')'']
        @ (case vs_command s of None \<Rightarrow> [] | Some c \<Rightarrow> if c = [] then [] else [''command: '' @ c])
        @ (if strip (vs_stdout s) \<noteq> [] then [''stdout:'' @ nl # rstrip (vs_stdout s)] else [])
        @ (if strip (vs_stderr s) \<noteq> [] then [''stderr:'' @ nl # rstrip (vs_stderr s)] else []))) max_output_chars"

definition run_check_tool ::
  "py_env \<Rightarrow> 'w objective_check list \<Rightarrow> nat \<Rightarrow> arguments \<Rightarrow> ('w agent_world, string) io" where
  "run_check_tool env validators max_output_chars arguments =
     (let by_name = dict_of (map (\<lambda>v. (oc_name v, v)) validators);
          name = py_str env (pget arguments ''name'')
      in case dict_get by_name name of
           None \<Rightarrow> io_raise (tool_error (''verificacao desconhecida: '' @ name @ ''. Disponiveis: ''
                      @ join '', '' (sort (map fst by_name)) @ ''.''))
         | Some v \<Rightarrow> io_bind (oc_execute v) (\<lambda>s. io_return (check_answer max_output_chars s)))"

section \<open>Edits\<close>

definition record_mutation :: "string \<Rightarrow> string \<Rightarrow> string option \<Rightarrow> string option \<Rightarrow> ('w agent_world, unit) io" where
  "record_mutation op relative_path before after =
     io_modify (noted \<lparr>mt_op = op, mt_path = relative_path, mt_before = before, mt_after = after\<rparr>)"

definition write_file_tool :: "location \<Rightarrow> arguments \<Rightarrow> ('w agent_world, string) io" where
  "write_file_tool base arguments =
     io_bind (bound_resolve base (pget arguments ''path'') False) (\<lambda>p.
       case as_str (pget arguments ''content'') of
         None \<Rightarrow> io_raise (tool_error ''`content` e obrigatorio e deve ser string.'')
       | Some content \<Rightarrow>
           io_bind (io_gets aw_files) (\<lambda>fs.
           io_then (io_guard (\<not> (path_exists fs p \<and> is_folder fs p))
                     (tool_error ''path e um diretorio; informe um caminho de arquivo.''))
          (io_bind (if path_exists fs p
                    then io_bind (read_or_refuse ''arquivo existente e binario ou fora de UTF-8.'' p)
                           (\<lambda>t. io_return (Some t))
                    else io_return None) (\<lambda>before.
           io_then (make_folders (butlast p))
          (io_then (write_text p content)
          (io_then (record_mutation (if before = None then ''create'' else ''replace'') (tool_path base p)
                     before (Some content))
            (io_return (''arquivo '' @ (if before = None then ''criado'' else ''atualizado'') @ '': ''
               @ tool_path base p @ '' ('' @ show_nat (length (splitlines content)) @ '' linhas)''))))))))"

definition edit_occurrence :: "pyval \<Rightarrow> int option" where
  "edit_occurrence v = (case v of PInt i \<Rightarrow> Some i | _ \<Rightarrow> None)"

definition edit_file_tool :: "location \<Rightarrow> arguments \<Rightarrow> ('w agent_world, string) io" where
  "edit_file_tool base arguments =
     io_bind (bound_resolve base (pget arguments ''path'') False) (\<lambda>p.
     io_bind (io_gets (\<lambda>w. (path_exists (aw_files w) p, is_folder (aw_files w) p))) (\<lambda>(exists, folder).
     io_then (io_guard exists (tool_error (''arquivo nao encontrado: '' @ arg_text arguments ''path''
               @ ''; use write_file para criar.'')))
    (io_then (io_guard (\<not> folder) (tool_error ''path e um diretorio.''))
      (case as_str (pget arguments ''search'') of
         None \<Rightarrow> io_raise (tool_error ''`search` e obrigatorio e nao pode ser vazio.'')
       | Some search \<Rightarrow>
           if search = [] then io_raise (tool_error ''`search` e obrigatorio e nao pode ser vazio.'')
           else case as_str (pget arguments ''replace'') of
             None \<Rightarrow> io_raise (tool_error ''`replace` deve ser string.'')
           | Some replacement \<Rightarrow>
               io_bind (read_or_refuse ''arquivo binario ou fora de UTF-8.'' p) (\<lambda>before.
               io_bind (io_lift (tool_apply_replace before search replacement
                         (edit_occurrence (pget arguments ''occurrence'')))) (\<lambda>after.
               io_then (write_text p after)
              (io_then (record_mutation ''replace'' (tool_path base p) (Some before) (Some after))
                (io_return (''arquivo editado: '' @ tool_path base p @ '' (''
                   @ show_nat (length (splitlines before)) @ '' -> '' @ show_nat (length (splitlines after))
                   @ '' linhas)'')))))))))"

definition delete_file_tool :: "location \<Rightarrow> arguments \<Rightarrow> ('w agent_world, string) io" where
  "delete_file_tool base arguments =
     io_bind (bound_resolve base (pget arguments ''path'') False) (\<lambda>p.
     io_bind (io_gets (\<lambda>w. (path_exists (aw_files w) p, is_folder (aw_files w) p))) (\<lambda>(exists, folder).
     io_then (io_guard exists (tool_error (''arquivo nao encontrado: '' @ arg_text arguments ''path'')))
    (io_then (io_guard (\<not> folder) (tool_error ''path e um diretorio; delete_file remove apenas arquivos.''))
    (io_bind (io_catch (read_text p)
               (\<lambda>e. if exc_kind e = exc_kind decode_error then io_return [] else io_raise e)) (\<lambda>before.
     io_then (unlink p)
    (io_then (record_mutation ''delete'' (tool_path base p) (Some before) None)
      (io_return (''arquivo removido: '' @ tool_path base p))))))))"

section \<open>The set of tools\<close>

text \<open>\<open>docs\<close> gives the description and the input schema of a tool, texts for the model only.\<close>

record 'w tool_settings =
  tg_root :: location
  tg_max_output_chars :: nat
  tg_validators :: "'w objective_check list"
  tg_allow_write :: bool
  tg_docs :: "string \<Rightarrow> string \<times> (string \<times> pyval) list"
  tg_compile :: "string \<Rightarrow> string + regex"
  tg_env :: py_env

definition tool_of ::
  "'w tool_settings \<Rightarrow> string \<Rightarrow> (arguments \<Rightarrow> ('w agent_world, string) io) \<Rightarrow> 'w agent_tool" where
  "tool_of g name run =
     \<lparr>at_name = name, at_description = fst (tg_docs g name), at_input_schema = snd (tg_docs g name), at_run = run\<rparr>"

definition build_workspace_tools :: "'w tool_settings \<Rightarrow> 'w agent_tool list" where
  "build_workspace_tools g =
     [tool_of g ''read_file'' (read_file_tool (tg_root g) (tg_max_output_chars g)),
      tool_of g ''list_directory'' (list_directory_tool (tg_root g)),
      tool_of g ''search_repository''
        (search_repository_tool (tg_compile g) (tg_root g) 50 (tg_max_output_chars g) 256000)]
     @ (if tg_allow_write g
        then [tool_of g ''write_file'' (write_file_tool (tg_root g)),
              tool_of g ''edit_file'' (edit_file_tool (tg_root g)),
              tool_of g ''delete_file'' (delete_file_tool (tg_root g))] else [])
     @ (if tg_validators g \<noteq> []
        then [tool_of g ''run_check'' (run_check_tool (tg_env g) (tg_validators g) (tg_max_output_chars g))] else [])"

definition tool_specs :: "'w agent_tool list \<Rightarrow> tool_spec list" where
  "tool_specs tools =
     map (\<lambda>t. \<lparr>ts_name = at_name t, ts_description = at_description t, ts_input_schema = at_input_schema t\<rparr>) tools"

section \<open>What a tool may do to the world\<close>

text \<open>The path is the place the operating system will reach, and the policy permits it.\<close>

definition reaches :: "location \<Rightarrow> location \<Rightarrow> 'w agent_world \<Rightarrow> bool" where
  "reaches base p w \<longleftrightarrow> plain_path (aw_files w) p \<and> permitted base p"

lemma reaches_plain [simp]: "reaches base p w \<Longrightarrow> plain_path (aw_files w) p"
  by (simp add: reaches_def)

definition slash_free :: "location \<Rightarrow> bool" where
  "slash_free p \<longleftrightarrow> (\<forall>n \<in> set p. CHR ''/'' \<notin> set n)"

lemma wp_bound_resolve:
  assumes "slash_free base" and "\<And>p. reaches base p w \<Longrightarrow> Q p w" and "allow_root \<Longrightarrow> Q base w" and "\<And>e. E e w"
  shows "io_wp (bound_resolve base raw allow_root) Q E w"
proof -
  have "Q p w" if "resolve_under (aw_files w) base s = Inr p" "at_or_below base p"
    "\<forall>part \<in> set (relative_parts base p). part \<notin> set ignored_dirs" "p = base \<or> \<not> is_sensitive p" for p s
    using that assms(1) by (intro assms(2)) (simp add: reaches_def permitted_def resolve_under_plain slash_free_def)
  then show ?thesis
    using assms(3,4) by (auto simp: bound_resolve_def split: option.splits sum.splits)
qed

lemma wp_read_or_refuse:
  assumes "plain_path (aw_files w) p"
    and "\<And>t. node_at (aw_files w) p = Some (Text_file t) \<Longrightarrow> Q (universal_newlines t) (logged (Read_file p) w)"
    and "\<And>e. E e (logged (Read_file p) w)" and "\<And>e. E e w"
  shows "io_wp (read_or_refuse m p) Q E w"
  using assms by (simp add: read_or_refuse_def io_wp_read_text split: option.split file_node.split)

text \<open>A predicate on the world that the file tools keep: it is enough that it survives each access the
  policy permits, edits together with their record.\<close>

locale workspace_policy =
  fixes base :: location and J :: "'w agent_world \<Rightarrow> bool"
  assumes reads: "J w \<Longrightarrow> reaches base p w \<Longrightarrow> J (logged (Read_file p) w)"
    and lists: "J w \<Longrightarrow> permitted base p \<Longrightarrow> J (logged (Listed_folder p) w)"
    and makes: "J w \<Longrightarrow> reaches base p w \<Longrightarrow> Suc k < length p \<Longrightarrow> node_at (aw_files w) (take (Suc k) p) = None \<Longrightarrow>
      J (put_node (take (Suc k) p) Folder (logged (Made_folder (take (Suc k) p)) w))"
    and writes: "J w \<Longrightarrow> reaches base p w \<Longrightarrow> node_at (aw_files w) p \<noteq> Some Folder \<Longrightarrow>
      J (noted \<lparr>mt_op = op, mt_path = tool_path base p, mt_before = before, mt_after = Some content\<rparr>
           (put_node p (Text_file content) (logged (Wrote_file p) w)))"
    and removes: "J w \<Longrightarrow> reaches base p w \<Longrightarrow> node_at (aw_files w) p \<noteq> Some Folder \<Longrightarrow>
      J (noted \<lparr>mt_op = op, mt_path = tool_path base p, mt_before = before, mt_after = None\<rparr>
           (drop_node p (logged (Removed_file p) w)))"
begin

lemma read_file_keeps: "slash_free base \<Longrightarrow> io_keeps J (read_file_tool base limit arguments)"
  unfolding read_file_tool_def
  by (rule io_wp_keeps, simp, rule wp_bound_resolve)
    (auto intro!: wp_read_or_refuse reads simp: Let_def split: sum.split)

lemma list_directory_keeps: "slash_free base \<Longrightarrow> io_keeps J (list_directory_tool base arguments)"
  unfolding list_directory_tool_def
  by (rule io_wp_keeps, simp, rule wp_bound_resolve)
    (auto intro!: lists simp: Let_def reaches_def permitted_def at_or_below_def relative_parts_def)

lemma edit_file_keeps: "slash_free base \<Longrightarrow> io_keeps J (edit_file_tool base arguments)"
  unfolding edit_file_tool_def
  by (rule io_wp_keeps, simp, rule wp_bound_resolve)
    (auto intro!: wp_read_or_refuse reads writes
      simp: io_wp_write_text record_mutation_def reaches_def split: sum.split option.split)

lemma make_folders_keeps: "io_keeps (\<lambda>w. J w \<and> reaches base p w) (make_folders (butlast p))"
  unfolding make_folders_def
proof (rule keeps_each, rule io_wp_keeps)
  fix k and w :: "'w agent_world"
  assume k: "k \<in> set [0..<length (butlast p)]" and w: "J w \<and> reaches base p w"
  then have len: "Suc k < length p" by simp
  then have q: "take (Suc k) (butlast p) = take (Suc k) p" "Suc k < length p" "take (Suc k) p \<noteq> []"
    by (auto simp: take_butlast)
  have "plain_path (AList.update (take (Suc k) p) Folder (aw_files w)) p"
    using w q by (auto intro: plain_path_update)
  then show "io_wp (make_folder (take (Suc k) (butlast p))) (\<lambda>_ w. J w \<and> reaches base p w)
      (\<lambda>_ w. J w \<and> reaches base p w) w"
    using w makes [of w p k] q by (simp add: reaches_def split: option.split file_node.split)
qed

lemma write_file_keeps: "slash_free base \<Longrightarrow> io_keeps J (write_file_tool base arguments)"
proof -
  have rest: "io_wp (make_folders (butlast p)) (\<lambda>_. io_wp (io_then (write_text p content)
       (io_then (record_mutation op (tool_path base p) before (Some content)) (io_return x))) (\<lambda>_. J) (\<lambda>_. J)) (\<lambda>_. J) w"
    if "J w" "reaches base p w" for p op content before x and w :: "'w agent_world"
  proof (rule io_wp_mono [OF io_keeps_wp [OF make_folders_keeps]])
    show "J w \<and> reaches base p w" using that by simp
  qed (auto simp: io_wp_write_text record_mutation_def intro: writes)
  assume "slash_free base"
  then show ?thesis
    unfolding write_file_tool_def
    by (intro io_wp_keeps, simp, intro wp_bound_resolve)
      (auto intro!: wp_read_or_refuse reads rest simp: reaches_def split: option.split)
qed

lemma delete_file_keeps: "slash_free base \<Longrightarrow> io_keeps J (delete_file_tool base arguments)"
  unfolding delete_file_tool_def
  by (rule io_wp_keeps, simp, rule wp_bound_resolve)
    (auto intro!: reads removes simp: io_wp_read_text record_mutation_def reaches_def is_folder_def stat_plain
      split: option.split file_node.split)

end

text \<open>A search reads whatever file a link below its folder leads to: it keeps what survives any read.\<close>

locale reading_policy = workspace_policy +
  assumes reads_any: "J w \<Longrightarrow> J (logged (Read_file p) w)"
begin

lemma search_files_keeps: "io_keeps J (search_files base' max_file_bytes rx limit ps hits scanned)"
proof (induction ps arbitrary: hits scanned)
  case (Cons p ps)
  have "io_keeps J (read_text p)"
    by (rule io_wp_keeps) (auto simp: read_text_def intro: reads_any split: option.split file_node.split)
  then have "io_keeps J (io_try (read_text p))" by (rule keeps_try)
  with Cons show ?case
    by (auto intro!: keeps_bind keeps_gets keeps_if keeps_return simp: Let_def split: sum.split)
qed (simp add: keeps_return)

lemma search_repository_keeps:
  "slash_free base \<Longrightarrow> io_keeps J (search_repository_tool compile base max_results max_chars max_bytes arguments)"
  unfolding search_repository_tool_def
  by (auto intro!: keeps_raise keeps_bind keeps_then keeps_gets keeps_guard keeps_lift keeps_return
      search_files_keeps io_wp_keeps [of J "bound_resolve base raw ar" for raw ar] wp_bound_resolve
      simp: Let_def split: option.split sum.split)

end

section \<open>Confinement\<close>

definition rooted_workspace :: "files \<Rightarrow> location \<Rightarrow> bool" where
  "rooted_workspace fs base \<longleftrightarrow> (\<forall>k \<le> length base. node_at fs (take k base) = Some Folder)"

primrec effect_permitted :: "location \<Rightarrow> file_effect \<Rightarrow> bool" where
  "effect_permitted base (Read_file p) \<longleftrightarrow> permitted base p"
| "effect_permitted base (Wrote_file p) \<longleftrightarrow> permitted base p \<and> below base p"
| "effect_permitted base (Removed_file p) \<longleftrightarrow> permitted base p \<and> below base p"
| "effect_permitted base (Listed_folder p) \<longleftrightarrow> permitted base p"
| "effect_permitted base (Made_folder p) \<longleftrightarrow>
     below base p \<and> (\<forall>part \<in> set (relative_parts base p). part \<notin> set ignored_dirs)"

definition tool_confined :: "location \<Rightarrow> 'w agent_world \<Rightarrow> 'w agent_world \<Rightarrow> bool" where
  "tool_confined base w0 w \<longleftrightarrow>
     (\<exists>es. aw_effects w = aw_effects w0 @ es \<and> (\<forall>e \<in> set es. effect_permitted base e)) \<and>
     (\<forall>q. \<not> below base q \<longrightarrow> node_at (aw_files w) q = node_at (aw_files w0) q)"

lemma confined_logged: "tool_confined base w0 w \<Longrightarrow> effect_permitted base e \<Longrightarrow> tool_confined base w0 (logged e w)"
  by (auto simp: tool_confined_def)

lemma confined_noted [simp]: "tool_confined base w0 (noted m w) = tool_confined base w0 w"
  by (simp add: tool_confined_def)

lemma below_nonempty: "below base p \<Longrightarrow> p \<noteq> []"
  by (auto simp: below_def)

lemma confined_put: "tool_confined base w0 w \<Longrightarrow> below base p \<Longrightarrow> tool_confined base w0 (put_node p n w)"
  using below_nonempty [of base p] by (auto simp: tool_confined_def)

lemma confined_drop: "tool_confined base w0 w \<Longrightarrow> below base p \<Longrightarrow> tool_confined base w0 (drop_node p w)"
  using below_nonempty [of base p] by (auto simp: tool_confined_def node_at_delete)

lemma confined_root:
  assumes "rooted_workspace (aw_files w0) base" and "tool_confined base w0 w" and "k \<le> length base"
  shows "node_at (aw_files w) (take k base) = Some Folder"
  using assms by (simp add: rooted_workspace_def tool_confined_def below_def)

lemma not_folder_below:
  assumes "rooted_workspace (aw_files w0) base" and "tool_confined base w0 w" and "permitted base p"
    and "node_at (aw_files w) p \<noteq> Some Folder"
  shows "below base p"
  using confined_root [OF assms(1,2), of "length base"] assms(3,4)
  by (auto simp: permitted_def at_or_below_def)

lemma missing_prefix_below:
  assumes "rooted_workspace (aw_files w0) base" and "tool_confined base w0 w" and "permitted base p"
    and "node_at (aw_files w) (take (Suc k) p) = None" and "Suc k < length p"
  shows "effect_permitted base (Made_folder (take (Suc k) p))"
proof -
  have p: "at_or_below base p" and parts: "\<forall>part \<in> set (relative_parts base p). part \<notin> set ignored_dirs"
    using assms(3) by (simp_all add: permitted_def)
  then have base: "take (length base) p = base" by (auto simp: at_or_below_def below_def)
  have "length base < Suc k"
  proof (rule ccontr)
    assume "\<not> length base < Suc k"
    then have "take (Suc k) p = take (Suc k) base" using base by (metis not_less take_take min_def)
    with confined_root [OF assms(1,2), of "Suc k"] assms(4) \<open>\<not> length base < Suc k\<close> show False by simp
  qed
  then have "below base (take (Suc k) p)" using base assms(5) by (simp add: below_def min_def)
  moreover have "set (relative_parts base (take (Suc k) p)) \<subseteq> set (relative_parts base p)"
    by (auto simp: relative_parts_def drop_take dest: in_set_takeD)
  ultimately show ?thesis using parts by auto
qed

interpretation confinement: workspace_policy base
  "\<lambda>w. rooted_workspace (aw_files w0) base \<longrightarrow> tool_confined base w0 w" for base w0
proof
  fix w p k
  assume "rooted_workspace (aw_files w0) base \<longrightarrow> tool_confined base w0 w" "reaches base p w" "Suc k < length p"
    "node_at (aw_files w) (take (Suc k) p) = None"
  then show "rooted_workspace (aw_files w0) base \<longrightarrow>
      tool_confined base w0 (put_node (take (Suc k) p) Folder (logged (Made_folder (take (Suc k) p)) w))"
    using missing_prefix_below [of w0 base w p k]
    by (auto simp: reaches_def intro!: confined_put confined_logged)
qed (auto simp: reaches_def intro!: confined_logged confined_put confined_drop not_folder_below)

text \<open>The tools that name one file or folder.\<close>

definition path_tool_names :: "string list" where
  "path_tool_names = [''read_file'', ''list_directory'', ''write_file'', ''edit_file'', ''delete_file'']"

lemma workspace_tool_cases:
  assumes "tool \<in> set (build_workspace_tools g)"
  obtains "tool = tool_of g ''read_file'' (read_file_tool (tg_root g) (tg_max_output_chars g))"
  | "tool = tool_of g ''list_directory'' (list_directory_tool (tg_root g))"
  | "tool = tool_of g ''search_repository''
       (search_repository_tool (tg_compile g) (tg_root g) 50 (tg_max_output_chars g) 256000)"
  | "tool = tool_of g ''write_file'' (write_file_tool (tg_root g))"
  | "tool = tool_of g ''edit_file'' (edit_file_tool (tg_root g))"
  | "tool = tool_of g ''delete_file'' (delete_file_tool (tg_root g))"
  | "tool = tool_of g ''run_check'' (run_check_tool (tg_env g) (tg_validators g) (tg_max_output_chars g))"
    and "tg_validators g \<noteq> []"
  using assms unfolding build_workspace_tools_def by (auto split: if_splits)

lemma at_name_tool_of [simp]: "at_name (tool_of g n run) = n" and at_run_tool_of [simp]: "at_run (tool_of g n run) = run"
  by (simp_all add: tool_of_def)


section \<open>The record of the edits\<close>

definition last_mutation :: "string \<Rightarrow> mutation list \<Rightarrow> mutation option" where
  "last_mutation name ms = find (\<lambda>m. mt_path m = name) (rev ms)"

text \<open>The file at a place, folders apart.\<close>

definition file_at :: "files \<Rightarrow> location \<Rightarrow> file_node option" where
  "file_at fs p = (if node_at fs p = Some Folder then None else node_at fs p)"

definition nameable :: "location \<Rightarrow> location \<Rightarrow> bool" where
  "nameable base p \<longleftrightarrow> at_or_below base p \<and> (\<forall>n \<in> set p. plain_name n)"

text \<open>The files are those of the beginning with the recorded edits applied, and no others.\<close>

definition edits_account :: "location \<Rightarrow> files \<Rightarrow> mutation list \<Rightarrow> files \<Rightarrow> bool" where
  "edits_account base fs0 ms fs \<longleftrightarrow> (\<forall>p. file_at fs p =
     (if nameable base p
      then (case last_mutation (tool_path base p) ms of
              None \<Rightarrow> file_at fs0 p
            | Some m \<Rightarrow> map_option Text_file (mt_after m))
      else file_at fs0 p))"

definition accounted_world :: "location \<Rightarrow> files \<Rightarrow> 'w agent_world \<Rightarrow> bool" where
  "accounted_world base fs0 w \<longleftrightarrow>
     (case aw_mutations w of None \<Rightarrow> False | Some ms \<Rightarrow> edits_account base fs0 ms (aw_files w))"

lemma last_mutation_snoc [simp]:
  "last_mutation name (ms @ [m]) = (if mt_path m = name then Some m else last_mutation name ms)"
  by (simp add: last_mutation_def)

lemma tool_path_inject:
  assumes "nameable base p" and "nameable base q" and "tool_path base p = tool_path base q"
  shows "p = q"
proof -
  have "\<forall>n \<in> set (relative_parts base x). plain_name n" if "nameable base x" for x
    using that by (auto simp: nameable_def relative_parts_def dest: in_set_dropD)
  then have "relative_parts base p = relative_parts base q"
    using assms posix_name_inject [of "relative_parts base p" "relative_parts base q"] by (simp add: tool_path_def)
  then show ?thesis using assms relative_parts_inject by (auto simp: nameable_def)
qed

lemma reaches_nameable: "reaches base p w \<Longrightarrow> nameable base p"
  by (auto simp: reaches_def permitted_def nameable_def dest: plain_path_names)

lemma accounted_noted:
  assumes "edits_account base fs0 ms fs" and "nameable base p" and "mt_path m = tool_path base p"
    and "\<And>q. file_at fs' q = (if q = p then map_option Text_file (mt_after m) else file_at fs q)"
  shows "edits_account base fs0 (ms @ [m]) fs'"
  unfolding edits_account_def
proof
  fix q
  have "q \<noteq> p \<Longrightarrow> nameable base q \<Longrightarrow> tool_path base p \<noteq> tool_path base q"
    using tool_path_inject assms(2) by blast
  then show "file_at fs' q = (if nameable base q
      then (case last_mutation (tool_path base q) (ms @ [m]) of
              None \<Rightarrow> file_at fs0 q | Some m \<Rightarrow> map_option Text_file (mt_after m))
      else file_at fs0 q)"
    using assms by (cases "q = p") (simp_all add: edits_account_def)
qed

lemma node_at_Nil [simp]: "node_at fs [] = Some Folder"
  by (simp add: node_at_def)

interpretation accounting: reading_policy base "accounted_world base fs0" for base fs0
proof
  fix w :: "'a agent_world" and p op before content
  assume J: "accounted_world base fs0 w" and p: "reaches base p w" and n: "node_at (aw_files w) p \<noteq> Some Folder"
  then have ne: "p \<noteq> []" by auto
  let ?m = "\<lambda>a. \<lparr>mt_op = op, mt_path = tool_path base p, mt_before = before, mt_after = a\<rparr>"
  show "accounted_world base fs0 (noted (?m (Some content))
      (put_node p (Text_file content) (logged (Wrote_file p) w)))"
    using J ne reaches_nameable [OF p]
    by (auto simp: accounted_world_def file_at_def intro!: accounted_noted split: option.splits)
  show "accounted_world base fs0 (noted (?m None) (drop_node p (logged (Removed_file p) w)))"
    using J ne reaches_nameable [OF p]
    by (auto simp: accounted_world_def file_at_def node_at_delete intro!: accounted_noted split: option.splits)
next
  fix w :: "'a agent_world" and p k
  assume J: "accounted_world base fs0 w" and "Suc k < length p" and none: "node_at (aw_files w) (take (Suc k) p) = None"
  then have "take (Suc k) p \<noteq> []" by auto
  then have "file_at (AList.update (take (Suc k) p) Folder (aw_files w)) = file_at (aw_files w)"
    using none by (auto simp: file_at_def fun_eq_iff)
  then show "accounted_world base fs0 (put_node (take (Suc k) p) Folder (logged (Made_folder (take (Suc k) p)) w))"
    using J by (simp add: accounted_world_def edits_account_def split: option.splits)
qed (simp_all add: accounted_world_def split: option.splits)

lemma workspace_tools_account:
  assumes "slash_free (tg_root g)" and "tg_validators g = []" and "tool \<in> set (build_workspace_tools g)"
  shows "io_keeps (accounted_world (tg_root g) fs0) (at_run tool arguments)"
  using assms(3)
  by (cases rule: workspace_tool_cases)
    (simp_all add: accounting.read_file_keeps accounting.list_directory_keeps accounting.write_file_keeps
      accounting.edit_file_keeps accounting.delete_file_keeps accounting.search_repository_keeps assms)

section \<open>A small workspace\<close>

definition files_sample :: "string \<Rightarrow> files" where
  "files_sample outside =
     [([''w''], Folder), ([''w'', ''a.py''], Text_file ''x = 1''), ([''w'', ''e.py''], Text_file []),
      ([''w'', ''n.txt''], Link ''/etc/passwd''), ([''etc''], Folder), ([''etc'', ''passwd''], Text_file outside)]"

definition agent_world_sample :: "string \<Rightarrow> unit agent_world" where
  "agent_world_sample outside =
     \<lparr>aw_files = files_sample outside, aw_effects = [], aw_mutations = Some [], aw_rest = ()\<rparr>"

definition tool_settings_sample :: "unit tool_settings" where
  "tool_settings_sample =
     \<lparr>tg_root = [''w''], tg_max_output_chars = 12000, tg_validators = [], tg_allow_write = True,
      tg_docs = (\<lambda>n. (n, [])), tg_compile = (\<lambda>p. Inr (\<lambda>line. contains line p)),
      tg_env = \<lparr>pe_search = (\<lambda>_ _ _. Inr False), pe_fnmatch = fnmatchcase, pe_repr = (\<lambda>_. [])\<rparr>\<rparr>"

lemma agent_world_sample_fields [simp]:
  "aw_files (agent_world_sample t) = files_sample t" "aw_effects (agent_world_sample t) = []"
  "aw_mutations (agent_world_sample t) = Some []"
  by (simp_all add: agent_world_sample_def)

lemma rooted_sample: "rooted_workspace (files_sample t) [''w'']"
  unfolding rooted_workspace_def by (auto simp: files_sample_def node_at_def le_Suc_eq)


section \<open>Where the tools fall short\<close>

text \<open>What a tool's path resolves to.\<close>

definition resolves_to :: "location \<Rightarrow> arguments \<Rightarrow> 'w agent_world \<Rightarrow> location \<Rightarrow> bool" where
  "resolves_to base arguments w p \<longleftrightarrow> bound_resolve base (pget arguments ''path'') False w = (Inr p, w)"

lemma wp_resolved: "resolves_to base arguments w p \<Longrightarrow> io_wp (bound_resolve base (pget arguments ''path'') False) Q E w = Q p w"
  by (simp add: resolves_to_def io_wp_def)

lemma resolves_to_reaches:
  assumes "slash_free base" and "resolves_to base arguments w p"
  shows "reaches base p w"
proof -
  have "io_wp (bound_resolve base (pget arguments ''path'') False) (\<lambda>q _. reaches base q w) (\<lambda>_ _. True) w"
    by (rule wp_bound_resolve [OF assms(1)]) simp_all
  then show ?thesis using assms(2) by (simp add: wp_resolved)
qed

lemma result_wp: "io_wp m (\<lambda>a t. P (Inr a) t) (\<lambda>e t. P (Inl e) t) w \<Longrightarrow> P (fst (m w)) (snd (m w))"
  by (auto simp: io_wp_def split: prod.splits sum.splits)

text \<open>The search leaves the workspace through a link. A file below the root that is a link with the name of
  a text file is searched by what it points to, and its lines are given to the model, although the
  place is outside the root and \<open>read_file\<close> refuses the same path.\<close>

lemma search_reads_through_links:
  assumes "utf8_length outside \<le> 256000" and "\<not> contains ''x = 1'' pattern" and "pattern \<noteq> []"
    and "splitlines (universal_newlines outside) = [line]" and "contains line pattern"
  shows "fst (search_repository_tool (\<lambda>p. Inr (\<lambda>l. contains l p)) [''w''] 50 12000 256000
        [(''pattern'', PStr pattern)] (agent_world_sample outside))
      = Inr (truncate_text (''1 ocorrencia(s)'' @ nl # ''n.txt:1: '' @ strip line) 12000)
    \<and> Read_file [''etc'', ''passwd''] \<in> set (aw_effects (snd (search_repository_tool
        (\<lambda>p. Inr (\<lambda>l. contains l p)) [''w''] 50 12000 256000 [(''pattern'', PStr pattern)]
        (agent_world_sample outside))))
    \<and> \<not> permitted [''w''] [''etc'', ''passwd'']
    \<and> fst (read_file_tool [''w''] 12000 [(''path'', PStr ''n.txt'')] (agent_world_sample outside))
      = Inl (tool_error ''path fora do workspace permitido: n.txt'')"
proof -
  have perm: "\<not> permitted [''w''] [''etc'', ''passwd'']"
    by (simp add: permitted_def at_or_below_def below_def)
  have link: "resolve_under (files_sample outside) [''w''] ''n.txt'' = Inr [''etc'', ''passwd'']"
    by (simp add: resolve_under_def files_sample_def node_at_def split_on_def starts_with_def)
  then have refused: "fst (read_file_tool [''w''] 12000 [(''path'', PStr ''n.txt'')] (agent_world_sample outside))
      = Inl (tool_error ''path fora do workspace permitido: n.txt'')"
    by (intro result_wp [where P = "\<lambda>r t. r = Inl (tool_error ''path fora do workspace permitido: n.txt'')"])
      (simp add: read_file_tool_def bound_resolve_def pget_def at_or_below_def below_def)
  have nodes: "node_at (files_sample outside) [''w''] = Some Folder"
    "node_at (files_sample outside) [''w'', ''a.py''] = Some (Text_file ''x = 1'')"
    "node_at (files_sample outside) [''w'', ''e.py''] = Some (Text_file [])"
    "node_at (files_sample outside) [''w'', ''n.txt''] = Some (Link ''/etc/passwd'')"
    "node_at (files_sample outside) [''etc''] = Some Folder"
    "node_at (files_sample outside) [''etc'', ''passwd''] = Some (Text_file outside)"
    by (simp_all add: files_sample_def node_at_def)
  have stat: "follow (files_sample outside) [''w'', n] =
      (if n = ''n.txt'' then Some [''etc'', ''passwd''] else Some [''w'', n])"
    if "n \<in> {''a.py'', ''e.py'', ''n.txt''}" for n
    using that by (auto simp: follow_def nodes split_on_def starts_with_def)
  have "follow (files_sample outside) [''w''] = Some [''w'']" by (simp add: follow_def nodes)
  then have root: "is_folder (files_sample outside) [''w'']" "path_exists (files_sample outside) [''w'']"
    by (simp_all add: is_folder_def path_exists_def stat_node_def nodes)
  have names: "searchable [''w''] 256000 (files_sample outside) [''w'', n]" if "n \<in> {''a.py'', ''e.py'', ''n.txt''}" for n
  proof -
    have "\<not> is_sensitive [''w'', ''a.py'']" "\<not> is_sensitive [''w'', ''e.py'']" "\<not> is_sensitive [''w'', ''n.txt'']"
      "str_lower (file_suffix ''a.py'') = ''.py''" "str_lower (file_suffix ''e.py'') = ''.py''"
      "str_lower (file_suffix ''n.txt'') = ''.txt''" by code_simp+
    moreover have "utf8_length ''x = 1'' = 5" "utf8_length [] = 0" by (simp_all add: utf8_length_def)
    ultimately show ?thesis
      using that stat [OF that] assms(1)
      by (auto simp: searchable_def is_file_def stat_node_def nodes relative_parts_def ignored_dirs_def
          text_extensions_def file_name_def)
  qed
  have order: "sort (descendants (files_sample outside) [''w''])
      = [[''w'', ''a.py''], [''w'', ''e.py''], [''w'', ''n.txt'']]"
  proof -
    have "descendants (files_sample outside) [''w''] = [[''w'', ''a.py''], [''w'', ''e.py''], [''w'', ''n.txt'']]"
      by (auto simp: descendants_def below_def files_sample_def)
    moreover have "sort [[''w'', ''a.py''], [''w'', ''e.py''], [''w'', ''n.txt'']]
        = [[''w'', ''a.py''], [''w'', ''e.py''], [''w'', ''n.txt'']]" by code_simp
    ultimately show ?thesis by simp
  qed
  have lines: "splitlines ''x = 1'' = [''x = 1'']" "splitlines [] = []"
    "show_nat (Suc 0) = ''1''"
    by code_simp+
  let ?found = "truncate_text (''1 ocorrencia(s)'' @ nl # ''n.txt:1: '' @ strip line) 12000"
  let ?search = "search_repository_tool (\<lambda>p. Inr (\<lambda>l. contains l p)) [''w''] 50 12000 256000 [(''pattern'', PStr pattern)]"
  have "io_wp ?search (\<lambda>a v. Inr a = Inr ?found \<and> Read_file [''etc'', ''passwd''] \<in> set (aw_effects v))
      (\<lambda>e v. Inl e = Inr ?found \<and> Read_file [''etc'', ''passwd''] \<in> set (aw_effects v)) (agent_world_sample outside)"
    using assms(2-) root order names stat
    by (simp add: search_repository_tool_def bound_resolve_def pget_def int_or_def read_text_def stat_node_def nodes
        lines tool_path_def relative_parts_def posix_name_def Let_def)
  from result_wp [where P = "\<lambda>r v. r = Inr ?found \<and> Read_file [''etc'', ''passwd''] \<in> set (aw_effects v)", OF this]
  show ?thesis using perm refused by simp
qed

lemma search_reads_through_links_witness:
  "fst (search_repository_tool (\<lambda>p. Inr (\<lambda>l. contains l p)) [''w''] 50 12000 256000
        [(''pattern'', PStr ''root'')] (agent_world_sample ''root:x''))
      = Inr (truncate_text (''1 ocorrencia(s)'' @ nl # ''n.txt:1: '' @ strip ''root:x'') 12000)"
proof -
  have size: "utf8_length ''root:x'' \<le> 256000" by (simp add: utf8_length_def)
  have "\<not> contains ''x = 1'' ''root''" "''root'' \<noteq> []"
    "splitlines (universal_newlines ''root:x'') = [''root:x'']" "contains ''root:x'' ''root''"
    by code_simp+
  from search_reads_through_links [OF size this] show ?thesis by blast
qed

text \<open>An empty file cannot be read. Without a range the last line is the number of lines, zero, which is
  before the first, so \<open>read_file\<close> answers every empty file with its message for an invalid range.\<close>

lemma empty_file_is_refused:
  assumes "slash_free base" and "resolves_to base arguments w p" and "node_at (aw_files w) p = Some (Text_file [])"
    and "pget arguments ''start_line'' = PNone" and "pget arguments ''end_line'' = PNone"
  shows "fst (read_file_tool base limit arguments w) = Inl (tool_error ''intervalo de linhas invalido.'')"
proof -
  have plain: "plain_path (aw_files w) p" using resolves_to_reaches [OF assms(1,2)] by simp
  have none: "splitlines (universal_newlines []) = []" by (simp add: splitlines_def)
  have "io_wp (read_file_tool base limit arguments)
      (\<lambda>a v. Inr a = Inl (tool_error ''intervalo de linhas invalido.''))
      (\<lambda>e v. Inl e = Inl (tool_error ''intervalo de linhas invalido.'')) w"
    using plain assms(3-5) none
    by (simp add: read_file_tool_def wp_resolved [OF assms(2)] path_exists_def is_folder_def stat_plain
        read_or_refuse_def io_wp_read_text int_or_def Let_def)
  then show ?thesis by (rule result_wp [where P = "\<lambda>r v. r = Inl (tool_error ''intervalo de linhas invalido.'')"])
qed

lemma empty_file_is_refused_witness:
  "fst (read_file_tool [''w''] 12000 [(''path'', PStr ''e.py'')] (agent_world_sample []))
     = Inl (tool_error ''intervalo de linhas invalido.'')"
proof (rule empty_file_is_refused)
  have "resolve_under (files_sample []) [''w''] ''e.py'' = Inr [''w'', ''e.py'']"
    by (simp add: resolve_under_def files_sample_def node_at_def split_on_def starts_with_def)
  moreover have "\<not> is_sensitive [''w'', ''e.py'']" by code_simp
  ultimately show "resolves_to [''w''] [(''path'', PStr ''e.py'')] (agent_world_sample []) [''w'', ''e.py'']"
    by (simp add: resolves_to_def bound_resolve_def pget_def at_or_below_def below_def relative_parts_def
        ignored_dirs_def io_bind_def io_then_def io_gets_def io_lift_def io_guard_def io_return_def)
qed (simp_all add: slash_free_def files_sample_def node_at_def pget_def)

text \<open>What \<open>edit_file\<close> leaves on disk is the edited text with its line endings normalised.\<close>

lemma universal_newlines_plain: "CHR 0x0D \<notin> set (universal_newlines s)"
  by (induction s rule: universal_newlines.induct) (auto simp: nl_def)

lemma split_on_subset: "l \<in> set (split_on d s) \<Longrightarrow> set l \<subseteq> set s"
proof (induction s arbitrary: l)
  case (Cons c s)
  show ?case
  proof (cases "c = d")
    case False
    with Cons.prems consider "l = c # hd (split_on d s)" | "l \<in> set (tl (split_on d s))"
      by (auto simp: split_on_Cons)
    then show ?thesis
    proof cases
      case 1
      with Cons.IH [of "hd (split_on d s)"] show ?thesis by auto
    next
      case 2
      then have "l \<in> set (split_on d s)" by (rule list.set_sel(2) [OF split_on_nonempty])
      with Cons.IH show ?thesis by auto
    qed
  qed (use Cons in auto)
qed simp

lemma join_avoids: "c \<notin> set sep \<Longrightarrow> \<forall>l \<in> set ls. c \<notin> set l \<Longrightarrow> c \<notin> set (join sep ls)"
proof (induction ls)
  case (Cons l ls)
  then show ?case by (cases "ls = []") (simp, simp add: join_Cons del: join.simps(2))
qed simp

lemma reindent_avoids:
  assumes "c \<noteq> nl" and "c \<notin> set original" and "c \<notin> set replacement"
  shows "c \<notin> set (reindent_replacement original search replacement)"
proof -
  have lines: "c \<notin> set l" if "l \<in> set (text_lines original)" for l
    using split_on_subset that assms(2) by (fastforce simp: text_lines_def)
  have target: "c \<notin> set (first_indent original)"
  proof (cases "find (\<lambda>line. strip line \<noteq> []) (text_lines original)")
    case (Some line)
    then have "line \<in> set (text_lines original)" by (auto simp: find_Some_iff)
    with lines have "c \<notin> set line" by blast
    then show ?thesis by (auto simp: first_indent_def Some dest: in_set_takeD)
  qed (simp add: first_indent_def)
  have "c \<notin> set l" if "l \<in> set (text_lines replacement)" for l
    using split_on_subset that assms(3) by (fastforce simp: text_lines_def)
  with target have "\<forall>l \<in> set (map (reindent_line (first_indent original) (first_indent search)) (text_lines replacement)).
      c \<notin> set l"
    by (auto simp: reindent_line_def) (blast dest: in_set_dropD)+
  then have "c \<notin> set (join [nl] (map (reindent_line (first_indent original) (first_indent search)) (text_lines replacement)))"
    using assms(1) by (intro join_avoids) simp_all
  with assms(3) show ?thesis by (simp add: reindent_replacement_def Let_def)
qed

lemma edit_avoids:
  assumes "tool_apply_replace before search replacement occurrence = Inr after"
    and "c \<noteq> nl" and "c \<notin> set before" and "c \<notin> set replacement"
  shows "c \<notin> set after"
proof -
  have "c \<notin> set (slice a b before)" for a b
    using assms(3) by (auto simp: slice_def dest: in_set_takeD in_set_dropD)
  then have "c \<notin> set (spliced before search replacement ig (a, b))" for ig a b
    using assms(2-) reindent_avoids by (auto simp: spliced_def dest: in_set_takeD in_set_dropD)
  moreover obtain ig a b where "after = spliced before search replacement ig (a, b)"
    using assms(1)
  proof (cases rule: span_cases)
    case (exact a b)
    then show ?thesis using that [of False a b] by (simp add: spliced_def)
  qed (use that in blast)
  ultimately show ?thesis by simp
qed

text \<open>\<open>edit_file\<close> writes the passage it was asked to change and every line ending of the file. The text it
  edits was read with universal newlines, so what it writes back has no carriage return but those of
  the new passage: an edit of one line of a file with \<open>\r\n\<close> endings changes all its lines.\<close>

lemma edit_normalises_line_endings:
  assumes "slash_free base" and "resolves_to base arguments w p" and "node_at (aw_files w) p = Some (Text_file t)"
    and "node_at (aw_files w) (butlast p) = Some Folder"
    and "pget arguments ''search'' = PStr search" and "search \<noteq> []" and "pget arguments ''replace'' = PStr replacement"
    and "tool_apply_replace (universal_newlines t) search replacement (edit_occurrence (pget arguments ''occurrence''))
         = Inr after"
  shows "(\<exists>answer. fst (edit_file_tool base arguments w) = Inr answer)
    \<and> node_at (aw_files (snd (edit_file_tool base arguments w))) p = Some (Text_file after)
    \<and> (CHR 0x0D \<notin> set replacement \<longrightarrow> CHR 0x0D \<notin> set after)"
proof -
  have plain: "plain_path (aw_files w) p" using resolves_to_reaches [OF assms(1,2)] by simp
  have ne: "p \<noteq> []" using assms(3) by auto
  have run: "io_wp (edit_file_tool base arguments)
      (\<lambda>a v. (\<exists>answer. Inr a = Inr answer) \<and> node_at (aw_files v) p = Some (Text_file after))
      (\<lambda>e v. (\<exists>answer. Inl e = Inr answer) \<and> node_at (aw_files v) p = Some (Text_file after)) w"
    using plain assms(3-8) ne
    by (simp add: edit_file_tool_def wp_resolved [OF assms(2)] path_exists_def is_folder_def stat_plain
        read_or_refuse_def io_wp_read_text io_wp_write_text record_mutation_def)
  from result_wp [where P = "\<lambda>r v. (\<exists>answer. r = Inr answer) \<and> node_at (aw_files v) p = Some (Text_file after)", OF run]
  moreover have "CHR 0x0D \<notin> set replacement \<longrightarrow> CHR 0x0D \<notin> set after"
    using edit_avoids [OF assms(8)] universal_newlines_plain by (simp add: nl_def)
  ultimately show ?thesis by blast
qed

lemma edit_normalises_line_endings_witness:
  "let w = \<lparr>aw_files = [([''w''], Folder), ([''w'', ''a''], Text_file [CHR ''x'', CHR 0x0D, nl, CHR ''y'', CHR 0x0D, nl])],
        aw_effects = [], aw_mutations = Some [], aw_rest = ()\<rparr> in
   node_at (aw_files (snd (edit_file_tool [''w'']
       [(''path'', PStr ''a''), (''search'', PStr ''x''), (''replace'', PStr ''z'')] w))) [''w'', ''a'']
     = Some (Text_file [CHR ''z'', nl, CHR ''y'', nl])"
proof -
  let ?fs = "[([''w''], Folder), ([''w'', ''a''], Text_file [CHR ''x'', CHR 0x0D, nl, CHR ''y'', CHR 0x0D, nl])]"
  let ?w = "\<lparr>aw_files = ?fs, aw_effects = [], aw_mutations = Some [], aw_rest = ()\<rparr>"
  let ?args = "[(''path'', PStr ''a''), (''search'', PStr ''x''), (''replace'', PStr ''z'')]"
  have "resolve_under ?fs [''w''] ''a'' = Inr [''w'', ''a'']"
    by (simp add: resolve_under_def node_at_def split_on_def starts_with_def)
  moreover have "\<not> is_sensitive [''w'', ''a'']" by code_simp
  ultimately have path: "resolves_to [''w''] ?args ?w [''w'', ''a'']"
    by (simp add: resolves_to_def bound_resolve_def pget_def at_or_below_def below_def relative_parts_def
        ignored_dirs_def io_bind_def io_then_def io_gets_def io_lift_def io_guard_def io_return_def)
  have "tool_apply_replace (universal_newlines [CHR ''x'', CHR 0x0D, nl, CHR ''y'', CHR 0x0D, nl]) ''x'' ''z'' None
      = Inr [CHR ''z'', nl, CHR ''y'', nl]"
    by code_simp
  with edit_normalises_line_endings [OF _ path, of "[CHR ''x'', CHR 0x0D, nl, CHR ''y'', CHR 0x0D, nl]" "''x''" "''z''"
      "[CHR ''z'', nl, CHR ''y'', nl]"]
  show ?thesis by (simp add: slash_free_def node_at_def pget_def edit_occurrence_def Let_def)
qed

end
