(* ===== verification/Workspace_Evidence.thy ===== *)
theory Workspace_Evidence imports Agent_Tools Validation Url begin

text \<open>
  What the workspace runtime records of a task's changes, as the dictionaries that travel in the task's
  result: the operations of an executor's payload, the difference of one file, the union of the
  evidence of successive attempts (\<open>_merge_workspace_evidence\<close> of \<open>app/agents/executor.py\<close>), and the
  entry of a file against what is on disk. The lines of a unified diff, which no code reads, are a
  parameter.
\<close>

section \<open>Dictionaries of dynamic values\<close>

definition has_key :: "(string \<times> pyval) list \<Rightarrow> string \<Rightarrow> bool" where
  "has_key d k \<longleftrightarrow> map_of d k \<noteq> None"

definition put_all :: "(string, 'v) pydict \<Rightarrow> (string, 'v) pydict \<Rightarrow> (string, 'v) pydict" where
  "put_all d e = foldl (\<lambda>d (k, v). AList.update k v d) d e"

definition without_keys :: "string set \<Rightarrow> (string, 'v) pydict \<Rightarrow> (string, 'v) pydict" where
  "without_keys ks d = filter (\<lambda>(k, v). k \<notin> ks) d"

text \<open>\<open>[*v]\<close>.\<close>

primrec spread :: "pyval \<Rightarrow> pyval list result" where
  "spread PNone = Inl (Exc TypeError ''Value after * must be an iterable'')"
| "spread (PBool b) = Inl (Exc TypeError ''Value after * must be an iterable'')"
| "spread (PInt i) = Inl (Exc TypeError ''Value after * must be an iterable'')"
| "spread (PFloat r) = Inl (Exc TypeError ''Value after * must be an iterable'')"
| "spread (PStr s) = Inr (map (\<lambda>c. PStr [c]) s)"
| "spread (PList xs) = Inr xs"
| "spread (PDict d) = Inr (map (PStr \<circ> fst) d)"

definition str_list :: "(string \<times> pyval) list \<Rightarrow> string \<Rightarrow> string list" where
  "str_list source key = List.map_filter as_str (list_or_empty (pget source key))"

text \<open>The items of a list that are dictionaries with a path, each with its path.\<close>

definition path_item :: "pyval \<Rightarrow> (string \<times> (string \<times> pyval) list) option" where
  "path_item v = (case as_dict v of
      None \<Rightarrow> None
    | Some d \<Rightarrow> (case as_str (pget d ''path'') of None \<Rightarrow> None | Some p \<Rightarrow> Some (p, d)))"

definition path_items :: "(string \<times> pyval) list \<Rightarrow> string \<Rightarrow> (string \<times> (string \<times> pyval) list) list" where
  "path_items source key = List.map_filter path_item (list_or_empty (pget source key))"

section \<open>The operations of a payload\<close>

record workspace_operation =
  wo_payload :: "(string \<times> pyval) list"
  wo_legacy_full_file :: bool

definition normalize_operations :: "(string \<times> pyval) list \<Rightarrow> workspace_operation list" where
  "normalize_operations payload =
     map (\<lambda>artifact. \<lparr>wo_payload = [(''op'', PStr ''create''), (''path'', pget artifact ''path''),
             (''content'', pget artifact ''content'')], wo_legacy_full_file = True\<rparr>)
       (List.map_filter as_dict (list_or_empty (pget payload ''files'')))
     @ map (\<lambda>item. \<lparr>wo_payload = item, wo_legacy_full_file = False\<rparr>)
       (List.map_filter as_dict (list_or_empty (pget payload ''operations'')))"

section \<open>The difference of one file\<close>

type_synonym unified_diff = "string list \<Rightarrow> string list \<Rightarrow> string \<Rightarrow> string \<Rightarrow> string list"

text \<open>\<open>before\<close> comes from a checkpoint and may be anything: what is true and not a string has no lines.\<close>

definition text_before :: "pyval \<Rightarrow> string result" where
  "text_before before =
     (if truthy before
      then (case as_str before of
              None \<Rightarrow> Inl (Exc (OtherError ''AttributeError'') ''object has no attribute splitlines'')
            | Some s \<Rightarrow> Inr s)
      else Inr [])"

definition change_type :: "pyval \<Rightarrow> string option \<Rightarrow> string" where
  "change_type before after =
     (if after = None then ''deleted''
      else if before = PNone then ''created''
      else if before \<noteq> opt_str_val after then ''modified'' else ''unchanged'')"

definition build_diff_entry ::
  "unified_diff \<Rightarrow> string \<Rightarrow> pyval \<Rightarrow> string option \<Rightarrow> (string \<times> pyval) list result" where
  "build_diff_entry unified relative_path before after =
     (case text_before before of
        Inl e \<Rightarrow> Inl e
      | Inr before_text \<Rightarrow>
          let lines = unified (splitlines before_text)
                (splitlines (case after of None \<Rightarrow> [] | Some t \<Rightarrow> t)) (''a/'' @ relative_path) (''b/'' @ relative_path)
          in Inr [(''path'', PStr relative_path), (''before_content'', before),
                  (''change_type'', PStr (change_type before after)),
                  (''changed'', PBool (before \<noteq> opt_str_val after)),
                  (''diff'', PStr (take 8000 (join [nl] lines)))])"

section \<open>Evidence of successive attempts\<close>

text \<open>An entry of this attempt against the entry of the earlier ones: the baseline is the start of the task.\<close>

definition net_diff ::
  "(string, (string \<times> pyval) list) pydict \<Rightarrow> string \<Rightarrow> (string \<times> pyval) list \<Rightarrow> (string \<times> pyval) list" where
  "net_diff previous_diffs path item =
     (let before = (case dict_get previous_diffs path of None \<Rightarrow> PNone | Some d \<Rightarrow> pget d ''change_type'');
          now = pget item ''change_type'';
          net = (case dict_get previous_diffs path of
              None \<Rightarrow> item
            | Some d \<Rightarrow>
                if has_key d ''before_content'' then AList.update ''before_content'' (pget d ''before_content'') item
                else if pget d ''change_type'' = PStr ''created'' then AList.update ''before_content'' PNone item
                else AList.delete ''before_content'' item)
      in if before = PStr ''created'' \<and> now \<in> {PStr ''modified'', PStr ''unchanged''}
         then AList.update ''changed'' (PBool True) (AList.update ''change_type'' (PStr ''created'') net)
         else if before = PStr ''deleted'' \<and> now = PStr ''created''
         then AList.update ''changed'' (PBool True) (AList.update ''change_type'' (PStr ''modified'') net)
         else net)"

definition created_before :: "(string \<times> pyval) list \<Rightarrow> string set" where
  "created_before previous =
     {p \<in> fst ` set (path_items previous ''file_diffs'').
        (case dict_get (dict_of (path_items previous ''file_diffs'')) p of
           None \<Rightarrow> False | Some d \<Rightarrow> pget d ''change_type'' = PStr ''created'')}"

definition vanished :: "(string \<times> pyval) list \<Rightarrow> (string \<times> pyval) list \<Rightarrow> string set" where
  "vanished previous current = created_before previous \<inter> set (str_list current ''deleted_paths'')"

definition merged_diffs ::
  "(string \<times> pyval) list \<Rightarrow> (string \<times> pyval) list \<Rightarrow> (string, (string \<times> pyval) list) pydict" where
  "merged_diffs previous current =
     (let previous_diffs = dict_of (path_items previous ''file_diffs'');
          kept = without_keys (set (str_list current ''deleted_paths'')) previous_diffs
      in without_keys (vanished previous current)
           (put_all kept (map (\<lambda>(path, item). (path, net_diff previous_diffs path item))
              (path_items current ''file_diffs''))))"

definition merged_published ::
  "(string \<times> pyval) list \<Rightarrow> (string \<times> pyval) list \<Rightarrow> (string, (string \<times> pyval) list) pydict" where
  "merged_published previous current =
     put_all (without_keys (set (str_list current ''deleted_paths''))
               (dict_of (path_items previous ''published_files'')))
       (path_items current ''published_files'')"

text \<open>\<open>set_order\<close> is the order in which Python's set gives its elements.\<close>

definition merged_deleted ::
  "(string list \<Rightarrow> string list) \<Rightarrow> (string \<times> pyval) list \<Rightarrow> (string \<times> pyval) list \<Rightarrow> string list" where
  "merged_deleted set_order previous current =
     filter (\<lambda>p. p \<notin> fst ` set (merged_published previous current) \<union> vanished previous current)
       (unique (str_list previous ''deleted_paths'' @ set_order (str_list current ''deleted_paths'')))"

definition merged_key ::
  "(string \<times> pyval) list \<Rightarrow> (string \<times> pyval) list \<Rightarrow> string \<Rightarrow> pyval list \<Rightarrow> (string \<times> pyval) list
   \<Rightarrow> (string \<times> pyval) list" where
  "merged_key previous current key items merged =
     (if items \<noteq> [] \<or> has_key previous key \<or> has_key current key
      then AList.update key (PList items) merged else merged)"

definition spread_history :: "(string \<times> pyval) list \<Rightarrow> pyval list result" where
  "spread_history ws =
     (let h = pget ws ''operation_history'' in if truthy h then spread h else Inr [])"

definition merge_workspace_evidence ::
  "(string list \<Rightarrow> string list) \<Rightarrow> (string \<times> pyval) list option \<Rightarrow> (string \<times> pyval) list
   \<Rightarrow> (string \<times> pyval) list result" where
  "merge_workspace_evidence set_order previous current =
     (case previous of
        None \<Rightarrow> Inr current
      | Some prev \<Rightarrow>
          if prev = [] then Inr current
          else case (spread_history prev, spread_history current) of
            (Inl e, _) \<Rightarrow> Inl e
          | (Inr _, Inl e) \<Rightarrow> Inl e
          | (Inr before, Inr now) \<Rightarrow>
              let applied = unique (str_list prev ''applied_files'' @ str_list current ''applied_files'');
                  m1 = AList.update ''applied_files'' (PList (map PStr applied)) current;
                  m2 = merged_key prev current ''file_diffs'' (map (PDict \<circ> snd) (merged_diffs prev current)) m1;
                  m3 = merged_key prev current ''published_files''
                         (map (PDict \<circ> snd) (merged_published prev current)) m2;
                  m4 = merged_key prev current ''deleted_paths'' (map PStr (merged_deleted set_order prev current)) m3
              in Inr (if before @ now \<noteq> [] then AList.update ''operation_history'' (PList (before @ now)) m4 else m4))"

section \<open>Test files among the changes\<close>

definition test_file :: "string \<Rightarrow> bool" where
  "test_file path \<longleftrightarrow>
     (let name = pp_name (posix_path_of path)
      in ends_with name ''.py'' \<and> (starts_with name ''test'' \<or> ends_with name ''_test.py''))"

definition modified_python_tests :: "(string \<times> pyval) list \<Rightarrow> string list" where
  "modified_python_tests workspace =
     unique (map fst (filter (\<lambda>(path, item). pget item ''changed'' = PBool True
          \<and> pget item ''change_type'' \<noteq> PStr ''deleted'' \<and> test_file path)
        (path_items workspace ''file_diffs'')))"

section \<open>An entry against the disk\<close>

text \<open>What one round of \<open>_refresh_artifacts\<close> makes of the recorded entry of a file and of what is now on
  disk: nothing when the file neither was there at the start nor is now.\<close>

definition refresh_entry ::
  "unified_diff \<Rightarrow> string \<Rightarrow> (string \<times> pyval) list \<Rightarrow> pyval \<Rightarrow> string option
   \<Rightarrow> (string \<times> pyval) list option result" where
  "refresh_entry unified relative_path old_diff previous_content after =
     (if has_key old_diff ''before_content'' \<or> pget old_diff ''change_type'' = PStr ''created''
      then (let before = pget old_diff ''before_content'' in
        if before = PNone \<and> after = None then Inr None
        else map_sum id (\<lambda>diff. Some (if has_key old_diff ''operation''
                 then AList.update ''operation'' (pget old_diff ''operation'') diff else diff))
               (build_diff_entry unified relative_path before after))
      else if opt_str_val after \<noteq> previous_content
      then (case build_diff_entry unified relative_path previous_content after of
              Inl e \<Rightarrow> Inl e
            | Inr entry \<Rightarrow>
                if pget old_diff ''change_type'' = PStr ''created'' \<and> after = None then Inr None
                else Inr (Some (put_all old_diff entry)))
      else Inr (Some old_diff))"

section \<open>Lemmas on the evidence\<close>

lemma map_of_put_all [simp]:
  "map_of (put_all d e) k = (case map_of (rev e) k of None \<Rightarrow> map_of d k | Some v \<Rightarrow> Some v)"
  by (simp add: put_all_def foldl_update_map_of)

lemma keys_put_all: "set (map fst (put_all d e)) = set (map fst d) \<union> set (map fst e)"
proof (induction e arbitrary: d)
  case (Cons p e)
  obtain k v where p: "p = (k, v)" by (cases p)
  show ?case using Cons.IH [of "AList.update k v d"] by (simp add: p put_all_def dom_update)
qed (simp add: put_all_def)

lemma map_of_without_keys [simp]: "map_of (without_keys ks d) k = (if k \<in> ks then None else map_of d k)"
  unfolding without_keys_def by (induction d) auto

lemma keys_without_keys [simp]: "fst ` set (without_keys ks d) = fst ` set d - ks"
  by (force simp: without_keys_def)

lemma map_of_entry:
  "build_diff_entry unified path before after = Inr entry \<Longrightarrow>
   map_of entry ''before_content'' = Some before \<and> map_of entry ''change_type'' = Some (PStr (change_type before after))
   \<and> map_of entry ''changed'' = Some (PBool (before \<noteq> opt_str_val after)) \<and> map_of entry ''path'' = Some (PStr path)"
  by (auto simp: build_diff_entry_def Let_def split: sum.splits)

text \<open>A file created and later deleted by the same task leaves no trace: no entry, nothing to publish, nothing to delete.\<close>

lemma vanished_leaves_no_trace:
  assumes "p \<in> vanished previous current" and "p \<notin> fst ` set (path_items current ''published_files'')"
  shows "map_of (merged_diffs previous current) p = None" and "map_of (merged_published previous current) p = None"
    and "p \<notin> set (merged_deleted set_order previous current)"
proof -
  have "p \<in> set (str_list current ''deleted_paths'')" using assms(1) by (simp add: vanished_def)
  moreover have "map_of (rev (path_items current ''published_files'')) p = None"
    using assms(2) by (simp add: map_of_eq_None_iff)
  ultimately show "map_of (merged_published previous current) p = None" by (simp add: merged_published_def)
  show "map_of (merged_diffs previous current) p = None"
    using assms(1) by (simp add: merged_diffs_def Let_def)
  show "p \<notin> set (merged_deleted set_order previous current)"
    using assms(1) by (simp add: merged_deleted_def)
qed

end
