(* ===== verification/Command_Runner.thy ===== *)
theory Command_Runner imports Command_Policy Validation Agent_Tools begin

text \<open>
  The commands the workspace runtime runs (\<open>app/infrastructure/workspace_runtime.py\<close>): the runner on the
  host and the one in a container, the environment they pass on, and the validator that turns the end of
  a command into a signal. Starting, awaiting and killing a process are parameters that may do anything;
  output is text, decoded without errors.
\<close>

section \<open>Processes\<close>

definition resolve_argv :: "(string \<Rightarrow> string option) \<Rightarrow> string list \<Rightarrow> string list" where
  "resolve_argv which argv =
     (case argv of [] \<Rightarrow> []
      | a # rest \<Rightarrow> if truthy_str (which a) then or_str (which a) [] # rest else argv)"

definition secret_markers :: "string list" where
  "secret_markers = [''KEY'', ''TOKEN'', ''SECRET'', ''PASSWORD'', ''CREDENTIAL'']"

text \<open>The pattern ignores case.\<close>

definition secret_name :: "string \<Rightarrow> bool" where
  "secret_name name \<longleftrightarrow> (\<exists>m \<in> set secret_markers. contains (str_lower name) (str_lower m))"

definition sanitized_environment :: "(string, string) pydict \<Rightarrow> (string, string) pydict" where
  "sanitized_environment source = filter (\<lambda>(k, v). \<not> secret_name k) source"

record command_outcome =
  co_command :: string
  co_exit :: "int option"
  co_out :: string
  co_err :: string
  co_timed_out :: bool

definition command_result :: "string \<Rightarrow> int option \<Rightarrow> string \<Rightarrow> string \<Rightarrow> int \<Rightarrow> command_outcome" where
  "command_result command returncode out err output_limit =
     \<lparr>co_command = command, co_exit = returncode, co_out = slice_to output_limit out,
      co_err = slice_to output_limit err, co_timed_out = False\<rparr>"

datatype process_end = Exited int string string | Ran_out_of_time | Interrupted

record 's process_host =
  hp_nt :: bool
  hp_which :: "string \<Rightarrow> string option"
  hp_environ :: "(string, string) pydict"
  hp_show_float :: "rat \<Rightarrow> string"
  hp_start :: "string list \<Rightarrow> string option \<Rightarrow> (string, string) pydict option \<Rightarrow> ('s, unit) io"
  hp_communicate :: "rat option \<Rightarrow> ('s, process_end) io"
  hp_kill :: "('s, unit) io"
  hp_wait :: "('s, unit) io"

type_synonym 's command_runner = "string \<Rightarrow> string \<Rightarrow> int \<Rightarrow> ('s, command_outcome) io"

definition timeout_message :: "'s process_host \<Rightarrow> rat option \<Rightarrow> string" where
  "timeout_message h timeout =
     ''timeout apos '' @ (case timeout of None \<Rightarrow> [] | Some t \<Rightarrow> hp_show_float h t) @ ''s; processo encerrado''"

definition local_run ::
  "'s process_host \<Rightarrow> command_policy \<Rightarrow> rat option \<Rightarrow> bool \<Rightarrow> 's command_runner" where
  "local_run h policy timeout sanitize command folder output_limit =
     io_bind (io_lift (parse_command (hp_nt h) policy command)) (\<lambda>parsed.
     io_then (hp_start h (resolve_argv (hp_which h) parsed) (Some folder)
               (if sanitize then Some (sanitized_environment (hp_environ h)) else None))
    (io_bind (hp_communicate h timeout) (\<lambda>ended.
       case ended of
         Exited code out err \<Rightarrow> io_return (command_result command (Some code) out err output_limit)
       | Ran_out_of_time \<Rightarrow>
           io_then (hp_kill h) (io_then (hp_wait h)
             (io_return ((command_result command None [] (timeout_message h timeout) output_limit)
               \<lparr>co_timed_out := True\<rparr>)))
       | Interrupted \<Rightarrow>
           io_then (hp_kill h) (io_then (hp_wait h) (io_raise (Exc CancelledError []))))))"

record docker_command =
  dc_image :: string
  dc_memory :: string
  dc_cpus :: rat
  dc_network_enabled :: bool
  dc_policy :: command_policy

definition build_argv :: "bool \<Rightarrow> (rat \<Rightarrow> string) \<Rightarrow> docker_command \<Rightarrow> string \<Rightarrow> string \<Rightarrow> string list result" where
  "build_argv nt show_float d command folder =
     (case parse_command nt (dc_policy d) command of
        Inl e \<Rightarrow> Inl e
      | Inr command_argv \<Rightarrow> Inr
          ([''docker'', ''run'', ''--rm'', ''--init'', ''--network'',
            if dc_network_enabled d then ''bridge'' else ''none'', ''--read-only'', ''--tmpfs'',
            ''/tmp:rw,noexec,nosuid,nodev,size=64m'', ''--memory'', dc_memory d, ''--cpus'', show_float (dc_cpus d),
            ''--pids-limit'', ''256'', ''--security-opt'', ''no-new-privileges'', ''--cap-drop'', ''ALL'', ''-v'',
            folder @ '':/workspace:rw'', ''-w'', ''/workspace'', dc_image d] @ command_argv))"

definition docker_run :: "'s process_host \<Rightarrow> docker_command \<Rightarrow> 's command_runner" where
  "docker_run h d command folder output_limit =
     io_bind (io_lift (build_argv (hp_nt h) (hp_show_float h) d command folder)) (\<lambda>argv.
     io_then (hp_start h argv None None)
    (io_bind (hp_communicate h None) (\<lambda>ended.
       case ended of
         Exited code out err \<Rightarrow> io_return (command_result command (Some code) out err output_limit)
       | _ \<Rightarrow> io_raise (Exc CancelledError []))))"

section \<open>The validator of a command\<close>

record 's command_validator =
  cv_name :: string
  cv_command :: string
  cv_root :: string
  cv_suffixes :: "string list"
  cv_capabilities :: "capability list"
  cv_output_limit :: int
  cv_runner :: "'s command_runner"

definition new_command_validator ::
  "string \<Rightarrow> string \<Rightarrow> string \<Rightarrow> string list \<Rightarrow> capability list \<Rightarrow> int \<Rightarrow> 's command_runner \<Rightarrow> 's command_validator" where
  "new_command_validator name command folder suffixes capabilities output_limit runner =
     \<lparr>cv_name = name, cv_command = command, cv_root = folder, cv_suffixes = map str_lower suffixes,
      cv_capabilities = capabilities, cv_output_limit = output_limit, cv_runner = runner\<rparr>"

definition no_tests_collected :: int where "no_tests_collected = 5"

definition outcome_signal :: "string \<Rightarrow> string \<Rightarrow> command_outcome \<Rightarrow> validation_signal" where
  "outcome_signal name command o1 =
     (let combined = join [nl] (filter (\<lambda>part. part \<noteq> []) (map strip [co_out o1, co_err o1]));
          none_ran = (name = ''pytest'' \<and> co_exit o1 = Some no_tests_collected);
          details = (if none_ran
                     then strip (''nenhum teste coletado (exit_code='' @ show_opt_int (co_exit o1) @ ''). '' @ combined)
                     else combined)
      in \<lparr>vs_name = name, vs_passed = (if none_ran then None else Some (co_exit o1 = Some 0)),
          vs_details = (if details = [] then ''exit_code='' @ show_opt_int (co_exit o1) else details),
          vs_command = Some command, vs_exit_code = co_exit o1, vs_stdout = co_out o1, vs_stderr = co_err o1\<rparr>)"

definition execute_command :: "'s command_validator \<Rightarrow> ('s, validation_signal) io" where
  "execute_command c =
     io_bind (cv_runner c (cv_command c) (cv_root c) (cv_output_limit c))
       (\<lambda>o1. io_return (outcome_signal (cv_name c) (cv_command c) o1))"

definition should_run :: "'s command_validator \<Rightarrow> capability \<Rightarrow> string list \<Rightarrow> bool" where
  "should_run c cap applied_files \<longleftrightarrow>
     (cv_capabilities c = [] \<or> cap \<in> set (cv_capabilities c)) \<and> applied_files \<noteq> [] \<and>
     (cv_suffixes c = [] \<or>
      (\<exists>p \<in> set applied_files. str_lower (file_suffix (pp_name (posix_path_of p))) \<in> set (cv_suffixes c)))"

definition run_validator ::
  "'s command_validator \<Rightarrow> capability \<Rightarrow> string list \<Rightarrow> ('s, validation_signal option) io" where
  "run_validator c cap applied_files =
     (if should_run c cap applied_files then io_bind (execute_command c) (\<lambda>s. io_return (Some s))
      else io_return None)"

definition workspace_field :: "agent_task \<Rightarrow> string \<Rightarrow> pyval list" where
  "workspace_field task key = list_or_empty (dict_field (dict_field (t_result task) ''workspace'') key)"

definition cached_signal ::
  "((string \<times> pyval) list \<Rightarrow> validation_signal result) \<Rightarrow> 's command_validator \<Rightarrow> agent_task
   \<Rightarrow> validation_signal option result" where
  "cached_signal parse_signal c task =
     (case find (\<lambda>d. pget d ''name'' = PStr (cv_name c))
             (List.map_filter as_dict (workspace_field task ''command_feedback'')) of
        None \<Rightarrow> Inr None
      | Some d \<Rightarrow> map_sum id Some (parse_signal d))"

definition recorded_applied_files :: "agent_task \<Rightarrow> string list" where
  "recorded_applied_files task = List.map_filter as_str (workspace_field task ''applied_files'')"

definition validate_command ::
  "((string \<times> pyval) list \<Rightarrow> validation_signal result) \<Rightarrow> 's command_validator \<Rightarrow> agent_task
   \<Rightarrow> ('s, validation_signal) io" where
  "validate_command parse_signal c task =
     io_bind (io_lift (cached_signal parse_signal c task)) (\<lambda>cached.
       case cached of
         Some s \<Rightarrow> io_return s
       | None \<Rightarrow>
           io_bind (run_validator c (t_capability task) (recorded_applied_files task)) (\<lambda>found.
             case found of
               Some s \<Rightarrow> io_return s
             | None \<Rightarrow> io_return \<lparr>vs_name = cv_name c, vs_passed = None,
                 vs_details = ''skipped: tarefa fora do escopo do validador'', vs_command = None,
                 vs_exit_code = None, vs_stdout = [], vs_stderr = []\<rparr>))"

section \<open>What a command may be and what it may say\<close>

text \<open>A command the policy does not parse starts nothing, on either runner.\<close>

lemma refused_command_starts_nothing:
  assumes "parse_command (hp_nt h) policy command = Inl e"
  shows "local_run h policy timeout sanitize command folder limit s = (Inl e, s)"
    and "dc_policy d = policy \<Longrightarrow> docker_run h d command folder limit s = (Inl e, s)"
  using assms by (simp_all add: local_run_def docker_run_def build_argv_def io_bind_def io_lift_def)

lemma no_secret_is_passed_on: "(k, v) \<in> set (sanitized_environment source) \<Longrightarrow> \<not> secret_name k"
  by (simp add: sanitized_environment_def)

text \<open>The container is confined whatever the command: the options come before the image, and the command after it.\<close>

lemma container_options:
  assumes "build_argv nt show_float d command folder = Inr argv"
  shows "\<exists>options command_argv. argv = options @ dc_image d # command_argv \<and> parse_command nt (dc_policy d) command = Inr command_argv
    \<and> {''--read-only'', ''no-new-privileges'', ''ALL''} \<subseteq> set options
    \<and> (\<not> dc_network_enabled d \<longrightarrow> drop 4 options \<noteq> [] \<and> options ! 4 = ''--network'' \<and> options ! 5 = ''none'')"
  using assms by (auto simp: build_argv_def split: sum.splits)

text \<open>A command passes a check exactly when it exits with zero; it fails it otherwise, out of time included, except for
  \<open>pytest\<close> that found no test, which says nothing.\<close>

lemma signal_verdict:
  "vs_passed (outcome_signal name command o1) =
     (if co_exit o1 = Some 0 then Some True
      else if name = ''pytest'' \<and> co_exit o1 = Some no_tests_collected then None else Some False)"
  by (simp add: outcome_signal_def Let_def no_tests_collected_def)

end
