(* ===== verification/Workspace_Runtime.thy ===== *)
theory Workspace_Runtime imports Workspace_Evidence Command_Runner begin

text \<open>
  \<open>LocalWorkspaceRuntime\<close> (\<open>app/infrastructure/workspace_runtime.py\<close>): an executor's operations applied to
  the workspace, the edits its tools already made folded in, the feedback of the configured commands, and
  the evidence read back from disk at the end. An operation that does not fit the files is an
  \<open>OperationApplyError\<close>, feedback for the next attempt; any other exception aborts the task.
  Parameters: the validators' runs and the git process, which may do anything to the world.
\<close>

section \<open>The runtime\<close>

record execution_strategy =
  es_apply_files :: bool
  es_run_objective_validation :: bool
  es_allow_autocorrect :: bool

definition default_strategy :: execution_strategy where
  "default_strategy = \<lparr>es_apply_files = True, es_run_objective_validation = True, es_allow_autocorrect = True\<rparr>"

definition dump_strategy :: "execution_strategy \<Rightarrow> pyval" where
  "dump_strategy s = PDict [(''apply_files'', PBool (es_apply_files s)),
     (''run_objective_validation'', PBool (es_run_objective_validation s)),
     (''allow_autocorrect'', PBool (es_allow_autocorrect s))]"

record 'w feedback_runner =
  fr_integrity :: bool
  fr_run :: "capability \<Rightarrow> string list \<Rightarrow> ('w agent_world, validation_signal option) io"

record 'w workspace_runtime =
  wr_root :: location
  wr_apply_files_enabled :: bool
  wr_pipeline :: validation_pipeline
  wr_feedback :: "(string, 'w feedback_runner) pydict"
  wr_git :: "string list \<Rightarrow> ('w agent_world, int option \<times> string \<times> string) io"
  wr_which :: "string \<Rightarrow> string option"
  wr_unified :: unified_diff
  wr_env :: py_env
  wr_uuid :: "uuid \<Rightarrow> string"
  wr_set_order :: "string list \<Rightarrow> string list"

definition root_text :: "'w workspace_runtime \<Rightarrow> string" where
  "root_text rt = ''/'' @ join ''/'' (wr_root rt)"

section \<open>Paths\<close>

definition value_error :: "string \<Rightarrow> exc" where
  "value_error m = Exc ValueError m"

definition resolve_artifact_path :: "location \<Rightarrow> pyval \<Rightarrow> ('w agent_world, location) io" where
  "resolve_artifact_path base raw =
     (case as_str raw of
        None \<Rightarrow> io_raise (value_error ''Artefato sem path relativo valido.'')
      | Some s \<Rightarrow>
          if strip s = [] then io_raise (value_error ''Artefato sem path relativo valido.'')
          else io_bind (io_gets (\<lambda>w. resolve_under (aw_files w) base s)) (\<lambda>resolved.
               io_bind (io_lift resolved) (\<lambda>candidate.
               io_then (io_guard (at_or_below base candidate)
                         (value_error (''Path fora do workspace permitido: '' @ s)))
                 (io_return candidate))))"

section \<open>One operation\<close>

definition read_if_exists :: "location \<Rightarrow> ('w agent_world, string option) io" where
  "read_if_exists p =
     io_bind (io_gets (\<lambda>w. path_exists (aw_files w) p)) (\<lambda>exists.
       if exists then io_bind (read_text p) (\<lambda>t. io_return (Some t)) else io_return None)"

text \<open>\<open>path.read_bytes() == content.encode()\<close>.\<close>

definition same_bytes :: "location \<Rightarrow> string \<Rightarrow> ('w agent_world, bool) io" where
  "same_bytes p content =
     io_bind (io_gets (\<lambda>w. (follow (aw_files w) p, stat_node (aw_files w) p))) (\<lambda>(q, n).
       case n of
         Some (Text_file t) \<Rightarrow> io_then (log_file (Read_file (the q))) (io_return (t = content))
       | Some (Binary_file k) \<Rightarrow> io_then (log_file (Read_file (the q))) (io_return False)
       | _ \<Rightarrow> io_raise (file_error ''[Errno 2] No such file or directory''))"

definition exists_error :: exc where
  "exists_error = Exc (OtherError ''FileExistsError'') []"

text \<open>\<open>path.open("x")\<close>, which follows no link at the end of the path.\<close>

definition create_text :: "location \<Rightarrow> string \<Rightarrow> ('w agent_world, unit) io" where
  "create_text p content =
     io_bind (io_gets aw_files) (\<lambda>fs.
       if node_at fs p \<noteq> None then io_raise exists_error
       else if node_at fs (butlast p) \<noteq> Some Folder
       then io_raise (file_error ''[Errno 2] No such file or directory'')
       else io_then (log_file (Wrote_file p)) (io_modify (put_node p (Text_file content))))"

definition int_value :: "pyval \<Rightarrow> int option" where
  "int_value v = (case v of PInt i \<Rightarrow> Some i | PBool b \<Rightarrow> Some (if b then 1 else 0) | _ \<Rightarrow> None)"

definition create_operation ::
  "location \<Rightarrow> (string \<times> pyval) list \<Rightarrow> bool \<Rightarrow> string option
   \<Rightarrow> ('w agent_world, string option \<times> string option) io" where
  "create_operation p operation legacy_full_file before =
     (case as_str (pget operation ''content'') of
        None \<Rightarrow> io_raise (value_error (''Operacao create em '' @ file_name p @ '' sem content.''))
      | Some content \<Rightarrow>
          if before \<noteq> None \<and> \<not> legacy_full_file
          then io_bind (same_bytes p content) (\<lambda>same.
            if same then io_return (before, before)
            else io_raise (apply_error (''arquivo ja existe com conteudo diferente; leia o arquivo atual ''
                   @ ''e use op=replace para uma alteracao localizada.'')))
          else io_then (make_folders (butlast p))
              (io_then (if legacy_full_file then write_text p content
                        else io_catch (create_text p content) (\<lambda>e.
                          if exc_kind e = exc_kind exists_error
                          then io_raise (apply_error ''arquivo passou a existir; leia o arquivo atual e use op=replace.'')
                          else io_raise e))
                (io_return (before, Some content))))"

definition replace_operation ::
  "location \<Rightarrow> (string \<times> pyval) list \<Rightarrow> string option \<Rightarrow> ('w agent_world, string option \<times> string option) io" where
  "replace_operation p operation before =
     (case before of
        None \<Rightarrow> io_raise (apply_error ''arquivo nao existe; use op=create para arquivos novos.'')
      | Some text \<Rightarrow>
          (case (as_str (pget operation ''search''), as_str (pget operation ''replace'')) of
             (Some search, Some replacement) \<Rightarrow>
               io_bind (io_lift (apply_replace text search replacement (int_value (pget operation ''occurrence''))))
                 (\<lambda>after. io_then (write_text p after) (io_return (before, Some after)))
           | _ \<Rightarrow> io_raise (value_error (''Operacao replace em '' @ file_name p @ '' malformada.''))))"

definition delete_operation ::
  "location \<Rightarrow> string option \<Rightarrow> ('w agent_world, string option \<times> string option) io" where
  "delete_operation p before =
     (if before = None then io_raise (apply_error ''arquivo nao existe; nada a remover.'')
      else io_then (unlink p) (io_return (before, None)))"

definition apply_operation ::
  "py_env \<Rightarrow> pyval \<Rightarrow> location \<Rightarrow> (string \<times> pyval) list \<Rightarrow> bool
   \<Rightarrow> ('w agent_world, string option \<times> string option) io" where
  "apply_operation env op p operation legacy_full_file =
     io_bind (read_if_exists p) (\<lambda>before.
       if op = PStr ''create'' then create_operation p operation legacy_full_file before
       else if op = PStr ''replace'' then replace_operation p operation before
       else if op = PStr ''delete'' then delete_operation p before
       else io_raise (value_error (''Operacao desconhecida: '' @ pe_repr env op)))"

definition is_redundant_post_tool_op ::
  "pyval \<Rightarrow> location \<Rightarrow> (string \<times> pyval) list \<Rightarrow> ('w agent_world, bool) io" where
  "is_redundant_post_tool_op op p operation =
     io_bind (io_gets (\<lambda>w. path_exists (aw_files w) p)) (\<lambda>exists.
       if op = PStr ''delete'' \<and> \<not> exists then io_return True
       else if op = PStr ''replace'' \<and> exists
       then (case as_str (pget operation ''replace'') of
               None \<Rightarrow> io_return False
             | Some replacement \<Rightarrow>
                 if replacement = [] then io_return False
                 else io_bind (read_text p) (\<lambda>current. io_return (contains current replacement)))
       else io_return False)"

section \<open>The edits of the tools\<close>

record folded_mutation =
  fm_op :: string
  fm_before :: "string option"
  fm_after :: "string option"

definition net_op :: "string option \<Rightarrow> string option \<Rightarrow> string" where
  "net_op first_before after =
     (if after = None then ''delete'' else if first_before = None then ''create'' else ''replace'')"

definition fold_mutation ::
  "(string, folded_mutation) pydict \<Rightarrow> string \<Rightarrow> folded_mutation \<Rightarrow> (string, folded_mutation) pydict" where
  "fold_mutation folded path m =
     (case dict_get folded path of
        None \<Rightarrow> AList.update path m folded
      | Some first \<Rightarrow> AList.update path
          \<lparr>fm_op = net_op (fm_before first) (fm_after m), fm_before = fm_before first, fm_after = fm_after m\<rparr> folded)"

definition tool_mutations :: "(string \<times> pyval) list \<Rightarrow> (string \<times> pyval) list list" where
  "tool_mutations payload = List.map_filter as_dict (list_or_empty (pget payload ''tool_mutations''))"

primrec fold_mutations ::
  "'w workspace_runtime \<Rightarrow> (string \<times> pyval) list list \<Rightarrow> (string, folded_mutation) pydict
   \<Rightarrow> ('w agent_world, (string, folded_mutation) pydict) io" where
  "fold_mutations rt [] folded = io_return folded"
| "fold_mutations rt (m # ms) folded =
     io_bind (resolve_artifact_path (wr_root rt) (pget m ''path'')) (\<lambda>p.
       fold_mutations rt ms (fold_mutation folded (tool_path (wr_root rt) p)
         \<lparr>fm_op = (if truthy (pget m ''op'') then py_str (wr_env rt) (pget m ''op'') else ''replace''),
          fm_before = as_str (pget m ''before''), fm_after = as_str (pget m ''after'')\<rparr>))"

section \<open>The operations of an attempt\<close>

record apply_state =
  ap_applied :: "string list"
  ap_diffs :: "(string \<times> pyval) list list"
  ap_history :: "(string \<times> pyval) list list"
  ap_errors :: "(string \<times> pyval) list list"
  ap_published :: "(string, string) pydict"
  ap_originals :: "(string, string option) pydict"
  ap_deleted :: "string list"

definition empty_apply :: apply_state where
  "empty_apply = \<lparr>ap_applied = [], ap_diffs = [], ap_history = [], ap_errors = [], ap_published = [],
     ap_originals = [], ap_deleted = []\<rparr>"

definition set_default :: "'k \<Rightarrow> 'v \<Rightarrow> ('k, 'v) pydict \<Rightarrow> ('k, 'v) pydict" where
  "set_default k v d = (if map_of d k = None then AList.update k v d else d)"

definition applied_entry :: "pyval \<Rightarrow> string \<Rightarrow> (string \<times> pyval) list \<Rightarrow> (string \<times> pyval) list" where
  "applied_entry op path diff =
     [(''step'', PStr ''apply_file''), (''operation'', op), (''path'', PStr path),
      (''change_type'', pget diff ''change_type''), (''changed'', pget diff ''changed'')]"

definition apply_folded ::
  "unified_diff \<Rightarrow> string \<times> folded_mutation \<Rightarrow> apply_state \<Rightarrow> apply_state result" where
  "apply_folded unified item s =
     (case item of (path, m) \<Rightarrow>
        if fm_before m = None \<and> fm_after m = None then Inr s
        else case build_diff_entry unified path (opt_str_val (fm_before m)) (fm_after m) of
          Inl e \<Rightarrow> Inl e
        | Inr entry \<Rightarrow>
            let diff = AList.update ''operation'' (PStr (fm_op m)) entry
            in Inr (s\<lparr>ap_applied := ap_applied s @ [path],
                     ap_originals := set_default path (fm_before m) (ap_originals s),
                     ap_diffs := ap_diffs s @ [diff],
                     ap_deleted := (if fm_after m = None then ap_deleted s @ [path] else ap_deleted s),
                     ap_published := (case fm_after m of
                         None \<Rightarrow> AList.delete path (ap_published s)
                       | Some after \<Rightarrow> AList.update path after (ap_published s)),
                     ap_history := ap_history s
                       @ [applied_entry (PStr (fm_op m)) path diff @ [(''source'', PStr ''tool_loop'')]]\<rparr>))"

fun apply_all_folded ::
  "unified_diff \<Rightarrow> (string \<times> folded_mutation) list \<Rightarrow> apply_state \<Rightarrow> apply_state result" where
  "apply_all_folded unified [] s = Inr s"
| "apply_all_folded unified (item # items) s =
     (case apply_folded unified item s of Inl e \<Rightarrow> Inl e | Inr t \<Rightarrow> apply_all_folded unified items t)"

definition record_failure :: "pyval \<Rightarrow> string \<Rightarrow> exc \<Rightarrow> apply_state \<Rightarrow> apply_state" where
  "record_failure op path e s =
     s\<lparr>ap_errors := ap_errors s @ [[(''path'', PStr path), (''operation'', op), (''error'', PStr (exc_text e))]],
       ap_history := ap_history s @ [[(''step'', PStr ''apply_file''), (''operation'', op), (''path'', PStr path),
         (''applied'', PBool False), (''error'', PStr (exc_text e))]]\<rparr>"

definition record_success ::
  "unified_diff \<Rightarrow> (string, folded_mutation) pydict \<Rightarrow> pyval \<Rightarrow> string \<Rightarrow> string option \<Rightarrow> string option
   \<Rightarrow> apply_state \<Rightarrow> apply_state result" where
  "record_success unified folded op path before after s =
     (let originals = set_default path before (ap_originals s);
          original = dict_get_or originals path None
      in case build_diff_entry unified path (opt_str_val original) after of
           Inl e \<Rightarrow> Inl e
         | Inr entry \<Rightarrow>
             let known = (dict_get folded path \<noteq> None);
                 diff = AList.update ''operation'' (if known then PStr (net_op original after) else op) entry
             in Inr (s\<lparr>ap_applied := (if path \<in> set (ap_applied s) then ap_applied s else ap_applied s @ [path]),
                      ap_originals := originals,
                      ap_diffs := (if known then filter (\<lambda>d. pget d ''path'' \<noteq> PStr path) (ap_diffs s) else ap_diffs s)
                                  @ [diff],
                      ap_deleted := (if after = None
                          then (if path \<in> set (ap_deleted s) then ap_deleted s else ap_deleted s @ [path])
                          else filter (\<lambda>p. p \<noteq> path) (ap_deleted s)),
                      ap_published := (case after of
                          None \<Rightarrow> AList.delete path (ap_published s)
                        | Some t \<Rightarrow> AList.update path t (ap_published s)),
                      ap_history := ap_history s @ [applied_entry op path diff]\<rparr>))"

definition apply_one ::
  "'w workspace_runtime \<Rightarrow> (string, folded_mutation) pydict \<Rightarrow> workspace_operation \<Rightarrow> apply_state
   \<Rightarrow> ('w agent_world, apply_state) io" where
  "apply_one rt folded wop s =
     (let operation = wo_payload wop; op = pget operation ''op'' in
      io_bind (resolve_artifact_path (wr_root rt) (pget operation ''path'')) (\<lambda>p.
        let path = tool_path (wr_root rt) p in
        io_bind (io_try (apply_operation (wr_env rt) op p operation (wo_legacy_full_file wop))) (\<lambda>r.
          case r of
            Inl e \<Rightarrow>
              if exc_kind e = exc_kind (apply_error [])
              then io_bind (if dict_get folded path \<noteq> None then is_redundant_post_tool_op op p operation
                            else io_return False)
                     (\<lambda>redundant. io_return (if redundant then s else record_failure op path e s))
              else io_raise e
          | Inr (before, after) \<Rightarrow> io_lift (record_success (wr_unified rt) folded op path before after s))))"

primrec apply_operations ::
  "'w workspace_runtime \<Rightarrow> (string, folded_mutation) pydict \<Rightarrow> workspace_operation list \<Rightarrow> apply_state
   \<Rightarrow> ('w agent_world, apply_state) io" where
  "apply_operations rt folded [] s = io_return s"
| "apply_operations rt folded (o1 # os) s = io_bind (apply_one rt folded o1 s) (apply_operations rt folded os)"

section \<open>Feedback\<close>

definition signal_dump :: "validation_signal \<Rightarrow> pyval" where
  "signal_dump s = PDict
     [(''name'', PStr (vs_name s)), (''passed'', case vs_passed s of None \<Rightarrow> PNone | Some b \<Rightarrow> PBool b),
      (''details'', PStr (vs_details s)), (''command'', opt_str_val (vs_command s)),
      (''exit_code'', opt_int_val (vs_exit_code s)), (''stdout'', PStr (vs_stdout s)), (''stderr'', PStr (vs_stderr s))]"

definition passed_value :: "validation_signal \<Rightarrow> pyval" where
  "passed_value s = (case vs_passed s of None \<Rightarrow> PNone | Some b \<Rightarrow> PBool b)"

definition feedback_entry :: "validation_signal \<Rightarrow> pyval" where
  "feedback_entry s = PDict
     [(''step'', PStr ''command_feedback''), (''name'', PStr (vs_name s)), (''passed'', passed_value s),
      (''command'', opt_str_val (vs_command s)), (''exit_code'', opt_int_val (vs_exit_code s)),
      (''details'', PStr (vs_details s))]"

definition execution_entry :: "validation_signal \<Rightarrow> pyval" where
  "execution_entry s = PDict
     [(''name'', PStr (vs_name s)), (''command'', opt_str_val (vs_command s)), (''passed'', passed_value s),
      (''exit_code'', opt_int_val (vs_exit_code s)), (''stdout'', PStr (vs_stdout s)), (''stderr'', PStr (vs_stderr s))]"

definition apply_signal :: "py_env \<Rightarrow> (string \<times> pyval) list list \<Rightarrow> validation_signal" where
  "apply_signal env errors = plain_signal ''apply'' False
     (join ''; '' (map (\<lambda>d. py_str env (pget d ''operation'') @ '' '' @ py_str env (pget d ''path'') @ '': ''
        @ py_str env (pget d ''error'')) errors))"

primrec run_feedback ::
  "'w feedback_runner list \<Rightarrow> capability \<Rightarrow> string list \<Rightarrow> string list
   \<Rightarrow> ('w agent_world, validation_signal list) io" where
  "run_feedback [] cap applied_files tests = io_return []"
| "run_feedback (r # rs) cap applied_files tests =
     io_bind (fr_run r cap (if fr_integrity r then tests else applied_files)) (\<lambda>found.
     io_bind (run_feedback rs cap applied_files tests) (\<lambda>rest.
       io_return ((case found of None \<Rightarrow> [] | Some s \<Rightarrow> [s]) @ rest)))"

text \<open>A validator without a \<open>run\<close> of its own is passed over.\<close>

definition run_command_feedback ::
  "'w workspace_runtime \<Rightarrow> agent_task \<Rightarrow> string list \<Rightarrow> (string \<times> pyval) list
   \<Rightarrow> ('w agent_world, validation_signal list) io" where
  "run_command_feedback rt task applied_files evidence =
     run_feedback
       (List.map_filter (\<lambda>v. dict_get (wr_feedback rt) (ov_name v))
         (validators_for_capability (wr_pipeline rt) (t_capability task)))
       (t_capability task) applied_files (modified_python_tests evidence)"

definition run_git_command ::
  "'w workspace_runtime \<Rightarrow> string \<Rightarrow> int \<Rightarrow> ('w agent_world, int option \<times> string) io" where
  "run_git_command rt command output_limit =
     io_bind (io_lift (shlex_split command)) (\<lambda>argv.
     io_bind (wr_git rt (resolve_argv (wr_which rt) argv)) (\<lambda>(code, out, err).
       io_return (code, slice_to output_limit out)))"

definition capture_git_snapshot ::
  "'w workspace_runtime \<Rightarrow> string list \<Rightarrow> ('w agent_world, (string \<times> pyval) list option) io" where
  "capture_git_snapshot rt applied_files =
     (if applied_files = [] then io_return None
      else io_bind (io_gets (\<lambda>w. path_exists (aw_files w) (wr_root rt @ [''.git'']))) (\<lambda>exists.
        if \<not> exists then io_return None
        else io_bind (run_git_command rt ''git status --short'' 4000) (\<lambda>(status_code, status).
             io_bind (run_git_command rt ''git diff --no-ext-diff --relative'' 8000) (\<lambda>(diff_code, diff).
               io_return (Some [(''status'', PStr status), (''status_exit_code'', opt_int_val status_code),
                 (''diff'', PStr diff), (''diff_exit_code'', opt_int_val diff_code)])))))"

section \<open>The evidence read back from disk\<close>

record refresh_state =
  rf_published :: "pyval list"
  rf_deleted :: "string list"
  rf_diffs :: "(string \<times> pyval) list list"

definition note_refreshed ::
  "string \<Rightarrow> string option \<Rightarrow> (string \<times> pyval) list option \<Rightarrow> refresh_state \<Rightarrow> refresh_state" where
  "note_refreshed path content entry s =
     (case entry of
        None \<Rightarrow> s
      | Some diff \<Rightarrow> s
          \<lparr>rf_deleted := (if content = None then rf_deleted s @ [path] else rf_deleted s),
           rf_published := (case content of
               None \<Rightarrow> rf_published s
             | Some t \<Rightarrow> rf_published s @ [PDict [(''path'', PStr path), (''content'', PStr t)]]),
           rf_diffs := (if diff = [] then rf_diffs s else rf_diffs s @ [diff])\<rparr>)"

definition refresh_one ::
  "'w workspace_runtime \<Rightarrow> (string, (string \<times> pyval) list) pydict \<Rightarrow> (string, pyval) pydict \<Rightarrow> string set
   \<Rightarrow> string \<Rightarrow> refresh_state \<Rightarrow> ('w agent_world, refresh_state) io" where
  "refresh_one rt entries contents retained path s =
     (if path \<notin> retained then io_return s
      else io_bind (resolve_artifact_path (wr_root rt) (PStr path)) (\<lambda>p.
           io_bind (read_if_exists p) (\<lambda>content.
           io_bind (io_lift (refresh_entry (wr_unified rt) path (dict_get_or entries path [])
                      (dict_get_or contents path PNone) content)) (\<lambda>entry.
             io_return (note_refreshed path content entry s)))))"

primrec refresh_all ::
  "'w workspace_runtime \<Rightarrow> (string, (string \<times> pyval) list) pydict \<Rightarrow> (string, pyval) pydict \<Rightarrow> string set
   \<Rightarrow> string list \<Rightarrow> refresh_state \<Rightarrow> ('w agent_world, refresh_state) io" where
  "refresh_all rt entries contents retained [] s = io_return s"
| "refresh_all rt entries contents retained (path # paths) s =
     io_bind (refresh_one rt entries contents retained path s) (refresh_all rt entries contents retained paths)"

text \<open>\<open>item["content"]\<close> of every published item: a missing key raises.\<close>

definition recorded_contents :: "(string \<times> pyval) list \<Rightarrow> (string, pyval) pydict result" where
  "recorded_contents evidence =
     (let items = path_items evidence ''published_files'' in
      if (\<forall>(path, item) \<in> set items. has_key item ''content'')
      then Inr (dict_of (map (\<lambda>(path, item). (path, pget item ''content'')) items))
      else Inl (Exc LookupError ''content''))"

definition refresh_artifacts ::
  "'w workspace_runtime \<Rightarrow> (string \<times> pyval) list \<Rightarrow> ('w agent_world, (string \<times> pyval) list) io" where
  "refresh_artifacts rt evidence =
     (let entries = dict_of (path_items evidence ''file_diffs'') in
      io_bind (io_lift (recorded_contents evidence)) (\<lambda>contents.
      io_bind (refresh_all rt entries contents
                (fst ` set entries \<union> fst ` set contents \<union> set (str_list evidence ''deleted_paths''))
                (str_list evidence ''applied_files'')
                \<lparr>rf_published = [], rf_deleted = [], rf_diffs = []\<rparr>) (\<lambda>s.
        io_return (AList.update ''deleted_paths'' (PList (map PStr (rf_deleted s)))
          (AList.update ''published_files'' (PList (rf_published s))
            (AList.update ''file_diffs'' (PList (map PDict (rf_diffs s))) evidence))))))"

section \<open>An attempt\<close>

definition previous_workspace :: "'w workspace_runtime \<Rightarrow> agent_task \<Rightarrow> (string \<times> pyval) list option" where
  "previous_workspace rt task =
     (case as_dict (dict_field (t_result task) ''workspace'') of
        None \<Rightarrow> None
      | Some ws \<Rightarrow>
          if pget ws ''task_id'' \<noteq> PStr (wr_uuid rt (t_id task)) \<or> pget ws ''apply_files_enabled'' \<noteq> PBool True
          then None else Some ws)"

definition nothing_applied :: "'w workspace_runtime \<Rightarrow> execution_strategy \<Rightarrow> pyval" where
  "nothing_applied rt strategy = PDict [(''workspace'', PDict
     [(''apply_files_enabled'', PBool (wr_apply_files_enabled rt \<and> es_apply_files strategy)),
      (''applied_files'', PList []), (''workspace_root'', PStr (root_text rt)),
      (''strategy'', dump_strategy strategy)])]"

definition current_evidence :: "apply_state \<Rightarrow> (string \<times> pyval) list" where
  "current_evidence s =
     [(''applied_files'', PList (map PStr (ap_applied s))), (''file_diffs'', PList (map PDict (ap_diffs s))),
      (''published_files'', PList (map (\<lambda>(path, content). PDict [(''path'', PStr path), (''content'', PStr content)])
         (ap_published s))),
      (''deleted_paths'', PList (map PStr (ap_deleted s)))]"

definition snapshot_entry :: "(string \<times> pyval) list option \<Rightarrow> pyval list" where
  "snapshot_entry snapshot =
     (case snapshot of
        None \<Rightarrow> []
      | Some d \<Rightarrow> [PDict [(''step'', PStr ''git_snapshot''), (''is_git_repo'', PBool True), (''status'', pget d ''status'')]])"

definition prior_history :: "(string \<times> pyval) list option \<Rightarrow> pyval list result" where
  "prior_history previous =
     (case previous of None \<Rightarrow> Inr [] | Some ws \<Rightarrow> spread (dict_get_or ws ''operation_history'' (PList [])))"

definition finish_attempt ::
  "'w workspace_runtime \<Rightarrow> agent_task \<Rightarrow> execution_strategy \<Rightarrow> (string \<times> pyval) list option \<Rightarrow> apply_state
   \<Rightarrow> (string \<times> pyval) list \<Rightarrow> validation_signal list \<Rightarrow> (string \<times> pyval) list option
   \<Rightarrow> ('w agent_world, pyval) io" where
  "finish_attempt rt task strategy previous s evidence signals snapshot =
     io_bind (refresh_artifacts rt evidence) (\<lambda>fresh.
     io_bind (io_lift (prior_history previous)) (\<lambda>prior.
       io_return (PDict [(''workspace'', PDict
         [(''apply_files_enabled'', PBool True), (''applied_files'', pget evidence ''applied_files''),
          (''workspace_root'', PStr (root_text rt)), (''task_id'', PStr (wr_uuid rt (t_id task))),
          (''strategy'', dump_strategy strategy), (''command_feedback'', PList (map signal_dump signals)),
          (''file_diffs'', dict_get_or fresh ''file_diffs'' (PList [])),
          (''apply_errors'', PList (map PDict (ap_errors s))),
          (''published_files'', pget fresh ''published_files''), (''deleted_paths'', pget fresh ''deleted_paths''),
          (''operation_history'', PList (prior @ map PDict (ap_history s) @ map feedback_entry signals
             @ snapshot_entry snapshot)),
          (''command_executions'', PList (map execution_entry signals)),
          (''git_snapshot'', case snapshot of None \<Rightarrow> PNone | Some d \<Rightarrow> PDict d)])])))"

definition apply_attempt ::
  "'w workspace_runtime \<Rightarrow> agent_task \<Rightarrow> (string \<times> pyval) list \<Rightarrow> execution_strategy option
   \<Rightarrow> ('w agent_world, pyval) io" where
  "apply_attempt rt task payload given =
     (let strategy = (case given of None \<Rightarrow> default_strategy | Some s \<Rightarrow> s);
          operations = normalize_operations payload; mutations = tool_mutations payload;
          previous = previous_workspace rt task
      in if \<not> wr_apply_files_enabled rt \<or> \<not> es_apply_files strategy
            \<or> (operations = [] \<and> mutations = [] \<and> previous = None)
         then io_return (nothing_applied rt strategy)
         else
           io_bind (fold_mutations rt mutations []) (\<lambda>folded.
           io_bind (io_lift (apply_all_folded (wr_unified rt) folded empty_apply)) (\<lambda>s0.
           io_bind (apply_operations rt folded operations s0) (\<lambda>s.
           io_bind (io_lift (merge_workspace_evidence (wr_set_order rt) previous (current_evidence s))) (\<lambda>evidence.
             let applied = str_list evidence ''applied_files'';
                 semantic = (if ap_errors s = [] then [] else [apply_signal (wr_env rt) (ap_errors s)])
             in io_bind (if es_run_objective_validation strategy then run_command_feedback rt task applied evidence
                         else io_return []) (\<lambda>ran.
                io_bind (if es_run_objective_validation strategy then capture_git_snapshot rt applied
                         else io_return None) (\<lambda>snapshot.
                  finish_attempt rt task strategy previous s evidence (semantic @ ran) snapshot)))))))"

section \<open>What is reported is what is there\<close>

text \<open>The file a path names, once links are followed, holds the text or is not there.\<close>

definition on_disk :: "location \<Rightarrow> files \<Rightarrow> string \<Rightarrow> string option \<Rightarrow> bool" where
  "on_disk base fs path content \<longleftrightarrow>
     (\<exists>p. resolve_under fs base path = Inr p \<and> at_or_below base p \<and>
       (case content of
          None \<Rightarrow> \<not> path_exists fs p
        | Some t \<Rightarrow> \<exists>raw. node_at fs p = Some (Text_file raw) \<and> t = universal_newlines raw))"

definition published_ok :: "location \<Rightarrow> files \<Rightarrow> pyval \<Rightarrow> bool" where
  "published_ok base fs x \<longleftrightarrow>
     (\<exists>path t. x = PDict [(''path'', PStr path), (''content'', PStr t)] \<and> on_disk base fs path (Some t))"

text \<open>An entry with a recorded baseline says how the disk differs from it.\<close>

definition diff_ok :: "location \<Rightarrow> files \<Rightarrow> (string \<times> pyval) list \<Rightarrow> bool" where
  "diff_ok base fs d \<longleftrightarrow> (case map_of d ''before_content'' of
      None \<Rightarrow> True
    | Some before \<Rightarrow> \<exists>path content. pget d ''path'' = PStr path \<and> on_disk base fs path content
        \<and> pget d ''change_type'' = PStr (change_type before content)
        \<and> pget d ''changed'' = PBool (before \<noteq> opt_str_val content))"

definition refreshed_ok :: "location \<Rightarrow> files \<Rightarrow> refresh_state \<Rightarrow> bool" where
  "refreshed_ok base fs s \<longleftrightarrow> (\<forall>x \<in> set (rf_published s). published_ok base fs x)
     \<and> (\<forall>path \<in> set (rf_deleted s). on_disk base fs path None) \<and> (\<forall>d \<in> set (rf_diffs s). diff_ok base fs d)"

lemma io_wp_points:
  "io_wp (io_bind m f) Q E = io_wp m (\<lambda>a. io_wp (f a) Q E) E" "io_wp (io_return x) Q E = Q x"
  by (simp_all add: fun_eq_iff)

lemma wp_resolve_artifact:
  assumes "slash_free base" and "\<And>e. E e w"
    and "\<And>p s. raw = PStr s \<Longrightarrow> resolve_under (aw_files w) base s = Inr p \<Longrightarrow> at_or_below base p \<Longrightarrow>
      plain_path (aw_files w) p \<Longrightarrow> Q p w"
  shows "io_wp (resolve_artifact_path base raw) Q E w"
proof (cases raw)
  case (PStr s)
  have "Q p w" if "resolve_under (aw_files w) base s = Inr p" "at_or_below base p" for p
    using that assms(1) by (intro assms(3) [OF PStr]) (auto simp: slash_free_def intro: resolve_under_plain)
  then show ?thesis using assms(2) PStr by (simp add: resolve_artifact_path_def split: sum.split)
qed (simp_all add: resolve_artifact_path_def assms(2))

lemma io_wp_read_if_exists:
  "plain_path (aw_files w) p \<Longrightarrow> io_wp (read_if_exists p) Q E w =
     (case node_at (aw_files w) p of
        None \<Rightarrow> Q None w
      | Some (Text_file t) \<Rightarrow> Q (Some (universal_newlines t)) (logged (Read_file p) w)
      | Some (Binary_file k) \<Rightarrow> E decode_error (logged (Read_file p) w)
      | Some _ \<Rightarrow> E (file_error ''[Errno 21] Is a directory'') w)"
  by (simp add: read_if_exists_def path_exists_def stat_plain io_wp_read_text split: option.split file_node.split)

lemma refresh_entry_ok:
  assumes "refresh_entry unified path old prev content = Inr (Some d)" and "on_disk base fs path content"
  shows "diff_ok base fs d"
proof (cases "has_key old ''before_content'' \<or> pget old ''change_type'' = PStr ''created''")
  case True
  then show ?thesis using assms
    by (cases "build_diff_entry unified path (pget old ''before_content'') content")
      (auto simp: refresh_entry_def Let_def diff_ok_def pget_def dest!: map_of_entry split: if_splits)
next
  case False
  then consider "d = old" | entry where "build_diff_entry unified path prev content = Inr entry" "d = put_all old entry"
    using assms(1) by (auto simp: refresh_entry_def split: if_splits sum.splits)
  then show ?thesis
  proof cases
    case 1
    then show ?thesis using False by (simp add: diff_ok_def has_key_def)
  next
    case 2
    then show ?thesis using assms(2)
      by (auto simp: build_diff_entry_def Let_def diff_ok_def pget_def split: sum.splits)
  qed
qed

lemma note_refreshed_ok:
  assumes "refreshed_ok base fs s" and "on_disk base fs path content" and "\<And>d. entry = Some d \<Longrightarrow> diff_ok base fs d"
  shows "refreshed_ok base fs (note_refreshed path content entry s)"
  using assms by (cases entry; cases content) (auto simp: note_refreshed_def refreshed_ok_def published_ok_def)

lemma read_if_exists_on_disk:
  assumes "plain_path (aw_files w) p" and "resolve_under (aw_files w) base path = Inr p" and "at_or_below base p"
  shows "io_wp (read_if_exists p) (\<lambda>content v. on_disk base (aw_files w) path content \<and> aw_files v = aw_files w)
    (\<lambda>_ _. True) w"
  using assms by (simp add: io_wp_read_if_exists on_disk_def path_exists_def stat_plain split: option.split file_node.split)

lemma refresh_one_ok:
  assumes "slash_free (wr_root rt)" and "refreshed_ok (wr_root rt) (aw_files w) s"
  shows "io_wp (refresh_one rt entries contents retained path s)
    (\<lambda>t v. refreshed_ok (wr_root rt) (aw_files v) t \<and> aw_files v = aw_files w) (\<lambda>_ _. True) w"
proof (cases "path \<in> retained")
  case True
  have rest: "refreshed_ok (wr_root rt) (aw_files w) (note_refreshed path content entry s)"
    if "on_disk (wr_root rt) (aw_files w) path content"
      "refresh_entry (wr_unified rt) path (dict_get_or entries path []) (dict_get_or contents path PNone) content
       = Inr entry" for content entry
    using that by (intro note_refreshed_ok assms(2)) (auto intro: refresh_entry_ok)
  have read: "io_wp (read_if_exists p) (\<lambda>content. io_wp (io_lift (refresh_entry (wr_unified rt) path
         (dict_get_or entries path []) (dict_get_or contents path PNone) content))
       (\<lambda>entry v. refreshed_ok (wr_root rt) (aw_files v) (note_refreshed path content entry s)
          \<and> aw_files v = aw_files w) (\<lambda>_ _. True)) (\<lambda>_ _. True) w"
    if "resolve_under (aw_files w) (wr_root rt) path = Inr p" "at_or_below (wr_root rt) p" "plain_path (aw_files w) p" for p
    by (rule io_wp_mono [OF read_if_exists_on_disk [OF that(3,1,2)]]) (auto intro: rest split: sum.split)
  have "io_wp (resolve_artifact_path (wr_root rt) (PStr path)) (\<lambda>p. io_wp (read_if_exists p) (\<lambda>content.
       io_wp (io_lift (refresh_entry (wr_unified rt) path (dict_get_or entries path [])
         (dict_get_or contents path PNone) content))
       (\<lambda>entry v. refreshed_ok (wr_root rt) (aw_files v) (note_refreshed path content entry s)
          \<and> aw_files v = aw_files w) (\<lambda>_ _. True)) (\<lambda>_ _. True)) (\<lambda>_ _. True) w"
    by (rule wp_resolve_artifact [OF assms(1)]) (use read in \<open>simp_all del: io_wp_lift\<close>)
  then show ?thesis using True by (simp add: refresh_one_def io_wp_points del: io_wp_lift)
qed (simp add: refresh_one_def assms(2))

lemma refresh_all_ok:
  "slash_free (wr_root rt) \<Longrightarrow> refreshed_ok (wr_root rt) (aw_files w) s \<Longrightarrow>
   io_wp (refresh_all rt entries contents retained paths s)
     (\<lambda>t v. refreshed_ok (wr_root rt) (aw_files v) t \<and> aw_files v = aw_files w) (\<lambda>_ _. True) w"
proof (induction paths arbitrary: s w)
  case (Cons path paths)
  have rest: "io_wp (refresh_all rt entries contents retained paths t)
      (\<lambda>u v. refreshed_ok (wr_root rt) (aw_files v) u \<and> aw_files v = aw_files w) (\<lambda>_ _. True) v"
    if "refreshed_ok (wr_root rt) (aw_files v) t \<and> aw_files v = aw_files w" for t v
    by (rule io_wp_mono [OF Cons.IH]) (use that Cons.prems(1) in auto)
  show ?case by (simp, rule io_wp_mono [OF refresh_one_ok [OF Cons.prems]]) (use rest in auto)
qed simp

text \<open>The answer of an attempt, as the properties read it.\<close>

definition reported :: "pyval \<Rightarrow> string \<Rightarrow> pyval list" where
  "reported answer key = list_or_empty (dict_field (dict_field answer ''workspace'') key)"

definition report_ok :: "location \<Rightarrow> pyval \<Rightarrow> files \<Rightarrow> bool" where
  "report_ok base answer fs \<longleftrightarrow> (\<forall>x \<in> set (reported answer ''published_files''). published_ok base fs x)
     \<and> (\<forall>x \<in> set (reported answer ''deleted_paths''). \<exists>path. x = PStr path \<and> on_disk base fs path None)
     \<and> (\<forall>x \<in> set (reported answer ''file_diffs''). \<exists>d. x = PDict d \<and> diff_ok base fs d)"

lemma reported_field: "reported (PDict [(''workspace'', PDict ws)]) key = list_or_empty (pget ws key)"
  by (simp add: reported_def dict_field_def pget_def)

lemma finish_attempt_ok:
  assumes "slash_free (wr_root rt)"
  shows "io_wp (finish_attempt rt task strategy previous s evidence signals snapshot)
    (\<lambda>answer v. report_ok (wr_root rt) answer (aw_files v)) (\<lambda>_ _. True) w"
proof -
  have start: "refreshed_ok (wr_root rt) (aw_files w) \<lparr>rf_published = [], rf_deleted = [], rf_diffs = []\<rparr>" for w
    by (simp add: refreshed_ok_def)
  have "io_wp (refresh_artifacts rt evidence) (\<lambda>fresh v. \<exists>t. refreshed_ok (wr_root rt) (aw_files v) t
       \<and> map_of fresh ''published_files'' = Some (PList (rf_published t))
       \<and> map_of fresh ''deleted_paths'' = Some (PList (map PStr (rf_deleted t)))
       \<and> map_of fresh ''file_diffs'' = Some (PList (map PDict (rf_diffs t)))) (\<lambda>_ _. True) w"
    unfolding refresh_artifacts_def Let_def
    by (simp split: sum.split, intro allI impI, rule io_wp_mono [OF refresh_all_ok [OF assms start]]) auto
  then show ?thesis
    unfolding finish_attempt_def
    by (simp, elim io_wp_mono)
      (auto simp: report_ok_def reported_field pget_def list_or_empty_def refreshed_ok_def split: sum.split)
qed

lemma nothing_applied_ok: "report_ok base (nothing_applied rt strategy) fs"
  by (simp add: nothing_applied_def report_ok_def reported_field pget_def list_or_empty_def)

lemma attempt_reports_the_disk:
  assumes "slash_free (wr_root rt)" and "apply_attempt rt task payload given w = (Inr answer, v)"
  shows "report_ok (wr_root rt) answer (aw_files v)"
proof -
  have finish: "io_returns (finish_attempt rt task strategy previous s evidence signals snapshot)
      (\<lambda>answer v. report_ok (wr_root rt) answer (aw_files v))" for strategy previous s evidence signals snapshot
    unfolding io_returns_def using io_wp_Inr [OF finish_attempt_ok [OF assms(1)]] by blast
  have "io_returns (apply_attempt rt task payload given) (\<lambda>answer v. report_ok (wr_root rt) answer (aw_files v))"
    unfolding apply_attempt_def Let_def
    by (intro returns_intros finish) (auto simp: io_returns_def nothing_applied_ok)
  then show ?thesis using assms(2) by (rule io_returnsD)
qed


text \<open>What is published has no carriage return, whatever the operation wrote.\<close>

lemma published_drops_carriage_returns:
  "published_ok base fs (PDict [(''path'', PStr path), (''content'', PStr t)]) \<Longrightarrow> CHR 0x0D \<notin> set t"
  by (auto simp: published_ok_def on_disk_def universal_newlines_plain)

section \<open>Operations stay in the workspace\<close>

definition inside_root :: "location \<Rightarrow> location \<Rightarrow> 'w agent_world \<Rightarrow> bool" where
  "inside_root base p w \<longleftrightarrow> plain_path (aw_files w) p \<and> at_or_below base p"

text \<open>A predicate on the world that operations keep: it survives each access below the root.\<close>

locale operation_policy =
  fixes base :: location and J :: "'w agent_world \<Rightarrow> bool"
  assumes reads: "J w \<Longrightarrow> inside_root base p w \<Longrightarrow> J (logged (Read_file p) w)"
    and makes: "J w \<Longrightarrow> inside_root base p w \<Longrightarrow> Suc k < length p \<Longrightarrow> node_at (aw_files w) (take (Suc k) p) = None \<Longrightarrow>
      J (put_node (take (Suc k) p) Folder (logged (Made_folder (take (Suc k) p)) w))"
    and writes: "J w \<Longrightarrow> inside_root base p w \<Longrightarrow> node_at (aw_files w) p \<noteq> Some Folder \<Longrightarrow>
      J (put_node p (Text_file content) (logged (Wrote_file p) w))"
    and removes: "J w \<Longrightarrow> inside_root base p w \<Longrightarrow> node_at (aw_files w) p \<noteq> Some Folder \<Longrightarrow>
      J (drop_node p (logged (Removed_file p) w))"
begin

abbreviation holds :: "location \<Rightarrow> 'w agent_world \<Rightarrow> bool" where
  "holds p w \<equiv> J w \<and> inside_root base p w"

lemma holds_plain: "holds p w \<Longrightarrow> plain_path (aw_files w) p"
  by (simp add: inside_root_def)

lemma holds_read: "holds p w \<Longrightarrow> holds p (logged (Read_file p) w)"
  by (simp add: reads inside_root_def)

lemma folders_keep: "io_keeps (holds p) (make_folders (butlast p))"
  unfolding make_folders_def
proof (rule keeps_each, rule io_wp_keeps)
  fix k and w :: "'w agent_world"
  assume k: "k \<in> set [0..<length (butlast p)]" and w: "holds p w"
  then have q: "take (Suc k) (butlast p) = take (Suc k) p" "Suc k < length p" "take (Suc k) p \<noteq> []"
    by (auto simp: take_butlast)
  have "plain_path (AList.update (take (Suc k) p) Folder (aw_files w)) p"
    using w q by (auto simp: inside_root_def intro: plain_path_update)
  then show "io_wp (make_folder (take (Suc k) (butlast p))) (\<lambda>_. holds p) (\<lambda>_. holds p) w"
    using w makes [of w p k] q by (simp add: inside_root_def split: option.split file_node.split)
qed

lemma read_keeps: "io_keeps (holds p) (read_if_exists p)"
  by (rule io_wp_keeps) (simp add: holds_plain holds_read io_wp_read_if_exists split: option.split file_node.split)

lemma same_bytes_keeps: "io_keeps (holds p) (same_bytes p content)"
  by (rule io_wp_keeps)
    (simp add: holds_plain holds_read same_bytes_def follow_plain stat_plain split: option.split file_node.split)

lemma holds_put: "holds p w \<Longrightarrow> node_at (aw_files w) p \<noteq> Some Folder \<Longrightarrow>
  holds p (put_node p (Text_file content) (logged (Wrote_file p) w))"
  using node_at_Nil [of "aw_files w"] by (cases "p = []") (auto simp: inside_root_def intro: writes plain_path_update)

lemma holds_drop: "holds p w \<Longrightarrow> node_at (aw_files w) p \<noteq> Some Folder \<Longrightarrow>
  holds p (drop_node p (logged (Removed_file p) w))"
  using node_at_Nil [of "aw_files w"] by (cases "p = []") (auto simp: inside_root_def intro: removes plain_path_delete)

lemma write_text_keeps: "io_keeps (holds p) (write_text p content)"
  by (rule io_wp_keeps) (simp add: holds_plain io_wp_write_text holds_put)

lemma create_text_keeps: "io_keeps (holds p) (create_text p content)"
  by (rule io_wp_keeps) (simp add: create_text_def holds_put)

lemma create_operation_keeps: "io_keeps (holds p) (create_operation p operation legacy before)"
  unfolding create_operation_def
  by (intro keeps_intros same_bytes_keeps folders_keep write_text_keeps create_text_keeps)

lemma replace_operation_keeps: "io_keeps (holds p) (replace_operation p operation before)"
  unfolding replace_operation_def
  by (auto intro!: keeps_intros write_text_keeps split: option.split)

text \<open>What exists and is read is no folder.\<close>

lemma delete_after_read_keeps:
  "io_keeps (holds p) (io_bind (read_if_exists p) (\<lambda>before. delete_operation p before))"
  by (rule io_wp_keeps)
    (simp add: holds_plain holds_read io_wp_read_if_exists delete_operation_def holds_drop
      split: option.split file_node.split)

lemma apply_operation_keeps: "io_keeps (holds p) (apply_operation env op p operation legacy)"
proof -
  have "io_keeps (holds p) (io_bind (read_if_exists p) (\<lambda>before.
      if op = PStr ''create'' then create_operation p operation legacy before
      else if op = PStr ''replace'' then replace_operation p operation before
      else io_raise e))" for e
    by (intro keeps_intros read_keeps create_operation_keeps replace_operation_keeps)
  then show ?thesis
    using delete_after_read_keeps [of p] by (cases "op = PStr ''delete''") (simp_all add: apply_operation_def cong: if_cong)
qed

lemma redundant_keeps: "io_keeps (holds p) (is_redundant_post_tool_op op p operation)"
proof -
  have "io_keeps (holds p) (read_text p)"
    by (rule io_wp_keeps) (simp add: holds_plain holds_read io_wp_read_text split: option.split file_node.split)
  then show ?thesis unfolding is_redundant_post_tool_op_def by (intro keeps_intros)
qed

lemma apply_one_keeps:
  assumes "wr_root rt = base" and "slash_free base"
  shows "io_keeps J (apply_one rt folded wop s)"
proof (rule io_wp_keeps)
  fix w :: "'w agent_world"
  assume J: "J w"
  let ?op = "pget (wo_payload wop) ''op''"
  let ?rest = "\<lambda>p. io_bind (io_try (apply_operation (wr_env rt) ?op p (wo_payload wop) (wo_legacy_full_file wop)))
     (\<lambda>r. case r of
        Inl e \<Rightarrow>
          if exc_kind e = exc_kind (apply_error [])
          then io_bind (if dict_get folded (tool_path base p) \<noteq> None
                        then is_redundant_post_tool_op ?op p (wo_payload wop) else io_return False)
                 (\<lambda>redundant. io_return (if redundant then s else record_failure ?op (tool_path base p) e s))
          else io_raise e
      | Inr (before, after) \<Rightarrow> io_lift (record_success (wr_unified rt) folded ?op (tool_path base p) before after s))"
  have "io_keeps (holds p) (?rest p)" for p
    by (auto intro!: keeps_intros apply_operation_keeps redundant_keeps split: sum.split)
  then have "io_wp (?rest p) (\<lambda>_. J) (\<lambda>_. J) w" if "inside_root base p w" for p
    by (rule io_wp_mono [OF io_keeps_wp]) (use J that in simp_all)
  then have "io_wp (resolve_artifact_path base (pget (wo_payload wop) ''path'')) (\<lambda>p. io_wp (?rest p) (\<lambda>_. J) (\<lambda>_. J)) (\<lambda>_. J) w"
    by (intro wp_resolve_artifact [OF assms(2)]) (simp_all add: J inside_root_def)
  then show "io_wp (apply_one rt folded wop s) (\<lambda>_. J) (\<lambda>_. J) w"
    by (simp add: apply_one_def Let_def assms(1) io_wp_points)
qed

lemma apply_operations_keep:
  "wr_root rt = base \<Longrightarrow> slash_free base \<Longrightarrow> io_keeps J (apply_operations rt folded os s)"
  by (induction os arbitrary: s) (auto intro!: keeps_intros apply_one_keeps)

end

primrec effect_inside :: "location \<Rightarrow> file_effect \<Rightarrow> bool" where
  "effect_inside base (Read_file p) \<longleftrightarrow> at_or_below base p"
| "effect_inside base (Listed_folder p) \<longleftrightarrow> at_or_below base p"
| "effect_inside base (Wrote_file p) \<longleftrightarrow> below base p"
| "effect_inside base (Removed_file p) \<longleftrightarrow> below base p"
| "effect_inside base (Made_folder p) \<longleftrightarrow> below base p"

definition operations_confined :: "location \<Rightarrow> 'w agent_world \<Rightarrow> 'w agent_world \<Rightarrow> bool" where
  "operations_confined base w0 w \<longleftrightarrow>
     (\<exists>es. aw_effects w = aw_effects w0 @ es \<and> (\<forall>e \<in> set es. effect_inside base e)) \<and>
     (\<forall>q. \<not> below base q \<longrightarrow> node_at (aw_files w) q = node_at (aw_files w0) q)"

lemma operations_confined_steps:
  assumes "operations_confined base w0 w" and "effect_inside base e"
  shows "operations_confined base w0 (logged e w)"
    and "below base p \<Longrightarrow> operations_confined base w0 (put_node p n (logged e w))"
    and "below base p \<Longrightarrow> operations_confined base w0 (drop_node p (logged e w))"
proof -
  have "below base p \<Longrightarrow> p \<noteq> []" by (auto simp: below_def)
  then show "operations_confined base w0 (logged e w)"
    and "below base p \<Longrightarrow> operations_confined base w0 (put_node p n (logged e w))"
    and "below base p \<Longrightarrow> operations_confined base w0 (drop_node p (logged e w))"
    using assms by (auto simp: operations_confined_def node_at_delete)
qed

text \<open>The folders down to the root stay; what is at or below it and is no such folder is below.\<close>

lemma operations_confined_below:
  assumes "rooted_workspace (aw_files w0) base" and "operations_confined base w0 w" and "at_or_below base p"
    and "k \<le> length p" and "node_at (aw_files w) (take k p) \<noteq> Some Folder"
  shows "below base (take k p)"
proof -
  have base: "take (length base) p = base" using assms(3) by (auto simp: at_or_below_def below_def)
  have "length base < k"
  proof (rule ccontr)
    assume k: "\<not> length base < k"
    then have "take k p = take k base" using base by (metis not_less take_take min_def)
    moreover have "\<not> below base (take k base)" by (simp add: below_def)
    ultimately show False using assms(1,2,5) k by (simp add: rooted_workspace_def operations_confined_def)
  qed
  then show ?thesis using base assms(4) by (simp add: below_def min_def)
qed

interpretation confined_operations: operation_policy base
  "\<lambda>w. rooted_workspace (aw_files w0) base \<longrightarrow> operations_confined base w0 w" for base w0
proof
  fix w p
  let ?J = "\<lambda>w. rooted_workspace (aw_files w0) base \<longrightarrow> operations_confined base w0 w"
  assume J: "?J w" and p: "inside_root base p w"
  show "?J (logged (Read_file p) w)"
    using J p by (auto simp: inside_root_def intro: operations_confined_steps)
  have at: "below base p" if "node_at (aw_files w) p \<noteq> Some Folder" "rooted_workspace (aw_files w0) base"
    using operations_confined_below [of w0 base w p "length p"] J p that by (simp add: inside_root_def)
  show "?J (put_node p (Text_file content) (logged (Wrote_file p) w))"
    if "node_at (aw_files w) p \<noteq> Some Folder" for content
    using J at that by (auto intro!: operations_confined_steps)
  show "?J (drop_node p (logged (Removed_file p) w))" if "node_at (aw_files w) p \<noteq> Some Folder"
    using J at that by (auto intro!: operations_confined_steps)
  show "?J (put_node (take (Suc k) p) Folder (logged (Made_folder (take (Suc k) p)) w))"
    if "Suc k < length p" "node_at (aw_files w) (take (Suc k) p) = None" for k
    using J p that operations_confined_below [of w0 base w p "Suc k"]
    by (auto simp: inside_root_def intro!: operations_confined_steps)
qed

text \<open>C18. The operations of an attempt stay in the workspace, whatever paths the model gives them and whatever links
  the workspace holds: every file they read, and every file or folder they write, make or remove, is
  below the root once links are followed, whether the attempt goes through or is aborted half way, and
  nothing outside is changed.\<close>

theorem operations_stay_in_the_workspace:
  assumes "rooted_workspace (aw_files w) (wr_root rt)" and "slash_free (wr_root rt)"
  shows "\<exists>es. aw_effects (snd (apply_operations rt folded operations s w)) = aw_effects w @ es \<and>
      (\<forall>e \<in> set es. effect_inside (wr_root rt) e) \<and>
      (\<forall>q. \<not> below (wr_root rt) q \<longrightarrow>
         node_at (aw_files (snd (apply_operations rt folded operations s w))) q = node_at (aw_files w) q)"
proof -
  have "operations_confined (wr_root rt) w w" by (simp add: operations_confined_def)
  then have "operations_confined (wr_root rt) w (snd (apply_operations rt folded operations s w))"
    using io_keepsD [OF confined_operations.apply_operations_keep [OF refl assms(2), of w folded operations s]]
      assms(1) by blast
  then show ?thesis by (auto simp: operations_confined_def)
qed

section \<open>A failed operation is feedback\<close>

definition semantic :: "exc \<Rightarrow> bool" where
  "semantic e \<longleftrightarrow> exc_kind e = exc_kind (apply_error [])"

lemma semantic_simps [simp]:
  "semantic (apply_error m)" "\<not> semantic (file_error m)" "\<not> semantic decode_error" "\<not> semantic exists_error"
  "\<not> semantic (value_error m)"
  by (simp_all add: semantic_def apply_error_def file_error_def decode_error_def exists_error_def value_error_def)

lemma io_wp_each:
  "P w \<Longrightarrow> (\<And>x w. x \<in> set xs \<Longrightarrow> P w \<Longrightarrow> io_wp (f x) (\<lambda>_. P) E w) \<Longrightarrow> io_wp (io_each f xs) (\<lambda>_. P) E w"
proof (induction xs arbitrary: w)
  case (Cons x xs)
  have "io_wp (f x) (\<lambda>_. io_wp (io_each f xs) (\<lambda>_. P) E) E w"
    by (rule io_wp_mono [of _ "\<lambda>_. P" E]) (simp_all add: Cons)
  then show ?case by (simp add: io_then_def io_wp_points)
qed simp

text \<open>Making the folders of a file makes no file, and what it raises is no matter of the operation.\<close>

lemma wp_make_folders:
  "io_wp (make_folders (butlast p)) (\<lambda>_ v. node_at (aw_files w) p = None \<longrightarrow> node_at (aw_files v) p = None)
     (\<lambda>e v. \<not> semantic e) w"
  unfolding make_folders_def
proof (rule io_wp_each)
  fix k and v :: "'a agent_world"
  assume "k \<in> set [0..<length (butlast p)]" and v: "node_at (aw_files w) p = None \<longrightarrow> node_at (aw_files v) p = None"
  then have k: "Suc k < length p" by simp
  then have "take (Suc k) (butlast p) = take (Suc k) p" "take (Suc k) p \<noteq> []" by (auto simp: take_butlast)
  moreover have "p \<noteq> take (Suc k) p"
  proof
    assume "p = take (Suc k) p"
    from arg_cong [OF this, of length] k show False by simp
  qed
  ultimately show "io_wp (make_folder (take (Suc k) (butlast p)))
      (\<lambda>_ v. node_at (aw_files w) p = None \<longrightarrow> node_at (aw_files v) p = None) (\<lambda>e v. \<not> semantic e) v"
    using v by (simp split: option.split file_node.split)
qed simp

lemma wp_write_error: "io_wp (write_text p content) (\<lambda>_ _. True) (\<lambda>e v. \<not> semantic e) w"
  by (simp add: write_text_def split: option.split)

lemma wp_create_error:
  "node_at (aw_files w) p = None \<Longrightarrow> io_wp (create_text p content) (\<lambda>_ _. True) (\<lambda>e v. \<not> semantic e \<and> e \<noteq> exists_error) w"
  by (simp add: create_text_def) (simp add: file_error_def exists_error_def)

text \<open>When an operation does not fit the files, what was there could be read, and nothing has changed.\<close>

definition untouched :: "location \<Rightarrow> files \<Rightarrow> files \<Rightarrow> bool" where
  "untouched p before after \<longleftrightarrow> after = before \<and> (\<forall>n. node_at before p = Some n \<longrightarrow> (\<exists>t. n = Text_file t))"

lemma wp_create_semantic:
  assumes "plain_path (aw_files w) p" and "before = None \<longleftrightarrow> node_at (aw_files w) p = None"
    and "\<forall>n. node_at (aw_files w) p = Some n \<longrightarrow> (\<exists>t. n = Text_file t)"
  shows "io_wp (create_operation p operation legacy before) (\<lambda>_ _. True)
    (\<lambda>e v. semantic e \<longrightarrow> untouched p (aw_files w) (aw_files v)) w"
proof (cases "as_str (pget operation ''content'')")
  case (Some content)
  let ?E = "\<lambda>e v. semantic e \<longrightarrow> untouched p (aw_files w) (aw_files v)"
  show ?thesis
  proof (cases "before \<noteq> None \<and> \<not> legacy")
    case True
    then show ?thesis using assms Some
      by (auto simp: create_operation_def same_bytes_def follow_plain stat_plain untouched_def split: option.split)
  next
    case False
    let ?put = "if legacy then write_text p content else io_catch (create_text p content)
       (\<lambda>e. if exc_kind e = exc_kind exists_error
            then io_raise (apply_error ''arquivo passou a existir; leia o arquivo atual e use op=replace.'')
            else io_raise e)"
    have plain_write: "io_wp (write_text p content) (\<lambda>_ _. True) ?E v" for v :: "'a agent_world"
      by (rule io_wp_mono [OF wp_write_error]) simp_all
    have "io_wp ?put (\<lambda>_ _. True) ?E v"
      if "node_at (aw_files w) p = None \<longrightarrow> node_at (aw_files v) p = None" for v :: "'a agent_world"
      using False that assms(2) plain_write [of v]
      by (cases legacy) (simp_all add: create_text_def, simp_all add: file_error_def exists_error_def)
    then have "io_wp (make_folders (butlast p)) (\<lambda>_. io_wp ?put (\<lambda>_ _. True) ?E) ?E w"
      by (intro io_wp_mono [OF wp_make_folders]) simp_all
    then show ?thesis using False Some
      by (auto simp: create_operation_def io_then_def io_wp_points)
  qed
qed (simp add: create_operation_def)

lemma wp_replace_semantic:
  assumes "\<forall>n. node_at (aw_files w) p = Some n \<longrightarrow> (\<exists>t. n = Text_file t)"
  shows "io_wp (replace_operation p operation before) (\<lambda>_ _. True)
    (\<lambda>e v. semantic e \<longrightarrow> untouched p (aw_files w) (aw_files v)) w"
proof -
  have plain_write: "io_wp (write_text p content) (\<lambda>_ _. True)
      (\<lambda>e v. semantic e \<longrightarrow> untouched p (aw_files w) (aw_files v)) w" for content
    by (rule io_wp_mono [OF wp_write_error]) simp_all
  show ?thesis using assms plain_write
    by (auto simp: replace_operation_def io_wp_points io_then_def untouched_def split: option.split sum.split)
qed

lemma wp_apply_semantic:
  assumes "plain_path (aw_files w) p"
  shows "io_wp (apply_operation env op p operation legacy) (\<lambda>_ _. True)
    (\<lambda>e v. semantic e \<longrightarrow> untouched p (aw_files w) (aw_files v)) w"
proof -
  let ?E = "\<lambda>e v. semantic e \<longrightarrow> untouched p (aw_files w) (aw_files v)"
  have rest: "io_wp (create_operation p operation legacy before) (\<lambda>_ _. True) ?E v"
    "io_wp (replace_operation p operation before) (\<lambda>_ _. True) ?E v"
    "io_wp (delete_operation p before) (\<lambda>_ _. True) ?E v"
    if "aw_files v = aw_files w" "before = None \<longleftrightarrow> node_at (aw_files w) p = None"
      "\<forall>n. node_at (aw_files w) p = Some n \<longrightarrow> (\<exists>t. n = Text_file t)" for v before
    using wp_create_semantic [of v p before operation legacy] wp_replace_semantic [of v p operation before] that assms
    by (simp_all add: delete_operation_def untouched_def)
  show ?thesis using assms
    by (simp add: apply_operation_def io_wp_points io_wp_read_if_exists rest cong: if_cong split: option.split file_node.split)
qed

text \<open>The tools have already made the change the operation asks for.\<close>

definition already_done :: "pyval \<Rightarrow> location \<Rightarrow> (string \<times> pyval) list \<Rightarrow> files \<Rightarrow> bool" where
  "already_done op p operation fs \<longleftrightarrow>
     op = PStr ''delete'' \<and> node_at fs p = None
     \<or> op = PStr ''replace'' \<and> (\<exists>t replacement. node_at fs p = Some (Text_file t)
         \<and> pget operation ''replace'' = PStr replacement \<and> replacement \<noteq> []
         \<and> contains (universal_newlines t) replacement)"

lemma as_str_Some [simp]: "as_str v = Some s \<longleftrightarrow> v = PStr s"
  by (cases v) simp_all

lemma wp_redundant:
  assumes "plain_path fs p" and "untouched p fs fs"
  shows "aw_files v = fs \<Longrightarrow> io_wp (is_redundant_post_tool_op op p operation)
    (\<lambda>redundant u. aw_files u = fs \<and> redundant = already_done op p operation fs) (\<lambda>_ _. False) v"
  using assms
  by (cases "node_at fs p")
    (auto simp: is_redundant_post_tool_op_def already_done_def path_exists_def stat_plain io_wp_read_text untouched_def
      split: option.split)


section \<open>What operations reach and tools refuse\<close>

definition replace_request :: "string \<Rightarrow> string \<Rightarrow> string \<Rightarrow> (string \<times> pyval) list" where
  "replace_request path search replacement =
     [(''op'', PStr ''replace''), (''path'', PStr path), (''search'', PStr search), (''replace'', PStr replacement)]"

lemma git_config_parts: "split_on (CHR ''/'') ''.git/config'' = [''.git'', ''config'']"
  by code_simp

lemma resolve_git_config:
  "plain_path fs (base @ [''.git'', ''config'']) \<Longrightarrow>
   resolve_under fs base ''.git/config'' = Inr (base @ [''.git'', ''config''])"
  using real_walk_of_plain [of fs "[]" "base @ [''.git'', ''config'']" "[]"]
  by (simp add: resolve_under_def git_config_parts starts_with_def)

lemma diff_of_texts [simp]: "build_diff_entry unified path (opt_str_val before) after \<noteq> Inl e"
  by (cases before) (simp_all add: build_diff_entry_def text_before_def opt_str_val_def Let_def)

text \<open>C20. The operations of an attempt are not under the policy of the tools. An operation rewrites the
  configuration of the workspace's git repository, which the runtime's own \<open>git status\<close> then reads on the
  host; the edit tool refuses the same change.\<close>

theorem operation_rewrites_the_git_config:
  assumes "wop = \<lparr>wo_payload = replace_request ''.git/config'' search replacement, wo_legacy_full_file = False\<rparr>"
    and "plain_path (aw_files w) (wr_root rt @ [''.git'', ''config''])"
    and "node_at (aw_files w) (wr_root rt @ [''.git'', ''config'']) = Some (Text_file t)"
    and "node_at (aw_files w) (wr_root rt @ [''.git'']) = Some Folder"
    and "apply_replace (universal_newlines t) search replacement None = Inr after"
  shows "\<exists>s' v. apply_one rt folded wop s w = (Inr s', v)
      \<and> node_at (aw_files v) (wr_root rt @ [''.git'', ''config'']) = Some (Text_file after)
      \<and> fst (edit_file_tool (wr_root rt) (replace_request ''.git/config'' search replacement) w)
        = Inl (tool_error ''diretorio ignorado: .git/config'')"
proof -
  let ?p = "wr_root rt @ [''.git'', ''config'']"
  note resolved = resolve_git_config [OF assms(2)]
  have below: "at_or_below (wr_root rt) ?p" by (simp add: at_or_below_def below_def)
  have ignored: "''.git'' \<in> set ignored_dirs" by (simp add: ignored_dirs_def)
  have "io_wp (edit_file_tool (wr_root rt) (replace_request ''.git/config'' search replacement))
      (\<lambda>a v. Inr a = Inl (tool_error ''diretorio ignorado: .git/config''))
      (\<lambda>e v. Inl e = Inl (tool_error ''diretorio ignorado: .git/config'')) w"
    using resolved below ignored
    by (simp add: edit_file_tool_def bound_resolve_def replace_request_def pget_def relative_parts_def)
  then have refused: "fst (edit_file_tool (wr_root rt) (replace_request ''.git/config'' search replacement) w)
      = Inl (tool_error ''diretorio ignorado: .git/config'')"
    by (rule result_wp [where P = "\<lambda>r v. r = Inl (tool_error ''diretorio ignorado: .git/config'')"])
  have named: "strip ''.git/config'' \<noteq> []" by code_simp
  have butlast: "butlast ?p = wr_root rt @ [''.git'']" by (simp add: butlast_append)
  have "io_wp (apply_one rt folded wop s)
      (\<lambda>a v. (\<exists>s'. Inr a = Inr s') \<and> node_at (aw_files v) ?p = Some (Text_file after))
      (\<lambda>e v. (\<exists>s'. Inl e = Inr s') \<and> node_at (aw_files v) ?p = Some (Text_file after)) w"
    using resolved below assms named
    by (auto simp: apply_one_def resolve_artifact_path_def replace_request_def pget_def apply_operation_def
        io_wp_read_if_exists replace_operation_def int_value_def io_wp_write_text butlast record_success_def Let_def
        split: sum.split)
  from result_wp [where P = "\<lambda>r v. (\<exists>s'. r = Inr s') \<and> node_at (aw_files v) ?p = Some (Text_file after)", OF this]
  show ?thesis using refused by (cases "apply_one rt folded wop s w") auto
qed

section \<open>A small attempt\<close>

definition runtime_sample :: "unit workspace_runtime" where
  "runtime_sample =
     \<lparr>wr_root = [''w''], wr_apply_files_enabled = True, wr_pipeline = new_pipeline [] None, wr_feedback = [],
      wr_git = (\<lambda>argv. io_return (Some 0, [], [])), wr_which = (\<lambda>_. None), wr_unified = (\<lambda>a b f t. []),
      wr_env = \<lparr>pe_search = (\<lambda>_ _ _. Inr False), pe_fnmatch = fnmatchcase, pe_repr = (\<lambda>_. [])\<rparr>,
      wr_uuid = show_nat, wr_set_order = (\<lambda>xs. xs)\<rparr>"

definition create_request :: "string \<Rightarrow> string \<Rightarrow> (string \<times> pyval) list" where
  "create_request path content = [(''op'', PStr ''create''), (''path'', PStr path), (''content'', PStr content)]"

definition attempt_sample :: "(unit agent_world, pyval) io" where
  "attempt_sample = apply_attempt runtime_sample (sample_task 1 RUNNING)
     [(''operations'', PList [PDict (create_request ''b.py'' ''y''), PDict (replace_request ''a.py'' ''2'' ''3'')])] None"

lemma attempt_sample_run:
  "case fst (attempt_sample (agent_world_sample [])) of Inl e \<Rightarrow> False | Inr answer \<Rightarrow>
     reported answer ''published_files'' = [PDict [(''path'', PStr ''b.py''), (''content'', PStr ''y'')]]
     \<and> length (reported answer ''apply_errors'') = 1"
  by code_simp


theorem operations_stay_in_the_workspace_witness:
  "\<exists>es. aw_effects (snd (apply_operations runtime_sample [] (normalize_operations [(''operations'',
        PList [PDict (create_request ''n.txt'' ''y'')])]) empty_apply (agent_world_sample ''secret''))) = es
     \<and> (\<forall>e \<in> set es. effect_inside [''w''] e)"
  using operations_stay_in_the_workspace [of "agent_world_sample ''secret''" runtime_sample "[]"
      "normalize_operations [(''operations'', PList [PDict (create_request ''n.txt'' ''y'')])]" empty_apply]
    rooted_sample [of "''secret''"]
  by (simp add: runtime_sample_def slash_free_def)


theorem operation_rewrites_the_git_config_witness:
  "\<exists>w :: unit agent_world. \<exists>s' v. apply_one runtime_sample []
       \<lparr>wo_payload = replace_request ''.git/config'' ''a'' ''b'', wo_legacy_full_file = False\<rparr> empty_apply w = (Inr s', v)
     \<and> node_at (aw_files v) [''w'', ''.git'', ''config''] = Some (Text_file ''b'')"
proof -
  let ?fs = "[([''w''], Folder), ([''w'', ''.git''], Folder), ([''w'', ''.git'', ''config''], Text_file ''a'')]"
  let ?w = "\<lparr>aw_files = ?fs, aw_effects = [], aw_mutations = None, aw_rest = ()\<rparr>"
  have "plain_path ?fs [''w'', ''.git'', ''config'']"
    by (auto simp: plain_path_def plain_name_def no_link_def node_at_def less_Suc_eq)
  moreover have "apply_replace (universal_newlines ''a'') ''a'' ''b'' None = Inr ''b''" by code_simp
  ultimately show ?thesis
    using operation_rewrites_the_git_config [OF refl, of ?w runtime_sample "''a''" "''a''" "''b''" "''b''" "[]" empty_apply]
    by (auto simp: runtime_sample_def node_at_def)
qed

end
