(* ===== verification/Tool_Loop.thy ===== *)
theory Tool_Loop imports Agent_Tools Provider_Router begin

text \<open>
  The loop in which a model explores and edits before it answers (\<open>ToolLoop\<close> of
  \<open>app/agents/tools.py\<close>) and the operator's policy on the calls it makes
  (\<open>app/agents/hooks.py\<close>). The loop is \<open>while True\<close>: it is a partial function whose \<open>None\<close> is a
  run that never ends, so that its ending is a theorem. Parameters: the provider's answer to a
  request, the audit log, and the identifier \<open>uuid4\<close> draws for a run.
\<close>

section \<open>The operator's policy\<close>

datatype hook_event = Pre_tool | Post_tool | Tool_error

datatype hook_action = Audit | Deny | Suppress

primrec hook_event_name :: "hook_event \<Rightarrow> string" where
  "hook_event_name Pre_tool = ''pre_tool''"
| "hook_event_name Post_tool = ''post_tool''"
| "hook_event_name Tool_error = ''tool_error''"

record tool_hook_rule =
  hr_id :: string
  hr_event :: hook_event
  hr_action :: hook_action
  hr_tool :: string
  hr_agent :: string
  hr_output_exceeds_chars :: "int option"

definition id_char :: "char \<Rightarrow> bool" where
  "id_char c \<longleftrightarrow> (let n = (of_char c :: nat) in
     (48 \<le> n \<and> n \<le> 57) \<or> (65 \<le> n \<and> n \<le> 90) \<or> (97 \<le> n \<and> n \<le> 122) \<or> c = CHR ''_'' \<or> c = CHR ''-'')"

text \<open>The constraints of the fields and \<open>validate_action\<close>.\<close>

definition validate_action :: "tool_hook_rule \<Rightarrow> unit result" where
  "validate_action r =
     (if hr_action r = Deny \<and> hr_event r \<noteq> Pre_tool then Inl (Exc ValueError ''deny requires pre_tool'')
      else if hr_action r = Suppress \<and> hr_event r \<noteq> Post_tool
      then Inl (Exc ValueError ''suppress requires post_tool'')
      else if hr_output_exceeds_chars r \<noteq> None \<and> hr_event r \<noteq> Post_tool
      then Inl (Exc ValueError ''output_exceeds_chars requires post_tool'')
      else Inr ())"

definition valid_hook_rule :: "tool_hook_rule \<Rightarrow> bool" where
  "valid_hook_rule r \<longleftrightarrow>
     1 \<le> length (hr_id r) \<and> length (hr_id r) \<le> 64 \<and> list_all id_char (hr_id r) \<and>
     1 \<le> length (hr_tool r) \<and> length (hr_tool r) \<le> 100 \<and> 1 \<le> length (hr_agent r) \<and> length (hr_agent r) \<le> 100 \<and>
     (case hr_output_exceeds_chars r of None \<Rightarrow> True | Some n \<Rightarrow> 0 \<le> n \<and> n \<le> 1000000) \<and>
     validate_action r = Inr ()"

text \<open>\<open>decode\<close> is pydantic's reading of the JSON text into rules.\<close>

definition parse_tool_hooks ::
  "(string \<Rightarrow> tool_hook_rule list result) \<Rightarrow> string \<Rightarrow> tool_hook_rule list result" where
  "parse_tool_hooks decode raw =
     (if length raw > 65536 then Inl (Exc ValueError ''TOOL_HOOKS_JSON exceeds 65536 characters'')
      else case decode raw of
        Inl e \<Rightarrow> Inl e
      | Inr rules \<Rightarrow>
          if \<not> list_all valid_hook_rule rules then Inl (Exc ValueError ''validation error'')
          else if length rules > 64 then Inl (Exc ValueError ''TOOL_HOOKS_JSON exceeds 64 rules'')
          else if card (set (map hr_id rules)) \<noteq> length rules
          then Inl (Exc ValueError ''Tool hook IDs must be unique'')
          else Inr rules)"

record hook_scope =
  hs_workflow_id :: "string option"
  hs_project_id :: "string option"
  hs_client_id :: "string option"

record tool_hook_call =
  hk_run_id :: string
  hk_ordinal :: nat
  hk_tool :: string
  hk_agent :: string
  hk_task_id :: "string option"

text \<open>The audit event, its detail before it is rendered as JSON.\<close>

record hook_audit =
  ha_action :: string
  ha_outcome :: string
  ha_scope :: hook_scope
  ha_call :: tool_hook_call
  ha_rules :: "string list"

record 'w hook_dispatcher =
  hd_rules :: "tool_hook_rule list"
  hd_audit :: "hook_audit \<Rightarrow> ('w agent_world, unit) io"
  hd_scope :: hook_scope

definition hook_failure :: exc where
  "hook_failure = Exc (OtherError ''ToolHookFailure'') ''Tool hook failed; execution stopped safely.''"

definition rule_matches :: "hook_event \<Rightarrow> tool_hook_call \<Rightarrow> int \<Rightarrow> tool_hook_rule \<Rightarrow> bool" where
  "rule_matches event call output_chars r \<longleftrightarrow>
     hr_event r = event \<and> fnmatchcase (hk_tool call) (hr_tool r) \<and> fnmatchcase (hk_agent call) (hr_agent r) \<and>
     (case hr_output_exceeds_chars r of None \<Rightarrow> True | Some n \<Rightarrow> output_chars > n)"

text \<open>\<open>dispatch\<close>: whether the call may go on. A failing audit log, or one that takes too long, stops it.\<close>

definition dispatch_hook ::
  "'w hook_dispatcher \<Rightarrow> hook_event \<Rightarrow> tool_hook_call \<Rightarrow> int \<Rightarrow> string \<Rightarrow> ('w agent_world, bool) io" where
  "dispatch_hook d event call output_chars outcome =
     (if hd_rules d = [] then io_return True
      else let matches = filter (rule_matches event call output_chars) (hd_rules d);
               allowed = list_all (\<lambda>r. hr_action r = Audit) matches;
               outcome' = (if allowed then outcome else if event = Pre_tool then ''denied'' else ''suppressed'')
           in io_catch
                (io_then (hd_audit d \<lparr>ha_action = ''tool.'' @ hook_event_name event, ha_outcome = outcome',
                     ha_scope = hd_scope d, ha_call = call, ha_rules = map hr_id matches\<rparr>)
                   (io_return allowed))
                (\<lambda>e. io_raise (if exc_kind e = CancelledError then e else hook_failure)))"

section \<open>One call\<close>

record 'w tool_loop =
  tp_complete :: "model_tier option \<Rightarrow> completion_request \<Rightarrow> ('w agent_world, completion_result) io"
  tp_tools :: "(string, 'w agent_tool) pydict"
  tp_max_tool_calls :: nat
  tp_preview_chars :: nat
  tp_hooks :: "'w hook_dispatcher option"
  tp_agent_name :: string

definition new_tool_loop ::
  "(model_tier option \<Rightarrow> completion_request \<Rightarrow> ('w agent_world, completion_result) io) \<Rightarrow> 'w agent_tool list
   \<Rightarrow> int \<Rightarrow> nat \<Rightarrow> 'w hook_dispatcher option \<Rightarrow> string \<Rightarrow> 'w tool_loop" where
  "new_tool_loop ask tools max_tool_calls preview_chars hooks agent_name =
     \<lparr>tp_complete = ask, tp_tools = dict_of (map (\<lambda>t. (at_name t, t)) tools),
      tp_max_tool_calls = nat (max 0 max_tool_calls), tp_preview_chars = preview_chars, tp_hooks = hooks,
      tp_agent_name = agent_name\<rparr>"

definition loop_specs :: "'w tool_loop \<Rightarrow> tool_spec list" where
  "loop_specs L = tool_specs (map snd (tp_tools L))"

definition has_tools :: "'w tool_loop \<Rightarrow> bool" where
  "has_tools L \<longleftrightarrow> loop_specs L \<noteq> [] \<and> tp_max_tool_calls L > 0"

definition has_tool :: "'w tool_loop \<Rightarrow> string \<Rightarrow> bool" where
  "has_tool L name \<longleftrightarrow> has_tools L \<and> dict_get (tp_tools L) name \<noteq> None"

definition execute_tool :: "'w tool_loop \<Rightarrow> tool_call \<Rightarrow> ('w agent_world, string \<times> bool) io" where
  "execute_tool L call =
     (case dict_get (tp_tools L) (tc_name call) of
        None \<Rightarrow> io_return (''ferramenta desconhecida: '' @ tc_name call @ ''. Disponiveis: ''
                  @ join '', '' (sort (map fst (tp_tools L))) @ ''.'', False)
      | Some tool \<Rightarrow>
          io_catch (io_bind (at_run tool (tc_arguments call)) (\<lambda>content. io_return (content, True)))
            (\<lambda>e. if exc_kind e = CancelledError then io_raise e
                 else if exc_kind e = exc_kind (tool_error []) then io_return (exc_text e, False)
                 else io_return (''erro interno em '' @ tc_name call @ '': '' @ exc_repr e, False)))"

definition execute_with_hooks ::
  "'w tool_loop \<Rightarrow> tool_call \<Rightarrow> tool_hook_call \<Rightarrow> ('w agent_world, string \<times> bool) io" where
  "execute_with_hooks L call hook_call =
     (case tp_hooks L of
        None \<Rightarrow> execute_tool L call
      | Some d \<Rightarrow>
          io_bind (dispatch_hook d Pre_tool hook_call 0 ''allowed'') (\<lambda>go_on.
            if \<not> go_on then io_return (''Ferramenta bloqueada pela politica do operador.'', False)
            else io_bind (execute_tool L call) (\<lambda>(content, ok).
              if \<not> ok
              then io_bind (dispatch_hook d Tool_error hook_call 0 ''failed'') (\<lambda>_. io_return (content, False))
              else io_bind (dispatch_hook d Post_tool hook_call (int (length content)) ''succeeded'') (\<lambda>shown.
                if \<not> shown
                then io_return (''Resultado ocultado pela politica do operador; acao nao desfeita.'', False)
                else io_return (content, True)))))"

section \<open>The loop\<close>

record tool_trace =
  tr_round :: nat
  tr_name :: string
  tr_arguments :: arguments
  tr_ok :: bool
  tr_chars :: nat
  tr_preview :: string
  tr_source :: "string option"

record loop_state =
  ls_messages :: "chat_message list"
  ls_tokens :: int
  ls_cost :: usd
  ls_calls :: nat
  ls_rounds :: nat
  ls_trace :: "tool_trace list"
  ls_force_final :: bool
  ls_stopped_reason :: string

record tool_loop_outcome =
  to_result :: completion_result
  to_tokens :: int
  to_cost_usd :: usd
  to_tool_calls :: nat
  to_rounds :: nat
  to_stopped_reason :: string
  to_trace :: "tool_trace list"
  to_mutations :: "mutation list"

definition final_answer_note :: string where
  "final_answer_note =
     ''Limite de exploracao atingido. Produza AGORA a resposta final estruturada ''
     @ ''com o que voce ja sabe; nao chame mais ferramentas.''"

definition answer_of :: "tool_call \<Rightarrow> string \<Rightarrow> bool \<Rightarrow> tool_result" where
  "answer_of call content ok =
     \<lparr>tl_tool_call_id = tc_id call, tl_name = tc_name call, tl_content = content, tl_is_error = \<not> ok\<rparr>"

definition trace_of :: "'w tool_loop \<Rightarrow> nat \<Rightarrow> string option \<Rightarrow> tool_call \<Rightarrow> string \<Rightarrow> bool \<Rightarrow> tool_trace" where
  "trace_of L rnd source call content ok =
     \<lparr>tr_round = rnd, tr_name = tc_name call, tr_arguments = tc_arguments call, tr_ok = ok,
      tr_chars = length content, tr_preview = take (tp_preview_chars L) content, tr_source = source\<rparr>"

definition reached :: "int \<Rightarrow> int option \<Rightarrow> bool" where
  "reached tokens token_ceiling \<longleftrightarrow> (case token_ceiling of None \<Rightarrow> False | Some c \<Rightarrow> tokens \<ge> c)"

text \<open>The reads the controller asks for before the first round, at most four.\<close>

primrec refresh_reads ::
  "'w tool_loop \<Rightarrow> string \<Rightarrow> int option \<Rightarrow> string option \<Rightarrow> string list
   \<Rightarrow> nat \<times> tool_call list \<times> tool_result list \<times> tool_trace list
   \<Rightarrow> ('w agent_world, nat \<times> tool_call list \<times> tool_result list \<times> tool_trace list) io" where
  "refresh_reads L run_id token_ceiling task_id [] acc = io_return acc"
| "refresh_reads L run_id token_ceiling task_id (path # paths) acc =
     (case acc of (calls_made, calls, results, trace) \<Rightarrow>
        if calls_made \<ge> min 4 (tp_max_tool_calls L) \<or> (case token_ceiling of None \<Rightarrow> False | Some c \<Rightarrow> c \<le> 0)
        then io_return acc
        else
          let n = Suc calls_made;
              call = \<lparr>tc_id = ''refresh-'' @ run_id @ ''-'' @ show_nat n, tc_name = ''read_file'',
                      tc_arguments = [(''path'', PStr path)]\<rparr>
          in io_bind (execute_with_hooks L call
                 \<lparr>hk_run_id = run_id, hk_ordinal = n, hk_tool = ''read_file'', hk_agent = tp_agent_name L,
                  hk_task_id = task_id\<rparr>)
               (\<lambda>(content, ok). refresh_reads L run_id token_ceiling task_id paths
                  (n, calls @ [call], results @ [answer_of call content ok],
                   trace @ [trace_of L 0 (Some ''recovery_refresh'') call content ok])))"

definition refresh_note :: string where
  "refresh_note =
     ''Leituras atuais dos arquivos envolvidos na tentativa anterior. ''
     @ ''Use as leituras bem-sucedidas para copiar codigo; erros de ''
     @ ''leitura e stdout/stderr de comandos nao sao codigo-fonte. ''
     @ ''A numeracao de linhas nao faz parte do arquivo. ''
     @ ''O grounding inicial pode estar desatualizado.''"

definition first_state :: "completion_request \<Rightarrow> loop_state" where
  "first_state request =
     \<lparr>ls_messages = cq_messages request, ls_tokens = 0, ls_cost = 0, ls_calls = 0, ls_rounds = 0, ls_trace = [],
      ls_force_final = False, ls_stopped_reason = ''final_answer''\<rparr>"

definition user_message :: "string \<Rightarrow> tool_result list \<Rightarrow> chat_message" where
  "user_message content results =
     \<lparr>ms_role = ''user'', ms_content = content, ms_tool_calls = [], ms_tool_results = results\<rparr>"

definition assistant_message :: "string \<Rightarrow> tool_call list \<Rightarrow> chat_message" where
  "assistant_message content calls =
     \<lparr>ms_role = ''assistant'', ms_content = content, ms_tool_calls = calls, ms_tool_results = []\<rparr>"

definition refreshed_state ::
  "'w tool_loop \<Rightarrow> loop_state \<Rightarrow> nat \<times> tool_call list \<times> tool_result list \<times> tool_trace list \<Rightarrow> loop_state" where
  "refreshed_state L st = (\<lambda>(calls_made, calls, results, trace).
     if calls = [] then st
     else let force = calls_made \<ge> tp_max_tool_calls L
          in st\<lparr>ls_calls := calls_made, ls_trace := ls_trace st @ trace, ls_force_final := force,
                ls_stopped_reason := (if force then ''max_tool_calls'' else ls_stopped_reason st),
                ls_messages := ls_messages st @
                  [assistant_message ''Leituras de recuperacao solicitadas pelo controlador.'' calls,
                   user_message (refresh_note @ (if force then nl # final_answer_note else [])) results]\<rparr>)"

definition before_rounds ::
  "'w tool_loop \<Rightarrow> string \<Rightarrow> completion_request \<Rightarrow> int option \<Rightarrow> string option \<Rightarrow> string list option
   \<Rightarrow> ('w agent_world, loop_state) io" where
  "before_rounds L run_id request token_ceiling task_id refresh_paths =
     (case refresh_paths of
        None \<Rightarrow> io_return (first_state request)
      | Some paths \<Rightarrow>
          if paths = [] \<or> \<not> has_tool L ''read_file'' then io_return (first_state request)
          else io_bind (refresh_reads L run_id token_ceiling task_id (unique paths) (0, [], [], []))
                 (\<lambda>acc. io_return (refreshed_state L (first_state request) acc)))"

text \<open>The calls of one round: those past the limit are refused and not executed.\<close>

primrec run_calls ::
  "'w tool_loop \<Rightarrow> string \<Rightarrow> string option \<Rightarrow> bool \<Rightarrow> nat \<Rightarrow> tool_call list
   \<Rightarrow> nat \<times> tool_trace list \<times> tool_result list
   \<Rightarrow> ('w agent_world, nat \<times> tool_trace list \<times> tool_result list) io" where
  "run_calls L run_id task_id budget_hit rnd [] acc = io_return acc"
| "run_calls L run_id task_id budget_hit rnd (call # calls) acc =
     (case acc of (calls_made, trace, results) \<Rightarrow>
        io_bind
          (if calls_made \<ge> tp_max_tool_calls L \<or> budget_hit
           then io_return (calls_made, ''Limite de exploracao atingido; ferramenta nao executada.'', False)
           else io_bind (execute_with_hooks L call
                    \<lparr>hk_run_id = run_id, hk_ordinal = Suc calls_made,
                     hk_tool = (if dict_get (tp_tools L) (tc_name call) \<noteq> None then tc_name call else ''<unknown>''),
                     hk_agent = tp_agent_name L, hk_task_id = task_id\<rparr>)
                  (\<lambda>(content, ok). io_return (Suc calls_made, content, ok)))
          (\<lambda>(made, content, ok). run_calls L run_id task_id budget_hit rnd calls
             (made, trace @ [trace_of L rnd None call content ok], results @ [answer_of call content ok])))"

definition next_state ::
  "'w tool_loop \<Rightarrow> int option \<Rightarrow> completion_result \<Rightarrow> loop_state \<Rightarrow> nat \<times> tool_trace list \<times> tool_result list
   \<Rightarrow> loop_state" where
  "next_state L token_ceiling r st = (\<lambda>(made, trace, results).
     let budget_hit = reached (ls_tokens st) token_ceiling;
         calls_hit = made \<ge> tp_max_tool_calls L;
         force = (budget_hit \<or> calls_hit \<or> ls_force_final st)
     in st\<lparr>ls_calls := made, ls_trace := trace, ls_force_final := force,
           ls_stopped_reason := (if budget_hit then ''token_ceiling'' else if calls_hit then ''max_tool_calls''
                                 else ls_stopped_reason st),
           ls_messages := ls_messages st @
             [assistant_message (co_text r) (co_tool_calls r),
              user_message (if force then final_answer_note else []) results]\<rparr>)"

definition asked :: "loop_state \<Rightarrow> completion_result \<Rightarrow> loop_state" where
  "asked st r = st\<lparr>ls_rounds := Suc (ls_rounds st), ls_tokens := ls_tokens st + total_tokens (co_usage r),
     ls_cost := ls_cost st + co_cost_usd r\<rparr>"

definition round_request :: "'w tool_loop \<Rightarrow> completion_request \<Rightarrow> loop_state \<Rightarrow> completion_request" where
  "round_request L request st =
     request\<lparr>cq_messages := ls_messages st, cq_tools := loop_specs L, cq_force_final := ls_force_final st\<rparr>"

definition ignored_limit :: exc where
  "ignored_limit = tool_error ''Provider ignored final-answer limit; tool loop stopped.''"

partial_function (option) tool_rounds ::
  "'w tool_loop \<Rightarrow> string \<Rightarrow> model_tier option \<Rightarrow> completion_request \<Rightarrow> int option \<Rightarrow> string option
   \<Rightarrow> loop_state \<Rightarrow> 'w agent_world \<Rightarrow> ((loop_state \<times> completion_result) result \<times> 'w agent_world) option" where
  "tool_rounds L run_id tier request token_ceiling task_id st w =
     (case tp_complete L tier (round_request L request st) w of
        (Inl e, v) \<Rightarrow> Some (Inl e, v)
      | (Inr r, v) \<Rightarrow>
          let st' = asked st r in
          if co_parsed r \<noteq> None \<or> co_tool_calls r = [] then Some (Inr (st', r), v)
          else if ls_force_final st' then Some (Inl ignored_limit, v)
          else
            (case run_calls L run_id task_id (reached (ls_tokens st') token_ceiling) (ls_rounds st') (co_tool_calls r)
                    (ls_calls st', ls_trace st', []) v of
               (Inl e, u) \<Rightarrow> Some (Inl e, u)
             | (Inr acc, u) \<Rightarrow> tool_rounds L run_id tier request token_ceiling task_id (next_state L token_ceiling r st' acc) u))"

definition with_mutations :: "mutation list option \<Rightarrow> 'w agent_world \<Rightarrow> 'w agent_world" where
  "with_mutations ms w = w\<lparr>aw_mutations := ms\<rparr>"

definition outcome_of :: "loop_state \<Rightarrow> completion_result \<Rightarrow> mutation list \<Rightarrow> tool_loop_outcome" where
  "outcome_of st r ms =
     \<lparr>to_result = r, to_tokens = ls_tokens st, to_cost_usd = ls_cost st, to_tool_calls = ls_calls st,
      to_rounds = ls_rounds st, to_stopped_reason = ls_stopped_reason st, to_trace = ls_trace st, to_mutations = ms\<rparr>"

definition plain_outcome :: "completion_result \<Rightarrow> tool_loop_outcome" where
  "plain_outcome r =
     \<lparr>to_result = r, to_tokens = total_tokens (co_usage r), to_cost_usd = co_cost_usd r, to_tool_calls = 0,
      to_rounds = 1, to_stopped_reason = ''no_tools'', to_trace = [], to_mutations = []\<rparr>"

definition run_tool_loop ::
  "'w tool_loop \<Rightarrow> string \<Rightarrow> model_tier option \<Rightarrow> completion_request \<Rightarrow> int option \<Rightarrow> string option
   \<Rightarrow> string list option \<Rightarrow> 'w agent_world \<Rightarrow> (tool_loop_outcome result \<times> 'w agent_world) option" where
  "run_tool_loop L run_id tier request token_ceiling task_id refresh_paths w =
     (if \<not> has_tools L
      then Some (io_bind (tp_complete L tier request) (\<lambda>r. io_return (plain_outcome r)) w)
      else let saved = aw_mutations w in
        case before_rounds L run_id request token_ceiling task_id refresh_paths (with_mutations (Some []) w) of
          (Inl e, v) \<Rightarrow> Some (Inl e, with_mutations saved v)
        | (Inr st, v) \<Rightarrow>
            (case tool_rounds L run_id tier request token_ceiling task_id st v of
               None \<Rightarrow> None
             | Some (Inl e, u) \<Rightarrow> Some (Inl e, with_mutations saved u)
             | Some (Inr (st', r), u) \<Rightarrow>
                 Some (Inr (outcome_of st' r (case aw_mutations u of None \<Rightarrow> [] | Some ms \<Rightarrow> ms)),
                       with_mutations saved u)))"

text \<open>\<open>exploration_summary\<close>: what the task's payload keeps.\<close>

record exploration_report =
  es_tool_calls :: nat
  es_rounds :: nat
  es_stopped_reason :: string
  es_trace :: "tool_trace list"
  es_mutations :: "nat option"

definition exploration_summary :: "tool_loop_outcome \<Rightarrow> exploration_report" where
  "exploration_summary t =
     \<lparr>es_tool_calls = to_tool_calls t, es_rounds = to_rounds t, es_stopped_reason = to_stopped_reason t,
      es_trace = to_trace t, es_mutations = (if to_mutations t = [] then None else Some (length (to_mutations t)))\<rparr>"

section \<open>Counting the calls\<close>

lemma case_prod_Inr: "io_bind m f s = (Inr b, u) \<Longrightarrow> (\<And>a t. m s = (Inr a, t) \<Longrightarrow> f a t = (Inr b, u) \<Longrightarrow> R) \<Longrightarrow> R"
  by (auto simp: io_bind_Inr)

text \<open>Of the calls of a round as many are executed as the limit leaves room for, none when the budget is
  spent, and each has its trace and its answer.\<close>

lemma run_calls_counts:
  "run_calls L run_id task_id hit rnd calls (n, trace, results) w = (Inr (m, trace', results'), v) \<Longrightarrow>
     m = (if hit then n else max n (min (n + length calls) (tp_max_tool_calls L)))
     \<and> length trace' = length trace + length calls \<and> length results' = length results + length calls
     \<and> map tl_tool_call_id results' = map tl_tool_call_id results @ map tc_id calls"
proof (induction calls arbitrary: n trace results w)
  case (Cons call calls)
  show ?case
  proof (cases "n \<ge> tp_max_tool_calls L \<or> hit")
    case True
    then have "run_calls L run_id task_id hit rnd calls
        (n, trace @ [trace_of L rnd None call ''Limite de exploracao atingido; ferramenta nao executada.'' False],
         results @ [answer_of call ''Limite de exploracao atingido; ferramenta nao executada.'' False]) w
        = (Inr (m, trace', results'), v)"
      using Cons.prems by (auto simp: io_bind_Inr)
    from Cons.IH [OF this] True show ?thesis by (auto simp: answer_of_def max_def min_def)
  next
    case False
    then obtain content ok t where "run_calls L run_id task_id hit rnd calls
        (Suc n, trace @ [trace_of L rnd None call content ok], results @ [answer_of call content ok]) t
        = (Inr (m, trace', results'), v)"
      using Cons.prems by (auto simp: io_bind_Inr)
    from Cons.IH [OF this] False show ?thesis by (auto simp: answer_of_def max_def min_def)
  qed
qed (simp add: io_return_def)

lemma refresh_reads_counts:
  "refresh_reads L run_id token_ceiling task_id paths (n, calls, results, trace) w = (Inr (m, calls', results', trace'), v) \<Longrightarrow>
     n \<le> m \<and> m \<le> max n (min 4 (tp_max_tool_calls L)) \<and> m + length calls = n + length calls'
     \<and> length trace' + n = length trace + m"
proof (induction paths arbitrary: n calls results trace w)
  case (Cons path paths)
  show ?case
  proof (cases "n \<ge> min 4 (tp_max_tool_calls L) \<or> (case token_ceiling of None \<Rightarrow> False | Some c \<Rightarrow> c \<le> 0)")
    case True
    then show ?thesis using Cons.prems by (simp split: if_split_asm)
  next
    case False
    then obtain call content ok t where "refresh_reads L run_id token_ceiling task_id paths
        (Suc n, calls @ [call], results @ [answer_of call content ok],
         trace @ [trace_of L 0 (Some ''recovery_refresh'') call content ok]) t = (Inr (m, calls', results', trace'), v)"
      using Cons.prems by (auto simp: io_bind_Inr Let_def)
    from Cons.IH [OF this] False show ?thesis by auto
  qed
qed simp

section \<open>The loop ends\<close>

definition ready :: "'w tool_loop \<Rightarrow> loop_state \<Rightarrow> bool" where
  "ready L st \<longleftrightarrow> ls_calls st \<le> tp_max_tool_calls L \<and> (ls_force_final st \<or> ls_calls st < tp_max_tool_calls L)
     \<and> ls_rounds st + ls_calls st \<le> length (ls_trace st) + ls_rounds st"

definition rounds_left :: "'w tool_loop \<Rightarrow> loop_state \<Rightarrow> nat" where
  "rounds_left L st = (if ls_force_final st then 1 else Suc (tp_max_tool_calls L - ls_calls st))"

lemma loop_state_asked [simp]:
  "ls_calls (asked st r) = ls_calls st" "ls_force_final (asked st r) = ls_force_final st"
  "ls_rounds (asked st r) = Suc (ls_rounds st)" "ls_trace (asked st r) = ls_trace st"
  "ls_stopped_reason (asked st r) = ls_stopped_reason st" "ls_messages (asked st r) = ls_messages st"
  by (simp_all add: asked_def)

text \<open>A round that executes nothing and refuses nothing forces the answer, so each further round is paid for
  by a call.\<close>

lemma next_state_ready:
  assumes "ready L st" and "\<not> ls_force_final st" and "co_tool_calls r \<noteq> []"
    and "run_calls L run_id task_id (reached (ls_tokens (asked st r)) token_ceiling) rnd (co_tool_calls r)
           (ls_calls (asked st r), ls_trace (asked st r), []) w = (Inr acc, v)"
  shows "ready L (next_state L token_ceiling r (asked st r) acc)"
    and "rounds_left L (next_state L token_ceiling r (asked st r) acc) < rounds_left L st"
    and "ls_rounds (next_state L token_ceiling r (asked st r) acc) = Suc (ls_rounds st)"
proof -
  obtain m trace results where acc: "acc = (m, trace, results)" by (cases acc)
  obtain call calls where len: "co_tool_calls r = call # calls" using assms(3) by (cases "co_tool_calls r") auto
  note counts = run_calls_counts [OF assms(4) [unfolded acc]]
  show "ready L (next_state L token_ceiling r (asked st r) acc)"
    and "rounds_left L (next_state L token_ceiling r (asked st r) acc) < rounds_left L st"
    and "ls_rounds (next_state L token_ceiling r (asked st r) acc) = Suc (ls_rounds st)"
    using counts assms(1,2) len
    by (auto simp: acc next_state_def Let_def ready_def rounds_left_def max_def min_def split: if_splits)
qed

lemma tool_rounds_end:
  "ready L st \<Longrightarrow> \<exists>r v. tool_rounds L run_id tier request token_ceiling task_id st w = Some (r, v) \<and>
     (case r of Inl e \<Rightarrow> True | Inr (st', res) \<Rightarrow>
        ready L st' \<and> ls_rounds st' \<le> ls_rounds st + rounds_left L st \<and>
        (co_parsed res \<noteq> None \<or> co_tool_calls res = []))"
proof (induction "rounds_left L st" arbitrary: st w rule: less_induct)
  case less
  obtain o1 v1 where ask: "tp_complete L tier (round_request L request st) w = (o1, v1)" by fastforce
  show ?case
  proof (cases o1)
    case (Inl e)
    then show ?thesis by (subst tool_rounds.simps) (simp add: ask)
  next
    case (Inr res)
    let ?st = "asked st res"
    show ?thesis
    proof (cases "co_parsed res \<noteq> None \<or> co_tool_calls res = [] \<or> ls_force_final st")
      case True
      have "ready L ?st" "ls_rounds ?st \<le> ls_rounds st + rounds_left L st"
        using less.prems by (simp_all add: ready_def rounds_left_def)
      then show ?thesis using True Inr by (subst tool_rounds.simps) (auto simp: ask Let_def)
    next
      case False
      obtain o2 v2 where run: "run_calls L run_id task_id (reached (ls_tokens ?st) token_ceiling) (ls_rounds ?st)
          (co_tool_calls res) (ls_calls ?st, ls_trace ?st, []) v1 = (o2, v2)" by fastforce
      show ?thesis
      proof (cases o2)
        case (Inl e)
        then show ?thesis using False \<open>o1 = Inr res\<close> run by (subst tool_rounds.simps) (simp add: ask Let_def)
      next
        case (Inr acc)
        let ?next = "next_state L token_ceiling res ?st acc"
        have facts: "ready L ?next" "rounds_left L ?next < rounds_left L st" "ls_rounds ?next = Suc (ls_rounds st)"
          using next_state_ready [OF less.prems _ _ run [unfolded Inr]] False by simp_all
        have step: "tool_rounds L run_id tier request token_ceiling task_id st w =
            tool_rounds L run_id tier request token_ceiling task_id ?next v2"
          using False Inr \<open>o1 = Inr res\<close> run by (subst tool_rounds.simps) (simp add: ask Let_def)
        show ?thesis
          using less.hyps [OF facts(2) facts(1), of v2] facts(2,3)
          unfolding step by (fastforce split: sum.splits)
      qed
    qed
  qed
qed

lemma refreshed_ready:
  assumes "0 < tp_max_tool_calls L"
    and "refresh_reads L run_id token_ceiling task_id paths (0, [], [], []) w = (Inr acc, v)"
  shows "ready L (refreshed_state L (first_state request) acc)"
    and "ls_rounds (refreshed_state L (first_state request) acc) = 0"
    and "rounds_left L (refreshed_state L (first_state request) acc) \<le> Suc (tp_max_tool_calls L)"
proof -
  obtain m calls results trace where acc: "acc = (m, calls, results, trace)" by (cases acc)
  show "ready L (refreshed_state L (first_state request) acc)"
    and "ls_rounds (refreshed_state L (first_state request) acc) = 0"
    and "rounds_left L (refreshed_state L (first_state request) acc) \<le> Suc (tp_max_tool_calls L)"
    using refresh_reads_counts [OF assms(2) [unfolded acc]] assms(1)
    by (auto simp: acc refreshed_state_def first_state_def ready_def rounds_left_def Let_def)
qed

lemma before_rounds_ready:
  assumes "0 < tp_max_tool_calls L"
    and "before_rounds L run_id request token_ceiling task_id refresh_paths w = (Inr st, v)"
  shows "ready L st \<and> ls_rounds st = 0 \<and> rounds_left L st \<le> Suc (tp_max_tool_calls L)"
proof -
  have first: "ready L (first_state request)" "ls_rounds (first_state request) = 0"
    "rounds_left L (first_state request) \<le> Suc (tp_max_tool_calls L)"
    using assms(1) by (simp_all add: first_state_def ready_def rounds_left_def)
  show ?thesis
    using assms(2) first refreshed_ready [OF assms(1)]
    by (auto simp: before_rounds_def io_bind_Inr split: option.splits if_splits)
qed

lemma run_tool_loop_ends:
  "\<exists>r v. run_tool_loop L run_id tier request token_ceiling task_id refresh_paths w = Some (r, v) \<and>
     (case r of Inl e \<Rightarrow> True | Inr out \<Rightarrow>
        to_rounds out \<le> Suc (tp_max_tool_calls L) \<and> to_tool_calls out \<le> tp_max_tool_calls L \<and>
        to_tool_calls out \<le> length (to_trace out) \<and>
        (if has_tools L then co_parsed (to_result out) \<noteq> None \<or> co_tool_calls (to_result out) = []
         else to_rounds out = 1)) \<and>
     (if has_tools L then aw_mutations v = aw_mutations w else True)"
proof (cases "has_tools L")
  case False
  then show ?thesis
    by (cases "tp_complete L tier request w"; cases "fst (tp_complete L tier request w)")
      (simp_all add: run_tool_loop_def io_bind_def io_return_def plain_outcome_def)
next
  case True
  then have pos: "0 < tp_max_tool_calls L" by (simp add: has_tools_def)
  obtain o1 v1 where first: "before_rounds L run_id request token_ceiling task_id refresh_paths
      (with_mutations (Some []) w) = (o1, v1)" by fastforce
  have saved [simp]: "aw_mutations (with_mutations ms u) = ms" for ms and u :: "'w agent_world"
    by (simp add: with_mutations_def)
  show ?thesis
  proof (cases o1)
    case (Inl e)
    then show ?thesis using True first by (simp add: run_tool_loop_def Let_def)
  next
    case (Inr st)
    note start = before_rounds_ready [OF pos first [unfolded Inr]]
    then obtain r v where ends: "tool_rounds L run_id tier request token_ceiling task_id st v1 = Some (r, v)"
      and bounds: "case r of Inl e \<Rightarrow> True | Inr (st', res) \<Rightarrow>
        ready L st' \<and> ls_rounds st' \<le> ls_rounds st + rounds_left L st \<and>
        (co_parsed res \<noteq> None \<or> co_tool_calls res = [])"
      using tool_rounds_end by blast
    show ?thesis
    proof (cases r)
      case (Inl e)
      then show ?thesis using True first \<open>o1 = Inr st\<close> ends by (simp add: run_tool_loop_def Let_def)
    next
      case (Inr out)
      then show ?thesis using True first \<open>o1 = Inr st\<close> ends bounds start
        by (cases out) (auto simp: run_tool_loop_def Let_def outcome_of_def ready_def)
    qed
  qed
qed


section \<open>What the loop keeps\<close>

text \<open>A predicate on the world that the provider, the tools and the audit log keep is kept by the loop.\<close>

locale tool_box =
  fixes L :: "'w tool_loop" and P :: "'w agent_world \<Rightarrow> bool"
  assumes asks: "io_keeps P (tp_complete L tier q)"
    and uses: "(n, tool) \<in> set (tp_tools L) \<Longrightarrow> io_keeps P (at_run tool arguments)"
    and audits: "tp_hooks L = Some d \<Longrightarrow> io_keeps P (hd_audit d a)"
begin

lemma dispatch_keeps: "tp_hooks L = Some d \<Longrightarrow> io_keeps P (dispatch_hook d event call n outcome)"
  unfolding dispatch_hook_def Let_def by (intro keeps_intros audits) simp

lemma execute_keeps: "io_keeps P (execute_tool L call)"
  unfolding execute_tool_def
  by (intro keeps_intros) (rule uses [OF map_of_SomeD])

lemma with_hooks_keeps: "io_keeps P (execute_with_hooks L call hook_call)"
  unfolding execute_with_hooks_def
  by (auto intro!: keeps_intros execute_keeps dispatch_keeps)

lemma run_calls_keeps: "io_keeps P (run_calls L run_id task_id hit rnd calls acc)"
proof (induction calls arbitrary: acc)
  case (Cons call calls)
  then show ?case by (cases acc) (auto intro!: keeps_intros with_hooks_keeps)
qed (simp add: keeps_return)

lemma refresh_keeps: "io_keeps P (refresh_reads L run_id token_ceiling task_id paths acc)"
proof (induction paths arbitrary: acc)
  case (Cons path paths)
  then show ?case by (cases acc) (auto intro!: keeps_intros with_hooks_keeps simp: Let_def)
qed (simp add: keeps_return)

lemma before_keeps: "io_keeps P (before_rounds L run_id request token_ceiling task_id refresh_paths)"
  unfolding before_rounds_def by (intro keeps_intros refresh_keeps)

lemma rounds_keep:
  "tool_rounds L run_id tier request token_ceiling task_id st w = Some (r, v) \<Longrightarrow> P w \<Longrightarrow> P v"
proof -
  have ask: "P v" if "tp_complete L tier q u = (o1, v)" "P u" for tier q o1 u v
    using io_keepsD [OF asks, of u tier q] that by simp
  have run: "P v" if "run_calls L run_id task_id hit rnd calls acc u = (o1, v)" "P u"
    for run_id task_id hit rnd calls acc u o1 v
    using io_keepsD [OF run_calls_keeps, of u run_id task_id hit rnd calls acc] that by simp
  have "L' = L \<longrightarrow> P w \<longrightarrow> P (snd y)"
    if "tool_rounds L' run_id tier request token_ceiling task_id st w = Some y"
    for L' run_id tier request token_ceiling task_id st w y
  proof (rule tool_rounds.raw_induct [OF _ that,
        where P = "\<lambda>L' run_id tier request token_ceiling task_id st w y. L' = L \<longrightarrow> P w \<longrightarrow> P (snd y)"])
    fix rounds L' run_id tier request token_ceiling task_id st w y
    assume 1: "\<And>L' run_id tier request token_ceiling task_id st w y.
        rounds L' run_id tier request token_ceiling task_id st w = Some y \<Longrightarrow> L' = L \<longrightarrow> P w \<longrightarrow> P (snd y)"
      "(case tp_complete L' tier (round_request L' request st) w of
        (Inl e, v) \<Rightarrow> Some (Inl e, v)
      | (Inr r, v) \<Rightarrow>
          let st' = asked st r in
          if co_parsed r \<noteq> None \<or> co_tool_calls r = [] then Some (Inr (st', r), v)
          else if ls_force_final st' then Some (Inl ignored_limit, v)
          else
            (case run_calls L' run_id task_id (reached (ls_tokens st') token_ceiling) (ls_rounds st') (co_tool_calls r)
                    (ls_calls st', ls_trace st', []) v of
               (Inl e, u) \<Rightarrow> Some (Inl e, u)
             | (Inr acc, u) \<Rightarrow> rounds L' run_id tier request token_ceiling task_id (next_state L' token_ceiling r st' acc) u))
       = Some y"
    show "L' = L \<longrightarrow> P w \<longrightarrow> P (snd y)"
    proof (intro impI)
      assume L: "L' = L" and w: "P w"
      obtain o1 v1 where a: "tp_complete L tier (round_request L request st) w = (o1, v1)" by fastforce
      note v1 = ask [OF a w]
      show "P (snd y)"
      proof (cases o1)
        case (Inl e)
        with 1(2) L a v1 show ?thesis by auto
      next
        case (Inr r)
        obtain o2 v2 where b: "run_calls L run_id task_id (reached (ls_tokens (asked st r)) token_ceiling)
            (ls_rounds (asked st r)) (co_tool_calls r) (ls_calls (asked st r), ls_trace (asked st r), []) v1 = (o2, v2)"
          by fastforce
        from run [OF b v1] 1(2) L a b Inr v1 show ?thesis
          by (cases o2) (auto simp: Let_def dest: 1(1) split: if_splits)
      qed
    qed
  qed
  then show "tool_rounds L run_id tier request token_ceiling task_id st w = Some (r, v) \<Longrightarrow> P w \<Longrightarrow> P v"
    by fastforce
qed

end

section \<open>The edits of a run\<close>

definition leaves_files :: "('w agent_world, 'a) io \<Rightarrow> bool" where
  "leaves_files m \<longleftrightarrow> (\<forall>w. aw_files (snd (m w)) = aw_files w \<and> aw_mutations (snd (m w)) = aw_mutations w)"

text \<open>A loop over the workspace tools, whose provider and audit log touch no file. There is no configured
  check: a check runs a command, which may write what it likes.\<close>

definition workspace_loop :: "'w tool_settings \<Rightarrow> 'w tool_loop \<Rightarrow> bool" where
  "workspace_loop g L \<longleftrightarrow> slash_free (tg_root g) \<and> tg_validators g = [] \<and>
     (\<forall>(n, tool) \<in> set (tp_tools L). tool \<in> set (build_workspace_tools g)) \<and>
     (\<forall>tier q. leaves_files (tp_complete L tier q)) \<and>
     (\<forall>d a. tp_hooks L = Some d \<longrightarrow> leaves_files (hd_audit d a))"

lemma leaves_accounted: "leaves_files m \<Longrightarrow> io_keeps (accounted_world base fs0) m"
  by (simp add: io_keeps_def leaves_files_def accounted_world_def split: option.splits)

lemma keeps_if_holds: "(c \<Longrightarrow> io_keeps P m) \<Longrightarrow> io_keeps (\<lambda>w. c \<longrightarrow> P w) m"
  by (cases c) (simp_all add: io_keeps_def)

interpretation loop_accounting: tool_box L "\<lambda>w. workspace_loop g L \<longrightarrow> accounted_world (tg_root g) fs0 w"
  for L g fs0
proof
  show "io_keeps (\<lambda>w. workspace_loop g L \<longrightarrow> accounted_world (tg_root g) fs0 w) (tp_complete L tier q)" for tier q
    by (rule keeps_if_holds) (simp add: workspace_loop_def leaves_accounted)
  show "io_keeps (\<lambda>w. workspace_loop g L \<longrightarrow> accounted_world (tg_root g) fs0 w) (hd_audit d a)"
    if "tp_hooks L = Some d" for d a
    using that by (intro keeps_if_holds) (simp add: workspace_loop_def leaves_accounted)
  show "io_keeps (\<lambda>w. workspace_loop g L \<longrightarrow> accounted_world (tg_root g) fs0 w) (at_run tool arguments)"
    if "(n, tool) \<in> set (tp_tools L)" for n tool arguments
    using that by (intro keeps_if_holds workspace_tools_account) (auto simp: workspace_loop_def)
qed


declare tool_rounds.simps [code]

text \<open>A provider that asks for one edit and then answers.\<close>

definition scripted_result :: "(string \<times> pyval) list option \<Rightarrow> tool_call list \<Rightarrow> completion_result" where
  "scripted_result parsed calls =
     \<lparr>co_text = [], co_parsed = parsed, co_tool_calls = calls, co_model = ''m'', co_provider = ''p'',
      co_usage = \<lparr>us_input_tokens = 1, us_output_tokens = 1, us_cache_read_tokens = 0, us_cache_write_tokens = 0\<rparr>,
      co_cost_usd = 0, co_latency_ms = 0, co_stop_reason = None\<rparr>"

definition scripted_provider :: "model_tier option \<Rightarrow> completion_request \<Rightarrow> ('w agent_world, completion_result) io" where
  "scripted_provider tier q = io_return
     (if cq_messages q = []
      then scripted_result None [\<lparr>tc_id = ''c'', tc_name = ''write_file'',
             tc_arguments = [(''path'', PStr ''a.py''), (''content'', PStr ''y'')]\<rparr>]
      else scripted_result (Some []) [])"

definition loop_sample :: "unit tool_loop" where
  "loop_sample = new_tool_loop scripted_provider (build_workspace_tools tool_settings_sample) 8 200 None ''agent''"

definition request_sample :: completion_request where
  "request_sample = example_request\<lparr>cq_messages := []\<rparr>"

lemma write_sample:
  "write_file_tool [''w''] [(''path'', PStr ''a.py''), (''content'', PStr ''y'')] (agent_world_sample [])
   = (Inr ''arquivo atualizado: a.py (1 linhas)'',
      noted \<lparr>mt_op = ''replace'', mt_path = ''a.py'', mt_before = Some ''x = 1'', mt_after = Some ''y''\<rparr>
        (put_node [''w'', ''a.py''] (Text_file ''y'')
          (logged (Wrote_file [''w'', ''a.py'']) (logged (Read_file [''w'', ''a.py'']) (agent_world_sample [])))))"
  by code_simp

lemma loop_sample_fields:
  "tp_complete loop_sample = scripted_provider" "tp_max_tool_calls loop_sample = 8" "tp_hooks loop_sample = None"
  "tp_tools loop_sample = map (\<lambda>t. (at_name t, t)) (build_workspace_tools tool_settings_sample)"
  by (simp_all add: loop_sample_def new_tool_loop_def build_workspace_tools_def tool_settings_sample_def dict_of_def)

lemma loop_sample_tools: "has_tools loop_sample"
  "dict_get (tp_tools loop_sample) ''write_file'' = Some (tool_of tool_settings_sample ''write_file'' (write_file_tool [''w'']))"
  by (simp_all add: has_tools_def loop_specs_def tool_specs_def loop_sample_fields)
    (simp_all add: build_workspace_tools_def tool_settings_sample_def)

lemma loop_run_sample:
  "\<exists>out v. run_tool_loop loop_sample ''r'' None request_sample None None None (agent_world_sample []) = Some (Inr out, v)
     \<and> to_mutations out = [\<lparr>mt_op = ''replace'', mt_path = ''a.py'', mt_before = Some ''x = 1'', mt_after = Some ''y''\<rparr>]"
proof -
  have start: "with_mutations (Some []) (agent_world_sample []) = agent_world_sample []"
    by (simp add: with_mutations_def agent_world_sample_def)
  note answers = scripted_provider_def scripted_result_def io_return_def
  have call: "execute_tool loop_sample
      \<lparr>tc_id = ''c'', tc_name = ''write_file'', tc_arguments = [(''path'', PStr ''a.py''), (''content'', PStr ''y'')]\<rparr>
      (agent_world_sample [])
    = (Inr (''arquivo atualizado: a.py (1 linhas)'', True), snd (write_file_tool [''w'']
        [(''path'', PStr ''a.py''), (''content'', PStr ''y'')] (agent_world_sample [])))"
    by (simp add: execute_tool_def loop_sample_tools io_catch_def io_bind_def io_return_def write_sample)
  show ?thesis
    unfolding run_tool_loop_def
    apply (simp add: loop_sample_tools before_rounds_def io_return_def Let_def start)
    apply (subst tool_rounds.simps)
    apply (simp add: loop_sample_fields answers first_state_def round_request_def request_sample_def reached_def
        asked_def Let_def io_bind_def execute_with_hooks_def call [unfolded write_sample])
    apply (subst tool_rounds.simps)
    apply (simp add: loop_sample_fields answers next_state_def round_request_def reached_def asked_def Let_def
        outcome_of_def)
    done
qed



section \<open>The operator's policy binds\<close>

lemma dispatch_denied:
  assumes "r \<in> set (hd_rules d)" and "rule_matches event call n r" and "hr_action r \<noteq> Audit"
  shows "\<exists>a. ha_outcome a = (if event = Pre_tool then ''denied'' else ''suppressed'') \<and> ha_call a = call \<and>
     hr_id r \<in> set (ha_rules a) \<and> snd (dispatch_hook d event call n outcome w) = snd (hd_audit d a w) \<and>
     (fst (dispatch_hook d event call n outcome w) = Inr False \<or> (\<exists>e. fst (dispatch_hook d event call n outcome w) = Inl e))"
proof -
  let ?m = "filter (rule_matches event call n) (hd_rules d)"
  let ?a = "\<lparr>ha_action = ''tool.'' @ hook_event_name event,
      ha_outcome = (if event = Pre_tool then ''denied'' else ''suppressed''),
      ha_scope = hd_scope d, ha_call = call, ha_rules = map hr_id ?m\<rparr>"
  have not_all: "\<not> list_all (\<lambda>r. hr_action r = Audit) ?m" and "hd_rules d \<noteq> []" and "hr_id r \<in> set (map hr_id ?m)"
    using assms by (auto simp: list_all_iff)
  then show ?thesis
    by (intro exI [of _ ?a])
      (cases "hd_audit d ?a w"; cases "fst (hd_audit d ?a w)";
       simp add: dispatch_hook_def Let_def io_catch_def io_then_def io_bind_def io_return_def io_raise_def)
qed

text \<open>C26. A call the operator denies never runs. When a rule for \<open>pre_tool\<close> that is not an audit rule matches the tool
  and the agent, whatever other rules say, the only thing that happens is the record of the denial,
  which names the rule, and the model is told that the tool was blocked; when the record fails, the
  run stops instead.\<close>

theorem denied_call_never_runs:
  assumes "tp_hooks L = Some d" and "r \<in> set (hd_rules d)" and "rule_matches Pre_tool hook_call 0 r"
    and "hr_action r \<noteq> Audit"
  shows "\<exists>a. ha_outcome a = ''denied'' \<and> hr_id r \<in> set (ha_rules a) \<and>
     snd (execute_with_hooks L call hook_call w) = snd (hd_audit d a w) \<and>
     (fst (execute_with_hooks L call hook_call w) = Inr (''Ferramenta bloqueada pela politica do operador.'', False)
      \<or> (\<exists>e. fst (execute_with_hooks L call hook_call w) = Inl e))"
  using dispatch_denied [OF assms(2-4), of "''allowed''" w]
  by (cases "dispatch_hook d Pre_tool hook_call 0 ''allowed'' w")
    (auto simp: execute_with_hooks_def assms(1) io_bind_def io_return_def)

theorem denied_call_never_runs_witness:
  "let d = \<lparr>hd_rules = [\<lparr>hr_id = ''no-writes'', hr_event = Pre_tool, hr_action = Deny, hr_tool = ''write_*'',
         hr_agent = ''*'', hr_output_exceeds_chars = None\<rparr>],
       hd_audit = (\<lambda>_. io_return ()), hd_scope = \<lparr>hs_workflow_id = None, hs_project_id = None, hs_client_id = None\<rparr>\<rparr>;
     L = loop_sample\<lparr>tp_hooks := Some d\<rparr> in
   snd (execute_with_hooks L \<lparr>tc_id = ''c'', tc_name = ''write_file'', tc_arguments = []\<rparr>
       \<lparr>hk_run_id = ''r'', hk_ordinal = 1, hk_tool = ''write_file'', hk_agent = ''agent'', hk_task_id = None\<rparr>
       (agent_world_sample [])) = agent_world_sample []"
proof -
  let ?r = "\<lparr>hr_id = ''no-writes'', hr_event = Pre_tool, hr_action = Deny, hr_tool = ''write_*'', hr_agent = ''*'',
    hr_output_exceeds_chars = None\<rparr>"
  let ?d = "\<lparr>hd_rules = [?r], hd_audit = (\<lambda>_. io_return ()),
    hd_scope = \<lparr>hs_workflow_id = None, hs_project_id = None, hs_client_id = None\<rparr>\<rparr> :: unit hook_dispatcher"
  let ?h = "\<lparr>hk_run_id = ''r'', hk_ordinal = 1, hk_tool = ''write_file'', hk_agent = ''agent'', hk_task_id = None\<rparr>"
  have "fnmatchcase ''write_file'' ''write_*''" "fnmatchcase ''agent'' ''*''" by code_simp+
  then have "rule_matches Pre_tool ?h 0 ?r" by (simp add: rule_matches_def)
  from denied_call_never_runs [of "loop_sample\<lparr>tp_hooks := Some ?d\<rparr>" ?d ?r, OF _ _ this, of
      "\<lparr>tc_id = ''c'', tc_name = ''write_file'', tc_arguments = []\<rparr>" "agent_world_sample []"]
  show ?thesis by (auto simp: io_return_def Let_def)
qed

end
