(* ===== verification/Spec2Isabelle.thy ===== *)
theory Spec2Isabelle
  imports Provider_Router Executor_Registry Judge Build_Strategy Workflow_Graph Service_Runtime Agent_Executor
begin

text \<open>
  A verification library for Forgehand, the controller that turns a request into a plan of tasks,
  has language-model executors carry them out, judges every result, and delivers the approved
  changes as a pull request that a human merges. The library models the part that decides: the
  task and state data, the budgets, the provider layer, the judge, the build evidence, the build
  strategy, the whole graph of workflow nodes with its routers, the queues that dispatch its jobs,
  the manager of the workspaces it works in, the tools agents use there and the loop that offers
  them to the model, the executor of a task and the runtime that applies its answers, the command policy, import scanner and container runner that build them, and
  the service that binds decisions to gates.

  \<^bold>\<open>How the program is put together.\<close> \<open>app/graph/workflow.py\<close> wires fourteen nodes. A run
  provisions a workspace and selects a build strategy (\<open>phase_setup\<close>), plans, fans the ready
  tasks out to workers that execute, validate and judge one task each (\<open>phase_execution\<close>),
  replans, asks the human or gives up (\<open>phase_review\<close>), and publishes and persists
  (\<open>phase_delivery\<close>). The nodes share one state (\<open>app/graph/state.py\<close>) and write to it only
  through the updates they return, merged channel by channel by reducers. Every model call goes
  through a router and a provider with retries and a circuit breaker, and is admitted and metered
  by nested call budgets (\<open>app/infrastructure/llm_budget.py\<close>). Around the graph,
  \<open>app/api/service.py\<close> turns requests and human decisions into jobs of a queue
  (\<open>app/infrastructure/workflow_queue.py\<close>), whose workers run the graph under a lease, in a
  checkout that \<open>app/factory/workspace.py\<close> provisions, retains and removes. A build runs the phases
  of an operator's profile there, each in a container of its own (\<open>app/factory/sandbox.py\<close>), between
  two scans of the imports (\<open>app/factory/architecture.py\<close>).

  \<^bold>\<open>Theories, in the order they build on one another.\<close>
  \<^item> \<open>Prelude\<close>: the types that stand for Python's, exceptions as values, strings, insertion-ordered
    dictionaries, dynamic values, and the generic lemmas on them. \<open>Transition\<close>: reachability and
    the locale \<open>invariant_system\<close>, interpreted by the budgets, the breaker and the graph.
  \<^item> \<open>Build_Evidence_Model\<close>, \<open>Factory_Model\<close>, \<open>Task_Model\<close>: the data of \<open>app/models\<close> with its
    validators, and \<open>acceptance_verified\<close>.
  \<^item> \<open>Call_Budget\<close> (\<open>llm_budget.py\<close>): reservation, settlement and scopes over a store of budgets
    and the path from a budget to its ancestors; calls in flight interleave as steps.
    \<open>Circuit_Breaker\<close> and \<open>Provider\<close> (\<open>app/providers/base.py\<close>): the breaker as a state machine,
    prices, the search for the largest affordable output ceiling, and the template method
    \<open>complete\<close>. \<open>Provider_Router\<close> (\<open>app/providers/registry.py\<close>): tiers and bindings.
    \<open>Executor_Registry\<close> (\<open>app/agents/registry.py\<close>): who executes a task; the locale
    \<open>dispatch_registry\<close> is what the graph relies on, interpreted on this registry.
  \<^item> \<open>Workflow_State\<close> (\<open>state.py\<close>): the state, the reducers, the derived views, the judge's router.
  \<^item> \<open>Validation\<close>, \<open>Criteria\<close>, \<open>Judge\<close> (\<open>app/agents\<close>): objective signals, the criteria decided by
    code, and the combination of both with the model's verdicts and its quorum.
  \<^item> \<open>Build_Evidence\<close> (\<open>app/graph/build_evidence.py\<close>, \<open>collect_publishable_changes\<close> of
    \<open>scm.py\<close>): what a sandbox report does to a result and to an evaluation, and what is published.
    \<open>Factory_Delivery\<close> (\<open>app/factory/delivery.py\<close>): the contract of a publication.
  \<^item> \<open>Build_Profile\<close> (\<open>app/models/build.py\<close>, \<open>architecture.py\<close>) and \<open>Build_Strategy\<close>
    (\<open>app/factory/build_strategy.py\<close>): operator profiles, their validation, and their selection;
    the locale \<open>strategy_registry\<close> is the contract of selection and reconstruction.
  \<^item> \<open>Node_Deps\<close> (\<open>contracts.py\<close>, \<open>call_budget.py\<close> of the graph): the protocols the nodes call, as
    effects on the stack and store of call budgets, and the metering wrapper.
    \<open>Setup_Phase\<close>, \<open>Execution_Phase\<close>, \<open>Review_Phase\<close>, \<open>Delivery_Phase\<close>: the nodes and routers of
    the four phase modules. \<open>Workflow_Graph\<close> (\<open>workflow.py\<close>, \<open>nodes.py\<close>): the assembled graph as a
    step relation on the node about to run, the pending fan-out and the state.
  \<^item> \<open>Queue_Model\<close>, \<open>Memory_Queue\<close>, \<open>Postgres_Queue\<close> (\<open>workflow_queue.py\<close>): jobs, start requests
    and their digests; each operation of the in-memory queue as a function of its fields, each
    transaction of the durable one as a function of its tables, with the trigger that guards
    installations. The locale \<open>lease_queue\<close> is the contract of leases, interpreted on both.
  \<^item> \<open>Effect_Monad\<close>: code that changes a state and may raise, with a weakest-precondition
    calculus. \<open>Url\<close>: what the code uses of URLs and paths. \<open>Workspace_Manager\<close> (\<open>workspace.py\<close>,
    \<open>git_auth.py\<close>, \<open>lifecycle.py\<close>): the journal, the git runner and the manager, over a host whose
    answers are arbitrary and with a trace of what it is asked to do.
  \<^item> \<open>Architecture_Scan\<close> (\<open>architecture.py\<close>): the bounded walk of the source roots and the import
    rules, in the same monad; the tree is a datatype, a parsed source its import nodes.
    \<open>Command_Policy\<close> (\<open>command_policy.py\<close>, \<open>command_tool.py\<close>): word splitting, the allowlist, the
    denials of the free tool, and the authorization of a phase. \<open>Sandbox\<close> (\<open>sandbox.py\<close>): the
    runner of profiles over a Docker client whose answers are arbitrary, with a cancellation
    possible at every await and the calls it makes on record.
  \<^item> \<open>Workflow_Service\<close> (\<open>service.py\<close>): decisions, the positions of gates, what a job runs.
    \<open>Service_Runtime\<close> (the same file): the worker's round, a job racing its lease, what each outcome
    does to the queue and the checkpoint, cancellation, and the reconciler; graph, queue and
    publisher answer with a value or an exception, and what is asked of them is on record.
  \<^item> \<open>Text_Edit\<close> (the replace routine of \<open>workspace_runtime.py\<close> and its copy in \<open>tools.py\<close>): the
    exact search, the two tolerant searches by lines, and the splice. \<open>Workspace_Files\<close>: a tree of
    files, folders and symbolic links, \<open>realpath\<close> as a walk with a measure, \<open>fnmatch\<close>, and reads
    and writes on record. \<open>Agent_Tools\<close> (\<open>app/agents/tools.py\<close>): every tool; the locale
    \<open>workspace_policy\<close> is what survives each access of a tool, interpreted for confinement and for the
    account of the edits. \<open>Tool_Loop\<close> (\<open>tool_loop.py\<close>, \<open>hooks.py\<close>): the rounds of a run, a
    \<open>partial_function\<close> into option whose \<open>None\<close> is a run that never ends; the locale \<open>tool_box\<close> lifts
    what provider, tools and audit log keep to the whole loop.
  \<^item> \<open>Workspace_Evidence\<close> (\<open>executor.py\<close>, \<open>python_test_integrity.py\<close>): the dictionaries that carry what
    an attempt did, and their merge with those of earlier attempts. \<open>Command_Runner\<close>
    (\<open>workspace_runtime.py\<close>): the local and the container runner of a check, the environment they pass
    on, and the validator built on them. \<open>Workspace_Runtime\<close> (the same file): the operations of an answer
    on the files, the tools' edits folded into one change per path, the checks, the snapshot of git and
    the refresh of the evidence from disk; the locale \<open>operation_policy\<close> is what survives each access of an
    operation, interpreted for confinement. \<open>Agent_Executor\<close> (\<open>executor.py\<close>, \<open>grounding.py\<close>): the
    rounds of correction around the tool loop and the runtime, what one round and one attempt leave for
    the next, the evidence in the prompt, and the answer.

  \<^bold>\<open>What the lemmas show.\<close> The reducers protect decisions and make parallel branches commute; the
  budgets never commit more than their ceilings in any interleaving, and what a worker spends is in
  its update and on its task; the breaker lets one probe through; the router resolves every tier
  and the registry picks the cheapest executor; an approval needs every criterion and no failing
  signal, and a sandbox report only takes away; a recorded build strategy is rebuilt exactly or
  refused; a worker leaves its task settled, and completed only with an approval behind it; the
  fan-out shares what is left of the budget; replanning, the retry and the gate do what they
  announce; and every run of the graph ends with what it earned: ready for review only with
  complete delivery evidence, completed only with an approved or explicitly accepted plan.
  A start is admitted once, and alike by both queues; a job of the durable queue moves along its
  life cycle under any interleaving, only the holder of a lease settles its job, and the in-memory
  counters account for every job. Whatever its host answers, the workspace manager runs git only
  inside its root, sends a credential only to its own repository, removes only checkouts it owns
  and keeps retained ones. An authorized build command stays inside the checkout; a phase's container
  is removed or remembered, whatever Docker does, and the memory blocks the workflow until a removal
  is confirmed; a successful run has done all of its profile; and a passing scan has read every
  governed source. A decision answers the gates it was made for, all of them and no other. A delivered job is
  acknowledged exactly when its run returned and failed only for an error of its own; a cancellation
  leaves completed and cancelled tasks; the reconciler cleans up only behind workflows that are done
  with their workspace. An edit replaces one passage, alike in both engines; the tools reach only what
  their policy permits; the tool loop always ends, within one round more than its limit of calls,
  the edits it reports are all it did to the files, and a call the operator denies never runs. The
  operations of an answer stay below the root, and one that does not fit becomes feedback; what an
  attempt publishes, deletes and compares is what is on disk when it ends, and so is what the executor
  answers after its rounds of correction, which end, and for the reason they report.
  Some theorems and lemmas show the opposite of an intention: a search reads through a link what a
  read refuses, an operation rewrites the git configuration, the published text of a file has lost its
  carriage returns, a correction that the budget refuses midway leaves edits that no evidence names, an
  empty file cannot be read, the occurrence zero edits the last one, a probe that ends in an error of
  the request wedges the breaker, a flag glued to its argument passes the denials, a workspace in use
  when a decision arrives ends its workflow, equal criterion texts erase a failure the code found, an
  inconsistent report escapes the veto, an unbound lowest tier is served by a stronger one, and checks
  that fail twice on the same commit end the workflow as completed.

  \<^bold>\<open>Conventions, bounds and fuel.\<close> Python's \<open>str\<close> is a list of characters below 256; messages
  that no code inspects are written without accents. Money and scores are exact rationals: IEEE
  rounding is not modelled, and integers are unbounded, as Python's are. Times are microseconds
  and every reading of the clock is an argument. A dictionary whose order is observed is an
  association list. Exceptions are values of the sum \<open>result\<close>, with the kinds the code tells
  apart. The recursions are structural or have a measure (the search of the output ceiling halves
  its interval; the retries count down from \<open>max_retries\<close>; a walk of a path counts the links it has
  not met; the corrections count down the rounds left), and the tool loop is proved to return, so no fuel is used. What is outside
  \<open>app/\<close> is a parameter: the vendor's answer and the JSON rendering of a request, pydantic's
  dumps and validation, the fixed texts of prompts, regular expressions and the globs of \<open>pathlib\<close>,
  hashing, the lines of a unified diff, processes and their output, and the
  implementations behind the graph's protocols (planner, executors, publisher, memory, runner,
  recorders). The runtime of the graph contributes its documented behaviour: a node's update is
  merged by the reducers, a fan-out's updates in order, the conditional edges read the new state,
  and a node that raises stops the run.

  \<^bold>\<open>Not modelled.\<close> The planner, the advisor, and the texts of prompts; the SCM client beyond the
  collection of changes; the collection of evidence from a repository; permissions, full disks and other
  errors of the file system that depend on the host, and the kernel's limit on links; the service's dumps for the API and the HTTP
  interface; memory, audit, telemetry and settings; the product and
  superagent subsystems; the evaluation harness; the command line and the web pages.
\<close>

end
